(* ===== verification/Prelude.thy ===== *)
theory Prelude
  imports Main "HOL-Library.Sublist"
begin

text \<open>
  Shared ground of the development: Rust strings as byte strings (\<open>trim\<close>, \<open>contains\<close>,
  \<open>find\<close>, \<open>split\<close>, decimal printing and parsing), saturating machine arithmetic on \<open>nat\<close>
  and \<open>int\<close>, and the generic lemmas on lists and association maps the components share.
\<close>

named_theorems sat_simps \<open>unfolding rules of the saturating operations\<close>
named_theorems str_simps \<open>unfolding rules of the string operations\<close>

type_synonym ('e, 'a) result = "'e + 'a"

section \<open>Strings\<close>

text \<open>
  A Rust \<^verbatim>\<open>String\<close> is its UTF-8 byte sequence: \<open>length\<close> is \<^verbatim>\<open>str::len\<close>. \<open>ws_codes\<close> lists
  the encodings of the characters with the Unicode property White\_Space, which is what
  \<^verbatim>\<open>str::trim\<close> strips.
\<close>

definition ws_codes :: "string list" where
  "ws_codes = [[CHR 0x20], [CHR 0x09], [CHR 0x0A], [CHR 0x0B], [CHR 0x0C], [CHR 0x0D],
     [CHR 0xC2, CHR 0x85], [CHR 0xC2, CHR 0xA0], [CHR 0xE1, CHR 0x9A, CHR 0x80],
     [CHR 0xE2, CHR 0x80, CHR 0x80], [CHR 0xE2, CHR 0x80, CHR 0x81],
     [CHR 0xE2, CHR 0x80, CHR 0x82], [CHR 0xE2, CHR 0x80, CHR 0x83],
     [CHR 0xE2, CHR 0x80, CHR 0x84], [CHR 0xE2, CHR 0x80, CHR 0x85],
     [CHR 0xE2, CHR 0x80, CHR 0x86], [CHR 0xE2, CHR 0x80, CHR 0x87],
     [CHR 0xE2, CHR 0x80, CHR 0x88], [CHR 0xE2, CHR 0x80, CHR 0x89],
     [CHR 0xE2, CHR 0x80, CHR 0x8A], [CHR 0xE2, CHR 0x80, CHR 0xA8],
     [CHR 0xE2, CHR 0x80, CHR 0xA9], [CHR 0xE2, CHR 0x80, CHR 0xAF],
     [CHR 0xE2, CHR 0x81, CHR 0x9F], [CHR 0xE3, CHR 0x80, CHR 0x80]]"

definition code_at :: "string list \<Rightarrow> string \<Rightarrow> string option" where
  "code_at codes s = find (\<lambda>w. w \<noteq> [] \<and> take (length w) s = w) codes"

lemma code_at_SomeD: "code_at codes s = Some w \<Longrightarrow> w \<noteq> [] \<and> s \<noteq> []"
  by (auto simp: code_at_def find_Some_iff)

function strip :: "string list \<Rightarrow> string \<Rightarrow> string" where
  "strip codes s =
     (case code_at codes s of None \<Rightarrow> s | Some w \<Rightarrow> strip codes (drop (length w) s))"
  by pat_completeness auto
termination
  by (relation "measure (\<lambda>(codes, s). length s)") (auto dest: code_at_SomeD)

declare strip.simps [simp del]

definition trim_start :: "string \<Rightarrow> string" where
  "trim_start s = strip ws_codes s"

definition trim_end :: "string \<Rightarrow> string" where
  "trim_end s = rev (strip (map rev ws_codes) (rev s))"

definition trim :: "string \<Rightarrow> string" where
  "trim s = trim_end (trim_start s)"

lemma strip_Nil [simp]: "strip codes [] = []"
  by (subst strip.simps) (auto split: option.splits dest: code_at_SomeD)

lemma trim_Nil [simp]: "trim [] = []"
  by (simp add: trim_def trim_start_def trim_end_def)

lemma strip_suffix: "\<exists>p. s = p @ strip codes s"
proof (induction codes s rule: strip.induct)
  case (1 codes s)
  show ?case
  proof (cases "code_at codes s")
    case None
    then show ?thesis by (subst strip.simps) simp
  next
    case (Some w)
    then obtain p where p: "drop (length w) s = p @ strip codes (drop (length w) s)"
      using 1 by blast
    have "s = take (length w) s @ drop (length w) s" by simp
    then have "s = (take (length w) s @ p) @ strip codes (drop (length w) s)"
      using p by (metis append.assoc)
    moreover have "strip codes s = strip codes (drop (length w) s)"
      using Some by (subst strip.simps) simp
    ultimately show ?thesis by metis
  qed
qed

lemma strip_fix: "code_at codes s = None \<Longrightarrow> strip codes s = s"
  by (subst strip.simps) simp

lemma code_at_strip: "code_at codes (strip codes s) = None"
proof (induction codes s rule: strip.induct)
  case (1 codes s)
  then show ?case by (cases "code_at codes s") (simp_all add: strip.simps [of codes s])
qed

fun contains :: "string \<Rightarrow> string \<Rightarrow> bool" where
  "contains n [] = (n = [])"
| "contains n (c # cs) = (take (length n) (c # cs) = n \<or> contains n cs)"

fun find_str :: "string \<Rightarrow> string \<Rightarrow> nat option" where
  "find_str n [] = (if n = [] then Some 0 else None)"
| "find_str n (c # cs) =
     (if take (length n) (c # cs) = n then Some 0 else map_option Suc (find_str n cs))"

definition starts_with :: "string \<Rightarrow> string \<Rightarrow> bool" where
  "starts_with s p \<longleftrightarrow> take (length p) s = p"

fun split_on :: "char \<Rightarrow> string \<Rightarrow> string list" where
  "split_on d [] = [[]]"
| "split_on d (c # cs) =
     (if c = d then [] # split_on d cs
      else (case split_on d cs of [] \<Rightarrow> [[c]] | w # ws \<Rightarrow> (c # w) # ws))"

fun join_str :: "string \<Rightarrow> string list \<Rightarrow> string" where
  "join_str sep [] = []"
| "join_str sep [w] = w"
| "join_str sep (w # ws) = w @ sep @ join_str sep ws"

lemma split_on_nonempty: "split_on d s \<noteq> []"
  by (induction s) (auto split: list.splits)

lemma join_split_on: "join_str [d] (split_on d s) = s"
proof (induction s)
  case Nil
  then show ?case by simp
next
  case (Cons c cs)
  then show ?case
    by (cases "split_on d cs" rule: list.exhaust; cases "tl (split_on d cs)")
      (auto simp: split_on_nonempty split: list.splits)
qed

lemma find_str_bound: "find_str n s = Some i \<Longrightarrow> i + length n \<le> length s"
proof (induction s arbitrary: i)
  case Nil
  then show ?case by (simp split: if_splits)
next
  case (Cons c cs)
  show ?case
  proof (cases "take (length n) (c # cs) = n")
    case True
    then have "length n \<le> length (c # cs)"
      by (metis length_take min.cobounded1)
    with True Cons.prems show ?thesis by simp
  next
    case False
    with Cons show ?thesis by (auto split: if_splits)
  qed
qed

lemma find_str_take: "find_str n s = Some i \<Longrightarrow> take (length n) (drop i s) = n"
  by (induction s arbitrary: i) (auto split: if_splits)

definition to_lower_char :: "char \<Rightarrow> char" where
  "to_lower_char c = (let n = (of_char c :: nat) in if 65 \<le> n \<and> n \<le> 90 then char_of (n + 32) else c)"

definition to_ascii_lowercase :: "string \<Rightarrow> string" where
  "to_ascii_lowercase s = map to_lower_char s"

definition to_upper_char :: "char \<Rightarrow> char" where
  "to_upper_char c = (let n = (of_char c :: nat) in if 97 \<le> n \<and> n \<le> 122 then char_of (n - 32) else c)"

definition to_ascii_uppercase :: "string \<Rightarrow> string" where
  "to_ascii_uppercase s = map to_upper_char s"

definition is_ascii_alpha :: "char \<Rightarrow> bool" where
  "is_ascii_alpha c = (let n = (of_char c :: nat) in (65 \<le> n \<and> n \<le> 90) \<or> (97 \<le> n \<and> n \<le> 122))"

definition is_ascii_digit :: "char \<Rightarrow> bool" where
  "is_ascii_digit c = (let n = (of_char c :: nat) in 48 \<le> n \<and> n \<le> 57)"

definition is_ascii_alnum :: "char \<Rightarrow> bool" where
  "is_ascii_alnum c \<longleftrightarrow> is_ascii_alpha c \<or> is_ascii_digit c"

section \<open>Decimal printing and parsing\<close>

definition digit_char :: "nat \<Rightarrow> char" where
  "digit_char d = char_of (48 + d)"

definition char_digit :: "char \<Rightarrow> nat option" where
  "char_digit c = (let n = of_char c in if 48 \<le> n \<and> n \<le> 57 then Some (n - 48) else None)"

lemma char_digit_digit_char [simp]: "d < 10 \<Longrightarrow> char_digit (digit_char d) = Some d"
  by (simp add: char_digit_def digit_char_def Let_def)

fun nat_dec :: "nat \<Rightarrow> string" where
  "nat_dec n = (if n < 10 then [digit_char n] else nat_dec (n div 10) @ [digit_char (n mod 10)])"

declare nat_dec.simps [simp del]

definition int_dec :: "int \<Rightarrow> string" where
  "int_dec i = (if i < 0 then CHR ''-'' # nat_dec (nat (- i)) else nat_dec (nat i))"

fun digits_acc :: "nat \<Rightarrow> string \<Rightarrow> nat option" where
  "digits_acc acc [] = Some acc"
| "digits_acc acc (c # cs) =
     (case char_digit c of None \<Rightarrow> None | Some d \<Rightarrow> digits_acc (10 * acc + d) cs)"

definition parse_digits :: "string \<Rightarrow> nat option" where
  "parse_digits s = (if s = [] then None else digits_acc 0 s)"

text \<open>\<^verbatim>\<open>str::parse::<u64>\<close> and \<^verbatim>\<open>str::parse::<i64>\<close>: an optional sign, digits only, range checked.\<close>

definition parse_u64 :: "string \<Rightarrow> nat option" where
  "parse_u64 s =
     (case parse_digits (case s of c # cs \<Rightarrow> if c = CHR ''+'' then cs else s | [] \<Rightarrow> s) of
        None \<Rightarrow> None
      | Some n \<Rightarrow> if n < 2 ^ 64 then Some n else None)"

definition parse_i64 :: "string \<Rightarrow> int option" where
  "parse_i64 s =
     (case s of [] \<Rightarrow> None
      | c # cs \<Rightarrow>
          if c = CHR ''-'' then
            (case parse_digits cs of None \<Rightarrow> None
             | Some n \<Rightarrow> if n \<le> 2 ^ 63 then Some (- int n) else None)
          else
            (case parse_digits (if c = CHR ''+'' then cs else s) of None \<Rightarrow> None
             | Some n \<Rightarrow> if n < 2 ^ 63 then Some (int n) else None))"

lemma nat_dec_nonempty [simp]: "nat_dec n \<noteq> []"
  by (subst nat_dec.simps) simp

lemma digits_acc_append:
  "digits_acc acc (xs @ ys) = (case digits_acc acc xs of None \<Rightarrow> None | Some a \<Rightarrow> digits_acc a ys)"
  by (induction xs arbitrary: acc) (auto split: option.splits)

lemma digits_acc_nat_dec: "digits_acc 0 (nat_dec n) = Some n"
proof (induction n rule: nat_dec.induct)
  case (1 n)
  show ?case
  proof (cases "n < 10")
    case True
    then show ?thesis by (subst nat_dec.simps) simp
  next
    case False
    with 1 show ?thesis by (subst nat_dec.simps) (simp add: digits_acc_append)
  qed
qed

lemma nat_dec_digits: "c \<in> set (nat_dec n) \<Longrightarrow> is_ascii_digit c"
proof (induction n rule: nat_dec.induct)
  case (1 n)
  have d: "is_ascii_digit (digit_char d)" if "d < 10" for d
    using that by (simp add: is_ascii_digit_def digit_char_def Let_def)
  show ?case
  proof (cases "n < 10")
    case True
    with 1 show ?thesis by (subst (asm) (2) nat_dec.simps) (simp add: d)
  next
    case False
    with 1 d show ?thesis by (subst (asm) (2) nat_dec.simps) auto
  qed
qed

lemma hd_nat_dec_sign: "nat_dec n = c # cs \<Longrightarrow> c \<noteq> CHR ''-'' \<and> c \<noteq> CHR ''+''"
  using nat_dec_digits [of c n] by (auto simp: is_ascii_digit_def)

lemma parse_i64_int_dec:
  assumes "- (2 ^ 63) \<le> i" and "i < 2 ^ 63"
  shows "parse_i64 (int_dec i) = Some i"
proof (cases "i < 0")
  case True
  have "nat (- i) \<le> 2 ^ 63" using assms(1) by simp
  with True show ?thesis
    by (simp add: parse_i64_def int_dec_def parse_digits_def digits_acc_nat_dec)
next
  case False
  obtain c cs where c: "nat_dec (nat i) = c # cs" by (cases "nat_dec (nat i)") auto
  with hd_nat_dec_sign have "c \<noteq> CHR ''-''" "c \<noteq> CHR ''+''" by auto
  moreover have "parse_digits (c # cs) = Some (nat i)"
    by (simp add: parse_digits_def digits_acc_nat_dec flip: c)
  moreover have "nat i < 2 ^ 63" using assms(2) False by simp
  ultimately show ?thesis using False c by (simp add: parse_i64_def int_dec_def)
qed

section \<open>Saturating arithmetic\<close>

definition u64_max :: nat where "u64_max = 2 ^ 64 - 1"
definition i64_max :: int where "i64_max = 2 ^ 63 - 1"
definition i64_min :: int where "i64_min = - (2 ^ 63)"

definition sat_add64 :: "nat \<Rightarrow> nat \<Rightarrow> nat" where
  [sat_simps]: "sat_add64 a b = min (a + b) u64_max"

definition sat_i64 :: "int \<Rightarrow> int" where
  [sat_simps]: "sat_i64 x = max i64_min (min i64_max x)"

definition sat_sub_i64 :: "int \<Rightarrow> int \<Rightarrow> int" where
  [sat_simps]: "sat_sub_i64 a b = sat_i64 (a - b)"

definition sat_add_i64 :: "int \<Rightarrow> int \<Rightarrow> int" where
  [sat_simps]: "sat_add_i64 a b = sat_i64 (a + b)"

text \<open>Plain arithmetic on \<^verbatim>\<open>i64\<close> wraps, as in a release build.\<close>

definition wrap_i64 :: "int \<Rightarrow> int" where
  "wrap_i64 x = (x + 2 ^ 63) mod 2 ^ 64 - 2 ^ 63"

definition sat_mul_i64 :: "int \<Rightarrow> int \<Rightarrow> int" where
  [sat_simps]: "sat_mul_i64 a b = sat_i64 (a * b)"

lemma wrap_i64_id: "i64_min \<le> x \<Longrightarrow> x \<le> i64_max \<Longrightarrow> wrap_i64 x = x"
  by (simp add: wrap_i64_def i64_min_def i64_max_def)

lemma sat_add64_le [simp]: "sat_add64 a b \<le> u64_max"
  by (simp add: sat_add64_def)

lemma sat_add64_mono: "a \<le> sat_add64 a b \<or> u64_max < a"
  by (auto simp: sat_add64_def)

lemma sat_add64_assoc: "sat_add64 (sat_add64 a b) c = sat_add64 a (sat_add64 b c)"
  by (simp add: sat_add64_def)

lemma sat_add64_commute: "sat_add64 a b = sat_add64 b a"
  by (simp add: sat_add64_def add.commute)

lemma sat_add64_exact: "a + b \<le> u64_max \<Longrightarrow> sat_add64 a b = a + b"
  by (simp add: sat_add64_def)

section \<open>Lists and maps\<close>

definition is_some :: "'a option \<Rightarrow> bool" where
  "is_some x \<longleftrightarrow> x \<noteq> None"

lemma is_some_simps [simp]: "is_some (Some x)" "\<not> is_some None"
  by (simp_all add: is_some_def)

definition unwrap_or :: "'a option \<Rightarrow> 'a \<Rightarrow> 'a" where
  "unwrap_or x d = (case x of Some v \<Rightarrow> v | None \<Rightarrow> d)"

lemma unwrap_or_simps [simp]: "unwrap_or (Some v) d = v" "unwrap_or None d = d"
  by (simp_all add: unwrap_or_def)

definition filter_opt :: "('a \<Rightarrow> bool) \<Rightarrow> 'a option \<Rightarrow> 'a option" where
  "filter_opt P x = (case x of Some v \<Rightarrow> if P v then Some v else None | None \<Rightarrow> None)"

lemma filter_opt_simps [simp]:
  "filter_opt P None = None" "filter_opt P (Some v) = (if P v then Some v else None)"
  by (simp_all add: filter_opt_def)

end
