(* ===== verification/Json.thy ===== *)
theory Json
  imports Btree "HOL-Library.Word"
begin

text \<open>
  JSON values as the code sees them through \<^verbatim>\<open>serde_json::Value\<close>: objects are maps in ascending
  key order, numbers are \<^verbatim>\<open>u64\<close>, negative \<^verbatim>\<open>i64\<close> or \<^verbatim>\<open>f64\<close>. A floating point value is carried as its
  IEEE bit pattern. Only the accessors the code calls are here.
\<close>

type_synonym f64 = "64 word"

datatype json_num = PosInt nat | NegInt int | Float f64

datatype json =
    JNull
  | JBool bool
  | JNum json_num
  | JStr string
  | JArr "json list"
  | JObj "(string \<times> json) list"

fun json_get :: "json \<Rightarrow> string \<Rightarrow> json option" where
  "json_get (JObj m) k = bt_get m k"
| "json_get _ _ = None"

fun json_path :: "json \<Rightarrow> string list \<Rightarrow> json option" where
  "json_path v [] = Some v"
| "json_path v (k # ks) = (case json_get v k of None \<Rightarrow> None | Some w \<Rightarrow> json_path w ks)"

fun as_str :: "json \<Rightarrow> string option" where
  "as_str (JStr s) = Some s"
| "as_str _ = None"

fun as_bool :: "json \<Rightarrow> bool option" where
  "as_bool (JBool b) = Some b"
| "as_bool _ = None"

fun as_array :: "json \<Rightarrow> json list option" where
  "as_array (JArr xs) = Some xs"
| "as_array _ = None"

fun as_object :: "json \<Rightarrow> (string \<times> json) list option" where
  "as_object (JObj m) = Some m"
| "as_object _ = None"

fun as_u64 :: "json \<Rightarrow> nat option" where
  "as_u64 (JNum (PosInt n)) = Some n"
| "as_u64 _ = None"

fun as_i64 :: "json \<Rightarrow> int option" where
  "as_i64 (JNum (PosInt n)) = (if int n \<le> i64_max then Some (int n) else None)"
| "as_i64 (JNum (NegInt i)) = Some i"
| "as_i64 _ = None"

definition jnat :: "nat \<Rightarrow> json" where
  "jnat n = JNum (PosInt n)"

definition jint :: "int \<Rightarrow> json" where
  "jint i = JNum (if i < 0 then NegInt i else PosInt (nat i))"

definition jopt :: "('a \<Rightarrow> json) \<Rightarrow> 'a option \<Rightarrow> json" where
  "jopt f x = (case x of None \<Rightarrow> JNull | Some v \<Rightarrow> f v)"

definition jobj :: "(string \<times> json) list \<Rightarrow> json" where
  "jobj kvs = JObj (bt_of_list kvs)"

lemma jnat_inject [simp]: "jnat a = jnat b \<longleftrightarrow> a = b"
  by (simp add: jnat_def)

lemma jint_inject [simp]: "jint a = jint b \<longleftrightarrow> a = b"
  by (auto simp: jint_def split: if_splits)

lemma jopt_inject: "(\<And>a b. f a = f b \<longleftrightarrow> a = b) \<Longrightarrow> (\<And>a. f a \<noteq> JNull) \<Longrightarrow> jopt f x = jopt f y \<longleftrightarrow> x = y"
  by (cases x; cases y) (auto simp: jopt_def dest: sym)

lemma as_i64_jint: "i64_min \<le> i \<Longrightarrow> i \<le> i64_max \<Longrightarrow> as_i64 (jint i) = Some i"
  by (auto simp: jint_def)

end
