(* ===== verification/Proto.thy ===== *)
theory Proto
  imports Json
begin

text \<open>
  The data model shared by server and agent (\<^verbatim>\<open>crates/gse-proto/src/lib.rs\<close>) and the error codes of
  \<^verbatim>\<open>crates/dataplane-core/src/error.rs\<close>: job states, requests and replies, file endpoints, agent
  specs, and the two error types with the conversions between them.
\<close>

section \<open>Errors\<close>

datatype error_code =
  NotFound | InvalidArgument | QueryFailed | Unimplemented | EngineInitFailed | ConfigInvalid
  | Unavailable

fun error_code_as_str :: "error_code \<Rightarrow> string" where
  "error_code_as_str NotFound = ''not_found''"
| "error_code_as_str InvalidArgument = ''invalid_argument''"
| "error_code_as_str QueryFailed = ''query_failed''"
| "error_code_as_str Unimplemented = ''unimplemented''"
| "error_code_as_str EngineInitFailed = ''engine_init_failed''"
| "error_code_as_str ConfigInvalid = ''config_invalid''"
| "error_code_as_str Unavailable = ''unavailable''"

record dataplane_error =
  de_code :: error_code
  de_message :: string

record gse_error =
  ge_code :: string
  ge_message :: string

definition gse_err :: "string \<Rightarrow> string \<Rightarrow> gse_error" where
  "gse_err c m = \<lparr>ge_code = c, ge_message = m\<rparr>"

definition gse_of_dataplane :: "dataplane_error \<Rightarrow> gse_error" where
  "gse_of_dataplane e = gse_err (error_code_as_str (de_code e)) (de_message e)"

definition error_code_from_str :: "string \<Rightarrow> error_code" where
  "error_code_from_str s =
     (if s = ''not_found'' then NotFound
      else if s = ''invalid_argument'' then InvalidArgument
      else if s = ''query_failed'' then QueryFailed
      else if s = ''unimplemented'' then Unimplemented
      else if s = ''engine_init_failed'' then EngineInitFailed
      else if s = ''config_invalid'' then ConfigInvalid
      else Unavailable)"

definition dataplane_of_gse :: "gse_error \<Rightarrow> dataplane_error" where
  "dataplane_of_gse e = \<lparr>de_code = error_code_from_str (ge_code e), de_message = ge_message e\<rparr>"

lemma error_code_roundtrip: "error_code_from_str (error_code_as_str c) = c"
  by (cases c) (simp_all add: error_code_from_str_def)

lemma gse_err_sel [simp]: "ge_code (gse_err c m) = c" "ge_message (gse_err c m) = m"
  by (simp_all add: gse_err_def)

section \<open>Jobs\<close>

datatype job_status =
  Pending | Dispatched | Running | Succeeded | Failed | Timeout | Rejected | Lost

fun is_terminal :: "job_status \<Rightarrow> bool" where
  "is_terminal Succeeded = True"
| "is_terminal Failed = True"
| "is_terminal Timeout = True"
| "is_terminal Rejected = True"
| "is_terminal Lost = True"
| "is_terminal _ = False"

fun status_as_str :: "job_status \<Rightarrow> string" where
  "status_as_str Pending = ''pending''"
| "status_as_str Dispatched = ''dispatched''"
| "status_as_str Running = ''running''"
| "status_as_str Succeeded = ''succeeded''"
| "status_as_str Failed = ''failed''"
| "status_as_str Timeout = ''timeout''"
| "status_as_str Rejected = ''rejected''"
| "status_as_str Lost = ''lost''"

definition status_parse :: "string \<Rightarrow> job_status option" where
  "status_parse v =
     (if v = ''pending'' then Some Pending
      else if v = ''dispatched'' then Some Dispatched
      else if v = ''running'' then Some Running
      else if v = ''succeeded'' then Some Succeeded
      else if v = ''failed'' then Some Failed
      else if v = ''timeout'' then Some Timeout
      else if v = ''rejected'' then Some Rejected
      else if v = ''lost'' then Some Lost
      else None)"

lemma status_parse_as_str [simp]: "status_parse (status_as_str s) = Some s"
  by (cases s) (simp_all add: status_parse_def)

lemma status_as_str_inject [simp]: "status_as_str a = status_as_str b \<longleftrightarrow> a = b"
  by (metis option.inject status_parse_as_str)

lemma status_parse_SomeD: "status_parse v = Some s \<Longrightarrow> v = status_as_str s"
  by (auto simp: status_parse_def split: if_splits)

definition default_job_kind :: string where
  "default_job_kind = ''script''"

record job_exec =
  je_job_id :: string
  je_kind :: string
  je_interpreter :: string
  je_script :: string
  je_args :: "string list"
  je_env :: "(string, string) btmap"
  je_working_dir :: "string option"
  je_timeout_secs :: nat
  je_stdout_limit_bytes :: nat
  je_stderr_limit_bytes :: nat

record agent_upgrade_spec =
  us_binary_path :: string
  us_sha256 :: string

record job_ack =
  ja_job_id :: string
  ja_accepted :: bool
  ja_reason :: "string option"

record job_result =
  jr_job_id :: string
  jr_status :: job_status
  jr_exit_code :: "int option"
  jr_signal :: "int option"
  jr_stdout :: string
  jr_stdout_truncated :: bool
  jr_stderr :: string
  jr_stderr_truncated :: bool
  jr_started_at_micros :: int
  jr_finished_at_micros :: int
  jr_error :: "string option"

section \<open>File transfer\<close>

datatype file_endpoint = EpAgent string string | EpServerTemp "string option"

fun ep_agent_id :: "file_endpoint \<Rightarrow> string option" where
  "ep_agent_id (EpAgent a p) = Some a"
| "ep_agent_id (EpServerTemp f) = None"

fun ep_path :: "file_endpoint \<Rightarrow> string option" where
  "ep_path (EpAgent a p) = Some p"
| "ep_path (EpServerTemp f) = None"

fun ep_file_id :: "file_endpoint \<Rightarrow> string option" where
  "ep_file_id (EpServerTemp f) = filter_opt (\<lambda>s. s \<noteq> []) f"
| "ep_file_id (EpAgent a p) = None"

record file_read_req =
  rq_job_id :: string
  rq_path :: string
  rq_offset :: nat
  rq_length :: nat
  rq_max_bytes :: nat

record file_read_reply =
  rr_job_id :: string
  rr_size :: nat
  rr_offset :: nat
  rr_eof :: bool
  rr_data_b64 :: string
  rr_chunk_sha256 :: string
  rr_file_sha256 :: "string option"
  rr_error :: "string option"

record file_write_req =
  wq_job_id :: string
  wq_path :: string
  wq_offset :: nat
  wq_eof :: bool
  wq_data_b64 :: string
  wq_chunk_sha256 :: string
  wq_file_sha256 :: "string option"

record file_write_reply =
  wr_job_id :: string
  wr_written :: nat
  wr_eof :: bool
  wr_file_sha256 :: "string option"
  wr_error :: "string option"

section \<open>Agent specs\<close>

record spec_params =
  sp_heartbeat_interval_secs :: nat
  sp_allowed_interpreters :: "string list"
  sp_job_default_interpreter :: string
  sp_max_concurrent_jobs :: nat
  sp_job_work_dir :: "string option"
  sp_otlp_enabled :: bool
  sp_otlp_listen :: string
  sp_otlp_max_body_bytes :: nat
  sp_otlp_token :: "string option"
  sp_otlp_allowed_cidrs :: "string list"
  sp_token :: "string option"
  sp_cpu_limit_percent :: "int option"
  sp_mem_limit_percent :: "int option"
  sp_log_level :: string

definition default_spec_params :: spec_params where
  "default_spec_params =
     \<lparr>sp_heartbeat_interval_secs = 30,
      sp_allowed_interpreters = [''bash'', ''sh'', ''python3''],
      sp_job_default_interpreter = ''bash'',
      sp_max_concurrent_jobs = 1,
      sp_job_work_dir = None,
      sp_otlp_enabled = False,
      sp_otlp_listen = ''0.0.0.0:4318'',
      sp_otlp_max_body_bytes = 8 * 1024 * 1024,
      sp_otlp_token = None,
      sp_otlp_allowed_cidrs = [],
      sp_token = None,
      sp_cpu_limit_percent = None,
      sp_mem_limit_percent = None,
      sp_log_level = ''info''\<rparr>"

record spec_item =
  si_item_id :: string
  si_name :: string
  si_kind :: string
  si_enabled :: bool
  si_collector :: json
  si_storage :: json

record agent_spec_wire =
  aw_params :: spec_params
  aw_items :: "spec_item list"

definition default_agent_spec_wire :: agent_spec_wire where
  "default_agent_spec_wire = \<lparr>aw_params = default_spec_params, aw_items = []\<rparr>"

record agent_spec_push =
  pu_revision :: string
  pu_spec :: "agent_spec_wire option"

definition default_agent_spec_push :: agent_spec_push where
  "default_agent_spec_push = \<lparr>pu_revision = [], pu_spec = None\<rparr>"

record agent_spec_ack =
  ak_revision :: string
  ak_outcome :: string
  ak_applied :: agent_spec_wire
  ak_not_enforced :: "string list"
  ak_detail :: string

definition NOT_ENFORCED_FIELDS :: "string list" where
  "NOT_ENFORCED_FIELDS = [''cpu_limit_percent'', ''mem_limit_percent'', ''log_level'']"

definition OUT_APPLIED :: string where "OUT_APPLIED = ''applied''"
definition OUT_UNCHANGED :: string where "OUT_UNCHANGED = ''unchanged''"
definition OUT_PARTIAL :: string where "OUT_PARTIAL = ''partial''"
definition OUT_REJECTED :: string where "OUT_REJECTED = ''rejected''"

section \<open>Session messages\<close>

record auth_request =
  aq_agent_id :: string
  aq_token :: string
  aq_version :: string

record auth_reply =
  ar_ok :: bool
  ar_reason :: "string option"

record upgrade_report =
  ur_started_at :: string
  ur_finished_at :: string
  ur_from_version :: string
  ur_to_version :: string
  ur_from_sha256 :: string
  ur_to_sha256 :: string
  ur_outcome :: string
  ur_detail :: string

record heartbeat =
  hb_agent_id :: string
  hb_ts_micros :: int
  hb_upgrade_result :: "upgrade_report option"
  hb_spec :: "agent_spec_ack option"

record heartbeat_reply =
  hr_spec_synced :: bool

record dataplane_addr_request =
  dq_agent_id :: string

record dataplane_addr_reply =
  dr_ok :: bool
  dr_ingest_url :: "string option"
  dr_host_id :: "string option"
  dr_reason :: "string option"

record command =
  cm_id :: string
  cm_name :: string
  cm_payload :: string

record receipt =
  rc_command_id :: string
  rc_ok :: bool
  rc_message :: "string option"

end
