(* ===== verification/Session.thy ===== *)
theory Session
  imports Proto
begin

text \<open>
  \<^verbatim>\<open>crates/gse-server-core/src/session.rs\<close>: the session of one agent and the registry that holds at
  most one per agent id. The \<^verbatim>\<open>End\<close> of a session is its connection, named by its client id. The
  registry's \<^verbatim>\<open>HashMap\<close> is kept in key order; nothing the code does with it depends on the order.
\<close>

datatype session_state = Online | Checking | Offline | Closed

record session =
  se_agent_id :: string
  se_client_id :: nat
  se_state :: session_state
  se_last_seen_micros :: int
  se_connected_at_micros :: int

type_synonym registry = "(string, session) btmap"

definition session_new :: "string \<Rightarrow> nat \<Rightarrow> int \<Rightarrow> session" where
  "session_new agent_id client_id now =
     \<lparr>se_agent_id = agent_id, se_client_id = client_id, se_state = Online,
      se_last_seen_micros = now, se_connected_at_micros = now\<rparr>"

definition session_touch :: "int \<Rightarrow> session \<Rightarrow> session" where
  "session_touch now s = s\<lparr>se_last_seen_micros := now\<rparr>"

fun next_state :: "session_state \<Rightarrow> session_state" where
  "next_state Online = Checking"
| "next_state Checking = Offline"
| "next_state s = s"

definition session_advance :: "int \<Rightarrow> int \<Rightarrow> session \<Rightarrow> session" where
  "session_advance now window s =
     (if now - se_last_seen_micros s < window then s else s\<lparr>se_state := next_state (se_state s)\<rparr>)"

definition session_close :: "session \<Rightarrow> session" where
  "session_close s = s\<lparr>se_state := Closed\<rparr>"

section \<open>Registry\<close>

definition reg_insert :: "session \<Rightarrow> registry \<Rightarrow> session option \<times> registry" where
  "reg_insert s reg = (bt_get reg (se_agent_id s), bt_insert (se_agent_id s) s reg)"

definition reg_get :: "registry \<Rightarrow> string \<Rightarrow> session option" where
  "reg_get reg k = bt_get reg k"

definition reg_remove :: "string \<Rightarrow> registry \<Rightarrow> session option \<times> registry" where
  "reg_remove k reg = (bt_get reg k, bt_remove k reg)"

definition remove_if_client :: "string \<Rightarrow> nat \<Rightarrow> registry \<Rightarrow> bool \<times> registry" where
  "remove_if_client k client_id reg =
     (case bt_get reg k of
        Some s \<Rightarrow> if se_client_id s = client_id then (True, bt_remove k reg) else (False, reg)
      | None \<Rightarrow> (False, reg))"

definition reg_list :: "registry \<Rightarrow> session list" where
  "reg_list reg = map snd reg"

definition reg_update :: "string \<Rightarrow> (session \<Rightarrow> session) \<Rightarrow> registry \<Rightarrow> registry" where
  "reg_update k f reg = map (\<lambda>(k', s). (k', if k' = k then f s else s)) reg"

definition reg_touch :: "string \<Rightarrow> int \<Rightarrow> registry \<Rightarrow> bool \<times> registry" where
  "reg_touch k now reg = (is_some (bt_get reg k), reg_update k (session_touch now) reg)"

definition advance_all :: "int \<Rightarrow> int \<Rightarrow> registry \<Rightarrow> registry" where
  "advance_all now window reg = map (\<lambda>(k, s). (k, session_advance now window s)) reg"

definition set_state :: "string \<Rightarrow> session_state \<Rightarrow> registry \<Rightarrow> bool \<times> registry" where
  "set_state k st reg = (is_some (bt_get reg k), reg_update k (\<lambda>s. s\<lparr>se_state := st\<rparr>) reg)"

section \<open>Lemmas\<close>

definition reg_ok :: "registry \<Rightarrow> bool" where
  "reg_ok reg \<longleftrightarrow> bt_ok reg \<and> (\<forall>(k, s) \<in> set reg. se_agent_id s = k)"

lemma reg_update_get: "bt_get (reg_update k f reg) k' =
    (if k' = k then map_option f (bt_get reg k) else bt_get reg k')"
  by (induction reg) (auto simp: reg_update_def bt_get_def)

lemma advance_all_get: "bt_get (advance_all now window reg) k = map_option (session_advance now window) (bt_get reg k)"
  by (induction reg) (auto simp: advance_all_def bt_get_def)

lemma keys_reg_update [simp]: "map fst (reg_update k f reg) = map fst reg"
  by (simp add: reg_update_def case_prod_unfold comp_def)

lemma keys_advance_all [simp]: "map fst (advance_all now window reg) = map fst reg"
  by (simp add: advance_all_def case_prod_unfold comp_def)

lemma reg_ok_get: "reg_ok reg \<Longrightarrow> bt_get reg k = Some s \<Longrightarrow> se_agent_id s = k"
  by (auto simp: reg_ok_def dest!: bt_get_SomeD)

lemma reg_ok_insert: "reg_ok reg \<Longrightarrow> reg_ok (snd (reg_insert s reg))"
  using set_bt_insert [of "se_agent_id s" s reg]
  by (auto simp: reg_ok_def reg_insert_def bt_ok_insert)

lemma reg_ok_remove: "reg_ok reg \<Longrightarrow> reg_ok (bt_remove k reg)"
  by (auto simp: reg_ok_def bt_ok_remove) (auto simp: bt_remove_def)

lemma reg_ok_update:
  "reg_ok reg \<Longrightarrow> (\<And>s. se_agent_id (f s) = se_agent_id s) \<Longrightarrow> reg_ok (reg_update k f reg)"
  by (auto simp: reg_ok_def bt_ok_def reg_update_def case_prod_unfold comp_def)

lemma session_advance_sel [simp]:
  "se_agent_id (session_advance now w s) = se_agent_id s"
  "se_client_id (session_advance now w s) = se_client_id s"
  "se_last_seen_micros (session_advance now w s) = se_last_seen_micros s"
  by (simp_all add: session_advance_def)

lemma reg_ok_advance: "reg_ok reg \<Longrightarrow> reg_ok (advance_all now window reg)"
  by (auto simp: reg_ok_def bt_ok_def advance_all_def case_prod_unfold comp_def)

lemma remove_if_client_ok: "reg_ok reg \<Longrightarrow> reg_ok (snd (remove_if_client k c reg))"
  by (auto simp: remove_if_client_def reg_ok_remove split: option.splits)

section \<open>Properties\<close>

text \<open>The events that keep a session of an agent without a new authentication: a heartbeat that
  touches it, and a scan of the registry.\<close>

datatype session_event = Touch string int | Scan int

fun session_step :: "int \<Rightarrow> session_event \<Rightarrow> registry \<Rightarrow> registry" where
  "session_step window (Touch k now) reg = snd (reg_touch k now reg)"
| "session_step window (Scan now) reg = advance_all now window reg"

lemma session_steps_get:
  "bt_get reg k = Some s \<Longrightarrow> se_state s \<noteq> Online \<Longrightarrow>
     \<exists>s'. bt_get (foldl (\<lambda>r e. session_step window e r) reg es) k = Some s' \<and> se_state s' \<noteq> Online"
proof (induction es arbitrary: reg s)
  case Nil
  then show ?case by simp
next
  case (Cons e es)
  have "\<exists>s1. bt_get (session_step window e reg) k = Some s1 \<and> se_state s1 \<noteq> Online"
    using Cons.prems
    by (cases e; cases "se_state s") (auto simp: reg_touch_def reg_update_get session_touch_def
        advance_all_get session_advance_def)
  then show ?case using Cons.IH by (metis foldl_Cons)
qed

text \<open>C26: a session that missed one heartbeat window does not recover by heartbeats: once a scan has
  moved it out of \<^verbatim>\<open>Online\<close>, no sequence of heartbeats and scans brings it back (only a new session
  does), although jobs and spec pushes require \<^verbatim>\<open>Online\<close>.\<close>

theorem checking_session_never_recovers:
  assumes "bt_get reg k = Some s" "se_state s \<noteq> Online"
  shows "\<exists>s'. bt_get (foldl (\<lambda>r e. session_step window e r) reg es) k = Some s' \<and> se_state s' \<noteq> Online"
  using assms by (rule session_steps_get)

lemma checking_session_never_recovers_witness:
  "\<exists>s'. bt_get (foldl (\<lambda>r e. session_step 90 e r) (advance_all 100 90 [(''a'', session_new ''a'' 1 0)])
      [Touch ''a'' 101, Scan 102, Touch ''a'' 110]) ''a'' = Some s' \<and> se_state s' \<noteq> Online"
  by (rule checking_session_never_recovers [where s = "session_advance 100 90 (session_new ''a'' 1 0)"])
    (simp_all add: advance_all_def session_advance_def session_new_def bt_get_def)

text \<open>A session is declared offline only after silence: if at every scan the agent was heard within
  the window, the session stays as it is; and two scans past the window without a heartbeat are needed
  to take an online session to \<^verbatim>\<open>Offline\<close>.\<close>

lemma session_liveness:
  "bt_get (advance_all now window reg) k = Some s' \<longleftrightarrow>
     (\<exists>s. bt_get reg k = Some s \<and>
        (if now - se_last_seen_micros s < window then s' = s
         else s' = s\<lparr>se_state := next_state (se_state s)\<rparr>))"
  by (cases "bt_get reg k"; cases "now - se_last_seen_micros (the (bt_get reg k)) < window")
    (auto simp: advance_all_get session_advance_def)

text \<open>Cleaning up after a connection never touches a newer one: the removal takes away the session
  of that agent exactly when it belongs to the given connection, and leaves every other session.\<close>

lemma remove_if_client_exact:
  "bt_get (snd (remove_if_client k c reg)) k' =
      (if k' = k \<and> fst (remove_if_client k c reg) then None else bt_get reg k') \<and>
    fst (remove_if_client k c reg) = (map_option se_client_id (bt_get reg k) = Some c)"
  by (auto simp: remove_if_client_def bt_get_remove split: option.splits)

end
