(* ===== verification/Server_Config.thy ===== *)
theory Server_Config
  imports Proto
begin

text \<open>
  \<^verbatim>\<open>crates/gse-server-core/src/config.rs\<close>: the server's configuration, its defaults and the
  overriding by environment variables. Reading and decoding the TOML file is a parameter.
\<close>

record server_config =
  sc_listen :: string
  sc_auth_enabled :: bool
  sc_db :: string
  sc_http_enabled :: bool
  sc_http_listen :: string
  sc_dataplane_probe_interval_secs :: nat
  sc_http_web_dir :: "string option"
  sc_admin_password :: string
  sc_heartbeat_interval_secs :: nat
  sc_heartbeat_timeout_secs :: nat
  sc_session_probe_interval_secs :: nat
  sc_session_probe_failures_before_close :: nat
  sc_jobs_enabled :: bool
  sc_job_default_timeout_secs :: nat
  sc_job_max_timeout_secs :: nat
  sc_job_max_script_bytes :: nat
  sc_job_stdout_limit_bytes :: nat
  sc_job_stderr_limit_bytes :: nat
  sc_metrics_listen :: string
  sc_job_max_file_bytes :: nat
  sc_job_file_dir :: string
  sc_job_file_retain_secs :: nat
  sc_job_file_chunk_bytes :: nat
  sc_job_file_cleanup_interval_secs :: nat

definition default_server_config :: server_config where
  "default_server_config =
     \<lparr>sc_listen = ''0.0.0.0:7100'', sc_auth_enabled = True, sc_db = ''gse-server.db'',
      sc_http_enabled = True, sc_http_listen = ''127.0.0.1:7101'',
      sc_dataplane_probe_interval_secs = 30, sc_http_web_dir = None, sc_admin_password = [],
      sc_heartbeat_interval_secs = 30, sc_heartbeat_timeout_secs = 90,
      sc_session_probe_interval_secs = 15, sc_session_probe_failures_before_close = 3,
      sc_jobs_enabled = True, sc_job_default_timeout_secs = 300, sc_job_max_timeout_secs = 3600,
      sc_job_max_script_bytes = 262144, sc_job_stdout_limit_bytes = 1048576,
      sc_job_stderr_limit_bytes = 1048576, sc_metrics_listen = ''127.0.0.1:7102'',
      sc_job_max_file_bytes = 67108864, sc_job_file_dir = [], sc_job_file_retain_secs = 86400,
      sc_job_file_chunk_bytes = 1048576, sc_job_file_cleanup_interval_secs = 600\<rparr>"

definition resolved_job_file_dir :: "server_config \<Rightarrow> string" where
  "resolved_job_file_dir cfg =
     (if trim (sc_job_file_dir cfg) \<noteq> [] then sc_job_file_dir cfg else sc_db cfg @ ''.job-files'')"

definition max_agent_heartbeat_interval_secs :: "server_config \<Rightarrow> nat" where
  "max_agent_heartbeat_interval_secs cfg = max (sc_heartbeat_timeout_secs cfg div 3) 1"

definition env_true :: "string \<Rightarrow> bool" where
  "env_true v \<longleftrightarrow> v = ''1'' \<or> to_ascii_lowercase v = ''true''"

definition env_str :: "(string \<Rightarrow> string option) \<Rightarrow> string \<Rightarrow> (string \<Rightarrow> 'c \<Rightarrow> 'c) \<Rightarrow> 'c \<Rightarrow> 'c" where
  "env_str env k f c = (case env k of None \<Rightarrow> c | Some v \<Rightarrow> f v c)"

text \<open>A value that does not parse as \<^verbatim>\<open>u64\<close> leaves the setting as it is.\<close>

definition env_num :: "(string \<Rightarrow> string option) \<Rightarrow> string \<Rightarrow> (nat \<Rightarrow> 'c \<Rightarrow> 'c) \<Rightarrow> 'c \<Rightarrow> 'c" where
  "env_num env k f c =
     (case env k of None \<Rightarrow> c
      | Some v \<Rightarrow> (case parse_u64 v of None \<Rightarrow> c | Some n \<Rightarrow> f n c))"

definition apply_env :: "(string \<Rightarrow> string option) \<Rightarrow> server_config \<Rightarrow> server_config" where
  "apply_env env cfg = foldl (\<lambda>c f. f c) cfg
     [env_str env ''GSE_SERVER_LISTEN'' (\<lambda>v c. c\<lparr>sc_listen := v\<rparr>),
      env_str env ''GSE_SERVER_AUTH'' (\<lambda>v c. c\<lparr>sc_auth_enabled := env_true v\<rparr>),
      env_str env ''GSE_SERVER_DB'' (\<lambda>v c. c\<lparr>sc_db := v\<rparr>),
      env_str env ''GSE_SERVER_HTTP_LISTEN'' (\<lambda>v c. c\<lparr>sc_http_enabled := True, sc_http_listen := v\<rparr>),
      env_str env ''GSE_SERVER_HTTP_WEB_DIR''
        (\<lambda>v c. c\<lparr>sc_http_web_dir := if v = [] then None else Some v\<rparr>),
      env_str env ''GSE_SERVER_ADMIN_PASSWORD'' (\<lambda>v c. c\<lparr>sc_admin_password := v\<rparr>),
      env_num env ''GSE_DATAPLANE_PROBE_INTERVAL'' (\<lambda>n c. c\<lparr>sc_dataplane_probe_interval_secs := n\<rparr>),
      env_num env ''GSE_SERVER_HEARTBEAT_TIMEOUT'' (\<lambda>n c. c\<lparr>sc_heartbeat_timeout_secs := n\<rparr>),
      env_str env ''GSE_SERVER_JOBS'' (\<lambda>v c. c\<lparr>sc_jobs_enabled := env_true v\<rparr>),
      env_num env ''GSE_SERVER_JOB_DEFAULT_TIMEOUT'' (\<lambda>n c. c\<lparr>sc_job_default_timeout_secs := n\<rparr>),
      env_num env ''GSE_SERVER_JOB_MAX_TIMEOUT'' (\<lambda>n c. c\<lparr>sc_job_max_timeout_secs := n\<rparr>),
      env_num env ''GSE_SERVER_JOB_MAX_SCRIPT_BYTES'' (\<lambda>n c. c\<lparr>sc_job_max_script_bytes := n\<rparr>),
      env_num env ''GSE_SERVER_JOB_STDOUT_LIMIT'' (\<lambda>n c. c\<lparr>sc_job_stdout_limit_bytes := n\<rparr>),
      env_num env ''GSE_SERVER_JOB_STDERR_LIMIT'' (\<lambda>n c. c\<lparr>sc_job_stderr_limit_bytes := n\<rparr>),
      env_str env ''GSE_SERVER_METRICS_LISTEN'' (\<lambda>v c. c\<lparr>sc_metrics_listen := v\<rparr>),
      env_num env ''GSE_SERVER_JOB_MAX_FILE'' (\<lambda>n c. c\<lparr>sc_job_max_file_bytes := n\<rparr>),
      env_str env ''GSE_SERVER_JOB_FILE_DIR'' (\<lambda>v c. c\<lparr>sc_job_file_dir := v\<rparr>),
      env_num env ''GSE_SERVER_JOB_FILE_RETAIN'' (\<lambda>n c. c\<lparr>sc_job_file_retain_secs := n\<rparr>),
      env_num env ''GSE_SERVER_JOB_FILE_CHUNK'' (\<lambda>n c. c\<lparr>sc_job_file_chunk_bytes := n\<rparr>),
      env_num env ''GSE_SERVER_JOB_FILE_CLEANUP'' (\<lambda>n c. c\<lparr>sc_job_file_cleanup_interval_secs := n\<rparr>)]"

definition load_config ::
    "(string \<Rightarrow> (string, server_config) result) \<Rightarrow> (string \<Rightarrow> string option) \<Rightarrow> string \<Rightarrow>
     (string, server_config) result" where
  "load_config read_toml env path =
     (case read_toml path of Inl e \<Rightarrow> Inl e | Inr cfg \<Rightarrow> Inr (apply_env env cfg))"

lemma apply_env_empty: "apply_env (\<lambda>_. None) cfg = cfg"
  by (simp add: apply_env_def env_str_def env_num_def)

end
