(* ===== verification/Sql_Table.thy ===== *)
theory Sql_Table
  imports Proto
begin

text \<open>
  The part of SQLite the ledger uses, behind \<^verbatim>\<open>RelationalStore::execute\<close>: a table is the list of
  its rows in insertion order, a row a total assignment of values to columns, and each statement
  shape of \<^verbatim>\<open>ledger.rs\<close> one function on row lists (insert with a primary key, insert with
  \<^verbatim>\<open>ON CONFLICT DO UPDATE\<close>, update, delete, select with order and limit). Every call of
  \<open>exec\<close> consumes one entry of a fault schedule, so that each statement of each operation may
  fail. The locale \<open>keyed_table\<close> is the contract of a table accessed by its primary key.
\<close>

datatype sql_value =
  SqlNull | SqlInteger int | SqlReal f64 | SqlText string | SqlBlob string

type_synonym sql_row = "string \<Rightarrow> sql_value"

definition sql_opt_text :: "string option \<Rightarrow> sql_value" where
  "sql_opt_text v = (case v of None \<Rightarrow> SqlNull | Some s \<Rightarrow> SqlText s)"

definition sql_opt_int :: "int option \<Rightarrow> sql_value" where
  "sql_opt_int v = (case v of None \<Rightarrow> SqlNull | Some i \<Rightarrow> SqlInteger i)"

definition bool_int :: "bool \<Rightarrow> sql_value" where
  "bool_int b = SqlInteger (if b then 1 else 0)"

text \<open>Machine casts: \<^verbatim>\<open>u64 as i64\<close>, \<^verbatim>\<open>i64 as i32\<close>.\<close>

definition u64_as_i64 :: "nat \<Rightarrow> int" where
  "u64_as_i64 n = (if n < 2 ^ 63 then int n else int n - 2 ^ 64)"

definition wrap_i32 :: "int \<Rightarrow> int" where
  "wrap_i32 v = (v + 2 ^ 31) mod 2 ^ 32 - 2 ^ 31"

lemma wrap_i32_id: "- (2 ^ 31) \<le> v \<Longrightarrow> v < 2 ^ 31 \<Longrightarrow> wrap_i32 v = v"
  by (simp add: wrap_i32_def)

lemma u64_as_i64_small: "n < 2 ^ 63 \<Longrightarrow> u64_as_i64 n = int n"
  by (simp add: u64_as_i64_def)

section \<open>Reading fields\<close>

definition field_text :: "sql_row \<Rightarrow> string \<Rightarrow> string" where
  "field_text r c = (case r c of SqlText s \<Rightarrow> s | _ \<Rightarrow> [])"

definition field_opt_text :: "sql_row \<Rightarrow> string \<Rightarrow> string option" where
  "field_opt_text r c = (case r c of SqlText s \<Rightarrow> Some s | _ \<Rightarrow> None)"

definition field_i64 :: "sql_row \<Rightarrow> string \<Rightarrow> int" where
  "field_i64 r c = (case r c of SqlInteger i \<Rightarrow> i | _ \<Rightarrow> 0)"

definition field_opt_i64 :: "sql_row \<Rightarrow> string \<Rightarrow> int option" where
  "field_opt_i64 r c = (case r c of SqlInteger i \<Rightarrow> Some i | _ \<Rightarrow> None)"

named_theorems field_simps \<open>reading back a written column\<close>

lemma field_text_Text [field_simps]: "r c = SqlText s \<Longrightarrow> field_text r c = s"
  by (simp add: field_text_def)

lemma field_opt_text_opt [field_simps]: "r c = sql_opt_text v \<Longrightarrow> field_opt_text r c = v"
  by (simp add: field_opt_text_def sql_opt_text_def split: option.splits)

lemma field_opt_text_Text [field_simps]: "r c = SqlText s \<Longrightarrow> field_opt_text r c = Some s"
  by (simp add: field_opt_text_def)

lemma field_opt_text_Null [field_simps]: "r c = SqlNull \<Longrightarrow> field_opt_text r c = None"
  by (simp add: field_opt_text_def)

lemma field_i64_Integer [field_simps]: "r c = SqlInteger i \<Longrightarrow> field_i64 r c = i"
  by (simp add: field_i64_def)

lemma field_opt_i64_opt [field_simps]: "r c = sql_opt_int v \<Longrightarrow> field_opt_i64 r c = v"
  by (simp add: field_opt_i64_def sql_opt_int_def split: option.splits)

lemma field_opt_i64_Null [field_simps]: "r c = SqlNull \<Longrightarrow> field_opt_i64 r c = None"
  by (simp add: field_opt_i64_def)

lemma field_i64_bool [field_simps]: "r c = bool_int b \<Longrightarrow> (field_i64 r c \<noteq> 0) = b"
  by (simp add: field_i64_def bool_int_def)

text \<open>A field depends on its own column only.\<close>

lemma field_cong:
  assumes "r c = r' c"
  shows "field_text r c = field_text r' c" "field_opt_text r c = field_opt_text r' c"
    "field_i64 r c = field_i64 r' c" "field_opt_i64 r c = field_opt_i64 r' c"
  using assms
  by (simp_all add: field_text_def field_opt_text_def field_i64_def field_opt_i64_def)

section \<open>Statements\<close>

definition row_of :: "(string \<times> sql_value) list \<Rightarrow> sql_row" where
  "row_of kvs c = (case map_of kvs c of Some v \<Rightarrow> v | None \<Rightarrow> SqlNull)"

definition row_set :: "(string \<times> sql_value) list \<Rightarrow> sql_row \<Rightarrow> sql_row" where
  "row_set kvs r c = (case map_of kvs c of Some v \<Rightarrow> v | None \<Rightarrow> r c)"

definition text_eq :: "sql_row \<Rightarrow> string \<Rightarrow> string \<Rightarrow> bool" where
  "text_eq r c s \<longleftrightarrow> r c = SqlText s"

definition text_in :: "sql_row \<Rightarrow> string \<Rightarrow> string list \<Rightarrow> bool" where
  "text_in r c ss = (case r c of SqlText t \<Rightarrow> t \<in> set ss | _ \<Rightarrow> False)"

definition text_not_in :: "sql_row \<Rightarrow> string \<Rightarrow> string list \<Rightarrow> bool" where
  "text_not_in r c ss = (case r c of SqlText t \<Rightarrow> t \<notin> set ss | SqlNull \<Rightarrow> False | _ \<Rightarrow> True)"

definition coalesce :: "sql_value \<Rightarrow> sql_value \<Rightarrow> sql_value" where
  "coalesce a b = (if a = SqlNull then b else a)"

definition update_where ::
    "(sql_row \<Rightarrow> bool) \<Rightarrow> (sql_row \<Rightarrow> sql_row) \<Rightarrow> sql_row list \<Rightarrow> sql_row list" where
  "update_where p f rs = map (\<lambda>r. if p r then f r else r) rs"

definition delete_where :: "(sql_row \<Rightarrow> bool) \<Rightarrow> sql_row list \<Rightarrow> sql_row list" where
  "delete_where p rs = filter (\<lambda>r. \<not> p r) rs"

text \<open>\<^verbatim>\<open>INSERT .. ON CONFLICT(k) DO UPDATE SET c = excluded.c\<close> for the columns \<open>upd\<close>.\<close>

definition upsert ::
    "string \<Rightarrow> string list \<Rightarrow> sql_row \<Rightarrow> sql_row list \<Rightarrow> sql_row list" where
  "upsert k upd new rs =
     (if \<exists>r \<in> set rs. r k = new k
      then update_where (\<lambda>r. r k = new k) (\<lambda>r c. if c \<in> set upd then new c else r c) rs
      else rs @ [new])"

text \<open>
  Plain insert under unique columns: the primary key, for templates also the name. The text
  of the error is SQLite's.
\<close>

definition unique_error :: "string \<Rightarrow> string \<Rightarrow> dataplane_error" where
  "unique_error tab c =
     \<lparr>de_code = QueryFailed, de_message = ''UNIQUE constraint failed: '' @ tab @ ''.'' @ c\<rparr>"

definition insert_unique ::
    "string \<Rightarrow> string list \<Rightarrow> sql_row \<Rightarrow> sql_row list \<Rightarrow> (dataplane_error, sql_row list) result" where
  "insert_unique tab ks new rs =
     (case find (\<lambda>k. \<exists>r \<in> set rs. r k = new k) ks of
        Some k \<Rightarrow> Inl (unique_error tab k)
      | None \<Rightarrow> Inr (rs @ [new]))"

definition select_first :: "(sql_row \<Rightarrow> bool) \<Rightarrow> sql_row list \<Rightarrow> sql_row option" where
  "select_first p rs = find p rs"

definition order_by_text :: "string \<Rightarrow> sql_row list \<Rightarrow> sql_row list" where
  "order_by_text c rs = sort_key (\<lambda>r. field_text r c) rs"

definition order_by_text_desc :: "string \<Rightarrow> sql_row list \<Rightarrow> sql_row list" where
  "order_by_text_desc c rs = rev (sort_key (\<lambda>r. field_text r c) rs)"

lemma row_set_other [simp]: "c \<notin> fst ` set kvs \<Longrightarrow> row_set kvs r c = r c"
  by (simp add: row_set_def map_of_eq_None_iff [THEN iffD2])

lemma set_order_by [simp]:
  "set (order_by_text c rs) = set rs" "set (order_by_text_desc c rs) = set rs"
  by (simp_all add: order_by_text_def order_by_text_desc_def)

lemma sorted_order_by: "sorted (map (\<lambda>r. field_text r c) (order_by_text c rs))"
  by (simp add: order_by_text_def)

lemma length_update_where [simp]: "length (update_where p f rs) = length rs"
  by (simp add: update_where_def)

lemma update_where_id: "(\<And>r. r \<in> set rs \<Longrightarrow> p r \<Longrightarrow> f r = r) \<Longrightarrow> update_where p f rs = rs"
  by (induction rs) (auto simp: update_where_def)

lemma find_cong_map:
  assumes "\<And>r. r \<in> set rs \<Longrightarrow> p (g r) = q r"
  shows "find p (map g rs) = map_option g (find q rs)"
  using assms by (induction rs) auto

lemma find_update_where:
  assumes "\<And>r. p r \<Longrightarrow> q (f r) = q r"
  shows "find q (update_where p f rs) = map_option (\<lambda>r. if p r then f r else r) (find q rs)"
  unfolding update_where_def by (rule find_cong_map) (simp add: assms)

lemma find_SomeD: "find p rs = Some r \<Longrightarrow> p r \<and> r \<in> set rs"
  by (induction rs) (auto split: if_splits)

section \<open>Tables with a primary key\<close>

locale keyed_table =
  fixes kc :: string
    and upd :: "string list"
    and enc :: "'r \<Rightarrow> sql_row"
    and dec :: "sql_row \<Rightarrow> 'd"
    and out :: "'r \<Rightarrow> 'd"
    and key :: "'r \<Rightarrow> string"
    and ok :: "'r \<Rightarrow> bool"
    and merge :: "'d \<Rightarrow> 'r \<Rightarrow> 'd"
  assumes enc_key: "enc r kc = SqlText (key r)"
    and kc_upd: "kc \<notin> set upd"
    and dec_enc: "ok r \<Longrightarrow> dec (enc r) = out r"
    and dec_upd: "ok r \<Longrightarrow> old kc = SqlText (key r) \<Longrightarrow>
      dec (\<lambda>c. if c \<in> set upd then enc r c else old c) = merge (dec old) r"
begin

lemma get_upsert:
  assumes "ok r"
  shows "map_option dec (select_first (\<lambda>x. text_eq x kc k) (upsert kc upd (enc r) rs)) =
    (if k = key r
     then Some (case map_option dec (select_first (\<lambda>x. text_eq x kc k) rs) of
                  None \<Rightarrow> out r | Some old \<Rightarrow> merge old r)
     else map_option dec (select_first (\<lambda>x. text_eq x kc k) rs))"
proof (cases "\<exists>x \<in> set rs. x kc = enc r kc")
  case True
  let ?f = "\<lambda>x c. if c \<in> set upd then enc r c else x c"
  have "find (\<lambda>x. text_eq x kc k) (update_where (\<lambda>x. x kc = enc r kc) ?f rs) =
    map_option (\<lambda>x. if x kc = enc r kc then ?f x else x) (find (\<lambda>x. text_eq x kc k) rs)"
    by (rule find_update_where) (simp add: text_eq_def kc_upd)
  moreover have "\<exists>x. find (\<lambda>x. text_eq x kc k) rs = Some x" if "k = key r"
    using True that by (cases "find (\<lambda>x. text_eq x kc k) rs")
      (auto simp: find_None_iff text_eq_def enc_key)
  moreover have "x kc = SqlText k" if "find (\<lambda>x. text_eq x kc k) rs = Some x" for x
    using that by (auto simp: find_Some_iff text_eq_def)
  ultimately show ?thesis
    using True
    by (cases "find (\<lambda>x. text_eq x kc k) rs"; cases "k = key r")
      (auto simp: select_first_def upsert_def enc_key dec_upd [OF assms])
next
  case False
  then have "find (\<lambda>x. text_eq x kc k) rs = None" if "k = key r"
    using that by (auto simp: find_None_iff text_eq_def enc_key)
  moreover have "find p (rs @ [y]) = (case find p rs of None \<Rightarrow> if p y then Some y else None | s \<Rightarrow> s)"
    for p and y :: sql_row
    by (induction rs) auto
  ultimately show ?thesis
    using False by (auto simp: select_first_def upsert_def text_eq_def enc_key dec_enc [OF assms]
        split: option.splits)
qed

lemma get_delete:
  "map_option dec (select_first (\<lambda>x. text_eq x kc k) (delete_where (\<lambda>x. text_eq x kc k') rs)) =
    (if k = k' then None else map_option dec (select_first (\<lambda>x. text_eq x kc k) rs))"
  by (induction rs) (auto simp: select_first_def delete_where_def text_eq_def)

lemma keys_upsert:
  assumes "distinct (map (\<lambda>x. x kc) rs)"
  shows "distinct (map (\<lambda>x. x kc) (upsert kc upd (enc r) rs))"
proof -
  let ?f = "\<lambda>x c. if c \<in> set upd then enc r c else x c"
  have "map (\<lambda>x. x kc) (update_where p ?f rs) = map (\<lambda>x. x kc) rs" for p
    by (simp add: update_where_def kc_upd)
  with assms show ?thesis
    by (auto simp: upsert_def)
qed

lemma keys_delete:
  "distinct (map (\<lambda>x. x kc) rs) \<Longrightarrow> distinct (map (\<lambda>x. x kc) (delete_where p rs))"
  by (simp add: delete_where_def distinct_map_filter)

end

end
