(* ===== verification/Ledger.thy ===== *)
theory Ledger
  imports Sql_Table
begin

text \<open>
  The ledger of \<^verbatim>\<open>crates/gse-server-core/src/ledger.rs\<close>: its state is one row list per table, the
  fault schedule of the engine and the process-wide counter of \<^verbatim>\<open>ledger_stamp\<close>. An operation
  takes the ledger and returns a \<^verbatim>\<open>Result\<close> with the ledger it leaves. This theory holds the state,
  the statements' execution, and the operations on hosts, access points, agents (runtime state
  and credentials) and data plane services.
\<close>

datatype tname = Hosts | AccessPoints | Agents | Jobs | Templates | Dataplanes | AgentSpecs | SpecStates

record ledger =
  lg_tab :: "tname \<Rightarrow> sql_row list"
  lg_faults :: "dataplane_error option list"
  lg_seq :: nat

type_synonym 'a led = "ledger \<Rightarrow> (gse_error, 'a) result \<times> ledger"

definition led_return :: "'a \<Rightarrow> 'a led" where
  "led_return x lg = (Inr x, lg)"

definition led_bind :: "'a led \<Rightarrow> ('a \<Rightarrow> 'b led) \<Rightarrow> 'b led" where
  "led_bind m f lg = (case m lg of (Inl e, lg') \<Rightarrow> (Inl e, lg') | (Inr x, lg') \<Rightarrow> f x lg')"

definition set_tab :: "tname \<Rightarrow> sql_row list \<Rightarrow> ledger \<Rightarrow> ledger" where
  "set_tab t rs lg = lg\<lparr>lg_tab := (lg_tab lg)(t := rs)\<rparr>"

text \<open>
  \<^verbatim>\<open>Ledger::execute\<close>: run one statement; a scheduled engine fault leaves the tables as they are
  (SQLite statements are atomic). Engine errors are converted by \<^verbatim>\<open>GseError::from\<close>.
\<close>

definition exec_stmt ::
    "tname \<Rightarrow> (sql_row list \<Rightarrow> (dataplane_error, sql_row list \<times> 'a) result) \<Rightarrow> 'a led" where
  "exec_stmt t st lg =
     (let lg' = lg\<lparr>lg_faults := tl (lg_faults lg)\<rparr> in
      case lg_faults lg of
        Some e # fs \<Rightarrow> (Inl (gse_of_dataplane e), lg')
      | _ \<Rightarrow>
          (case st (lg_tab lg t) of
             Inl e \<Rightarrow> (Inl (gse_of_dataplane e), lg')
           | Inr (rs, x) \<Rightarrow> (Inr x, set_tab t rs lg')))"

definition exec_upd :: "tname \<Rightarrow> (sql_row list \<Rightarrow> sql_row list) \<Rightarrow> unit led" where
  "exec_upd t f = exec_stmt t (\<lambda>rs. Inr (f rs, ()))"

definition exec_sel :: "tname \<Rightarrow> (sql_row list \<Rightarrow> 'a) \<Rightarrow> 'a led" where
  "exec_sel t q = exec_stmt t (\<lambda>rs. Inr (rs, q rs))"

text \<open>\<^verbatim>\<open>ledger_stamp\<close>: microseconds and a sequence number of the process (a wrapping \<^verbatim>\<open>u64\<close>).\<close>

definition ledger_stamp :: "int \<Rightarrow> string led" where
  "ledger_stamp now lg =
     (Inr (int_dec now @ ''-'' @ nat_dec (lg_seq lg)), lg\<lparr>lg_seq := (lg_seq lg + 1) mod 2 ^ 64\<rparr>)"

section \<open>What a statement can change\<close>

lemma led_bind_step: "m lg = (Inr x, lg') \<Longrightarrow> led_bind m f lg = f x lg'"
  by (simp add: led_bind_def)

lemma led_bind_fail: "m lg = (Inl e, lg') \<Longrightarrow> led_bind m f lg = (Inl e, lg')"
  by (simp add: led_bind_def)

lemma set_tab_sel [simp]:
  "lg_tab (set_tab t rs lg) t' = (if t' = t then rs else lg_tab lg t')"
  "lg_faults (set_tab t rs lg) = lg_faults lg" "lg_seq (set_tab t rs lg) = lg_seq lg"
  by (simp_all add: set_tab_def)

lemma exec_upd_cases:
  assumes "exec_upd t f lg = (r, lg')"
  obtains (fault) e where "r = Inl e" "lg_tab lg' = lg_tab lg"
  | (written) "r = Inr ()" "lg_tab lg' = (lg_tab lg)(t := f (lg_tab lg t))"
  using assms
  by (auto simp: exec_upd_def exec_stmt_def Let_def set_tab_def split: list.splits option.splits)

lemma exec_upd_ok:
  "lg_faults lg = [] \<Longrightarrow> exec_upd t f lg = (Inr (), set_tab t (f (lg_tab lg t)) lg)"
  by (simp add: exec_upd_def exec_stmt_def set_tab_def)

lemma exec_sel_cases:
  assumes "exec_sel t q lg = (r, lg')"
  obtains (fault) e where "r = Inl e" "lg_tab lg' = lg_tab lg"
  | (found) "r = Inr (q (lg_tab lg t))" "lg_tab lg' = lg_tab lg"
  using assms
  by (auto simp: exec_sel_def exec_stmt_def Let_def set_tab_def split: list.splits option.splits)

lemma exec_sel_ok: "lg_faults lg = [] \<Longrightarrow> exec_sel t q lg = (Inr (q (lg_tab lg t)), lg)"
  by (simp add: exec_sel_def exec_stmt_def set_tab_def)

lemma exec_sel_tab [simp]: "lg_tab (snd (exec_sel t q lg)) = lg_tab lg"
  by (auto simp: exec_sel_def exec_stmt_def Let_def set_tab_def split: list.splits option.splits)

lemma exec_sel_result: "fst (exec_sel t q lg) = Inr x \<Longrightarrow> x = q (lg_tab lg t)"
  by (auto simp: exec_sel_def exec_stmt_def Let_def split: list.splits option.splits)

lemma exec_upd_tab:
  "lg_tab (snd (exec_upd t f lg)) t' =
     (if t' = t \<and> (\<exists>u. fst (exec_upd t f lg) = Inr u) then f (lg_tab lg t) else lg_tab lg t')"
  by (auto simp: exec_upd_def exec_stmt_def Let_def set_tab_def split: list.splits option.splits)

lemma led_bind_tab_other:
  assumes "\<And>lg. lg_tab (snd (m lg)) t = lg_tab lg t"
    and "\<And>x lg. lg_tab (snd (f x lg)) t = lg_tab lg t"
  shows "lg_tab (snd (led_bind m f lg)) t = lg_tab lg t"
  using assms(1) [of lg] assms(2) by (auto simp: led_bind_def split: prod.splits sum.splits)

lemma ledger_stamp_tab [simp]: "lg_tab (snd (ledger_stamp now lg)) = lg_tab lg"
  by (simp add: ledger_stamp_def)

section \<open>Hosts\<close>

record host =
  h_host_id :: string
  h_inner_ip :: string
  h_hostname :: string
  h_os_type :: string
  h_os_version :: string
  h_cpu_spec :: string
  h_mem_spec :: string
  h_created_at :: string

definition sql_params_host :: "host \<Rightarrow> sql_row" where
  "sql_params_host h = row_of
     [(''host_id'', SqlText (h_host_id h)), (''inner_ip'', SqlText (h_inner_ip h)),
      (''hostname'', SqlText (h_hostname h)), (''os_type'', SqlText (h_os_type h)),
      (''os_version'', SqlText (h_os_version h)), (''cpu_spec'', SqlText (h_cpu_spec h)),
      (''mem_spec'', SqlText (h_mem_spec h)), (''created_at'', SqlText (h_created_at h))]"

definition row_to_host :: "sql_row \<Rightarrow> host" where
  "row_to_host r =
     \<lparr>h_host_id = field_text r ''host_id'', h_inner_ip = field_text r ''inner_ip'',
      h_hostname = field_text r ''hostname'', h_os_type = field_text r ''os_type'',
      h_os_version = field_text r ''os_version'', h_cpu_spec = field_text r ''cpu_spec'',
      h_mem_spec = field_text r ''mem_spec'', h_created_at = field_text r ''created_at''\<rparr>"

definition host_upd :: "string list" where
  "host_upd = [''inner_ip'', ''hostname'', ''os_type'', ''os_version'', ''cpu_spec'', ''mem_spec'']"

definition upsert_host :: "host \<Rightarrow> unit led" where
  "upsert_host h = exec_upd Hosts (upsert ''host_id'' host_upd (sql_params_host h))"

definition get_host :: "string \<Rightarrow> host option led" where
  "get_host k = exec_sel Hosts
     (\<lambda>rs. map_option row_to_host (select_first (\<lambda>r. text_eq r ''host_id'' k) rs))"

definition list_hosts :: "host list led" where
  "list_hosts = exec_sel Hosts (\<lambda>rs. map row_to_host (order_by_text ''host_id'' rs))"

definition remove_host :: "string \<Rightarrow> unit led" where
  "remove_host k = exec_upd Hosts (delete_where (\<lambda>r. text_eq r ''host_id'' k))"

interpretation host_tab: keyed_table "''host_id''" host_upd sql_params_host row_to_host id h_host_id
  "\<lambda>_. True" "\<lambda>old h. h\<lparr>h_created_at := h_created_at old\<rparr>"
  by unfold_locales
    (simp_all add: sql_params_host_def row_of_def host_upd_def row_to_host_def field_text_def)

section \<open>Access points\<close>

record access_point =
  ap_id :: string
  ap_name :: string
  ap_server_ip :: string
  ap_rpc_port :: int
  ap_file_port :: "int option"
  ap_data_port :: "int option"
  ap_created_at :: string

definition ap_params :: "access_point \<Rightarrow> sql_row" where
  "ap_params ap = row_of
     [(''id'', SqlText (ap_id ap)), (''name'', SqlText (ap_name ap)),
      (''server_ip'', SqlText (ap_server_ip ap)), (''rpc_port'', SqlInteger (ap_rpc_port ap)),
      (''file_port'', sql_opt_int (ap_file_port ap)), (''data_port'', sql_opt_int (ap_data_port ap)),
      (''created_at'', SqlText (ap_created_at ap))]"

definition row_to_access_point :: "sql_row \<Rightarrow> access_point" where
  "row_to_access_point r =
     \<lparr>ap_id = field_text r ''id'', ap_name = field_text r ''name'',
      ap_server_ip = field_text r ''server_ip'',
      ap_rpc_port = wrap_i32 (field_i64 r ''rpc_port''),
      ap_file_port = map_option wrap_i32 (field_opt_i64 r ''file_port''),
      ap_data_port = map_option wrap_i32 (field_opt_i64 r ''data_port''),
      ap_created_at = field_text r ''created_at''\<rparr>"

definition ap_upd :: "string list" where
  "ap_upd = [''name'', ''server_ip'', ''rpc_port'', ''file_port'', ''data_port'']"

definition upsert_access_point :: "access_point \<Rightarrow> unit led" where
  "upsert_access_point ap = exec_upd AccessPoints (upsert ''id'' ap_upd (ap_params ap))"

definition get_access_point :: "string \<Rightarrow> access_point option led" where
  "get_access_point k = exec_sel AccessPoints
     (\<lambda>rs. map_option row_to_access_point (select_first (\<lambda>r. text_eq r ''id'' k) rs))"

definition list_access_points :: "access_point list led" where
  "list_access_points =
     exec_sel AccessPoints (\<lambda>rs. map row_to_access_point (order_by_text ''id'' rs))"

definition remove_access_point :: "string \<Rightarrow> unit led" where
  "remove_access_point k = exec_upd AccessPoints (delete_where (\<lambda>r. text_eq r ''id'' k))"

definition is_i32 :: "int \<Rightarrow> bool" where
  "is_i32 v \<longleftrightarrow> - (2 ^ 31) \<le> v \<and> v < 2 ^ 31"

lemma wrap_i32_is_i32 [simp]: "is_i32 v \<Longrightarrow> wrap_i32 v = v"
  by (simp add: is_i32_def wrap_i32_id)

lemma map_wrap_i32: "pred_option is_i32 v \<Longrightarrow> map_option wrap_i32 v = v"
  by (cases v) simp_all

definition ap_ok :: "access_point \<Rightarrow> bool" where
  "ap_ok ap \<longleftrightarrow> is_i32 (ap_rpc_port ap) \<and> pred_option is_i32 (ap_file_port ap) \<and>
     pred_option is_i32 (ap_data_port ap)"

interpretation ap_tab: keyed_table "''id''" ap_upd ap_params row_to_access_point id ap_id
  ap_ok "\<lambda>old ap. ap\<lparr>ap_created_at := ap_created_at old\<rparr>"
  by unfold_locales
    (simp_all add: ap_params_def row_of_def ap_upd_def row_to_access_point_def ap_ok_def
      field_text_def field_i64_def field_opt_i64_opt map_wrap_i32)

section \<open>Agents\<close>

record agent =
  a_agent_id :: string
  a_host_id :: string
  a_access_point_id :: "string option"
  a_token :: string
  a_version :: string
  a_install_path :: string
  a_status :: string
  a_last_heartbeat_at :: "string option"
  a_registered_at :: string

definition sql_params_agent :: "agent \<Rightarrow> sql_row" where
  "sql_params_agent a = row_of
     [(''agent_id'', SqlText (a_agent_id a)), (''host_id'', SqlText (a_host_id a)),
      (''access_point_id'', sql_opt_text (a_access_point_id a)), (''token'', SqlText (a_token a)),
      (''version'', SqlText (a_version a)), (''install_path'', SqlText (a_install_path a)),
      (''status'', SqlText (a_status a)),
      (''last_heartbeat_at'', sql_opt_text (a_last_heartbeat_at a)),
      (''registered_at'', SqlText (a_registered_at a))]"

definition row_to_agent :: "sql_row \<Rightarrow> agent" where
  "row_to_agent r =
     \<lparr>a_agent_id = field_text r ''agent_id'', a_host_id = field_text r ''host_id'',
      a_access_point_id = field_opt_text r ''access_point_id'', a_token = field_text r ''token'',
      a_version = field_text r ''version'', a_install_path = field_text r ''install_path'',
      a_status = field_text r ''status'',
      a_last_heartbeat_at = field_opt_text r ''last_heartbeat_at'',
      a_registered_at = field_text r ''registered_at''\<rparr>"

definition agent_upd :: "string list" where
  "agent_upd = [''host_id'', ''access_point_id'', ''token'', ''version'', ''install_path'', ''status'',
     ''last_heartbeat_at'']"

definition upsert_agent :: "agent \<Rightarrow> unit led" where
  "upsert_agent a = exec_upd Agents (upsert ''agent_id'' agent_upd (sql_params_agent a))"

definition get_agent :: "string \<Rightarrow> agent option led" where
  "get_agent k = exec_sel Agents
     (\<lambda>rs. map_option row_to_agent (select_first (\<lambda>r. text_eq r ''agent_id'' k) rs))"

definition list_agents :: "agent list led" where
  "list_agents = exec_sel Agents (\<lambda>rs. map row_to_agent (order_by_text ''agent_id'' rs))"

definition remove_agent :: "string \<Rightarrow> unit led" where
  "remove_agent k = exec_upd Agents (delete_where (\<lambda>r. text_eq r ''agent_id'' k))"

interpretation agent_tab: keyed_table "''agent_id''" agent_upd sql_params_agent row_to_agent
  id a_agent_id "\<lambda>_. True" "\<lambda>old a. a\<lparr>a_registered_at := a_registered_at old\<rparr>"
  by unfold_locales
    (simp_all add: sql_params_agent_def row_of_def agent_upd_def row_to_agent_def field_text_def
      field_opt_text_opt)

section \<open>Agents: runtime state and credentials\<close>

datatype auth_outcome = AuthRejected | AuthCurrent | AuthPrevious

definition update_agent :: "string \<Rightarrow> (sql_row \<Rightarrow> (string \<times> sql_value) list) \<Rightarrow> unit led" where
  "update_agent k sets =
     exec_upd Agents (update_where (\<lambda>r. text_eq r ''agent_id'' k) (\<lambda>r. row_set (sets r) r))"

definition mark_online :: "string \<Rightarrow> string \<Rightarrow> unit led" where
  "mark_online k now =
     update_agent k (\<lambda>_. [(''status'', SqlText ''online''), (''last_heartbeat_at'', SqlText now)])"

definition set_agent_version :: "string \<Rightarrow> string \<Rightarrow> unit led" where
  "set_agent_version k version =
     (if version = [] then led_return () else update_agent k (\<lambda>_. [(''version'', SqlText version)]))"

definition mark_heartbeat :: "string \<Rightarrow> string \<Rightarrow> unit led" where
  "mark_heartbeat k now = update_agent k (\<lambda>_. [(''last_heartbeat_at'', SqlText now)])"

definition mark_upgrade_result :: "string \<Rightarrow> string \<Rightarrow> unit led" where
  "mark_upgrade_result k js = update_agent k (\<lambda>_. [(''upgrade_result_json'', SqlText js)])"

definition mark_offline :: "string \<Rightarrow> unit led" where
  "mark_offline k = update_agent k (\<lambda>_. [(''status'', SqlText ''offline'')])"

definition agent_tokens :: "string \<Rightarrow> (string \<times> string option) option led" where
  "agent_tokens k = exec_sel Agents
     (\<lambda>rs. map_option (\<lambda>r. (field_text r ''token'', field_opt_text r ''prev_token''))
        (select_first (\<lambda>r. text_eq r ''agent_id'' k) rs))"

definition verify_agent_token :: "string \<Rightarrow> string \<Rightarrow> auth_outcome led" where
  "verify_agent_token k token =
     led_bind (agent_tokens k) (\<lambda>res.
       case res of None \<Rightarrow> led_return AuthRejected
       | Some (current, prev) \<Rightarrow>
           if token = current then led_return AuthCurrent
           else if prev = Some token then led_return AuthPrevious
           else led_return AuthRejected)"

definition check_auth :: "string \<Rightarrow> string \<Rightarrow> bool led" where
  "check_auth k token =
     led_bind (verify_agent_token k token) (\<lambda>oc. led_return (oc \<noteq> AuthRejected))"

text \<open>Rotation reads the old token in the same statement that writes the new one.\<close>

definition rotate_agent_token :: "string \<Rightarrow> string \<Rightarrow> unit led" where
  "rotate_agent_token k new_token =
     update_agent k (\<lambda>r. [(''prev_token'', r ''token''), (''token'', SqlText new_token)])"

definition clear_agent_prev_token :: "string \<Rightarrow> unit led" where
  "clear_agent_prev_token k = update_agent k (\<lambda>_. [(''prev_token'', SqlNull)])"

text \<open>The credentials the tables hold for an agent, the abstraction of the token operations.\<close>

definition tokens_of :: "ledger \<Rightarrow> string \<Rightarrow> (string \<times> string option) option" where
  "tokens_of lg k =
     map_option (\<lambda>r. (field_text r ''token'', field_opt_text r ''prev_token''))
       (select_first (\<lambda>r. text_eq r ''agent_id'' k) (lg_tab lg Agents))"

definition accepts :: "ledger \<Rightarrow> string \<Rightarrow> string \<Rightarrow> bool" where
  "accepts lg k t = (case tokens_of lg k of None \<Rightarrow> False | Some (cur, prev) \<Rightarrow> t = cur \<or> prev = Some t)"

definition agent_of :: "ledger \<Rightarrow> string \<Rightarrow> agent option" where
  "agent_of lg k = map_option row_to_agent (select_first (\<lambda>r. text_eq r ''agent_id'' k) (lg_tab lg Agents))"

lemma fst_update_agent: "fst (update_agent k sets lg) = fst (exec_upd Agents id lg)"
  by (auto simp: update_agent_def exec_upd_def exec_stmt_def Let_def split: list.splits option.splits)

lemma update_agent_tab:
  "lg_tab (snd (update_agent k sets lg)) t =
     (if t = Agents \<and> (\<exists>u. fst (update_agent k sets lg) = Inr u)
      then update_where (\<lambda>r. text_eq r ''agent_id'' k) (\<lambda>r. row_set (sets r) r) (lg_tab lg Agents)
      else lg_tab lg t)"
  by (auto simp: update_agent_def exec_upd_tab)

lemma select_update_agent:
  assumes "\<And>r. ''agent_id'' \<notin> fst ` set (sets r)"
  shows "select_first (\<lambda>r. text_eq r ''agent_id'' k')
      (update_where (\<lambda>r. text_eq r ''agent_id'' k) (\<lambda>r. row_set (sets r) r) rs) =
    map_option (\<lambda>r. if k' = k then row_set (sets r) r else r)
      (select_first (\<lambda>r. text_eq r ''agent_id'' k') rs)"
proof -
  let ?q = "\<lambda>r. text_eq r ''agent_id'' k'"
  have "find ?q (update_where (\<lambda>r. text_eq r ''agent_id'' k) (\<lambda>r. row_set (sets r) r) rs) =
    map_option (\<lambda>r. if text_eq r ''agent_id'' k then row_set (sets r) r else r) (find ?q rs)"
    by (rule find_update_where) (simp add: text_eq_def assms)
  also have "\<dots> = map_option (\<lambda>r. if k' = k then row_set (sets r) r else r) (find ?q rs)"
    by (cases "find ?q rs") (auto simp: text_eq_def dest!: find_SomeD)
  finally show ?thesis by (simp add: select_first_def)
qed

lemma verify_agent_token_result:
  "fst (verify_agent_token k t lg) = Inr oc \<Longrightarrow>
     oc = (case tokens_of lg k of None \<Rightarrow> AuthRejected
           | Some (cur, prev) \<Rightarrow> if t = cur then AuthCurrent
               else if prev = Some t then AuthPrevious else AuthRejected)"
  by (cases "agent_tokens k lg")
    (auto simp: verify_agent_token_def led_bind_def led_return_def agent_tokens_def tokens_of_def
      split: sum.splits option.splits if_splits elim!: exec_sel_cases)

end
