(* ===== verification/Spec_Diff.thy ===== *)
theory Spec_Diff
  imports Proto
begin

text \<open>
  \<^verbatim>\<open>crates/gse-server-core/src/spec.rs\<close>: the fingerprint of a spec and the field-by-field difference
  between the desired and the applied one. \<^verbatim>\<open>serde_json::to_string\<close> and SHA-256 are parameters
  (\<open>enc\<close>, \<open>sha\<close>); the JSON object of \<^verbatim>\<open>SpecParams\<close> is written out, with the two fields its
  \<^verbatim>\<open>skip_serializing_if\<close> attributes leave out.
\<close>

definition REV_LEN :: nat where "REV_LEN = 16"

definition revision :: "(agent_spec_wire \<Rightarrow> string) \<Rightarrow> (string \<Rightarrow> string) \<Rightarrow> agent_spec_wire \<Rightarrow> string" where
  "revision enc sha spec = take REV_LEN (sha (enc spec))"

record field_pair =
  fp_desired :: json
  fp_applied :: json

record item_diff =
  id_added :: "string list"
  id_removed :: "string list"
  id_changed :: "string list"

record spec_diff =
  sd_params :: "(string, field_pair) btmap"
  sd_items :: item_diff

definition empty_spec_diff :: spec_diff where
  "empty_spec_diff = \<lparr>sd_params = [], sd_items = \<lparr>id_added = [], id_removed = [], id_changed = []\<rparr>\<rparr>"

definition diff_is_empty :: "spec_diff \<Rightarrow> bool" where
  "diff_is_empty d \<longleftrightarrow> sd_params d = [] \<and> id_added (sd_items d) = [] \<and>
     id_removed (sd_items d) = [] \<and> id_changed (sd_items d) = []"

definition is_secret :: "string \<Rightarrow> bool" where
  "is_secret key \<longleftrightarrow> key = ''token'' \<or> key = ''otlp_token''"

definition jstrs :: "string list \<Rightarrow> json" where
  "jstrs ss = JArr (map JStr ss)"

definition skip_none :: "string \<Rightarrow> string option \<Rightarrow> (string \<times> json) list" where
  "skip_none k v = (case v of None \<Rightarrow> [] | Some s \<Rightarrow> [(k, JStr s)])"

definition param_fields :: "spec_params \<Rightarrow> (string \<times> json) list" where
  "param_fields p =
     [(''heartbeat_interval_secs'', jnat (sp_heartbeat_interval_secs p)),
      (''allowed_interpreters'', jstrs (sp_allowed_interpreters p)),
      (''job_default_interpreter'', JStr (sp_job_default_interpreter p)),
      (''max_concurrent_jobs'', jnat (sp_max_concurrent_jobs p)),
      (''job_work_dir'', jopt JStr (sp_job_work_dir p)),
      (''otlp_enabled'', JBool (sp_otlp_enabled p)),
      (''otlp_listen'', JStr (sp_otlp_listen p)),
      (''otlp_max_body_bytes'', jnat (sp_otlp_max_body_bytes p))] @
     skip_none ''otlp_token'' (sp_otlp_token p) @
     [(''otlp_allowed_cidrs'', jstrs (sp_otlp_allowed_cidrs p))] @
     skip_none ''token'' (sp_token p) @
     [(''cpu_limit_percent'', jopt jint (sp_cpu_limit_percent p)),
      (''mem_limit_percent'', jopt jint (sp_mem_limit_percent p)),
      (''log_level'', JStr (sp_log_level p))]"

definition params_to_json :: "spec_params \<Rightarrow> json" where
  "params_to_json p = jobj (param_fields p)"

definition diff_param_step ::
    "(string, json) btmap \<Rightarrow> (string, field_pair) btmap \<Rightarrow> string \<times> json \<Rightarrow> (string, field_pair) btmap" where
  "diff_param_step am acc kd =
     (let key = fst kd; d = snd kd; a = unwrap_or (bt_get am key) JNull in
      if is_secret key then acc
      else if d \<noteq> a then bt_insert key \<lparr>fp_desired = d, fp_applied = a\<rparr> acc
      else acc)"

definition diff_params :: "(string, json) btmap \<Rightarrow> (string, json) btmap \<Rightarrow> (string, field_pair) btmap" where
  "diff_params dm am = foldl (diff_param_step am) [] dm"

definition by_id :: "(spec_item \<Rightarrow> string) \<Rightarrow> spec_item list \<Rightarrow> (string, string) btmap" where
  "by_id enc items = bt_of_list (map (\<lambda>i. (si_item_id i, enc i)) items)"

definition diff_items :: "(string, string) btmap \<Rightarrow> (string, string) btmap \<Rightarrow> item_diff" where
  "diff_items did aid =
     \<lparr>id_added = map fst (filter (\<lambda>(k, d). bt_get aid k = None) did),
      id_removed = map fst (filter (\<lambda>(k, a). bt_get did k = None) aid),
      id_changed = map fst (filter (\<lambda>(k, d). \<exists>a \<in> set_option (bt_get aid k). a \<noteq> d) did)\<rparr>"

definition diff :: "(spec_item \<Rightarrow> string) \<Rightarrow> agent_spec_wire \<Rightarrow> agent_spec_wire \<Rightarrow> (string, spec_diff) result" where
  "diff enc desired applied =
     (case (as_object (params_to_json (aw_params desired)), as_object (params_to_json (aw_params applied))) of
        (Some dm, Some am) \<Rightarrow>
          Inr \<lparr>sd_params = diff_params dm am,
               sd_items = diff_items (by_id enc (aw_items desired)) (by_id enc (aw_items applied))\<rparr>
      | _ \<Rightarrow> Inl ''encode params'')"

section \<open>Lemmas\<close>

definition hide_secrets :: "spec_params \<Rightarrow> spec_params" where
  "hide_secrets p = p\<lparr>sp_token := None, sp_otlp_token := None\<rparr>"

definition diff_at :: "(string, json) btmap \<Rightarrow> string \<Rightarrow> json \<Rightarrow> field_pair option" where
  "diff_at am k d =
     (let a = unwrap_or (bt_get am k) JNull in
      if is_secret k \<or> d = a then None else Some \<lparr>fp_desired = d, fp_applied = a\<rparr>)"

lemma diff_param_step_get:
  "bt_get (diff_param_step am acc (k', d)) k =
     (if k = k' \<and> diff_at am k d \<noteq> None then diff_at am k d else bt_get acc k)"
  by (auto simp: diff_param_step_def diff_at_def Let_def bt_get_insert)

lemma diff_params_foldl:
  assumes "distinct (map fst dm)"
  shows "bt_get (foldl (diff_param_step am) acc dm) k =
    (case bt_get dm k of None \<Rightarrow> bt_get acc k
     | Some d \<Rightarrow> if diff_at am k d \<noteq> None then diff_at am k d else bt_get acc k)"
  using assms
proof (induction dm arbitrary: acc)
  case Nil
  then show ?case by simp
next
  case (Cons kv dm)
  obtain k' d where kv: "kv = (k', d)" by force
  have "bt_get dm k' = None"
    using Cons.prems by (simp add: kv bt_get_def map_of_eq_None_iff)
  moreover have "bt_get (kv # dm) k = (if k = k' then Some d else bt_get dm k)"
    by (simp add: kv bt_get_def)
  ultimately show ?case
    using Cons.IH [of "diff_param_step am acc kv"] Cons.prems
    by (cases "bt_get dm k") (auto simp: kv diff_param_step_get)
qed

lemma diff_params_get:
  "distinct (map fst dm) \<Longrightarrow> bt_get (diff_params dm am) k = Option.bind (bt_get dm k) (diff_at am k)"
  using diff_params_foldl [of dm am "[]" k]
  by (cases "bt_get dm k") (auto simp: diff_params_def)

lemma bt_empty_iff: "m = [] \<longleftrightarrow> (\<forall>k. bt_get m k = None)"
  by (cases m) (auto simp: bt_get_def)

definition params_map :: "spec_params \<Rightarrow> (string, json) btmap" where
  "params_map p = bt_of_list (param_fields p)"

lemma params_map_object: "as_object (params_to_json p) = Some (params_map p)"
  by (simp add: params_map_def params_to_json_def jobj_def)

lemma params_map_distinct: "distinct (map fst (params_map p))"
  by (simp add: params_map_def bt_ok_distinct)

lemma map_of_skip_none:
  "map_of (skip_none k' v @ xs) k = (if k = k' \<and> v \<noteq> None then map_option JStr v else map_of xs k)"
  by (cases v) (simp_all add: skip_none_def)

lemma rev_skip_none: "rev (skip_none k' v) = skip_none k' v"
  by (cases v) (simp_all add: skip_none_def)

lemma params_map_get:
  "bt_get (params_map p) k =
    (if k = ''log_level'' then Some (JStr (sp_log_level p))
     else if k = ''mem_limit_percent'' then Some (jopt jint (sp_mem_limit_percent p))
     else if k = ''cpu_limit_percent'' then Some (jopt jint (sp_cpu_limit_percent p))
     else if k = ''token'' \<and> sp_token p \<noteq> None then map_option JStr (sp_token p)
     else if k = ''otlp_allowed_cidrs'' then Some (jstrs (sp_otlp_allowed_cidrs p))
     else if k = ''otlp_token'' \<and> sp_otlp_token p \<noteq> None then map_option JStr (sp_otlp_token p)
     else if k = ''otlp_max_body_bytes'' then Some (jnat (sp_otlp_max_body_bytes p))
     else if k = ''otlp_listen'' then Some (JStr (sp_otlp_listen p))
     else if k = ''otlp_enabled'' then Some (JBool (sp_otlp_enabled p))
     else if k = ''job_work_dir'' then Some (jopt JStr (sp_job_work_dir p))
     else if k = ''max_concurrent_jobs'' then Some (jnat (sp_max_concurrent_jobs p))
     else if k = ''job_default_interpreter'' then Some (JStr (sp_job_default_interpreter p))
     else if k = ''allowed_interpreters'' then Some (jstrs (sp_allowed_interpreters p))
     else if k = ''heartbeat_interval_secs'' then Some (jnat (sp_heartbeat_interval_secs p))
     else None)"
  unfolding params_map_def bt_get_of_list param_fields_def rev_append rev_skip_none
  by (simp only: rev.simps append.simps append_Nil append_assoc map_of_skip_none map_of.simps
      fun_upd_apply fst_conv snd_conv)

lemma jstrs_inject [simp]: "jstrs a = jstrs b \<longleftrightarrow> a = b"
  by (auto simp: jstrs_def dest: map_injective intro: injI)

lemma jopt_JStr_inject [simp]: "jopt JStr x = jopt JStr y \<longleftrightarrow> x = y"
  by (rule jopt_inject) simp_all

lemma jopt_jint_inject [simp]: "jopt jint x = jopt jint y \<longleftrightarrow> x = y"
  by (rule jopt_inject [OF jint_inject]) (simp add: jint_def)

lemma params_map_hidden:
  "\<not> is_secret k \<Longrightarrow> bt_get (params_map (hide_secrets p)) k = bt_get (params_map p) k"
  by (simp add: params_map_get hide_secrets_def is_secret_def)

lemma params_map_eq_iff:
  "(\<forall>k. \<not> is_secret k \<longrightarrow> bt_get (params_map p) k = bt_get (params_map q) k) \<longleftrightarrow>
     hide_secrets p = hide_secrets q"
proof
  assume h: "\<forall>k. \<not> is_secret k \<longrightarrow> bt_get (params_map p) k = bt_get (params_map q) k"
  have *: "bt_get (params_map p) k = bt_get (params_map q) k" if "\<not> is_secret k" for k
    using h that by blast
  show "hide_secrets p = hide_secrets q"
    using * [of "''log_level''"] * [of "''mem_limit_percent''"] * [of "''cpu_limit_percent''"]
      * [of "''otlp_allowed_cidrs''"] * [of "''otlp_max_body_bytes''"] * [of "''otlp_listen''"]
      * [of "''otlp_enabled''"] * [of "''job_work_dir''"] * [of "''max_concurrent_jobs''"]
      * [of "''job_default_interpreter''"] * [of "''allowed_interpreters''"]
      * [of "''heartbeat_interval_secs''"]
    by (simp add: params_map_get is_secret_def hide_secrets_def)
next
  assume "hide_secrets p = hide_secrets q"
  then show "\<forall>k. \<not> is_secret k \<longrightarrow> bt_get (params_map p) k = bt_get (params_map q) k"
    by (metis params_map_hidden)
qed

lemma diff_params_map_get:
  "bt_get (diff_params (params_map p) (params_map q)) k =
     (if is_secret k then None
      else case bt_get (params_map p) k of None \<Rightarrow> None
           | Some d \<Rightarrow> if bt_get (params_map q) k = Some d then None
               else Some \<lparr>fp_desired = d, fp_applied = unwrap_or (bt_get (params_map q) k) JNull\<rparr>)"
proof (cases "is_secret k \<or> bt_get (params_map p) k = None")
  case True
  then show ?thesis
    by (auto simp: diff_params_get params_map_distinct diff_at_def split: Option.bind_splits option.splits)
next
  case False
  then obtain d where d: "bt_get (params_map p) k = Some d" by auto
  with False have "\<exists>a. bt_get (params_map q) k = Some a"
    by (simp add: params_map_get is_secret_def split: if_splits)
  then obtain a where a: "bt_get (params_map q) k = Some a" ..
  show ?thesis using False d a
    by (auto simp: diff_params_get params_map_distinct diff_at_def Let_def)
qed

lemma diff_params_empty_iff:
  "diff_params (params_map p) (params_map q) = [] \<longleftrightarrow> hide_secrets p = hide_secrets q"
proof -
  have dom: "bt_get (params_map p) k = None \<longleftrightarrow> bt_get (params_map q) k = None" if "\<not> is_secret k" for k
    using that by (auto simp: params_map_get is_secret_def)
  have "bt_get (diff_params (params_map p) (params_map q)) k = None \<longleftrightarrow>
      is_secret k \<or> bt_get (params_map p) k = bt_get (params_map q) k" for k
    using dom [of k] by (cases "bt_get (params_map p) k"; cases "bt_get (params_map q) k")
      (auto simp: diff_params_map_get)
  then show ?thesis
    unfolding bt_empty_iff params_map_eq_iff [symmetric] by blast
qed

definition item_of :: "spec_item list \<Rightarrow> string \<Rightarrow> spec_item option" where
  "item_of items k = map_of (rev (map (\<lambda>i. (si_item_id i, i)) items)) k"

lemma by_id_get: "bt_get (by_id enc items) k = map_option enc (item_of items k)"
proof -
  have "map_of (map (\<lambda>i. (si_item_id i, enc i)) xs) k =
      map_option enc (map_of (map (\<lambda>i. (si_item_id i, i)) xs) k)" for xs
    by (induction xs) auto
  then show ?thesis by (simp add: by_id_def bt_get_of_list item_of_def rev_map)
qed

lemma item_of_in: "item_of items k = Some i \<Longrightarrow> i \<in> set items \<and> si_item_id i = k"
  by (auto simp: item_of_def dest!: map_of_SomeD)

lemma by_id_ok: "bt_ok (by_id enc items)"
  by (simp add: by_id_def)

lemma diff_items_sets:
  assumes "bt_ok did" "bt_ok aid"
  shows "set (id_added (diff_items did aid)) = {k. bt_get did k \<noteq> None \<and> bt_get aid k = None}"
    "set (id_removed (diff_items did aid)) = {k. bt_get aid k \<noteq> None \<and> bt_get did k = None}"
    "set (id_changed (diff_items did aid)) =
       {k. \<exists>d a. bt_get did k = Some d \<and> bt_get aid k = Some a \<and> a \<noteq> d}"
  using assms by (force simp: diff_items_def bt_get_in_set)+

lemma diff_items_empty_iff:
  assumes "bt_ok did" "bt_ok aid"
  shows "(id_added (diff_items did aid) = [] \<and> id_removed (diff_items did aid) = [] \<and>
      id_changed (diff_items did aid) = []) \<longleftrightarrow> (\<forall>k. bt_get did k = bt_get aid k)" (is "?l \<longleftrightarrow> ?r")
proof -
  have *: "bt_get did k = bt_get aid k \<longleftrightarrow> k \<notin> set (id_added (diff_items did aid)) \<and>
      k \<notin> set (id_removed (diff_items did aid)) \<and> k \<notin> set (id_changed (diff_items did aid))" for k
    unfolding diff_items_sets [OF assms] by (cases "bt_get did k"; cases "bt_get aid k") auto
  have "xs = [] \<longleftrightarrow> (\<forall>k. k \<notin> set xs)" for xs :: "string list"
    by (cases xs) auto
  then show ?thesis
    unfolding * by blast
qed

lemma diff_params_ok: "bt_ok (diff_params dm am)"
proof -
  have "bt_ok (foldl (diff_param_step am) acc dm)" if "bt_ok acc" for acc
    using that by (induction dm arbitrary: acc) (auto simp: diff_param_step_def Let_def bt_ok_insert)
  then show ?thesis by (simp add: diff_params_def)
qed

lemma diff_params_cong:
  assumes "hide_secrets p = hide_secrets p'" "hide_secrets q = hide_secrets q'"
  shows "diff_params (params_map p) (params_map q) = diff_params (params_map p') (params_map q')"
proof (rule bt_ext [OF diff_params_ok diff_params_ok])
  fix k
  have "bt_get (params_map p) k = bt_get (params_map p') k"
    "bt_get (params_map q) k = bt_get (params_map q') k" if "\<not> is_secret k"
    using that assms params_map_eq_iff by blast+
  then show "bt_get (diff_params (params_map p) (params_map q)) k =
      bt_get (diff_params (params_map p') (params_map q')) k"
    by (cases "is_secret k") (simp_all only: diff_params_map_get if_True if_False not_False_eq_True)
qed

lemma diff_result:
  "diff enc desired applied = Inr
     \<lparr>sd_params = diff_params (params_map (aw_params desired)) (params_map (aw_params applied)),
      sd_items = diff_items (by_id enc (aw_items desired)) (by_id enc (aw_items applied))\<rparr>"
  by (simp add: diff_def params_map_object)

section \<open>Properties\<close>

text \<open>The difference of two specs is empty exactly when they agree on every parameter that is
  not a secret and hold, under every item id, the same item (the last one when an id repeats);
  \<^verbatim>\<open>serde_json::to_string\<close> is only assumed not to encode two of the items at hand alike.\<close>

lemma diff_empty_iff:
  assumes "inj_on enc (set (aw_items desired) \<union> set (aw_items applied))"
  shows "\<exists>d. diff enc desired applied = Inr d \<and>
    (diff_is_empty d \<longleftrightarrow>
       hide_secrets (aw_params desired) = hide_secrets (aw_params applied) \<and>
       item_of (aw_items desired) = item_of (aw_items applied))"
proof -
  have enc: "map_option enc (item_of (aw_items desired) k) = map_option enc (item_of (aw_items applied) k) \<longleftrightarrow>
      item_of (aw_items desired) k = item_of (aw_items applied) k" for k
    using assms
    by (cases "item_of (aw_items desired) k"; cases "item_of (aw_items applied) k")
      (auto dest!: item_of_in dest: inj_onD)
  show ?thesis
    unfolding diff_result diff_is_empty_def
    by (simp add: diff_params_empty_iff diff_items_empty_iff [OF by_id_ok by_id_ok] by_id_get enc
        fun_eq_iff)
qed

lemma diff_empty_iff_witness:
  "\<exists>d. diff si_item_id default_agent_spec_wire
        (default_agent_spec_wire\<lparr>aw_items := [\<lparr>si_item_id = ''a'', si_name = [], si_kind = [],
           si_enabled = True, si_collector = JNull, si_storage = JNull\<rparr>]\<rparr>) = Inr d \<and> \<not> diff_is_empty d"
  using diff_empty_iff [of si_item_id default_agent_spec_wire
      "default_agent_spec_wire\<lparr>aw_items := [\<lparr>si_item_id = ''a'', si_name = [], si_kind = [],
           si_enabled = True, si_collector = JNull, si_storage = JNull\<rparr>]\<rparr>"]
  by (auto simp: default_agent_spec_wire_def item_of_def fun_eq_iff dest: spec [of _ "''a''"])

text \<open>Credentials stay off the page: the difference has no entry for \<^verbatim>\<open>token\<close> or
  \<^verbatim>\<open>otlp_token\<close>, and it is the same whatever the credentials of the two specs are.\<close>

lemma diff_hides_secrets:
  "\<exists>d. diff enc desired applied = Inr d \<and>
     bt_get (sd_params d) ''token'' = None \<and> bt_get (sd_params d) ''otlp_token'' = None \<and>
     (\<forall>t u v w. diff enc
        (desired\<lparr>aw_params := aw_params desired\<lparr>sp_token := t, sp_otlp_token := u\<rparr>\<rparr>)
        (applied\<lparr>aw_params := aw_params applied\<lparr>sp_token := v, sp_otlp_token := w\<rparr>\<rparr>) = Inr d)"
  unfolding diff_result
  by (auto simp: diff_params_map_get is_secret_def hide_secrets_def intro: diff_params_cong)

end
