(* ===== verification/Ledger_Specs.thy ===== *)
theory Ledger_Specs
  imports Ledger Spec_Diff
begin

text \<open>
  The ledger's data plane services and per-agent specs (\<^verbatim>\<open>ledger.rs\<close>: \<^verbatim>\<open>dataplane_services\<close>,
  \<^verbatim>\<open>agent_specs\<close>, \<^verbatim>\<open>agent_spec_states\<close>). JSON texts are written and read by \<^verbatim>\<open>serde_json\<close>,
  which is a parameter: the record \<open>serde\<close> holds one encoder and one decoder per stored type.
\<close>

record serde =
  sj_strs :: "string list \<Rightarrow> string"
  sj_strs_dec :: "string \<Rightarrow> string list option"
  sj_env :: "(string, string) btmap \<Rightarrow> string"
  sj_env_dec :: "string \<Rightarrow> (string, string) btmap option"
  sj_endpoint :: "file_endpoint \<Rightarrow> string"
  sj_endpoint_dec :: "string \<Rightarrow> file_endpoint option"
  sj_spec :: "agent_spec_wire \<Rightarrow> string"
  sj_spec_dec :: "string \<Rightarrow> (string, agent_spec_wire) result"
  sj_diff :: "spec_diff \<Rightarrow> string"
  sj_diff_dec :: "string \<Rightarrow> (string, spec_diff) result"
  sj_json_dec :: "string \<Rightarrow> json option"

section \<open>Data plane services\<close>

record dataplane_service =
  dp_service_id :: string
  dp_ingest_url :: string
  dp_query_url :: string
  dp_status :: string
  dp_last_seen_at :: "string option"
  dp_registered_at :: string

definition dataplane_params :: "dataplane_service \<Rightarrow> sql_row" where
  "dataplane_params d = row_of
     [(''service_id'', SqlText (dp_service_id d)), (''ingest_url'', SqlText (dp_ingest_url d)),
      (''query_url'', SqlText (dp_query_url d)), (''status'', SqlText ''unknown''),
      (''last_seen_at'', sql_opt_text (dp_last_seen_at d)),
      (''registered_at'', SqlText (dp_registered_at d))]"

definition row_to_dataplane :: "sql_row \<Rightarrow> dataplane_service" where
  "row_to_dataplane r =
     \<lparr>dp_service_id = field_text r ''service_id'', dp_ingest_url = field_text r ''ingest_url'',
      dp_query_url = field_text r ''query_url'', dp_status = field_text r ''status'',
      dp_last_seen_at = field_opt_text r ''last_seen_at'',
      dp_registered_at = field_text r ''registered_at''\<rparr>"

definition dataplane_upd :: "string list" where
  "dataplane_upd = [''ingest_url'', ''query_url'', ''status'', ''last_seen_at'', ''registered_at'']"

definition upsert_dataplane :: "dataplane_service \<Rightarrow> unit led" where
  "upsert_dataplane d = exec_upd Dataplanes (upsert ''service_id'' dataplane_upd (dataplane_params d))"

definition list_dataplanes :: "dataplane_service list led" where
  "list_dataplanes = exec_sel Dataplanes (\<lambda>rs. map row_to_dataplane (order_by_text ''service_id'' rs))"

definition get_dataplane :: "string \<Rightarrow> dataplane_service option led" where
  "get_dataplane k = exec_sel Dataplanes
     (\<lambda>rs. map_option row_to_dataplane (select_first (\<lambda>r. text_eq r ''service_id'' k) rs))"

definition delete_dataplane :: "string \<Rightarrow> unit led" where
  "delete_dataplane k = exec_upd Dataplanes (delete_where (\<lambda>r. text_eq r ''service_id'' k))"

definition set_dataplane_status :: "string \<Rightarrow> string \<Rightarrow> string option \<Rightarrow> unit led" where
  "set_dataplane_status k status last_seen_at =
     exec_upd Dataplanes (update_where (\<lambda>r. text_eq r ''service_id'' k)
       (row_set [(''status'', SqlText status), (''last_seen_at'', sql_opt_text last_seen_at)]))"

text \<open>\<^verbatim>\<open>hash_agent\<close> is the standard library's \<^verbatim>\<open>DefaultHasher\<close>, a parameter.\<close>

definition pick_online :: "nat \<Rightarrow> dataplane_service list \<Rightarrow> string option" where
  "pick_online h all =
     (let online = filter (\<lambda>d. dp_status d = ''online'') all in
      if online = [] then None
      else Some (dp_ingest_url (online ! (h mod length online))))"

definition pick_ingest_url :: "(string \<Rightarrow> nat) \<Rightarrow> string \<Rightarrow> string option led" where
  "pick_ingest_url hash_agent agent_id =
     led_bind list_dataplanes (\<lambda>all. led_return (pick_online (hash_agent agent_id) all))"

text \<open>Registering resets the status to \<^verbatim>\<open>unknown\<close>, so the stored record is the given one up to that.\<close>

interpretation dataplane_tab: keyed_table "''service_id''" dataplane_upd dataplane_params
  row_to_dataplane "\<lambda>d. d\<lparr>dp_status := ''unknown''\<rparr>" dp_service_id "\<lambda>_. True"
  "\<lambda>old d. d\<lparr>dp_status := ''unknown''\<rparr>"
  by unfold_locales
    (auto simp: dataplane_params_def row_of_def dataplane_upd_def row_to_dataplane_def field_text_def
      field_opt_text_opt)

section \<open>Desired specs\<close>

record agent_spec =
  as_agent_id :: string
  as_revision :: string
  as_spec :: agent_spec_wire
  as_updated_at :: string

definition agent_spec_params :: "serde \<Rightarrow> agent_spec \<Rightarrow> sql_row" where
  "agent_spec_params sj s = row_of
     [(''agent_id'', SqlText (as_agent_id s)), (''revision'', SqlText (as_revision s)),
      (''spec'', SqlText (sj_spec sj (as_spec s))), (''updated_at'', SqlText (as_updated_at s))]"

definition agent_spec_upd :: "string list" where
  "agent_spec_upd = [''revision'', ''spec'', ''updated_at'']"

definition upsert_agent_spec :: "serde \<Rightarrow> agent_spec \<Rightarrow> unit led" where
  "upsert_agent_spec sj s =
     exec_upd AgentSpecs (upsert ''agent_id'' agent_spec_upd (agent_spec_params sj s))"

text \<open>A spec text that does not parse is a hard error, never an empty spec.\<close>

definition row_to_agent_spec :: "serde \<Rightarrow> sql_row \<Rightarrow> (gse_error, agent_spec) result" where
  "row_to_agent_spec sj r =
     (case sj_spec_dec sj (field_text r ''spec'') of
        Inl e \<Rightarrow> Inl (gse_err ''internal'' (''agent_specs.spec: '' @ e))
      | Inr spec \<Rightarrow>
          Inr \<lparr>as_agent_id = field_text r ''agent_id'', as_revision = field_text r ''revision'',
               as_spec = spec, as_updated_at = field_text r ''updated_at''\<rparr>)"

definition of_row :: "(sql_row \<Rightarrow> (gse_error, 'a) result) \<Rightarrow> sql_row option \<Rightarrow> 'a option led" where
  "of_row f r lg =
     (case r of None \<Rightarrow> (Inr None, lg)
      | Some x \<Rightarrow> (case f x of Inl e \<Rightarrow> (Inl e, lg) | Inr a \<Rightarrow> (Inr (Some a), lg)))"

fun collect_rows :: "(sql_row \<Rightarrow> (gse_error, 'a) result) \<Rightarrow> sql_row list \<Rightarrow> (gse_error, 'a list) result" where
  "collect_rows f [] = Inr []"
| "collect_rows f (r # rs) =
     (case f r of Inl e \<Rightarrow> Inl e
      | Inr a \<Rightarrow> (case collect_rows f rs of Inl e \<Rightarrow> Inl e | Inr as \<Rightarrow> Inr (a # as)))"

definition get_agent_spec :: "serde \<Rightarrow> string \<Rightarrow> agent_spec option led" where
  "get_agent_spec sj k =
     led_bind (exec_sel AgentSpecs (select_first (\<lambda>r. text_eq r ''agent_id'' k)))
       (of_row (row_to_agent_spec sj))"

definition list_agent_specs :: "serde \<Rightarrow> agent_spec list led" where
  "list_agent_specs sj =
     led_bind (exec_sel AgentSpecs (order_by_text ''agent_id''))
       (\<lambda>rs lg. (collect_rows (row_to_agent_spec sj) rs, lg))"

definition remove_agent_spec :: "serde \<Rightarrow> string \<Rightarrow> bool led" where
  "remove_agent_spec sj k =
     led_bind (get_agent_spec sj k) (\<lambda>s.
       if s = None then led_return False
       else led_bind (exec_upd AgentSpecs (delete_where (\<lambda>r. text_eq r ''agent_id'' k)))
              (\<lambda>_. led_return True))"

section \<open>Effective state\<close>

record agent_spec_state =
  ss_agent_id :: string
  ss_revision :: string
  ss_applied :: agent_spec_wire
  ss_diff :: spec_diff
  ss_not_enforced :: "string list"
  ss_outcome :: string
  ss_detail :: string
  ss_reported_at :: string

definition spec_state_params :: "serde \<Rightarrow> agent_spec_state \<Rightarrow> sql_row" where
  "spec_state_params sj s = row_of
     [(''agent_id'', SqlText (ss_agent_id s)), (''revision'', SqlText (ss_revision s)),
      (''applied'', SqlText (sj_spec sj (ss_applied s))), (''diff'', SqlText (sj_diff sj (ss_diff s))),
      (''not_enforced'', SqlText (sj_strs sj (ss_not_enforced s))),
      (''outcome'', SqlText (ss_outcome s)), (''detail'', SqlText (ss_detail s)),
      (''reported_at'', SqlText (ss_reported_at s))]"

definition spec_state_upd :: "string list" where
  "spec_state_upd =
     [''revision'', ''applied'', ''diff'', ''not_enforced'', ''outcome'', ''detail'', ''reported_at'']"

definition upsert_agent_spec_state :: "serde \<Rightarrow> agent_spec_state \<Rightarrow> unit led" where
  "upsert_agent_spec_state sj s =
     exec_upd SpecStates (upsert ''agent_id'' spec_state_upd (spec_state_params sj s))"

definition state_broken :: "string \<Rightarrow> string \<Rightarrow> gse_error" where
  "state_broken what e = gse_err ''internal'' (''agent_spec_states.'' @ what @ '': '' @ e)"

definition row_to_agent_spec_state :: "serde \<Rightarrow> sql_row \<Rightarrow> (gse_error, agent_spec_state) result" where
  "row_to_agent_spec_state sj r =
     (case sj_spec_dec sj (field_text r ''applied'') of
        Inl e \<Rightarrow> Inl (state_broken ''applied'' e)
      | Inr applied \<Rightarrow>
     (case sj_diff_dec sj (field_text r ''diff'') of
        Inl e \<Rightarrow> Inl (state_broken ''diff'' e)
      | Inr d \<Rightarrow>
     (case sj_strs_dec sj (field_text r ''not_enforced'') of
        None \<Rightarrow> Inl (state_broken ''not_enforced'' [])
      | Some ne \<Rightarrow>
          Inr \<lparr>ss_agent_id = field_text r ''agent_id'', ss_revision = field_text r ''revision'',
               ss_applied = applied, ss_diff = d, ss_not_enforced = ne,
               ss_outcome = field_text r ''outcome'', ss_detail = field_text r ''detail'',
               ss_reported_at = field_text r ''reported_at''\<rparr>)))"

definition get_agent_spec_state :: "serde \<Rightarrow> string \<Rightarrow> agent_spec_state option led" where
  "get_agent_spec_state sj k =
     led_bind (exec_sel SpecStates (select_first (\<lambda>r. text_eq r ''agent_id'' k)))
       (of_row (row_to_agent_spec_state sj))"

definition list_agent_spec_states :: "serde \<Rightarrow> agent_spec_state list led" where
  "list_agent_spec_states sj =
     led_bind (exec_sel SpecStates (order_by_text ''agent_id''))
       (\<lambda>rs lg. (collect_rows (row_to_agent_spec_state sj) rs, lg))"

definition remove_agent_spec_state :: "string \<Rightarrow> unit led" where
  "remove_agent_spec_state k = exec_upd SpecStates (delete_where (\<lambda>r. text_eq r ''agent_id'' k))"

text \<open>The specs and states decode by \<^verbatim>\<open>serde_json\<close>; a value is readable when its own texts round trip.\<close>

definition spec_readable :: "serde \<Rightarrow> agent_spec_wire \<Rightarrow> bool" where
  "spec_readable sj s \<longleftrightarrow> sj_spec_dec sj (sj_spec sj s) = Inr s"

definition state_readable :: "serde \<Rightarrow> agent_spec_state \<Rightarrow> bool" where
  "state_readable sj s \<longleftrightarrow> spec_readable sj (ss_applied s) \<and>
     sj_diff_dec sj (sj_diff sj (ss_diff s)) = Inr (ss_diff s) \<and>
     sj_strs_dec sj (sj_strs sj (ss_not_enforced s)) = Some (ss_not_enforced s)"

interpretation spec_tab: keyed_table "''agent_id''" agent_spec_upd "agent_spec_params sj"
  "row_to_agent_spec sj" Inr as_agent_id "\<lambda>s. spec_readable sj (as_spec s)" "\<lambda>old. Inr"
  for sj
  by unfold_locales
    (auto simp: agent_spec_params_def row_of_def agent_spec_upd_def row_to_agent_spec_def
      field_text_def spec_readable_def)

interpretation state_tab: keyed_table "''agent_id''" spec_state_upd "spec_state_params sj"
  "row_to_agent_spec_state sj" Inr ss_agent_id "state_readable sj" "\<lambda>old. Inr"
  for sj
  by unfold_locales
    (auto simp: spec_state_params_def row_of_def spec_state_upd_def row_to_agent_spec_state_def
      field_text_def state_readable_def spec_readable_def)

end
