(* ===== verification/Ledger_Jobs.thy ===== *)
theory Ledger_Jobs
  imports Ledger_Specs
begin

text \<open>
  The job rows of the ledger (\<^verbatim>\<open>ledger.rs\<close>, section \<^verbatim>\<open>jobs\<close>): submission, the status updates with
  their guards, and the lemmas that follow one row through them. A job is a state machine over
  \<^typ>\<open>job_status\<close>; the guard \<^verbatim>\<open>status NOT IN (..)\<close> of the statements is what makes its terminal
  states final.
\<close>

record new_job =
  n_job_id :: string
  n_agent_id :: string
  n_interpreter :: string
  n_script :: string
  n_args :: "string list"
  n_env :: "(string, string) btmap"
  n_working_dir :: "string option"
  n_template_id :: "string option"
  n_rerun_of :: "string option"
  n_timeout_secs :: nat
  n_created_at :: string
  n_kind :: string
  n_source :: "file_endpoint option"
  n_destination :: "file_endpoint option"
  n_source_agent_id :: "string option"
  n_dest_agent_id :: "string option"
  n_file_name :: "string option"
  n_file_bytes :: "int option"
  n_file_sha256 :: "string option"
  n_file_id :: "string option"

definition default_new_job :: new_job where
  "default_new_job =
     \<lparr>n_job_id = [], n_agent_id = [], n_interpreter = [], n_script = [], n_args = [], n_env = [],
      n_working_dir = None, n_template_id = None, n_rerun_of = None, n_timeout_secs = 0,
      n_created_at = [], n_kind = [], n_source = None, n_destination = None,
      n_source_agent_id = None, n_dest_agent_id = None, n_file_name = None, n_file_bytes = None,
      n_file_sha256 = None, n_file_id = None\<rparr>"

record job_record =
  j_job_id :: string
  j_agent_id :: string
  j_interpreter :: string
  j_script :: string
  j_args :: "string list"
  j_env :: "(string, string) btmap"
  j_working_dir :: "string option"
  j_template_id :: "string option"
  j_rerun_of :: "string option"
  j_timeout_secs :: nat
  j_status :: job_status
  j_exit_code :: "int option"
  j_signal :: "int option"
  j_stdout :: "string option"
  j_stdout_truncated :: bool
  j_stderr :: "string option"
  j_stderr_truncated :: bool
  j_error :: "string option"
  j_created_at :: string
  j_dispatched_at :: "string option"
  j_started_at :: "string option"
  j_finished_at :: "string option"
  j_updated_at :: string
  j_kind :: string
  j_source :: "file_endpoint option"
  j_destination :: "file_endpoint option"
  j_source_agent_id :: "string option"
  j_dest_agent_id :: "string option"
  j_file_name :: "string option"
  j_file_bytes :: "int option"
  j_file_sha256 :: "string option"
  j_file_id :: "string option"

definition parse_endpoint :: "serde \<Rightarrow> string option \<Rightarrow> file_endpoint option" where
  "parse_endpoint sj raw =
     (case filter_opt (\<lambda>v. v \<noteq> []) raw of None \<Rightarrow> None | Some s \<Rightarrow> sj_endpoint_dec sj s)"

definition opt_json :: "('a \<Rightarrow> string) \<Rightarrow> 'a option \<Rightarrow> sql_value" where
  "opt_json enc v = (case v of None \<Rightarrow> SqlNull | Some x \<Rightarrow> SqlText (enc x))"

definition row_to_job :: "serde \<Rightarrow> sql_row \<Rightarrow> job_record" where
  "row_to_job sj r =
     \<lparr>j_job_id = field_text r ''job_id'', j_agent_id = field_text r ''agent_id'',
      j_interpreter = field_text r ''interpreter'', j_script = field_text r ''script'',
      j_args = unwrap_or (sj_strs_dec sj (field_text r ''args'')) [],
      j_env = unwrap_or (sj_env_dec sj (field_text r ''env'')) [],
      j_working_dir = field_opt_text r ''working_dir'',
      j_template_id = field_opt_text r ''template_id'', j_rerun_of = field_opt_text r ''rerun_of'',
      j_timeout_secs = nat (max (field_i64 r ''timeout_secs'') 0),
      j_status = unwrap_or (status_parse (field_text r ''status'')) Lost,
      j_exit_code = map_option wrap_i32 (field_opt_i64 r ''exit_code''),
      j_signal = map_option wrap_i32 (field_opt_i64 r ''signal''),
      j_stdout = field_opt_text r ''stdout'', j_stdout_truncated = (field_i64 r ''stdout_truncated'' \<noteq> 0),
      j_stderr = field_opt_text r ''stderr'', j_stderr_truncated = (field_i64 r ''stderr_truncated'' \<noteq> 0),
      j_error = field_opt_text r ''error'', j_created_at = field_text r ''created_at'',
      j_dispatched_at = field_opt_text r ''dispatched_at'',
      j_started_at = field_opt_text r ''started_at'', j_finished_at = field_opt_text r ''finished_at'',
      j_updated_at = field_text r ''updated_at'',
      j_kind = (let k = field_text r ''kind'' in if k = [] then default_job_kind else k),
      j_source = parse_endpoint sj (field_opt_text r ''source_json''),
      j_destination = parse_endpoint sj (field_opt_text r ''dest_json''),
      j_source_agent_id = field_opt_text r ''source_agent_id'',
      j_dest_agent_id = field_opt_text r ''dest_agent_id'',
      j_file_name = field_opt_text r ''file_name'', j_file_bytes = field_opt_i64 r ''file_bytes'',
      j_file_sha256 = field_opt_text r ''file_sha256'', j_file_id = field_opt_text r ''file_id''\<rparr>"

section \<open>Operations\<close>

definition job_params :: "serde \<Rightarrow> new_job \<Rightarrow> sql_row" where
  "job_params sj job = row_of
     [(''job_id'', SqlText (n_job_id job)), (''agent_id'', SqlText (n_agent_id job)),
      (''interpreter'', SqlText (n_interpreter job)), (''script'', SqlText (n_script job)),
      (''args'', SqlText (sj_strs sj (n_args job))), (''env'', SqlText (sj_env sj (n_env job))),
      (''working_dir'', sql_opt_text (n_working_dir job)),
      (''template_id'', sql_opt_text (n_template_id job)),
      (''rerun_of'', sql_opt_text (n_rerun_of job)),
      (''timeout_secs'', SqlInteger (u64_as_i64 (n_timeout_secs job))),
      (''status'', SqlText ''pending''), (''stdout_truncated'', SqlInteger 0),
      (''stderr_truncated'', SqlInteger 0),
      (''created_at'', SqlText (n_created_at job)), (''updated_at'', SqlText (n_created_at job)),
      (''kind'', SqlText (if trim (n_kind job) = [] then ''script'' else n_kind job)),
      (''source_json'', opt_json (sj_endpoint sj) (n_source job)),
      (''dest_json'', opt_json (sj_endpoint sj) (n_destination job)),
      (''file_name'', sql_opt_text (n_file_name job)), (''file_bytes'', sql_opt_int (n_file_bytes job)),
      (''file_sha256'', sql_opt_text (n_file_sha256 job)), (''file_id'', sql_opt_text (n_file_id job)),
      (''source_agent_id'', sql_opt_text (n_source_agent_id job)),
      (''dest_agent_id'', sql_opt_text (n_dest_agent_id job))]"

definition exec_insert :: "tname \<Rightarrow> string \<Rightarrow> string list \<Rightarrow> sql_row \<Rightarrow> unit led" where
  "exec_insert t tab ks new =
     exec_stmt t (\<lambda>rs. case insert_unique tab ks new rs of Inl e \<Rightarrow> Inl e | Inr rs' \<Rightarrow> Inr (rs', ()))"

definition insert_job :: "serde \<Rightarrow> new_job \<Rightarrow> unit led" where
  "insert_job sj job = exec_insert Jobs ''jobs'' [''job_id''] (job_params sj job)"

definition get_job :: "serde \<Rightarrow> string \<Rightarrow> job_record option led" where
  "get_job sj k = exec_sel Jobs
     (\<lambda>rs. map_option (row_to_job sj) (select_first (\<lambda>r. text_eq r ''job_id'' k) rs))"

definition touches_agent :: "string \<Rightarrow> sql_row \<Rightarrow> bool" where
  "touches_agent a r \<longleftrightarrow>
     text_eq r ''agent_id'' a \<or> text_eq r ''source_agent_id'' a \<or> text_eq r ''dest_agent_id'' a"

definition list_limit :: "int option \<Rightarrow> nat" where
  "list_limit limit = nat (max 1 (min (unwrap_or limit 200) 1000))"

definition list_jobs :: "serde \<Rightarrow> string option \<Rightarrow> string option \<Rightarrow> int option \<Rightarrow> job_record list led" where
  "list_jobs sj agent_id status limit = exec_sel Jobs (\<lambda>rs.
     map (row_to_job sj) (take (list_limit limit) (order_by_text_desc ''created_at''
       (filter (\<lambda>r. (case agent_id of None \<Rightarrow> True | Some a \<Rightarrow> touches_agent a r) \<and>
                    (case status of None \<Rightarrow> True | Some s \<Rightarrow> text_eq r ''status'' s)) rs))))"

definition terminal_texts :: "string list" where
  "terminal_texts = [''succeeded'', ''failed'', ''timeout'', ''rejected'', ''lost'']"

definition inflight_texts :: "string list" where
  "inflight_texts = [''pending'', ''dispatched'', ''running'']"

definition open_job :: "string \<Rightarrow> sql_row \<Rightarrow> bool" where
  "open_job k r \<longleftrightarrow> text_eq r ''job_id'' k \<and> text_not_in r ''status'' terminal_texts"

definition update_jobs :: "(sql_row \<Rightarrow> bool) \<Rightarrow> (sql_row \<Rightarrow> (string \<times> sql_value) list) \<Rightarrow> unit led" where
  "update_jobs p sets = exec_upd Jobs (update_where p (\<lambda>r. row_set (sets r) r))"

definition mark_running :: "string \<Rightarrow> string \<Rightarrow> unit led" where
  "mark_running k started_at = update_jobs (open_job k)
     (\<lambda>_. [(''status'', SqlText ''running''), (''started_at'', SqlText started_at),
           (''updated_at'', SqlText started_at)])"

definition mark_dispatched :: "string \<Rightarrow> string \<Rightarrow> unit led" where
  "mark_dispatched k dispatched_at = update_jobs (open_job k)
     (\<lambda>r. [(''status'', SqlText ''dispatched''),
           (''dispatched_at'', coalesce (r ''dispatched_at'') (SqlText dispatched_at)),
           (''updated_at'', SqlText dispatched_at)])"

definition finish_sets :: "job_result \<Rightarrow> string \<Rightarrow> sql_row \<Rightarrow> (string \<times> sql_value) list" where
  "finish_sets res finished_at r =
     [(''status'', SqlText (status_as_str (jr_status res))),
      (''exit_code'', sql_opt_int (jr_exit_code res)), (''signal'', sql_opt_int (jr_signal res)),
      (''stdout'', SqlText (jr_stdout res)), (''stdout_truncated'', bool_int (jr_stdout_truncated res)),
      (''stderr'', SqlText (jr_stderr res)), (''stderr_truncated'', bool_int (jr_stderr_truncated res)),
      (''error'', sql_opt_text (jr_error res)),
      (''started_at'', coalesce
         (if jr_started_at_micros res > 0 then SqlText (int_dec (jr_started_at_micros res)) else SqlNull)
         (r ''started_at'')),
      (''finished_at'', SqlText finished_at), (''updated_at'', SqlText finished_at)]"

definition finish_job :: "job_result \<Rightarrow> string \<Rightarrow> unit led" where
  "finish_job res finished_at = update_jobs (open_job (jr_job_id res)) (finish_sets res finished_at)"

definition set_job_file_meta ::
    "int \<Rightarrow> string \<Rightarrow> string option \<Rightarrow> int option \<Rightarrow> string option \<Rightarrow> string option \<Rightarrow> unit led" where
  "set_job_file_meta now k file_name file_bytes file_sha256 file_id =
     led_bind (ledger_stamp now) (\<lambda>stamp. update_jobs (\<lambda>r. text_eq r ''job_id'' k)
       (\<lambda>_. [(''file_name'', sql_opt_text file_name), (''file_bytes'', sql_opt_int file_bytes),
             (''file_sha256'', sql_opt_text file_sha256), (''file_id'', sql_opt_text file_id),
             (''updated_at'', SqlText stamp)]))"

definition mark_rejected :: "int \<Rightarrow> string \<Rightarrow> string \<Rightarrow> unit led" where
  "mark_rejected now k reason =
     led_bind (ledger_stamp now) (\<lambda>stamp. update_jobs (open_job k)
       (\<lambda>_. [(''status'', SqlText ''rejected''), (''error'', SqlText reason), (''updated_at'', SqlText stamp)]))"

definition mark_lost_by_agent :: "int \<Rightarrow> string \<Rightarrow> string \<Rightarrow> unit led" where
  "mark_lost_by_agent now a reason =
     led_bind (ledger_stamp now) (\<lambda>stamp.
       update_jobs (\<lambda>r. touches_agent a r \<and> text_in r ''status'' inflight_texts)
       (\<lambda>r. [(''status'', SqlText ''lost''), (''error'', coalesce (r ''error'') (SqlText reason)),
             (''updated_at'', SqlText stamp)]))"

definition mark_lost_inflight_on_startup :: "int \<Rightarrow> unit led" where
  "mark_lost_inflight_on_startup now =
     led_bind (ledger_stamp now) (\<lambda>stamp.
       update_jobs (\<lambda>r. text_in r ''status'' inflight_texts)
       (\<lambda>r. [(''status'', SqlText ''lost''), (''error'', coalesce (r ''error'') (SqlText ''server restarted'')),
             (''updated_at'', SqlText stamp)]))"

text \<open>\<^verbatim>\<open>lost_reason_for\<close>: an engine error while reading the agent counts as offline.\<close>

definition lost_reason_for :: "string \<Rightarrow> int \<Rightarrow> int \<Rightarrow> ledger \<Rightarrow> string \<times> ledger" where
  "lost_reason_for k now_micros window_micros lg =
     (case get_agent k lg of
        (Inr (Some a), lg') \<Rightarrow>
          (case Option.bind (a_last_heartbeat_at a) parse_i64 of
             Some hb \<Rightarrow>
               (if sat_sub_i64 now_micros hb < window_micros then ''session unavailable''
                else ''agent offline'', lg')
           | None \<Rightarrow> (''agent offline'', lg'))
      | (_, lg') \<Rightarrow> (''agent offline'', lg'))"

section \<open>One row through the operations\<close>

definition job_row :: "ledger \<Rightarrow> string \<Rightarrow> sql_row option" where
  "job_row lg k = select_first (\<lambda>r. text_eq r ''job_id'' k) (lg_tab lg Jobs)"

definition job_of :: "serde \<Rightarrow> ledger \<Rightarrow> string \<Rightarrow> job_record option" where
  "job_of sj lg k = map_option (row_to_job sj) (job_row lg k)"

definition job_row_ok :: "sql_row \<Rightarrow> bool" where
  "job_row_ok r \<longleftrightarrow> (\<exists>s. r ''status'' = SqlText (status_as_str s)) \<and>
     (\<exists>a. r ''agent_id'' = SqlText a) \<and> (\<exists>e. r ''error'' = sql_opt_text e)"

definition job_rows_ok :: "ledger \<Rightarrow> bool" where
  "job_rows_ok lg \<longleftrightarrow> distinct (map (\<lambda>r. r ''job_id'') (lg_tab lg Jobs)) \<and>
     (\<forall>r \<in> set (lg_tab lg Jobs). job_row_ok r)"

datatype job_op =
    OpInsert new_job
  | OpRunning string string
  | OpDispatched string string
  | OpFinish job_result string
  | OpFileMeta int string "string option" "int option" "string option" "string option"
  | OpReject int string string
  | OpLost int string string
  | OpStartup int

fun run_job_op :: "serde \<Rightarrow> job_op \<Rightarrow> ledger \<Rightarrow> ledger" where
  "run_job_op sj (OpInsert job) lg = snd (insert_job sj job lg)"
| "run_job_op sj (OpRunning k t) lg = snd (mark_running k t lg)"
| "run_job_op sj (OpDispatched k t) lg = snd (mark_dispatched k t lg)"
| "run_job_op sj (OpFinish res t) lg = snd (finish_job res t lg)"
| "run_job_op sj (OpFileMeta now k a b c d) lg = snd (set_job_file_meta now k a b c d lg)"
| "run_job_op sj (OpReject now k reason) lg = snd (mark_rejected now k reason lg)"
| "run_job_op sj (OpLost now a reason) lg = snd (mark_lost_by_agent now a reason lg)"
| "run_job_op sj (OpStartup now) lg = snd (mark_lost_inflight_on_startup now lg)"

definition run_job_ops :: "serde \<Rightarrow> job_op list \<Rightarrow> ledger \<Rightarrow> ledger" where
  "run_job_ops sj ops lg = foldl (\<lambda>lg oper. run_job_op sj oper lg) lg ops"

lemma update_jobs_tab:
  "lg_tab (snd (update_jobs p sets lg)) t =
     (if t = Jobs \<and> (\<exists>u. fst (update_jobs p sets lg) = Inr u)
      then update_where p (\<lambda>r. row_set (sets r) r) (lg_tab lg Jobs) else lg_tab lg t)"
  by (auto simp: update_jobs_def exec_upd_tab)

lemma update_jobs_row:
  assumes "\<And>r. ''job_id'' \<notin> fst ` set (sets r)"
  shows "job_row (snd (update_jobs p sets lg)) k =
    (if \<exists>u. fst (update_jobs p sets lg) = Inr u
     then map_option (\<lambda>r. if p r then row_set (sets r) r else r) (job_row lg k)
     else job_row lg k)"
proof -
  have "find (\<lambda>r. text_eq r ''job_id'' k) (update_where p (\<lambda>r. row_set (sets r) r) rs) =
    map_option (\<lambda>r. if p r then row_set (sets r) r else r) (find (\<lambda>r. text_eq r ''job_id'' k) rs)" for rs
    by (rule find_update_where) (simp add: text_eq_def assms)
  then show ?thesis by (simp add: job_row_def select_first_def update_jobs_tab)
qed

lemma stamped:
  "led_bind (ledger_stamp now) f lg =
     f (int_dec now @ ''-'' @ nat_dec (lg_seq lg)) (lg\<lparr>lg_seq := (lg_seq lg + 1) mod 2 ^ 64\<rparr>)"
  by (simp add: led_bind_def ledger_stamp_def)

lemma job_row_seq [simp]: "job_row (lg\<lparr>lg_seq := n\<rparr>) k = job_row lg k"
  by (simp add: job_row_def)

lemma job_row_key: "job_row lg k = Some r \<Longrightarrow> r ''job_id'' = SqlText k \<and> r \<in> set (lg_tab lg Jobs)"
  by (auto simp: job_row_def select_first_def text_eq_def dest: find_SomeD)

lemma exec_insert_tab:
  "lg_tab (snd (exec_insert t tab ks new lg)) t' =
     (if t' = t \<and> (\<exists>u. fst (exec_insert t tab ks new lg) = Inr u) then lg_tab lg t @ [new] else lg_tab lg t')"
  by (auto simp: exec_insert_def exec_stmt_def Let_def set_tab_def insert_unique_def
      split: list.splits option.splits)

lemma exec_insert_okD:
  "fst (exec_insert t tab ks new lg) = Inr u \<Longrightarrow> k \<in> set ks \<Longrightarrow> r \<in> set (lg_tab lg t) \<Longrightarrow> r k \<noteq> new k"
  by (auto simp: exec_insert_def exec_stmt_def Let_def insert_unique_def find_None_iff
      split: list.splits option.splits)

lemma find_append: "find p (xs @ ys) = (case find p xs of None \<Rightarrow> find p ys | Some x \<Rightarrow> Some x)"
  by (induction xs) auto

lemma insert_job_row_other:
  "job_row lg k = Some r \<Longrightarrow> job_row (snd (insert_job sj job lg)) k = Some r"
  by (auto simp: job_row_def select_first_def insert_job_def exec_insert_tab find_append)

lemma status_text_cases:
  "status_as_str s \<in> set terminal_texts \<longleftrightarrow> is_terminal s"
  "status_as_str s \<in> set inflight_texts \<longleftrightarrow> \<not> is_terminal s"
  by (cases s; simp add: terminal_texts_def inflight_texts_def)+

text \<open>The guarded updates skip a terminal row; only the file columns may still be written.\<close>

lemma terminal_row_step:
  assumes "job_row lg k = Some r" "r ''status'' = SqlText (status_as_str s)" "is_terminal s"
  shows "\<exists>r'. job_row (run_job_op sj oper lg) k = Some r' \<and>
    (\<forall>c. c \<notin> {''file_name'', ''file_bytes'', ''file_sha256'', ''file_id'', ''updated_at''} \<longrightarrow> r' c = r c)"
proof -
  have "\<not> open_job k' r" for k'
    using assms by (simp add: open_job_def text_not_in_def status_text_cases)
  moreover have "\<not> text_in r ''status'' inflight_texts"
    using assms by (simp add: text_in_def status_text_cases)
  ultimately show ?thesis
    using assms(1)
    by (cases oper)
      (auto simp: insert_job_row_other mark_running_def mark_dispatched_def finish_job_def finish_sets_def stamped
        set_job_file_meta_def mark_rejected_def mark_lost_by_agent_def
        mark_lost_inflight_on_startup_def update_jobs_row row_set_def split: if_splits)
qed

lemma terminal_row_run:
  assumes "job_row lg k = Some r" "r ''status'' = SqlText (status_as_str s)" "is_terminal s"
  shows "\<exists>r'. job_row (run_job_ops sj ops lg) k = Some r' \<and>
    (\<forall>c. c \<notin> {''file_name'', ''file_bytes'', ''file_sha256'', ''file_id'', ''updated_at''} \<longrightarrow> r' c = r c)"
  using assms
proof (induction ops arbitrary: lg r)
  case Nil
  then show ?case by (simp add: run_job_ops_def)
next
  case (Cons oper ops)
  obtain r1 where r1: "job_row (run_job_op sj oper lg) k = Some r1"
    and eq: "\<forall>c. c \<notin> {''file_name'', ''file_bytes'', ''file_sha256'', ''file_id'', ''updated_at''} \<longrightarrow> r1 c = r c"
    using terminal_row_step [OF Cons.prems] by blast
  have "r1 ''status'' = SqlText (status_as_str s)" using eq Cons.prems(2) by simp
  from Cons.IH [OF r1 this Cons.prems(3)] eq show ?case
    by (auto simp: run_job_ops_def)
qed

lemma job_rows_ok_seq [simp]: "job_rows_ok (lg\<lparr>lg_seq := n\<rparr>) = job_rows_ok lg"
  by (simp add: job_rows_ok_def)

lemma job_rows_ok_update:
  assumes "job_rows_ok lg" "\<And>r. ''job_id'' \<notin> fst ` set (sets r)"
    and "\<And>r. job_row_ok r \<Longrightarrow> job_row_ok (row_set (sets r) r)"
  shows "job_rows_ok (snd (update_jobs p sets lg))"
proof -
  have "map (\<lambda>r. r ''job_id'') (update_where p (\<lambda>r. row_set (sets r) r) rs) = map (\<lambda>r. r ''job_id'') rs" for rs
    by (simp add: update_where_def assms(2))
  then show ?thesis
    using assms(1,3) by (auto simp: job_rows_ok_def update_jobs_tab) (auto simp: update_where_def)
qed

lemma sql_opt_text_cases:
  "\<exists>e. SqlText s = sql_opt_text e" "\<exists>e. coalesce (sql_opt_text e') (SqlText s) = sql_opt_text e"
  "\<exists>e. SqlNull = sql_opt_text e" "\<exists>e. sql_opt_text e' = sql_opt_text e"
  by (rule exI [of _ "Some s"], simp add: sql_opt_text_def,
      rule exI [of _ "case e' of None \<Rightarrow> Some s | e \<Rightarrow> e"],
      simp add: coalesce_def sql_opt_text_def split: option.split,
      rule exI [of _ None], simp add: sql_opt_text_def, rule exI [of _ e'], simp)

lemma status_texts:
  "\<exists>s. ''running'' = status_as_str s" "\<exists>s. ''dispatched'' = status_as_str s"
  "\<exists>s. ''rejected'' = status_as_str s" "\<exists>s. ''lost'' = status_as_str s"
  "\<exists>s. ''pending'' = status_as_str s"
  by (rule exI [of _ Running], simp, rule exI [of _ Dispatched], simp, rule exI [of _ Rejected], simp,
      rule exI [of _ Lost], simp, rule exI [of _ Pending], simp)

lemma insert_job_rows_ok: "job_rows_ok lg \<Longrightarrow> job_rows_ok (snd (insert_job sj job lg))"
proof (cases "\<exists>u. fst (insert_job sj job lg) = Inr u")
  case True
  assume "job_rows_ok lg"
  moreover have "r ''job_id'' \<noteq> job_params sj job ''job_id''" if "r \<in> set (lg_tab lg Jobs)" for r
    using True that exec_insert_okD [of Jobs "''jobs''" "[''job_id'']" "job_params sj job" lg _ "''job_id''" r]
    by (auto simp: insert_job_def)
  moreover have "job_row_ok (job_params sj job)"
    using status_texts(5) sql_opt_text_cases(3)
    by (simp add: job_row_ok_def job_params_def row_of_def)
  ultimately show ?thesis
    using True
    by (auto simp: job_rows_ok_def insert_job_def exec_insert_tab dest: sym)
next
  case False
  assume "job_rows_ok lg"
  with False show ?thesis by (simp add: job_rows_ok_def insert_job_def exec_insert_tab)
qed

lemma run_job_op_ok: "job_rows_ok lg \<Longrightarrow> job_rows_ok (run_job_op sj oper lg)"
  by (cases oper)
    (auto simp: insert_job_rows_ok mark_running_def mark_dispatched_def finish_job_def finish_sets_def stamped
      set_job_file_meta_def mark_rejected_def mark_lost_by_agent_def
      mark_lost_inflight_on_startup_def job_row_ok_def row_set_def status_texts
      sql_opt_text_cases intro!: job_rows_ok_update)

lemma run_job_ops_ok: "job_rows_ok lg \<Longrightarrow> job_rows_ok (run_job_ops sj ops lg)"
  by (induction ops arbitrary: lg) (auto simp: run_job_ops_def run_job_op_ok)

section \<open>Properties\<close>

lemma terminal_job_run:
  assumes "job_rows_ok lg" "job_of sj lg k = Some j" "is_terminal (j_status j)"
  shows "\<exists>a b c d u. job_of sj (run_job_ops sj ops lg) k =
    Some (j\<lparr>j_file_name := a, j_file_bytes := b, j_file_sha256 := c, j_file_id := d, j_updated_at := u\<rparr>)"
proof -
  obtain r where r: "job_row lg k = Some r" "row_to_job sj r = j"
    using assms(2) by (auto simp: job_of_def)
  from assms(1) job_row_key [OF r(1)] obtain s where s: "r ''status'' = SqlText (status_as_str s)"
    by (auto simp: job_rows_ok_def job_row_ok_def)
  have "is_terminal s"
    using assms(3) s r(2) by (auto simp: row_to_job_def field_text_def)
  from terminal_row_run [OF r(1) s this] obtain r' where
    r': "job_row (run_job_ops sj ops lg) k = Some r'" and
    eq: "\<And>c. c \<notin> {''file_name'', ''file_bytes'', ''file_sha256'', ''file_id'', ''updated_at''} \<Longrightarrow> r' c = r c"
    by blast
  have "row_to_job sj r' = j\<lparr>j_file_name := j_file_name (row_to_job sj r'),
      j_file_bytes := j_file_bytes (row_to_job sj r'), j_file_sha256 := j_file_sha256 (row_to_job sj r'),
      j_file_id := j_file_id (row_to_job sj r'), j_updated_at := j_updated_at (row_to_job sj r')\<rparr>"
    unfolding r(2) [symmetric] by (simp add: row_to_job_def eq field_cong [where r = r' and r' = r, OF eq])
  moreover have "job_of sj (run_job_ops sj ops lg) k = Some (row_to_job sj r')"
    using r' by (simp add: job_of_def)
  ultimately show ?thesis by metis
qed


text \<open>A job as the statement \<^verbatim>\<open>mark_lost_by_agent\<close> sees it, on records.\<close>

definition job_touches :: "string \<Rightarrow> job_record \<Rightarrow> bool" where
  "job_touches a j \<longleftrightarrow> j_agent_id j = a \<or> j_source_agent_id j = Some a \<or> j_dest_agent_id j = Some a"

lemma touches_agent_record:
  "job_row_ok r \<Longrightarrow> touches_agent a r \<longleftrightarrow> job_touches a (row_to_job sj r)"
  by (auto simp: touches_agent_def job_touches_def row_to_job_def text_eq_def field_text_def
      field_opt_text_def job_row_ok_def split: sql_value.splits)

lemma inflight_record:
  "job_row_ok r \<Longrightarrow> text_in r ''status'' inflight_texts \<longleftrightarrow> \<not> is_terminal (j_status (row_to_job sj r))"
  by (auto simp: job_row_ok_def text_in_def row_to_job_def field_text_def status_text_cases)

lemma row_to_job_lost:
  "job_row_ok r \<Longrightarrow> row_to_job sj
     (row_set [(''status'', SqlText ''lost''), (''error'', coalesce (r ''error'') (SqlText reason)),
        (''updated_at'', SqlText stamp)] r) =
   (row_to_job sj r)\<lparr>j_status := Lost,
      j_error := (case j_error (row_to_job sj r) of None \<Rightarrow> Some reason | Some e \<Rightarrow> Some e),
      j_updated_at := stamp\<rparr>"
  by (auto simp: row_to_job_def row_set_def field_text_def field_opt_text_def field_i64_def
      field_opt_i64_def status_parse_def job_row_ok_def sql_opt_text_def coalesce_def
      split: option.splits)

lemma mark_lost_exact:
  assumes "job_rows_ok lg" "mark_lost_by_agent now a reason lg = (res, lg')"
  shows "job_of sj lg' k =
    (if res = Inr () then
       map_option (\<lambda>j. if job_touches a j \<and> \<not> is_terminal (j_status j)
         then j\<lparr>j_status := Lost,
               j_error := (case j_error j of None \<Rightarrow> Some reason | Some e \<Rightarrow> Some e),
               j_updated_at := int_dec now @ ''-'' @ nat_dec (lg_seq lg)\<rparr>
         else j) (job_of sj lg k)
     else job_of sj lg k)"
proof (cases "job_row lg k")
  case None
  moreover have lg': "lg' = snd (mark_lost_by_agent now a reason lg)" using assms(2) by simp
  ultimately show ?thesis
    by (simp add: job_of_def lg' mark_lost_by_agent_def stamped update_jobs_row)
next
  case (Some r)
  then have ok: "job_row_ok r"
    using assms(1) job_row_key by (auto simp: job_rows_ok_def)
  have lg': "lg' = snd (mark_lost_by_agent now a reason lg)"
    "res = fst (mark_lost_by_agent now a reason lg)" using assms(2) by simp_all
  show ?thesis
    unfolding lg' using Some
    by (simp add: job_of_def mark_lost_by_agent_def stamped update_jobs_row
        touches_agent_record [OF ok, where sj = sj] inflight_record [OF ok, where sj = sj] row_to_job_lost [OF ok])
qed

text \<open>Losing an agent marks exactly the unfinished jobs that run on it or transfer from or to it:
  each becomes \<^verbatim>\<open>lost\<close> and keeps an error it already had; every other job is as it was. An engine
  fault changes no job.\<close>

lemma mark_lost_by_agent_exact:
  assumes "job_rows_ok lg" "mark_lost_by_agent now a reason lg = (res, lg')"
  shows "job_of sj lg' k =
    (if res = Inr () then
       map_option (\<lambda>j. if job_touches a j \<and> \<not> is_terminal (j_status j)
         then j\<lparr>j_status := Lost,
               j_error := (case j_error j of None \<Rightarrow> Some reason | Some e \<Rightarrow> Some e),
               j_updated_at := int_dec now @ ''-'' @ nat_dec (lg_seq lg)\<rparr>
         else j) (job_of sj lg k)
     else job_of sj lg k)"
  by (rule mark_lost_exact [OF assms])

definition empty_ledger :: ledger where
  "empty_ledger = \<lparr>lg_tab = \<lambda>_. [], lg_faults = [], lg_seq = 0\<rparr>"

definition id_serde :: serde where
  "id_serde = \<lparr>sj_strs = \<lambda>_. ''s'', sj_strs_dec = \<lambda>_. Some [], sj_env = \<lambda>_. ''e'', sj_env_dec = \<lambda>_. Some [],
     sj_endpoint = \<lambda>_. ''p'', sj_endpoint_dec = \<lambda>_. Some (EpServerTemp None),
     sj_spec = \<lambda>_. ''w'', sj_spec_dec = \<lambda>_. Inr default_agent_spec_wire,
     sj_diff = \<lambda>_. ''d'', sj_diff_dec = \<lambda>_. Inr empty_spec_diff, sj_json_dec = \<lambda>_. Some JNull\<rparr>"

lemma job_rows_ok_empty: "job_rows_ok empty_ledger"
  by (simp add: job_rows_ok_def empty_ledger_def)

definition demo_job :: new_job where
  "demo_job = default_new_job\<lparr>n_job_id := ''j1'', n_agent_id := ''a1'', n_created_at := ''t0''\<rparr>"

definition demo_result :: job_result where
  "demo_result = \<lparr>jr_job_id = ''j1'', jr_status = Succeeded, jr_exit_code = Some 0, jr_signal = None,
     jr_stdout = ''ok'', jr_stdout_truncated = False, jr_stderr = [], jr_stderr_truncated = False,
     jr_started_at_micros = 5, jr_finished_at_micros = 9, jr_error = None\<rparr>"

definition demo_ledger :: ledger where
  "demo_ledger = run_job_ops id_serde [OpInsert demo_job, OpFinish demo_result ''t1''] empty_ledger"

lemma demo_ledger_ok: "job_rows_ok demo_ledger"
  unfolding demo_ledger_def by (rule run_job_ops_ok [OF job_rows_ok_empty])

lemma demo_ledger_status: "\<exists>j. job_of id_serde demo_ledger ''j1'' = Some j \<and> is_terminal (j_status j)"
  by (simp add: demo_ledger_def run_job_ops_def empty_ledger_def insert_job_def exec_insert_def
      exec_stmt_def set_tab_def insert_unique_def finish_job_def update_jobs_def exec_upd_def job_of_def
      job_row_def select_first_def update_where_def text_eq_def row_set_def open_job_def
      job_params_def row_of_def demo_job_def demo_result_def default_new_job_def text_not_in_def
      terminal_texts_def row_to_job_def field_text_def status_parse_def finish_sets_def)


definition pending_ledger :: ledger where
  "pending_ledger = run_job_ops id_serde [OpInsert demo_job] empty_ledger"

lemma pending_ledger_ok: "job_rows_ok pending_ledger"
  unfolding pending_ledger_def by (rule run_job_ops_ok [OF job_rows_ok_empty])

lemmas demo_eval = pending_ledger_def run_job_ops_def empty_ledger_def insert_job_def exec_insert_def
  exec_stmt_def set_tab_def insert_unique_def exec_upd_def job_of_def exec_sel_def
  job_row_def select_first_def text_eq_def job_params_def row_of_def demo_job_def default_new_job_def
  row_to_job_def field_text_def field_opt_text_def status_parse_def led_bind_def

lemma pending_ledger_job:
  "\<exists>j. job_of id_serde pending_ledger ''j1'' = Some j \<and> j_status j = Pending \<and> j_agent_id j = ''a1'' \<and>
     j_error j = None"
  by (simp add: demo_eval sql_opt_text_def)

lemma mark_lost_by_agent_exact_witness:
  "\<exists>j. job_of id_serde (snd (mark_lost_by_agent 7 ''a1'' ''agent offline'' pending_ledger)) ''j1'' = Some j \<and>
     j_status j = Lost \<and> j_error j = Some ''agent offline''"
proof -
  let ?m = "mark_lost_by_agent 7 ''a1'' ''agent offline'' pending_ledger"
  have "fst ?m = Inr ()"
    by (simp add: mark_lost_by_agent_def stamped update_jobs_def exec_upd_def exec_stmt_def
        pending_ledger_def run_job_ops_def empty_ledger_def insert_job_def exec_insert_def
        insert_unique_def set_tab_def)
  moreover obtain j where "job_of id_serde pending_ledger ''j1'' = Some j" "j_status j = Pending"
    "j_agent_id j = ''a1''" "j_error j = None"
    using pending_ledger_job by blast
  ultimately show ?thesis
    using mark_lost_by_agent_exact [OF pending_ledger_ok prod.collapse [symmetric],
        where sj = id_serde and k = "''j1''" and a = "''a1''" and now = 7 and reason = "''agent offline''"]
    by (simp add: job_touches_def)
qed

lemma open_job_record:
  "job_row_ok r \<Longrightarrow> r ''job_id'' = SqlText k' \<Longrightarrow>
     open_job k r \<longleftrightarrow> k = k' \<and> \<not> is_terminal (j_status (row_to_job sj r))"
  by (auto simp: job_row_ok_def open_job_def text_eq_def text_not_in_def row_to_job_def
      field_text_def status_text_cases)

definition finished :: "job_result \<Rightarrow> string \<Rightarrow> job_record \<Rightarrow> job_record" where
  "finished res t j = j\<lparr>j_status := jr_status res, j_exit_code := jr_exit_code res,
     j_signal := jr_signal res, j_stdout := Some (jr_stdout res),
     j_stdout_truncated := jr_stdout_truncated res, j_stderr := Some (jr_stderr res),
     j_stderr_truncated := jr_stderr_truncated res, j_error := jr_error res,
     j_started_at := (if jr_started_at_micros res > 0 then Some (int_dec (jr_started_at_micros res))
                      else j_started_at j),
     j_finished_at := Some t, j_updated_at := t\<rparr>"

lemma row_to_job_finish:
  assumes "pred_option is_i32 (jr_exit_code r)" "pred_option is_i32 (jr_signal r)"
  shows "row_to_job sj (row_set (finish_sets r t x) x) =
     finished r t (row_to_job sj x)"
proof -
  have i: "(case sql_opt_int v of SqlInteger i \<Rightarrow> Some i | _ \<Rightarrow> None) = v" for v
    by (cases v) (simp_all add: sql_opt_int_def)
  have s: "(case sql_opt_text v of SqlText i \<Rightarrow> Some i | _ \<Rightarrow> None) = v" for v
    by (cases v) (simp_all add: sql_opt_text_def)
  show ?thesis
    by (simp add: row_to_job_def row_set_def field_text_def field_opt_text_def field_i64_def
      field_opt_i64_def finished_def finish_sets_def i s bool_int_def coalesce_def map_wrap_i32 assms)
qed

lemma finish_sets_key: "''job_id'' \<notin> fst ` set (finish_sets r t x)"
  by (simp add: finish_sets_def)

text \<open>A result is recorded once. On a job that is not terminal \<^verbatim>\<open>finish_job\<close> writes the whole
  result, with the finish stamp, and keeps the start time when the result has none; on a terminal
  job, and on every other job, it changes nothing, and neither does a failed statement.\<close>

lemma finish_job_exact:
  assumes "job_rows_ok lg" "finish_job r t lg = (res, lg')"
    and "pred_option is_i32 (jr_exit_code r)" "pred_option is_i32 (jr_signal r)"
  shows "job_of sj lg' k = map_option
    (\<lambda>j. if res = Inr () \<and> k = jr_job_id r \<and> \<not> is_terminal (j_status j) then finished r t j else j)
    (job_of sj lg k)"
proof (cases "job_row lg k")
  case None
  moreover have lg': "lg' = snd (finish_job r t lg)" using assms(2) by simp
  ultimately show ?thesis
    by (simp add: job_of_def lg' finish_job_def update_jobs_row finish_sets_key)
next
  case (Some x)
  note key = job_row_key [OF Some]
  then have ok: "job_row_ok x"
    using assms(1) by (auto simp: job_rows_ok_def)
  have lg': "lg' = snd (finish_job r t lg)" "res = fst (finish_job r t lg)"
    using assms(2) by simp_all
  show ?thesis
    unfolding lg' using Some key
    by (cases "k = jr_job_id r \<and> \<not> is_terminal (j_status (row_to_job sj x))")
      (auto simp: job_of_def finish_job_def update_jobs_row finish_sets_key
        open_job_record [OF ok, where sj = sj] row_to_job_finish [OF assms(3,4)])
qed

lemma finish_job_exact_witness:
  "\<exists>j. job_of id_serde (snd (finish_job demo_result ''t1'' pending_ledger)) ''j1'' = Some j \<and>
     j_status j = Succeeded \<and> j_stdout j = Some ''ok'' \<and> j_finished_at j = Some ''t1''"
proof -
  let ?m = "finish_job demo_result ''t1'' pending_ledger"
  have "fst ?m = Inr ()"
    by (simp add: finish_job_def update_jobs_def exec_upd_def exec_stmt_def
        pending_ledger_def run_job_ops_def empty_ledger_def insert_job_def exec_insert_def
        insert_unique_def set_tab_def)
  moreover obtain j where "job_of id_serde pending_ledger ''j1'' = Some j" "j_status j = Pending"
    using pending_ledger_job by blast
  ultimately show ?thesis
    using finish_job_exact [OF pending_ledger_ok prod.collapse [symmetric],
        where sj = id_serde and k = "''j1''" and r = demo_result and t = "''t1''"]
    by (simp add: finished_def demo_result_def is_i32_def)
qed

text \<open>The record a submission leaves, before any status update.\<close>

definition submitted :: "new_job \<Rightarrow> job_record" where
  "submitted job =
     \<lparr>j_job_id = n_job_id job, j_agent_id = n_agent_id job, j_interpreter = n_interpreter job,
      j_script = n_script job, j_args = n_args job, j_env = n_env job,
      j_working_dir = n_working_dir job, j_template_id = n_template_id job,
      j_rerun_of = n_rerun_of job,
      j_timeout_secs = (if n_timeout_secs job < 2 ^ 63 then n_timeout_secs job else 0),
      j_status = Pending, j_exit_code = None, j_signal = None, j_stdout = None,
      j_stdout_truncated = False, j_stderr = None, j_stderr_truncated = False, j_error = None,
      j_created_at = n_created_at job, j_dispatched_at = None, j_started_at = None,
      j_finished_at = None, j_updated_at = n_created_at job,
      j_kind = (if trim (n_kind job) = [] then ''script'' else n_kind job),
      j_source = n_source job, j_destination = n_destination job,
      j_source_agent_id = n_source_agent_id job, j_dest_agent_id = n_dest_agent_id job,
      j_file_name = n_file_name job, j_file_bytes = n_file_bytes job,
      j_file_sha256 = n_file_sha256 job, j_file_id = n_file_id job\<rparr>"

text \<open>The texts of the job at hand round trip through \<^verbatim>\<open>serde_json\<close>.\<close>

definition job_readable :: "serde \<Rightarrow> new_job \<Rightarrow> bool" where
  "job_readable sj job \<longleftrightarrow> sj_strs_dec sj (sj_strs sj (n_args job)) = Some (n_args job) \<and>
     sj_env_dec sj (sj_env sj (n_env job)) = Some (n_env job) \<and>
     (\<forall>e. Some e = n_source job \<or> Some e = n_destination job \<longrightarrow>
        sj_endpoint sj e \<noteq> [] \<and> sj_endpoint_dec sj (sj_endpoint sj e) = Some e)"

lemma parse_endpoint_json:
  "(\<And>e. v = Some e \<Longrightarrow> sj_endpoint sj e \<noteq> [] \<and> sj_endpoint_dec sj (sj_endpoint sj e) = Some e) \<Longrightarrow>
     parse_endpoint sj (case opt_json (sj_endpoint sj) v of SqlText s \<Rightarrow> Some s | _ \<Rightarrow> None) = v"
  by (cases v) (simp_all add: parse_endpoint_def opt_json_def)

lemma row_to_job_params:
  assumes "job_readable sj job" "n_timeout_secs job < 2 ^ 64"
  shows "row_to_job sj (job_params sj job) = submitted job"
proof -
  have i: "(case sql_opt_int v of SqlInteger i \<Rightarrow> Some i | _ \<Rightarrow> None) = v" for v
    by (cases v) (simp_all add: sql_opt_int_def)
  have s: "(case sql_opt_text v of SqlText i \<Rightarrow> Some i | _ \<Rightarrow> None) = v" for v
    by (cases v) (simp_all add: sql_opt_text_def)
  have t: "nat (max (u64_as_i64 (n_timeout_secs job)) 0) =
      (if n_timeout_secs job < 2 ^ 63 then n_timeout_secs job else 0)"
    using assms(2) by (simp add: u64_as_i64_def)
  have e: "parse_endpoint sj (case opt_json (sj_endpoint sj) (n_source job) of SqlText s \<Rightarrow> Some s | _ \<Rightarrow> None) = n_source job"
    "parse_endpoint sj (case opt_json (sj_endpoint sj) (n_destination job) of SqlText s \<Rightarrow> Some s | _ \<Rightarrow> None) = n_destination job"
    using assms(1) by (auto simp: job_readable_def intro!: parse_endpoint_json)
  have tr: "trim (n_kind job) \<noteq> [] \<Longrightarrow> n_kind job \<noteq> []" by auto
  show ?thesis
    using assms(1) tr
    by (simp add: row_to_job_def job_params_def row_of_def field_text_def field_opt_text_def field_i64_def
      field_opt_i64_def submitted_def i s t e job_readable_def status_parse_def default_job_kind_def)
qed

lemma insert_job_ok:
  assumes "lg_faults lg = []" "job_row lg (n_job_id job) = None"
  shows "insert_job sj job lg = (Inr (), set_tab Jobs (lg_tab lg Jobs @ [job_params sj job]) lg)"
proof -
  have "\<forall>r \<in> set (lg_tab lg Jobs). r ''job_id'' \<noteq> job_params sj job ''job_id''"
    using assms(2) by (auto simp: job_row_def select_first_def find_None_iff text_eq_def job_params_def row_of_def)
  moreover have lg: "lg\<lparr>lg_faults := []\<rparr> = lg" using assms(1) by simp
  ultimately show ?thesis
    using assms(1) by (auto simp: insert_job_def exec_insert_def exec_stmt_def insert_unique_def lg)
qed

lemma job_row_inserted:
  "job_row lg (n_job_id job) = None \<Longrightarrow>
     job_row (set_tab Jobs (lg_tab lg Jobs @ [job_params sj job]) lg) (n_job_id job) = Some (job_params sj job)"
  by (simp add: job_row_def select_first_def find_append text_eq_def job_params_def row_of_def)

lemma get_job_ok: "lg_faults lg = [] \<Longrightarrow> get_job sj k lg = (Inr (job_of sj lg k), lg)"
  by (simp add: get_job_def exec_sel_ok job_of_def job_row_def)

lemma update_jobs_ok:
  assumes "lg_faults lg = []"
  shows "fst (update_jobs p sets lg) = Inr ()" "lg_faults (snd (update_jobs p sets lg)) = []"
  using assms by (simp_all add: update_jobs_def exec_upd_ok)

text \<open>A submitted job reads back as submitted and pending, with every field of the request (a
  timeout of \<^verbatim>\<open>2^63\<close> seconds or more reads back as 0, the cast of the stored integer); a second
  submission under the same id is refused and leaves the first one as it is.\<close>

lemma insert_job_roundtrip:
  assumes "lg_faults lg = []" "job_row lg (n_job_id job) = None"
    and "job_readable sj job" "n_timeout_secs job < 2 ^ 64"
  shows "\<exists>lg'. insert_job sj job lg = (Inr (), lg') \<and>
    get_job sj (n_job_id job) lg' = (Inr (Some (submitted job)), lg') \<and>
    (\<forall>job'. n_job_id job' = n_job_id job \<longrightarrow>
       insert_job sj job' lg' = (Inl (gse_of_dataplane (unique_error ''jobs'' ''job_id'')), lg'))"
proof -
  let ?lg' = "set_tab Jobs (lg_tab lg Jobs @ [job_params sj job]) lg"
  have fresh: "\<forall>r \<in> set (lg_tab lg Jobs). r ''job_id'' \<noteq> SqlText (n_job_id job)"
    using assms(2) by (auto simp: job_row_def select_first_def find_None_iff text_eq_def)
  have key: "job_params sj j ''job_id'' = SqlText (n_job_id j)" for j
    by (simp add: job_params_def row_of_def)
  have lg: "lg\<lparr>lg_faults := []\<rparr> = lg" using assms(1) by simp
  have "insert_job sj job lg = (Inr (), ?lg')"
    using assms(1) fresh by (auto simp: insert_job_def exec_insert_def exec_stmt_def insert_unique_def key lg)
  moreover have "find (\<lambda>r. text_eq r ''job_id'' (n_job_id job)) (lg_tab lg Jobs) = None"
    using assms(2) by (simp add: job_row_def select_first_def)
  then have "get_job sj (n_job_id job) ?lg' = (Inr (Some (submitted job)), ?lg')"
    using assms(1) by (simp add: get_job_def exec_sel_ok select_first_def find_append text_eq_def key
        row_to_job_params [OF assms(3,4)])
  moreover have "insert_job sj job' ?lg' = (Inl (gse_of_dataplane (unique_error ''jobs'' ''job_id'')), ?lg')"
    if "n_job_id job' = n_job_id job" for job'
    using assms(1) that by (simp add: insert_job_def exec_insert_def exec_stmt_def insert_unique_def key set_tab_def)
  ultimately show ?thesis by blast
qed

lemma insert_job_roundtrip_witness:
  "\<exists>lg'. insert_job id_serde demo_job empty_ledger = (Inr (), lg') \<and>
     get_job id_serde ''j1'' lg' = (Inr (Some (submitted demo_job)), lg')"
  using insert_job_roundtrip [of empty_ledger demo_job id_serde]
  by (auto simp: empty_ledger_def job_row_def select_first_def job_readable_def id_serde_def
      demo_job_def default_new_job_def)

text \<open>After a restart that reached the table no job is in flight, and the finished ones are as
  they were.\<close>

lemma startup_leaves_no_inflight_job:
  assumes "job_rows_ok lg" "mark_lost_inflight_on_startup now lg = (Inr (), lg')"
  shows "(\<forall>j. job_of sj lg' k = Some j \<longrightarrow> is_terminal (j_status j)) \<and>
    (\<forall>j. job_of sj lg k = Some j \<and> is_terminal (j_status j) \<longrightarrow> job_of sj lg' k = Some j)"
proof (cases "job_row lg k")
  case None
  moreover have lg': "lg' = snd (mark_lost_inflight_on_startup now lg)" using assms(2) by simp
  ultimately show ?thesis
    by (simp add: job_of_def lg' mark_lost_inflight_on_startup_def stamped update_jobs_row)
next
  case (Some r)
  then have ok: "job_row_ok r"
    using assms(1) job_row_key by (auto simp: job_rows_ok_def)
  have lg': "lg' = snd (mark_lost_inflight_on_startup now lg)"
    and "fst (mark_lost_inflight_on_startup now lg) = Inr ()" using assms(2) by simp_all
  then show ?thesis
    using Some
    by (auto simp: job_of_def mark_lost_inflight_on_startup_def stamped update_jobs_row
        inflight_record [OF ok, where sj = sj] row_to_job_lost [OF ok])
qed

lemma startup_leaves_no_inflight_job_witness:
  "\<not> (\<exists>j. job_of id_serde (snd (mark_lost_inflight_on_startup 3 pending_ledger)) ''j1'' = Some j \<and>
     \<not> is_terminal (j_status j))"
proof -
  let ?m = "mark_lost_inflight_on_startup 3 pending_ledger"
  have "?m = (Inr (), snd ?m)"
    by (simp add: mark_lost_inflight_on_startup_def stamped update_jobs_def exec_upd_def exec_stmt_def
        pending_ledger_def run_job_ops_def empty_ledger_def insert_job_def exec_insert_def
        insert_unique_def set_tab_def)
  then show ?thesis
    using startup_leaves_no_inflight_job [OF pending_ledger_ok, of 3 "snd ?m" id_serde "''j1''"] by blast
qed

end
