(* ===== verification/Template.thy ===== *)
theory Template
  imports Server_Config Ledger_Jobs
begin

text \<open>
  Job templates: \<^verbatim>\<open>crates/gse-server-core/src/template.rs\<close> (placeholders, validation, expansion) and
  the template rows of \<^verbatim>\<open>ledger.rs\<close>; \<^verbatim>\<open>rerun.rs\<close> builds a submission from an earlier job. The
  abstract view of a template text is its list of segments, literals and variables; scanning and
  substitution are related to it.
\<close>

section \<open>Records\<close>

record template_input =
  ti_name :: string
  ti_description :: "string option"
  ti_interpreter :: "string option"
  ti_script :: string
  ti_args :: "string list"
  ti_env :: "(string, string) btmap"
  ti_working_dir :: "string option"
  ti_timeout_secs :: "nat option"

record expanded_job =
  xj_interpreter :: string
  xj_script :: string
  xj_args :: "string list"
  xj_env :: "(string, string) btmap"
  xj_working_dir :: "string option"
  xj_timeout_secs :: nat

record job_template =
  jt_template_id :: string
  jt_name :: string
  jt_description :: "string option"
  jt_interpreter :: string
  jt_script :: string
  jt_args :: "string list"
  jt_env :: "(string, string) btmap"
  jt_working_dir :: "string option"
  jt_timeout_secs :: nat
  jt_created_at :: string
  jt_updated_at :: string

record new_job_template =
  nt_name :: string
  nt_description :: "string option"
  nt_interpreter :: string
  nt_script :: string
  nt_args :: "string list"
  nt_env :: "(string, string) btmap"
  nt_working_dir :: "string option"
  nt_timeout_secs :: nat

record job_submit =
  js_agent_id :: string
  js_kind :: string
  js_interpreter :: "string option"
  js_script :: string
  js_args :: "string list"
  js_env :: "(string, string) btmap"
  js_working_dir :: "string option"
  js_timeout_secs :: "nat option"

section \<open>Placeholders\<close>

definition bad_arg :: "string \<Rightarrow> gse_error" where
  "bad_arg m = gse_err ''invalid_argument'' m"

definition is_valid_name :: "string \<Rightarrow> bool" where
  "is_valid_name name =
     (case name of [] \<Rightarrow> False
      | c # cs \<Rightarrow> (c = CHR ''_'' \<or> is_ascii_alpha c) \<and>
          list_all (\<lambda>d. d = CHR ''_'' \<or> is_ascii_alnum d) cs)"

text \<open>
  \<open>placeholder s\<close>: does the scan stand at \<^verbatim>\<open>${\<close>; if so, the name up to the closing brace and the
  rest, or nothing when the brace is missing.
\<close>

definition at_placeholder :: "string \<Rightarrow> bool" where
  "at_placeholder s \<longleftrightarrow> starts_with s ''${''"

definition placeholder :: "string \<Rightarrow> (string \<times> string) option" where
  "placeholder s =
     (case find_str ''}'' (drop 2 s) of None \<Rightarrow> None
      | Some rel \<Rightarrow> Some (take rel (drop 2 s), drop (rel + 1) (drop 2 s)))"

lemma placeholder_shorter: "placeholder s = Some (name, rest) \<Longrightarrow> s \<noteq> [] \<Longrightarrow> length rest < length s"
  by (cases s) (auto simp: placeholder_def split: option.splits)

function collect_placeholders :: "string \<Rightarrow> string list \<Rightarrow> (gse_error, string list) result" where
  "collect_placeholders [] names = Inr names"
| "collect_placeholders (c # cs) names =
     (if at_placeholder (c # cs) then
        (case placeholder (c # cs) of
           None \<Rightarrow> Inl (bad_arg ''unterminated placeholder'')
         | Some (name, rest) \<Rightarrow>
             if \<not> is_valid_name name then
               Inl (bad_arg (''invalid placeholder name ${'' @ name @ ''}''))
             else collect_placeholders rest (bs_insert name names))
      else collect_placeholders cs names)"
  by pat_completeness auto
termination
  by (relation "measure (\<lambda>(s, _). length s)") (auto dest: placeholder_shorter)

definition literal_len :: "string \<Rightarrow> nat" where
  "literal_len s = (case find_str ''${'' s of Some rel \<Rightarrow> rel | None \<Rightarrow> length s)"

lemma literal_len_pos: "\<not> at_placeholder (c # cs) \<Longrightarrow> 0 < literal_len (c # cs)"
  by (auto simp: literal_len_def at_placeholder_def starts_with_def split: option.splits if_splits)

function substitute :: "string \<Rightarrow> (string, string) btmap \<Rightarrow> (gse_error, string) result" where
  "substitute [] vars = Inr []"
| "substitute (c # cs) vars =
     (if at_placeholder (c # cs) then
        (case placeholder (c # cs) of
           None \<Rightarrow> Inl (bad_arg ''unterminated placeholder'')
         | Some (name, rest) \<Rightarrow>
             (case bt_get vars name of
                None \<Rightarrow> Inl (bad_arg (''missing variable '' @ name))
              | Some v \<Rightarrow>
                  (case substitute rest vars of Inl e \<Rightarrow> Inl e | Inr out \<Rightarrow> Inr (v @ out))))
      else
        (let n = literal_len (c # cs) in
         case substitute (drop n (c # cs)) vars of
           Inl e \<Rightarrow> Inl e | Inr out \<Rightarrow> Inr (take n (c # cs) @ out)))"
  by pat_completeness auto
termination
  by (relation "measure (\<lambda>(s, _). length s)")
    (auto dest: placeholder_shorter literal_len_pos)

declare collect_placeholders.simps(2) [simp del] substitute.simps(2) [simp del]

section \<open>Template input\<close>

definition from_template :: "job_template \<Rightarrow> template_input" where
  "from_template t =
     \<lparr>ti_name = jt_name t, ti_description = jt_description t, ti_interpreter = Some (jt_interpreter t),
      ti_script = jt_script t, ti_args = jt_args t, ti_env = jt_env t,
      ti_working_dir = jt_working_dir t, ti_timeout_secs = Some (jt_timeout_secs t)\<rparr>"

definition resolved_interpreter :: "template_input \<Rightarrow> string" where
  "resolved_interpreter i =
     unwrap_or (filter_opt (\<lambda>s. s \<noteq> []) (map_option trim (ti_interpreter i))) ''bash''"

definition resolved_timeout :: "template_input \<Rightarrow> server_config \<Rightarrow> nat" where
  "resolved_timeout i cfg = unwrap_or (ti_timeout_secs i) (sc_job_default_timeout_secs cfg)"

fun collect_all :: "string list \<Rightarrow> string list \<Rightarrow> (gse_error, string list) result" where
  "collect_all [] names = Inr names"
| "collect_all (t # ts) names =
     (case collect_placeholders t names of Inl e \<Rightarrow> Inl e | Inr names' \<Rightarrow> collect_all ts names')"

definition template_texts :: "template_input \<Rightarrow> string list" where
  "template_texts i =
     ti_script i # ti_args i @ map snd (ti_env i) @ (case ti_working_dir i of None \<Rightarrow> [] | Some d \<Rightarrow> [d])"

definition extract_variables :: "template_input \<Rightarrow> (gse_error, string list) result" where
  "extract_variables i = collect_all (template_texts i) []"

definition validate_placeholders :: "template_input \<Rightarrow> (gse_error, unit) result" where
  "validate_placeholders i = (case extract_variables i of Inl e \<Rightarrow> Inl e | Inr _ \<Rightarrow> Inr ())"

definition validate :: "template_input \<Rightarrow> server_config \<Rightarrow> (gse_error, unit) result" where
  "validate i cfg =
     (if trim (ti_name i) = [] then Inl (bad_arg ''name required'')
      else if trim (ti_script i) = [] then Inl (bad_arg ''script required'')
      else if length (ti_script i) > sc_job_max_script_bytes cfg then
        Inl (bad_arg (''script exceeds '' @ nat_dec (sc_job_max_script_bytes cfg) @ '' bytes''))
      else if resolved_timeout i cfg = 0 \<or> resolved_timeout i cfg > sc_job_max_timeout_secs cfg then
        Inl (bad_arg (''timeout_secs must be within 1..='' @ nat_dec (sc_job_max_timeout_secs cfg)))
      else validate_placeholders i)"

definition to_new_template :: "template_input \<Rightarrow> server_config \<Rightarrow> new_job_template" where
  "to_new_template i cfg =
     \<lparr>nt_name = trim (ti_name i),
      nt_description = filter_opt (\<lambda>d. d \<noteq> []) (map_option trim (ti_description i)),
      nt_interpreter = resolved_interpreter i, nt_script = ti_script i, nt_args = ti_args i,
      nt_env = ti_env i, nt_working_dir = ti_working_dir i,
      nt_timeout_secs = resolved_timeout i cfg\<rparr>"

definition into_submit :: "expanded_job \<Rightarrow> string \<Rightarrow> job_submit" where
  "into_submit x agent_id =
     \<lparr>js_agent_id = agent_id, js_kind = default_job_kind, js_interpreter = Some (xj_interpreter x),
      js_script = xj_script x, js_args = xj_args x, js_env = xj_env x,
      js_working_dir = xj_working_dir x, js_timeout_secs = Some (xj_timeout_secs x)\<rparr>"

fun substitute_all :: "string list \<Rightarrow> (string, string) btmap \<Rightarrow> (gse_error, string list) result" where
  "substitute_all [] vars = Inr []"
| "substitute_all (t # ts) vars =
     (case substitute t vars of Inl e \<Rightarrow> Inl e
      | Inr s \<Rightarrow> (case substitute_all ts vars of Inl e \<Rightarrow> Inl e | Inr ss \<Rightarrow> Inr (s # ss)))"

text \<open>The loop over \<^verbatim>\<open>env\<close> inserts the substituted values under the same keys in the same order.\<close>

definition expand ::
    "template_input \<Rightarrow> (string, string) btmap \<Rightarrow> server_config \<Rightarrow> (gse_error, expanded_job) result" where
  "expand i vars cfg =
     (case validate i cfg of Inl e \<Rightarrow> Inl e | Inr _ \<Rightarrow>
     (case substitute (ti_script i) vars of Inl e \<Rightarrow> Inl e | Inr script \<Rightarrow>
      if length script > sc_job_max_script_bytes cfg then
        Inl (bad_arg (''script exceeds '' @ nat_dec (sc_job_max_script_bytes cfg) @ '' bytes''))
      else
     (case substitute_all (ti_args i) vars of Inl e \<Rightarrow> Inl e | Inr args \<Rightarrow>
     (case substitute_all (map snd (ti_env i)) vars of Inl e \<Rightarrow> Inl e | Inr vals \<Rightarrow>
     (case (case ti_working_dir i of None \<Rightarrow> Inr None
            | Some d \<Rightarrow> (case substitute d vars of Inl e \<Rightarrow> Inl e | Inr s \<Rightarrow> Inr (Some s))) of
        Inl e \<Rightarrow> Inl e
      | Inr working_dir \<Rightarrow>
          if resolved_timeout i cfg = 0 \<or> resolved_timeout i cfg > sc_job_max_timeout_secs cfg then
            Inl (bad_arg (''timeout_secs must be within 1..='' @ nat_dec (sc_job_max_timeout_secs cfg)))
          else Inr \<lparr>xj_interpreter = resolved_interpreter i, xj_script = script, xj_args = args,
                xj_env = bt_of_list (zip (map fst (ti_env i)) vals),
                xj_working_dir = working_dir, xj_timeout_secs = resolved_timeout i cfg\<rparr>)))))"

section \<open>Segments: the meaning of a template text\<close>

datatype seg = Lit char | Var string

function segments :: "string \<Rightarrow> seg list option" where
  "segments [] = Some []"
| "segments (c # cs) =
     (if at_placeholder (c # cs) then
        (case placeholder (c # cs) of None \<Rightarrow> None
         | Some (name, rest) \<Rightarrow> map_option (\<lambda>ss. Var name # ss) (segments rest))
      else map_option (\<lambda>ss. Lit c # ss) (segments cs))"
  by pat_completeness auto
termination
  by (relation "measure length") (auto dest: placeholder_shorter)

declare segments.simps(2) [simp del]

fun seg_vars :: "seg list \<Rightarrow> string set" where
  "seg_vars [] = {}"
| "seg_vars (Lit c # ss) = seg_vars ss"
| "seg_vars (Var n # ss) = insert n (seg_vars ss)"

fun render :: "(string \<Rightarrow> string option) \<Rightarrow> seg list \<Rightarrow> string option" where
  "render f [] = Some []"
| "render f (Lit c # ss) = map_option ((#) c) (render f ss)"
| "render f (Var n # ss) =
     (case f n of None \<Rightarrow> None | Some v \<Rightarrow> map_option ((@) v) (render f ss))"

lemma collect_segments:
  "collect_placeholders s names = Inr out \<Longrightarrow>
     \<exists>ss. segments s = Some ss \<and> set out = set names \<union> seg_vars ss \<and>
       (\<forall>n \<in> seg_vars ss. is_valid_name n)"
proof (induction s names arbitrary: out rule: collect_placeholders.induct)
  case (1 names)
  then show ?case by simp
next
  case (2 c cs names)
  show ?case
  proof (cases "at_placeholder (c # cs)")
    case True
    with 2 show ?thesis
      by (auto simp: collect_placeholders.simps(2) segments.simps(2) split: option.splits if_splits)
        fastforce+
  next
    case False
    with 2 show ?thesis
      by (auto simp: collect_placeholders.simps(2) segments.simps(2))
  qed
qed

text \<open>The jump over a literal run reaches the same place as the scan by single characters.\<close>

lemma find_placeholder_step:
  "\<not> at_placeholder (c # cs) \<Longrightarrow> literal_len (c # cs) = Suc (literal_len cs)"
  by (auto simp: literal_len_def at_placeholder_def starts_with_def split: option.splits)

lemma literal_len_at: "at_placeholder cs \<Longrightarrow> literal_len cs = 0"
  by (cases cs) (auto simp: literal_len_def at_placeholder_def starts_with_def split: option.splits)

lemma literal_len_Nil [simp]: "literal_len [] = 0"
  by (simp add: literal_len_def)

lemma segments_jump:
  "segments cs = map_option (\<lambda>ss. map Lit (take (literal_len cs) cs) @ ss)
     (segments (drop (literal_len cs) cs))"
proof (induction cs)
  case Nil
  then show ?case by simp
next
  case (Cons c cs)
  show ?case
  proof (cases "at_placeholder (c # cs)")
    case True
    then show ?thesis by (simp add: literal_len_at option.map_ident)
  next
    case False
    have "segments (c # cs) = map_option (\<lambda>ss. Lit c # ss) (segments cs)"
      using False by (simp add: segments.simps(2))
    also have "\<dots> = map_option (\<lambda>ss. Lit c # map Lit (take (literal_len cs) cs) @ ss)
        (segments (drop (literal_len cs) cs))"
      by (subst Cons) (simp add: option.map_comp comp_def)
    finally show ?thesis using False by (simp add: find_placeholder_step)
  qed
qed

lemma render_literals: "render f (map Lit cs @ ss) = map_option ((@) cs) (render f ss)"
  by (induction cs) (simp_all add: option.map_comp comp_def option.map_ident)

lemma substitute_render:
  "segments s = Some ss \<Longrightarrow>
     (case render (bt_get vars) ss of Some out \<Rightarrow> substitute s vars = Inr out
      | None \<Rightarrow> \<exists>n \<in> seg_vars ss. bt_get vars n = None \<and>
          substitute s vars = Inl (bad_arg (''missing variable '' @ n)))"
proof (induction s vars arbitrary: ss rule: substitute.induct)
  case (1 vars)
  then show ?case by simp
next
  case (2 c cs vars)
  show ?case
  proof (cases "at_placeholder (c # cs)")
    case True
    with 2(3) obtain name rest ss' where p: "placeholder (c # cs) = Some (name, rest)"
      and ss': "segments rest = Some ss'" "ss = Var name # ss'"
      by (auto simp: segments.simps(2) split: option.splits)
    show ?thesis
    proof (cases "bt_get vars name")
      case None
      with True p ss' show ?thesis by (simp add: substitute.simps(2))
    next
      case (Some v)
      from 2(1) [OF True p refl Some ss'(1)] True p ss' Some show ?thesis
        by (cases "render (bt_get vars) ss'") (auto simp: substitute.simps(2))
    qed
  next
    case False
    let ?n = "literal_len (c # cs)"
    from 2(3) obtain ss' where ss': "segments (drop ?n (c # cs)) = Some ss'"
      "ss = map Lit (take ?n (c # cs)) @ ss'"
      by (subst (asm) segments_jump) auto
    have vars: "seg_vars (map Lit xs @ ss') = seg_vars ss'" for xs
      by (induction xs) auto
    from 2(2) [OF False refl ss'(1)] show ?thesis
      unfolding ss'(2) render_literals vars
      using False by (cases "render (bt_get vars) ss'") (auto simp: substitute.simps(2) Let_def)
  qed
qed

lemma render_total:
  "(\<forall>n \<in> seg_vars ss. f n \<noteq> None) \<longleftrightarrow> render f ss \<noteq> None"
  by (induction f ss rule: render.induct) (auto split: option.splits)

lemma render_cong: "(\<And>n. n \<in> seg_vars ss \<Longrightarrow> f n = g n) \<Longrightarrow> render f ss = render g ss"
  by (induction f ss rule: render.induct) (auto split: option.splits)

section \<open>Properties\<close>

definition rendered :: "(string, string) btmap \<Rightarrow> string \<Rightarrow> string" where
  "rendered vars t = (case segments t of None \<Rightarrow> []
     | Some ss \<Rightarrow> (case render (bt_get vars) ss of None \<Rightarrow> [] | Some out \<Rightarrow> out))"

definition text_vars :: "string \<Rightarrow> string set" where
  "text_vars t = (case segments t of None \<Rightarrow> {} | Some ss \<Rightarrow> seg_vars ss)"

lemma collect_all_texts:
  "collect_all ts names = Inr out \<Longrightarrow>
     set out = set names \<union> (\<Union>t \<in> set ts. text_vars t) \<and> (\<forall>t \<in> set ts. segments t \<noteq> None)"
proof (induction ts arbitrary: names)
  case Nil
  then show ?case by simp
next
  case (Cons t ts)
  then obtain names' where n: "collect_placeholders t names = Inr names'" "collect_all ts names' = Inr out"
    by (auto split: sum.splits)
  from collect_segments [OF n(1)] Cons.IH [OF n(2)] show ?case
    by (auto simp: text_vars_def)
qed

lemma validateD:
  "validate i cfg = Inr () \<Longrightarrow>
     (\<exists>names. extract_variables i = Inr names \<and> set names = (\<Union>t \<in> set (template_texts i). text_vars t)) \<and>
     (\<forall>t \<in> set (template_texts i). segments t \<noteq> None) \<and>
     0 < resolved_timeout i cfg \<and> resolved_timeout i cfg \<le> sc_job_max_timeout_secs cfg"
  by (auto simp: validate_def validate_placeholders_def extract_variables_def split: if_splits sum.splits
      dest!: collect_all_texts)

lemma substitute_bound:
  assumes "segments t \<noteq> None" "\<forall>n \<in> text_vars t. bt_get vars n \<noteq> None"
  shows "substitute t vars = Inr (rendered vars t)"
proof -
  from assms(1) obtain ss where ss: "segments t = Some ss" by auto
  with assms(2) obtain out where "render (bt_get vars) ss = Some out"
    using render_total [of ss "bt_get vars"] by (auto simp: text_vars_def)
  with substitute_render [OF ss, of vars] ss show ?thesis by (simp add: rendered_def)
qed

lemma substitute_all_bound:
  "(\<forall>t \<in> set ts. segments t \<noteq> None \<and> (\<forall>n \<in> text_vars t. bt_get vars n \<noteq> None)) \<Longrightarrow>
     substitute_all ts vars = Inr (map (rendered vars) ts)"
  by (induction ts) (auto simp: substitute_bound)

text \<open>C15: a valid template whose variables are all given expands, and to exactly the template with
  every \<^verbatim>\<open>${name}\<close> replaced by its value in one pass (a value is never scanned again), unless the
  expanded script outgrows the limit; interpreter and timeout are the resolved ones.\<close>

theorem expand_exact:
  assumes "validate i cfg = Inr ()" "extract_variables i = Inr names"
    and "\<forall>n \<in> set names. bt_get vars n \<noteq> None" "bt_ok (ti_env i)"
  shows "expand i vars cfg =
    (if length (rendered vars (ti_script i)) \<le> sc_job_max_script_bytes cfg
     then Inr \<lparr>xj_interpreter = resolved_interpreter i, xj_script = rendered vars (ti_script i),
            xj_args = map (rendered vars) (ti_args i),
            xj_env = map (\<lambda>(k, v). (k, rendered vars v)) (ti_env i),
            xj_working_dir = map_option (rendered vars) (ti_working_dir i),
            xj_timeout_secs = resolved_timeout i cfg\<rparr>
     else Inl (bad_arg (''script exceeds '' @ nat_dec (sc_job_max_script_bytes cfg) @ '' bytes'')))"
proof -
  have t: "segments t \<noteq> None \<and> (\<forall>n \<in> text_vars t. bt_get vars n \<noteq> None)" if "t \<in> set (template_texts i)" for t
    using validateD [OF assms(1)] assms(2,3) that by auto
  have env: "zip (map fst m) (map (rendered vars) (map snd m)) = map (\<lambda>(k, v). (k, rendered vars v)) m" for m
    by (induction m) auto
  have "bt_ok (map (\<lambda>(k, v). (k, rendered vars v)) (ti_env i))"
    using assms(4) by (simp add: bt_ok_def comp_def case_prod_unfold)
  then have env': "bt_of_list (zip (map fst (ti_env i)) (map (rendered vars) (map snd (ti_env i)))) =
      map (\<lambda>(k, v). (k, rendered vars v)) (ti_env i)"
    unfolding env by (rule bt_of_list_ok)
  have T: "\<forall>t \<in> set (template_texts i). segments t \<noteq> None \<and> (\<forall>n \<in> text_vars t. bt_get vars n \<noteq> None)"
    using t by blast
  have "substitute (ti_script i) vars = Inr (rendered vars (ti_script i))"
    "substitute_all (ti_args i) vars = Inr (map (rendered vars) (ti_args i))"
    "substitute_all (map snd (ti_env i)) vars = Inr (map (rendered vars) (map snd (ti_env i)))"
    using T by (simp_all add: template_texts_def ball_Un substitute_bound substitute_all_bound)
  moreover have "(case ti_working_dir i of None \<Rightarrow> Inr None
      | Some d \<Rightarrow> (case substitute d vars of Inl e \<Rightarrow> Inl e | Inr s \<Rightarrow> Inr (Some s))) =
      Inr (map_option (rendered vars) (ti_working_dir i))"
    using T by (cases "ti_working_dir i") (simp_all add: template_texts_def substitute_bound)
  moreover have "\<not> (resolved_timeout i cfg = 0 \<or> resolved_timeout i cfg > sc_job_max_timeout_secs cfg)"
    using validateD [OF assms(1)] by simp
  ultimately show ?thesis
    unfolding expand_def assms(1) by (simp only: sum.case env' if_False not_le [symmetric]) simp
qed

lemma expand_exact_witness:
  "(let i = \<lparr>ti_name = ''n'', ti_description = None, ti_interpreter = None, ti_script = ''echo ${x}'',
        ti_args = [], ti_env = [], ti_working_dir = None, ti_timeout_secs = Some 5\<rparr> in
    expand i [(''x'', ''${x}'')] default_server_config =
      Inr \<lparr>xj_interpreter = ''bash'', xj_script = ''echo ${x}'', xj_args = [], xj_env = [],
           xj_working_dir = None, xj_timeout_secs = 5\<rparr>)"
proof -
  let ?i = "\<lparr>ti_name = ''n'', ti_description = None, ti_interpreter = None, ti_script = ''echo ${x}'',
        ti_args = [], ti_env = [], ti_working_dir = None, ti_timeout_secs = Some 5\<rparr> :: template_input"
  have e: "extract_variables ?i = Inr [''x'']" "trim ''n'' = ''n''" "trim ''echo ${x}'' = ''echo ${x}''"
    "rendered [(''x'', ''${x}'')] (ti_script ?i) = ''echo ${x}''" "resolved_interpreter ?i = ''bash''"
    by code_simp+
  moreover have "validate ?i default_server_config = Inr ()"
    by (simp add: validate_def validate_placeholders_def e resolved_timeout_def default_server_config_def)
  moreover note e
  ultimately show ?thesis
    using expand_exact [of ?i default_server_config "[''x'']" "[(''x'', ''${x}'')]"]
    by (simp add: bt_get_def resolved_timeout_def default_server_config_def bt_ok_def)
qed

lemma substitute_bad_arg: "substitute t vars = Inl e \<Longrightarrow> \<exists>m. e = bad_arg m"
proof (induction t vars rule: substitute.induct)
  case (2 c cs vars)
  show ?case
  proof (cases "at_placeholder (c # cs)")
    case True
    with 2 show ?thesis by (auto simp: substitute.simps(2) split: option.splits sum.splits)
  next
    case False
    with 2 show ?thesis by (auto simp: substitute.simps(2) Let_def split: sum.splits)
  qed
qed simp

lemma substitute_all_bad_arg: "substitute_all ts vars = Inl e \<Longrightarrow> \<exists>m. e = bad_arg m"
  by (induction ts) (auto split: sum.splits dest: substitute_bad_arg)

lemma substitute_ok_bound:
  "substitute t vars = Inr out \<Longrightarrow> segments t \<noteq> None \<Longrightarrow> n \<in> text_vars t \<Longrightarrow> bt_get vars n \<noteq> None"
proof -
  assume *: "substitute t vars = Inr out" "segments t \<noteq> None" "n \<in> text_vars t"
  then obtain ss where ss: "segments t = Some ss" by auto
  with substitute_render [OF ss, of vars] *(1) have "render (bt_get vars) ss \<noteq> None"
    by (auto split: option.splits)
  with render_total [of ss "bt_get vars"] *(3) ss show ?thesis by (simp add: text_vars_def)
qed

lemma substitute_all_ok_bound:
  "substitute_all ts vars = Inr out \<Longrightarrow> t \<in> set ts \<Longrightarrow> segments t \<noteq> None \<Longrightarrow> n \<in> text_vars t \<Longrightarrow>
     bt_get vars n \<noteq> None"
  by (induction ts arbitrary: out) (auto split: sum.splits dest: substitute_ok_bound)

lemma expand_bad_arg:
  assumes "validate i cfg = Inr ()" "expand i vars cfg = Inl e"
  shows "\<exists>m. e = bad_arg m"
proof -
  have w: "\<exists>m. e = bad_arg m" if "(case ti_working_dir i of None \<Rightarrow> Inr None
      | Some d \<Rightarrow> (case substitute d vars of Inl e \<Rightarrow> Inl e | Inr s \<Rightarrow> Inr (Some s))) = Inl e" for e
    using that by (auto split: option.splits sum.splits dest: substitute_bad_arg)
  show ?thesis
    using assms(2) unfolding expand_def assms(1)
    by (auto split: sum.splits if_splits dest!: substitute_bad_arg substitute_all_bad_arg w)
qed

lemma expand_okD:
  assumes "expand i vars cfg = Inr x" "validate i cfg = Inr ()" "t \<in> set (template_texts i)"
    and "segments t \<noteq> None" "n \<in> text_vars t"
  shows "bt_get vars n \<noteq> None"
proof -
  from assms(1) obtain s as vs w where
    "substitute (ti_script i) vars = Inr s" "substitute_all (ti_args i) vars = Inr as"
    "substitute_all (map snd (ti_env i)) vars = Inr vs"
    "(case ti_working_dir i of None \<Rightarrow> Inr None
      | Some d \<Rightarrow> (case substitute d vars of Inl e \<Rightarrow> Inl e | Inr s \<Rightarrow> Inr (Some s))) = Inr w"
    unfolding expand_def assms(2) by (auto split: sum.splits if_splits)
  moreover obtain E where E: "E = map snd (ti_env i)" by simp
  ultimately show ?thesis
    using assms(3-5) unfolding template_texts_def E [symmetric]
    by (auto split: option.splits sum.splits
        dest: substitute_ok_bound substitute_all_ok_bound)
qed

text \<open>A variable without a value is an error of the caller, never an empty string: expansion of a
  valid template fails with \<^verbatim>\<open>invalid_argument\<close> when any of its variables is missing.\<close>

lemma expand_missing_variable:
  assumes "validate i cfg = Inr ()" "extract_variables i = Inr names"
    and "n \<in> set names" "bt_get vars n = None"
  shows "\<exists>m. expand i vars cfg = Inl (bad_arg m)"
proof (cases "expand i vars cfg")
  case (Inl e)
  then show ?thesis using expand_bad_arg [OF assms(1) Inl] by blast
next
  case (Inr x)
  obtain t where t: "t \<in> set (template_texts i)" "n \<in> text_vars t" "segments t \<noteq> None"
    using validateD [OF assms(1)] assms(2,3) by auto
  from expand_okD [OF Inr assms(1) t(1,3,2)] assms(4) show ?thesis by simp
qed

lemma expand_missing_variable_witness:
  "(let i = \<lparr>ti_name = ''n'', ti_description = None, ti_interpreter = None, ti_script = ''echo ${x}'',
        ti_args = [], ti_env = [], ti_working_dir = None, ti_timeout_secs = Some 5\<rparr> in
    \<exists>m. expand i [] default_server_config = Inl (bad_arg m))"
proof -
  let ?i = "\<lparr>ti_name = ''n'', ti_description = None, ti_interpreter = None, ti_script = ''echo ${x}'',
        ti_args = [], ti_env = [], ti_working_dir = None, ti_timeout_secs = Some 5\<rparr> :: template_input"
  have e: "extract_variables ?i = Inr [''x'']" "trim ''n'' = ''n''" "trim ''echo ${x}'' = ''echo ${x}''"
    by code_simp+
  then have "validate ?i default_server_config = Inr ()"
    by (simp add: validate_def validate_placeholders_def resolved_timeout_def default_server_config_def)
  then show ?thesis
    using expand_missing_variable [of ?i default_server_config "[''x'']" "''x''" "[]"] e
    by simp
qed

end
