(* ===== verification/Template_Store.thy ===== *)
theory Template_Store
  imports Template
begin

text \<open>
  The template table of \<^verbatim>\<open>ledger.rs\<close>, whose names are unique, and \<^verbatim>\<open>rerun.rs\<close>, which builds the
  submission of a rerun from the record of the job it repeats.
\<close>

definition template_params :: "serde \<Rightarrow> string \<Rightarrow> new_job_template \<Rightarrow> string \<Rightarrow> sql_row" where
  "template_params sj k t now = row_of
     [(''template_id'', SqlText k), (''name'', SqlText (nt_name t)),
      (''description'', sql_opt_text (nt_description t)),
      (''interpreter'', SqlText (nt_interpreter t)), (''script'', SqlText (nt_script t)),
      (''args'', SqlText (sj_strs sj (nt_args t))), (''env'', SqlText (sj_env sj (nt_env t))),
      (''working_dir'', sql_opt_text (nt_working_dir t)),
      (''timeout_secs'', SqlInteger (u64_as_i64 (nt_timeout_secs t))),
      (''created_at'', SqlText now), (''updated_at'', SqlText now)]"

definition row_to_template :: "serde \<Rightarrow> sql_row \<Rightarrow> job_template" where
  "row_to_template sj r =
     \<lparr>jt_template_id = field_text r ''template_id'', jt_name = field_text r ''name'',
      jt_description = field_opt_text r ''description'',
      jt_interpreter = field_text r ''interpreter'', jt_script = field_text r ''script'',
      jt_args = unwrap_or (sj_strs_dec sj (field_text r ''args'')) [],
      jt_env = unwrap_or (sj_env_dec sj (field_text r ''env'')) [],
      jt_working_dir = field_opt_text r ''working_dir'',
      jt_timeout_secs = nat (max (field_i64 r ''timeout_secs'') 0),
      jt_created_at = field_text r ''created_at'', jt_updated_at = field_text r ''updated_at''\<rparr>"

definition map_unique_conflict :: "(gse_error, 'a) result \<Rightarrow> (gse_error, unit) result" where
  "map_unique_conflict res =
     (case res of Inr _ \<Rightarrow> Inr ()
      | Inl e \<Rightarrow>
          if contains ''UNIQUE'' (to_ascii_uppercase (ge_message e))
          then Inl (gse_err ''already_exists'' (ge_message e)) else Inl e)"

definition insert_template :: "serde \<Rightarrow> string \<Rightarrow> new_job_template \<Rightarrow> string \<Rightarrow> unit led" where
  "insert_template sj k t now lg =
     (let (res, lg') = exec_insert Templates ''job_templates'' [''template_id'', ''name'']
            (template_params sj k t now) lg
      in (map_unique_conflict res, lg'))"

definition get_template :: "serde \<Rightarrow> string \<Rightarrow> job_template option led" where
  "get_template sj k = exec_sel Templates
     (\<lambda>rs. map_option (row_to_template sj) (select_first (\<lambda>r. text_eq r ''template_id'' k) rs))"

definition get_template_by_name :: "serde \<Rightarrow> string \<Rightarrow> job_template option led" where
  "get_template_by_name sj name = exec_sel Templates
     (\<lambda>rs. map_option (row_to_template sj) (select_first (\<lambda>r. text_eq r ''name'' name) rs))"

text \<open>SQLite's \<^verbatim>\<open>LIKE\<close>: ASCII case is ignored, \<^verbatim>\<open>%\<close> is any run, \<^verbatim>\<open>_\<close> one character (with the
  continuation bytes of its encoding).\<close>

definition is_cont :: "char \<Rightarrow> bool" where
  "is_cont c = (let n = (of_char c :: nat) in 128 \<le> n \<and> n < 192)"

fun sql_like :: "string \<Rightarrow> string \<Rightarrow> bool" where
  "sql_like [] s = (s = [])"
| "sql_like (p # ps) s =
     (if p = CHR ''%'' then
        sql_like ps s \<or> (case s of [] \<Rightarrow> False | _ # cs \<Rightarrow> sql_like (p # ps) cs)
      else
        (case s of [] \<Rightarrow> False
         | c # cs \<Rightarrow>
             if p = CHR ''_'' then sql_like ps (dropWhile is_cont cs)
             else to_lower_char c = to_lower_char p \<and> sql_like ps cs))"

definition list_templates :: "serde \<Rightarrow> string option \<Rightarrow> int option \<Rightarrow> job_template list led" where
  "list_templates sj name limit = exec_sel Templates (\<lambda>rs.
     map (row_to_template sj) (take (list_limit limit) (order_by_text_desc ''updated_at''
       (filter (\<lambda>r. case name of None \<Rightarrow> True
                   | Some n \<Rightarrow> sql_like (''%'' @ n @ ''%'') (field_text r ''name'')) rs))))"

text \<open>An update that would give a row the name of another row violates the unique column.\<close>

definition template_sets :: "serde \<Rightarrow> new_job_template \<Rightarrow> string \<Rightarrow> (string \<times> sql_value) list" where
  "template_sets sj t now =
     [(''name'', SqlText (nt_name t)), (''description'', sql_opt_text (nt_description t)),
      (''interpreter'', SqlText (nt_interpreter t)), (''script'', SqlText (nt_script t)),
      (''args'', SqlText (sj_strs sj (nt_args t))), (''env'', SqlText (sj_env sj (nt_env t))),
      (''working_dir'', sql_opt_text (nt_working_dir t)),
      (''timeout_secs'', SqlInteger (u64_as_i64 (nt_timeout_secs t))),
      (''updated_at'', SqlText now)]"

definition update_template :: "serde \<Rightarrow> string \<Rightarrow> new_job_template \<Rightarrow> string \<Rightarrow> unit led" where
  "update_template sj k t now lg =
     (let (res, lg') = exec_stmt Templates (\<lambda>rs.
            if (\<exists>r \<in> set rs. text_eq r ''template_id'' k) \<and>
               (\<exists>r \<in> set rs. \<not> text_eq r ''template_id'' k \<and> text_eq r ''name'' (nt_name t))
            then Inl (unique_error ''job_templates'' ''name'')
            else Inr (update_where (\<lambda>r. text_eq r ''template_id'' k) (row_set (template_sets sj t now)) rs, ())) lg
      in (map_unique_conflict res, lg'))"

definition delete_template :: "serde \<Rightarrow> string \<Rightarrow> bool led" where
  "delete_template sj k =
     led_bind (get_template sj k) (\<lambda>t.
       if t = None then led_return False
       else led_bind (exec_upd Templates (delete_where (\<lambda>r. text_eq r ''template_id'' k)))
              (\<lambda>_. led_return True))"

section \<open>Rerun\<close>

record rerun_request =
  rr_agent_id :: "string option"
  rr_interpreter :: "string option"
  rr_script :: "string option"
  rr_args :: "string list option"
  rr_env :: "(string, string) btmap option"
  rr_working_dir :: "string option"
  rr_timeout_secs :: "nat option"
  rr_dest_path :: "string option"

definition default_rerun_request :: rerun_request where
  "default_rerun_request = \<lparr>rr_agent_id = None, rr_interpreter = None, rr_script = None,
     rr_args = None, rr_env = None, rr_working_dir = None, rr_timeout_secs = None, rr_dest_path = None\<rparr>"

definition build_rerun_submit :: "job_record \<Rightarrow> rerun_request \<Rightarrow> job_submit" where
  "build_rerun_submit source req =
     \<lparr>js_agent_id = unwrap_or (filter_opt (\<lambda>s. s \<noteq> []) (map_option trim (rr_agent_id req))) (j_agent_id source),
      js_kind = default_job_kind,
      js_interpreter = Some (unwrap_or (rr_interpreter req) (j_interpreter source)),
      js_script = unwrap_or (rr_script req) (j_script source),
      js_args = unwrap_or (rr_args req) (j_args source),
      js_env = unwrap_or (rr_env req) (j_env source),
      js_working_dir = (case rr_working_dir req of
          Some dir \<Rightarrow> if trim dir = [] then None else Some dir
        | None \<Rightarrow> j_working_dir source),
      js_timeout_secs = Some (unwrap_or (rr_timeout_secs req) (j_timeout_secs source))\<rparr>"

section \<open>Properties\<close>

definition template_names_ok :: "ledger \<Rightarrow> bool" where
  "template_names_ok lg \<longleftrightarrow> distinct (map (\<lambda>r. r ''template_id'') (lg_tab lg Templates)) \<and>
     distinct (map (\<lambda>r. r ''name'') (lg_tab lg Templates))"

lemma contains_append: "contains n s \<Longrightarrow> contains n (s @ t)"
proof (induction s)
  case Nil
  then show ?case by (cases t) simp_all
next
  case (Cons c cs)
  have "length n \<le> length (c # cs)" if "take (length n) (c # cs) = n"
    using that by (metis length_take min.cobounded1)
  then have "take (length n) ((c # cs) @ t) = n" if "take (length n) (c # cs) = n"
    using that by (metis append_Nil2 diff_is_0_eq take_0 take_append)
  with Cons show ?case by auto
qed

lemma unique_error_conflict:
  "map_unique_conflict (Inl (gse_of_dataplane (unique_error tab c)) :: (gse_error, 'a) result) =
     Inl (gse_err ''already_exists'' (de_message (unique_error tab c)))"
proof -
  have "contains ''UNIQUE'' (to_ascii_uppercase ''UNIQUE'')" by code_simp
  then have "contains ''UNIQUE'' (to_ascii_uppercase ''UNIQUE'' @
      to_ascii_uppercase ('' constraint failed: '' @ tab @ ''.'' @ c))"
    by (rule contains_append)
  then show ?thesis
    by (simp add: map_unique_conflict_def gse_of_dataplane_def unique_error_def to_ascii_uppercase_def)
qed

lemma find_two: "(find P [a, b] = None) = (\<not> P a \<and> \<not> P b)"
  by simp

lemma insert_template_tab:
  "lg_tab (snd (insert_template sj k t now lg)) Templates =
     (if \<exists>u. fst (exec_insert Templates ''job_templates'' [''template_id'', ''name'']
            (template_params sj k t now) lg) = Inr u
      then lg_tab lg Templates @ [template_params sj k t now] else lg_tab lg Templates)"
  by (simp add: insert_template_def case_prod_unfold Let_def exec_insert_tab)

lemma distinct_update_where:
  assumes "distinct (map (\<lambda>r. r ''template_id'') rs)" "distinct (map (\<lambda>r. r ''name'') rs)"
    and "\<And>r. f r ''name'' = v"
    and "\<And>r. r \<in> set rs \<Longrightarrow> \<not> text_eq r ''template_id'' k \<Longrightarrow> r ''name'' \<noteq> v"
  shows "distinct (map (\<lambda>r. r ''name'') (update_where (\<lambda>r. text_eq r ''template_id'' k) f rs))"
  using assms(1,2,4)
proof (induction rs)
  case Nil
  then show ?case by (simp add: update_where_def)
next
  case (Cons r rs)
  then have IH: "distinct (map (\<lambda>r. r ''name'') (update_where (\<lambda>r. text_eq r ''template_id'' k) f rs))"
    by simp
  show ?case
  proof (cases "text_eq r ''template_id'' k")
    case True
    then have fresh: "SqlText k \<notin> (\<lambda>r. r ''template_id'') ` set rs"
      using Cons.prems(1) by (simp add: text_eq_def)
    have none: "\<not> text_eq r' ''template_id'' k" if "r' \<in> set rs" for r'
    proof
      assume "text_eq r' ''template_id'' k"
      then have "SqlText k = (\<lambda>r. r ''template_id'') r'" by (simp add: text_eq_def)
      then show False using fresh that by blast
    qed
    then have "update_where (\<lambda>r. text_eq r ''template_id'' k) f rs = rs"
      by (intro update_where_id) auto
    moreover have "v \<notin> (\<lambda>r. r ''name'') ` set rs"
      using Cons.prems(3) none by auto
    ultimately show ?thesis using True IH by (simp add: update_where_def assms(3))
  next
    case False
    have "r ''name'' \<noteq> (if text_eq x ''template_id'' k then f x else x) ''name''" if "x \<in> set rs" for x
      using False Cons.prems(2,3) that assms(3) by (auto simp: image_iff split: if_splits)
    with IH False show ?thesis by (auto simp: update_where_def)
  qed
qed

lemma update_template_tab:
  "lg_tab (snd (update_template sj k t now lg)) Templates = lg_tab lg Templates \<or>
   lg_tab (snd (update_template sj k t now lg)) Templates =
     update_where (\<lambda>r. text_eq r ''template_id'' k) (row_set (template_sets sj t now)) (lg_tab lg Templates) \<and>
   ((\<exists>r \<in> set (lg_tab lg Templates). text_eq r ''template_id'' k) \<longrightarrow>
     (\<forall>r \<in> set (lg_tab lg Templates). text_eq r ''template_id'' k \<or> \<not> text_eq r ''name'' (nt_name t)))"
  by (cases "lg_faults lg" rule: list.exhaust; cases "hd (lg_faults lg)")
    (auto simp: update_template_def exec_stmt_def Let_def set_tab_def)

text \<open>Two templates never share an id or a name: every operation of the template table, failed or
  not, keeps both columns free of duplicates.\<close>

lemma template_names_stay_unique:
  assumes "template_names_ok lg"
  shows "template_names_ok (snd (insert_template sj k t now lg)) \<and>
    template_names_ok (snd (update_template sj k t now lg)) \<and>
    template_names_ok (snd (delete_template sj k lg))"
proof (intro conjI)
  let ?new = "template_params sj k t now"
  let ?ins = "exec_insert Templates ''job_templates'' [''template_id'', ''name''] ?new lg"
  show "template_names_ok (snd (insert_template sj k t now lg))"
  proof (cases "\<exists>u. fst ?ins = Inr u")
    case True
    then have ne: "r c \<noteq> ?new c" if "r \<in> set (lg_tab lg Templates)" "c \<in> {''template_id'', ''name''}" for r c
      using exec_insert_okD [of Templates "''job_templates''" "[''template_id'', ''name'']" ?new lg _ c r] that
      by auto
    have "?new c \<notin> (\<lambda>r. r c) ` set (lg_tab lg Templates)" if "c \<in> {''template_id'', ''name''}" for c
    proof
      assume "?new c \<in> (\<lambda>r. r c) ` set (lg_tab lg Templates)"
      then obtain r where "r \<in> set (lg_tab lg Templates)" "?new c = r c" by blast
      with ne [OF this(1) that] show False by simp
    qed
    with True assms show ?thesis by (simp add: template_names_ok_def insert_template_tab)
  next
    case False
    with assms show ?thesis by (simp add: template_names_ok_def insert_template_tab)
  qed
next
  show "template_names_ok (snd (update_template sj k t now lg))"
    using update_template_tab [of sj k t now lg]
  proof (elim disjE conjE)
    let ?upd = "update_where (\<lambda>r. text_eq r ''template_id'' k) (row_set (template_sets sj t now)) (lg_tab lg Templates)"
    assume tab: "lg_tab (snd (update_template sj k t now lg)) Templates = ?upd"
      and free: "(\<exists>r \<in> set (lg_tab lg Templates). text_eq r ''template_id'' k) \<longrightarrow>
        (\<forall>r \<in> set (lg_tab lg Templates). text_eq r ''template_id'' k \<or> \<not> text_eq r ''name'' (nt_name t))"
    have "map (\<lambda>r. r ''template_id'') ?upd = map (\<lambda>r. r ''template_id'') (lg_tab lg Templates)"
      by (simp add: update_where_def template_sets_def)
    moreover have "distinct (map (\<lambda>r. r ''name'') ?upd)"
    proof (cases "\<exists>r \<in> set (lg_tab lg Templates). text_eq r ''template_id'' k")
      case True
      with free assms show ?thesis
        by (intro distinct_update_where [where v = "SqlText (nt_name t)"])
          (auto simp: template_names_ok_def template_sets_def row_set_def text_eq_def)
    next
      case False
      then have "?upd = lg_tab lg Templates" by (intro update_where_id) auto
      with assms show ?thesis by (simp add: template_names_ok_def)
    qed
    ultimately show ?thesis using assms tab by (simp add: template_names_ok_def)
  qed (use assms in \<open>simp add: template_names_ok_def\<close>)
next
  have "lg_tab (snd (get_template sj k lg)) = lg_tab lg"
    by (simp add: get_template_def)
  then show "template_names_ok (snd (delete_template sj k lg))"
    using assms
    by (auto simp: delete_template_def led_bind_def led_return_def template_names_ok_def
        split: prod.splits sum.splits elim!: exec_upd_cases)
      (auto simp: delete_where_def distinct_map_filter)
qed

definition demo_template :: new_job_template where
  "demo_template = \<lparr>nt_name = ''deploy'', nt_description = None, nt_interpreter = ''bash'',
     nt_script = ''true'', nt_args = [], nt_env = [], nt_working_dir = None, nt_timeout_secs = 5\<rparr>"

definition template_ledger :: ledger where
  "template_ledger = snd (insert_template id_serde ''t1'' demo_template ''0'' empty_ledger)"

lemma template_ledger_tab:
  "lg_tab template_ledger Templates = [template_params id_serde ''t1'' demo_template ''0'']"
  "lg_faults template_ledger = []"
  by (simp_all add: template_ledger_def insert_template_def exec_insert_def exec_stmt_def
      empty_ledger_def insert_unique_def set_tab_def)

lemma template_names_stay_unique_witness:
  "template_names_ok (snd (insert_template id_serde ''t2'' demo_template ''1'' template_ledger))"
  using template_names_stay_unique [of template_ledger id_serde "''t2''" demo_template "''1''"]
  by (simp add: template_names_ok_def template_ledger_tab)

text \<open>A template whose name is taken is refused with \<^verbatim>\<open>already_exists\<close>, by the insert as by the
  renaming update, and nothing is written.\<close>

lemma template_name_taken:
  assumes "lg_faults lg = []" "r \<in> set (lg_tab lg Templates)" "r ''name'' = SqlText (nt_name t)"
    and "\<not> (\<exists>x \<in> set (lg_tab lg Templates). text_eq x ''template_id'' new_id)"
    and "r ''template_id'' \<noteq> SqlText k" "x \<in> set (lg_tab lg Templates)" "text_eq x ''template_id'' k"
  shows "\<exists>m. insert_template sj new_id t now lg = (Inl (gse_err ''already_exists'' m), lg) \<and>
    update_template sj k t now lg = (Inl (gse_err ''already_exists'' m), lg)"
proof -
  let ?rs = "lg_tab lg Templates" and ?new = "template_params sj new_id t now"
  have lg: "lg\<lparr>lg_faults := []\<rparr> = lg" using assms(1) by simp
  have new: "?new ''template_id'' = SqlText new_id" "?new ''name'' = SqlText (nt_name t)"
    by (simp_all add: template_params_def row_of_def)
  have "find (\<lambda>c. \<exists>r \<in> set ?rs. r c = ?new c) [''template_id'', ''name''] = Some ''name''"
    using assms(2-4) by (auto simp: new text_eq_def)
  then have "insert_template sj new_id t now lg =
      (map_unique_conflict (Inl (gse_of_dataplane (unique_error ''job_templates'' ''name'')) :: (gse_error, unit) result), lg)"
    using assms(1) by (simp add: insert_template_def exec_insert_def exec_stmt_def insert_unique_def lg)
  moreover have "(\<exists>r \<in> set ?rs. text_eq r ''template_id'' k) \<and>
      (\<exists>r \<in> set ?rs. \<not> text_eq r ''template_id'' k \<and> text_eq r ''name'' (nt_name t))"
    using assms(2,3,5-7) by (auto simp: text_eq_def)
  then have "update_template sj k t now lg =
      (map_unique_conflict (Inl (gse_of_dataplane (unique_error ''job_templates'' ''name'')) :: (gse_error, unit) result), lg)"
    using assms(1) by (simp add: update_template_def exec_stmt_def lg)
  ultimately show ?thesis by (auto simp: unique_error_conflict)
qed

definition two_templates :: ledger where
  "two_templates = snd (insert_template id_serde ''t2'' (demo_template\<lparr>nt_name := ''probe''\<rparr>) ''1'' template_ledger)"

lemma two_templates_tab:
  "lg_tab two_templates Templates = [template_params id_serde ''t1'' demo_template ''0'',
     template_params id_serde ''t2'' (demo_template\<lparr>nt_name := ''probe''\<rparr>) ''1'']"
  "lg_faults two_templates = []"
  by (simp_all add: two_templates_def insert_template_def exec_insert_def exec_stmt_def
      template_ledger_tab insert_unique_def set_tab_def template_params_def row_of_def demo_template_def)

lemma template_name_taken_witness:
  "\<exists>m. insert_template id_serde ''t3'' demo_template ''2'' two_templates =
       (Inl (gse_err ''already_exists'' m), two_templates) \<and>
     update_template id_serde ''t2'' demo_template ''2'' two_templates =
       (Inl (gse_err ''already_exists'' m), two_templates)"
  by (rule template_name_taken [where r = "template_params id_serde ''t1'' demo_template ''0''" and
        x = "template_params id_serde ''t2'' (demo_template\<lparr>nt_name := ''probe''\<rparr>) ''1''"])
    (simp_all add: two_templates_tab template_params_def row_of_def text_eq_def)

end
