(* ===== verification/Job_Server.thy ===== *)
theory Job_Server
  imports Session Template_Store
begin

text \<open>
  The job half of \<^verbatim>\<open>crates/gse-server-core/src/server.rs\<close>: submission, dispatch to the agent, the
  recording of results and the liveness scan. A handler reads the clock once (\<open>now\<close>). The call to
  the agent is a parameter: its outcome \<open>rpc\<close>, and \<open>mid\<close>, what other tasks do to the ledger while
  the call is awaited, so that every interleaving at that point is covered.
\<close>

datatype 'r rpc = RpcReply 'r | RpcGarbled | RpcFailed | RpcTimedOut

record server =
  sv_reg :: registry
  sv_led :: ledger
  sv_job_seq :: nat

definition LIVENESS_SCAN_INTERVAL_SECS :: nat where "LIVENESS_SCAN_INTERVAL_SECS = 5"

definition heartbeat_window_micros :: int where
  "heartbeat_window_micros = 90 * 1000000"

definition is_online :: "registry \<Rightarrow> string \<Rightarrow> bool" where
  "is_online reg k \<longleftrightarrow> (case reg_get reg k of Some s \<Rightarrow> se_state s = Online | None \<Rightarrow> False)"

section \<open>Dispatch\<close>

definition after_rpc :: "int \<Rightarrow> string \<Rightarrow> string \<Rightarrow> job_ack rpc \<Rightarrow> unit led" where
  "after_rpc now agent_id job_id rpc =
     (case rpc of
        RpcReply ack \<Rightarrow>
          if ja_accepted ack then mark_running job_id (int_dec now)
          else mark_rejected now job_id (unwrap_or (ja_reason ack) ''rejected'')
      | RpcGarbled \<Rightarrow> mark_rejected now job_id ''bad job ack''
      | RpcFailed \<Rightarrow> mark_lost_by_agent now agent_id ''session unavailable''
      | RpcTimedOut \<Rightarrow> mark_lost_by_agent now agent_id ''job_exec timeout'')"

definition dispatch_job ::
    "registry \<Rightarrow> int \<Rightarrow> (nat \<Rightarrow> job_exec \<Rightarrow> job_ack rpc) \<Rightarrow> (ledger \<Rightarrow> ledger) \<Rightarrow> string \<Rightarrow> job_exec \<Rightarrow> unit led" where
  "dispatch_job reg now rpc mid agent_id exec lg =
     (case reg_get reg agent_id of
        Some s \<Rightarrow>
          if se_state s = Online then
            after_rpc now agent_id (je_job_id exec) (rpc (se_client_id s) exec) (mid lg)
          else (let (reason, lg1) = lost_reason_for agent_id now heartbeat_window_micros lg
                in mark_lost_by_agent now agent_id reason lg1)
      | None \<Rightarrow> (let (reason, lg1) = lost_reason_for agent_id now heartbeat_window_micros lg
                in mark_lost_by_agent now agent_id reason lg1))"

section \<open>Submission\<close>

definition unavailable :: "string \<Rightarrow> gse_error" where
  "unavailable m = gse_err ''unavailable'' m"

definition check_upgrade :: "(string \<Rightarrow> (string, agent_upgrade_spec) result) \<Rightarrow> string \<Rightarrow> gse_error option" where
  "check_upgrade dec script =
     (case dec script of
        Inl e \<Rightarrow> Some (bad_arg (''bad upgrade spec: '' @ e))
      | Inr spec \<Rightarrow>
          if trim (us_binary_path spec) = [] then Some (bad_arg ''binary_path required'')
          else if length (trim (us_sha256 spec)) \<noteq> 64 then Some (bad_arg ''sha256 must be 64 hex chars'')
          else None)"

definition submit_kind :: "job_submit \<Rightarrow> string" where
  "submit_kind req = (if trim (js_kind req) = [] then default_job_kind else js_kind req)"

definition submit_interpreter :: "job_submit \<Rightarrow> string" where
  "submit_interpreter req = unwrap_or (filter_opt (\<lambda>i. trim i \<noteq> []) (js_interpreter req)) ''bash''"

definition submit_timeout :: "server_config \<Rightarrow> job_submit \<Rightarrow> nat" where
  "submit_timeout cfg req = unwrap_or (js_timeout_secs req) (sc_job_default_timeout_secs cfg)"

text \<open>The checks of a submission that read only the request and the configuration.\<close>

definition submit_checks :: "server_config \<Rightarrow> job_submit \<Rightarrow> gse_error option" where
  "submit_checks cfg req =
     (if \<not> sc_jobs_enabled cfg then Some (unavailable ''jobs disabled'')
      else if trim (js_agent_id req) = [] then Some (bad_arg ''agent_id required'')
      else if trim (js_script req) = [] then Some (bad_arg ''script required'')
      else if length (js_script req) > sc_job_max_script_bytes cfg then
        Some (bad_arg (''script exceeds '' @ nat_dec (sc_job_max_script_bytes cfg) @ '' bytes''))
      else if submit_timeout cfg req = 0 \<or> submit_timeout cfg req > sc_job_max_timeout_secs cfg then
        Some (bad_arg (''timeout_secs must be within 1..='' @ nat_dec (sc_job_max_timeout_secs cfg)))
      else None)"

definition new_job_id :: "int \<Rightarrow> nat \<Rightarrow> string" where
  "new_job_id now seq = ''job-'' @ int_dec now @ ''-'' @ nat_dec seq"

text \<open>The row of a submission: the fields the code names, the rest by \<^verbatim>\<open>Default\<close> (the kind too).\<close>

definition submit_row ::
    "server_config \<Rightarrow> job_submit \<Rightarrow> string option \<Rightarrow> string option \<Rightarrow> string \<Rightarrow> int \<Rightarrow> new_job" where
  "submit_row cfg req template_id rerun_of job_id now =
     default_new_job\<lparr>n_job_id := job_id, n_agent_id := js_agent_id req,
       n_interpreter := submit_interpreter req, n_script := js_script req, n_args := js_args req,
       n_env := js_env req, n_working_dir := js_working_dir req, n_template_id := template_id,
       n_rerun_of := rerun_of, n_timeout_secs := submit_timeout cfg req, n_created_at := int_dec now\<rparr>"

definition submit_exec :: "server_config \<Rightarrow> job_submit \<Rightarrow> string \<Rightarrow> job_exec" where
  "submit_exec cfg req job_id =
     \<lparr>je_job_id = job_id, je_kind = submit_kind req, je_interpreter = submit_interpreter req,
      je_script = js_script req, je_args = js_args req, je_env = js_env req,
      je_working_dir = js_working_dir req, je_timeout_secs = submit_timeout cfg req,
      je_stdout_limit_bytes = sc_job_stdout_limit_bytes cfg,
      je_stderr_limit_bytes = sc_job_stderr_limit_bytes cfg\<rparr>"

definition submit_job_with_source ::
    "serde \<Rightarrow> (string \<Rightarrow> (string, agent_upgrade_spec) result) \<Rightarrow> (nat \<Rightarrow> job_exec \<Rightarrow> job_ack rpc) \<Rightarrow>
     (ledger \<Rightarrow> ledger) \<Rightarrow> server_config \<Rightarrow> int \<Rightarrow> job_submit \<Rightarrow> string option \<Rightarrow> string option \<Rightarrow>
     server \<Rightarrow> (gse_error, job_record) result \<times> server" where
  "submit_job_with_source sj upg rpc mid cfg now req template_id rerun_of sv =
     (case submit_checks cfg req of Some e \<Rightarrow> (Inl e, sv) | None \<Rightarrow>
      if \<not> is_online (sv_reg sv) (js_agent_id req) then
        (let (reason, lg1) = lost_reason_for (js_agent_id req) now heartbeat_window_micros (sv_led sv)
         in (Inl (unavailable (''agent '' @ js_agent_id req @ '' not online ('' @ reason @ '')'')),
             sv\<lparr>sv_led := lg1\<rparr>))
      else
      (case (if submit_kind req = ''agent_upgrade'' then check_upgrade upg (js_script req) else None) of
         Some e \<Rightarrow> (Inl e, sv)
       | None \<Rightarrow>
           (let job_id = new_job_id now (sv_job_seq sv);
                (res, lg1) = led_bind (insert_job sj (submit_row cfg req template_id rerun_of job_id now)) (\<lambda>_.
                   led_bind (dispatch_job (sv_reg sv) now rpc mid (js_agent_id req) (submit_exec cfg req job_id)) (\<lambda>_.
                   led_bind (get_job sj job_id) (\<lambda>j lg.
                     (case j of Some r \<Rightarrow> Inr r
                      | None \<Rightarrow> Inl (gse_err ''not_found'' (''job '' @ job_id @ '' vanished'')), lg)))) (sv_led sv)
            in (res, sv\<lparr>sv_led := lg1, sv_job_seq := (sv_job_seq sv + 1) mod 2 ^ 64\<rparr>))))"

definition submit_job where
  "submit_job sj upg rpc mid cfg now req = submit_job_with_source sj upg rpc mid cfg now req None None"

definition submit_job_with_template where
  "submit_job_with_template sj upg rpc mid cfg now req template_id =
     submit_job_with_source sj upg rpc mid cfg now req template_id None"

definition submit_rerun where
  "submit_rerun sj upg rpc mid cfg now source req =
     submit_job_with_source sj upg rpc mid cfg now (build_rerun_submit source req) None (Some (j_job_id source))"

section \<open>Results and liveness\<close>

definition handle_job_result :: "serde \<Rightarrow> int \<Rightarrow> string \<Rightarrow> job_result \<Rightarrow> ledger \<Rightarrow> ledger" where
  "handle_job_result sj now conn_agent_id res lg =
     (case get_job sj (jr_job_id res) lg of
        (Inr (Some job), lg1) \<Rightarrow>
          if j_agent_id job \<noteq> conn_agent_id then lg1 else snd (finish_job res (int_dec now) lg1)
      | (_, lg1) \<Rightarrow> lg1)"

definition liveness_session :: "int \<Rightarrow> session \<Rightarrow> ledger \<Rightarrow> ledger" where
  "liveness_session now s lg =
     (let lg1 = (if se_state s = Offline then snd (mark_offline (se_agent_id s) lg) else lg)
      in if se_state s = Offline \<or> se_state s = Closed
         then snd (mark_lost_by_agent now (se_agent_id s) ''agent offline'' lg1) else lg1)"

definition liveness_scan :: "int \<Rightarrow> int \<Rightarrow> server \<Rightarrow> server" where
  "liveness_scan now window sv =
     (let reg = advance_all now window (sv_reg sv)
      in sv\<lparr>sv_reg := reg,
            sv_led := foldl (\<lambda>lg s. liveness_session now s lg) (sv_led sv) (reg_list reg)\<rparr>)"

section \<open>Lemmas\<close>

lemma get_agent_tab [simp]: "lg_tab (snd (get_agent k lg)) = lg_tab lg"
  by (simp add: get_agent_def)

lemma lost_reason_tab [simp]: "lg_tab (snd (lost_reason_for k now w lg)) = lg_tab lg"
proof -
  obtain r lg' where eq: "get_agent k lg = (r, lg')" by fastforce
  then have "lg_tab lg' = lg_tab lg" using get_agent_tab [of k lg] by simp
  then show ?thesis
    by (simp add: lost_reason_for_def eq split: sum.split option.split)
qed

lemma after_rpc_run:
  "\<exists>oper. snd (after_rpc now a k rpc lg) = run_job_op sj oper lg"
proof (cases rpc)
  case (RpcReply ack)
  show ?thesis
  proof (cases "ja_accepted ack")
    case True
    then show ?thesis using RpcReply
      by (intro exI [of _ "OpRunning k (int_dec now)"]) (simp add: after_rpc_def)
  next
    case False
    then show ?thesis using RpcReply
      by (intro exI [of _ "OpReject now k (unwrap_or (ja_reason ack) ''rejected'')"]) (simp add: after_rpc_def)
  qed
next
  case RpcGarbled
  then show ?thesis by (intro exI [of _ "OpReject now k ''bad job ack''"]) (simp add: after_rpc_def)
next
  case RpcFailed
  then show ?thesis by (intro exI [of _ "OpLost now a ''session unavailable''"]) (simp add: after_rpc_def)
next
  case RpcTimedOut
  then show ?thesis by (intro exI [of _ "OpLost now a ''job_exec timeout''"]) (simp add: after_rpc_def)
qed

lemma dispatch_job_run:
  "is_online reg a \<Longrightarrow> \<exists>oper. snd (dispatch_job reg now rpc mid a exec lg) = run_job_op sj oper (mid lg)"
  using after_rpc_run by (auto simp: is_online_def dispatch_job_def split: option.splits)

lemma mark_running_row:
  assumes "lg_faults lg = []" "job_row lg k = Some r" "text_not_in r ''status'' terminal_texts"
  shows "fst (mark_running k t lg) = Inr () \<and> lg_faults (snd (mark_running k t lg)) = [] \<and>
    job_row (snd (mark_running k t lg)) k = Some (row_set
     [(''status'', SqlText ''running''), (''started_at'', SqlText t), (''updated_at'', SqlText t)] r)"
  using assms job_row_key [OF assms(2)]
  by (simp add: mark_running_def update_jobs_ok update_jobs_row open_job_def text_eq_def)

lemma row_to_job_running:
  "row_to_job sj (row_set [(''status'', SqlText ''running''), (''started_at'', SqlText t), (''updated_at'', SqlText t)] r) =
     (row_to_job sj r)\<lparr>j_status := Running, j_started_at := Some t, j_updated_at := t\<rparr>"
  by (simp add: row_to_job_def row_set_def field_text_def field_opt_text_def field_i64_def
      field_opt_i64_def status_parse_def)

lemma submit_checks_code:
  "submit_checks cfg req = Some e \<Longrightarrow> ge_code e = ''unavailable'' \<or> ge_code e = ''invalid_argument''"
  by (auto simp: submit_checks_def unavailable_def bad_arg_def split: if_splits)

lemma check_upgrade_code: "check_upgrade upg s = Some e \<Longrightarrow> ge_code e = ''invalid_argument''"
  by (auto simp: check_upgrade_def bad_arg_def split: sum.splits if_splits)

section \<open>Properties\<close>

text \<open>C25: a refused submission leaves no trace: when jobs are disabled, the request is malformed, the
  agent has no online session or the upgrade payload is bad, the caller gets \<^verbatim>\<open>unavailable\<close> or
  \<^verbatim>\<open>invalid_argument\<close> and no table, session or job number changes.\<close>

theorem submit_refused_no_trace:
  assumes "submit_checks cfg req \<noteq> None \<or> \<not> is_online (sv_reg sv) (js_agent_id req) \<or>
      (submit_kind req = ''agent_upgrade'' \<and> check_upgrade upg (js_script req) \<noteq> None)"
  shows "\<exists>e sv'. submit_job_with_source sj upg rpc mid cfg now req tpl src sv = (Inl e, sv') \<and>
    (ge_code e = ''unavailable'' \<or> ge_code e = ''invalid_argument'') \<and>
    lg_tab (sv_led sv') = lg_tab (sv_led sv) \<and> sv_reg sv' = sv_reg sv \<and> sv_job_seq sv' = sv_job_seq sv"
proof (cases "submit_checks cfg req")
  case (Some e)
  then show ?thesis
    using submit_checks_code [OF Some] by (simp add: submit_job_with_source_def)
next
  case None
  show ?thesis
  proof (cases "is_online (sv_reg sv) (js_agent_id req)")
    case False
    then show ?thesis
      using None lost_reason_tab [of "js_agent_id req" now heartbeat_window_micros "sv_led sv"]
      by (auto simp: submit_job_with_source_def unavailable_def case_prod_unfold Let_def)
  next
    case True
    with None assms obtain e where "submit_kind req = ''agent_upgrade''" "check_upgrade upg (js_script req) = Some e"
      by auto
    with None True show ?thesis
      using check_upgrade_code by (simp add: submit_job_with_source_def)
  qed
qed

text \<open>An accepted submission reads back running, with the fields of the request; the kind recorded is
  \<^verbatim>\<open>script\<close> whatever kind the request asks for and the agent is told (so a rerun of an upgrade job
  would run its JSON payload as a script).\<close>

lemma submit_accepted:
  assumes "submit_checks cfg req = None" "bt_get (sv_reg sv) (js_agent_id req) = Some s" "se_state s = Online"
    and "submit_kind req = ''agent_upgrade'' \<longrightarrow> check_upgrade upg (js_script req) = None"
    and "lg_faults (sv_led sv) = []" "k = new_job_id now (sv_job_seq sv)" "job_row (sv_led sv) k = None"
    and "row = submit_row cfg req tpl src k now" "job_readable sj row" "submit_timeout cfg req < 2 ^ 64"
    and "rpc (se_client_id s) (submit_exec cfg req k) = RpcReply ack" "ja_accepted ack"
  shows "\<exists>sv'. submit_job_with_source sj upg rpc id cfg now req tpl src sv =
      (Inr ((submitted row)\<lparr>j_status := Running, j_started_at := Some (int_dec now),
         j_updated_at := int_dec now\<rparr>), sv') \<and>
    j_kind (submitted row) = ''script'' \<and> je_kind (submit_exec cfg req k) = submit_kind req \<and>
    job_of sj (sv_led sv') k = Some ((submitted row)\<lparr>j_status := Running,
      j_started_at := Some (int_dec now), j_updated_at := int_dec now\<rparr>)"
proof -
  let ?lg = "sv_led sv"
  let ?lg1 = "set_tab Jobs (lg_tab ?lg Jobs @ [job_params sj row]) ?lg"
  let ?m = "mark_running k (int_dec now) ?lg1"
  have id: "n_job_id row = k" "n_timeout_secs row < 2 ^ 64" "n_kind row = []"
    using assms(8,10) by (simp_all add: submit_row_def default_new_job_def)
  have ins: "insert_job sj row ?lg = (Inr (), ?lg1)"
    using insert_job_ok [OF assms(5), of row sj] id(1) assms(7) by simp
  have r1: "job_row ?lg1 k = Some (job_params sj row)"
    using job_row_inserted [of ?lg row sj] id(1) assms(7) by simp
  have st: "text_not_in (job_params sj row) ''status'' terminal_texts"
    by (simp add: text_not_in_def job_params_def row_of_def terminal_texts_def)
  have f1: "lg_faults ?lg1 = []" using assms(5) by simp
  note m = mark_running_row [OF f1 r1 st, of "int_dec now"]
  have disp: "dispatch_job (sv_reg sv) now rpc id (js_agent_id req) (submit_exec cfg req k) ?lg1 = ?m"
    using assms(2,3,11,12) by (simp add: dispatch_job_def reg_get_def after_rpc_def submit_exec_def)
  have jo: "job_of sj (snd ?m) k = Some ((submitted row)\<lparr>j_status := Running,
      j_started_at := Some (int_dec now), j_updated_at := int_dec now\<rparr>)"
    using m row_to_job_running [of sj "int_dec now" "job_params sj row"]
      row_to_job_params [OF assms(9) id(2)] by (simp add: job_of_def)
  have "?m = (Inr (), snd ?m)" using m by (metis prod.collapse)
  with disp have dm: "dispatch_job (sv_reg sv) now rpc id (js_agent_id req) (submit_exec cfg req k) ?lg1 = (Inr (), snd ?m)"
    by simp
  have gm: "get_job sj k (snd ?m) = (Inr (job_of sj (snd ?m) k), snd ?m)"
    using m by (simp add: get_job_ok)
  have "led_bind (insert_job sj row) (\<lambda>_.
       led_bind (dispatch_job (sv_reg sv) now rpc id (js_agent_id req) (submit_exec cfg req k)) (\<lambda>_.
       led_bind (get_job sj k) (\<lambda>j lg. (case j of Some r \<Rightarrow> Inr r
          | None \<Rightarrow> Inl (gse_err ''not_found'' (''job '' @ k @ '' vanished'')), lg)))) ?lg =
      (Inr ((submitted row)\<lparr>j_status := Running, j_started_at := Some (int_dec now),
         j_updated_at := int_dec now\<rparr>), snd ?m)"
    by (simp add: led_bind_step [where m = "insert_job sj row", OF ins]
        led_bind_step [where m = "dispatch_job _ _ _ _ _ _", OF dm] led_bind_step [where m = "get_job sj k", OF gm] jo)
  then show ?thesis
    using assms(1-4) jo id(3) unfolding assms(6) [symmetric] assms(8) [symmetric]
    by (auto simp: submit_job_with_source_def is_online_def reg_get_def Let_def submitted_def submit_exec_def
        simp flip: assms(6) assms(8) split: if_splits)
qed

definition demo_submit :: job_submit where
  "demo_submit = \<lparr>js_agent_id = ''a1'', js_kind = ''agent_upgrade'', js_interpreter = None,
     js_script = ''up'', js_args = [], js_env = [], js_working_dir = None, js_timeout_secs = Some 5\<rparr>"

definition demo_server :: server where
  "demo_server = \<lparr>sv_reg = [(''a1'', session_new ''a1'' 7 0)], sv_led = empty_ledger, sv_job_seq = 0\<rparr>"

definition demo_upg :: "string \<Rightarrow> (string, agent_upgrade_spec) result" where
  "demo_upg s = Inr \<lparr>us_binary_path = ''b'', us_sha256 = replicate 64 (CHR ''0'')\<rparr>"

definition demo_ack :: job_ack where
  "demo_ack = \<lparr>ja_job_id = [], ja_accepted = True, ja_reason = None\<rparr>"

lemma demo_trims: "trim ''a1'' = ''a1''" "trim ''up'' = ''up''" "trim ''agent_upgrade'' = ''agent_upgrade''"
  "trim ''b'' = ''b''" "trim (replicate 64 (CHR ''0'')) = replicate 64 (CHR ''0'')"
  by code_simp+

lemma demo_checks: "submit_checks default_server_config demo_submit = None"
  by (simp add: submit_checks_def demo_submit_def default_server_config_def submit_timeout_def demo_trims)

lemma submit_refused_no_trace_witness:
  "\<exists>e sv'. submit_job_with_source id_serde demo_upg (\<lambda>_ _. RpcFailed) id default_server_config 9
      (demo_submit\<lparr>js_agent_id := ''zz''\<rparr>) None None demo_server = (Inl e, sv') \<and>
    lg_tab (sv_led sv') = lg_tab (sv_led demo_server)"
  using submit_refused_no_trace [of default_server_config "demo_submit\<lparr>js_agent_id := ''zz''\<rparr>" demo_server
      demo_upg id_serde "\<lambda>_ _. RpcFailed" id 9 None None]
  by (auto simp: is_online_def demo_server_def reg_get_def bt_get_def)

lemma submit_accepted_witness:
  "\<exists>r sv'. submit_job_with_source id_serde demo_upg (\<lambda>_ _. RpcReply demo_ack) id default_server_config 9
      demo_submit None None demo_server = (Inr r, sv') \<and> j_status r = Running \<and> j_kind r = ''script''"
proof -
  let ?row = "submit_row default_server_config demo_submit None None (new_job_id 9 0) 9"
  have "job_readable id_serde ?row"
    by (simp add: job_readable_def id_serde_def submit_row_def default_new_job_def demo_submit_def)
  moreover have "check_upgrade demo_upg (js_script demo_submit) = None"
    by (simp add: check_upgrade_def demo_upg_def demo_trims)
  ultimately show ?thesis
    using submit_accepted [of default_server_config demo_submit demo_server "session_new ''a1'' 7 0" demo_upg
        "new_job_id 9 0" 9 ?row None None id_serde "\<lambda>_ _. RpcReply demo_ack" demo_ack] demo_checks
    by (auto simp: demo_server_def bt_get_def session_new_def empty_ledger_def job_row_def select_first_def
        submit_timeout_def demo_submit_def demo_ack_def)
qed

text \<open>C10: a result that arrives while the call to the agent is still awaited is not lost: if what other
  tasks do meanwhile leaves the job terminal, the dispatch, whatever the outcome of its call, leaves
  it so.\<close>

theorem dispatch_keeps_early_result:
  assumes "is_online reg a" "job_rows_ok (mid lg)"
    and "job_of sj (mid lg) k = Some j" "is_terminal (j_status j)"
  shows "\<exists>f b h i u. job_of sj (snd (dispatch_job reg now rpc mid a exec lg)) k =
    Some (j\<lparr>j_file_name := f, j_file_bytes := b, j_file_sha256 := h, j_file_id := i, j_updated_at := u\<rparr>)"
proof -
  obtain oper where o: "snd (dispatch_job reg now rpc mid a exec lg) = run_job_op sj oper (mid lg)"
    using dispatch_job_run [OF assms(1)] by blast
  then have "snd (dispatch_job reg now rpc mid a exec lg) = run_job_ops sj [oper] (mid lg)"
    by (simp add: run_job_ops_def)
  then show ?thesis using terminal_job_run [OF assms(2-4), of "[oper]"] by metis
qed

lemma dispatch_keeps_early_result_witness:
  "\<exists>j f b h i u. is_terminal (j_status j) \<and>
    job_of id_serde (snd (dispatch_job [(''a1'', session_new ''a1'' 7 0)] 9 (\<lambda>_ _. RpcTimedOut)
      (\<lambda>_. demo_ledger) ''a1'' (submit_exec default_server_config demo_submit ''j1'') empty_ledger)) ''j1'' =
    Some (j\<lparr>j_file_name := f, j_file_bytes := b, j_file_sha256 := h, j_file_id := i, j_updated_at := u\<rparr>)"
proof -
  obtain j where j: "job_of id_serde demo_ledger ''j1'' = Some j" "is_terminal (j_status j)"
    using demo_ledger_status by blast
  have "is_online [(''a1'', session_new ''a1'' 7 0)] ''a1''"
    by (simp add: is_online_def reg_get_def bt_get_def session_new_def)
  from dispatch_keeps_early_result [OF this, of "\<lambda>_. demo_ledger", OF demo_ledger_ok j] j(2)
  show ?thesis by blast
qed

text \<open>When the call of one dispatch fails or times out, not only its job is given up: every unfinished
  job that runs on the agent, or transfers from or to it, is marked \<^verbatim>\<open>lost\<close>, and no other job.\<close>

lemma failed_dispatch_loses_all_jobs:
  assumes "bt_get reg a = Some s" "se_state s = Online" "rpc (se_client_id s) exec = RpcFailed"
    and "job_rows_ok (mid lg)" "lg_faults (mid lg) = []"
  shows "job_of sj (snd (dispatch_job reg now rpc mid a exec lg)) k =
    map_option (\<lambda>j. if job_touches a j \<and> \<not> is_terminal (j_status j)
         then j\<lparr>j_status := Lost,
               j_error := (case j_error j of None \<Rightarrow> Some ''session unavailable'' | Some e \<Rightarrow> Some e),
               j_updated_at := int_dec now @ ''-'' @ nat_dec (lg_seq (mid lg))\<rparr>
         else j) (job_of sj (mid lg) k)"
proof -
  let ?m = "mark_lost_by_agent now a ''session unavailable'' (mid lg)"
  have "fst ?m = Inr ()"
    using assms(5) by (simp add: mark_lost_by_agent_def stamped update_jobs_ok)
  moreover have "dispatch_job reg now rpc mid a exec lg = ?m"
    using assms(1-3) by (simp add: dispatch_job_def reg_get_def after_rpc_def)
  ultimately show ?thesis
    using mark_lost_exact [OF assms(4) prod.collapse [symmetric], where now = now and a = a and
        reason = "''session unavailable''" and sj = sj and k = k] by simp
qed

lemma failed_dispatch_loses_all_jobs_witness:
  "\<exists>j. job_of id_serde (snd (dispatch_job [(''a1'', session_new ''a1'' 7 0)] 9 (\<lambda>_ _. RpcFailed) (\<lambda>lg. lg)
      ''a1'' (submit_exec default_server_config demo_submit ''other'') pending_ledger)) ''j1'' = Some j \<and>
    j_status j = Lost"
proof -
  have "lg_faults pending_ledger = []"
    by (simp add: pending_ledger_def run_job_ops_def empty_ledger_def insert_job_def exec_insert_def
        exec_stmt_def insert_unique_def set_tab_def)
  moreover obtain j where "job_of id_serde pending_ledger ''j1'' = Some j" "j_status j = Pending" "j_agent_id j = ''a1''"
    using pending_ledger_job by blast
  ultimately show ?thesis
    using failed_dispatch_loses_all_jobs [of "[(''a1'', session_new ''a1'' 7 0)]" "''a1''" "session_new ''a1'' 7 0"
        "\<lambda>_ _. RpcFailed" "submit_exec default_server_config demo_submit ''other''" "\<lambda>lg. lg" pending_ledger id_serde 9 "''j1''"]
      pending_ledger_ok
    by (simp add: bt_get_def session_new_def job_touches_def)
qed

text \<open>A connection can only finish jobs of the agent it authenticated as: a result for a job of another
  agent, or for an unknown one, changes no table.\<close>

lemma foreign_result_dropped:
  assumes "\<And>j. job_of sj lg (jr_job_id res) = Some j \<Longrightarrow> j_agent_id j \<noteq> conn"
  shows "lg_tab (handle_job_result sj now conn res lg) = lg_tab lg"
proof (cases "get_job sj (jr_job_id res) lg")
  case (Pair r lg1)
  then show ?thesis
    using assms unfolding get_job_def
    by (auto elim!: exec_sel_cases simp: handle_job_result_def get_job_def job_of_def job_row_def
        split: option.split)
qed

lemma foreign_result_dropped_witness:
  "lg_tab (handle_job_result id_serde 3 ''intruder'' demo_result pending_ledger) = lg_tab pending_ledger"
proof (rule foreign_result_dropped)
  fix j assume "job_of id_serde pending_ledger (jr_job_id demo_result) = Some j"
  then show "j_agent_id j \<noteq> ''intruder''"
    using pending_ledger_job by (auto simp: demo_result_def)
qed

end
