(* ===== verification/Agent_Link.thy ===== *)
theory Agent_Link
  imports Job_Server
begin

text \<open>
  The connection half of \<^verbatim>\<open>crates/gse-server-core/src/server.rs\<close>: authentication, heartbeats, the
  report and the push of agent specs, the data plane address, the cleanup of a finished connection
  and the probing that decides that it is finished; and \<^verbatim>\<open>dataplane.rs\<close>, the probing of data planes.
  A connection is its client id \<open>c\<close>; \<open>lk_authed\<close> holds the agent id each connection authenticated
  as. A payload that does not decode is \<^term>\<open>None\<close>.
\<close>

record link =
  lk_reg :: registry
  lk_led :: ledger
  lk_authed :: "nat \<Rightarrow> string option"

section \<open>Authentication\<close>

definition auth_refused :: "string \<Rightarrow> auth_reply" where
  "auth_refused reason = \<lparr>ar_ok = False, ar_reason = Some reason\<rparr>"

definition auth_lookup :: "server_config \<Rightarrow> auth_request \<Rightarrow> bool led" where
  "auth_lookup cfg req =
     (if \<not> sc_auth_enabled cfg then led_return True
      else led_bind (verify_agent_token (aq_agent_id req) (aq_token req)) (\<lambda>oc lg.
        case oc of
          AuthCurrent \<Rightarrow> (Inr True, snd (clear_agent_prev_token (aq_agent_id req) lg))
        | AuthPrevious \<Rightarrow> (Inr True, lg)
        | AuthRejected \<Rightarrow> (Inr False, lg)))"

definition handle_auth :: "server_config \<Rightarrow> int \<Rightarrow> nat \<Rightarrow> auth_request option \<Rightarrow> link \<Rightarrow> auth_reply \<times> link" where
  "handle_auth cfg now c payload s =
     (case payload of None \<Rightarrow> (auth_refused ''bad auth payload'', s)
      | Some req \<Rightarrow>
          (case auth_lookup cfg req (lk_led s) of
             (Inl e, lg) \<Rightarrow> (auth_refused ''auth lookup failed'', s\<lparr>lk_led := lg\<rparr>)
           | (Inr ok, lg) \<Rightarrow>
               if \<not> ok then (auth_refused ''invalid agent_id or token'', s\<lparr>lk_led := lg\<rparr>)
               else
                 (let k = aq_agent_id req;
                      lg1 = snd (mark_online k (int_dec now) lg);
                      lg2 = snd (set_agent_version k (aq_version req) lg1)
                  in (\<lparr>ar_ok = True, ar_reason = None\<rparr>,
                      s\<lparr>lk_reg := snd (reg_insert (session_new k c now) (lk_reg s)),
                        lk_authed := (lk_authed s)(c := Some k), lk_led := lg2\<rparr>))))"

section \<open>Specs\<close>

definition handle_agent_spec :: "serde \<Rightarrow> string option \<Rightarrow> ledger \<Rightarrow> agent_spec_push \<times> ledger" where
  "handle_agent_spec sj conn_agent lg =
     (case conn_agent of None \<Rightarrow> (default_agent_spec_push, lg)
      | Some k \<Rightarrow>
          (case get_agent_spec sj k lg of
             (Inr (Some s), lg') \<Rightarrow> (\<lparr>pu_revision = as_revision s, pu_spec = Some (as_spec s)\<rparr>, lg')
           | (_, lg') \<Rightarrow> (default_agent_spec_push, lg')))"

text \<open>\<open>enc\<close> is \<^verbatim>\<open>serde_json::to_string\<close> of a spec item, the argument of \<^const>\<open>diff\<close>.\<close>

definition spec_report_state ::
    "(spec_item \<Rightarrow> string) \<Rightarrow> string \<Rightarrow> agent_spec_ack \<Rightarrow> agent_spec option \<Rightarrow> string \<Rightarrow>
     (gse_error, agent_spec_state) result" where
  "spec_report_state enc k ack desired stamp =
     (case (case desired of None \<Rightarrow> Inr empty_spec_diff | Some d \<Rightarrow> diff enc (as_spec d) (ak_applied ack)) of
        Inl e \<Rightarrow> Inl (gse_err ''internal'' e)
      | Inr df \<Rightarrow>
          Inr \<lparr>ss_agent_id = k, ss_revision = ak_revision ack, ss_applied = ak_applied ack, ss_diff = df,
               ss_not_enforced = ak_not_enforced ack, ss_outcome = ak_outcome ack,
               ss_detail = ak_detail ack, ss_reported_at = stamp\<rparr>)"

definition record_spec_report ::
    "serde \<Rightarrow> (spec_item \<Rightarrow> string) \<Rightarrow> int \<Rightarrow> string \<Rightarrow> agent_spec_ack \<Rightarrow> bool \<Rightarrow> unit led" where
  "record_spec_report sj enc now k ack force =
     (if k = [] then (\<lambda>lg. (Inl (bad_arg ''missing agent_id''), lg))
      else
        led_bind (if force then led_return None else get_agent_spec_state sj k) (\<lambda>stored.
          if (case stored of None \<Rightarrow> False
              | Some s \<Rightarrow> ss_revision s = ak_revision ack \<and> ss_applied s = ak_applied ack)
          then led_return ()
          else
            led_bind (get_agent_spec sj k) (\<lambda>desired.
            led_bind (ledger_stamp now) (\<lambda>stamp lg.
              case spec_report_state enc k ack desired stamp of
                Inl e \<Rightarrow> (Inl e, lg)
              | Inr st \<Rightarrow> upsert_agent_spec_state sj st lg))))"

text \<open>The reply to the push is the call's outcome \<open>rpc\<close>; a failed recording does not hide it.\<close>

definition push_agent_spec ::
    "serde \<Rightarrow> (spec_item \<Rightarrow> string) \<Rightarrow> (nat \<Rightarrow> agent_spec_push \<Rightarrow> agent_spec_ack rpc) \<Rightarrow> int \<Rightarrow>
     registry \<Rightarrow> string \<Rightarrow> agent_spec_ack led" where
  "push_agent_spec sj enc rpc now reg k =
     led_bind (get_agent_spec sj k) (\<lambda>desired lg.
       case desired of None \<Rightarrow> (Inl (gse_err ''not_found'' (''agent '' @ k)), lg)
       | Some d \<Rightarrow>
           (case reg_get reg k of None \<Rightarrow> (Inl (gse_err ''agent_offline'' (''agent '' @ k)), lg)
            | Some s \<Rightarrow>
                if se_state s \<noteq> Online then (Inl (gse_err ''agent_offline'' (''agent '' @ k)), lg)
                else
                  (case rpc (se_client_id s) \<lparr>pu_revision = as_revision d, pu_spec = Some (as_spec d)\<rparr> of
                     RpcReply ack \<Rightarrow> (Inr ack, snd (record_spec_report sj enc now k ack True lg))
                   | RpcGarbled \<Rightarrow> (Inl (gse_err ''internal'' (''bad agent_spec ack from '' @ k)), lg)
                   | _ \<Rightarrow> (Inl (gse_err ''agent_offline'' (''push agent_spec to '' @ k)), lg))))"

section \<open>Heartbeats\<close>

definition heartbeat_session :: "int \<Rightarrow> nat \<Rightarrow> string \<Rightarrow> link \<Rightarrow> link" where
  "heartbeat_session now c hb_agent s =
     (case lk_authed s c of None \<Rightarrow> s
      | Some k \<Rightarrow>
          if k = hb_agent then
            (case reg_get (lk_reg s) k of
               None \<Rightarrow> s\<lparr>lk_reg := snd (reg_insert (session_new k c now) (lk_reg s)),
                         lk_led := snd (mark_online k (int_dec now) (lk_led s))\<rparr>
             | Some se \<Rightarrow>
                 if se_state se = Closed then s
                 else s\<lparr>lk_reg := snd (reg_touch hb_agent now (lk_reg s))\<rparr>)
          else s\<lparr>lk_reg := snd (reg_touch hb_agent now (lk_reg s))\<rparr>)"

definition handle_heartbeat ::
    "serde \<Rightarrow> (spec_item \<Rightarrow> string) \<Rightarrow> (upgrade_report \<Rightarrow> string) \<Rightarrow> int \<Rightarrow> nat \<Rightarrow> heartbeat option \<Rightarrow> link \<Rightarrow>
     heartbeat_reply \<times> link" where
  "handle_heartbeat sj enc enc_up now c payload s =
     (case payload of None \<Rightarrow> (\<lparr>hr_spec_synced = True\<rparr>, s)
      | Some hb \<Rightarrow>
          (let s1 = heartbeat_session now c (hb_agent_id hb) s;
               lg1 = snd (mark_heartbeat (hb_agent_id hb) (int_dec now) (lk_led s1));
               lg2 = (case hb_upgrade_result hb of None \<Rightarrow> lg1
                      | Some r \<Rightarrow> snd (mark_upgrade_result (hb_agent_id hb) (enc_up r) lg1))
           in case hb_spec hb of None \<Rightarrow> (\<lparr>hr_spec_synced = True\<rparr>, s1\<lparr>lk_led := lg2\<rparr>)
              | Some ack \<Rightarrow>
                  (case record_spec_report sj enc now (hb_agent_id hb) ack False lg2 of
                     (Inr _, lg3) \<Rightarrow> (\<lparr>hr_spec_synced = True\<rparr>, s1\<lparr>lk_led := lg3\<rparr>)
                   | (Inl _, lg3) \<Rightarrow> (\<lparr>hr_spec_synced = False\<rparr>, s1\<lparr>lk_led := lg3\<rparr>))))"

section \<open>Data plane address\<close>

definition addr_refused :: "string option \<Rightarrow> string \<Rightarrow> dataplane_addr_reply" where
  "addr_refused host reason =
     \<lparr>dr_ok = False, dr_ingest_url = None, dr_host_id = host, dr_reason = Some reason\<rparr>"

definition handle_dataplane_addr ::
    "(string \<Rightarrow> nat) \<Rightarrow> dataplane_addr_request option \<Rightarrow> string option \<Rightarrow> ledger \<Rightarrow> dataplane_addr_reply \<times> ledger" where
  "handle_dataplane_addr hash payload conn_agent lg =
     (case payload of None \<Rightarrow> (addr_refused None ''bad dataplane_addr payload'', lg)
      | Some req \<Rightarrow>
     (case conn_agent of None \<Rightarrow> (addr_refused None ''not authenticated'', lg)
      | Some k \<Rightarrow>
          if k \<noteq> dq_agent_id req then (addr_refused None ''agent_id mismatch'', lg)
          else
            (let (r, lg1) = get_agent k lg;
                 host = (case r of Inr (Some a) \<Rightarrow> Some (a_host_id a) | _ \<Rightarrow> None)
             in case pick_ingest_url hash k lg1 of
                  (Inr (Some url), lg2) \<Rightarrow>
                    (\<lparr>dr_ok = True, dr_ingest_url = Some url, dr_host_id = host, dr_reason = None\<rparr>, lg2)
                | (Inr None, lg2) \<Rightarrow> (addr_refused host ''no online dataplane'', lg2)
                | (Inl e, lg2) \<Rightarrow> (addr_refused host (ge_message e), lg2))))"

section \<open>The end of a connection\<close>

definition probe_should_close :: "nat \<Rightarrow> nat \<Rightarrow> bool" where
  "probe_should_close consecutive_failures threshold \<longleftrightarrow> consecutive_failures \<ge> max threshold 1"

text \<open>One probe: a reply (also a business error) means alive, a closed transport or a timeout does not.\<close>

datatype probe = ProbeOk | ProbeError string | ProbeTimeout

fun probe_alive :: "probe \<Rightarrow> bool" where
  "probe_alive ProbeOk = True"
| "probe_alive (ProbeError msg) = (\<not> (contains ''multiplexer closed'' msg \<or> contains ''end closed'' msg))"
| "probe_alive ProbeTimeout = False"

text \<open>The loop over the probes of a connection: how many of them it takes before it breaks.\<close>

fun probe_loop :: "nat \<Rightarrow> nat \<Rightarrow> probe list \<Rightarrow> nat option" where
  "probe_loop threshold failures [] = None"
| "probe_loop threshold failures (p # ps) =
     (if probe_alive p then map_option Suc (probe_loop threshold 0 ps)
      else if probe_should_close (failures + 1) threshold then Some 1
      else map_option Suc (probe_loop threshold (failures + 1) ps))"

definition cleanup_connection :: "nat \<Rightarrow> link \<Rightarrow> link" where
  "cleanup_connection c s =
     (case lk_authed s c of None \<Rightarrow> s
      | Some k \<Rightarrow>
          (let (removed, reg) = remove_if_client k c (lk_reg s)
           in s\<lparr>lk_reg := reg,
                lk_led := (if removed then snd (mark_offline k (lk_led s)) else lk_led s)\<rparr>))"

section \<open>Probing data planes\<close>

definition trim_end_slash :: "string \<Rightarrow> string" where
  "trim_end_slash s = rev (dropWhile (\<lambda>ch. ch = CHR ''/'') (rev s))"

definition health_url :: "string \<Rightarrow> string" where
  "health_url ingest_url = trim_end_slash ingest_url @ ''/health''"

text \<open>\<open>http\<close> is the GET: the status and the body, nothing on a transport error.\<close>

definition probe_health :: "(string \<Rightarrow> (nat \<times> string) option) \<Rightarrow> serde \<Rightarrow> string \<Rightarrow> bool" where
  "probe_health http sj ingest_url =
     (case http (health_url ingest_url) of None \<Rightarrow> False
      | Some (status, body) \<Rightarrow>
          status = 200 \<and>
          (case sj_json_dec sj body of None \<Rightarrow> False
           | Some v \<Rightarrow> Option.bind (json_get v ''status'') as_str = Some ''ok''))"

definition probe_service ::
    "(string \<Rightarrow> (nat \<times> string) option) \<Rightarrow> serde \<Rightarrow> int \<Rightarrow> string \<Rightarrow> ledger \<Rightarrow> bool \<times> ledger" where
  "probe_service http sj now service_id lg =
     (case get_dataplane service_id lg of
        (Inr (Some d), lg1) \<Rightarrow>
          (let online = probe_health http sj (dp_ingest_url d);
               (res, lg2) = set_dataplane_status (dp_service_id d)
                  (if online then ''online'' else ''offline'')
                  (if online then Some (int_dec now) else None) lg1
           in case res of Inl e \<Rightarrow> (False, lg2) | Inr _ \<Rightarrow> (online, lg2))
      | (_, lg1) \<Rightarrow> (False, lg1))"

definition probe_once ::
    "(string \<Rightarrow> (nat \<times> string) option) \<Rightarrow> serde \<Rightarrow> int \<Rightarrow> ledger \<Rightarrow> (string, unit) result \<times> ledger" where
  "probe_once http sj now lg =
     (case list_dataplanes lg of
        (Inl e, lg) \<Rightarrow> (Inl (''list dataplanes: '' @ ge_message e), lg)
      | (Inr ds, lg) \<Rightarrow>
          (Inr (), foldl (\<lambda>lg d. snd (probe_service http sj now (dp_service_id d) lg)) lg ds))"

definition PROBE_RETRY_ATTEMPTS :: nat where "PROBE_RETRY_ATTEMPTS = 5"

text \<open>The retries after a registration; \<open>http\<close> may answer differently at each attempt.\<close>

fun probe_retry ::
    "nat \<Rightarrow> (nat \<Rightarrow> string \<Rightarrow> (nat \<times> string) option) \<Rightarrow> serde \<Rightarrow> int \<Rightarrow> string \<Rightarrow> ledger \<Rightarrow> bool \<times> ledger" where
  "probe_retry 0 http sj now k lg = (False, lg)"
| "probe_retry (Suc n) http sj now k lg =
     (let (ok, lg1) = probe_service (http n) sj now k lg
      in if ok then (True, lg1) else probe_retry n http sj now k lg1)"

definition spawn_probe_after_register where
  "spawn_probe_after_register http sj now k lg = probe_retry PROBE_RETRY_ATTEMPTS http sj now k lg"

section \<open>Lemmas\<close>

definition agent_row :: "ledger \<Rightarrow> string \<Rightarrow> sql_row option" where
  "agent_row lg k = select_first (\<lambda>r. text_eq r ''agent_id'' k) (lg_tab lg Agents)"

lemma tokens_of_row:
  "tokens_of lg k = map_option (\<lambda>r. (field_text r ''token'', field_opt_text r ''prev_token'')) (agent_row lg k)"
  by (simp add: tokens_of_def agent_row_def)

lemma agent_of_row: "agent_of lg k = map_option row_to_agent (agent_row lg k)"
  by (simp add: agent_of_def agent_row_def)

lemma update_agent_ok:
  assumes "lg_faults lg = []"
  shows "fst (update_agent k sets lg) = Inr ()" "lg_faults (snd (update_agent k sets lg)) = []"
  using assms by (simp_all add: update_agent_def exec_upd_ok)

lemma agent_row_update:
  assumes "\<And>r. ''agent_id'' \<notin> fst ` set (sets r)"
  shows "agent_row (snd (update_agent k sets lg)) k' =
    (if k' = k \<and> fst (update_agent k sets lg) = Inr () then map_option (\<lambda>r. row_set (sets r) r) (agent_row lg k)
     else agent_row lg k')"
  using select_update_agent [where sets = sets and k = k and k' = k' and rs = "lg_tab lg Agents", OF assms]
  by (auto simp: agent_row_def update_agent_tab option.map_ident)

lemma agent_row_tab: "lg_tab lg Agents = lg_tab lg' Agents \<Longrightarrow> agent_row lg k = agent_row lg' k"
  by (simp add: agent_row_def)

lemmas agent_updates = mark_online_def mark_heartbeat_def mark_upgrade_result_def mark_offline_def
  rotate_agent_token_def clear_agent_prev_token_def

lemma tokens_kept [simp]:
  "tokens_of (snd (mark_online k t lg)) k' = tokens_of lg k'"
  "tokens_of (snd (set_agent_version k v lg)) k' = tokens_of lg k'"
  by (auto simp: agent_updates set_agent_version_def tokens_of_row agent_row_update field_text_def
      field_opt_text_def led_return_def option.map_comp comp_def)

lemma faults_kept [simp]:
  assumes "lg_faults lg = []"
  shows "lg_faults (snd (mark_online k t lg)) = []" "lg_faults (snd (set_agent_version k v lg)) = []"
    "lg_faults (snd (mark_heartbeat k t lg)) = []" "lg_faults (snd (rotate_agent_token k v lg)) = []"
    "lg_faults (snd (clear_agent_prev_token k lg)) = []"
  using assms by (simp_all add: agent_updates set_agent_version_def update_agent_ok led_return_def)

lemma tokens_rotated:
  "lg_faults lg = [] \<Longrightarrow> tokens_of (snd (rotate_agent_token k new lg)) k =
     map_option (\<lambda>r. (new, field_opt_text r ''token'')) (agent_row lg k)"
  by (cases "agent_row lg k")
    (simp_all add: rotate_agent_token_def tokens_of_row agent_row_update update_agent_ok field_text_def
      field_opt_text_def row_set_def)

lemma tokens_cleared:
  "lg_faults lg = [] \<Longrightarrow> tokens_of (snd (clear_agent_prev_token k lg)) k =
     map_option (\<lambda>(cur, prev). (cur, None)) (tokens_of lg k)"
  by (cases "agent_row lg k")
    (simp_all add: clear_agent_prev_token_def tokens_of_row agent_row_update update_agent_ok field_text_def
      field_opt_text_def row_set_def)

lemma agent_tokens_ok: "lg_faults lg = [] \<Longrightarrow> agent_tokens k lg = (Inr (tokens_of lg k), lg)"
  by (simp add: agent_tokens_def exec_sel_ok tokens_of_def)

lemma verify_ok:
  "lg_faults lg = [] \<Longrightarrow> verify_agent_token k t lg =
     (Inr (case tokens_of lg k of None \<Rightarrow> AuthRejected
           | Some (cur, prev) \<Rightarrow> if t = cur then AuthCurrent
               else if prev = Some t then AuthPrevious else AuthRejected), lg)"
  by (auto simp: verify_agent_token_def led_bind_step [where m = "agent_tokens k", OF agent_tokens_ok]
      led_return_def split: option.split)

text \<open>The tokens an authentication leaves: using the current one ends the grace period of the old one.\<close>

definition used_token :: "string \<Rightarrow> (string \<times> string option) \<Rightarrow> string \<times> string option" where
  "used_token t tk = (if t = fst tk then (fst tk, None) else tk)"

lemma auth_lookup_ok:
  assumes "lg_faults lg = []" "sc_auth_enabled cfg"
  shows "\<exists>lg'. auth_lookup cfg req lg = (Inr (accepts lg (aq_agent_id req) (aq_token req)), lg') \<and> lg_faults lg' = [] \<and>
    (accepts lg (aq_agent_id req) (aq_token req) \<longrightarrow>
       tokens_of lg' (aq_agent_id req) = map_option (used_token (aq_token req)) (tokens_of lg (aq_agent_id req))) \<and>
    (\<not> accepts lg (aq_agent_id req) (aq_token req) \<longrightarrow> lg' = lg)"
proof -
  let ?k = "aq_agent_id req" and ?t = "aq_token req"
  have v: "verify_agent_token ?k ?t lg = (Inr (case tokens_of lg ?k of None \<Rightarrow> AuthRejected
           | Some (cur, prev) \<Rightarrow> if ?t = cur then AuthCurrent
               else if prev = Some ?t then AuthPrevious else AuthRejected), lg)"
    by (rule verify_ok [OF assms(1)])
  show ?thesis
    using assms tokens_cleared [OF assms(1), of ?k]
    by (auto simp: auth_lookup_def led_bind_step [where m = "verify_agent_token ?k ?t", OF v] accepts_def
        used_token_def split: option.splits)
qed

lemma handle_auth_ok:
  assumes "lg_faults (lk_led s) = []" "sc_auth_enabled cfg"
    and "handle_auth cfg now c (Some req) s = (reply, s')"
  shows "ar_ok reply = accepts (lk_led s) (aq_agent_id req) (aq_token req)"
    "\<not> ar_ok reply \<Longrightarrow> s' = s"
    "ar_ok reply \<Longrightarrow> bt_get (lk_reg s') (aq_agent_id req) = Some (session_new (aq_agent_id req) c now)"
    "ar_ok reply \<Longrightarrow> tokens_of (lk_led s') (aq_agent_id req) =
       map_option (used_token (aq_token req)) (tokens_of (lk_led s) (aq_agent_id req))"
    "lg_faults (lk_led s') = []"
proof -
  obtain lg' where a: "auth_lookup cfg req (lk_led s) = (Inr (accepts (lk_led s) (aq_agent_id req) (aq_token req)), lg')"
    "lg_faults lg' = []"
    "accepts (lk_led s) (aq_agent_id req) (aq_token req) \<Longrightarrow>
       tokens_of lg' (aq_agent_id req) = map_option (used_token (aq_token req)) (tokens_of (lk_led s) (aq_agent_id req))"
    "\<not> accepts (lk_led s) (aq_agent_id req) (aq_token req) \<Longrightarrow> lg' = lk_led s"
    using auth_lookup_ok [OF assms(1,2), of req] by blast
  then show "ar_ok reply = accepts (lk_led s) (aq_agent_id req) (aq_token req)"
    "\<not> ar_ok reply \<Longrightarrow> s' = s"
    "ar_ok reply \<Longrightarrow> bt_get (lk_reg s') (aq_agent_id req) = Some (session_new (aq_agent_id req) c now)"
    "ar_ok reply \<Longrightarrow> tokens_of (lk_led s') (aq_agent_id req) =
       map_option (used_token (aq_token req)) (tokens_of (lk_led s) (aq_agent_id req))"
    "lg_faults (lk_led s') = []"
    using assms(3)
    by (auto simp: handle_auth_def Let_def auth_refused_def reg_insert_def bt_get_insert session_new_def
        split: if_splits)
qed

lemma accepts_tokens:
  "tokens_of lg k = Some (cur, prev) \<Longrightarrow> accepts lg k t \<longleftrightarrow> t = cur \<or> prev = Some t"
  by (simp add: accepts_def)

lemma tokens_of_SomeD: "tokens_of lg k = Some (cur, prev) \<Longrightarrow> \<exists>r. agent_row lg k = Some r \<and> field_text r ''token'' = cur"
  by (auto simp: tokens_of_row)

lemma rotated_tokens:
  assumes "lg_faults lg = []" "tokens_of lg k = Some (cur, prev)" "cur \<noteq> []"
  shows "tokens_of (snd (rotate_agent_token k new lg)) k = Some (new, Some cur)"
    "lg_faults (snd (rotate_agent_token k new lg)) = []"
proof -
  obtain r where r: "agent_row lg k = Some r" "field_text r ''token'' = cur"
    using tokens_of_SomeD [OF assms(2)] by blast
  then have "field_opt_text r ''token'' = Some cur"
    using assms(3) by (auto simp: field_text_def field_opt_text_def split: sql_value.splits)
  then show "tokens_of (snd (rotate_agent_token k new lg)) k = Some (new, Some cur)"
    using tokens_rotated [OF assms(1), of k new] r by simp
qed (use assms(1) in simp)

section \<open>The system of connections\<close>

text \<open>
  Every step the connections and the liveness task take on the shared state. The second component is
  a history variable: the pairs of a connection and an agent id it authenticated as successfully.
\<close>

inductive link_step ::
    "serde \<Rightarrow> (spec_item \<Rightarrow> string) \<Rightarrow> (upgrade_report \<Rightarrow> string) \<Rightarrow> server_config \<Rightarrow>
     link \<times> (nat \<times> string) set \<Rightarrow> link \<times> (nat \<times> string) set \<Rightarrow> bool"
  for sj enc enc_up cfg where
  Auth_ok: "handle_auth cfg now c (Some req) s = (reply, s') \<Longrightarrow> ar_ok reply \<Longrightarrow>
     link_step sj enc enc_up cfg (s, P) (s', insert (c, aq_agent_id req) P)"
| Auth_refused: "handle_auth cfg now c payload s = (reply, s') \<Longrightarrow> \<not> ar_ok reply \<Longrightarrow>
     link_step sj enc enc_up cfg (s, P) (s', P)"
| Beat: "handle_heartbeat sj enc enc_up now c payload s = (hreply, s') \<Longrightarrow>
     link_step sj enc enc_up cfg (s, P) (s', P)"
| Gone: "link_step sj enc enc_up cfg (s, P) (cleanup_connection c s, P)"
| Tick: "link_step sj enc enc_up cfg (s, P) (s\<lparr>lk_reg := advance_all now window (lk_reg s)\<rparr>, P)"
| Admin: "link_step sj enc enc_up cfg (s, P) (s\<lparr>lk_reg := snd (reg_remove k (lk_reg s)), lk_led := lg\<rparr>, P)"

definition link_inv :: "link \<times> (nat \<times> string) set \<Rightarrow> bool" where
  "link_inv sp \<longleftrightarrow>
     (\<forall>k se. bt_get (lk_reg (fst sp)) k = Some se \<longrightarrow> se_agent_id se = k \<and> (se_client_id se, k) \<in> snd sp) \<and>
     (\<forall>c k. lk_authed (fst sp) c = Some k \<longrightarrow> (c, k) \<in> snd sp)"

inductive link_reach ::
    "serde \<Rightarrow> (spec_item \<Rightarrow> string) \<Rightarrow> (upgrade_report \<Rightarrow> string) \<Rightarrow> server_config \<Rightarrow>
     link \<times> (nat \<times> string) set \<Rightarrow> bool"
  for sj enc enc_up cfg where
  Start: "link_reach sj enc enc_up cfg (\<lparr>lk_reg = [], lk_led = lg, lk_authed = \<lambda>_. None\<rparr>, {})"
| Step: "link_reach sj enc enc_up cfg sp \<Longrightarrow> link_step sj enc enc_up cfg sp sp' \<Longrightarrow>
     link_reach sj enc enc_up cfg sp'"

lemma handle_auth_regs:
  assumes "handle_auth cfg now c payload s = (reply, s')"
  shows "\<not> ar_ok reply \<Longrightarrow> lk_reg s' = lk_reg s \<and> lk_authed s' = lk_authed s"
    "ar_ok reply \<Longrightarrow> payload = Some req \<Longrightarrow>
       lk_reg s' = bt_insert (aq_agent_id req) (session_new (aq_agent_id req) c now) (lk_reg s) \<and>
       lk_authed s' = (lk_authed s)(c := Some (aq_agent_id req))"
  using assms
  by (auto simp: handle_auth_def auth_refused_def Let_def reg_insert_def session_new_def
      split: option.splits prod.splits sum.splits if_splits)

lemma heartbeat_session_inv:
  assumes "link_inv (s, P)"
  shows "link_inv (heartbeat_session now c k s, P)"
  using assms
  by (auto simp: heartbeat_session_def link_inv_def reg_insert_def reg_get_def reg_touch_def
      bt_get_insert reg_update_get session_new_def session_touch_def split: option.splits)

lemma handle_heartbeat_regs:
  assumes "handle_heartbeat sj enc enc_up now c payload s = (reply, s')"
  shows "lk_reg s' = lk_reg s \<and> lk_authed s' = lk_authed s \<or>
    (\<exists>k. lk_reg s' = lk_reg (heartbeat_session now c k s) \<and> lk_authed s' = lk_authed (heartbeat_session now c k s))"
  using assms
  by (auto simp: handle_heartbeat_def Let_def split: option.splits prod.splits sum.splits)

lemma link_inv_cong:
  "lk_reg s = lk_reg s' \<Longrightarrow> lk_authed s = lk_authed s' \<Longrightarrow> link_inv (s, P) = link_inv (s', P)"
  by (simp add: link_inv_def)

lemma link_step_inv: "link_step sj enc enc_up cfg sp sp' \<Longrightarrow> link_inv sp \<Longrightarrow> link_inv sp'"
proof (induction rule: link_step.induct)
  case (Auth_ok now c req s reply s' P)
  have r: "lk_reg s' = bt_insert (aq_agent_id req) (session_new (aq_agent_id req) c now) (lk_reg s) \<and>
       lk_authed s' = (lk_authed s)(c := Some (aq_agent_id req))"
    by (rule handle_auth_regs(2) [OF Auth_ok(1,2) refl])
  show ?case
    using Auth_ok(3) by (auto simp: link_inv_def r bt_get_insert session_new_def split: if_splits)
next
  case (Auth_refused now c payload s reply s' P)
  then show ?case using handle_auth_regs(1) [OF Auth_refused(1,2)] by (simp add: link_inv_def)
next
  case (Beat now c payload s hreply s' P)
  from handle_heartbeat_regs [OF Beat(1)] show ?case
  proof (elim disjE exE conjE)
    assume "lk_reg s' = lk_reg s" "lk_authed s' = lk_authed s"
    then show ?thesis using Beat(2) by (simp add: link_inv_def)
  next
    fix k
    assume eq: "lk_reg s' = lk_reg (heartbeat_session now c k s)"
      "lk_authed s' = lk_authed (heartbeat_session now c k s)"
    show ?thesis using heartbeat_session_inv [OF Beat(2), of now c k] link_inv_cong [OF eq] by simp
  qed
next
  case (Gone s P c)
  then show ?case
    by (auto simp: cleanup_connection_def link_inv_def remove_if_client_def bt_get_remove Let_def
        split: option.splits if_splits)
next
  case (Tick s P now window)
  then show ?case by (auto simp: link_inv_def advance_all_get)
next
  case (Admin s P k lg)
  then show ?case by (auto simp: link_inv_def reg_remove_def bt_get_remove split: if_splits)
qed

lemma link_reach_inv: "link_reach sj enc enc_up cfg sp \<Longrightarrow> link_inv sp"
proof (induction rule: link_reach.induct)
  case (Start lg)
  then show ?case by (simp add: link_inv_def)
next
  case (Step sp sp')
  then show ?case by (blast intro: link_step_inv)
qed

section \<open>Properties\<close>

text \<open>C13: a session is never granted without credentials: in every state the connections, heartbeats,
  liveness scans, cleanups and deletions of agents can reach, each session of the registry is filed
  under its own agent id and belongs to a connection that authenticated as that agent.\<close>

theorem session_only_after_auth:
  assumes "link_reach sj enc enc_up cfg (s, P)" "bt_get (lk_reg s) k = Some se"
  shows "se_agent_id se = k \<and> (se_client_id se, k) \<in> P"
  using link_reach_inv [OF assms(1)] assms(2) by (simp add: link_inv_def)

text \<open>With authentication on, exactly the current token and the one before its rotation open a
  session, and a refused attempt changes nothing at all.\<close>

lemma auth_exact:
  assumes "lg_faults (lk_led s) = []" "sc_auth_enabled cfg"
    and "handle_auth cfg now c (Some req) s = (reply, s')"
  shows "(ar_ok reply \<longleftrightarrow> accepts (lk_led s) (aq_agent_id req) (aq_token req)) \<and>
    (if ar_ok reply then bt_get (lk_reg s') (aq_agent_id req) = Some (session_new (aq_agent_id req) c now)
     else s' = s)"
  using handle_auth_ok [OF assms] by simp

text \<open>C17: a rotation never locks the agent out: right after it the agent may authenticate with the old
  token, any number of times, until it has used the new one; from then on only the new one opens a
  session.\<close>

theorem token_rotation_grace:
  assumes "lg_faults (lk_led s) = []" "sc_auth_enabled cfg" "tokens_of (lk_led s) k = Some (cur, prev)"
    and "s1 = s\<lparr>lk_led := snd (rotate_agent_token k new (lk_led s))\<rparr>"
    and "aq_agent_id req = k" "handle_auth cfg now c (Some req) s1 = (reply, s2)" "cur \<noteq> new" "cur \<noteq> []"
  shows "(aq_token req = cur \<longrightarrow> ar_ok reply \<and> (\<forall>t. accepts (lk_led s2) k t \<longleftrightarrow> t = new \<or> t = cur)) \<and>
    (aq_token req = new \<longrightarrow> ar_ok reply \<and> (\<forall>t. accepts (lk_led s2) k t \<longleftrightarrow> t = new)) \<and>
    (aq_token req \<notin> {new, cur} \<longrightarrow> \<not> ar_ok reply)"
proof -
  have t1: "tokens_of (lk_led s1) k = Some (new, Some cur)" and f1: "lg_faults (lk_led s1) = []"
    using rotated_tokens [OF assms(1,3,8), of new] by (simp_all add: assms(4))
  note ok = handle_auth_ok [OF f1 assms(2,6)]
  show ?thesis
    using ok assms(5,7) t1 by (auto simp: accepts_def used_token_def)
qed

text \<open>C16: the end of an old connection leaves a reconnected agent alone: once the agent has authenticated
  on another connection, cleaning up the first one changes neither the registry nor the ledger.\<close>

theorem cleanup_spares_reconnected_agent:
  assumes "handle_auth cfg now c2 (Some req) s = (reply, s')" "ar_ok reply" "c1 \<noteq> c2"
    and "lk_authed s c1 = Some (aq_agent_id req)"
  shows "cleanup_connection c1 s' = s'"
proof -
  have r: "lk_reg s' = bt_insert (aq_agent_id req) (session_new (aq_agent_id req) c2 now) (lk_reg s) \<and>
       lk_authed s' = (lk_authed s)(c2 := Some (aq_agent_id req))"
    by (rule handle_auth_regs(2) [OF assms(1,2) refl])
  then show ?thesis
    using assms(3,4)
    by (simp add: cleanup_connection_def remove_if_client_def bt_get_insert session_new_def)
qed

text \<open>Any connection, authenticated or not, writes the heartbeat of any agent: whatever agent the
  connection is, the last heartbeat of the agent the message names is set to now, so a dead agent can
  be made to look alive.\<close>

lemma heartbeat_not_authenticated:
  assumes "lg_faults (lk_led s) = []" "lk_authed s c = None" "agent_of (lk_led s) (hb_agent_id hb) \<noteq> None"
    and "hb_upgrade_result hb = None" "hb_spec hb = None"
    and "handle_heartbeat sj enc enc_up now c (Some hb) s = (reply, s')"
  shows "map_option a_last_heartbeat_at (agent_of (lk_led s') (hb_agent_id hb)) = Some (Some (int_dec now))"
proof -
  have "s' = s\<lparr>lk_led := snd (mark_heartbeat (hb_agent_id hb) (int_dec now) (lk_led s))\<rparr>"
    using assms(2,4,5,6) by (simp add: handle_heartbeat_def heartbeat_session_def)
  moreover obtain r where "agent_row (lk_led s) (hb_agent_id hb) = Some r"
    using assms(3) by (auto simp: agent_of_row)
  ultimately show ?thesis
    using assms(1)
    by (simp add: agent_of_row mark_heartbeat_def agent_row_update update_agent_ok row_to_agent_def
        row_set_def field_opt_text_def)
qed

definition demo_agent :: agent where
  "demo_agent = \<lparr>a_agent_id = ''a1'', a_host_id = ''h1'', a_access_point_id = None, a_token = ''old'',
     a_version = [], a_install_path = [], a_status = ''unknown'', a_last_heartbeat_at = None,
     a_registered_at = ''0''\<rparr>"

definition demo_link :: link where
  "demo_link = \<lparr>lk_reg = [], lk_led = set_tab Agents [sql_params_agent demo_agent] empty_ledger,
     lk_authed = \<lambda>_. None\<rparr>"

definition demo_auth :: "string \<Rightarrow> auth_request" where
  "demo_auth t = \<lparr>aq_agent_id = ''a1'', aq_token = t, aq_version = []\<rparr>"

lemma demo_link_facts:
  "lg_faults (lk_led demo_link) = []" "tokens_of (lk_led demo_link) ''a1'' = Some (''old'', None)"
  "agent_of (lk_led demo_link) ''a1'' \<noteq> None" "lk_authed demo_link c = None"
  by (simp_all add: demo_link_def empty_ledger_def tokens_of_def agent_of_def select_first_def text_eq_def
      sql_params_agent_def row_of_def demo_agent_def field_text_def field_opt_text_def)

lemma session_only_after_auth_witness:
  "\<exists>s P se. link_reach id_serde si_item_id (\<lambda>_. []) default_server_config (s, P) \<and>
    bt_get (lk_reg s) ''a1'' = Some se \<and> (se_client_id se, ''a1'') \<in> P"
proof -
  obtain reply s' where a: "handle_auth default_server_config 5 7 (Some (demo_auth ''old'')) demo_link = (reply, s')"
    by fastforce
  have e: "sc_auth_enabled default_server_config" by (simp add: default_server_config_def)
  note ok = handle_auth_ok [OF demo_link_facts(1) e a]
  have r: "ar_ok reply" using ok(1) demo_link_facts(2) by (simp add: demo_auth_def accepts_def)
  have "link_reach id_serde si_item_id (\<lambda>_. []) default_server_config (demo_link, {})"
    unfolding demo_link_def by (rule link_reach.Start)
  then have reach: "link_reach id_serde si_item_id (\<lambda>_. []) default_server_config (s', insert (7, ''a1'') {})"
    by (rule link_reach.Step) (use Auth_ok [OF a r, where P = "{}"] in \<open>simp add: demo_auth_def\<close>)
  moreover have g: "bt_get (lk_reg s') ''a1'' = Some (session_new ''a1'' 7 5)"
    using ok(3) r by (simp add: demo_auth_def)
  ultimately show ?thesis using session_only_after_auth [OF reach g] by blast
qed

lemma auth_exact_witness:
  "ar_ok (fst (handle_auth default_server_config 5 7 (Some (demo_auth ''old'')) demo_link)) \<and>
   handle_auth default_server_config 5 7 (Some (demo_auth ''bad'')) demo_link =
     (fst (handle_auth default_server_config 5 7 (Some (demo_auth ''bad'')) demo_link), demo_link)"
proof -
  have e: "sc_auth_enabled default_server_config" by (simp add: default_server_config_def)
  note x = auth_exact [OF demo_link_facts(1) e prod.collapse [symmetric], of 5 7]
  show ?thesis
    using x [of "demo_auth ''old''"] x [of "demo_auth ''bad''"] demo_link_facts(2)
    by (auto simp: accepts_def demo_auth_def prod_eq_iff)
qed

lemma token_rotation_grace_witness:
  "\<exists>reply s2. handle_auth default_server_config 5 7 (Some (demo_auth ''old''))
      (demo_link\<lparr>lk_led := snd (rotate_agent_token ''a1'' ''new'' (lk_led demo_link))\<rparr>) = (reply, s2) \<and>
    ar_ok reply \<and> accepts (lk_led s2) ''a1'' ''new'' \<and> accepts (lk_led s2) ''a1'' ''old''"
proof -
  let ?s1 = "demo_link\<lparr>lk_led := snd (rotate_agent_token ''a1'' ''new'' (lk_led demo_link))\<rparr>"
  obtain reply s2 where a: "handle_auth default_server_config 5 7 (Some (demo_auth ''old'')) ?s1 = (reply, s2)"
    by fastforce
  have e: "sc_auth_enabled default_server_config" by (simp add: default_server_config_def)
  show ?thesis
    using token_rotation_grace [OF demo_link_facts(1) e demo_link_facts(2) refl _ a] a
    by (simp add: demo_auth_def)
qed

lemma cleanup_spares_reconnected_agent_witness:
  "\<exists>s'. snd (handle_auth default_server_config 5 8 (Some (demo_auth ''old''))
      (demo_link\<lparr>lk_authed := (\<lambda>_. None)(7 := Some ''a1'')\<rparr>)) = s' \<and>
    bt_get (lk_reg (cleanup_connection 7 s')) ''a1'' = Some (session_new ''a1'' 8 5)"
proof -
  let ?s = "demo_link\<lparr>lk_authed := (\<lambda>_. None)(7 := Some ''a1'')\<rparr>"
  obtain reply s' where a: "handle_auth default_server_config 5 8 (Some (demo_auth ''old'')) ?s = (reply, s')"
    by fastforce
  have e: "sc_auth_enabled default_server_config" by (simp add: default_server_config_def)
  have f: "lg_faults (lk_led ?s) = []" using demo_link_facts(1) by simp
  note ok = handle_auth_ok [OF f e a]
  have r: "ar_ok reply" using ok(1) demo_link_facts(2) by (simp add: demo_auth_def accepts_def)
  have "cleanup_connection 7 s' = s'"
    by (rule cleanup_spares_reconnected_agent [OF a r]) (simp_all add: demo_auth_def)
  then show ?thesis using ok(3) r a by (simp add: demo_auth_def)
qed

definition demo_beat :: heartbeat where
  "demo_beat = \<lparr>hb_agent_id = ''a1'', hb_ts_micros = 0, hb_upgrade_result = None, hb_spec = None\<rparr>"

lemma heartbeat_not_authenticated_witness:
  "map_option a_last_heartbeat_at (agent_of (lk_led (snd (handle_heartbeat id_serde si_item_id (\<lambda>_. []) 42 9
      (Some demo_beat) demo_link))) ''a1'') = Some (Some (int_dec 42))"
  using heartbeat_not_authenticated [OF demo_link_facts(1,4) _ _ _ prod.collapse [symmetric],
      where hb = demo_beat and sj = id_serde and enc = si_item_id and enc_up = "\<lambda>_. []" and now = 42 and c = 9]
    demo_link_facts(3) by (simp add: demo_beat_def)

definition dead_run :: "nat \<Rightarrow> probe list \<Rightarrow> nat" where
  "dead_run f xs = (if list_all (\<lambda>p. \<not> probe_alive p) xs then f + length xs
     else length (takeWhile (\<lambda>p. \<not> probe_alive p) (rev xs)))"

lemma dead_run_Nil [simp]: "dead_run f [] = f"
  by (simp add: dead_run_def)

lemma dead_run_Cons: "dead_run f (p # xs) = (if probe_alive p then dead_run 0 xs else dead_run (Suc f) xs)"
proof -
  have "takeWhile (\<lambda>p. \<not> probe_alive p) (rev xs) = rev xs" if "list_all (\<lambda>p. \<not> probe_alive p) xs"
    using that by (simp add: takeWhile_eq_all_conv list_all_iff)
  moreover have "\<exists>x \<in> set (rev xs). probe_alive x" if "\<not> list_all (\<lambda>p. \<not> probe_alive p) xs"
    using that by (auto simp: list_all_iff)
  ultimately show ?thesis
    by (auto simp: dead_run_def takeWhile_append1 takeWhile_append2 takeWhile_append list_all_iff)
qed

lemma find_upt_Suc:
  "find P [Suc 0..<Suc (Suc l)] =
     (if P (Suc 0) then Some (Suc 0) else map_option Suc (find (\<lambda>n. P (Suc n)) [Suc 0..<Suc l]))"
proof -
  have "[Suc 0..<Suc (Suc l)] = Suc 0 # map Suc [Suc 0..<Suc l]"
    by (simp add: map_Suc_upt upt_conv_Cons del: upt_Suc)
  then show ?thesis by (simp add: find_cong_map del: upt_Suc)
qed

lemma probe_loop_run:
  assumes m: "m = max threshold 1" and "f < m"
  shows "probe_loop threshold f ps = find (\<lambda>n. m \<le> dead_run f (take n ps)) [Suc 0..<Suc (length ps)]"
  using assms(2)
proof (induction ps arbitrary: f)
  case Nil
  then show ?case by simp
next
  case (Cons p ps)
  have pos: "0 < m" using Cons.prems by simp
  have close: "probe_should_close (Suc f) threshold \<longleftrightarrow> m \<le> Suc f"
    unfolding probe_should_close_def m by simp
  show ?case
  proof (cases "probe_alive p")
    case True
    with Cons.IH [OF pos] pos show ?thesis
      by (simp add: find_upt_Suc dead_run_Cons del: upt_Suc)
  next
    case False
    then show ?thesis using Cons.IH [of "Suc f"]
      by (cases "m \<le> Suc f") (simp_all add: find_upt_Suc dead_run_Cons close del: upt_Suc)
  qed
qed

text \<open>One lost probe does not end a connection: the probing of a connection breaks after exactly the
  first probe at which the trailing run of dead probes has reached the configured length (at least
  one); an answer, also a business error, starts the count anew.\<close>

lemma probe_loop_exact:
  "probe_loop threshold 0 ps =
     find (\<lambda>n. max threshold 1 \<le> length (takeWhile (\<lambda>p. \<not> probe_alive p) (rev (take n ps)))) [Suc 0..<Suc (length ps)]"
proof -
  have "dead_run 0 xs = length (takeWhile (\<lambda>p. \<not> probe_alive p) (rev xs))" for xs
    by (simp add: dead_run_def list_all_iff) (metis length_rev set_rev takeWhile_eq_all_conv)
  then show ?thesis using probe_loop_run [OF refl, of 0 threshold ps] by simp
qed

end
