(* ===== verification/Admin_Http.thy ===== *)
theory Admin_Http
  imports Agent_Link
begin

text \<open>
  The management port, \<^verbatim>\<open>crates/gse-server-core/src/http.rs\<close>: its state, its answers, the shared
  password and the routes for hosts, access points, agents and data planes. An answer is a status
  with the error or the value the handler serialises. A request body is what axum's extractor
  gives: the decoded value, or the text of its rejection. The clock \<open>now\<close> is an argument of the
  handlers that stamp.
\<close>

record admin =
  ad_led :: ledger
  ad_reg :: "registry option"
  ad_cfg :: "server_config option"
  ad_password :: string
  ad_item_seq :: nat

type_synonym 'a http = "nat \<times> (gse_error, 'a) result"
type_synonym 'a handler = "admin \<Rightarrow> 'a http \<times> admin"

named_theorems http_simps \<open>unfolding rules of the answers\<close>

definition err_json :: "nat \<Rightarrow> gse_error \<Rightarrow> 'a http" where
  [http_simps]: "err_json status e = (status, Inl e)"

definition http_created :: "'a \<Rightarrow> 'a http" where
  [http_simps]: "http_created v = (201, Inr v)"

definition http_ok :: "'a \<Rightarrow> 'a http" where
  [http_simps]: "http_ok v = (200, Inr v)"

definition missing_field :: "string \<Rightarrow> gse_error" where
  "missing_field field = gse_err ''invalid_argument'' (''missing required field: '' @ field)"

definition require :: "bool \<Rightarrow> string \<Rightarrow> 'a http option" where
  "require present field = (if present then None else Some (err_json 400 (missing_field field)))"

definition from_json_err :: "string \<Rightarrow> 'a http" where
  "from_json_err e = err_json 400 (gse_err ''invalid_argument'' (''invalid JSON body: '' @ e))"

text \<open>Running one ledger operation of a handler; \<open>st\<close> gives the status of its error.\<close>

definition with_led :: "(string \<Rightarrow> nat) \<Rightarrow> 'a led \<Rightarrow> ('a \<Rightarrow> 'b handler) \<Rightarrow> 'b handler" where
  "with_led st m k a =
     (case m (ad_led a) of
        (Inl e, lg) \<Rightarrow> (err_json (st (ge_code e)) e, a\<lparr>ad_led := lg\<rparr>)
      | (Inr x, lg) \<Rightarrow> k x (a\<lparr>ad_led := lg\<rparr>))"

abbreviation as_internal :: "string \<Rightarrow> nat" where
  "as_internal \<equiv> \<lambda>_. 500"

definition answer :: "'a http \<Rightarrow> 'a handler" where
  "answer r a = (r, a)"

definition with_body :: "(string, 'c) result \<Rightarrow> ('c \<Rightarrow> 'b handler) \<Rightarrow> 'b handler" where
  "with_body body k a = (case body of Inl e \<Rightarrow> (from_json_err e, a) | Inr b \<Rightarrow> k b a)"

definition not_found :: "string \<Rightarrow> 'a http" where
  "not_found what = err_json 404 (gse_err ''not_found'' (what @ '' not found''))"

definition found_or :: "string \<Rightarrow> 'a option \<Rightarrow> 'a http" where
  "found_or what x = (case x of Some v \<Rightarrow> http_ok v | None \<Rightarrow> not_found what)"

section \<open>Password\<close>

text \<open>\<^verbatim>\<open>String::from_utf8\<close> accepts the well-formed UTF-8 byte sequences.\<close>

definition byte :: "char \<Rightarrow> nat" where
  "byte c = of_char c"

definition is_cont_byte :: "char \<Rightarrow> bool" where
  "is_cont_byte c \<longleftrightarrow> 0x80 \<le> byte c \<and> byte c \<le> 0xBF"

fun utf8_len :: "string \<Rightarrow> nat option" where
  "utf8_len [] = None"
| "utf8_len (a # s) =
     (if byte a < 0x80 then Some 1
      else case s of [] \<Rightarrow> None
      | b # s' \<Rightarrow>
          if 0xC2 \<le> byte a \<and> byte a \<le> 0xDF then (if is_cont_byte b then Some 2 else None)
          else case s' of [] \<Rightarrow> None
          | c # s'' \<Rightarrow>
              if 0xE0 \<le> byte a \<and> byte a \<le> 0xEF then
                (if is_cont_byte b \<and> is_cont_byte c \<and> (byte a = 0xE0 \<longrightarrow> 0xA0 \<le> byte b) \<and>
                    (byte a = 0xED \<longrightarrow> byte b \<le> 0x9F) then Some 3 else None)
              else case s'' of [] \<Rightarrow> None
              | d # _ \<Rightarrow>
                  if 0xF0 \<le> byte a \<and> byte a \<le> 0xF4 \<and> is_cont_byte b \<and> is_cont_byte c \<and> is_cont_byte d \<and>
                     (byte a = 0xF0 \<longrightarrow> 0x90 \<le> byte b) \<and> (byte a = 0xF4 \<longrightarrow> byte b \<le> 0x8F)
                  then Some 4 else None)"

lemma utf8_len_pos: "utf8_len s = Some n \<Longrightarrow> 0 < n"
  by (cases s) (auto split: if_splits list.splits)

function utf8_ok :: "string \<Rightarrow> bool" where
  "utf8_ok s = (if s = [] then True else
     case utf8_len s of None \<Rightarrow> False | Some n \<Rightarrow> utf8_ok (drop n s))"
  by pat_completeness auto
termination
  by (relation "measure length") (auto dest: utf8_len_pos)

declare utf8_ok.simps [simp del]

definition strip_prefix :: "string \<Rightarrow> string \<Rightarrow> string option" where
  "strip_prefix p s = (if starts_with s p then Some (drop (length p) s) else None)"

definition or_else :: "'a option \<Rightarrow> 'a option \<Rightarrow> 'a option" where
  "or_else x y = (case x of None \<Rightarrow> y | Some v \<Rightarrow> Some v)"

fun split_once :: "char \<Rightarrow> string \<Rightarrow> (string \<times> string) option" where
  "split_once d [] = None"
| "split_once d (c # cs) =
     (if c = d then Some ([], cs) else map_option (\<lambda>(a, b). (c # a, b)) (split_once d cs))"

text \<open>
  \<open>auth\<close> is the \<^verbatim>\<open>Authorization\<close> header as a string, nothing when it is absent or not text;
  \<open>b64dec\<close> is the base64 crate's decoder.
\<close>

definition candidate_password :: "(string \<Rightarrow> string option) \<Rightarrow> string option \<Rightarrow> string option" where
  "candidate_password b64dec auth =
     Option.bind auth (\<lambda>raw.
       case or_else (strip_prefix ''Bearer '' raw) (strip_prefix ''bearer '' raw) of
         Some token \<Rightarrow> Some token
       | None \<Rightarrow>
           Option.bind (or_else (strip_prefix ''Basic '' raw) (strip_prefix ''basic '' raw)) (\<lambda>b64.
           Option.bind (b64dec b64) (\<lambda>decoded.
           Option.bind (if utf8_ok decoded then Some decoded else None) (\<lambda>text.
           map_option snd (split_once (CHR '':'') text)))))"

unbundle bit_operations_syntax

definition u8 :: "char \<Rightarrow> 8 word" where
  "u8 c = word_of_nat (of_char c)"

definition constant_time_eq :: "string \<Rightarrow> string \<Rightarrow> bool" where
  "constant_time_eq a b =
     (if length a \<noteq> length b then False
      else foldl (\<lambda>diff (x, y). diff OR (u8 x XOR u8 y)) 0 (zip a b) = 0)"

definition password_matches :: "(string \<Rightarrow> string option) \<Rightarrow> string option \<Rightarrow> string \<Rightarrow> bool" where
  "password_matches b64dec auth expected =
     unwrap_or (map_option (\<lambda>candidate. constant_time_eq candidate expected)
       (candidate_password b64dec auth)) False"

definition require_admin_password ::
    "(string \<Rightarrow> string option) \<Rightarrow> string option \<Rightarrow> 'b handler \<Rightarrow> 'b handler" where
  "require_admin_password b64dec auth next_handler a =
     (if ad_password a = [] \<or> password_matches b64dec auth (ad_password a) then next_handler a
      else (err_json 401 (gse_err ''unauthorized'' ''admin password required''), a))"

section \<open>Hosts\<close>

definition list_hosts_route :: "host list handler" where
  "list_hosts_route = with_led as_internal list_hosts (\<lambda>v. answer (http_ok v))"

definition nonblank :: "string \<Rightarrow> bool" where
  "nonblank s \<longleftrightarrow> trim s \<noteq> []"

fun first_error :: "'a http option list \<Rightarrow> 'a http option" where
  "first_error [] = None"
| "first_error (None # rs) = first_error rs"
| "first_error (Some r # rs) = Some r"

definition with_checks :: "'a http option list \<Rightarrow> 'a handler \<Rightarrow> 'a handler" where
  "with_checks rs k a = (case first_error rs of Some r \<Rightarrow> (r, a) | None \<Rightarrow> k a)"

text \<open>The creation time is stamped when the caller left it empty.\<close>

definition stamp_if :: "bool \<Rightarrow> int \<Rightarrow> string \<Rightarrow> string led" where
  "stamp_if missing now old = (if missing then ledger_stamp now else led_return old)"

definition create_host :: "int \<Rightarrow> (string, host) result \<Rightarrow> host handler" where
  "create_host now body = with_body body (\<lambda>host.
     with_checks [require (nonblank (h_host_id host)) ''host_id'', require (nonblank (h_inner_ip host)) ''inner_ip'']
      (with_led as_internal (stamp_if (h_created_at host = []) now (h_created_at host)) (\<lambda>t.
       let h = host\<lparr>h_created_at := t\<rparr>
       in with_led as_internal (upsert_host h) (\<lambda>_. answer (http_created h)))))"

definition get_host_route :: "string \<Rightarrow> host handler" where
  "get_host_route k = with_led as_internal (get_host k) (\<lambda>h. answer (found_or (''host '' @ k) h))"

text \<open>A deletion answers the deleted id.\<close>

definition delete_host :: "string \<Rightarrow> string handler" where
  "delete_host k = with_led as_internal (remove_host k) (\<lambda>_. answer (http_ok k))"

section \<open>Access points\<close>

definition list_access_points_route :: "access_point list handler" where
  "list_access_points_route = with_led as_internal list_access_points (\<lambda>v. answer (http_ok v))"

definition create_access_point :: "int \<Rightarrow> (string, access_point) result \<Rightarrow> access_point handler" where
  "create_access_point now body = with_body body (\<lambda>ap.
     with_checks [require (nonblank (ap_id ap)) ''id'', require (nonblank (ap_name ap)) ''name'',
         require (nonblank (ap_server_ip ap)) ''server_ip'']
      (with_led as_internal (stamp_if (ap_created_at ap = []) now (ap_created_at ap)) (\<lambda>t.
       let ap = ap\<lparr>ap_created_at := t\<rparr>
       in with_led as_internal (upsert_access_point ap) (\<lambda>_. answer (http_created ap)))))"

definition get_access_point_route :: "string \<Rightarrow> access_point handler" where
  "get_access_point_route k =
     with_led as_internal (get_access_point k) (\<lambda>ap. answer (found_or (''access point '' @ k) ap))"

definition delete_access_point :: "string \<Rightarrow> string handler" where
  "delete_access_point k = with_led as_internal (remove_access_point k) (\<lambda>_. answer (http_ok k))"

section \<open>Agents\<close>

record agent_view =
  av_agent :: agent
  av_session_state :: string
  av_job_channel_available :: bool

fun session_state_name :: "session_state \<Rightarrow> string" where
  "session_state_name Online = ''online''"
| "session_state_name Checking = ''checking''"
| "session_state_name Offline = ''offline''"
| "session_state_name Closed = ''closed''"

definition agent_view_of :: "session list \<Rightarrow> agent \<Rightarrow> agent_view" where
  "agent_view_of sessions a =
     (let (name, available) =
        (case find (\<lambda>s. se_agent_id s = a_agent_id a) sessions of
           Some s \<Rightarrow> (session_state_name (se_state s), se_state s = Online)
         | None \<Rightarrow> (''absent'', False))
      in \<lparr>av_agent = a, av_session_state = name, av_job_channel_available = available\<rparr>)"

definition list_agents_route :: "agent_view list handler" where
  "list_agents_route = with_led as_internal list_agents (\<lambda>agents a.
     let sessions = (case ad_reg a of Some r \<Rightarrow> reg_list r | None \<Rightarrow> [])
     in answer (http_ok (map (agent_view_of sessions) agents)) a)"

definition create_agent :: "int \<Rightarrow> (string, agent) result \<Rightarrow> agent handler" where
  "create_agent now body = with_body body (\<lambda>agent.
     with_checks [require (nonblank (a_agent_id agent)) ''agent_id'', require (nonblank (a_host_id agent)) ''host_id'',
         require (nonblank (a_token agent)) ''token'']
      (with_led as_internal (stamp_if (a_registered_at agent = []) now (a_registered_at agent)) (\<lambda>t.
       let a = agent\<lparr>a_status := ''unknown'', a_last_heartbeat_at := None, a_registered_at := t\<rparr>
       in with_led as_internal (upsert_agent a) (\<lambda>_. answer (http_created a)))))"

definition get_agent_route :: "string \<Rightarrow> agent handler" where
  "get_agent_route k = with_led as_internal (get_agent k) (\<lambda>a. answer (found_or (''agent '' @ k) a))"

definition delete_agent :: "serde \<Rightarrow> string \<Rightarrow> string handler" where
  "delete_agent sj k =
     with_led as_internal (remove_agent k) (\<lambda>_.
     with_led as_internal (remove_agent_spec sj k) (\<lambda>_.
     with_led as_internal (remove_agent_spec_state k) (\<lambda>_ a.
       (http_ok k, a\<lparr>ad_reg := map_option (\<lambda>r. snd (reg_remove k r)) (ad_reg a)\<rparr>))))"

section \<open>Data planes\<close>

definition list_dataplanes_route :: "dataplane_service list handler" where
  "list_dataplanes_route = with_led as_internal list_dataplanes (\<lambda>v. answer (http_ok v))"

text \<open>The probes after the registration run in a task of their own, \<^const>\<open>spawn_probe_after_register\<close>; the
  second component says whether it was started.\<close>

definition create_dataplane ::
    "int \<Rightarrow> (string, dataplane_service) result \<Rightarrow> admin \<Rightarrow> (dataplane_service http \<times> admin) \<times> string option" where
  "create_dataplane now body a =
     (let r = with_body body (\<lambda>d.
         with_checks [require (nonblank (dp_service_id d)) ''service_id'',
             require (nonblank (dp_ingest_url d)) ''ingest_url'', require (nonblank (dp_query_url d)) ''query_url'']
          (with_led as_internal (stamp_if (dp_registered_at d = []) now (dp_registered_at d)) (\<lambda>t.
           let d = d\<lparr>dp_registered_at := t\<rparr>
           in with_led as_internal (upsert_dataplane d) (\<lambda>_. answer (http_created d))))) a
      in (r, case snd (fst r) of Inr d \<Rightarrow> Some (dp_service_id d) | Inl _ \<Rightarrow> None))"

definition get_dataplane_route :: "string \<Rightarrow> dataplane_service handler" where
  "get_dataplane_route k =
     with_led as_internal (get_dataplane k) (\<lambda>d. answer (found_or (''dataplane '' @ k) d))"

definition delete_dataplane_route :: "string \<Rightarrow> string handler" where
  "delete_dataplane_route k = with_led as_internal (delete_dataplane k) (\<lambda>_. answer (http_ok k))"

section \<open>Lemmas\<close>

lemma u8_inject [simp]: "u8 a = u8 b \<longleftrightarrow> a = b"
proof
  assume e: "u8 a = u8 b"
  have lt: "(of_char c :: nat) < 2 ^ 8" for c :: char
    using nat_of_char_less_256 [of c] by simp
  have "unat (u8 c) = (of_char c :: nat)" for c
    using lt [of c] by (simp add: u8_def unat_of_nat)
  then have "(of_char a :: nat) = of_char b" using e by metis
  then show "a = b" by simp
qed simp

lemma xor_zero_iff: "xor (a :: 8 word) b = 0 \<longleftrightarrow> a = b"
proof
  assume "xor a b = 0"
  then have "xor a (xor a b) = a" by simp
  then show "a = b" by (simp add: xor.assoc [symmetric])
qed simp

lemma or_fold_zero:
  fixes z :: "8 word"
  shows "foldl (\<lambda>d (x, y). or d (xor (u8 x) (u8 y))) z ps = 0 \<longleftrightarrow> z = 0 \<and> (\<forall>(x, y) \<in> set ps. x = y)"
proof (induction ps arbitrary: z)
  case Nil
  then show ?case by simp
next
  case (Cons p ps)
  obtain x y where p: "p = (x, y)" by force
  have "or z (xor (u8 x) (u8 y)) = 0 \<longleftrightarrow> z = 0 \<and> x = y"
    by (simp add: or_eq_0_iff xor_zero_iff)
  then show ?case by (auto simp: p Cons.IH)
qed

lemma constant_time_eq_iff: "constant_time_eq a b \<longleftrightarrow> a = b"
  by (auto simp: constant_time_eq_def or_fold_zero list_eq_iff_zip_eq)

lemma with_led_keeps:
  "fst (m (ad_led a)) = Inl e \<Longrightarrow> with_led st m k a = (err_json (st (ge_code e)) e, a\<lparr>ad_led := snd (m (ad_led a))\<rparr>)"
  by (cases "m (ad_led a)") (simp add: with_led_def)

lemma with_led_step: "m (ad_led a) = (Inr x, lg) \<Longrightarrow> with_led st m k a = k x (a\<lparr>ad_led := lg\<rparr>)"
  by (simp add: with_led_def)

section \<open>Properties\<close>

text \<open>The management port is open exactly to those who know the password: with a password set, a
  request reaches its handler if and only if the bearer token, or the password part of the basic
  credentials, is the configured password byte by byte; any other request is answered 401 and
  changes nothing.\<close>

lemma admin_password_exact:
  "require_admin_password b64dec auth h a =
     (if ad_password a = [] \<or> candidate_password b64dec auth = Some (ad_password a) then h a
      else (err_json 401 (gse_err ''unauthorized'' ''admin password required''), a))"
  by (cases "candidate_password b64dec auth")
    (simp_all add: require_admin_password_def password_matches_def constant_time_eq_iff)

end
