(* ===== verification/Admin_Spec.thy ===== *)
theory Admin_Spec
  imports Admin_Http
begin

text \<open>
  The spec routes of \<^verbatim>\<open>crates/gse-server-core/src/http.rs\<close>: the masked view of an agent's desired and
  effective spec, the write-back of secrets, the validation of collect items and of the whole spec,
  saving a spec with the token rotation it implies, and pushing it. \<^verbatim>\<open>serde_json\<close> and SHA-256 are
  the parameters \<open>sj\<close>, \<open>enc\<close> (of a spec item), \<open>encw\<close> (of a whole spec) and \<open>sha\<close>.
\<close>

section \<open>Views\<close>

definition is_item_kind :: "string \<Rightarrow> bool" where
  "is_item_kind kind \<longleftrightarrow> kind \<in> {''metrics_host'', ''log_file'', ''log_k8s_stdout'', ''apm_otlp'',
     ''ebpf_network'', ''ebpf_tcp'', ''ebpf_process'', ''ebpf_syscall''}"

record spec_revision_view =
  rv_revision :: string
  rv_spec :: agent_spec_wire

record applied_view =
  apv_revision :: string
  apv_outcome :: string
  apv_spec :: agent_spec_wire
  apv_not_enforced :: "string list"
  apv_detail :: string

record agent_spec_view =
  vw_agent_id :: string
  vw_host_id :: string
  vw_session_state :: string
  vw_sync_status :: string
  vw_updated_at :: "string option"
  vw_reported_at :: "string option"
  vw_desired :: "spec_revision_view option"
  vw_applied :: "applied_view option"
  vw_diff :: "spec_diff option"

definition MASK :: string where "MASK = ''***''"

definition mask_secret :: "string option \<Rightarrow> string option" where
  "mask_secret v = Some (case v of Some s \<Rightarrow> if s \<noteq> [] then MASK else [] | None \<Rightarrow> [])"

definition mask_params :: "spec_params \<Rightarrow> spec_params" where
  "mask_params p = p\<lparr>sp_token := mask_secret (sp_token p), sp_otlp_token := mask_secret (sp_otlp_token p)\<rparr>"

definition mask_spec :: "agent_spec_wire \<Rightarrow> agent_spec_wire" where
  "mask_spec s = \<lparr>aw_params = mask_params (aw_params s), aw_items = aw_items s\<rparr>"

definition sync_status :: "agent_spec option \<Rightarrow> agent_spec_state option \<Rightarrow> string" where
  "sync_status desired state =
     (case state of None \<Rightarrow> ''unknown''
      | Some s \<Rightarrow>
          if ss_outcome s = OUT_REJECTED then ''rejected''
          else (case desired of None \<Rightarrow> ''unspecified''
                | Some d \<Rightarrow> if as_revision d = ss_revision s then ''synced'' else ''stale''))"

definition spec_view ::
    "string \<Rightarrow> string \<Rightarrow> string \<Rightarrow> agent_spec option \<Rightarrow> agent_spec_state option \<Rightarrow> agent_spec_view" where
  "spec_view agent_id host_id session_state desired state =
     \<lparr>vw_agent_id = agent_id, vw_host_id = host_id, vw_session_state = session_state,
      vw_sync_status = sync_status desired state, vw_updated_at = map_option as_updated_at desired,
      vw_reported_at = map_option ss_reported_at state,
      vw_desired = map_option (\<lambda>d. \<lparr>rv_revision = as_revision d, rv_spec = mask_spec (as_spec d)\<rparr>) desired,
      vw_applied = map_option (\<lambda>s. \<lparr>apv_revision = ss_revision s, apv_outcome = ss_outcome s,
         apv_spec = mask_spec (ss_applied s), apv_not_enforced = ss_not_enforced s,
         apv_detail = ss_detail s\<rparr>) state,
      vw_diff = map_option ss_diff state\<rparr>"

fun state_debug :: "session_state \<Rightarrow> string" where
  "state_debug Online = ''Online''"
| "state_debug Checking = ''Checking''"
| "state_debug Offline = ''Offline''"
| "state_debug Closed = ''Closed''"

definition session_state_of :: "admin \<Rightarrow> string \<Rightarrow> string" where
  "session_state_of a k =
     (case ad_reg a of None \<Rightarrow> ''absent''
      | Some reg \<Rightarrow> (case reg_get reg k of
          Some s \<Rightarrow> to_ascii_lowercase (state_debug (se_state s)) | None \<Rightarrow> ''absent''))"

definition list_agent_specs_route :: "serde \<Rightarrow> agent_spec_view list handler" where
  "list_agent_specs_route sj =
     with_led as_internal list_agents (\<lambda>agents.
     with_led as_internal (list_agent_specs sj) (\<lambda>desired.
     with_led as_internal (list_agent_spec_states sj) (\<lambda>states a.
       let state_for = (\<lambda>k. find (\<lambda>s. ss_agent_id s = k) states);
           known = map (\<lambda>g. spec_view (a_agent_id g) (a_host_id g) (session_state_of a (a_agent_id g))
             (find (\<lambda>d. as_agent_id d = a_agent_id g) desired) (state_for (a_agent_id g))) agents;
           orphans = map (\<lambda>d. spec_view (as_agent_id d) [] (session_state_of a (as_agent_id d)) (Some d)
               (state_for (as_agent_id d)))
             (filter (\<lambda>d. \<not> (\<exists>g \<in> set agents. a_agent_id g = as_agent_id d)) desired)
       in answer (http_ok (sort_key vw_agent_id (known @ orphans))) a)))"

definition get_agent_spec_route :: "serde \<Rightarrow> string \<Rightarrow> agent_spec_view handler" where
  "get_agent_spec_route sj k =
     with_led as_internal (get_agent_spec sj k) (\<lambda>desired.
     with_led as_internal (get_agent_spec_state sj k) (\<lambda>state.
     with_led as_internal (get_agent k) (\<lambda>g a.
       let host_id = (case g of Some g \<Rightarrow> a_host_id g | None \<Rightarrow> [])
       in if desired = None \<and> state = None
          then (err_json 404 (gse_err ''not_found'' (''agent '' @ k @ ('' '' @
     [CHR 0xE6, CHR 0xB2, CHR 0xA1, CHR 0xE6, CHR 0x9C, CHR 0x89] @
     '' spec''))), a)
          else (http_ok (spec_view k host_id (session_state_of a k) desired state), a))))"

section \<open>Secrets\<close>

text \<open>Of a secret in a request: absent, explicitly null, or a text.\<close>

definition mask_unset :: string where
  "mask_unset = ('': '' @
     [CHR 0xE4, CHR 0xBC, CHR 0xA0, CHR 0xE4, CHR 0xBA, CHR 0x86, CHR 0xE8, CHR 0x84, CHR 0xB1,
      CHR 0xE6, CHR 0x95, CHR 0x8F, CHR 0xE5, CHR 0x8D, CHR 0xA0, CHR 0xE4, CHR 0xBD, CHR 0x8D,
      CHR 0xE5, CHR 0x80, CHR 0xBC, CHR 0xE4, CHR 0xBD, CHR 0x86, CHR 0xE5, CHR 0xBD, CHR 0x93,
      CHR 0xE5, CHR 0x89, CHR 0x8D, CHR 0xE5, CHR 0xB9, CHR 0xB6, CHR 0xE6, CHR 0xB2, CHR 0xA1,
      CHR 0xE6, CHR 0x9C, CHR 0x89, CHR 0xE5, CHR 0xB7, CHR 0xB2, CHR 0xE8, CHR 0xAE, CHR 0xBE,
      CHR 0xE7, CHR 0xBD, CHR 0xAE, CHR 0xE7, CHR 0x9A, CHR 0x84, CHR 0xE5, CHR 0x80, CHR 0xBC])"

definition merge_secret :: "string option option \<Rightarrow> string option \<Rightarrow> string \<Rightarrow> (gse_error, string option) result" where
  "merge_secret incoming existing field =
     (case incoming of
        None \<Rightarrow> Inr existing
      | Some None \<Rightarrow> Inr None
      | Some (Some v) \<Rightarrow>
          if v = MASK \<or> v = [] then
            (if v = MASK \<and> (existing = None \<or> existing = Some [])
             then Inl (bad_arg (field @ mask_unset))
             else Inr existing)
          else Inr (Some v))"

record spec_params_input =
  pi_heartbeat_interval_secs :: nat
  pi_allowed_interpreters :: "string list"
  pi_job_default_interpreter :: string
  pi_max_concurrent_jobs :: nat
  pi_job_work_dir :: "string option"
  pi_otlp_enabled :: bool
  pi_otlp_listen :: string
  pi_otlp_max_body_bytes :: nat
  pi_otlp_token :: "string option option"
  pi_otlp_allowed_cidrs :: "string list"
  pi_token :: "string option option"
  pi_cpu_limit_percent :: "int option"
  pi_mem_limit_percent :: "int option"
  pi_log_level :: string

definition default_spec_params_input :: spec_params_input where
  "default_spec_params_input = (let d = default_spec_params in
     \<lparr>pi_heartbeat_interval_secs = sp_heartbeat_interval_secs d,
      pi_allowed_interpreters = sp_allowed_interpreters d,
      pi_job_default_interpreter = sp_job_default_interpreter d,
      pi_max_concurrent_jobs = sp_max_concurrent_jobs d, pi_job_work_dir = sp_job_work_dir d,
      pi_otlp_enabled = sp_otlp_enabled d, pi_otlp_listen = sp_otlp_listen d,
      pi_otlp_max_body_bytes = sp_otlp_max_body_bytes d, pi_otlp_token = None,
      pi_otlp_allowed_cidrs = sp_otlp_allowed_cidrs d, pi_token = None,
      pi_cpu_limit_percent = sp_cpu_limit_percent d, pi_mem_limit_percent = sp_mem_limit_percent d,
      pi_log_level = sp_log_level d\<rparr>)"

definition into_params :: "spec_params_input \<Rightarrow> spec_params option \<Rightarrow> (gse_error, spec_params) result" where
  "into_params i existing =
     (case merge_secret (pi_otlp_token i) (Option.bind existing sp_otlp_token) ''otlp_token'' of
        Inl e \<Rightarrow> Inl e
      | Inr otlp_token \<Rightarrow>
     (case merge_secret (pi_token i) (Option.bind existing sp_token) ''token'' of
        Inl e \<Rightarrow> Inl e
      | Inr token \<Rightarrow>
          Inr \<lparr>sp_heartbeat_interval_secs = pi_heartbeat_interval_secs i,
            sp_allowed_interpreters = pi_allowed_interpreters i,
            sp_job_default_interpreter = pi_job_default_interpreter i,
            sp_max_concurrent_jobs = pi_max_concurrent_jobs i, sp_job_work_dir = pi_job_work_dir i,
            sp_otlp_enabled = pi_otlp_enabled i, sp_otlp_listen = pi_otlp_listen i,
            sp_otlp_max_body_bytes = pi_otlp_max_body_bytes i, sp_otlp_token = otlp_token,
            sp_otlp_allowed_cidrs = pi_otlp_allowed_cidrs i, sp_token = token,
            sp_cpu_limit_percent = pi_cpu_limit_percent i,
            sp_mem_limit_percent = pi_mem_limit_percent i, sp_log_level = pi_log_level i\<rparr>))"

section \<open>Collect items\<close>

record spec_item_input =
  ii_item_id :: string
  ii_name :: string
  ii_kind :: string
  ii_enabled :: bool
  ii_collector :: json
  ii_storage :: json

definition new_collect_item_id :: "int \<Rightarrow> nat \<Rightarrow> string" where
  "new_collect_item_id now n = ''item-'' @ int_dec now @ ''-'' @ nat_dec n"

definition json_non_empty_str :: "json \<Rightarrow> string \<Rightarrow> bool" where
  "json_non_empty_str v key =
     unwrap_or (map_option nonblank (Option.bind (json_get v key) as_str)) False"

definition json_non_empty_str_array :: "json \<Rightarrow> string \<Rightarrow> bool" where
  "json_non_empty_str_array v key =
     unwrap_or (map_option (list_ex (\<lambda>s. unwrap_or (map_option nonblank (as_str s)) False))
       (Option.bind (json_get v key) as_array)) False"

definition normalize_storage :: "json \<Rightarrow> json" where
  "normalize_storage v =
     (let days = unwrap_or (filter_opt (\<lambda>d. d > 0) (Option.bind (json_get v ''retention_days'') as_u64)) 1
      in jobj [(''retention_days'', jnat days)])"

text \<open>The range \<^verbatim>\<open>0.0..=1.0\<close> on \<^verbatim>\<open>as_f64\<close>: a float is its bit pattern, and the negative zero is in it.\<close>

fun in_unit_range :: "json \<Rightarrow> bool option" where
  "in_unit_range (JNum (PosInt n)) = Some (n \<le> 1)"
| "in_unit_range (JNum (NegInt i)) = Some (i = 0)"
| "in_unit_range (JNum (Float w)) = Some (w \<le> 0x3FF0000000000000 \<or> w = 0x8000000000000000)"
| "in_unit_range _ = None"

definition strings_check :: "string \<Rightarrow> json \<Rightarrow> string \<Rightarrow> gse_error option" where
  "strings_check kind c key =
     (case json_get c key of None \<Rightarrow> None
      | Some v \<Rightarrow>
          (case as_array v of
             None \<Rightarrow> Some (bad_arg (kind @ '' '' @ key @ '' must be an array of strings''))
           | Some items \<Rightarrow>
               if list_ex (\<lambda>item. as_str item = None) items
               then Some (bad_arg (kind @ '' '' @ key @ '' must contain only strings'')) else None))"

definition ports_check :: "string \<Rightarrow> json \<Rightarrow> string \<Rightarrow> gse_error option" where
  "ports_check kind c key =
     (case json_get c key of None \<Rightarrow> None
      | Some v \<Rightarrow>
          (case as_array v of
             None \<Rightarrow> Some (bad_arg (kind @ '' '' @ key @ '' must be an array of ports''))
           | Some items \<Rightarrow>
               if list_ex (\<lambda>item. case as_u64 item of None \<Rightarrow> True | Some port \<Rightarrow> port > 65535) items
               then Some (bad_arg (kind @ '' '' @ key @ '' must contain ports within 0..=65535'')) else None))"

definition range_check :: "string \<Rightarrow> json \<Rightarrow> string \<Rightarrow> nat \<Rightarrow> nat \<Rightarrow> gse_error option" where
  "range_check kind c key lo hi =
     (case Option.bind (json_get c key) as_u64 of None \<Rightarrow> None
      | Some n \<Rightarrow>
          if n < lo \<or> n > hi
          then Some (bad_arg (kind @ '' '' @ key @ '' must be within '' @ nat_dec lo @ ''..='' @ nat_dec hi)) else None)"

definition ratio_check :: "string \<Rightarrow> json \<Rightarrow> gse_error option" where
  "ratio_check kind c =
     (if Option.bind (json_get c ''raw_events_sample_ratio'') in_unit_range = Some False
      then Some (bad_arg (kind @ '' raw_events_sample_ratio must be within 0..=1'')) else None)"

fun first_some :: "'a option list \<Rightarrow> 'a option" where
  "first_some [] = None"
| "first_some (None # xs) = first_some xs"
| "first_some (Some x # xs) = Some x"

definition kind_check :: "string \<Rightarrow> json \<Rightarrow> gse_error option" where
  "kind_check kind c =
     (if kind = ''log_file'' \<and> \<not> json_non_empty_str_array c ''path_patterns''
      then Some (bad_arg ''log_file requires non-empty path_patterns'')
      else if kind = ''apm_otlp'' then
        first_some (map (strings_check kind c)
            [''service_allowlist'', ''service_denylist'', ''attribute_allowlist''] @
          [range_check kind c ''batch_max_records'' 1 5000, range_check kind c ''flush_interval_secs'' 1 60])
      else if kind \<in> {''ebpf_network'', ''ebpf_tcp'', ''ebpf_process'', ''ebpf_syscall''} then
        first_some (map (strings_check kind c)
            [''cgroup_include'', ''cgroup_exclude'', ''process_include'', ''process_exclude''] @
          map (ports_check kind c) [''port_include'', ''port_exclude''] @
          [range_check kind c ''bucket_secs'' 1 60, range_check kind c ''flush_interval_secs'' 1 60,
           ratio_check kind c])
      else if kind = ''log_k8s_stdout'' then
        (if \<not> json_non_empty_str c ''namespace'' then Some (bad_arg ''log_k8s_stdout requires namespace'')
         else if \<not> json_non_empty_str c ''pod_name_pattern''
         then Some (bad_arg ''log_k8s_stdout requires pod_name_pattern'') else None)
      else None)"

text \<open>\<open>n\<close> is the process-wide counter of generated ids, a wrapping \<^verbatim>\<open>u64\<close>.\<close>

definition build_spec_item :: "int \<Rightarrow> spec_item_input \<Rightarrow> nat \<Rightarrow> (gse_error, spec_item) result \<times> nat" where
  "build_spec_item now i n =
     (if \<not> nonblank (ii_name i) then (Inl (missing_field ''name''), n)
      else if \<not> is_item_kind (ii_kind i) then (Inl (bad_arg (''unsupported kind: '' @ ii_kind i)), n)
      else (case kind_check (ii_kind i) (ii_collector i) of
          Some e \<Rightarrow> (Inl e, n)
        | None \<Rightarrow>
            (let fresh = \<not> nonblank (ii_item_id i)
             in (Inr \<lparr>si_item_id = (if fresh then new_collect_item_id now n else trim (ii_item_id i)),
                      si_name = trim (ii_name i), si_kind = ii_kind i, si_enabled = ii_enabled i,
                      si_collector = ii_collector i, si_storage = normalize_storage (ii_storage i)\<rparr>,
                 if fresh then (n + 1) mod 2 ^ 64 else n))))"

fun build_items :: "int \<Rightarrow> spec_item_input list \<Rightarrow> nat \<Rightarrow> (gse_error, spec_item list) result \<times> nat" where
  "build_items now [] n = (Inr [], n)"
| "build_items now (i # is) n =
     (case build_spec_item now i n of
        (Inl e, n') \<Rightarrow> (Inl e, n')
      | (Inr item, n') \<Rightarrow>
          (case build_items now is n' of
             (Inl e, n'') \<Rightarrow> (Inl e, n'') | (Inr items, n'') \<Rightarrow> (Inr (item # items), n'')))"

section \<open>The whole spec\<close>

definition DEFAULT_MAX_AGENT_HEARTBEAT_INTERVAL_SECS :: nat where
  "DEFAULT_MAX_AGENT_HEARTBEAT_INTERVAL_SECS = 30"

definition heartbeat_limit_secs :: "admin \<Rightarrow> nat" where
  "heartbeat_limit_secs a =
     unwrap_or (map_option max_agent_heartbeat_interval_secs (ad_cfg a)) DEFAULT_MAX_AGENT_HEARTBEAT_INTERVAL_SECS"

fun validate_items :: "string list \<Rightarrow> spec_item list \<Rightarrow> (gse_error, unit) result" where
  "validate_items seen [] = Inr ()"
| "validate_items seen (item # items) =
     (if \<not> nonblank (si_item_id item) then Inl (bad_arg ((''item_id '' @
     [CHR 0xE4, CHR 0xB8, CHR 0x8D, CHR 0xE5, CHR 0xBE, CHR 0x97, CHR 0xE4, CHR 0xB8, CHR 0xBA,
      CHR 0xE7, CHR 0xA9, CHR 0xBA])))
      else if si_item_id item \<in> set seen
      then Inl (bad_arg ((''item_id '' @
     [CHR 0xE9, CHR 0x87, CHR 0x8D, CHR 0xE5, CHR 0xA4, CHR 0x8D] @
     '': '') @ si_item_id item))
      else if \<not> is_item_kind (si_kind item)
      then Inl (bad_arg (''unsupported kind: '' @ si_kind item))
      else validate_items (seen @ [si_item_id item]) items)"

definition validate_spec :: "admin \<Rightarrow> agent_spec_wire \<Rightarrow> (gse_error, unit) result" where
  "validate_spec a spec =
     (let limit = heartbeat_limit_secs a; beat = sp_heartbeat_interval_secs (aw_params spec)
      in if beat = 0
         then Inl (bad_arg ((''heartbeat_interval_secs '' @
     [CHR 0xE5, CHR 0xBF, CHR 0x85, CHR 0xE9, CHR 0xA1, CHR 0xBB, CHR 0xE5, CHR 0xA4, CHR 0xA7,
      CHR 0xE4, CHR 0xBA, CHR 0x8E] @
     '' 0'')))
         else if beat > limit
         then Inl (bad_arg ((''heartbeat_interval_secs '' @
     [CHR 0xE4, CHR 0xB8, CHR 0x8D, CHR 0xE5, CHR 0xBE, CHR 0x97, CHR 0xE5, CHR 0xA4, CHR 0xA7,
      CHR 0xE4, CHR 0xBA, CHR 0x8E] @
     '' '') @ nat_dec limit @
           ([CHR 0xEF, CHR 0xBC, CHR 0x88, CHR 0xE5, CHR 0x88, CHR 0xA4, CHR 0xE6, CHR 0xB4, CHR 0xBB,
      CHR 0xE7, CHR 0xAA, CHR 0x97, CHR 0xE5, CHR 0x8F, CHR 0xA3] @
     '' heartbeat_timeout_secs/3 '' @
     [CHR 0xE7, CHR 0xA7, CHR 0x92, CHR 0xEF, CHR 0xBC, CHR 0x89])))
         else validate_items [] (aw_items spec))"

record spec_put_body =
  pb_params :: spec_params_input
  pb_items :: "spec_item_input list"

section \<open>Saving and pushing\<close>

definition sync_token :: "string \<Rightarrow> string option \<Rightarrow> unit led" where
  "sync_token k new_token =
     (case new_token of None \<Rightarrow> led_return ()
      | Some t \<Rightarrow>
          led_bind (agent_tokens k) (\<lambda>tk.
            case tk of None \<Rightarrow> led_return ()
            | Some (current, _) \<Rightarrow> if current = t then led_return () else rotate_agent_token k t))"

definition with_items :: "int \<Rightarrow> spec_item_input list \<Rightarrow> (spec_item list \<Rightarrow> 'b handler) \<Rightarrow> 'b handler" where
  "with_items now inputs f a =
     (case build_items now inputs (ad_item_seq a) of
        (Inl e, n) \<Rightarrow> (err_json 400 e, a\<lparr>ad_item_seq := n\<rparr>)
      | (Inr items, n) \<Rightarrow> f items (a\<lparr>ad_item_seq := n\<rparr>))"

definition save_spec ::
    "serde \<Rightarrow> (agent_spec_wire \<Rightarrow> string) \<Rightarrow> (string \<Rightarrow> string) \<Rightarrow> int \<Rightarrow> string \<Rightarrow> agent \<Rightarrow> agent_spec_wire \<Rightarrow>
     agent_spec_view handler" where
  "save_spec sj encw sha now k g spec =
     with_led as_internal (ledger_stamp now) (\<lambda>stamp.
       let desired = \<lparr>as_agent_id = k, as_revision = revision encw sha spec, as_spec = spec, as_updated_at = stamp\<rparr>
       in with_led as_internal (upsert_agent_spec sj desired) (\<lambda>_.
          with_led as_internal (sync_token k (sp_token (aw_params spec))) (\<lambda>_ a.
            let (st, lg) = get_agent_spec_state sj k (ad_led a);
                state = (case st of Inr s \<Rightarrow> s | Inl _ \<Rightarrow> None)
            in (http_ok (spec_view k (a_host_id g) (session_state_of a k) (Some desired) state), a\<lparr>ad_led := lg\<rparr>))))"

definition put_checked ::
    "serde \<Rightarrow> (agent_spec_wire \<Rightarrow> string) \<Rightarrow> (string \<Rightarrow> string) \<Rightarrow> int \<Rightarrow> string \<Rightarrow> spec_put_body \<Rightarrow> agent \<Rightarrow>
     agent_spec option \<Rightarrow> agent_spec_view handler" where
  "put_checked sj encw sha now k b g existing =
     (case into_params (pb_params b) (map_option (aw_params \<circ> as_spec) existing) of
        Inl e \<Rightarrow> answer (err_json 400 e)
      | Inr params \<Rightarrow>
          with_items now (pb_items b) (\<lambda>items a.
            let spec = \<lparr>aw_params = params, aw_items = items\<rparr>
            in case validate_spec a spec of
                 Inl e \<Rightarrow> (err_json 400 e, a)
               | Inr _ \<Rightarrow> save_spec sj encw sha now k g spec a))"

definition apply_reserved :: string where
  "apply_reserved = (''agent_id \"apply\" '' @
     [CHR 0xE6, CHR 0x98, CHR 0xAF, CHR 0xE4, CHR 0xBF, CHR 0x9D, CHR 0xE7, CHR 0x95, CHR 0x99,
      CHR 0xE5, CHR 0xAD, CHR 0x97])"

definition unregistered :: string where
  "unregistered = ('' '' @
     [CHR 0xE6, CHR 0x9C, CHR 0xAA, CHR 0xE7, CHR 0x99, CHR 0xBB, CHR 0xE8, CHR 0xAE, CHR 0xB0])"

definition put_agent_spec ::
    "serde \<Rightarrow> (agent_spec_wire \<Rightarrow> string) \<Rightarrow> (string \<Rightarrow> string) \<Rightarrow> int \<Rightarrow> string \<Rightarrow>
     (string, spec_put_body) result \<Rightarrow> agent_spec_view handler" where
  "put_agent_spec sj encw sha now k body =
     with_body body (\<lambda>b.
       if k = ''apply'' then answer (err_json 400 (bad_arg apply_reserved))
       else with_led as_internal (get_agent k) (\<lambda>g.
         case g of
           None \<Rightarrow> answer (err_json 404 (gse_err ''not_found'' (''agent '' @ k @ unregistered)))
         | Some g \<Rightarrow> with_led as_internal (get_agent_spec sj k) (put_checked sj encw sha now k b g)))"

definition apply_agent_spec ::
    "serde \<Rightarrow> (spec_item \<Rightarrow> string) \<Rightarrow> (nat \<Rightarrow> agent_spec_push \<Rightarrow> agent_spec_ack rpc) \<Rightarrow> int \<Rightarrow> string \<Rightarrow>
     agent_spec_ack handler" where
  "apply_agent_spec sj enc rpc now k a =
     (case ad_reg a of
        None \<Rightarrow> (err_json 503 (gse_err ''unavailable'' (([CHR 0xE7, CHR 0xAE, CHR 0xA1, CHR 0xE7, CHR 0x90, CHR 0x86, CHR 0xE7, CHR 0xAB, CHR 0xAF,
      CHR 0xE5, CHR 0x8F, CHR 0xA3, CHR 0xE7, CHR 0x8B, CHR 0xAC, CHR 0xE7, CHR 0xAB, CHR 0x8B,
      CHR 0xE9, CHR 0x83, CHR 0xA8, CHR 0xE7, CHR 0xBD, CHR 0xB2, CHR 0xEF, CHR 0xBC, CHR 0x8C,
      CHR 0xE6, CHR 0x97, CHR 0xA0, CHR 0xE4, CHR 0xBC, CHR 0x9A, CHR 0xE8, CHR 0xAF, CHR 0x9D,
      CHR 0xE6, CHR 0xB3, CHR 0xA8, CHR 0xE5, CHR 0x86, CHR 0x8C, CHR 0xE8, CHR 0xA1, CHR 0xA8,
      CHR 0xEF, CHR 0xBC, CHR 0x8C, CHR 0xE6, CHR 0x97, CHR 0xA0, CHR 0xE6, CHR 0xB3, CHR 0x95,
      CHR 0xE4, CHR 0xB8, CHR 0x8B, CHR 0xE5, CHR 0x8F, CHR 0x91]))), a)
      | Some reg \<Rightarrow>
          with_led (\<lambda>code. if code = ''not_found'' then 404 else if code = ''agent_offline'' then 409 else 500)
            (push_agent_spec sj enc rpc now reg k) (\<lambda>ack. answer (http_ok ack)) a)"

section \<open>Lemmas\<close>

lemma with_led_cases:
  assumes "with_led st m f a = (reply, a')"
  obtains (failed) e lg where "m (ad_led a) = (Inl e, lg)" "reply = err_json (st (ge_code e)) e" "a' = a\<lparr>ad_led := lg\<rparr>"
  | (ran) x lg where "m (ad_led a) = (Inr x, lg)" "f x (a\<lparr>ad_led := lg\<rparr>) = (reply, a')"
  using assms by (auto simp: with_led_def split: prod.splits sum.splits)

text \<open>Reads leave the tables alone.\<close>

lemma of_row_tab [simp]: "lg_tab (snd (of_row f r lg)) = lg_tab lg"
  by (simp add: of_row_def split: option.splits sum.splits)

lemma get_agent_spec_tab [simp]: "lg_tab (snd (get_agent_spec sj k lg)) = lg_tab lg"
  by (auto simp: get_agent_spec_def led_bind_def split: prod.splits sum.splits elim!: exec_sel_cases)

lemma get_agent_spec_state_tab [simp]: "lg_tab (snd (get_agent_spec_state sj k lg)) = lg_tab lg"
  by (auto simp: get_agent_spec_state_def led_bind_def split: prod.splits sum.splits elim!: exec_sel_cases)

lemma snd_eqD: "m = (x, lg) \<Longrightarrow> lg = snd m"
  by simp

text \<open>What a well-formed spec is.\<close>

definition item_wf :: "spec_item \<Rightarrow> bool" where
  "item_wf it \<longleftrightarrow> si_name it \<noteq> [] \<and> is_item_kind (si_kind it) \<and>
     kind_check (si_kind it) (si_collector it) = None \<and>
     (\<exists>d > 0. si_storage it = jobj [(''retention_days'', jnat d)])"

definition spec_wf :: "nat \<Rightarrow> agent_spec_wire \<Rightarrow> bool" where
  "spec_wf limit spec \<longleftrightarrow>
     0 < sp_heartbeat_interval_secs (aw_params spec) \<and> sp_heartbeat_interval_secs (aw_params spec) \<le> limit \<and>
     list_all item_wf (aw_items spec) \<and> list_all (nonblank \<circ> si_item_id) (aw_items spec) \<and>
     distinct (map si_item_id (aw_items spec))"

lemma normalize_storage_days: "\<exists>d > 0. normalize_storage v = jobj [(''retention_days'', jnat d)]"
  by (cases "filter_opt (\<lambda>d. d > 0) (Option.bind (json_get v ''retention_days'') as_u64)")
    (auto simp: normalize_storage_def Let_def filter_opt_def split: option.splits if_splits)

lemma build_spec_item_wf: "build_spec_item now i n = (Inr it, n') \<Longrightarrow> item_wf it"
  using normalize_storage_days [of "ii_storage i"]
  by (auto simp: build_spec_item_def item_wf_def nonblank_def Let_def split: if_splits option.splits)

lemma build_items_wf: "build_items now is n = (Inr items, n') \<Longrightarrow> list_all item_wf items"
  by (induction now "is" n arbitrary: items n' rule: build_items.induct)
    (auto split: prod.splits sum.splits dest: build_spec_item_wf)

lemma validate_items_iff:
  "validate_items seen items = Inr () \<longleftrightarrow>
     list_all (\<lambda>it. nonblank (si_item_id it) \<and> is_item_kind (si_kind it)) items \<and>
     distinct (map si_item_id items) \<and> set (map si_item_id items) \<inter> set seen = {}"
  by (induction seen items rule: validate_items.induct) auto

lemma spec_wf_validated:
  assumes "validate_spec a spec = Inr ()" "list_all item_wf (aw_items spec)"
  shows "spec_wf (heartbeat_limit_secs a) spec"
  using assms
  by (auto simp: validate_spec_def spec_wf_def Let_def validate_items_iff list_all_iff split: if_splits)

lemma heartbeat_limit_cong: "ad_cfg a = ad_cfg a' \<Longrightarrow> heartbeat_limit_secs a = heartbeat_limit_secs a'"
  by (simp add: heartbeat_limit_secs_def)

text \<open>The checks of a save before it writes, as one relation.\<close>

definition desired_spec :: "serde \<Rightarrow> ledger \<Rightarrow> string \<Rightarrow> agent_spec option" where
  "desired_spec sj lg k =
     (case select_first (\<lambda>r. text_eq r ''agent_id'' k) (lg_tab lg AgentSpecs) of None \<Rightarrow> None
      | Some r \<Rightarrow> (case row_to_agent_spec sj r of Inr s \<Rightarrow> Some s | Inl _ \<Rightarrow> None))"

lemma get_agent_spec_result:
  "fst (get_agent_spec sj k lg) = Inr x \<Longrightarrow> x = desired_spec sj lg k"
  by (cases "exec_sel AgentSpecs (select_first (\<lambda>r. text_eq r ''agent_id'' k)) lg")
    (auto simp: get_agent_spec_def led_bind_def desired_spec_def of_row_def
      split: option.splits sum.splits elim!: exec_sel_cases)

definition accepted_spec :: "admin \<Rightarrow> int \<Rightarrow> spec_put_body \<Rightarrow> spec_params option \<Rightarrow> agent_spec_wire \<Rightarrow> bool" where
  "accepted_spec a now b old spec \<longleftrightarrow> into_params (pb_params b) old = Inr (aw_params spec) \<and>
     (\<exists>n n'. build_items now (pb_items b) n = (Inr (aw_items spec), n')) \<and> validate_spec a spec = Inr ()"

lemma accepted_spec_led [simp]: "accepted_spec (a\<lparr>ad_led := lg\<rparr>) = accepted_spec a"
  by (intro ext) (simp add: accepted_spec_def validate_spec_def heartbeat_limit_secs_def)

lemma with_items_cases:
  assumes "with_items now is f a = (reply, a')"
  obtains (bad) e n where "reply = err_json 400 e" "a' = a\<lparr>ad_item_seq := n\<rparr>"
  | (built) items n where "build_items now is (ad_item_seq a) = (Inr items, n)"
      "f items (a\<lparr>ad_item_seq := n\<rparr>) = (reply, a')"
  using assms by (auto simp: with_items_def split: prod.splits sum.splits)

lemma put_checked_cases:
  assumes "put_checked sj encw sha now k b g old a = ((st, r), a')"
  obtains (refused) "st \<noteq> 200" "ad_led a' = ad_led a" "ad_reg a' = ad_reg a"
  | (saved) spec a1 where "save_spec sj encw sha now k g spec a1 = ((st, r), a')"
      "accepted_spec a now b (map_option (aw_params \<circ> as_spec) old) spec"
      "ad_led a1 = ad_led a" "ad_cfg a1 = ad_cfg a" "ad_reg a1 = ad_reg a"
proof (cases "into_params (pb_params b) (map_option (aw_params \<circ> as_spec) old)")
  case (Inl e)
  with assms show ?thesis by (intro refused) (auto simp: put_checked_def answer_def err_json_def)
next
  case (Inr p)
  with assms have "with_items now (pb_items b) (\<lambda>items a.
       case validate_spec a \<lparr>aw_params = p, aw_items = items\<rparr> of Inl e \<Rightarrow> (err_json 400 e, a)
       | Inr _ \<Rightarrow> save_spec sj encw sha now k g \<lparr>aw_params = p, aw_items = items\<rparr> a) a = ((st, r), a')"
    by (simp add: put_checked_def Let_def)
  then show ?thesis
  proof (cases rule: with_items_cases)
    case (bad e n)
    then show ?thesis by (intro refused) (auto simp: err_json_def)
  next
    case (built items n)
    let ?spec = "\<lparr>aw_params = p, aw_items = items\<rparr>" and ?a = "a\<lparr>ad_item_seq := n\<rparr>"
    show ?thesis
    proof (cases "validate_spec ?a ?spec")
      case (Inl e)
      with built show ?thesis by (intro refused) (auto simp: err_json_def)
    next
      case (Inr u)
      have "accepted_spec a now b (map_option (aw_params \<circ> as_spec) old) ?spec"
        using Inr built(1) \<open>into_params _ _ = Inr p\<close>
        by (auto simp: accepted_spec_def validate_spec_def heartbeat_limit_secs_def)
      then show ?thesis using Inr built(2) by (intro saved [of ?spec ?a]) simp_all
    qed
  qed
qed

lemma put_agent_spec_cases:
  assumes "put_agent_spec sj encw sha now k (Inr b) a = ((st, r), a')"
  obtains (refused) "st \<noteq> 200" "lg_tab (ad_led a') = lg_tab (ad_led a)" "ad_reg a' = ad_reg a"
  | (saved) g spec a1 where "save_spec sj encw sha now k g spec a1 = ((st, r), a')"
      "accepted_spec a now b (map_option (aw_params \<circ> as_spec) (desired_spec sj (ad_led a) k)) spec"
      "lg_tab (ad_led a1) = lg_tab (ad_led a)" "ad_cfg a1 = ad_cfg a" "ad_reg a1 = ad_reg a"
  using assms(1)
proof (simp only: put_agent_spec_def with_body_def sum.case split: if_splits)
  assume "answer (err_json 400 (bad_arg apply_reserved)) a = ((st, r), a')"
  then show ?thesis by (intro refused) (auto simp: answer_def err_json_def)
next
  assume "with_led as_internal (get_agent k) (\<lambda>g. case g of
      None \<Rightarrow> answer (err_json 404 (gse_err ''not_found'' (''agent '' @ k @ unregistered)))
    | Some g \<Rightarrow> with_led as_internal (get_agent_spec sj k) (put_checked sj encw sha now k b g)) a = ((st, r), a')"
  then show ?thesis
  proof (cases rule: with_led_cases)
    case (failed e lg)
    then show ?thesis by (intro refused) (auto simp: err_json_def dest: snd_eqD)
  next
    case (ran x lg)
    from ran(1) have lg: "lg_tab lg = lg_tab (ad_led a)" by (auto dest!: snd_eqD)
    show ?thesis
    proof (cases x)
      case None
      with ran(2) lg show ?thesis by (intro refused) (auto simp: answer_def err_json_def)
    next
      case (Some g)
      with ran(2) have "with_led as_internal (get_agent_spec sj k) (put_checked sj encw sha now k b g) (a\<lparr>ad_led := lg\<rparr>) =
        ((st, r), a')" by simp
      then show ?thesis
      proof (cases rule: with_led_cases)
        case (failed e lg')
        then show ?thesis using lg by (intro refused) (auto simp: err_json_def dest!: snd_eqD)
      next
        case checked: (ran old lg')
        from checked(1) lg have lg': "lg_tab lg' = lg_tab (ad_led a)" by (auto dest!: snd_eqD)
        have old: "old = desired_spec sj (ad_led a) k"
          using get_agent_spec_result [of sj k lg old] checked(1) lg by (simp add: desired_spec_def)
        show ?thesis
          by (rule put_checked_cases [OF checked(2)])
            (use lg' old in \<open>auto intro: refused saved\<close>)
      qed
    qed
  qed
qed

text \<open>What a save writes.\<close>

lemma exec_upd_Inr: "exec_upd t f lg = (Inr u, lg') \<Longrightarrow> lg_tab lg' = (lg_tab lg)(t := f (lg_tab lg t))"
  by (auto elim: exec_upd_cases)

lemma exec_upd_Inl: "exec_upd t f lg = (Inl e, lg') \<Longrightarrow> lg_tab lg' = lg_tab lg"
  by (auto elim: exec_upd_cases)

lemma agent_tokens_result: "agent_tokens k lg = (Inr tk, lg') \<Longrightarrow> tk = tokens_of lg k \<and> lg_tab lg' = lg_tab lg"
  by (auto simp: agent_tokens_def tokens_of_def elim: exec_sel_cases)

lemma tokens_of_cong: "lg_tab lg Agents = lg_tab lg' Agents \<Longrightarrow> tokens_of lg k = tokens_of lg' k"
  by (simp add: tokens_of_def)

lemma rotate_result:
  assumes "rotate_agent_token k t lg = (Inr u, lg')"
  shows "tokens_of lg' k = map_option (\<lambda>r. (t, field_opt_text r ''token'')) (agent_row lg k)"
proof -
  have "fst (rotate_agent_token k t lg) = Inr ()" "lg' = snd (rotate_agent_token k t lg)"
    using assms by simp_all
  then show ?thesis
    by (cases "agent_row lg k")
      (simp_all add: rotate_agent_token_def tokens_of_row agent_row_update field_text_def
        field_opt_text_def row_set_def)
qed

lemma sync_token_result:
  assumes "sync_token k (Some t) lg = (Inr u, lg')" "tokens_of lg k = Some (cur, prev)" "cur \<noteq> []"
  shows "tokens_of lg' k = Some (if t = cur then (cur, prev) else (t, Some cur))"
proof -
  obtain r where r: "agent_row lg k = Some r" "field_text r ''token'' = cur"
    using tokens_of_SomeD [OF assms(2)] by blast
  then have o: "field_opt_text r ''token'' = Some cur"
    using assms(3) by (auto simp: field_text_def field_opt_text_def split: sql_value.splits)
  obtain res lg1 where a: "agent_tokens k lg = (res, lg1)" by fastforce
  then obtain tk where tk: "res = Inr tk" using assms(1) by (auto simp: sync_token_def led_bind_def split: sum.splits)
  with a agent_tokens_result [of k lg tk lg1] assms(2)
  have tk': "tk = Some (cur, prev)" and tab: "lg_tab lg1 = lg_tab lg" by auto
  have row: "agent_row lg1 k = agent_row lg k" by (rule agent_row_tab) (simp add: tab)
  show ?thesis
  proof (cases "t = cur")
    case True
    with assms a tk tk' have "lg' = lg1" by (simp add: sync_token_def led_bind_def led_return_def)
    then show ?thesis using True assms(2) tokens_of_cong [of lg1 lg k] tab by simp
  next
    case False
    with assms(1) a tk tk' have "rotate_agent_token k t lg1 = (Inr u, lg')"
      by (simp add: sync_token_def led_bind_def)
    from rotate_result [OF this] show ?thesis using False r o row by simp
  qed
qed

lemma sync_token_specs: "lg_tab (snd (sync_token k t lg)) AgentSpecs = lg_tab lg AgentSpecs"
  by (auto simp: sync_token_def led_bind_def led_return_def rotate_agent_token_def update_agent_def
      agent_tokens_def exec_upd_tab split: option.splits prod.splits sum.splits elim!: exec_sel_cases)

lemma save_spec_cases:
  assumes "save_spec sj encw sha now k g spec a = ((st, r), a')"
  obtains (unsaved) "st = 500" "lg_tab (ad_led a') AgentSpecs = lg_tab (ad_led a) AgentSpecs"
  | (written) d where "st = 500 \<or> st = 200" "as_agent_id d = k" "as_spec d = spec" "as_revision d = revision encw sha spec"
      "lg_tab (ad_led a') AgentSpecs =
         upsert ''agent_id'' agent_spec_upd (agent_spec_params sj d) (lg_tab (ad_led a) AgentSpecs)"
      "st = 200 \<Longrightarrow> \<exists>lg1 lg2. lg_tab lg1 Agents = lg_tab (ad_led a) Agents \<and>
         sync_token k (sp_token (aw_params spec)) lg1 = (Inr (), lg2) \<and> lg_tab (ad_led a') = lg_tab lg2"
proof -
  obtain stamp lg0 where s0: "ledger_stamp now (ad_led a) = (Inr stamp, lg0)" "lg_tab lg0 = lg_tab (ad_led a)"
    by (simp add: ledger_stamp_def)
  let ?d = "\<lparr>as_agent_id = k, as_revision = revision encw sha spec, as_spec = spec, as_updated_at = stamp\<rparr>"
  let ?done = "\<lambda>_ a. let (st, lg) = get_agent_spec_state sj k (ad_led a);
                state = (case st of Inr s \<Rightarrow> s | Inl _ \<Rightarrow> None)
            in (http_ok (spec_view k (a_host_id g) (session_state_of a k) (Some ?d) state), a\<lparr>ad_led := lg\<rparr>)"
  have "with_led as_internal (upsert_agent_spec sj ?d)
      (\<lambda>_. with_led as_internal (sync_token k (sp_token (aw_params spec))) ?done) (a\<lparr>ad_led := lg0\<rparr>) = ((st, r), a')"
    using assms s0 by (simp add: save_spec_def with_led_step Let_def)
  then show ?thesis
  proof (cases rule: with_led_cases)
    case (failed e lg)
    then show ?thesis using s0(2)
      by (intro unsaved) (auto simp: err_json_def upsert_agent_spec_def dest!: exec_upd_Inl)
  next
    case up: (ran x lg)
    have t1: "lg_tab lg = (lg_tab (ad_led a))(AgentSpecs :=
        upsert ''agent_id'' agent_spec_upd (agent_spec_params sj ?d) (lg_tab (ad_led a) AgentSpecs))"
      using up(1) s0(2) by (auto simp: upsert_agent_spec_def dest!: exec_upd_Inr)
    from up(2) show ?thesis
    proof (cases rule: with_led_cases)
      case (failed e lg')
      then show ?thesis using t1 sync_token_specs [of k "sp_token (aw_params spec)" lg]
        by (intro written [of ?d]) (auto simp: err_json_def)
    next
      case sy: (ran y lg')
      obtain x1 x2 where g: "get_agent_spec_state sj k lg' = (x1, x2)" by fastforce
      then have "lg_tab x2 = lg_tab lg'" by (auto dest!: snd_eqD)
      then have "lg_tab (ad_led a') = lg_tab lg'" "st = 200"
        using sy(2) g by (auto simp: Let_def http_ok_def)
      moreover from this have "\<exists>lg1 lg2. lg_tab lg1 Agents = lg_tab (ad_led a) Agents \<and>
         sync_token k (sp_token (aw_params spec)) lg1 = (Inr (), lg2) \<and> lg_tab (ad_led a') = lg_tab lg2"
        using sy(1) t1 by (intro exI [of _ lg] exI [of _ lg']) simp
      ultimately show ?thesis using sy(1) t1 sync_token_specs [of k "sp_token (aw_params spec)" lg]
        by (intro written [of ?d]) simp_all
    qed
  qed
qed

section \<open>Properties\<close>

text \<open>The invariant of the table of desired specs.\<close>

definition specs_typed :: "serde \<Rightarrow> (agent_spec_wire \<Rightarrow> string) \<Rightarrow> (string \<Rightarrow> string) \<Rightarrow> nat \<Rightarrow> ledger \<Rightarrow> bool" where
  "specs_typed sj encw sha limit lg \<longleftrightarrow>
     (\<forall>r \<in> set (lg_tab lg AgentSpecs). \<exists>spec. r ''spec'' = SqlText (sj_spec sj spec) \<and>
        r ''revision'' = SqlText (revision encw sha spec) \<and> spec_wf limit spec)"

lemma specs_typed_cong:
  "lg_tab lg AgentSpecs = lg_tab lg' AgentSpecs \<Longrightarrow> specs_typed sj encw sha limit lg = specs_typed sj encw sha limit lg'"
  by (simp add: specs_typed_def)

lemma set_upsertD:
  assumes "r \<in> set (upsert k upd new rs)"
  obtains "r \<in> set rs" | "r = new" | old where "old \<in> set rs" "r = (\<lambda>c. if c \<in> set upd then new c else old c)"
  using assms by (auto simp: upsert_def update_where_def split: if_splits)

lemma specs_typed_upsert:
  assumes "specs_typed sj encw sha limit lg" "spec_wf limit (as_spec d)" "as_revision d = revision encw sha (as_spec d)"
    and "lg_tab lg' AgentSpecs =
         upsert ''agent_id'' agent_spec_upd (agent_spec_params sj d) (lg_tab lg AgentSpecs)"
  shows "specs_typed sj encw sha limit lg'"
  unfolding specs_typed_def
proof
  fix r
  assume "r \<in> set (lg_tab lg' AgentSpecs)"
  then have "r \<in> set (upsert ''agent_id'' agent_spec_upd (agent_spec_params sj d) (lg_tab lg AgentSpecs))"
    by (simp add: assms(4))
  then show "\<exists>spec. r ''spec'' = SqlText (sj_spec sj spec) \<and>
        r ''revision'' = SqlText (revision encw sha spec) \<and> spec_wf limit spec"
  proof (cases rule: set_upsertD)
    case 1
    then show ?thesis using assms(1) by (auto simp: specs_typed_def)
  qed (use assms(2,3) in \<open>auto simp: agent_spec_params_def row_of_def agent_spec_upd_def intro!: exI [of _ "as_spec d"]\<close>)
qed

lemma accepted_spec_wf: "accepted_spec a now b old spec \<Longrightarrow> spec_wf (heartbeat_limit_secs a) spec"
  by (auto simp: accepted_spec_def intro: spec_wf_validated dest: build_items_wf)

text \<open>C11: only well-formed specs are ever stored. Whatever is sent to the save route and whatever engine
  faults occur, every row of the table of desired specs keeps a spec whose heartbeat period is
  positive and within a third of the liveness window, whose items have distinct non-blank ids, a
  name, a known kind and admissible collector settings, and are retained for at least a day; and
  its revision is the fingerprint of that spec.\<close>

theorem stored_specs_well_formed:
  assumes "specs_typed sj encw sha (heartbeat_limit_secs a) (ad_led a)"
    and "put_agent_spec sj encw sha now k body a = (reply, a')"
  shows "specs_typed sj encw sha (heartbeat_limit_secs a) (ad_led a')"
proof (cases body)
  case (Inl e)
  then show ?thesis using assms by (simp add: put_agent_spec_def with_body_def)
next
  case (Inr b)
  obtain st r where reply: "reply = (st, r)" by force
  from assms(2) have "put_agent_spec sj encw sha now k (Inr b) a = ((st, r), a')" by (simp add: Inr reply)
  then show ?thesis
  proof (cases rule: put_agent_spec_cases)
    case refused
    then show ?thesis using assms(1) specs_typed_cong by metis
  next
    case (saved g spec a1)
    have wf: "spec_wf (heartbeat_limit_secs a) spec" using saved(2) by (rule accepted_spec_wf)
    have t1: "specs_typed sj encw sha (heartbeat_limit_secs a) (ad_led a1)"
      using assms(1) saved(3) specs_typed_cong [of "ad_led a1" "ad_led a"] by simp
    from saved(1) show ?thesis
    proof (cases rule: save_spec_cases)
      case unsaved
      then show ?thesis using t1 specs_typed_cong by metis
    next
      case (written d)
      then show ?thesis using specs_typed_upsert [OF t1, of d "ad_led a'"] wf by simp
    qed
  qed
qed

text \<open>C14: a refused save leaves no trace: whatever is wrong with the request (undecodable body, reserved
  or unknown agent, a mask standing for a secret that is not there, an inadmissible item, a heartbeat
  period out of range), an answer with a 4xx status means that no table has changed.\<close>

theorem put_refused_no_trace:
  assumes "put_agent_spec sj encw sha now k body a = ((st, r), a')" "400 \<le> st" "st < 500"
  shows "lg_tab (ad_led a') = lg_tab (ad_led a)"
proof (cases body)
  case (Inl e)
  then show ?thesis using assms by (simp add: put_agent_spec_def with_body_def)
next
  case (Inr b)
  from assms(1) have "put_agent_spec sj encw sha now k (Inr b) a = ((st, r), a')" by (simp add: Inr)
  then show ?thesis
  proof (cases rule: put_agent_spec_cases)
    case (saved g spec a1)
    from saved(1) assms(2,3) show ?thesis by (cases rule: save_spec_cases) auto
  qed simp
qed

text \<open>What a client sends that returns what it was shown.\<close>

definition echo_params :: "spec_params \<Rightarrow> spec_params_input" where
  "echo_params p =
     \<lparr>pi_heartbeat_interval_secs = sp_heartbeat_interval_secs p,
      pi_allowed_interpreters = sp_allowed_interpreters p,
      pi_job_default_interpreter = sp_job_default_interpreter p,
      pi_max_concurrent_jobs = sp_max_concurrent_jobs p, pi_job_work_dir = sp_job_work_dir p,
      pi_otlp_enabled = sp_otlp_enabled p, pi_otlp_listen = sp_otlp_listen p,
      pi_otlp_max_body_bytes = sp_otlp_max_body_bytes p, pi_otlp_token = Some (sp_otlp_token p),
      pi_otlp_allowed_cidrs = sp_otlp_allowed_cidrs p, pi_token = Some (sp_token p),
      pi_cpu_limit_percent = sp_cpu_limit_percent p, pi_mem_limit_percent = sp_mem_limit_percent p,
      pi_log_level = sp_log_level p\<rparr>"

lemma merge_masked: "merge_secret (Some (mask_secret v)) v field = Inr v"
  by (cases v) (auto simp: merge_secret_def mask_secret_def MASK_def)

text \<open>A view round-trips: sending back the parameters the view shows, secrets masked and any other
  field edited, keeps both secrets of the stored spec and takes every other field as sent.\<close>

lemma masked_view_roundtrip:
  "into_params (echo_params (edited\<lparr>sp_token := sp_token (mask_params p), sp_otlp_token := sp_otlp_token (mask_params p)\<rparr>))
     (Some p) = Inr (edited\<lparr>sp_token := sp_token p, sp_otlp_token := sp_otlp_token p\<rparr>)"
  by (simp add: into_params_def echo_params_def mask_params_def merge_masked)

lemma into_params_token:
  "into_params i ex = Inr p \<Longrightarrow> merge_secret (pi_token i) (Option.bind ex sp_token) ''token'' = Inr (sp_token p)"
  by (auto simp: into_params_def split: sum.splits)

text \<open>C27: a save with a new token rotates: afterwards the agent may authenticate with exactly the new token
  and the one current before the save. A token that was still in its grace period is dropped, so
  saving twice before the agent has fetched the first token locks out an agent that holds the oldest.\<close>

theorem put_rotates_token:
  assumes "put_agent_spec sj encw sha now k (Inr b) a = ((200, r), a')"
    and "pi_token (pb_params b) = Some (Some t)" "t \<noteq> MASK" "t \<noteq> []"
    and "tokens_of (ad_led a) k = Some (cur, prev)" "cur \<noteq> []" "t \<noteq> cur"
  shows "accepts (ad_led a') k x \<longleftrightarrow> x \<in> {t, cur}"
  using assms(1)
proof (cases rule: put_agent_spec_cases)
  case (saved g spec a1)
  have t: "sp_token (aw_params spec) = Some t"
    using saved(2) assms(2-4) by (auto simp: accepted_spec_def merge_secret_def dest!: into_params_token)
  from saved(1) show ?thesis
  proof (cases rule: save_spec_cases)
    case (written d)
    then obtain lg1 lg2 where l: "lg_tab lg1 Agents = lg_tab (ad_led a1) Agents"
      "sync_token k (Some t) lg1 = (Inr (), lg2)" "lg_tab (ad_led a') = lg_tab lg2"
      by (auto simp: t)
    have "tokens_of lg1 k = Some (cur, prev)"
      using tokens_of_cong [of lg1 "ad_led a"] l(1) saved(3) assms(5) by simp
    from sync_token_result [OF l(2) this assms(6)] tokens_of_cong [of "ad_led a'" lg2 k] l(3) assms(7)
    show ?thesis by (auto simp: accepts_def)
  qed simp
qed simp

section \<open>Witnesses\<close>

definition demo_admin :: admin where
  "demo_admin = \<lparr>ad_led = lk_led demo_link, ad_reg = None, ad_cfg = None, ad_password = [], ad_item_seq = 0\<rparr>"

definition demo_body :: "nat \<Rightarrow> spec_put_body" where
  "demo_body beat = \<lparr>pb_params = (echo_params default_spec_params)
      \<lparr>pi_heartbeat_interval_secs := beat, pi_token := Some (Some ''new'')\<rparr>,
     pb_items = [\<lparr>ii_item_id = ''i1'', ii_name = ''cpu'', ii_kind = ''metrics_host'', ii_enabled = True,
       ii_collector = JNull, ii_storage = JNull\<rparr>]\<rparr>"

abbreviation demo_put :: "nat \<Rightarrow> agent_spec_view http \<times> admin" where
  "demo_put beat \<equiv> put_agent_spec id_serde (\<lambda>_. ''w'') (\<lambda>s. s) 7 ''a1'' (Inr (demo_body beat)) demo_admin"

lemma demo_item_built:
  "\<exists>it. build_items 7 (pb_items (demo_body beat)) 0 = (Inr [it], 0) \<and> si_item_id it = ''i1'' \<and> si_kind it = ''metrics_host''"
proof -
  have "nonblank ''cpu''" "nonblank ''i1''" by code_simp+
  moreover have "trim ''i1'' = ''i1''" by code_simp
  ultimately show ?thesis
    by (simp add: demo_body_def build_spec_item_def is_item_kind_def kind_check_def)
qed

lemma demo_admin_agent:
  "get_agent ''a1'' (ad_led demo_admin) = (Inr (Some demo_agent), ad_led demo_admin)"
  "get_agent_spec id_serde ''a1'' (ad_led demo_admin) = (Inr None, ad_led demo_admin)"
  "lg_faults (ad_led demo_admin) = []"
  by (simp_all add: demo_admin_def demo_link_def empty_ledger_def get_agent_def exec_sel_ok select_first_def
      text_eq_def sql_params_agent_def row_of_def demo_agent_def row_to_agent_def field_text_def
      field_opt_text_def sql_opt_text_def get_agent_spec_def led_bind_def of_row_def)

lemma save_spec_ok:
  assumes "lg_faults (ad_led a) = []"
  shows "fst (fst (save_spec sj encw sha now k g spec a)) = 200"
proof -
  obtain stamp lg where l: "ledger_stamp now (ad_led a) = (Inr stamp, lg)" "lg_faults lg = []"
    using assms by (simp add: ledger_stamp_def)
  let ?d = "\<lparr>as_agent_id = k, as_revision = revision encw sha spec, as_spec = spec, as_updated_at = stamp\<rparr>"
  obtain lg1 where u: "upsert_agent_spec sj ?d lg = (Inr (), lg1)" "lg_faults lg1 = []"
    using l(2) by (simp add: upsert_agent_spec_def exec_upd_ok)
  have "\<exists>lg'. sync_token k t lg1 = (Inr (), lg')" for t
    using u(2) by (cases t) (auto simp: sync_token_def led_return_def rotate_agent_token_def update_agent_def
        exec_upd_ok led_bind_step [where m = "agent_tokens k", OF agent_tokens_ok] split: option.split)
  then obtain lg2 where t: "sync_token k (sp_token (aw_params spec)) lg1 = (Inr (), lg2)" by blast
  show ?thesis
    by (simp add: save_spec_def with_led_def l(1) Let_def u(1) t http_ok_def split: prod.split)
qed

lemma demo_put_status: "fst (fst (demo_put 30)) = 200" "fst (fst (demo_put 0)) = 400"
proof -
  obtain it where it: "build_items 7 (pb_items (demo_body beat)) (ad_item_seq demo_admin) = (Inr [it], 0)"
      "si_item_id it = ''i1''" "si_kind it = ''metrics_host''" for beat
    using demo_item_built by (auto simp: demo_admin_def demo_body_def)
  have n: "nonblank ''i1''" by code_simp
  have p: "\<exists>p. into_params (pb_params (demo_body beat)) None = Inr p \<and> sp_heartbeat_interval_secs p = beat" for beat
    by (simp add: demo_body_def into_params_def merge_secret_def MASK_def echo_params_def default_spec_params_def)
  have l: "heartbeat_limit_secs (demo_admin\<lparr>ad_item_seq := 0\<rparr>) = 30"
    by (simp add: demo_admin_def heartbeat_limit_secs_def DEFAULT_MAX_AGENT_HEARTBEAT_INTERVAL_SECS_def)
  note put = put_agent_spec_def with_body_def with_led_def demo_admin_agent put_checked_def with_items_def it validate_spec_def l n is_item_kind_def
  show "fst (fst (demo_put 30)) = 200"
    using p [of 30] demo_admin_agent(3) by (auto simp: put save_spec_ok)
  show "fst (fst (demo_put 0)) = 400"
    using p [of 0] by (auto simp: put err_json_def)
qed

lemma demo_admin_typed: "specs_typed sj encw sha n (ad_led demo_admin)"
  by (simp add: specs_typed_def demo_admin_def demo_link_def empty_ledger_def)

lemma stored_specs_well_formed_witness:
  "specs_typed id_serde (\<lambda>_. ''w'') (\<lambda>s. s) (heartbeat_limit_secs demo_admin) (ad_led (snd (demo_put 30)))"
  by (rule stored_specs_well_formed [OF demo_admin_typed prod.collapse [symmetric]])

lemma put_refused_no_trace_witness:
  "lg_tab (ad_led (snd (demo_put 0))) = lg_tab (ad_led demo_admin)"
proof -
  have "demo_put 0 = ((400, snd (fst (demo_put 0))), snd (demo_put 0))"
    using demo_put_status(2) by (simp add: prod_eq_iff)
  then show ?thesis by (rule put_refused_no_trace) simp_all
qed

lemma put_rotates_token_witness:
  "accepts (ad_led (snd (demo_put 30))) ''a1'' ''new'' \<and> accepts (ad_led (snd (demo_put 30))) ''a1'' ''old'' \<and>
   \<not> accepts (ad_led (snd (demo_put 30))) ''a1'' ''other''"
proof -
  have put: "demo_put 30 = ((200, snd (fst (demo_put 30))), snd (demo_put 30))"
    using demo_put_status(1) by (simp add: prod_eq_iff)
  have tk: "tokens_of (ad_led demo_admin) ''a1'' = Some (''old'', None)"
    using demo_link_facts(2) by (simp add: demo_admin_def)
  have "pi_token (pb_params (demo_body 30)) = Some (Some ''new'')" by (simp add: demo_body_def)
  note x = put_rotates_token [OF put this _ _ tk]
  show ?thesis by (simp add: x MASK_def)
qed

end
