(* ===== verification/Fsys.thy ===== *)
theory Fsys
  imports Btree
begin

text \<open>
  The part of \<^verbatim>\<open>std::fs\<close> and \<^verbatim>\<open>std::path\<close> the file components use. A location is the list of path
  components after dropping the empty ones and the dots and resolving \<^verbatim>\<open>..\<close> (there are no symbolic
  links); the tree maps locations to files and directories, and the root always is a directory.
  Every system call consumes one entry of a fault schedule and may fail with any error.
\<close>

datatype io_error = IoNotFound | IoDenied | IoExists | IoOther string

datatype node = NFile string | NDir

type_synonym loc = "string list"
type_synonym tree = "(loc, node) btmap"

record fsys =
  fs_tree :: tree
  fs_faults :: "io_error option list"

type_synonym 'a io = "fsys \<Rightarrow> (io_error, 'a) result \<times> fsys"

fun io_text :: "io_error \<Rightarrow> string" where
  "io_text IoNotFound = ''No such file or directory (os error 2)''"
| "io_text IoDenied = ''Permission denied (os error 13)''"
| "io_text IoExists = ''File exists (os error 17)''"
| "io_text (IoOther s) = s"

section \<open>Paths\<close>

definition comps :: "string \<Rightarrow> string list" where
  "comps p = filter (\<lambda>c. c \<noteq> [] \<and> c \<noteq> ''.'') (split_on (CHR ''/'') p)"

definition resolve :: "string list \<Rightarrow> loc" where
  "resolve cs = foldl (\<lambda>acc c. if c = ''..'' then butlast acc else acc @ [c]) [] cs"

definition loc_of :: "string \<Rightarrow> loc" where
  "loc_of p = resolve (comps p)"

definition is_absolute :: "string \<Rightarrow> bool" where
  "is_absolute p \<longleftrightarrow> starts_with p ''/''"

text \<open>A path that ends in a slash or a dot can only name a directory.\<close>

definition wants_dir :: "string \<Rightarrow> bool" where
  "wants_dir p \<longleftrightarrow> (let last_part = last (split_on (CHR ''/'') p) in last_part = [] \<or> last_part = ''.'')"

definition path_join :: "string \<Rightarrow> string \<Rightarrow> string" where
  "path_join a b = (if is_absolute b then b else if a = [] \<or> last a = CHR ''/'' then a @ b else a @ ''/'' @ b)"

text \<open>\<^verbatim>\<open>Path::file_name\<close>: the last component unless it is \<^verbatim>\<open>..\<close>.\<close>

definition path_file_name :: "string \<Rightarrow> string option" where
  "path_file_name p =
     (let cs = comps p in if cs = [] \<or> last cs = ''..'' then None else Some (last cs))"

section \<open>Looking up\<close>

definition node_at :: "tree \<Rightarrow> loc \<Rightarrow> node option" where
  "node_at t l = (if l = [] then Some NDir else bt_get t l)"

definition lookup :: "tree \<Rightarrow> string \<Rightarrow> node option" where
  "lookup t p =
     (case node_at t (loc_of p) of
        Some (NFile c) \<Rightarrow> if wants_dir p then None else Some (NFile c)
      | x \<Rightarrow> x)"

definition path_exists :: "fsys \<Rightarrow> string \<Rightarrow> bool" where
  "path_exists fs p \<longleftrightarrow> lookup (fs_tree fs) p \<noteq> None"

definition path_is_dir :: "fsys \<Rightarrow> string \<Rightarrow> bool" where
  "path_is_dir fs p \<longleftrightarrow> lookup (fs_tree fs) p = Some NDir"

definition path_is_file :: "fsys \<Rightarrow> string \<Rightarrow> bool" where
  "path_is_file fs p \<longleftrightarrow> (case lookup (fs_tree fs) p of Some (NFile c) \<Rightarrow> True | _ \<Rightarrow> False)"

section \<open>System calls\<close>

definition io_step :: "(tree \<Rightarrow> (io_error, 'a) result \<times> tree) \<Rightarrow> 'a io" where
  "io_step call fs =
     (case fs_faults fs of
        Some e # _ \<Rightarrow> (Inl e, fs\<lparr>fs_faults := tl (fs_faults fs)\<rparr>)
      | _ \<Rightarrow> (let (r, t) = call (fs_tree fs) in (r, \<lparr>fs_tree = t, fs_faults = tl (fs_faults fs)\<rparr>)))"

definition not_dir :: io_error where "not_dir = IoOther ''Not a directory (os error 20)''"
definition is_dir_error :: io_error where "is_dir_error = IoOther ''Is a directory (os error 21)''"

definition file_at :: "tree \<Rightarrow> loc \<Rightarrow> bool" where
  "file_at t l = (case node_at t l of Some (NFile _) \<Rightarrow> True | _ \<Rightarrow> False)"

definition miss_error :: "tree \<Rightarrow> loc \<Rightarrow> io_error" where
  "miss_error t l = (if list_ex (file_at t) (prefixes l) then not_dir else IoNotFound)"

definition parent_error :: "tree \<Rightarrow> loc \<Rightarrow> io_error option" where
  "parent_error t l =
     (if node_at t (butlast l) = Some NDir then None else Some (miss_error t (butlast l)))"

definition put_file :: "string \<Rightarrow> string \<Rightarrow> tree \<Rightarrow> (io_error, unit) result \<times> tree" where
  "put_file p content t =
     (let l = loc_of p in
      case parent_error t l of
        Some e \<Rightarrow> (Inl e, t)
      | None \<Rightarrow>
          if wants_dir p \<or> node_at t l = Some NDir then (Inl is_dir_error, t)
          else (Inr (), bt_insert l (NFile content) t))"

text \<open>Opening with \<^verbatim>\<open>create\<close>, \<^verbatim>\<open>write\<close> and \<^verbatim>\<open>truncate\<close>, and \<^verbatim>\<open>fs::write\<close>.\<close>

definition fs_create :: "string \<Rightarrow> unit io" where
  "fs_create p = io_step (put_file p [])"

definition fs_write :: "string \<Rightarrow> string \<Rightarrow> unit io" where
  "fs_write p content = io_step (put_file p content)"

definition fs_append :: "string \<Rightarrow> string \<Rightarrow> unit io" where
  "fs_append p bytes = io_step (\<lambda>t.
     case lookup t p of
       Some (NFile c) \<Rightarrow> (Inr (), bt_insert (loc_of p) (NFile (c @ bytes)) t)
     | Some NDir \<Rightarrow> (Inl is_dir_error, t)
     | None \<Rightarrow> (Inl (miss_error t (loc_of p)), t))"

definition fs_read :: "string \<Rightarrow> string io" where
  "fs_read p = io_step (\<lambda>t.
     (case lookup t p of
        Some (NFile c) \<Rightarrow> Inr c | Some NDir \<Rightarrow> Inl is_dir_error | None \<Rightarrow> Inl (miss_error t (loc_of p)), t))"

definition fs_metadata :: "string \<Rightarrow> node io" where
  "fs_metadata p = io_step (\<lambda>t. (case lookup t p of Some n \<Rightarrow> Inr n | None \<Rightarrow> Inl (miss_error t (loc_of p)), t))"

definition fs_rename :: "string \<Rightarrow> string \<Rightarrow> unit io" where
  "fs_rename a b = io_step (\<lambda>t.
     case lookup t a of
       None \<Rightarrow> (Inl (miss_error t (loc_of a)), t)
     | Some n \<Rightarrow>
         (case parent_error t (loc_of b) of
            Some e \<Rightarrow> (Inl e, t)
          | None \<Rightarrow>
              if wants_dir b \<or> node_at t (loc_of b) = Some NDir then (Inl is_dir_error, t)
              else (Inr (), bt_insert (loc_of b) n (bt_remove (loc_of a) t))))"

definition fs_remove_file :: "string \<Rightarrow> unit io" where
  "fs_remove_file p = io_step (\<lambda>t.
     case lookup t p of
       Some (NFile _) \<Rightarrow> (Inr (), bt_remove (loc_of p) t)
     | Some NDir \<Rightarrow> (Inl is_dir_error, t)
     | None \<Rightarrow> (Inl (miss_error t (loc_of p)), t))"

definition make_dirs :: "string list \<Rightarrow> unit io" where
  "make_dirs cs = io_step (\<lambda>t.
     let l = resolve cs; ups = filter (\<lambda>q. q \<noteq> []) (prefixes l)
     in if list_ex (file_at t) ups then (Inl (if file_at t l then IoExists else not_dir), t)
        else (Inr (), foldl (\<lambda>t q. if bt_get t q = None then bt_insert q NDir t else t) t ups))"

definition fs_create_dir_all :: "string \<Rightarrow> unit io" where
  "fs_create_dir_all p = make_dirs (comps p)"

text \<open>\<^verbatim>\<open>create_dir_all\<close> of \<^verbatim>\<open>Path::parent\<close>, which drops the last component.\<close>

definition fs_create_parents :: "string \<Rightarrow> unit io" where
  "fs_create_parents p = make_dirs (butlast (comps p))"

text \<open>
  Everything below the directory goes before the directory itself; when the path ends in a dot the
  last call, the removal of the directory under that name, is an error.
\<close>

definition fs_remove_dir_all :: "string \<Rightarrow> unit io" where
  "fs_remove_dir_all p = io_step (\<lambda>t.
     let l = loc_of p; below = filter (\<lambda>(q, _). \<not> strict_prefix l q) t
     in case lookup t p of
          None \<Rightarrow> (Inl (miss_error t l), t)
        | Some (NFile _) \<Rightarrow> (Inl not_dir, t)
        | Some NDir \<Rightarrow>
            if last (split_on (CHR ''/'') p) = ''.'' then (Inl (IoOther ''Invalid argument (os error 22)''), below)
            else (Inr (), bt_remove l below))"

text \<open>The names in a directory, in the order of the tree.\<close>

definition fs_read_dir :: "string \<Rightarrow> string list io" where
  "fs_read_dir p = io_step (\<lambda>t.
     (case lookup t p of
        Some NDir \<Rightarrow> Inr (map (\<lambda>(q, _). last q) (filter (\<lambda>(q, _). q \<noteq> [] \<and> butlast q = loc_of p) t))
      | Some (NFile _) \<Rightarrow> Inl not_dir
      | None \<Rightarrow> Inl (miss_error t (loc_of p)), t))"

section \<open>Lemmas\<close>

lemma io_step_ok: "fs_faults fs = [] \<Longrightarrow> call (fs_tree fs) = (r, t) \<Longrightarrow>
    io_step call fs = (r, \<lparr>fs_tree = t, fs_faults = []\<rparr>)"
  by (simp add: io_step_def)

lemma node_at_insert:
  "l \<noteq> [] \<Longrightarrow> node_at (bt_insert l n t) l' = (if l' = l then Some n else node_at t l')"
  by (simp add: node_at_def bt_get_insert)

lemma node_at_remove:
  "node_at (bt_remove l t) l' = (if l' = l \<and> l \<noteq> [] then None else node_at t l')"
  by (simp add: node_at_def bt_get_remove)

lemma split_on_append: "split_on d (a @ d # b) = split_on d a @ split_on d b"
proof (induction a)
  case Nil
  then show ?case by simp
next
  case (Cons c cs)
  then show ?case by (cases "split_on d cs") (auto simp: split_on_nonempty)
qed

lemma split_on_single: "d \<notin> set s \<Longrightarrow> split_on d s = [s]"
  by (induction s) auto

text \<open>A name that is one component of a path.\<close>

definition simple_name :: "string \<Rightarrow> bool" where
  "simple_name n \<longleftrightarrow> n \<noteq> [] \<and> n \<noteq> ''.'' \<and> n \<noteq> ''..'' \<and> CHR ''/'' \<notin> set n"

lemma comps_append: "comps (a @ CHR ''/'' # b) = comps a @ comps b"
  by (simp add: comps_def split_on_append)

lemma simple_not_absolute: "simple_name n \<Longrightarrow> \<not> is_absolute n"
  by (cases n) (auto simp: simple_name_def is_absolute_def starts_with_def)

lemma join_simple:
  assumes "simple_name n"
  shows "loc_of (path_join p n) = loc_of p @ [n]" "\<not> wants_dir (path_join p n)"
proof -
  have n: "split_on (CHR ''/'') n = [n]" "comps n = [n]"
    using assms by (auto simp: simple_name_def split_on_single comps_def)
  have "comps (path_join p n) = comps p @ [n] \<and> \<not> wants_dir (path_join p n)"
  proof (cases "p = []")
    case True
    then show ?thesis using assms n
      by (simp add: path_join_def simple_not_absolute comps_def wants_dir_def) (auto simp: simple_name_def)
  next
    case False
    show ?thesis
    proof (cases "last p = CHR ''/''")
      case True
      with False obtain q where q: "p = q @ [CHR ''/'']" by (metis append_butlast_last_id)
      have "split_on (CHR ''/'') [] = [[]]" by simp
      then have "comps p = comps q" by (simp add: q comps_append) (simp add: comps_def)
      then show ?thesis using assms n q
        by (simp add: path_join_def simple_not_absolute comps_append wants_dir_def split_on_append)
          (auto simp: simple_name_def)
    next
      case False
      then show ?thesis using assms n \<open>p \<noteq> []\<close>
        by (simp add: path_join_def simple_not_absolute comps_append wants_dir_def split_on_append)
          (auto simp: simple_name_def)
    qed
  qed
  then show "loc_of (path_join p n) = loc_of p @ [n]" "\<not> wants_dir (path_join p n)"
    using assms by (auto simp: loc_of_def resolve_def simple_name_def)
qed

lemma join_dot:
  "loc_of (path_join p ''.'') = loc_of p" "last (split_on (CHR ''/'') (path_join p ''.'')) = ''.''"
proof -
  have d: "comps ''.'' = []" "\<not> is_absolute ''.''" "split_on (CHR ''/'') ''.'' = [''.'']"
    by (simp_all add: comps_def is_absolute_def starts_with_def)
  have "comps (path_join p ''.'') = comps p \<and> last (split_on (CHR ''/'') (path_join p ''.'')) = ''.''"
  proof (cases "p = [] \<or> last p \<noteq> CHR ''/''")
    case True
    then show ?thesis using d by (auto simp: path_join_def comps_append split_on_append comps_def)
  next
    case False
    then obtain q where q: "p = q @ [CHR ''/'']" by (metis append_butlast_last_id)
    have e: "comps [] = []" by (simp add: comps_def)
    show ?thesis using d(2,3) d(1) comps_append [of q "''.''"] comps_append [of q "[]"]
      by (simp add: q path_join_def split_on_append e)
  qed
  then show "loc_of (path_join p ''.'') = loc_of p" "last (split_on (CHR ''/'') (path_join p ''.'')) = ''.''"
    by (simp_all add: loc_of_def)
qed

lemma lookup_join:
  "simple_name n \<Longrightarrow> lookup t (path_join p n) = bt_get t (loc_of p @ [n])"
  by (simp add: lookup_def join_simple node_at_def split: option.split node.split)

text \<open>What a call that returns normally has done.\<close>

lemma io_step_Inr:
  assumes "io_step call fs = (Inr x, fs')"
  shows "call (fs_tree fs) = (Inr x, fs_tree fs')"
  using assms by (auto simp: io_step_def Let_def split: list.splits option.splits prod.splits)

lemma fs_append_Inr:
  "fs_append p bytes fs = (Inr x, fs') \<Longrightarrow> \<exists>c. lookup (fs_tree fs) p = Some (NFile c) \<and>
     fs_tree fs' = bt_insert (loc_of p) (NFile (c @ bytes)) (fs_tree fs)"
  unfolding fs_append_def by (drule io_step_Inr) (auto split: option.splits node.splits)

lemma put_file_Inr:
  "put_file p c t = (Inr x, t') \<Longrightarrow> loc_of p \<noteq> [] \<and> t' = bt_insert (loc_of p) (NFile c) t \<and> \<not> wants_dir p"
  by (auto simp: put_file_def Let_def node_at_def split: option.splits if_splits)

lemma fs_create_Inr:
  "fs_create p fs = (Inr x, fs') \<Longrightarrow>
     loc_of p \<noteq> [] \<and> fs_tree fs' = bt_insert (loc_of p) (NFile []) (fs_tree fs) \<and> \<not> wants_dir p"
  unfolding fs_create_def by (drule io_step_Inr) (blast dest: put_file_Inr)

lemma fs_write_Inr:
  "fs_write p c fs = (Inr x, fs') \<Longrightarrow> fs_tree fs' = bt_insert (loc_of p) (NFile c) (fs_tree fs)"
  unfolding fs_write_def by (drule io_step_Inr) (blast dest: put_file_Inr)

lemma fs_rename_Inr:
  "fs_rename a b fs = (Inr x, fs') \<Longrightarrow> \<exists>n. lookup (fs_tree fs) a = Some n \<and>
     fs_tree fs' = bt_insert (loc_of b) n (bt_remove (loc_of a) (fs_tree fs)) \<and> loc_of b \<noteq> [] \<and> \<not> wants_dir b"
  unfolding fs_rename_def by (drule io_step_Inr) (auto simp: node_at_def split: option.splits if_splits)

lemma fs_read_ok:
  "fs_faults fs = [] \<Longrightarrow> lookup (fs_tree fs) p = Some (NFile c) \<Longrightarrow> fs_read p fs = (Inr c, fs)"
  by (cases fs) (simp add: fs_read_def io_step_def)

lemma remove_dir_all_outside:
  "\<not> prefix (loc_of p) l \<Longrightarrow> bt_get (fs_tree (snd (fs_remove_dir_all p fs))) l = bt_get (fs_tree fs) l"
proof -
  assume o: "\<not> prefix (loc_of p) l"
  have f: "map_of (filter (\<lambda>(q, _). P q) t) l = map_of t l" if "P l" for P and t :: tree
    using that by (induction t) auto
  show ?thesis using o
    by (auto simp: fs_remove_dir_all_def io_step_def Let_def bt_get_def bt_remove_def f strict_prefix_def
        split: list.splits option.splits prod.splits node.splits if_splits)
qed

end
