(* ===== verification/Job_File_Store.thy ===== *)
theory Job_File_Store
  imports Fsys Sql_Table
begin

text \<open>
  \<^verbatim>\<open>crates/gse-server-core/src/job_file_store.rs\<close>: the temporary files of jobs, one directory per file
  id under the root, with the content and a metadata file. SHA-256 (as a hex digest) and the
  encoding of the metadata are the parameters \<open>sha\<close> and \<open>jm\<close>; the clock \<open>now\<close> is an argument.
\<close>

record job_file_meta =
  jm_file_id :: string
  jm_file_name :: string
  jm_size_bytes :: nat
  jm_sha256 :: string
  jm_created_at :: string

record meta_serde =
  ms_enc :: "job_file_meta \<Rightarrow> string"
  ms_dec :: "string \<Rightarrow> (string, job_file_meta) result"

text \<open>The hasher holds the bytes it was fed.\<close>

record job_file_writer =
  jw_file_id :: string
  jw_file_name :: string
  jw_created_at :: string
  jw_tmp_path :: string
  jw_hasher :: string
  jw_size :: nat

type_synonym 'a stor = "fsys \<Rightarrow> (gse_error, 'a) result \<times> fsys"

definition st_return :: "'a \<Rightarrow> 'a stor" where
  "st_return x fs = (Inr x, fs)"

definition st_fail :: "gse_error \<Rightarrow> 'a stor" where
  "st_fail e fs = (Inl e, fs)"

definition st_bind :: "'a stor \<Rightarrow> ('a \<Rightarrow> 'b stor) \<Rightarrow> 'b stor" where
  "st_bind m f fs = (case m fs of (Inl e, fs') \<Rightarrow> (Inl e, fs') | (Inr x, fs') \<Rightarrow> f x fs')"

definition rpc_error :: "string \<Rightarrow> gse_error" where
  "rpc_error = gse_err ''rpc_error''"

text \<open>A system call of the store: any of its errors becomes \<open>rpc_error\<close>.\<close>

definition sys :: "'a io \<Rightarrow> 'a stor" where
  "sys call fs = (case call fs of (Inl e, fs') \<Rightarrow> (Inl (rpc_error (io_text e)), fs') | (Inr x, fs') \<Rightarrow> (Inr x, fs'))"

definition store_open :: "string \<Rightarrow> unit stor" where
  "store_open root = sys (fs_create_dir_all root)"

definition validate_id :: "string \<Rightarrow> (gse_error, unit) result" where
  "validate_id file_id =
     (if file_id = [] \<or> contains ''..'' file_id \<or> CHR ''/'' \<in> set file_id \<or> CHR 0x5C \<in> set file_id \<or>
         \<not> list_all (\<lambda>c. is_ascii_alnum c \<or> c = CHR ''.'' \<or> c = CHR ''_'' \<or> c = CHR ''-'') file_id
      then Inl (gse_err ''invalid_argument'' (''illegal file_id: '' @ file_id)) else Inr ())"

definition checked_id :: "string \<Rightarrow> unit stor" where
  "checked_id file_id fs = (validate_id file_id, fs)"

definition new_file_id :: "int \<Rightarrow> nat \<Rightarrow> string" where
  "new_file_id now seq = ''file-'' @ int_dec now @ ''-'' @ nat_dec seq"

definition begin_write :: "string \<Rightarrow> int \<Rightarrow> string \<Rightarrow> string \<Rightarrow> job_file_writer stor" where
  "begin_write root now file_id file_name =
     st_bind (checked_id file_id) (\<lambda>_.
       let dir = path_join root file_id; tmp = path_join dir ''content.tmp'' in
       st_bind (\<lambda>fs. if path_exists fs dir then sys (fs_remove_dir_all dir) fs else (Inr (), fs)) (\<lambda>_.
       st_bind (sys (fs_create_dir_all dir)) (\<lambda>_.
       st_bind (sys (fs_create tmp)) (\<lambda>_.
       st_return \<lparr>jw_file_id = file_id, jw_file_name = file_name, jw_created_at = int_dec now,
         jw_tmp_path = tmp, jw_hasher = [], jw_size = 0\<rparr>))))"

definition store_dir :: "string \<Rightarrow> string \<Rightarrow> string stor" where
  "store_dir root file_id = st_bind (checked_id file_id) (\<lambda>_. st_return (path_join root file_id))"

definition file_missing :: "string \<Rightarrow> gse_error" where
  "file_missing file_id = gse_err ''not_found'' (''file '' @ file_id @ '' not found'')"

definition store_head :: "meta_serde \<Rightarrow> string \<Rightarrow> string \<Rightarrow> job_file_meta stor" where
  "store_head ms root file_id =
     st_bind (store_dir root file_id) (\<lambda>dir.
     st_bind (\<lambda>fs. case fs_read (path_join dir ''meta.json'') fs of
         (Inl e, fs') \<Rightarrow> (Inl (if e = IoNotFound then file_missing file_id else rpc_error (io_text e)), fs')
       | (Inr raw, fs') \<Rightarrow> (Inr raw, fs')) (\<lambda>raw fs.
       case ms_dec ms raw of Inl e \<Rightarrow> (Inl (rpc_error e), fs) | Inr m \<Rightarrow> (Inr m, fs)))"

definition content_path :: "string \<Rightarrow> string \<Rightarrow> string stor" where
  "content_path root file_id =
     st_bind (store_dir root file_id) (\<lambda>dir fs.
       let path = path_join dir ''content'' in
       if path_is_file fs path then (Inr path, fs) else (Inl (file_missing file_id), fs))"

definition store_get :: "meta_serde \<Rightarrow> string \<Rightarrow> string \<Rightarrow> (job_file_meta \<times> string) stor" where
  "store_get ms root file_id =
     st_bind (store_head ms root file_id) (\<lambda>m.
     st_bind (content_path root file_id) (\<lambda>path.
     st_bind (sys (fs_read path)) (\<lambda>bytes. st_return (m, bytes))))"

definition store_delete :: "string \<Rightarrow> string \<Rightarrow> unit stor" where
  "store_delete root file_id =
     st_bind (store_dir root file_id) (\<lambda>dir fs.
       if path_exists fs dir then sys (fs_remove_dir_all dir) fs else (Inl (file_missing file_id), fs))"

text \<open>An entry that has no readable metadata is skipped; newest first, ties in directory order.\<close>

fun store_heads :: "meta_serde \<Rightarrow> string \<Rightarrow> string list \<Rightarrow> fsys \<Rightarrow> job_file_meta list \<times> fsys" where
  "store_heads ms root [] fs = ([], fs)"
| "store_heads ms root (n # ns) fs =
     (if \<not> path_is_dir fs (path_join root n) then store_heads ms root ns fs
      else
        (let (r, fs1) = store_head ms root n fs; (out, fs2) = store_heads ms root ns fs1
         in (case r of Inr m \<Rightarrow> m # out | Inl _ \<Rightarrow> out, fs2)))"

definition newest_first :: "job_file_meta list \<Rightarrow> job_file_meta list" where
  "newest_first ms = rev (sort_key jm_created_at (rev ms))"

definition store_list :: "meta_serde \<Rightarrow> string \<Rightarrow> job_file_meta list stor" where
  "store_list ms root fs =
     (case fs_read_dir root fs of
        (Inl IoNotFound, fs') \<Rightarrow> (Inr [], fs')
      | (Inl e, fs') \<Rightarrow> (Inl (rpc_error (io_text e)), fs')
      | (Inr names, fs') \<Rightarrow>
          (let (out, fs'') = store_heads ms root names fs' in (Inr (newest_first out), fs'')))"

definition cutoff :: "int \<Rightarrow> nat \<Rightarrow> int" where
  "cutoff now retain_secs = sat_sub_i64 now (sat_mul_i64 (u64_as_i64 retain_secs) 1000000)"

definition created_micros :: "job_file_meta \<Rightarrow> int" where
  "created_micros m = unwrap_or (parse_i64 (jm_created_at m)) 0"

definition list_unexpired :: "meta_serde \<Rightarrow> string \<Rightarrow> int \<Rightarrow> nat \<Rightarrow> job_file_meta list stor" where
  "list_unexpired ms root now retain_secs =
     st_bind (store_list ms root) (\<lambda>l.
       st_return (filter (\<lambda>m. created_micros m \<ge> cutoff now retain_secs) l))"

fun delete_old :: "string \<Rightarrow> int \<Rightarrow> job_file_meta list \<Rightarrow> nat \<Rightarrow> nat stor" where
  "delete_old root limit [] n = st_return n"
| "delete_old root limit (m # ms) n =
     (if created_micros m < limit
      then st_bind (store_delete root (jm_file_id m)) (\<lambda>_. delete_old root limit ms (n + 1))
      else delete_old root limit ms n)"

definition delete_expired :: "meta_serde \<Rightarrow> string \<Rightarrow> int \<Rightarrow> nat \<Rightarrow> nat stor" where
  "delete_expired ms root now retain_secs =
     st_bind (store_list ms root) (\<lambda>l. delete_old root (cutoff now retain_secs) l 0)"

section \<open>The writer\<close>

definition writer_write :: "string \<Rightarrow> job_file_writer \<Rightarrow> job_file_writer stor" where
  "writer_write bytes w =
     st_bind (sys (fs_append (jw_tmp_path w) bytes)) (\<lambda>_.
       st_return (w\<lparr>jw_hasher := jw_hasher w @ bytes, jw_size := jw_size w + length bytes\<rparr>))"

definition writer_finish ::
    "(string \<Rightarrow> string) \<Rightarrow> meta_serde \<Rightarrow> string \<Rightarrow> job_file_writer \<Rightarrow> job_file_meta stor" where
  "writer_finish sha ms root w =
     (let dir = path_join root (jw_file_id w);
          m = \<lparr>jm_file_id = jw_file_id w, jm_file_name = jw_file_name w, jm_size_bytes = jw_size w,
               jm_sha256 = sha (jw_hasher w), jm_created_at = jw_created_at w\<rparr>
      in st_bind (sys (fs_rename (jw_tmp_path w) (path_join dir ''content''))) (\<lambda>_.
         st_bind (sys (fs_write (path_join dir ''meta.json'') (ms_enc ms m))) (\<lambda>_. st_return m)))"

definition writer_abort :: "string \<Rightarrow> job_file_writer \<Rightarrow> fsys \<Rightarrow> fsys" where
  "writer_abort root w fs = snd (fs_remove_dir_all (path_join root (jw_file_id w)) fs)"

definition put_with_id ::
    "(string \<Rightarrow> string) \<Rightarrow> meta_serde \<Rightarrow> string \<Rightarrow> int \<Rightarrow> string \<Rightarrow> string \<Rightarrow> string \<Rightarrow> job_file_meta stor" where
  "put_with_id sha ms root now file_id file_name bytes =
     st_bind (begin_write root now file_id file_name) (\<lambda>w.
     st_bind (writer_write bytes w) (writer_finish sha ms root))"

section \<open>Lemmas\<close>

lemma st_bind_Inr:
  "st_bind m f fs = (Inr y, fs') \<longleftrightarrow> (\<exists>x fs1. m fs = (Inr x, fs1) \<and> f x fs1 = (Inr y, fs'))"
  by (auto simp: st_bind_def split: prod.splits sum.splits)

lemma st_bind_step: "m fs = (Inr x, fs1) \<Longrightarrow> st_bind m f fs = f x fs1"
  by (simp add: st_bind_def)

lemma sys_Inr: "sys call fs = (Inr x, fs') \<longleftrightarrow> call fs = (Inr x, fs')"
  by (auto simp: sys_def split: prod.splits sum.splits)

lemma checked_id_Inr: "checked_id k fs = (Inr x, fs') \<longleftrightarrow> validate_id k = Inr x \<and> fs' = fs"
  by (auto simp: checked_id_def)

lemma contains_self: "contains n n"
  by (cases n) simp_all

lemma valid_id_simple: "validate_id k = Inr x \<Longrightarrow> k \<noteq> ''.'' \<Longrightarrow> simple_name k"
  using contains_self [of "''..''"] by (auto simp: validate_id_def simple_name_def split: if_splits)

lemma simple_names [simp]:
  "simple_name ''content.tmp''" "simple_name ''content''" "simple_name ''meta.json''"
  by (simp_all add: simple_name_def)

abbreviation store_loc :: "string \<Rightarrow> string \<Rightarrow> string \<Rightarrow> loc" where
  "store_loc root k name \<equiv> loc_of root @ [k, name]"

lemma store_path:
  assumes "simple_name k" "simple_name n"
  shows "loc_of (path_join (path_join root k) n) = store_loc root k n"
    "lookup t (path_join (path_join root k) n) = bt_get t (store_loc root k n)"
  using assms by (simp_all add: join_simple lookup_join)

text \<open>The writer's file holds what its hasher was fed.\<close>

definition writer_at :: "string \<Rightarrow> fsys \<Rightarrow> job_file_writer \<Rightarrow> bool" where
  "writer_at root fs w \<longleftrightarrow> simple_name (jw_file_id w) \<and> jw_size w = length (jw_hasher w) \<and>
     jw_tmp_path w = path_join (path_join root (jw_file_id w)) ''content.tmp'' \<and>
     bt_get (fs_tree fs) (store_loc root (jw_file_id w) ''content.tmp'') = Some (NFile (jw_hasher w))"

lemma begin_write_at:
  assumes "begin_write root now k name fs = (Inr w, fs')" "k \<noteq> ''.''"
  shows "writer_at root fs' w" "jw_hasher w = []" "jw_file_id w = k" "jw_file_name w = name"
proof -
  obtain u where k: "simple_name k"
    using assms valid_id_simple by (auto simp: begin_write_def st_bind_Inr checked_id_Inr)
  obtain fs1 where c: "fs_create (path_join (path_join root k) ''content.tmp'') fs1 = (Inr (), fs')"
    and w: "w = \<lparr>jw_file_id = k, jw_file_name = name, jw_created_at = int_dec now,
         jw_tmp_path = path_join (path_join root k) ''content.tmp'', jw_hasher = [], jw_size = 0\<rparr>"
    using assms(1) by (auto simp: begin_write_def st_bind_Inr Let_def sys_Inr st_return_def)
  from fs_create_Inr [OF c] k show "writer_at root fs' w" "jw_hasher w = []" "jw_file_id w = k" "jw_file_name w = name"
    by (simp_all add: w writer_at_def bt_get_insert store_path)
qed

lemma writer_write_at:
  assumes "writer_write bytes w fs = (Inr w', fs')" "writer_at root fs w"
  shows "writer_at root fs' w'" "jw_hasher w' = jw_hasher w @ bytes" "jw_file_id w' = jw_file_id w"
    "jw_file_name w' = jw_file_name w"
proof -
  have a: "fs_append (jw_tmp_path w) bytes fs = (Inr (), fs')"
    and w': "w' = w\<lparr>jw_hasher := jw_hasher w @ bytes, jw_size := jw_size w + length bytes\<rparr>"
    using assms(1) by (auto simp: writer_write_def st_bind_Inr sys_Inr st_return_def)
  from fs_append_Inr [OF a] assms(2)
  show "writer_at root fs' w'" "jw_hasher w' = jw_hasher w @ bytes" "jw_file_id w' = jw_file_id w"
    "jw_file_name w' = jw_file_name w"
    by (auto simp: w' writer_at_def bt_get_insert store_path)
qed

definition stored :: "meta_serde \<Rightarrow> string \<Rightarrow> fsys \<Rightarrow> job_file_meta \<Rightarrow> string \<Rightarrow> bool" where
  "stored ms root fs m bytes \<longleftrightarrow> simple_name (jm_file_id m) \<and>
     bt_get (fs_tree fs) (store_loc root (jm_file_id m) ''content'') = Some (NFile bytes) \<and>
     bt_get (fs_tree fs) (store_loc root (jm_file_id m) ''meta.json'') = Some (NFile (ms_enc ms m))"

lemma writer_finish_stored:
  assumes "writer_finish sha ms root w fs = (Inr m, fs')" "writer_at root fs w"
  shows "stored ms root fs' m (jw_hasher w)" "jm_sha256 m = sha (jw_hasher w)"
    "jm_size_bytes m = length (jw_hasher w)" "jm_file_id m = jw_file_id w" "jm_file_name m = jw_file_name w"
proof -
  let ?d = "path_join root (jw_file_id w)"
  from assms(1) obtain fs1 where r: "fs_rename (jw_tmp_path w) (path_join ?d ''content'') fs = (Inr (), fs1)"
    and wr: "fs_write (path_join ?d ''meta.json'') (ms_enc ms m) fs1 = (Inr (), fs')"
    and m: "m = \<lparr>jm_file_id = jw_file_id w, jm_file_name = jw_file_name w, jm_size_bytes = jw_size w,
               jm_sha256 = sha (jw_hasher w), jm_created_at = jw_created_at w\<rparr>"
    by (auto simp: writer_finish_def st_bind_Inr Let_def sys_Inr st_return_def)
  from fs_rename_Inr [OF r] fs_write_Inr [OF wr] assms(2)
  show "stored ms root fs' m (jw_hasher w)" "jm_sha256 m = sha (jw_hasher w)"
    "jm_size_bytes m = length (jw_hasher w)" "jm_file_id m = jw_file_id w" "jm_file_name m = jw_file_name w"
    by (auto simp: m writer_at_def stored_def store_path bt_get_insert)
qed

lemma store_dir_ok: "validate_id k = Inr () \<Longrightarrow> store_dir root k fs = (Inr (path_join root k), fs)"
  by (simp add: store_dir_def st_bind_def checked_id_def st_return_def)

lemma store_get_stored:
  assumes "stored ms root fs m bytes" "fs_faults fs = []" "ms_dec ms (ms_enc ms m) = Inr m"
    and "validate_id (jm_file_id m) = Inr ()"
  shows "store_head ms root (jm_file_id m) fs = (Inr m, fs)"
    "content_path root (jm_file_id m) fs = (Inr (path_join (path_join root (jm_file_id m)) ''content''), fs)"
    "store_get ms root (jm_file_id m) fs = (Inr (m, bytes), fs)"
proof -
  let ?k = "jm_file_id m"
  have k: "simple_name ?k" using assms(1) by (simp add: stored_def)
  have l: "lookup (fs_tree fs) (path_join (path_join root ?k) ''content'') = Some (NFile bytes)"
    "lookup (fs_tree fs) (path_join (path_join root ?k) ''meta.json'') = Some (NFile (ms_enc ms m))"
    using assms(1) k by (simp_all add: stored_def store_path)
  show h: "store_head ms root ?k fs = (Inr m, fs)"
    using fs_read_ok [OF assms(2) l(2)] assms(3,4) by (simp add: store_head_def st_bind_def store_dir_ok)
  show c: "content_path root ?k fs = (Inr (path_join (path_join root ?k) ''content''), fs)"
    using l(1) assms(4) by (simp add: content_path_def st_bind_def store_dir_ok path_is_file_def Let_def)
  show "store_get ms root ?k fs = (Inr (m, bytes), fs)"
    using fs_read_ok [OF assms(2) l(1)] by (simp add: store_get_def st_bind_def h c sys_def st_return_def)
qed

lemma begin_write_valid: "begin_write root now k name fs = (Inr w, fs') \<Longrightarrow> validate_id k = Inr ()"
  by (auto simp: begin_write_def st_bind_Inr checked_id_Inr)

section \<open>Properties\<close>

text \<open>C22: a stored file reads back: when storing bytes under an id reports success, reading that id returns
  exactly those bytes and the reported metadata, whose length and digest are those of the bytes.\<close>

theorem store_put_get:
  assumes "put_with_id sha ms root now k name bytes fs = (Inr m, fs')" "k \<noteq> ''.''"
    and "fs_faults fs' = []" "ms_dec ms (ms_enc ms m) = Inr m"
  shows "store_get ms root k fs' = (Inr (m, bytes), fs') \<and> jm_file_id m = k \<and> jm_file_name m = name \<and>
    jm_sha256 m = sha bytes \<and> jm_size_bytes m = length bytes"
proof -
  obtain w fs1 w' fs2 where b: "begin_write root now k name fs = (Inr w, fs1)"
    and wr: "writer_write bytes w fs1 = (Inr w', fs2)" and f: "writer_finish sha ms root w' fs2 = (Inr m, fs')"
    using assms(1) by (auto simp: put_with_id_def st_bind_Inr)
  note at = begin_write_at [OF b assms(2)]
  note at' = writer_write_at [OF wr at(1)]
  note st = writer_finish_stored [OF f at'(1)]
  have "validate_id (jm_file_id m) = Inr ()" using begin_write_valid [OF b] st(4) at'(3) at(3) by simp
  from store_get_stored(3) [OF st(1) assms(3,4) this] st at at' show ?thesis by simp
qed

text \<open>Deleting one file leaves all others alone, with one exception: the id of a single dot passes the
  validation and names the root, and deleting it removes every stored file.\<close>

lemma delete_scope:
  assumes "validate_id k = Inr ()" "fs_faults fs = []" "lookup (fs_tree fs) root = Some NDir"
    and "store_delete root k fs = (r, fs')"
  shows "if k = ''.'' then \<forall>l. strict_prefix (loc_of root) l \<longrightarrow> bt_get (fs_tree fs') l = None
    else \<forall>l. \<not> prefix (loc_of root @ [k]) l \<longrightarrow> bt_get (fs_tree fs') l = bt_get (fs_tree fs) l"
proof (cases "k = ''.''")
  case True
  have d: "loc_of (path_join root ''.'') = loc_of root" "last (split_on (CHR ''/'') (path_join root ''.'')) = ''.''"
    by (simp_all add: join_dot)
  have l: "lookup (fs_tree fs) (path_join root ''.'') = Some NDir"
    using assms(3) by (auto simp: lookup_def d split: option.splits node.splits if_splits)
  have "fs_tree fs' = filter (\<lambda>(q, _). \<not> strict_prefix (loc_of root) q) (fs_tree fs)"
    using assms(1,4) l
    by (auto simp: True store_delete_def st_bind_def store_dir_ok sys_def path_exists_def fs_remove_dir_all_def
        io_step_def assms(2) d Let_def split: if_splits prod.splits sum.splits)
  then show ?thesis by (auto simp: True bt_get_def map_of_eq_None_iff)
next
  case False
  then have k: "simple_name k" using valid_id_simple [OF assms(1)] by simp
  have "fs' = fs \<or> fs' = snd (fs_remove_dir_all (path_join root k) fs)"
    using assms(1,4) by (auto simp: store_delete_def st_bind_def store_dir_ok sys_def split: if_splits prod.splits sum.splits)
  then show ?thesis using False remove_dir_all_outside [of "path_join root k" _ fs] by (auto simp: join_simple k)
qed

section \<open>Witnesses\<close>

definition demo_meta :: job_file_meta where
  "demo_meta = \<lparr>jm_file_id = ''f1'', jm_file_name = ''n'', jm_size_bytes = 2, jm_sha256 = ''hi'', jm_created_at = ''5''\<rparr>"

definition demo_ms :: meta_serde where
  "demo_ms = \<lparr>ms_enc = jm_file_id, ms_dec = \<lambda>_. Inr demo_meta\<rparr>"

definition demo_fs :: fsys where
  "demo_fs = \<lparr>fs_tree = [([''r''], NDir)], fs_faults = []\<rparr>"

abbreviation demo_stored :: "(gse_error, job_file_meta) result \<times> fsys" where
  "demo_stored \<equiv> put_with_id (\<lambda>s. s) demo_ms ''r'' 5 ''f1'' ''n'' ''hi'' demo_fs"

lemma demo_stored_eval:
  "fst demo_stored = Inr demo_meta \<and> fs_faults (snd demo_stored) = []"
  by code_simp

lemma store_put_get_witness:
  "store_get demo_ms ''r'' ''f1'' (snd demo_stored) = (Inr (demo_meta, ''hi''), snd demo_stored)"
proof -
  have "demo_stored = (Inr demo_meta, snd demo_stored)"
    using demo_stored_eval by (simp add: prod_eq_iff)
  from store_put_get [OF this] show ?thesis using demo_stored_eval by (simp add: demo_ms_def)
qed

lemma delete_scope_witness:
  "bt_get (fs_tree (snd (store_delete ''r'' ''.'' (snd demo_stored)))) [''r'', ''f1'', ''content''] = None"
proof -
  have v: "validate_id ''.'' = Inr ()" "lookup (fs_tree (snd demo_stored)) ''r'' = Some NDir" by code_simp+
  have p: "loc_of ''r'' = [''r'']" by code_simp
  from delete_scope [OF v(1) conjunct2 [OF demo_stored_eval] v(2) prod.collapse [symmetric]]
  show ?thesis by (simp add: p strict_prefix_def)
qed

end
