(* ===== verification/File_Io.thy ===== *)
theory File_Io
  imports Fsys Proto
begin

text \<open>
  \<^verbatim>\<open>crates/gse-agent-core/src/file_io.rs\<close>: the agent's chunked reads and writes of files. A write
  session per job collects the chunks in a sidecar file that is renamed into place after the last
  one. SHA-256 (as hex digest) is \<open>sha\<close>, the base64 crate \<open>b64\<close> and \<open>unb64\<close>; \<open>got\<close> is how many bytes
  one \<^verbatim>\<open>Read::read\<close> delivers at an offset for a buffer of a length. Time is in seconds.
\<close>

record write_session =
  ws_path :: string
  ws_tmp_path :: string
  ws_hasher :: string
  ws_next_offset :: nat
  ws_last_write :: nat

record file_io =
  fi_writes :: "(string, write_session) btmap"
  fi_fs :: fsys

definition STALE_SECS :: nat where "STALE_SECS = 600"

fun io_code :: "io_error \<Rightarrow> string" where
  "io_code IoNotFound = ''not_found''"
| "io_code IoDenied = ''permission_denied''"
| "io_code IoExists = ''already_exists''"
| "io_code e = ''rpc_error: '' @ io_text e"

definition err_read :: "string \<Rightarrow> string \<Rightarrow> file_read_reply" where
  "err_read job e = \<lparr>rr_job_id = job, rr_size = 0, rr_offset = 0, rr_eof = False, rr_data_b64 = [],
     rr_chunk_sha256 = [], rr_file_sha256 = None, rr_error = Some e\<rparr>"

definition err_write :: "string \<Rightarrow> string \<Rightarrow> file_write_reply" where
  "err_write job e = \<lparr>wr_job_id = job, wr_written = 0, wr_eof = False, wr_file_sha256 = None, wr_error = Some e\<rparr>"

definition validate_abs_path :: "string \<Rightarrow> string option" where
  "validate_abs_path path =
     (if trim path = [] then Some ''invalid_argument: empty path''
      else if \<not> is_absolute path then Some ''invalid_argument: path must be absolute'' else None)"

definition sidecar_path :: "string \<Rightarrow> string \<Rightarrow> string" where
  "sidecar_path dest job = dest @ ''.gse-tmp-'' @ job"

section \<open>Reading\<close>

definition hash_file :: "(string \<Rightarrow> string) \<Rightarrow> string \<Rightarrow> string io" where
  "hash_file sha path fs = (let (r, fs') = fs_read path fs in (map_sum id sha r, fs'))"

text \<open>The bytes of one read, and the reply that carries them.\<close>

definition chunk_bytes :: "(nat \<Rightarrow> nat \<Rightarrow> nat) \<Rightarrow> file_read_req \<Rightarrow> nat \<Rightarrow> string \<Rightarrow> string" where
  "chunk_bytes got req fsize content =
     (let want = min (rq_length req) (fsize - rq_offset req)
      in take (got (rq_offset req) want) (take want (drop (rq_offset req) content)))"

definition chunk_reply :: "(string \<Rightarrow> string) \<Rightarrow> (string \<Rightarrow> string) \<Rightarrow> file_read_req \<Rightarrow> nat \<Rightarrow> string \<Rightarrow> file_read_reply" where
  "chunk_reply sha b64 req fsize buf =
     \<lparr>rr_job_id = rq_job_id req, rr_size = fsize, rr_offset = rq_offset req,
      rr_eof = (rq_offset req + length buf \<ge> fsize), rr_data_b64 = b64 buf, rr_chunk_sha256 = sha buf,
      rr_file_sha256 = None, rr_error = None\<rparr>"

definition read_chunk ::
    "(string \<Rightarrow> string) \<Rightarrow> (string \<Rightarrow> string) \<Rightarrow> (nat \<Rightarrow> nat \<Rightarrow> nat) \<Rightarrow> file_read_req \<Rightarrow> nat \<Rightarrow> fsys \<Rightarrow>
     file_read_reply \<times> fsys" where
  "read_chunk sha b64 got req fsize fs =
     (case fs_read (rq_path req) fs of
        (Inl e, fs1) \<Rightarrow> (err_read (rq_job_id req) (io_code e), fs1)
      | (Inr content, fs1) \<Rightarrow>
          (let reply = chunk_reply sha b64 req fsize (chunk_bytes got req fsize content)
           in if \<not> rr_eof reply then (reply, fs1)
              else (case hash_file sha (rq_path req) fs1 of
                  (Inl e, fs2) \<Rightarrow> (err_read (rq_job_id req) (io_code e), fs2)
                | (Inr h, fs2) \<Rightarrow> (reply\<lparr>rr_file_sha256 := Some h\<rparr>, fs2))))"

definition read_file ::
    "(string \<Rightarrow> string) \<Rightarrow> (string \<Rightarrow> string) \<Rightarrow> (nat \<Rightarrow> nat \<Rightarrow> nat) \<Rightarrow> file_read_req \<Rightarrow> fsys \<Rightarrow>
     file_read_reply \<times> fsys" where
  "read_file sha b64 got req fs =
     (let job = rq_job_id req in
      case validate_abs_path (rq_path req) of
        Some code \<Rightarrow> (err_read job code, fs)
      | None \<Rightarrow>
     (case fs_metadata (rq_path req) fs of
        (Inl e, fs1) \<Rightarrow> (err_read job (io_code e), fs1)
      | (Inr NDir, fs1) \<Rightarrow> (err_read job ''not_a_file'', fs1)
      | (Inr (NFile c), fs1) \<Rightarrow>
          (let fsize = length c in
           if rq_offset req = 0 \<and> rq_max_bytes req > 0 \<and> fsize > rq_max_bytes req then (err_read job ''file_too_large'', fs1)
           else if rq_offset req > fsize then (err_read job ''invalid_argument: offset past end'', fs1)
           else read_chunk sha b64 got req fsize fs1)))"

section \<open>Writing\<close>

definition drop_session :: "string \<Rightarrow> file_io \<Rightarrow> file_io" where
  "drop_session job s =
     (case bt_get (fi_writes s) job of None \<Rightarrow> s
      | Some w \<Rightarrow> s\<lparr>fi_writes := bt_remove job (fi_writes s), fi_fs := snd (fs_remove_file (ws_tmp_path w) (fi_fs s))\<rparr>)"

definition purge_stale :: "nat \<Rightarrow> file_io \<Rightarrow> file_io" where
  "purge_stale now s =
     foldl (\<lambda>s (job, _). drop_session job s) s
       (filter (\<lambda>(_, w). now - ws_last_write w > STALE_SECS) (fi_writes s))"

text \<open>The first chunk opens the session; \<^verbatim>\<open>create_dir_all\<close> is skipped for a parentless destination.\<close>

definition open_session :: "nat \<Rightarrow> string \<Rightarrow> string \<Rightarrow> file_io \<Rightarrow> (string, unit) result \<times> file_io" where
  "open_session now job dest s =
     (if path_exists (fi_fs s) dest
      then (Inl (if path_is_dir (fi_fs s) dest then ''not_a_file'' else ''already_exists''), s)
      else
        (case fs_create_parents dest (fi_fs s) of
           (Inl e, fs1) \<Rightarrow> (Inl (io_code e), s\<lparr>fi_fs := fs1\<rparr>)
         | (Inr _, fs1) \<Rightarrow>
             (let s2 = drop_session job (s\<lparr>fi_fs := fs1\<rparr>); tmp = sidecar_path dest job
              in case fs_create tmp (fi_fs s2) of
                   (Inl e, fs3) \<Rightarrow> (Inl (io_code e), s2\<lparr>fi_fs := fs3\<rparr>)
                 | (Inr _, fs3) \<Rightarrow>
                     (Inr (), s2\<lparr>fi_fs := fs3, fi_writes := bt_insert job
                        \<lparr>ws_path = dest, ws_tmp_path = tmp, ws_hasher = [], ws_next_offset = 0, ws_last_write = now\<rparr>
                        (fi_writes s2)\<rparr>))))"

definition same_path :: "string \<Rightarrow> string \<Rightarrow> bool" where
  "same_path p q \<longleftrightarrow> is_absolute p = is_absolute q \<and> comps p = comps q"

definition append_chunk :: "nat \<Rightarrow> string \<Rightarrow> write_session \<Rightarrow> string \<Rightarrow> file_io \<Rightarrow> (string, write_session) result \<times> file_io" where
  "append_chunk now job w bytes s =
     (if bytes = [] then (Inr w, s)
      else
        (case fs_append (ws_tmp_path w) bytes (fi_fs s) of
           (Inl e, fs1) \<Rightarrow> (Inl (io_code e), drop_session job (s\<lparr>fi_fs := fs1\<rparr>))
         | (Inr _, fs1) \<Rightarrow>
             (let w' = w\<lparr>ws_hasher := ws_hasher w @ bytes, ws_next_offset := ws_next_offset w + length bytes,
                 ws_last_write := now\<rparr>
              in (Inr w', s\<lparr>fi_fs := fs1, fi_writes := bt_insert job w' (fi_writes s)\<rparr>))))"

text \<open>After the last chunk: the digest is compared, the destination checked again, the sidecar renamed.\<close>

definition close_session ::
    "(string \<Rightarrow> string) \<Rightarrow> file_write_req \<Rightarrow> string \<Rightarrow> write_session \<Rightarrow> nat \<Rightarrow> file_io \<Rightarrow> file_write_reply \<times> file_io" where
  "close_session sha req dest w written s =
     (let job = wq_job_id req; digest = sha (ws_hasher w) in
      if (case wq_file_sha256 req of Some expected \<Rightarrow> expected \<noteq> digest | None \<Rightarrow> False)
      then (err_write job ''checksum_mismatch'', drop_session job s)
      else if path_exists (fi_fs s) dest then (err_write job ''already_exists'', drop_session job s)
      else
        (let s1 = s\<lparr>fi_writes := bt_remove job (fi_writes s)\<rparr> in
         case fs_rename (ws_tmp_path w) dest (fi_fs s1) of
           (Inl e, fs2) \<Rightarrow> (err_write job (io_code e), s1\<lparr>fi_fs := snd (fs_remove_file (ws_tmp_path w) fs2)\<rparr>)
         | (Inr _, fs2) \<Rightarrow>
             (\<lparr>wr_job_id = job, wr_written = written, wr_eof = True, wr_file_sha256 = Some digest, wr_error = None\<rparr>,
              s1\<lparr>fi_fs := fs2\<rparr>)))"

definition continue_write ::
    "(string \<Rightarrow> string) \<Rightarrow> nat \<Rightarrow> file_write_req \<Rightarrow> string \<Rightarrow> file_io \<Rightarrow> file_write_reply \<times> file_io" where
  "continue_write sha now req bytes s =
     (let job = wq_job_id req; dest = wq_path req in
      case bt_get (fi_writes s) job of
        None \<Rightarrow> (err_write job ''invalid_argument: write not started'', s)
      | Some w \<Rightarrow>
          if \<not> same_path (ws_path w) dest then (err_write job ''invalid_argument: path changed'', s)
          else if ws_next_offset w \<noteq> wq_offset req then
            (err_write job (''invalid_argument: expected offset '' @ nat_dec (ws_next_offset w) @ '' got '' @
               nat_dec (wq_offset req)), s)
          else
            (case append_chunk now job w bytes s of
               (Inl e, s1) \<Rightarrow> (err_write job e, s1)
             | (Inr w1, s1) \<Rightarrow>
                 if \<not> wq_eof req then
                   (\<lparr>wr_job_id = job, wr_written = length bytes, wr_eof = False, wr_file_sha256 = None, wr_error = None\<rparr>, s1)
                 else close_session sha req dest w1 (length bytes) s1))"

definition write_file ::
    "(string \<Rightarrow> string) \<Rightarrow> (string \<Rightarrow> string option) \<Rightarrow> nat \<Rightarrow> file_write_req \<Rightarrow> file_io \<Rightarrow> file_write_reply \<times> file_io" where
  "write_file sha unb64 now req s0 =
     (let s = purge_stale now s0; job = wq_job_id req in
      case validate_abs_path (wq_path req) of
        Some code \<Rightarrow> (err_write job code, s)
      | None \<Rightarrow>
     (case unb64 (wq_data_b64 req) of
        None \<Rightarrow> (err_write job ''invalid_argument: bad data_b64'', s)
      | Some bytes \<Rightarrow>
          if sha bytes \<noteq> wq_chunk_sha256 req \<and> \<not> (bytes = [] \<and> wq_chunk_sha256 req = [])
          then (err_write job ''checksum_mismatch'', s)
          else if wq_offset req = 0 then
            (case open_session now job (wq_path req) s of
               (Inl e, s1) \<Rightarrow> (err_write job e, s1)
             | (Inr _, s1) \<Rightarrow> continue_write sha now req bytes s1)
          else continue_write sha now req bytes s))"

definition handle_read ::
    "(string \<Rightarrow> string) \<Rightarrow> (string \<Rightarrow> string) \<Rightarrow> (nat \<Rightarrow> nat \<Rightarrow> nat) \<Rightarrow> (string, file_read_req) result \<Rightarrow> file_io \<Rightarrow>
     file_read_reply \<times> file_io" where
  "handle_read sha b64 got req s =
     (case req of
        Inl e \<Rightarrow> (err_read [] (''invalid_argument: '' @ e), s)
      | Inr r \<Rightarrow> (let (reply, fs) = read_file sha b64 got r (fi_fs s) in (reply, s\<lparr>fi_fs := fs\<rparr>)))"

definition handle_write ::
    "(string \<Rightarrow> string) \<Rightarrow> (string \<Rightarrow> string option) \<Rightarrow> nat \<Rightarrow> (string, file_write_req) result \<Rightarrow> file_io \<Rightarrow>
     file_write_reply \<times> file_io" where
  "handle_write sha unb64 now req s =
     (case req of
        Inl e \<Rightarrow> (err_write [] (''invalid_argument: '' @ e), s)
      | Inr r \<Rightarrow> write_file sha unb64 now r s)"

section \<open>Lemmas\<close>

text \<open>A write session that has collected the bytes \<open>b\<close> for a destination.\<close>

definition collecting :: "string \<Rightarrow> string \<Rightarrow> string \<Rightarrow> file_io \<Rightarrow> bool" where
  "collecting job dest b s \<longleftrightarrow>
     (\<exists>w. bt_get (fi_writes s) job = Some w \<and> ws_tmp_path w = sidecar_path dest job \<and> ws_hasher w = b \<and>
        ws_next_offset w = length b \<and>
        lookup (fs_tree (fi_fs s)) (sidecar_path dest job) = Some (NFile b))"

text \<open>No other session uses the sidecar file of this one.\<close>

definition apart :: "string \<Rightarrow> string \<Rightarrow> file_io \<Rightarrow> bool" where
  "apart job dest s \<longleftrightarrow>
     (\<forall>(job', w) \<in> set (fi_writes s). job' \<noteq> job \<longrightarrow> loc_of (ws_tmp_path w) \<noteq> loc_of (sidecar_path dest job))"

lemma lookup_cong: "bt_get t (loc_of p) = bt_get t' (loc_of p) \<Longrightarrow> lookup t p = lookup t' p"
  by (simp add: lookup_def node_at_def)

lemma lookup_insert: "loc_of p \<noteq> [] \<Longrightarrow> \<not> wants_dir p \<Longrightarrow> lookup (bt_insert (loc_of p) n t) p = Some n"
  by (simp add: lookup_def node_at_def bt_get_insert split: node.split)

lemma lookup_file: "lookup t p = Some (NFile c) \<Longrightarrow> loc_of p \<noteq> [] \<and> \<not> wants_dir p"
  by (auto simp: lookup_def node_at_def split: option.splits node.splits if_splits)

lemma remove_file_other:
  "loc_of p \<noteq> l \<Longrightarrow> bt_get (fs_tree (snd (fs_remove_file p fs))) l = bt_get (fs_tree fs) l"
  by (auto simp: fs_remove_file_def io_step_def bt_get_remove split: list.splits option.splits node.splits)

lemma drop_session_writes:
  "bt_get (fi_writes (drop_session j s)) k = (if k = j then None else bt_get (fi_writes s) k)"
  by (auto simp: drop_session_def bt_get_remove split: option.split)

lemma drop_session_set: "set (fi_writes (drop_session j s)) \<subseteq> set (fi_writes s)"
  by (auto simp: drop_session_def bt_remove_def split: option.split)

lemma apart_subset: "set (fi_writes s') \<subseteq> set (fi_writes s) \<Longrightarrow> apart job dest s \<Longrightarrow> apart job dest s'"
  by (auto simp: apart_def)

lemma drop_session_apart: "apart job dest s \<Longrightarrow> apart job dest (drop_session j s)"
  using apart_subset drop_session_set by blast

lemma drop_other_lookup:
  assumes "apart job dest s" "j \<noteq> job"
  shows "lookup (fs_tree (fi_fs (drop_session j s))) (sidecar_path dest job) =
    lookup (fs_tree (fi_fs s)) (sidecar_path dest job)"
proof (cases "bt_get (fi_writes s) j")
  case (Some w)
  then have "(j, w) \<in> set (fi_writes s)" by (auto dest: bt_get_SomeD)
  then have "loc_of (ws_tmp_path w) \<noteq> loc_of (sidecar_path dest job)" using assms by (auto simp: apart_def)
  then show ?thesis using Some
    by (simp add: drop_session_def) (intro lookup_cong remove_file_other)
qed (simp add: drop_session_def)

lemma drop_sessions_keep:
  assumes "apart job dest s" "collecting job dest b s" "\<forall>(j, w) \<in> set xs. j \<noteq> job"
  shows "collecting job dest b (foldl (\<lambda>s (j, _). drop_session j s) s xs)"
  using assms
proof (induction xs arbitrary: s)
  case (Cons x xs)
  obtain j w where x: "x = (j, w)" by force
  then have j: "j \<noteq> job" using Cons.prems(3) by auto
  have "collecting job dest b (drop_session j s)"
    using Cons.prems(1,2) j by (simp add: collecting_def drop_session_writes drop_other_lookup)
  then show ?case using Cons.IH [of "drop_session j s"] Cons.prems(1,3) drop_session_apart
    by (simp add: x)
qed simp

lemma drop_sessions_apart: "apart job dest s \<Longrightarrow> apart job dest (foldl (\<lambda>s (j, _). drop_session j s) s xs)"
  by (induction xs arbitrary: s) (auto simp: drop_session_apart split: prod.split)

lemma purge_apart: "apart job dest s \<Longrightarrow> apart job dest (purge_stale now s)"
  by (simp add: purge_stale_def drop_sessions_apart)

lemma drop_sessions_gone: "bt_get (fi_writes s) job = None \<Longrightarrow>
    bt_get (fi_writes (foldl (\<lambda>s (j, _). drop_session j s) s xs)) job = None"
  by (induction xs arbitrary: s) (auto simp: drop_session_writes split: prod.split)

lemma drop_sessions_in: "(job, w) \<in> set xs \<Longrightarrow>
    bt_get (fi_writes (foldl (\<lambda>s (j, _). drop_session j s) s xs)) job = None"
  by (induction xs arbitrary: s) (auto simp: drop_session_writes drop_sessions_gone split: prod.split)

text \<open>The purge keeps a session or ends it.\<close>

lemma purge_keeps:
  assumes "apart job dest s" "collecting job dest b s"
  shows "collecting job dest b (purge_stale now s) \<or> bt_get (fi_writes (purge_stale now s)) job = None"
proof (cases "\<exists>w. (job, w) \<in> set (filter (\<lambda>(_, w). now - ws_last_write w > STALE_SECS) (fi_writes s))")
  case True
  then obtain w where "(job, w) \<in> set (filter (\<lambda>(_, w). now - ws_last_write w > STALE_SECS) (fi_writes s))" by blast
  from drop_sessions_in [OF this] show ?thesis by (simp add: purge_stale_def)
next
  case False
  then show ?thesis unfolding purge_stale_def using assms by (intro disjI1 drop_sessions_keep) auto
qed

lemma open_session_collecting:
  assumes "open_session now job dest s = (Inr u, s')" "apart job dest s"
  shows "collecting job dest [] s'" "apart job dest s'"
proof -
  obtain fs1 where "fs_create_parents dest (fi_fs s) = (Inr (), fs1)"
    and o: "fs_create (sidecar_path dest job) (fi_fs (drop_session job (s\<lparr>fi_fs := fs1\<rparr>))) = (Inr (), fi_fs s')"
    and w: "fi_writes s' = bt_insert job \<lparr>ws_path = dest, ws_tmp_path = sidecar_path dest job, ws_hasher = [],
        ws_next_offset = 0, ws_last_write = now\<rparr> (fi_writes (drop_session job (s\<lparr>fi_fs := fs1\<rparr>)))"
    using assms(1) by (auto simp: open_session_def Let_def split: if_splits prod.splits sum.splits)
  have "apart job dest (s\<lparr>fi_fs := fs1\<rparr>)" using assms(2) by (simp add: apart_def)
  then have "apart job dest (drop_session job (s\<lparr>fi_fs := fs1\<rparr>))" by (rule drop_session_apart)
  then show "apart job dest s'"
    using set_bt_insert [of job "\<lparr>ws_path = dest, ws_tmp_path = sidecar_path dest job, ws_hasher = [],
        ws_next_offset = 0, ws_last_write = now\<rparr>" "fi_writes (drop_session job (s\<lparr>fi_fs := fs1\<rparr>))"]
    by (auto simp: apart_def w)
  show "collecting job dest [] s'"
    using fs_create_Inr [OF o] by (auto simp: collecting_def w bt_get_insert lookup_insert)
qed

lemma append_chunk_collecting:
  assumes "append_chunk now job w bytes s = (Inr w', s')" "bt_get (fi_writes s) job = Some w"
    and "collecting job dest b s" "apart job dest s"
  shows "collecting job dest (b @ bytes) s'" "apart job dest s'" "bt_get (fi_writes s') job = Some w'"
proof -
  have "collecting job dest (b @ bytes) s' \<and> apart job dest s' \<and> bt_get (fi_writes s') job = Some w'"
  proof (cases "bytes = []")
  case True
  then show ?thesis using assms by (auto simp: append_chunk_def)
next
  case False
  then obtain fs1 where a: "fs_append (ws_tmp_path w) bytes (fi_fs s) = (Inr (), fs1)"
    and w': "w' = w\<lparr>ws_hasher := ws_hasher w @ bytes, ws_next_offset := ws_next_offset w + length bytes,
                 ws_last_write := now\<rparr>"
    and s': "s' = s\<lparr>fi_fs := fs1, fi_writes := bt_insert job w' (fi_writes s)\<rparr>"
    using assms(1) by (auto simp: append_chunk_def Let_def split: prod.splits sum.splits)
  have w: "ws_tmp_path w = sidecar_path dest job" "ws_hasher w = b" "ws_next_offset w = length b"
    "lookup (fs_tree (fi_fs s)) (sidecar_path dest job) = Some (NFile b)"
    using assms(2,3) by (auto simp: collecting_def)
  from fs_append_Inr [OF a] w lookup_file [OF w(4)]
  have "collecting job dest (b @ bytes) s'"
    by (auto simp: collecting_def s' w' bt_get_insert lookup_insert)
  moreover have "apart job dest s'"
    using assms(4) set_bt_insert [of job w' "fi_writes s"] by (auto simp: apart_def s')
  ultimately show ?thesis by (simp add: s' bt_get_insert)
qed
  then show "collecting job dest (b @ bytes) s'" "apart job dest s'" "bt_get (fi_writes s') job = Some w'" by simp_all
qed

lemma close_session_done:
  assumes "close_session sha req dest w n s = (rep, s')" "wr_error rep = None" "apart job dest s"
    and "bt_get (fi_writes s) job = Some w" "wq_job_id req = job" "collecting job dest b s"
  shows "lookup (fs_tree (fi_fs s')) dest = Some (NFile b)" "apart job dest s'"
    "wq_file_sha256 req = Some h \<Longrightarrow> h = sha b"
proof -
  have w: "ws_tmp_path w = sidecar_path dest job" "ws_hasher w = b"
    "lookup (fs_tree (fi_fs s)) (sidecar_path dest job) = Some (NFile b)"
    using assms(4,6) by (auto simp: collecting_def)
  obtain fs2 where r: "fs_rename (sidecar_path dest job) dest (fi_fs s) = (Inr (), fs2)"
    and s': "s' = s\<lparr>fi_writes := bt_remove job (fi_writes s), fi_fs := fs2\<rparr>"
    and h: "wq_file_sha256 req = Some h \<longrightarrow> h = sha b" for h
    using assms(1,2,5) w
    by (auto simp: close_session_def Let_def err_write_def split: if_splits option.splits prod.splits sum.splits)
  from fs_rename_Inr [OF r] w(3) show "lookup (fs_tree (fi_fs s')) dest = Some (NFile b)"
    by (auto simp: s' lookup_insert)
  show "apart job dest s'" using assms(3) by (auto simp: apart_def s' bt_remove_def)
  show "wq_file_sha256 req = Some h \<Longrightarrow> h = sha b" using h by simp
qed

lemma continue_write_done:
  assumes "continue_write sha now req bytes s = (rep, s')" "wr_error rep = None" "apart job dest s"
    and "wq_job_id req = job" "wq_path req = dest" "bt_get (fi_writes s) job \<noteq> None \<longrightarrow> collecting job dest b s"
  shows "apart job dest s'" "\<not> wq_eof req \<Longrightarrow> collecting job dest (b @ bytes) s'"
    "wq_eof req \<Longrightarrow> lookup (fs_tree (fi_fs s')) dest = Some (NFile (b @ bytes))"
    "wq_eof req \<Longrightarrow> wq_file_sha256 req = Some h \<Longrightarrow> h = sha (b @ bytes)"
proof -
  obtain w w1 s1 where w: "bt_get (fi_writes s) job = Some w" and a: "append_chunk now job w bytes s = (Inr w1, s1)"
    and c: "if \<not> wq_eof req then rep = \<lparr>wr_job_id = job, wr_written = length bytes, wr_eof = False,
        wr_file_sha256 = None, wr_error = None\<rparr> \<and> s' = s1
      else close_session sha req dest w1 (length bytes) s1 = (rep, s')"
    using assms(1,2,4,5)
    by (auto simp: continue_write_def Let_def err_write_def split: option.splits if_splits prod.splits sum.splits)
  have "collecting job dest b s" using assms(6) w by simp
  note a' = append_chunk_collecting [OF a w this assms(3)]
  show "apart job dest s'" "\<not> wq_eof req \<Longrightarrow> collecting job dest (b @ bytes) s'"
    "wq_eof req \<Longrightarrow> lookup (fs_tree (fi_fs s')) dest = Some (NFile (b @ bytes))"
    "wq_eof req \<Longrightarrow> wq_file_sha256 req = Some h \<Longrightarrow> h = sha (b @ bytes)"
    using a' c close_session_done [OF _ assms(2) a'(2,3) assms(4) a'(1)] by (auto split: if_splits)
qed

text \<open>One accepted chunk: appended to what was collected, or the destination in place.\<close>

lemma write_file_done:
  assumes "write_file sha unb64 now req s = (rep, s')" "wr_error rep = None" "apart job dest s"
    and "wq_job_id req = job" "wq_path req = dest" "unb64 (wq_data_b64 req) = Some bytes"
    and "wq_offset req = length b" "b \<noteq> [] \<Longrightarrow> bt_get (fi_writes s) job \<noteq> None \<Longrightarrow> collecting job dest b s"
  shows "apart job dest s'" "\<not> wq_eof req \<Longrightarrow> collecting job dest (b @ bytes) s'"
    "wq_eof req \<Longrightarrow> lookup (fs_tree (fi_fs s')) dest = Some (NFile (b @ bytes))"
    "wq_eof req \<Longrightarrow> wq_file_sha256 req = Some h \<Longrightarrow> h = sha (b @ bytes)"
proof -
  let ?s = "purge_stale now s"
  have ap: "apart job dest ?s" using assms(3) by (rule purge_apart)
  have "\<exists>s1. continue_write sha now req bytes s1 = (rep, s') \<and> apart job dest s1 \<and>
      (bt_get (fi_writes s1) job \<noteq> None \<longrightarrow> collecting job dest b s1)"
  proof (cases "b = []")
    case True
    then obtain u s1 where "open_session now job dest ?s = (Inr u, s1)" "continue_write sha now req bytes s1 = (rep, s')"
      using assms(1,2,4-7)
      by (auto simp: write_file_def Let_def err_write_def split: option.splits if_splits prod.splits sum.splits)
    then show ?thesis using open_session_collecting [OF _ ap] True by blast
  next
    case False
    then have "continue_write sha now req bytes ?s = (rep, s')"
      using assms(1,2,4-7)
      by (auto simp: write_file_def Let_def err_write_def split: option.splits if_splits prod.splits sum.splits)
    moreover have "bt_get (fi_writes ?s) job \<noteq> None \<longrightarrow> collecting job dest b ?s"
    proof (cases "bt_get (fi_writes s) job")
      case None
      then show ?thesis by (simp add: purge_stale_def drop_sessions_gone)
    next
      case (Some w)
      then have "collecting job dest b s" using assms(8) [OF False] by simp
      from purge_keeps [OF assms(3) this, of now] show ?thesis by auto
    qed
    ultimately show ?thesis using ap by blast
  qed
  then obtain s1 where c: "continue_write sha now req bytes s1 = (rep, s')" "apart job dest s1"
    "bt_get (fi_writes s1) job \<noteq> None \<longrightarrow> collecting job dest b s1" by blast
  show "apart job dest s'" "\<not> wq_eof req \<Longrightarrow> collecting job dest (b @ bytes) s'"
    "wq_eof req \<Longrightarrow> lookup (fs_tree (fi_fs s')) dest = Some (NFile (b @ bytes))"
    "wq_eof req \<Longrightarrow> wq_file_sha256 req = Some h \<Longrightarrow> h = sha (b @ bytes)"
    by (rule continue_write_done [OF c(1) assms(2) c(2) assms(4,5) c(3)]; assumption)+
qed

lemma reads_keep_tree [simp]:
  "fs_tree (snd (fs_read p fs)) = fs_tree fs" "fs_tree (snd (fs_metadata p fs)) = fs_tree fs"
  by (auto simp: fs_read_def fs_metadata_def io_step_def split: list.splits option.splits)

lemma fs_reads_Inr:
  "fs_read p fs = (Inr c, fs') \<Longrightarrow> lookup (fs_tree fs) p = Some (NFile c) \<and> fs_tree fs' = fs_tree fs"
  "fs_metadata p fs = (Inr n, fs') \<Longrightarrow> lookup (fs_tree fs) p = Some n \<and> fs_tree fs' = fs_tree fs"
  unfolding fs_read_def fs_metadata_def
  by (drule io_step_Inr; auto split: option.splits node.splits)+

lemma hash_file_Inr:
  "hash_file sha p fs = (Inr h, fs') \<Longrightarrow> \<exists>c. lookup (fs_tree fs) p = Some (NFile c) \<and> h = sha c"
proof -
  assume "hash_file sha p fs = (Inr h, fs')"
  then obtain c where "fs_read p fs = (Inr c, fs')" "h = sha c"
    by (cases "fs_read p fs"; cases "fst (fs_read p fs)") (auto simp: hash_file_def)
  then show ?thesis using fs_reads_Inr(1) by blast
qed

lemma hash_file_tree [simp]: "fs_tree (snd (hash_file sha p fs)) = fs_tree fs"
  using reads_keep_tree(1) [of p fs] by (cases "fs_read p fs") (simp add: hash_file_def)

lemma tree_eqD: "m = (r, fs') \<Longrightarrow> fs_tree (snd m) = t \<Longrightarrow> fs_tree fs' = t"
  by simp

lemma read_chunk_tree [simp]: "fs_tree (snd (read_chunk sha b64 got req fsize fs)) = fs_tree fs"
proof -
  obtain r1 fs1 where r: "fs_read (rq_path req) fs = (r1, fs1)" by fastforce
  obtain r2 fs2 where h: "hash_file sha (rq_path req) fs1 = (r2, fs2)" by fastforce
  have "fs_tree fs1 = fs_tree fs" "fs_tree fs2 = fs_tree fs"
    using tree_eqD [OF r reads_keep_tree(1)] tree_eqD [OF h hash_file_tree] by simp_all
  then show ?thesis by (simp add: read_chunk_def r h Let_def split: sum.split)
qed

lemma read_file_tree [simp]: "fs_tree (snd (read_file sha b64 got req fs)) = fs_tree fs"
proof -
  obtain r1 fs1 where m: "fs_metadata (rq_path req) fs = (r1, fs1)" by fastforce
  have "fs_tree fs1 = fs_tree fs" using tree_eqD [OF m reads_keep_tree(2)] .
  then show ?thesis
    by (simp add: read_file_def m Let_def split: option.split sum.split node.split)
qed

text \<open>A chunk that is answered is a piece of the file as it is; the last one carries the file's digest.\<close>

lemma read_chunk_done:
  assumes "read_chunk sha b64 got req (length c) fs = (rep, fs')" "rr_error rep = None"
    and "lookup (fs_tree fs) (rq_path req) = Some (NFile c)"
  shows "\<exists>buf. buf = chunk_bytes got req (length c) c \<and> rr_size rep = length c \<and> rr_data_b64 rep = b64 buf \<and>
    rr_chunk_sha256 rep = sha buf \<and> rr_eof rep = (length c \<le> rq_offset req + length buf) \<and>
    (rr_eof rep \<longrightarrow> rr_file_sha256 rep = Some (sha c))"
proof -
  obtain c2 fs2 where r2: "fs_read (rq_path req) fs = (Inr c2, fs2)"
    using assms(1,2) by (auto simp: read_chunk_def err_read_def split: prod.splits sum.splits)
  from fs_reads_Inr(1) [OF r2] assms(3) have c2: "c2 = c" "fs_tree fs2 = fs_tree fs" by auto
  obtain buf where buf: "buf = chunk_bytes got req (length c) c" by simp
  note r = assms(1) [unfolded read_chunk_def r2 prod.case sum.case c2(1), folded buf]
  show ?thesis
  proof (cases "length c \<le> rq_offset req + length buf")
    case True
    then obtain h fs3 where h: "hash_file sha (rq_path req) fs2 = (Inr h, fs3)"
      and rep: "rep = (chunk_reply sha b64 req (length c) buf)\<lparr>rr_file_sha256 := Some h\<rparr>"
      using r assms(2) by (auto simp: chunk_reply_def Let_def err_read_def split: prod.splits sum.splits)
    have "h = sha c" using hash_file_Inr [OF h] assms(3) c2 by auto
    with rep True buf show ?thesis by (simp add: chunk_reply_def)
  next
    case False
    then have "rep = chunk_reply sha b64 req (length c) buf" using r by (simp add: chunk_reply_def Let_def)
    with False buf show ?thesis by (simp add: chunk_reply_def)
  qed
qed

lemma read_file_done:
  assumes "read_file sha b64 got req fs = (rep, fs')" "rr_error rep = None"
  shows "\<exists>c buf. lookup (fs_tree fs) (rq_path req) = Some (NFile c) \<and> rq_offset req \<le> length c \<and>
    buf = chunk_bytes got req (length c) c \<and> rr_size rep = length c \<and> rr_data_b64 rep = b64 buf \<and>
    rr_chunk_sha256 rep = sha buf \<and> rr_eof rep = (length c \<le> rq_offset req + length buf) \<and>
    (rr_eof rep \<longrightarrow> rr_file_sha256 rep = Some (sha c))"
proof -
  obtain c fs1 where m: "fs_metadata (rq_path req) fs = (Inr (NFile c), fs1)" and o: "rq_offset req \<le> length c"
    and r: "read_chunk sha b64 got req (length c) fs1 = (rep, fs')"
    using assms by (auto simp: read_file_def Let_def err_read_def split: option.splits if_splits prod.splits sum.splits node.splits)
  from fs_reads_Inr(2) [OF m] have c: "lookup (fs_tree fs) (rq_path req) = Some (NFile c)" "fs_tree fs1 = fs_tree fs" by auto
  from read_chunk_done [OF r assms(2)] c o show ?thesis by auto
qed

lemma chunk_bytes_drop:
  "offset = rq_offset req \<Longrightarrow> \<exists>rest. drop offset c = chunk_bytes got req (length c) c @ rest"
  by (simp add: chunk_bytes_def Let_def) (metis append_take_drop_id append.assoc)

end
