(* ===== verification/File_Transfer.thy ===== *)
theory File_Transfer
  imports Job_Server Job_File_Store File_Io
begin

text \<open>
  \<^verbatim>\<open>crates/gse-server-core/src/file_transfer.rs\<close>: submitting a file job, the three chunk pumps and the
  bookkeeping around them. The state is the server's registry, ledger and file store together with
  the file state of every agent, so that the pump's calls run the agent's own handlers
  (\<^verbatim>\<open>file_io.rs\<close>). Every call consumes a network step: its fate, what everybody else does before it
  (sessions come and go, files change) and the time it takes. The outer time limit of a transfer is
  the number of rounds of the pump it allows.
\<close>

section \<open>World\<close>

datatype fate = Delivered | Garbled string | Broken bool string | Overdue bool

fun fate_runs :: "fate \<Rightarrow> bool" where
  "fate_runs Delivered = True"
| "fate_runs (Garbled e) = True"
| "fate_runs (Broken arrived e) = arrived"
| "fate_runs (Overdue arrived) = arrived"

type_synonym outside = "registry \<times> (string \<Rightarrow> file_io)"

record net_step =
  ns_fate :: fate
  ns_mid :: "outside \<Rightarrow> outside"
  ns_micros :: nat

record world =
  tw_reg :: registry
  tw_led :: ledger
  tw_store :: fsys
  tw_agents :: "string \<Rightarrow> file_io"
  tw_clock :: nat
  tw_job_seq :: nat
  tw_net :: "net_step list"

record codec =
  cd_sha :: "string \<Rightarrow> string"
  cd_b64 :: "string \<Rightarrow> string"
  cd_unb64 :: "string \<Rightarrow> (string, string) result"
  cd_got :: "nat \<Rightarrow> nat \<Rightarrow> nat"
  cd_root :: string
  cd_meta :: meta_serde

type_synonym 'a tr = "world \<Rightarrow> (gse_error, 'a) result \<times> world"

definition tr_return :: "'a \<Rightarrow> 'a tr" where
  "tr_return x w = (Inr x, w)"

definition tr_fail :: "gse_error \<Rightarrow> 'a tr" where
  "tr_fail e w = (Inl e, w)"

definition tr_bind :: "'a tr \<Rightarrow> ('a \<Rightarrow> 'b tr) \<Rightarrow> 'b tr" where
  "tr_bind m f w = (case m w of (Inl e, w') \<Rightarrow> (Inl e, w') | (Inr x, w') \<Rightarrow> f x w')"

definition on_ledger :: "(int \<Rightarrow> 'a led) \<Rightarrow> 'a tr" where
  "on_ledger m w = (let (r, lg) = m (int (tw_clock w)) (tw_led w) in (r, w\<lparr>tw_led := lg\<rparr>))"

definition on_store :: "(int \<Rightarrow> 'a stor) \<Rightarrow> 'a tr" where
  "on_store m w = (let (r, fs) = m (int (tw_clock w)) (tw_store w) in (r, w\<lparr>tw_store := fs\<rparr>))"

definition quiet_step :: net_step where
  "quiet_step = \<lparr>ns_fate = Delivered, ns_mid = id, ns_micros = 0\<rparr>"

definition next_step :: "world \<Rightarrow> net_step" where
  "next_step w = (case tw_net w of [] \<Rightarrow> quiet_step | s # _ \<Rightarrow> s)"

text \<open>One call to agent \<open>k\<close>; \<open>h\<close> is the agent's handler, given its clock in seconds.\<close>

definition rpc :: "string \<Rightarrow> string \<Rightarrow> (nat \<Rightarrow> file_io \<Rightarrow> 'a \<times> file_io) \<Rightarrow> 'a tr" where
  "rpc method k h w =
     (let s = next_step w;
          (reg, agents) = ns_mid s (tw_reg w, tw_agents w);
          clock = tw_clock w + ns_micros s;
          (reply, fio) = h (clock div 1000000) (agents k);
          w' = w\<lparr>tw_reg := reg, tw_agents := (if fate_runs (ns_fate s) then agents(k := fio) else agents),
                 tw_clock := clock, tw_net := tl (tw_net w)\<rparr>
      in case ns_fate s of
           Delivered \<Rightarrow> (Inr reply, w')
         | Garbled e \<Rightarrow> (Inl (rpc_error e), w')
         | Broken _ e \<Rightarrow> (Inl (gse_err ''lost'' e), w')
         | Overdue _ \<Rightarrow> (Inl (rpc_error (method @ '' timed out'')), w'))"

section \<open>Calls of the pump\<close>

definition missing :: "string \<Rightarrow> gse_error" where
  "missing field = gse_err ''invalid_argument'' (''missing required field: '' @ field)"

definition validate_agent_path :: "string \<Rightarrow> (gse_error, unit) result" where
  "validate_agent_path path =
     (if trim path = [] then Inl (missing ''path'')
      else if \<not> is_absolute path then Inl (bad_arg ''path must be absolute'') else Inr ())"

definition list_primary :: "file_endpoint \<Rightarrow> file_endpoint \<Rightarrow> string" where
  "list_primary source dest =
     (case ep_agent_id dest of Some a \<Rightarrow> a | None \<Rightarrow> unwrap_or (ep_agent_id source) ''server'')"

definition basename :: "string \<Rightarrow> string" where
  "basename path = unwrap_or (filter_opt (\<lambda>s. s \<noteq> []) (path_file_name path)) ''file''"

definition require_online :: "registry \<Rightarrow> string \<Rightarrow> (gse_error, unit) result" where
  "require_online reg k =
     (case reg_get reg k of
        Some s \<Rightarrow> if se_state s = Online then Inr () else Inl (unavailable (''agent '' @ k @ '' not online''))
      | None \<Rightarrow> Inl (unavailable (''agent '' @ k @ '' not online'')))"

definition reply_err :: "string \<Rightarrow> gse_error" where
  "reply_err err =
     (let code = trim (hd (split_on (CHR '':'') err))
      in gse_err (if code = [] then ''rpc_error'' else code) err)"

definition online_session :: "string \<Rightarrow> unit tr" where
  "online_session k w =
     (case reg_get (tw_reg w) k of
        Some s \<Rightarrow> if se_state s = Online then (Inr (), w) else (Inl (gse_err ''lost'' (''agent '' @ k @ '' offline'')), w)
      | None \<Rightarrow> (Inl (gse_err ''lost'' (''agent '' @ k @ '' offline'')), w))"

text \<open>The allowance of one call, at most 30 seconds; only its being positive matters to the caller.\<close>

definition chunk_timeout :: "nat \<Rightarrow> nat tr" where
  "chunk_timeout deadline w =
     (if deadline - tw_clock w = 0 then (Inl (gse_err ''timeout'' ''transfer timed out''), w)
      else (Inr (min (deadline - tw_clock w) 30000000), w))"

definition file_read :: "codec \<Rightarrow> string \<Rightarrow> file_read_req \<Rightarrow> nat \<Rightarrow> file_read_reply tr" where
  "file_read c k req deadline =
     tr_bind (online_session k) (\<lambda>_.
     tr_bind (chunk_timeout deadline) (\<lambda>_.
     tr_bind (rpc ''file_read'' k (\<lambda>_. handle_read (cd_sha c) (cd_b64 c) (cd_got c) (Inr req))) (\<lambda>reply.
       case rr_error reply of Some e \<Rightarrow> tr_fail (reply_err e) | None \<Rightarrow> tr_return reply)))"

definition agent_unb64 :: "codec \<Rightarrow> string \<Rightarrow> string option" where
  "agent_unb64 c s = (case cd_unb64 c s of Inl _ \<Rightarrow> None | Inr b \<Rightarrow> Some b)"

definition file_write :: "codec \<Rightarrow> string \<Rightarrow> file_write_req \<Rightarrow> nat \<Rightarrow> file_write_reply tr" where
  "file_write c k req deadline =
     tr_bind (online_session k) (\<lambda>_.
     tr_bind (chunk_timeout deadline) (\<lambda>_.
     tr_bind (rpc ''file_write'' k (\<lambda>now. handle_write (cd_sha c) (agent_unb64 c) now (Inr req))) (\<lambda>reply.
       case wr_error reply of Some e \<Rightarrow> tr_fail (reply_err e) | None \<Rightarrow> tr_return reply)))"

definition decode_b64 :: "codec \<Rightarrow> string \<Rightarrow> string tr" where
  "decode_b64 c s = (case cd_unb64 c s of Inl e \<Rightarrow> tr_fail (bad_arg e) | Inr bytes \<Rightarrow> tr_return bytes)"

definition decoded_len :: "codec \<Rightarrow> string \<Rightarrow> nat tr" where
  "decoded_len c s = tr_bind (decode_b64 c s) (\<lambda>bytes. tr_return (length bytes))"

section \<open>The pumps\<close>

record transfer_outcome =
  to_file_name :: string
  to_file_bytes :: int
  to_file_sha256 :: string
  to_file_id :: "string option"

record xfer =
  x_job_id :: string
  x_src_agent :: string
  x_src_path :: string
  x_dst_agent :: string
  x_dst_path :: string
  x_chunk :: nat
  x_max_bytes :: nat
  x_deadline :: nat

text \<open>One round ends the loop (\<^term>\<open>Inr\<close>) or leaves a state for the next; no rounds left is a cut.\<close>

fun iterate :: "nat \<Rightarrow> ('s \<Rightarrow> ('s + 'o) tr) \<Rightarrow> 's \<Rightarrow> world \<Rightarrow> (gse_error, 'o) result option \<times> world" where
  "iterate 0 round st w = (None, w)"
| "iterate (Suc n) round st w =
     (case round st w of
        (Inl e, w') \<Rightarrow> (Some (Inl e), w')
      | (Inr (Inr out), w') \<Rightarrow> (Some (Inr out), w')
      | (Inr (Inl st'), w') \<Rightarrow> iterate n round st' w')"

definition mark_running_now :: "string \<Rightarrow> unit tr" where
  "mark_running_now job = on_ledger (\<lambda>now. mark_running job (int_dec now))"

definition too_large :: "nat \<Rightarrow> gse_error" where
  "too_large max_bytes = gse_err ''file_too_large'' (''file exceeds '' @ nat_dec max_bytes @ '' bytes'')"

definition empty_chunk :: gse_error where
  "empty_chunk = rpc_error ''empty chunk before eof''"

text \<open>The first chunk read marks the job running and fixes the size.\<close>

definition start_running :: "xfer \<Rightarrow> nat option \<Rightarrow> file_read_reply \<Rightarrow> nat tr" where
  "start_running x running reply =
     (case running of Some fsize \<Rightarrow> tr_return fsize
      | None \<Rightarrow>
          tr_bind (mark_running_now (x_job_id x)) (\<lambda>_.
            if rr_size reply > x_max_bytes x then tr_fail (too_large (x_max_bytes x)) else tr_return (rr_size reply)))"

definition read_req :: "xfer \<Rightarrow> nat \<Rightarrow> file_read_req" where
  "read_req x offset = \<lparr>rq_job_id = x_job_id x, rq_path = x_src_path x, rq_offset = offset,
     rq_length = x_chunk x, rq_max_bytes = x_max_bytes x\<rparr>"

definition write_req :: "xfer \<Rightarrow> nat \<Rightarrow> bool \<Rightarrow> string \<Rightarrow> string \<Rightarrow> string option \<Rightarrow> file_write_req" where
  "write_req x offset eof b64 chunk_sha sha = \<lparr>wq_job_id = x_job_id x, wq_path = x_dst_path x, wq_offset = offset,
     wq_eof = eof, wq_data_b64 = b64, wq_chunk_sha256 = chunk_sha, wq_file_sha256 = sha\<rparr>"

definition agent_to_agent_round ::
    "codec \<Rightarrow> xfer \<Rightarrow> nat \<times> nat option \<Rightarrow> (nat \<times> nat option + transfer_outcome) tr" where
  "agent_to_agent_round c x st =
     (let (offset, running) = st in
      tr_bind (file_read c (x_src_agent x) (read_req x offset) (x_deadline x)) (\<lambda>r.
      tr_bind (start_running x running r) (\<lambda>fsize.
      tr_bind (file_write c (x_dst_agent x) (write_req x offset (rr_eof r) (rr_data_b64 r) (rr_chunk_sha256 r)
          (if rr_eof r then rr_file_sha256 r else None)) (x_deadline x)) (\<lambda>_.
        if rr_eof r then
          tr_return (Inr \<lparr>to_file_name = basename (x_src_path x), to_file_bytes = u64_as_i64 fsize,
            to_file_sha256 = unwrap_or (rr_file_sha256 r) [], to_file_id = None\<rparr>)
        else
          tr_bind (decoded_len c (rr_data_b64 r)) (\<lambda>n.
            if n = 0 then tr_fail empty_chunk else tr_return (Inl (offset + n, Some fsize)))))))"

definition pump_agent_to_agent ::
    "codec \<Rightarrow> xfer \<Rightarrow> nat \<Rightarrow> world \<Rightarrow> (gse_error, transfer_outcome) result option \<times> world" where
  "pump_agent_to_agent c x rounds w = iterate rounds (agent_to_agent_round c x) (0, None) w"

text \<open>An error while receiving into the store aborts the writer.\<close>

definition or_abort :: "codec \<Rightarrow> job_file_writer \<Rightarrow> 'a tr \<Rightarrow> 'a tr" where
  "or_abort c wr m w =
     (case m w of
        (Inl e, w') \<Rightarrow> (Inl e, w'\<lparr>tw_store := writer_abort (cd_root c) wr (tw_store w')\<rparr>)
      | (Inr x, w') \<Rightarrow> (Inr x, w'))"

definition agent_to_temp_round ::
    "codec \<Rightarrow> xfer \<Rightarrow> nat \<times> nat option \<times> job_file_writer \<Rightarrow>
     (nat \<times> nat option \<times> job_file_writer + string \<times> job_file_writer) tr" where
  "agent_to_temp_round c x st =
     (let (offset, running, wr) = st in
      or_abort c wr
       (tr_bind (file_read c (x_src_agent x) (read_req x offset) (x_deadline x)) (\<lambda>r.
        tr_bind (start_running x running r) (\<lambda>fsize.
        tr_bind (decode_b64 c (rr_data_b64 r)) (\<lambda>bytes.
        tr_bind (on_store (\<lambda>_. writer_write bytes wr)) (\<lambda>wr'.
          if rr_eof r then tr_return (Inr (unwrap_or (rr_file_sha256 r) [], wr'))
          else if bytes = [] then tr_fail empty_chunk
          else tr_return (Inl (offset + length bytes, Some fsize, wr'))))))))"

definition finish_temp :: "codec \<Rightarrow> string \<Rightarrow> string \<Rightarrow> job_file_writer \<Rightarrow> transfer_outcome tr" where
  "finish_temp c dest_id sha wr =
     tr_bind (on_store (\<lambda>_. writer_finish (cd_sha c) (cd_meta c) (cd_root c) wr)) (\<lambda>m.
       if sha \<noteq> [] \<and> jm_sha256 m \<noteq> sha
       then (\<lambda>w. (Inl (gse_err ''checksum_mismatch'' ''checksum mismatch''),
               w\<lparr>tw_store := snd (store_delete (cd_root c) dest_id (tw_store w))\<rparr>))
       else tr_return \<lparr>to_file_name = jm_file_name m, to_file_bytes = u64_as_i64 (jm_size_bytes m),
              to_file_sha256 = jm_sha256 m, to_file_id = Some (jm_file_id m)\<rparr>)"

definition pump_agent_to_temp ::
    "codec \<Rightarrow> xfer \<Rightarrow> nat \<Rightarrow> world \<Rightarrow> (gse_error, transfer_outcome) result option \<times> world" where
  "pump_agent_to_temp c x rounds w =
     (let dest_id = ''file-'' @ x_job_id x in
      case on_store (\<lambda>now. begin_write (cd_root c) now dest_id (basename (x_src_path x))) w of
        (Inl e, w1) \<Rightarrow> (Some (Inl e), w1)
      | (Inr wr, w1) \<Rightarrow>
          (case iterate rounds (agent_to_temp_round c x) (0, None, wr) w1 of
             (None, w2) \<Rightarrow> (None, w2)
           | (Some (Inl e), w2) \<Rightarrow> (Some (Inl e), w2)
           | (Some (Inr (sha, wr')), w2) \<Rightarrow>
               (let (r, w3) = finish_temp c dest_id sha wr' w2 in (Some r, w3))))"

text \<open>The open file keeps its bytes; each read may fail and delivers at most one buffer.\<close>

definition temp_to_agent_round ::
    "codec \<Rightarrow> xfer \<Rightarrow> job_file_meta \<Rightarrow> string \<Rightarrow> nat \<Rightarrow> (nat + unit) tr" where
  "temp_to_agent_round c x m content offset =
     tr_bind (on_store (\<lambda>_. sys (io_step (\<lambda>t. (Inr (), t))))) (\<lambda>_.
       let bytes = take (cd_got c offset (x_chunk x)) (take (x_chunk x) (drop offset content));
           eof = (offset + length bytes \<ge> jm_size_bytes m)
       in tr_bind (file_write c (x_dst_agent x) (write_req x offset eof (cd_b64 c bytes) (cd_sha c bytes)
              (if eof then Some (jm_sha256 m) else None)) (x_deadline x)) (\<lambda>_.
            if eof then tr_return (Inr ())
            else if bytes = [] then tr_fail empty_chunk
            else tr_return (Inl (offset + length bytes))))"

definition pump_temp_to_agent ::
    "codec \<Rightarrow> xfer \<Rightarrow> string \<Rightarrow> nat \<Rightarrow> world \<Rightarrow> (gse_error, transfer_outcome) result option \<times> world" where
  "pump_temp_to_agent c x file_id rounds w =
     (case tr_bind (on_store (\<lambda>_. store_head (cd_meta c) (cd_root c) file_id)) (\<lambda>m.
           if jm_size_bytes m > x_max_bytes x then tr_fail (too_large (x_max_bytes x))
           else tr_bind (on_store (\<lambda>_. content_path (cd_root c) file_id)) (\<lambda>path.
                tr_bind (on_store (\<lambda>_. sys (fs_read path))) (\<lambda>content.
                tr_bind (mark_running_now (x_job_id x)) (\<lambda>_. tr_return (m, content))))) w of
        (Inl e, w1) \<Rightarrow> (Some (Inl e), w1)
      | (Inr (m, content), w1) \<Rightarrow>
          (case iterate rounds (temp_to_agent_round c x m content) 0 w1 of
             (None, w2) \<Rightarrow> (None, w2)
           | (Some (Inl e), w2) \<Rightarrow> (Some (Inl e), w2)
           | (Some (Inr _), w2) \<Rightarrow>
               (Some (Inr \<lparr>to_file_name = jm_file_name m, to_file_bytes = u64_as_i64 (jm_size_bytes m),
                  to_file_sha256 = jm_sha256 m, to_file_id = Some file_id\<rparr>), w2)))"

section \<open>Jobs\<close>

definition same_agent_path :: "file_endpoint \<Rightarrow> file_endpoint \<Rightarrow> bool" where
  "same_agent_path s d = (case (s, d) of (EpAgent a p, EpAgent b q) \<Rightarrow> a = b \<and> p = q | _ \<Rightarrow> False)"

definition both_temp :: "file_endpoint \<Rightarrow> file_endpoint \<Rightarrow> bool" where
  "both_temp s d = (case (s, d) of (EpServerTemp _, EpServerTemp _) \<Rightarrow> True | _ \<Rightarrow> False)"

definition temp_to_temp :: gse_error where
  "temp_to_temp = bad_arg ''copying between server temp files is not supported''"

definition transfer_job ::
    "codec \<Rightarrow> server_config \<Rightarrow> job_record \<Rightarrow> nat \<Rightarrow> world \<Rightarrow> (gse_error, transfer_outcome) result option \<times> world" where
  "transfer_job c cfg job rounds w =
     (case j_source job of None \<Rightarrow> (Some (Inl (missing ''source'')), w) | Some source \<Rightarrow>
     (case j_destination job of None \<Rightarrow> (Some (Inl (missing ''destination'')), w) | Some dest \<Rightarrow>
      (let x = \<lparr>x_job_id = j_job_id job, x_src_agent = unwrap_or (ep_agent_id source) [],
           x_src_path = unwrap_or (ep_path source) [], x_dst_agent = unwrap_or (ep_agent_id dest) [],
           x_dst_path = unwrap_or (ep_path dest) [], x_chunk = max (sc_job_file_chunk_bytes cfg) 1,
           x_max_bytes = sc_job_max_file_bytes cfg,
           x_deadline = tw_clock w + max (j_timeout_secs job) 1 * 1000000\<rparr>
       in case (source, dest) of
            (EpAgent _ _, EpAgent _ _) \<Rightarrow> pump_agent_to_agent c x rounds w
          | (EpAgent _ _, EpServerTemp _) \<Rightarrow> pump_agent_to_temp c x rounds w
          | (EpServerTemp file_id, EpAgent _ _) \<Rightarrow>
              (case file_id of None \<Rightarrow> (Some (Inl (missing ''source.file_id'')), w)
               | Some k \<Rightarrow> pump_temp_to_agent c x k rounds w)
          | (EpServerTemp _, EpServerTemp _) \<Rightarrow> (Some (Inl temp_to_temp), w))))"

definition status_result :: "string \<Rightarrow> job_status \<Rightarrow> string option \<Rightarrow> int \<Rightarrow> job_result" where
  "status_result job_id status error now =
     \<lparr>jr_job_id = job_id, jr_status = status, jr_exit_code = None, jr_signal = None, jr_stdout = [],
      jr_stdout_truncated = False, jr_stderr = [], jr_stderr_truncated = False, jr_started_at_micros = 0,
      jr_finished_at_micros = now, jr_error = error\<rparr>"

definition finish_job_status :: "string \<Rightarrow> job_status \<Rightarrow> string option \<Rightarrow> unit tr" where
  "finish_job_status job_id status error =
     on_ledger (\<lambda>now. finish_job (status_result job_id status error now) (int_dec now))"

definition failure_status :: "string \<Rightarrow> job_status" where
  "failure_status code = (if code = ''lost'' then Lost else if code = ''timeout'' then Timeout else Failed)"

text \<open>\<open>rounds\<close> is how many rounds of the pump fit into the job's time limit.\<close>

definition run_file_transfer :: "serde \<Rightarrow> codec \<Rightarrow> server_config \<Rightarrow> string \<Rightarrow> nat \<Rightarrow> world \<Rightarrow> world" where
  "run_file_transfer sj c cfg job_id rounds w =
     (case on_ledger (\<lambda>now. mark_dispatched job_id (int_dec now)) w of
        (Inl _, w1) \<Rightarrow> w1
      | (Inr _, w1) \<Rightarrow>
     (case on_ledger (\<lambda>_. get_job sj job_id) w1 of
        (Inl _, w2) \<Rightarrow> w2
      | (Inr None, w2) \<Rightarrow> w2
      | (Inr (Some job), w2) \<Rightarrow>
          (case transfer_job c cfg job rounds w2 of
             (Some (Inr out), w3) \<Rightarrow>
               snd (finish_job_status job_id Succeeded None
                 (snd (on_ledger (\<lambda>now. set_job_file_meta now job_id (Some (to_file_name out)) (Some (to_file_bytes out))
                    (Some (to_file_sha256 out)) (to_file_id out)) w3)))
           | (Some (Inl e), w3) \<Rightarrow>
               snd (finish_job_status job_id (failure_status (ge_code e)) (Some (ge_message e)) w3)
           | (None, w3) \<Rightarrow> snd (finish_job_status job_id Timeout (Some ''transfer timed out'') w3))))"

record file_job_submit =
  fj_kind :: string
  fj_source :: "file_endpoint option"
  fj_destination :: "file_endpoint option"
  fj_timeout_secs :: "nat option"

definition validate_endpoint :: "string \<Rightarrow> file_endpoint \<Rightarrow> bool \<Rightarrow> (gse_error, unit) result" where
  "validate_endpoint role ep source =
     (case ep of
        EpAgent k path \<Rightarrow> if trim k = [] then Inl (missing (role @ ''.agent_id'')) else validate_agent_path path
      | EpServerTemp file_id \<Rightarrow>
          if source \<and> filter_opt (\<lambda>s. s \<noteq> []) (map_option trim file_id) = None
          then Inl (missing ''source.file_id'') else Inr ())"

fun all_online :: "registry \<Rightarrow> string list \<Rightarrow> (gse_error, unit) result" where
  "all_online reg [] = Inr ()"
| "all_online reg (k # ks) = (case require_online reg k of Inl e \<Rightarrow> Inl e | Inr _ \<Rightarrow> all_online reg ks)"

definition file_timeout :: "server_config \<Rightarrow> file_job_submit \<Rightarrow> nat" where
  "file_timeout cfg req = unwrap_or (fj_timeout_secs req) (sc_job_default_timeout_secs cfg)"

text \<open>The checks that need neither the file store nor the ledger, in the order of the code.\<close>

definition file_job_checks ::
    "server_config \<Rightarrow> registry \<Rightarrow> file_job_submit \<Rightarrow> (gse_error, file_endpoint \<times> file_endpoint) result" where
  "file_job_checks cfg reg req =
     (if \<not> sc_jobs_enabled cfg then Inl (unavailable ''jobs disabled'') else
      case fj_source req of None \<Rightarrow> Inl (missing ''source'') | Some source \<Rightarrow>
     (case fj_destination req of None \<Rightarrow> Inl (missing ''destination'') | Some dest \<Rightarrow>
     (case validate_endpoint ''source'' source True of Inl e \<Rightarrow> Inl e | Inr _ \<Rightarrow>
     (case validate_endpoint ''destination'' dest False of Inl e \<Rightarrow> Inl e | Inr _ \<Rightarrow>
      if both_temp source dest then Inl temp_to_temp
      else if same_agent_path source dest then Inl (bad_arg ''source and destination are the same agent path'')
      else if file_timeout cfg req = 0 \<or> file_timeout cfg req > sc_job_max_timeout_secs cfg then
        Inl (bad_arg (''timeout_secs must be within 1..='' @ nat_dec (sc_job_max_timeout_secs cfg)))
      else
        (case all_online reg (List.map_filter id [ep_agent_id source, ep_agent_id dest]) of
           Inl e \<Rightarrow> Inl e | Inr _ \<Rightarrow> Inr (source, dest))))))"

definition file_job_row ::
    "string \<Rightarrow> int \<Rightarrow> nat \<Rightarrow> file_endpoint \<Rightarrow> file_endpoint \<Rightarrow> string option \<Rightarrow> new_job" where
  "file_job_row job_id now timeout source dest rerun_of =
     default_new_job\<lparr>n_job_id := job_id, n_agent_id := list_primary source dest, n_timeout_secs := timeout,
       n_created_at := int_dec now, n_kind := ''file_transfer'', n_source := Some source,
       n_destination := Some dest, n_source_agent_id := ep_agent_id source,
       n_dest_agent_id := ep_agent_id dest, n_rerun_of := rerun_of\<rparr>"

text \<open>\<open>bg\<close> is what the spawned transfer has done to the ledger before the final read.\<close>

definition submit_file_job ::
    "serde \<Rightarrow> codec \<Rightarrow> server_config \<Rightarrow> (ledger \<Rightarrow> ledger) \<Rightarrow> file_job_submit \<Rightarrow> string option \<Rightarrow> job_record tr" where
  "submit_file_job sj c cfg bg req rerun_of w0 =
     (case file_job_checks cfg (tw_reg w0) req of Inl e \<Rightarrow> (Inl e, w0)
      | Inr (source, dest) \<Rightarrow>
          tr_bind (case source of
              EpServerTemp (Some k) \<Rightarrow> tr_bind (on_store (\<lambda>_. store_head (cd_meta c) (cd_root c) k)) (\<lambda>_. tr_return ())
            | _ \<Rightarrow> tr_return ()) (\<lambda>_ w.
            let job_id = new_job_id (int (tw_clock w)) (tw_job_seq w);
                w1 = w\<lparr>tw_job_seq := (tw_job_seq w + 1) mod 2 ^ 64\<rparr>
            in tr_bind (on_ledger (\<lambda>now. insert_job sj
                 (file_job_row job_id now (file_timeout cfg req) source dest rerun_of))) (\<lambda>_ w2.
               tr_bind (on_ledger (\<lambda>_ lg. get_job sj job_id (bg lg))) (\<lambda>j.
                 case j of Some r \<Rightarrow> tr_return r
                 | None \<Rightarrow> tr_fail (gse_err ''not_found'' (''job '' @ job_id @ '' vanished''))) w2) w1) w0)"

definition override :: "string option \<Rightarrow> string \<Rightarrow> string" where
  "override new old = unwrap_or (filter_opt (\<lambda>s. s \<noteq> []) (map_option trim new)) old"

definition rerun_dest :: "file_endpoint \<Rightarrow> string option \<Rightarrow> string option \<Rightarrow> file_endpoint" where
  "rerun_dest dest dest_agent_id dest_path =
     (case dest of
        EpAgent k path \<Rightarrow> EpAgent (override dest_agent_id k) (override dest_path path)
      | EpServerTemp _ \<Rightarrow> EpServerTemp None)"

definition submit_file_rerun ::
    "serde \<Rightarrow> codec \<Rightarrow> server_config \<Rightarrow> (ledger \<Rightarrow> ledger) \<Rightarrow> job_record \<Rightarrow> nat option \<Rightarrow> string option \<Rightarrow>
     string option \<Rightarrow> job_record tr" where
  "submit_file_rerun sj c cfg bg source timeout_secs dest_agent_id dest_path w =
     (case j_source source of None \<Rightarrow> (Inl (missing ''source''), w) | Some src \<Rightarrow>
     (case j_destination source of None \<Rightarrow> (Inl (missing ''destination''), w) | Some dest \<Rightarrow>
      tr_bind (case src of
          EpServerTemp None \<Rightarrow> tr_fail (missing ''source.file_id'')
        | EpServerTemp (Some k) \<Rightarrow> tr_bind (on_store (\<lambda>_. store_head (cd_meta c) (cd_root c) k)) (\<lambda>_. tr_return ())
        | _ \<Rightarrow> tr_return ()) (\<lambda>_.
        submit_file_job sj c cfg bg
          \<lparr>fj_kind = ''file_transfer'', fj_source = Some src,
           fj_destination = Some (rerun_dest dest dest_agent_id dest_path),
           fj_timeout_secs = Some (unwrap_or timeout_secs (j_timeout_secs source))\<rparr>
          (Some (j_job_id source))) w))"

text \<open>One pass of the periodic cleanup; its errors are only logged.\<close>

definition job_file_cleanup :: "codec \<Rightarrow> nat \<Rightarrow> world \<Rightarrow> world" where
  "job_file_cleanup c retain_secs w =
     snd (on_store (\<lambda>now. delete_expired (cd_meta c) (cd_root c) now retain_secs) w)"

end
