(* ===== verification/Transfer_Correct.thy ===== *)
theory Transfer_Correct
  imports File_Transfer
begin

text \<open>
  What a file transfer between two agents promises, over the handlers of both agents and a network
  that loses, garbles and delays calls: a reported success means that the destination file is in
  place with the digest the source agent computed, and with the source's very bytes when nobody
  changes the source meanwhile; and the number of rounds is bounded by the size of the source.
\<close>

section \<open>Loops of rounds\<close>

lemma iterate_inv:
  assumes "iterate n round st w = (Some (Inr out), w')" "P st w"
    and "\<And>st w st' w'. P st w \<Longrightarrow> round st w = (Inr (Inl st'), w') \<Longrightarrow> P st' w'"
    and "\<And>st w out w'. P st w \<Longrightarrow> round st w = (Inr (Inr out), w') \<Longrightarrow> Q out w'"
  shows "Q out w'"
  using assms(1,2)
proof (induction n arbitrary: st w)
  case (Suc n)
  show ?case
  proof (cases "round st w")
    case (Pair r w1)
    then show ?thesis using Suc assms(3,4) by (auto split: sum.splits)
  qed
qed simp

lemma iterate_terminates:
  assumes "P st w" "m st w < n"
    and "\<And>st w st' w'. P st w \<Longrightarrow> round st w = (Inr (Inl st'), w') \<Longrightarrow> P st' w' \<and> m st' w' < (m st w :: nat)"
  shows "fst (iterate n round st w) \<noteq> None"
  using assms(1,2)
proof (induction n arbitrary: st w)
  case (Suc n)
  show ?case
  proof (cases "round st w")
    case (Pair r w1)
    have "fst (iterate n round st' w1) \<noteq> None" if "r = Inr (Inl st')" for st'
      using Suc.IH [of st' w1] Suc.prems assms(3) [of st w st' w1] Pair that by fastforce
    then show ?thesis using Pair by (auto split: sum.splits)
  qed
qed simp

section \<open>Calls\<close>

lemma tr_bind_Inr: "tr_bind m f w = (Inr y, w') \<longleftrightarrow> (\<exists>x w1. m w = (Inr x, w1) \<and> f x w1 = (Inr y, w'))"
  by (auto simp: tr_bind_def split: prod.splits sum.splits)

lemma tr_return_Inr: "tr_return x w = (Inr y, w') \<longleftrightarrow> y = x \<and> w' = w"
  by (auto simp: tr_return_def)

lemma tr_fail_Inr: "tr_fail e w = (Inr y, w') \<longleftrightarrow> False"
  by (simp add: tr_fail_def)

lemma rpc_Inr:
  assumes "rpc method k h w = (Inr reply, w')"
  obtains reg agents clock fio where "ns_mid (next_step w) (tw_reg w, tw_agents w) = (reg, agents)"
    "h clock (agents k) = (reply, fio)" "tw_agents w' = agents(k := fio)" "tw_net w' = tl (tw_net w)"
  using assms by (auto simp: rpc_def Let_def split: prod.splits fate.splits)

lemma online_session_Inr: "online_session k w = (Inr u, w') \<Longrightarrow> w' = w"
  by (auto simp: online_session_def split: option.splits if_splits)

lemma chunk_timeout_Inr: "chunk_timeout dl w = (Inr u, w') \<Longrightarrow> w' = w"
  by (auto simp: chunk_timeout_def split: if_splits)

lemma file_read_Inr:
  assumes "file_read c k req dl w = (Inr r, w')"
  obtains reg agents fs where "ns_mid (next_step w) (tw_reg w, tw_agents w) = (reg, agents)"
    "read_file (cd_sha c) (cd_b64 c) (cd_got c) req (fi_fs (agents k)) = (r, fs)" "rr_error r = None"
    "tw_agents w' = agents(k := (agents k)\<lparr>fi_fs := fs\<rparr>)" "tw_net w' = tl (tw_net w)"
proof -
  obtain reply where
    p: "rpc ''file_read'' k (\<lambda>_. handle_read (cd_sha c) (cd_b64 c) (cd_got c) (Inr req)) w = (Inr reply, w')"
    and e: "rr_error reply = None" "r = reply"
    using assms by (auto simp: file_read_def tr_bind_Inr tr_return_Inr tr_fail_Inr split: option.splits
        dest!: online_session_Inr chunk_timeout_Inr)
  from rpc_Inr [OF p] obtain reg agents clock fio where
    "ns_mid (next_step w) (tw_reg w, tw_agents w) = (reg, agents)"
    "handle_read (cd_sha c) (cd_b64 c) (cd_got c) (Inr req) (agents k) = (reply, fio)"
    "tw_agents w' = agents(k := fio)" "tw_net w' = tl (tw_net w)" by metis
  then show ?thesis using e
    by (intro that [of reg agents "snd (read_file (cd_sha c) (cd_b64 c) (cd_got c) req (fi_fs (agents k)))"])
      (auto simp: handle_read_def split: prod.splits)
qed

lemma file_write_Inr:
  assumes "file_write c k req dl w = (Inr r, w')"
  obtains reg agents now fio where "ns_mid (next_step w) (tw_reg w, tw_agents w) = (reg, agents)"
    "write_file (cd_sha c) (agent_unb64 c) now req (agents k) = (r, fio)" "wr_error r = None"
    "tw_agents w' = agents(k := fio)" "tw_net w' = tl (tw_net w)"
proof -
  obtain reply where
    p: "rpc ''file_write'' k (\<lambda>now. handle_write (cd_sha c) (agent_unb64 c) now (Inr req)) w = (Inr reply, w')"
    and e: "wr_error reply = None" "r = reply"
    using assms by (auto simp: file_write_def tr_bind_Inr tr_return_Inr tr_fail_Inr split: option.splits
        dest!: online_session_Inr chunk_timeout_Inr)
  from rpc_Inr [OF p] obtain reg agents clock fio where
    "ns_mid (next_step w) (tw_reg w, tw_agents w) = (reg, agents)"
    "handle_write (cd_sha c) (agent_unb64 c) clock (Inr req) (agents k) = (reply, fio)"
    "tw_agents w' = agents(k := fio)" "tw_net w' = tl (tw_net w)" by metis
  then show ?thesis using e by (intro that [of reg agents clock fio]) (simp_all add: handle_write_def)
qed

section \<open>The environment\<close>

definition agent_file :: "world \<Rightarrow> string \<Rightarrow> string \<Rightarrow> node option" where
  "agent_file w k path = lookup (fs_tree (fi_fs (tw_agents w k))) path"

text \<open>Others may end the write session of a job, never continue it or touch its sidecar file.\<close>

definition spares :: "string \<Rightarrow> string \<Rightarrow> string \<Rightarrow> net_step \<Rightarrow> bool" where
  "spares d job dest s \<longleftrightarrow>
     (\<forall>reg agents. apart job dest (agents d) \<longrightarrow>
        (let a = agents d; a' = snd (ns_mid s (reg, agents)) d in
         apart job dest a' \<and>
         (bt_get (fi_writes a') job = None \<or>
          bt_get (fi_writes a') job = bt_get (fi_writes a) job \<and>
          lookup (fs_tree (fi_fs a')) (sidecar_path dest job) = lookup (fs_tree (fi_fs a)) (sidecar_path dest job))))"

definition freezes :: "string \<Rightarrow> string \<Rightarrow> net_step \<Rightarrow> bool" where
  "freezes k path s \<longleftrightarrow>
     (\<forall>reg agents. lookup (fs_tree (fi_fs (snd (ns_mid s (reg, agents)) k))) path =
        lookup (fs_tree (fi_fs (agents k))) path)"

lemma quiet_spares [simp]: "spares d job dest quiet_step" "freezes k path quiet_step"
  by (simp_all add: spares_def freezes_def quiet_step_def Let_def)

lemma next_step_in: "(\<forall>s \<in> set (tw_net w). Q s) \<Longrightarrow> Q quiet_step \<Longrightarrow> Q (next_step w)"
  by (auto simp: next_step_def split: list.splits)

lemma set_tl: "s \<in> set (tl xs) \<Longrightarrow> s \<in> set xs"
  by (cases xs) auto

text \<open>What the destination agent holds between two rounds, when \<open>b\<close> was sent.\<close>

definition receiving :: "string \<Rightarrow> string \<Rightarrow> string \<Rightarrow> file_io \<Rightarrow> bool" where
  "receiving job dest b a \<longleftrightarrow> apart job dest a \<and>
     (b \<noteq> [] \<longrightarrow> bt_get (fi_writes a) job \<noteq> None \<longrightarrow> collecting job dest b a)"

lemma spares_receiving:
  assumes "spares d job dest s" "receiving job dest b (agents d)" "ns_mid s (reg, agents) = (reg', agents')"
  shows "receiving job dest b (agents' d)"
proof -
  have ap: "apart job dest (agents d)" using assms(2) by (simp add: receiving_def)
  have m: "snd (ns_mid s (reg, agents)) d = agents' d" using assms(3) by simp
  from assms(1) ap m have "apart job dest (agents' d) \<and> (bt_get (fi_writes (agents' d)) job = None \<or>
      bt_get (fi_writes (agents' d)) job = bt_get (fi_writes (agents d)) job \<and>
      lookup (fs_tree (fi_fs (agents' d))) (sidecar_path dest job) = lookup (fs_tree (fi_fs (agents d))) (sidecar_path dest job))"
    unfolding spares_def Let_def by metis
  then show ?thesis using assms(2) by (auto simp: receiving_def collecting_def)
qed

lemma receiving_reads:
  "fs_tree fs = fs_tree (fi_fs a) \<Longrightarrow> receiving job dest b (a\<lparr>fi_fs := fs\<rparr>) = receiving job dest b a"
  by (simp add: receiving_def apart_def collecting_def)

lemma freezes_file:
  assumes "freezes k path s" "ns_mid s (reg, agents) = (reg', agents')"
  shows "lookup (fs_tree (fi_fs (agents' k))) path = lookup (fs_tree (fi_fs (agents k))) path"
  using assms unfolding freezes_def by (metis snd_conv)

lemma read_step:
  assumes "file_read c k req dl w = (Inr r, w')" "\<forall>s \<in> set (tw_net w). spares d job dest s"
    and "receiving job dest b (tw_agents w d)"
  shows "receiving job dest b (tw_agents w' d)" "set (tw_net w') \<subseteq> set (tw_net w)"
    "\<exists>content buf. buf = chunk_bytes (cd_got c) req (length content) content \<and> rq_offset req \<le> length content \<and>
       rr_size r = length content \<and> rr_data_b64 r = cd_b64 c buf \<and>
       rr_eof r = (length content \<le> rq_offset req + length buf) \<and>
       (rr_eof r \<longrightarrow> rr_file_sha256 r = Some (cd_sha c content)) \<and>
       ((\<forall>s \<in> set (tw_net w). freezes k (rq_path req) s) \<longrightarrow>
          agent_file w k (rq_path req) = Some (NFile content) \<and> agent_file w' k (rq_path req) = Some (NFile content))"
proof -
  obtain reg agents fs where m: "ns_mid (next_step w) (tw_reg w, tw_agents w) = (reg, agents)"
    and r: "read_file (cd_sha c) (cd_b64 c) (cd_got c) req (fi_fs (agents k)) = (r, fs)" "rr_error r = None"
    and w': "tw_agents w' = agents(k := (agents k)\<lparr>fi_fs := fs\<rparr>)" "tw_net w' = tl (tw_net w)"
    using file_read_Inr [OF assms(1)] .
  have t: "fs_tree fs = fs_tree (fi_fs (agents k))" using tree_eqD [OF r(1) read_file_tree] .
  have "receiving job dest b (agents d)"
    using spares_receiving [OF next_step_in [OF assms(2) quiet_spares(1)] assms(3) m] .
  then show "receiving job dest b (tw_agents w' d)" using receiving_reads [OF t] by (auto simp: w')
  show "set (tw_net w') \<subseteq> set (tw_net w)" using set_tl by (auto simp: w')
  obtain content buf where d: "lookup (fs_tree (fi_fs (agents k))) (rq_path req) = Some (NFile content)"
    "buf = chunk_bytes (cd_got c) req (length content) content" "rq_offset req \<le> length content" "rr_size r = length content"
    "rr_data_b64 r = cd_b64 c buf" "rr_eof r = (length content \<le> rq_offset req + length buf)"
    "rr_eof r \<longrightarrow> rr_file_sha256 r = Some (cd_sha c content)"
    using read_file_done [OF r] by blast
  have "agent_file w k (rq_path req) = Some (NFile content) \<and> agent_file w' k (rq_path req) = Some (NFile content)"
    if "\<forall>s \<in> set (tw_net w). freezes k (rq_path req) s"
    using freezes_file [OF next_step_in [OF that quiet_spares(2)] m] d(1) t by (simp add: agent_file_def w')
  with d show "\<exists>content buf. buf = chunk_bytes (cd_got c) req (length content) content \<and> rq_offset req \<le> length content \<and>
       rr_size r = length content \<and> rr_data_b64 r = cd_b64 c buf \<and>
       rr_eof r = (length content \<le> rq_offset req + length buf) \<and>
       (rr_eof r \<longrightarrow> rr_file_sha256 r = Some (cd_sha c content)) \<and>
       ((\<forall>s \<in> set (tw_net w). freezes k (rq_path req) s) \<longrightarrow>
          agent_file w k (rq_path req) = Some (NFile content) \<and> agent_file w' k (rq_path req) = Some (NFile content))"
    by (intro exI [of _ content] exI [of _ buf]) simp
qed

lemma write_step:
  assumes "file_write c d req dl w = (Inr r, w')" "\<forall>s \<in> set (tw_net w). spares d job dest s"
    and "receiving job dest b (tw_agents w d)" "wq_job_id req = job" "wq_path req = dest"
    and "agent_unb64 c (wq_data_b64 req) = Some bytes" "wq_offset req = length b"
  shows "set (tw_net w') \<subseteq> set (tw_net w)" "\<not> wq_eof req \<Longrightarrow> receiving job dest (b @ bytes) (tw_agents w' d)"
    "wq_eof req \<Longrightarrow> agent_file w' d dest = Some (NFile (b @ bytes))"
    "wq_eof req \<Longrightarrow> wq_file_sha256 req = Some h \<Longrightarrow> h = cd_sha c (b @ bytes)"
    "k \<noteq> d \<Longrightarrow> \<forall>s \<in> set (tw_net w). freezes k path s \<Longrightarrow> agent_file w' k path = agent_file w k path"
proof -
  obtain reg agents now fio where m: "ns_mid (next_step w) (tw_reg w, tw_agents w) = (reg, agents)"
    and wr: "write_file (cd_sha c) (agent_unb64 c) now req (agents d) = (r, fio)" "wr_error r = None"
    and w': "tw_agents w' = agents(d := fio)" "tw_net w' = tl (tw_net w)"
    using file_write_Inr [OF assms(1)] .
  have rc: "receiving job dest b (agents d)"
    using spares_receiving [OF next_step_in [OF assms(2) quiet_spares(1)] assms(3) m] .
  then have ap: "apart job dest (agents d)"
    and co: "b \<noteq> [] \<Longrightarrow> bt_get (fi_writes (agents d)) job \<noteq> None \<Longrightarrow> collecting job dest b (agents d)"
    by (auto simp: receiving_def)
  note dn = write_file_done [OF wr ap assms(4-7) co]
  show "set (tw_net w') \<subseteq> set (tw_net w)" using set_tl by (auto simp: w')
  show "\<not> wq_eof req \<Longrightarrow> receiving job dest (b @ bytes) (tw_agents w' d)"
    using dn(1,2) by (simp add: receiving_def w')
  show "wq_eof req \<Longrightarrow> agent_file w' d dest = Some (NFile (b @ bytes))"
    using dn(3) by (simp add: agent_file_def w')
  show "wq_eof req \<Longrightarrow> wq_file_sha256 req = Some h \<Longrightarrow> h = cd_sha c (b @ bytes)" using dn(4) by blast
  show "agent_file w' k path = agent_file w k path" if "k \<noteq> d" "\<forall>s \<in> set (tw_net w). freezes k path s"
    using freezes_file [OF next_step_in [OF that(2) quiet_spares(2)] m] that(1) by (simp add: agent_file_def w')
qed

section \<open>A transfer between two agents\<close>

text \<open>
  The state between two rounds: \<open>b\<close> are the bytes sent; with \<open>frozen\<close>, nobody changes the source,
  whose content is \<open>content\<close>.
\<close>

definition between :: "xfer \<Rightarrow> bool \<Rightarrow> string \<Rightarrow> nat \<Rightarrow> world \<Rightarrow> bool" where
  "between x frozen content offset w \<longleftrightarrow>
     (\<forall>s \<in> set (tw_net w). spares (x_dst_agent x) (x_job_id x) (x_dst_path x) s) \<and>
     (\<exists>b. length b = offset \<and> receiving (x_job_id x) (x_dst_path x) b (tw_agents w (x_dst_agent x)) \<and>
        (frozen \<longrightarrow> b = take offset content \<and> x_src_agent x \<noteq> x_dst_agent x \<and>
           agent_file w (x_src_agent x) (x_src_path x) = Some (NFile content) \<and>
           (\<forall>s \<in> set (tw_net w). freezes (x_src_agent x) (x_src_path x) s)))"

definition arrived :: "xfer \<Rightarrow> codec \<Rightarrow> bool \<Rightarrow> string \<Rightarrow> string \<Rightarrow> world \<Rightarrow> bool" where
  "arrived x c frozen content sha w \<longleftrightarrow>
     (\<exists>b. agent_file w (x_dst_agent x) (x_dst_path x) = Some (NFile b) \<and> cd_sha c b = sha \<and> (frozen \<longrightarrow> b = content))"

lemma start_running_Inr:
  assumes "start_running x running r w = (Inr n, w')"
  shows "tw_agents w' = tw_agents w" "tw_net w' = tw_net w"
  using assms
  by (auto simp: start_running_def tr_bind_Inr tr_return_def tr_fail_def mark_running_now_def on_ledger_def
      split: option.splits prod.splits if_splits)

lemma take_chunk:
  "drop n c = buf @ rest \<Longrightarrow> n \<le> length c \<Longrightarrow> take n c @ buf = take (n + length buf) c"
  by (simp add: take_add)

lemma round_result:
  assumes "agent_to_agent_round c x (offset, running) w = (Inr res, w')" "between x frozen content offset w"
    and codec: "\<And>s. cd_unb64 c (cd_b64 c s) = Inr s"
  shows "case res of
      Inl (offset', running') \<Rightarrow> between x frozen content offset' w' \<and> offset < offset' \<and>
        (frozen \<longrightarrow> offset' < length content)
    | Inr out \<Rightarrow> arrived x c frozen content (to_file_sha256 out) w'"
proof -
  let ?d = "x_dst_agent x" and ?job = "x_job_id x" and ?dest = "x_dst_path x"
  obtain r w1 n w2 rep w3 where
    rd: "file_read c (x_src_agent x) (read_req x offset) (x_deadline x) w = (Inr r, w1)" and
    st: "start_running x running r w1 = (Inr n, w2)" and
    wr: "file_write c ?d (write_req x offset (rr_eof r) (rr_data_b64 r) (rr_chunk_sha256 r)
          (if rr_eof r then rr_file_sha256 r else None)) (x_deadline x) w2 = (Inr rep, w3)" and
    res: "(if rr_eof r then
          tr_return (Inr \<lparr>to_file_name = basename (x_src_path x), to_file_bytes = u64_as_i64 n,
            to_file_sha256 = unwrap_or (rr_file_sha256 r) [], to_file_id = None\<rparr>)
        else tr_bind (decoded_len c (rr_data_b64 r)) (\<lambda>k.
            if k = 0 then tr_fail empty_chunk else tr_return (Inl (offset + k, Some n)))) w3 = (Inr res, w')"
    using assms(1) by (auto simp: agent_to_agent_round_def tr_bind_Inr)
  obtain b where b: "\<forall>s \<in> set (tw_net w). spares ?d ?job ?dest s" "length b = offset"
    "receiving ?job ?dest b (tw_agents w ?d)"
    "frozen \<Longrightarrow> b = take offset content \<and> x_src_agent x \<noteq> ?d \<and>
       agent_file w (x_src_agent x) (x_src_path x) = Some (NFile content) \<and>
       (\<forall>s \<in> set (tw_net w). freezes (x_src_agent x) (x_src_path x) s)"
    using assms(2) by (auto simp: between_def)
  note R = read_step [OF rd b(1,3)]
  obtain src buf where src: "buf = chunk_bytes (cd_got c) (read_req x offset) (length src) src" "offset \<le> length src"
    "rr_data_b64 r = cd_b64 c buf" "rr_eof r = (length src \<le> offset + length buf)"
    "rr_eof r \<longrightarrow> rr_file_sha256 r = Some (cd_sha c src)"
    "(\<forall>s \<in> set (tw_net w). freezes (x_src_agent x) (x_src_path x) s) \<longrightarrow>
          agent_file w (x_src_agent x) (x_src_path x) = Some (NFile src) \<and>
          agent_file w1 (x_src_agent x) (x_src_path x) = Some (NFile src)"
    using R(3) by (auto simp: read_req_def)
  have ag2: "tw_agents w2 = tw_agents w1" "tw_net w2 = tw_net w1" using start_running_Inr [OF st] by simp_all
  have sp2: "\<forall>s \<in> set (tw_net w2). spares ?d ?job ?dest s" using b(1) R(2) by (auto simp: ag2)
  have rc2: "receiving ?job ?dest b (tw_agents w2 ?d)" using R(1) by (simp add: ag2)
  have ub: "agent_unb64 c (rr_data_b64 r) = Some buf" by (simp add: src(3) agent_unb64_def codec)
  note W = write_step [OF wr sp2 rc2, unfolded write_req_def, simplified, OF ub b(2) [symmetric]]
  have net: "set (tw_net w3) \<subseteq> set (tw_net w)" using W(1) R(2) by (auto simp: ag2)
  have fr: "src = content \<and> b @ buf = take (offset + length buf) content \<and> offset + length buf \<le> length content \<and>
      agent_file w3 (x_src_agent x) (x_src_path x) = Some (NFile content)" if frozen
  proof -
    note f = b(4) [OF that]
    have c: "src = content" "agent_file w1 (x_src_agent x) (x_src_path x) = Some (NFile content)" using src(6) f by auto
    obtain rest where rest: "drop offset content = buf @ rest"
      using chunk_bytes_drop [of offset "read_req x offset" content] src(1) c(1) by (auto simp: read_req_def)
    have "length (drop offset content) = length buf + length rest" using rest by simp
    then have "offset + length buf \<le> length content" using src(2) c(1) by simp
    moreover have "agent_file w3 (x_src_agent x) (x_src_path x) = agent_file w2 (x_src_agent x) (x_src_path x)"
      using W(5) [of "x_src_agent x" "x_src_path x"] f R(2) by (auto simp: ag2)
    ultimately show ?thesis using c f take_chunk [OF rest] src(2) by (simp add: agent_file_def ag2)
  qed
  show ?thesis
  proof (cases "rr_eof r")
    case True
    then have out: "res = Inr \<lparr>to_file_name = basename (x_src_path x), to_file_bytes = u64_as_i64 n,
            to_file_sha256 = unwrap_or (rr_file_sha256 r) [], to_file_id = None\<rparr>" "w' = w3"
      using res by (simp_all add: tr_return_Inr)
    have "arrived x c frozen content (unwrap_or (rr_file_sha256 r) []) w3"
      using True W(3,4) src(4,5) fr by (auto simp: arrived_def)
    then show ?thesis by (simp add: out)
  next
    case False
    then have out: "res = Inl (offset + length buf, Some n)" "w' = w3" "buf \<noteq> []"
      using res src(3) by (auto simp: decoded_len_def decode_b64_def codec tr_bind_Inr tr_return_Inr tr_fail_Inr split: if_splits)
    have "between x frozen content (offset + length buf) w3"
      unfolding between_def using False W(2) net b(1,2,4) fr by (intro conjI exI [of _ "b @ buf"]) auto
    moreover have "frozen \<longrightarrow> offset + length buf < length content" using False src(4) fr by auto
    ultimately show ?thesis using out by simp
  qed
qed

lemma pump_result:
  assumes "pump_agent_to_agent c x rounds w = (Some (Inr out), w')" "between x frozen content 0 w"
    and codec: "\<And>s. cd_unb64 c (cd_b64 c s) = Inr s"
  shows "arrived x c frozen content (to_file_sha256 out) w'"
proof -
  have "iterate rounds (agent_to_agent_round c x) (0, None) w = (Some (Inr out), w')"
    using assms(1) by (simp add: pump_agent_to_agent_def)
  then show ?thesis
  proof (rule iterate_inv [where P = "\<lambda>st w. between x frozen content (fst st) w"
        and Q = "\<lambda>out w. arrived x c frozen content (to_file_sha256 out) w"])
    show "between x frozen content (fst (0, None)) w" using assms(2) by simp
    show "between x frozen content (fst st') w'" if "between x frozen content (fst st) w"
      "agent_to_agent_round c x st w = (Inr (Inl st'), w')" for st w st' w'
      using that round_result [of c x "fst st" "snd st" w "Inl st'" w' frozen content, OF _ _ codec]
      by (cases st') simp
    show "arrived x c frozen content (to_file_sha256 out) w'" if "between x frozen content (fst st) w"
      "agent_to_agent_round c x st w = (Inr (Inr out), w')" for st w out w'
      using that round_result [of c x "fst st" "snd st" w "Inr out" w' frozen content, OF _ _ codec] by simp
  qed
qed

lemma pump_terminates:
  assumes "between x True content 0 w" "length content < rounds"
    and codec: "\<And>s. cd_unb64 c (cd_b64 c s) = Inr s"
  shows "fst (pump_agent_to_agent c x rounds w) \<noteq> None"
  unfolding pump_agent_to_agent_def
proof (rule iterate_terminates [where P = "\<lambda>st w. between x True content (fst st) w"
      and m = "\<lambda>st w. length content - fst st"])
  show "between x True content (fst (0, None)) w" using assms(1) by simp
  show "length content - fst (0 :: nat, None :: nat option) < rounds" using assms(2) by simp
  show "between x True content (fst st') w' \<and> length content - fst st' < length content - fst st"
    if "between x True content (fst st) w" "agent_to_agent_round c x st w = (Inr (Inl st'), w')" for st w st' w'
    using that round_result [of c x "fst st" "snd st" w "Inl st'" w' True content, OF _ _ codec]
    by (cases st') auto
qed

section \<open>The job of a transfer\<close>

text \<open>A job that is not over, on a healthy engine.\<close>

definition open_row :: "string \<Rightarrow> ledger \<Rightarrow> sql_row \<Rightarrow> bool" where
  "open_row k lg r \<longleftrightarrow> lg_faults lg = [] \<and> job_row lg k = Some r \<and> text_not_in r ''status'' terminal_texts"

definition is_open :: "string \<Rightarrow> ledger \<Rightarrow> bool" where
  "is_open k lg \<longleftrightarrow> (\<exists>r. open_row k lg r)"

definition keeps_open :: "string \<Rightarrow> 'a tr \<Rightarrow> bool" where
  "keeps_open k m \<longleftrightarrow> (\<forall>w. is_open k (tw_led w) \<longrightarrow> is_open k (tw_led (snd (m w))))"

lemma keeps_openD: "keeps_open k m \<Longrightarrow> is_open k (tw_led w) \<Longrightarrow> m w = (r, w') \<Longrightarrow> is_open k (tw_led w')"
  by (auto simp: keeps_open_def dest!: spec [of _ w])

named_theorems opens \<open>operations that keep a job open\<close>

lemma keeps_bind [opens]: "keeps_open k m \<Longrightarrow> (\<And>x. keeps_open k (f x)) \<Longrightarrow> keeps_open k (tr_bind m f)"
  unfolding keeps_open_def tr_bind_def by (fastforce split: prod.split sum.split)

lemma keeps_led: "(\<And>w. tw_led (snd (m w)) = tw_led w) \<Longrightarrow> keeps_open k m"
  by (simp add: keeps_open_def)

lemma keeps_pure [opens]: "keeps_open k (tr_return x)" "keeps_open k (tr_fail e)" "keeps_open k (on_store g)"
    "keeps_open k (online_session a)" "keeps_open k (chunk_timeout dl)" "keeps_open k (rpc me a h)"
  by (rule keeps_led; auto simp: tr_return_def tr_fail_def on_store_def online_session_def chunk_timeout_def rpc_def
      Let_def split: prod.split option.split fate.split)+

lemma mark_running_open: "is_open k lg \<Longrightarrow> is_open k (snd (mark_running k t lg))"
proof -
  assume "is_open k lg"
  then obtain r where r: "open_row k lg r" by (auto simp: is_open_def)
  have "text_not_in (row_set [(''status'', SqlText ''running''), (''started_at'', SqlText t), (''updated_at'', SqlText t)] r)
     ''status'' terminal_texts"
    by (simp add: text_not_in_def row_set_def terminal_texts_def)
  then show ?thesis using r mark_running_row [of lg k r t] by (auto simp: open_row_def is_open_def)
qed

lemma on_ledger_led: "tw_led (snd (on_ledger m w)) = snd (m (int (tw_clock w)) (tw_led w))"
  by (simp add: on_ledger_def Let_def split: prod.split)

lemma keeps_running [opens]: "keeps_open k (mark_running_now k)"
  by (simp add: keeps_open_def mark_running_now_def on_ledger_led mark_running_open)

lemma keeps_if [opens]: "keeps_open k m \<Longrightarrow> keeps_open k m' \<Longrightarrow> keeps_open k (if b then m else m')"
  by simp

lemma keeps_option [opens]: "keeps_open k m \<Longrightarrow> (\<And>x. keeps_open k (f x)) \<Longrightarrow> keeps_open k (case v of None \<Rightarrow> m | Some x \<Rightarrow> f x)"
  by (cases v) simp_all

lemma keeps_sum [opens]: "(\<And>e. keeps_open k (g e)) \<Longrightarrow> (\<And>x. keeps_open k (f x)) \<Longrightarrow> keeps_open k (case v of Inl e \<Rightarrow> g e | Inr x \<Rightarrow> f x)"
  by (cases v) simp_all

lemma keeps_calls [opens]: "keeps_open k (file_read c a req dl)" "keeps_open k (file_write c a wreq dl)"
    "keeps_open k (decode_b64 c s)" "keeps_open k (decoded_len c s)"
    "x_job_id x = k \<Longrightarrow> keeps_open k (start_running x running r)"
  unfolding file_read_def file_write_def decode_b64_def decoded_len_def start_running_def
  by (auto intro!: opens)

lemma keeps_iterate: "(\<And>st. keeps_open k (round st)) \<Longrightarrow> is_open k (tw_led w) \<Longrightarrow>
    is_open k (tw_led (snd (iterate n round st w)))"
proof (induction n arbitrary: st w)
  case (Suc n)
  then have "is_open k (tw_led (snd (round st w)))" by (simp add: keeps_open_def)
  then show ?case using Suc.IH [OF Suc.prems(1)] by (auto split: prod.split sum.split)
qed simp

lemma keeps_abort [opens]: "keeps_open k m \<Longrightarrow> keeps_open k (or_abort c wr m)"
  unfolding keeps_open_def or_abort_def by (fastforce split: prod.split sum.split)

lemma keeps_rounds:
  assumes "x_job_id x = k"
  shows "keeps_open k (agent_to_agent_round c x st)" "keeps_open k (agent_to_temp_round c x st')"
    "keeps_open k (temp_to_agent_round c x m content offset)" "keeps_open k (finish_temp c d sha wr)"
proof -
  show "keeps_open k (agent_to_agent_round c x st)"
    using assms by (auto simp: agent_to_agent_round_def intro!: opens split: prod.split)
  show "keeps_open k (agent_to_temp_round c x st')"
    using assms by (auto simp: agent_to_temp_round_def intro!: opens split: prod.split)
  show "keeps_open k (temp_to_agent_round c x m content offset)"
    using assms by (auto simp: temp_to_agent_round_def Let_def intro!: opens)
  have "keeps_open k (\<lambda>w. (Inl e, w\<lparr>tw_store := f w\<rparr>) :: (gse_error, 'y) result \<times> world)" for e f
    by (rule keeps_led) simp
  then show "keeps_open k (finish_temp c d sha wr)"
    by (auto simp: finish_temp_def intro!: opens)
qed

text \<open>A transfer as a whole, whatever its endpoints and its fate.\<close>

lemma transfer_keeps_open:
  assumes "is_open k (tw_led w)" "j_job_id job = k"
  shows "is_open k (tw_led (snd (transfer_job c cfg job rounds w)))"
proof -
  have aa: "is_open k (tw_led (snd (pump_agent_to_agent c x rounds w)))" if "x_job_id x = k" for x
    unfolding pump_agent_to_agent_def by (rule keeps_iterate) (auto intro: keeps_rounds that assms)
  have at: "is_open k (tw_led (snd (pump_agent_to_temp c x rounds w)))" if x: "x_job_id x = k" for x
  proof -
    obtain res w1 where b: "on_store (\<lambda>now. begin_write (cd_root c) now (''file-'' @ x_job_id x) (basename (x_src_path x))) w = (res, w1)"
      by fastforce
    have o1: "is_open k (tw_led w1)"
by (rule keeps_openD [OF keeps_pure(3) assms(1) b])
    show ?thesis
    proof (cases res)
      case (Inr wr)
      obtain r2 w2 where i: "iterate rounds (agent_to_temp_round c x) (0, None, wr) w1 = (r2, w2)" by fastforce
      have o2: "is_open k (tw_led w2)"
        using keeps_iterate [of k "agent_to_temp_round c x", OF keeps_rounds(2) [OF x] o1] i by (metis snd_conv)
      show ?thesis using b Inr i o2 keeps_openD [OF keeps_rounds(4) [OF x] o2]
        by (auto simp: pump_agent_to_temp_def Let_def split: option.split sum.split prod.split)
    qed (use b o1 in \<open>simp add: pump_agent_to_temp_def\<close>)
  qed
  have ta: "is_open k (tw_led (snd (pump_temp_to_agent c x fid rounds w)))" if x: "x_job_id x = k" for x fid
  proof -
    let ?start = "tr_bind (on_store (\<lambda>_. store_head (cd_meta c) (cd_root c) fid)) (\<lambda>m.
           if jm_size_bytes m > x_max_bytes x then tr_fail (too_large (x_max_bytes x))
           else tr_bind (on_store (\<lambda>_. content_path (cd_root c) fid)) (\<lambda>path.
                tr_bind (on_store (\<lambda>_. sys (fs_read path))) (\<lambda>content.
                tr_bind (mark_running_now (x_job_id x)) (\<lambda>_. tr_return (m, content)))))"
    obtain res w1 where b: "?start w = (res, w1)" by fastforce
    have "keeps_open k ?start" using x by (auto intro!: opens)
    from keeps_openD [OF this assms(1)] b have o1: "is_open k (tw_led w1)" by blast
    show ?thesis
    proof (cases res)
      case (Inr mc)
      obtain m content where mc: "mc = (m, content)" by force
      obtain r2 w2 where i: "iterate rounds (temp_to_agent_round c x m content) 0 w1 = (r2, w2)" by fastforce
      have o2: "is_open k (tw_led w2)"
        using keeps_iterate [of k "temp_to_agent_round c x m content", OF keeps_rounds(3) [OF x] o1] i by (metis snd_conv)
      show ?thesis using o2
        unfolding pump_temp_to_agent_def b Inr mc by (simp add: i split: option.split sum.split)
    next
      case (Inl e)
      show ?thesis using o1 unfolding pump_temp_to_agent_def b Inl by simp
    qed
  qed
  show ?thesis
    using assms by (auto simp: transfer_job_def Let_def aa at ta split: option.split file_endpoint.split)
qed

text \<open>The last statements of a transfer.\<close>

lemma finish_open:
  assumes "open_row k lg r"
  shows "job_of sj (snd (finish_job (status_result k st err now) t lg)) k =
    Some (finished (status_result k st err now) t (row_to_job sj r))"
proof -
  have "open_job k r" using assms job_row_key by (auto simp: open_row_def open_job_def text_eq_def)
  moreover have "fst (update_jobs p sets lg) = Inr ()" for p sets
    using assms update_jobs_ok(1) by (simp add: open_row_def)
  ultimately show ?thesis using assms
    by (simp add: job_of_def finish_job_def update_jobs_row finish_sets_key open_row_def status_result_def
        row_to_job_finish)
qed

lemma finish_status_job:
  assumes "is_open k (tw_led w)"
  shows "\<exists>j. job_of sj (tw_led (snd (finish_job_status k st err w))) k = Some j \<and> j_status j = st"
proof -
  obtain r where "open_row k (tw_led w) r" using assms by (auto simp: is_open_def)
  from finish_open [OF this] show ?thesis
    by (simp add: finish_job_status_def on_ledger_led finished_def status_result_def)
qed

lemma file_meta_open:
  assumes "is_open k lg"
  shows "\<exists>r. open_row k (snd (set_job_file_meta now k name bytes sha fid lg)) r \<and> field_opt_text r ''file_sha256'' = sha"
proof -
  obtain r where r: "open_row k lg r" using assms by (auto simp: is_open_def)
  let ?lg = "lg\<lparr>lg_seq := (lg_seq lg + 1) mod 2 ^ 64\<rparr>"
  let ?sets = "\<lambda>_ :: sql_row. [(''file_name'', sql_opt_text name), (''file_bytes'', sql_opt_int bytes),
             (''file_sha256'', sql_opt_text sha), (''file_id'', sql_opt_text fid),
             (''updated_at'', SqlText (int_dec now @ ''-'' @ nat_dec (lg_seq lg)))]"
  have ok: "fst (update_jobs p ?sets ?lg) = Inr () \<and> lg_faults (snd (update_jobs p ?sets ?lg)) = []" for p
    using r update_jobs_ok [of ?lg p ?sets] by (simp add: open_row_def)
  have "job_row ?lg k = Some r" using r by (simp add: open_row_def job_row_def)
  moreover have "text_eq r ''job_id'' k" using r job_row_key by (auto simp: open_row_def text_eq_def)
  ultimately have "job_row (snd (set_job_file_meta now k name bytes sha fid lg)) k = Some (row_set (?sets r) r)"
    using ok by (simp add: set_job_file_meta_def stamped update_jobs_row)
  moreover have "text_not_in (row_set (?sets r) r) ''status'' terminal_texts"
    using r by (simp add: open_row_def text_not_in_def row_set_def)
  moreover have "field_opt_text (row_set (?sets r) r) ''file_sha256'' = sha"
    by (rule field_opt_text_opt) (simp add: row_set_def)
  ultimately show ?thesis
    using ok by (intro exI [of _ "row_set (?sets r) r"]) (simp add: open_row_def set_job_file_meta_def stamped)
qed

lemma dispatched_open:
  assumes "open_row k lg r"
  shows "\<exists>lg1 r1. mark_dispatched k t lg = (Inr (), lg1) \<and> open_row k lg1 r1 \<and>
    j_source (row_to_job sj r1) = j_source (row_to_job sj r) \<and>
    j_destination (row_to_job sj r1) = j_destination (row_to_job sj r) \<and> j_job_id (row_to_job sj r1) = k"
proof -
  let ?sets = "\<lambda>r. [(''status'', SqlText ''dispatched''),
           (''dispatched_at'', coalesce (r ''dispatched_at'') (SqlText t)), (''updated_at'', SqlText t)]"
  have key: "r ''job_id'' = SqlText k" using assms job_row_key by (auto simp: open_row_def)
  have op: "open_job k r" using assms key by (simp add: open_row_def open_job_def text_eq_def)
  have ok: "fst (mark_dispatched k t lg) = Inr ()" "lg_faults (snd (mark_dispatched k t lg)) = []"
    using assms update_jobs_ok [of lg] by (simp_all add: mark_dispatched_def open_row_def)
  have row: "job_row (snd (mark_dispatched k t lg)) k = Some (row_set (?sets r) r)"
    using ok(1) op assms by (simp add: mark_dispatched_def update_jobs_row open_row_def)
  have "text_not_in (row_set (?sets r) r) ''status'' terminal_texts"
    by (simp add: text_not_in_def row_set_def terminal_texts_def)
  moreover have "j_source (row_to_job sj (row_set (?sets r) r)) = j_source (row_to_job sj r)"
    "j_destination (row_to_job sj (row_set (?sets r) r)) = j_destination (row_to_job sj r)"
    "j_job_id (row_to_job sj (row_set (?sets r) r)) = k"
    using key by (simp_all add: row_to_job_def row_set_def field_text_def field_opt_text_def)
  ultimately show ?thesis using ok row
    by (intro exI [of _ "snd (mark_dispatched k t lg)"] exI [of _ "row_set (?sets r) r"])
      (simp add: prod_eq_iff open_row_def)
qed

lemma failure_status_final [simp]: "is_terminal (failure_status code)" "failure_status code \<noteq> Succeeded"
  by (simp_all add: failure_status_def)

text \<open>The last statements of a run, by the outcome of its transfer.\<close>

definition conclude :: "string \<Rightarrow> (gse_error, transfer_outcome) result option \<Rightarrow> world \<Rightarrow> world" where
  "conclude k res w =
      (case res of
         Some (Inr out) \<Rightarrow>
           snd (finish_job_status k Succeeded None
             (snd (on_ledger (\<lambda>now. set_job_file_meta now k (Some (to_file_name out)) (Some (to_file_bytes out))
                (Some (to_file_sha256 out)) (to_file_id out)) w)))
       | Some (Inl e) \<Rightarrow> snd (finish_job_status k (failure_status (ge_code e)) (Some (ge_message e)) w)
       | None \<Rightarrow> snd (finish_job_status k Timeout (Some ''transfer timed out'') w))"

lemma conclude_job:
  assumes "is_open k (tw_led w)"
  shows "\<exists>j. job_of sj (tw_led (conclude k res w)) k = Some j \<and> is_terminal (j_status j) \<and>
    (j_status j = Succeeded \<longleftrightarrow> (\<exists>out. res = Some (Inr out)))"
proof -
  have m: "is_open k (tw_led (snd (on_ledger (\<lambda>now. set_job_file_meta now k a b x d) w)))" for a b x d
    using file_meta_open [OF assms, of "int (tw_clock w)" a b x d] by (auto simp: on_ledger_led is_open_def)
  show ?thesis
  proof (cases res)
    case None
    then show ?thesis using finish_status_job [OF assms, of sj Timeout "Some ''transfer timed out''"]
      by (auto simp: conclude_def)
  next
    case (Some o')
    show ?thesis
    proof (cases o')
      case (Inl e)
      then show ?thesis using Some finish_status_job [OF assms, of sj "failure_status (ge_code e)" "Some (ge_message e)"]
        by (auto simp: conclude_def)
    next
      case (Inr out)
      then show ?thesis using Some
          finish_status_job [OF m [of "Some (to_file_name out)" "Some (to_file_bytes out)" "Some (to_file_sha256 out)" "to_file_id out"],
            of sj Succeeded None] by (auto simp: conclude_def)
    qed
  qed
qed

text \<open>The shape of a run: the transfer itself between the dispatch and the final record.\<close>

lemma run_file_transfer_cases:
  assumes "open_row k (tw_led w) r"
  obtains job lg res w3 where "transfer_job c cfg job rounds (w\<lparr>tw_led := lg\<rparr>) = (res, w3)" "is_open k lg"
    "is_open k (tw_led w3)"
    "j_job_id job = k" "j_source job = j_source (row_to_job sj r)" "j_destination job = j_destination (row_to_job sj r)"
    "run_file_transfer sj c cfg k rounds w = conclude k res w3"
proof -
  obtain lg1 r1 where d: "mark_dispatched k (int_dec (int (tw_clock w))) (tw_led w) = (Inr (), lg1)" "open_row k lg1 r1"
    "j_source (row_to_job sj r1) = j_source (row_to_job sj r)"
    "j_destination (row_to_job sj r1) = j_destination (row_to_job sj r)" "j_job_id (row_to_job sj r1) = k"
    using dispatched_open [OF assms] by metis
  let ?w1 = "w\<lparr>tw_led := lg1\<rparr>" and ?job = "row_to_job sj r1"
  have m: "on_ledger (\<lambda>now. mark_dispatched k (int_dec now)) w = (Inr (), ?w1)"
    using d(1) by (simp add: on_ledger_def)
  have "get_job sj k lg1 = (Inr (Some ?job), lg1)"
    using d(2) get_job_ok [of lg1 sj k] by (simp add: open_row_def job_of_def)
  then have g: "on_ledger (\<lambda>_. get_job sj k) ?w1 = (Inr (Some ?job), ?w1)" by (simp add: on_ledger_def)
  obtain res w3 where t: "transfer_job c cfg ?job rounds ?w1 = (res, w3)" by fastforce
  have "is_open k (tw_led ?w1)" using d(2) by (auto simp: is_open_def)
  moreover from this have "is_open k (tw_led w3)" using transfer_keeps_open [OF _ d(5), of ?w1 c cfg rounds] t by simp
  moreover have "run_file_transfer sj c cfg k rounds w = conclude k res w3"
    by (simp add: run_file_transfer_def conclude_def m g t split: option.split sum.split)
  ultimately show ?thesis using that [OF t _ _ d(5) d(3,4)] by simp
qed

lemma open_row_job:
  assumes "lg_faults lg = []" "job_rows_ok lg" "job_of sj lg k = Some job" "\<not> is_terminal (j_status job)"
  obtains r where "open_row k lg r" "job = row_to_job sj r"
proof -
  obtain r where r: "job_row lg k = Some r" "job = row_to_job sj r" using assms(3) by (auto simp: job_of_def)
  then have "job_row_ok r" "r ''job_id'' = SqlText k" using assms(2) job_row_key by (auto simp: job_rows_ok_def)
  then have "open_job k r" using open_job_record [of r k k sj] assms(4) r(2) by simp
  then show ?thesis using that r assms(1) by (auto simp: open_row_def open_job_def)
qed

lemma on_ledger_agents: "tw_agents (snd (on_ledger m w)) = tw_agents w"
  by (simp add: on_ledger_def split: prod.split)

lemma apart_receiving: "apart job dest a \<Longrightarrow> receiving job dest [] a"
  by (simp add: receiving_def)

lemma row_to_job_sha256: "j_file_sha256 (row_to_job sj r) = field_opt_text r ''file_sha256''"
  by (simp add: row_to_job_def)

text \<open>A run that ends in success is a transfer that succeeded, with its digest on record.\<close>

lemma run_succeeded:
  assumes "open_row k (tw_led w) r" "job_of sj (tw_led (run_file_transfer sj c cfg k rounds w)) k = Some j"
    and "j_status j = Succeeded"
  obtains job lg out w3 where "transfer_job c cfg job rounds (w\<lparr>tw_led := lg\<rparr>) = (Some (Inr out), w3)"
    "j_job_id job = k" "j_source job = j_source (row_to_job sj r)" "j_destination job = j_destination (row_to_job sj r)"
    "tw_agents (run_file_transfer sj c cfg k rounds w) = tw_agents w3" "j_file_sha256 j = Some (to_file_sha256 out)"
proof (rule run_file_transfer_cases [OF assms(1), of c cfg rounds sj])
  fix job lg res w3
  assume t: "transfer_job c cfg job rounds (w\<lparr>tw_led := lg\<rparr>) = (res, w3)" and o: "is_open k (tw_led w3)"
    and j: "j_job_id job = k" "j_source job = j_source (row_to_job sj r)" "j_destination job = j_destination (row_to_job sj r)"
    and run: "run_file_transfer sj c cfg k rounds w = conclude k res w3"
  obtain out where out: "res = Some (Inr out)"
    using conclude_job [OF o, of sj res] assms(2,3) by (auto simp: run)
  let ?w4 = "snd (on_ledger (\<lambda>now. set_job_file_meta now k (Some (to_file_name out)) (Some (to_file_bytes out))
                (Some (to_file_sha256 out)) (to_file_id out)) w3)"
  have run': "run_file_transfer sj c cfg k rounds w = snd (finish_job_status k Succeeded None ?w4)"
    using run out by (simp add: conclude_def)
  obtain r4 where r4: "open_row k (tw_led ?w4) r4" "field_opt_text r4 ''file_sha256'' = Some (to_file_sha256 out)"
    using file_meta_open [OF o, of "int (tw_clock w3)" "Some (to_file_name out)" "Some (to_file_bytes out)"
        "Some (to_file_sha256 out)" "to_file_id out"] by (auto simp: on_ledger_led)
  have "job_of sj (tw_led (snd (finish_job_status k Succeeded None ?w4))) k = Some j" using assms(2) run' by simp
  then have "j = finished (status_result k Succeeded None (int (tw_clock ?w4))) (int_dec (int (tw_clock ?w4))) (row_to_job sj r4)"
    using finish_open [OF r4(1), of sj Succeeded None] unfolding finish_job_status_def on_ledger_led by simp
  then have "j_file_sha256 j = Some (to_file_sha256 out)" using r4(2) by (simp add: finished_def row_to_job_sha256)
  moreover have "tw_agents (run_file_transfer sj c cfg k rounds w) = tw_agents w3"
    by (simp add: run' finish_job_status_def on_ledger_agents)
  ultimately show ?thesis using that [OF t [unfolded out] j] by simp
qed

lemma run_succeeds:
  assumes "open_row k (tw_led w) r"
    and "\<And>job lg. is_open k lg \<Longrightarrow> j_job_id job = k \<Longrightarrow> j_source job = j_source (row_to_job sj r) \<Longrightarrow>
      j_destination job = j_destination (row_to_job sj r) \<Longrightarrow>
      \<exists>out w3. transfer_job c cfg job rounds (w\<lparr>tw_led := lg\<rparr>) = (Some (Inr out), w3)"
  shows "\<exists>j. job_of sj (tw_led (run_file_transfer sj c cfg k rounds w)) k = Some j \<and> j_status j = Succeeded"
proof (rule run_file_transfer_cases [OF assms(1), of c cfg rounds sj])
  fix job lg res w3
  assume t: "transfer_job c cfg job rounds (w\<lparr>tw_led := lg\<rparr>) = (res, w3)" "is_open k lg" and o: "is_open k (tw_led w3)"
    and j: "j_job_id job = k" "j_source job = j_source (row_to_job sj r)" "j_destination job = j_destination (row_to_job sj r)"
    and run: "run_file_transfer sj c cfg k rounds w = conclude k res w3"
  show ?thesis using assms(2) [OF t(2) j] t(1) conclude_job [OF o, of sj res] by (auto simp: run)
qed

section \<open>Properties\<close>

text \<open>C12: every dispatched file job ends: whatever its endpoints, whatever the network does to each call,
  whichever sessions and files disappear meanwhile and wherever the time limit cuts the transfer,
  a pending job on a healthy ledger is in a final state when its transfer task is over.\<close>

theorem file_job_always_ends:
  assumes "lg_faults (tw_led w) = []" "job_rows_ok (tw_led w)" "job_of sj (tw_led w) k = Some job"
    and "\<not> is_terminal (j_status job)"
  shows "\<exists>j. job_of sj (tw_led (run_file_transfer sj c cfg k rounds w)) k = Some j \<and> is_terminal (j_status j)"
proof -
  obtain r where r: "open_row k (tw_led w) r" using open_row_job [OF assms] by blast
  show ?thesis
  proof (rule run_file_transfer_cases [OF r, of c cfg rounds sj])
    fix job lg res w3
    assume o: "is_open k (tw_led w3)" and run: "run_file_transfer sj c cfg k rounds w = conclude k res w3"
    show ?thesis using conclude_job [OF o, of sj res] by (auto simp: run)
  qed
qed

text \<open>C1: a file job between two agents that is reported successful has delivered: whatever the network does to
  its calls and whoever else uses the agents, as long as nobody writes into this job's own unfinished
  file, the destination holds a file whose digest is the one on record, and it is the source's
  content when the source did not change meanwhile.\<close>

theorem succeeded_file_job_delivered:
  assumes "lg_faults (tw_led w) = []" "job_rows_ok (tw_led w)" "job_of sj (tw_led w) k = Some job"
    and "\<not> is_terminal (j_status job)" "j_source job = Some (EpAgent a p)" "j_destination job = Some (EpAgent d q)"
    and "\<And>s. cd_unb64 c (cd_b64 c s) = Inr s"
    and "apart k q (tw_agents w d)" "\<forall>s \<in> set (tw_net w). spares d k q s"
    and "job_of sj (tw_led (run_file_transfer sj c cfg k rounds w)) k = Some j" "j_status j = Succeeded"
  shows "\<exists>b. agent_file (run_file_transfer sj c cfg k rounds w) d q = Some (NFile b) \<and>
    j_file_sha256 j = Some (cd_sha c b) \<and>
    (\<forall>content. a \<noteq> d \<longrightarrow> agent_file w a p = Some (NFile content) \<longrightarrow>
       (\<forall>s \<in> set (tw_net w). freezes a p s) \<longrightarrow> b = content)"
proof -
  obtain r where r: "open_row k (tw_led w) r" "job = row_to_job sj r" using open_row_job [OF assms(1-4)] by blast
  obtain job2 lg out w3 where t: "transfer_job c cfg job2 rounds (w\<lparr>tw_led := lg\<rparr>) = (Some (Inr out), w3)"
    and j: "j_job_id job2 = k" "j_source job2 = j_source job" "j_destination job2 = j_destination job"
    and e: "tw_agents (run_file_transfer sj c cfg k rounds w) = tw_agents w3" "j_file_sha256 j = Some (to_file_sha256 out)"
    using run_succeeded [OF r(1) assms(10,11)] unfolding r(2) by blast
  define x where "x = \<lparr>x_job_id = k, x_src_agent = a, x_src_path = p, x_dst_agent = d, x_dst_path = q,
     x_chunk = max (sc_job_file_chunk_bytes cfg) 1, x_max_bytes = sc_job_max_file_bytes cfg,
     x_deadline = tw_clock w + max (j_timeout_secs job2) 1 * 1000000\<rparr>"
  have pump: "pump_agent_to_agent c x rounds (w\<lparr>tw_led := lg\<rparr>) = (Some (Inr out), w3)"
    using t j assms(5,6) by (simp add: transfer_job_def x_def Let_def)
  have fields: "x_job_id x = k" "x_src_agent x = a" "x_src_path x = p" "x_dst_agent x = d" "x_dst_path x = q"
    by (simp_all add: x_def)
  have bt: "between x f content 0 (w\<lparr>tw_led := lg\<rparr>)"
    if "f \<longrightarrow> a \<noteq> d \<and> agent_file w a p = Some (NFile content) \<and> (\<forall>s \<in> set (tw_net w). freezes a p s)" for f content
    using that apart_receiving [OF assms(8)] assms(9) by (simp add: between_def fields j agent_file_def)
  have res: "arrived x c f content (to_file_sha256 out) w3"
    if "f \<longrightarrow> a \<noteq> d \<and> agent_file w a p = Some (NFile content) \<and> (\<forall>s \<in> set (tw_net w). freezes a p s)" for f content
    by (rule pump_result [OF pump bt [OF that] assms(7)])
  obtain b where b: "agent_file w3 d q = Some (NFile b)" "cd_sha c b = to_file_sha256 out"
    using res [of False] by (auto simp: arrived_def fields)
  have "b = content" if "a \<noteq> d" "agent_file w a p = Some (NFile content)" "\<forall>s \<in> set (tw_net w). freezes a p s" for content
    using res [of True content] that b(1) by (auto simp: arrived_def fields)
  then show ?thesis using b e by (intro exI [of _ b]) (simp add: agent_file_def)
qed

text \<open>C18: the rounds of a transfer between two agents are bounded by the size of the source: while the source
  stays as it is, every round either ends the transfer or moves at least one byte, so one round more
  than there are bytes is enough for the pump to return, with success or with an error.\<close>

theorem transfer_rounds_bounded:
  assumes "\<And>s. cd_unb64 c (cd_b64 c s) = Inr s" "x_src_agent x \<noteq> x_dst_agent x"
    and "agent_file w (x_src_agent x) (x_src_path x) = Some (NFile content)"
    and "apart (x_job_id x) (x_dst_path x) (tw_agents w (x_dst_agent x))"
    and "\<forall>s \<in> set (tw_net w). spares (x_dst_agent x) (x_job_id x) (x_dst_path x) s \<and> freezes (x_src_agent x) (x_src_path x) s"
    and "length content < rounds"
  shows "fst (pump_agent_to_agent c x rounds w) \<noteq> None"
  by (rule pump_terminates [OF _ assms(6,1)])
    (use assms(2-5) apart_receiving [OF assms(4)] in \<open>auto simp: between_def\<close>)
section \<open>Witnesses\<close>

definition demo_endpoints :: serde where
  "demo_endpoints = id_serde\<lparr>sj_endpoint := \<lambda>e. (if e = EpAgent ''a1'' ''/s'' then ''s'' else ''d''),
     sj_endpoint_dec := \<lambda>t. Some (if t = ''s'' then EpAgent ''a1'' ''/s'' else EpAgent ''a2'' ''/d'')\<rparr>"

definition demo_codec :: codec where
  "demo_codec = \<lparr>cd_sha = \<lambda>s. s, cd_b64 = \<lambda>s. s, cd_unb64 = \<lambda>s. Inr s, cd_got = \<lambda>_ n. n, cd_root = ''/t'',
     cd_meta = demo_ms\<rparr>"

definition demo_agents :: "string \<Rightarrow> file_io" where
  "demo_agents k = \<lparr>fi_writes = [], fi_fs = \<lparr>fs_tree = (if k = ''a1'' then [([''s''], NFile ''hi'')] else []), fs_faults = []\<rparr>\<rparr>"

definition demo_transfer_config :: server_config where
  "demo_transfer_config = default_server_config\<lparr>sc_job_file_chunk_bytes := 1, sc_job_max_file_bytes := 9\<rparr>"

definition demo_file_ledger :: ledger where
  "demo_file_ledger = snd (insert_job demo_endpoints
     (file_job_row ''j1'' 0 5 (EpAgent ''a1'' ''/s'') (EpAgent ''a2'' ''/d'') None) empty_ledger)"

definition demo_world :: world where
  "demo_world = \<lparr>tw_reg = [(''a1'', session_new ''a1'' 1 0), (''a2'', session_new ''a2'' 2 0)], tw_led = demo_file_ledger,
     tw_store = \<lparr>fs_tree = [], fs_faults = []\<rparr>, tw_agents = demo_agents, tw_clock = 0, tw_job_seq = 0, tw_net = []\<rparr>"
abbreviation demo_files :: "(string \<times> write_session) list \<Rightarrow> (loc \<times> node) list \<Rightarrow> file_io" where
  "demo_files ws t \<equiv> \<lparr>fi_writes = ws, fi_fs = \<lparr>fs_tree = t, fs_faults = []\<rparr>\<rparr>"

abbreviation demo_part :: file_io where
  "demo_part \<equiv> demo_files [(''j1'', \<lparr>ws_path = ''/d'', ws_tmp_path = ''/d.gse-tmp-j1'', ws_hasher = ''h'',
     ws_next_offset = 1, ws_last_write = 0\<rparr>)] [([''d.gse-tmp-j1''], NFile ''h'')]"

lemma demo_read1:
  "handle_read (\<lambda>s. s) (\<lambda>s. s) (\<lambda>_ n. n)
     (Inr \<lparr>rq_job_id = ''j1'', rq_path = ''/s'', rq_offset = 0, rq_length = 1, rq_max_bytes = 9\<rparr>)
     (demo_files [] [([''s''], NFile ''hi'')]) =
   (\<lparr>rr_job_id = ''j1'', rr_size = 2, rr_offset = 0, rr_eof = False, rr_data_b64 = ''h'', rr_chunk_sha256 = ''h'',
      rr_file_sha256 = None, rr_error = None\<rparr>, demo_files [] [([''s''], NFile ''hi'')])"
  by code_simp

lemma demo_read2:
  "handle_read (\<lambda>s. s) (\<lambda>s. s) (\<lambda>_ n. n)
     (Inr \<lparr>rq_job_id = ''j1'', rq_path = ''/s'', rq_offset = 1, rq_length = 1, rq_max_bytes = 9\<rparr>)
     (demo_files [] [([''s''], NFile ''hi'')]) =
   (\<lparr>rr_job_id = ''j1'', rr_size = 2, rr_offset = 1, rr_eof = True, rr_data_b64 = ''i'', rr_chunk_sha256 = ''i'',
      rr_file_sha256 = Some ''hi'', rr_error = None\<rparr>, demo_files [] [([''s''], NFile ''hi'')])"
  by code_simp

lemma demo_write1:
  "handle_write (\<lambda>s. s) Some 0
     (Inr \<lparr>wq_job_id = ''j1'', wq_path = ''/d'', wq_offset = 0, wq_eof = False, wq_data_b64 = ''h'',
        wq_chunk_sha256 = ''h'', wq_file_sha256 = None\<rparr>) (demo_files [] []) =
   (\<lparr>wr_job_id = ''j1'', wr_written = 1, wr_eof = False, wr_file_sha256 = None, wr_error = None\<rparr>, demo_part)"
  by code_simp

lemma demo_write2:
  "handle_write (\<lambda>s. s) Some 0
     (Inr \<lparr>wq_job_id = ''j1'', wq_path = ''/d'', wq_offset = 1, wq_eof = True, wq_data_b64 = ''i'',
        wq_chunk_sha256 = ''i'', wq_file_sha256 = Some ''hi''\<rparr>) demo_part =
   (\<lparr>wr_job_id = ''j1'', wr_written = 1, wr_eof = True, wr_file_sha256 = Some ''hi'', wr_error = None\<rparr>,
    demo_files [] [([''d''], NFile ''hi'')])"
  by code_simp

lemma demo_codec_law: "cd_unb64 demo_codec (cd_b64 demo_codec s) = Inr s"
  by (simp add: demo_codec_def)

lemmas demo_steps = demo_read1 [unfolded One_nat_def] demo_read2 [unfolded One_nat_def]
  demo_write1 [unfolded One_nat_def] demo_write2 [unfolded One_nat_def]

lemma demo_job_open:
  "\<exists>j. job_of demo_endpoints demo_file_ledger ''j1'' = Some j \<and> j_job_id j = ''j1'' \<and> j_status j = Pending \<and>
     j_timeout_secs j = 5 \<and> j_source j = Some (EpAgent ''a1'' ''/s'') \<and> j_destination j = Some (EpAgent ''a2'' ''/d'')"
  by (simp add: demo_file_ledger_def demo_endpoints_def file_job_row_def demo_eval parse_endpoint_def opt_json_def
    list_primary_def sql_opt_text_def sql_opt_int_def filter_opt_def u64_as_i64_def field_i64_def status_parse_def)

lemma demo_ledger_file_ok: "job_rows_ok demo_file_ledger" "lg_faults demo_file_ledger = []"
proof -
  have "demo_file_ledger = run_job_ops demo_endpoints
     [OpInsert (file_job_row ''j1'' 0 5 (EpAgent ''a1'' ''/s'') (EpAgent ''a2'' ''/d'') None)] empty_ledger"
    by (simp add: demo_file_ledger_def run_job_ops_def)
  with run_job_ops_ok [OF job_rows_ok_empty] show "job_rows_ok demo_file_ledger" by metis
  show "lg_faults demo_file_ledger = []" by (simp add: demo_file_ledger_def demo_eval)
qed

lemma demo_codec_simps: "agent_unb64 demo_codec = Some" "cd_sha demo_codec = (\<lambda>s. s)" "cd_b64 demo_codec = (\<lambda>s. s)"
    "cd_unb64 demo_codec s = Inr s" "cd_got demo_codec = (\<lambda>_ n. n)"
  by (simp_all add: fun_eq_iff agent_unb64_def demo_codec_def)

lemma demo_pump:
  assumes "is_open ''j1'' lg" "0 < x_deadline x"
    and "x_job_id x = ''j1''" "x_src_agent x = ''a1''" "x_src_path x = ''/s''" "x_dst_agent x = ''a2''"
    "x_dst_path x = ''/d''" "x_chunk x = 1" "x_max_bytes x = 9"
  shows "\<exists>out w'. pump_agent_to_agent demo_codec x 3 (demo_world\<lparr>tw_led := lg\<rparr>) = (Some (Inr out), w')"
proof -
  have run: "\<exists>lg1. mark_running ''j1'' t lg = (Inr (), lg1)" for t
  proof -
    have "lg_faults lg = []" using assms(1) by (auto simp: is_open_def open_row_def)
    then show ?thesis by (simp add: mark_running_def update_jobs_ok prod_eq_iff)
  qed
  show ?thesis using assms(2-9) run [of "int_dec 0"]
    by (auto simp: pump_agent_to_agent_def numeral_3_eq_3 agent_to_agent_round_def tr_bind_def file_read_def file_write_def
      online_session_def chunk_timeout_def read_req_def write_req_def rpc_def next_step_def quiet_step_def
      start_running_def tr_return_def mark_running_now_def on_ledger_def demo_codec_simps
      decoded_len_def decode_b64_def demo_agents_def demo_steps demo_world_def
      reg_get_def bt_get_def session_new_def Let_def)
qed

lemma demo_world_led: "tw_led demo_world = demo_file_ledger" "tw_net demo_world = []"
  by (simp_all add: demo_world_def)

lemma demo_world_ok: "lg_faults (tw_led demo_world) = []" "job_rows_ok (tw_led demo_world)"
  using demo_ledger_file_ok by (simp_all add: demo_world_led)

lemma demo_transfer:
  assumes "is_open ''j1'' lg" "j_job_id job = ''j1''" "j_source job = Some (EpAgent ''a1'' ''/s'')"
    and "j_destination job = Some (EpAgent ''a2'' ''/d'')"
  shows "\<exists>out w'. transfer_job demo_codec demo_transfer_config job 3 (demo_world\<lparr>tw_led := lg\<rparr>) = (Some (Inr out), w')"
proof -
  define x where "x = \<lparr>x_job_id = ''j1'', x_src_agent = ''a1'', x_src_path = ''/s'', x_dst_agent = ''a2'',
      x_dst_path = ''/d'', x_chunk = 1, x_max_bytes = 9,
      x_deadline = tw_clock demo_world + max (j_timeout_secs job) 1 * 1000000\<rparr>"
  have "transfer_job demo_codec demo_transfer_config job 3 (demo_world\<lparr>tw_led := lg\<rparr>) =
      pump_agent_to_agent demo_codec x 3 (demo_world\<lparr>tw_led := lg\<rparr>)"
    using assms(2-4) by (simp add: transfer_job_def demo_transfer_config_def Let_def x_def)
  moreover have "0 < x_deadline x" by (simp add: x_def less_max_iff_disj)
  ultimately show ?thesis using demo_pump [OF assms(1), of x] by (simp add: x_def)
qed

lemma demo_run_succeeds:
  "\<exists>j. job_of demo_endpoints (tw_led (run_file_transfer demo_endpoints demo_codec demo_transfer_config ''j1'' 3 demo_world)) ''j1'' = Some j \<and>
     j_status j = Succeeded"
proof -
  obtain j0 where j0: "job_of demo_endpoints demo_file_ledger ''j1'' = Some j0" "\<not> is_terminal (j_status j0)"
    "j_source j0 = Some (EpAgent ''a1'' ''/s'')" "j_destination j0 = Some (EpAgent ''a2'' ''/d'')"
    using demo_job_open by auto
  obtain r where r: "open_row ''j1'' (tw_led demo_world) r" "j0 = row_to_job demo_endpoints r"
    using open_row_job [OF demo_ledger_file_ok(2,1) j0(1,2)] by (auto simp: demo_world_def)
  show ?thesis
    by (rule run_succeeds [OF r(1)], rule demo_transfer) (simp_all add: j0 r(2) [symmetric])
qed

lemma file_job_always_ends_witness:
  "\<exists>j. job_of demo_endpoints (tw_led (run_file_transfer demo_endpoints demo_codec demo_transfer_config ''j1'' 1 demo_world)) ''j1'' = Some j \<and>
     is_terminal (j_status j)"
proof -
  obtain j0 where j0: "job_of demo_endpoints demo_file_ledger ''j1'' = Some j0" "\<not> is_terminal (j_status j0)"
    using demo_job_open by auto
  show ?thesis
    using file_job_always_ends [OF demo_world_ok, of demo_endpoints "''j1''" j0] j0 by (simp add: demo_world_led)
qed

lemma demo_agent_files:
  "agent_file demo_world ''a1'' ''/s'' = Some (NFile ''hi'')" "apart k q (tw_agents demo_world ''a2'')"
proof -
  have "lookup [([''s''], NFile ''hi'')] ''/s'' = Some (NFile ''hi'')" by code_simp
  then show "agent_file demo_world ''a1'' ''/s'' = Some (NFile ''hi'')"
    by (simp add: agent_file_def demo_world_def demo_agents_def)
  show "apart k q (tw_agents demo_world ''a2'')" by (simp add: apart_def demo_world_def demo_agents_def)
qed

lemma succeeded_file_job_delivered_witness:
  "agent_file (run_file_transfer demo_endpoints demo_codec demo_transfer_config ''j1'' 3 demo_world) ''a2'' ''/d'' = Some (NFile ''hi'')"
proof -
  obtain j0 where j0: "job_of demo_endpoints (tw_led demo_world) ''j1'' = Some j0" "\<not> is_terminal (j_status j0)"
    "j_source j0 = Some (EpAgent ''a1'' ''/s'')" "j_destination j0 = Some (EpAgent ''a2'' ''/d'')"
    using demo_job_open by (auto simp: demo_world_led)
  obtain j where j: "job_of demo_endpoints (tw_led (run_file_transfer demo_endpoints demo_codec demo_transfer_config ''j1'' 3 demo_world)) ''j1'' = Some j"
    "j_status j = Succeeded" using demo_run_succeeds by blast
  show ?thesis
    using succeeded_file_job_delivered [OF demo_world_ok j0 demo_codec_law demo_agent_files(2) _ j] demo_agent_files(1)
    by (simp add: demo_world_led)
qed

definition demo_xfer :: xfer where
  "demo_xfer = \<lparr>x_job_id = ''j1'', x_src_agent = ''a1'', x_src_path = ''/s'', x_dst_agent = ''a2'', x_dst_path = ''/d'',
     x_chunk = 1, x_max_bytes = 9, x_deadline = 5\<rparr>"

lemma transfer_rounds_bounded_witness:
  "fst (pump_agent_to_agent demo_codec demo_xfer 3 demo_world) \<noteq> None"
  by (rule transfer_rounds_bounded [OF demo_codec_law, where content = "''hi''"])
    (use demo_agent_files in \<open>simp_all add: demo_xfer_def demo_world_def\<close>)

end
