(* ===== verification/Ebpf_Abi.thy ===== *)
theory Ebpf_Abi
  imports Prelude "HOL-Library.Word"
begin

text \<open>
  \<^verbatim>\<open>crates/ebpf-abi/src/lib.rs\<close>: the layout and the pure decisions shared by the kernel programs and
  the agent. Integers keep their width: the kernel programs are built without overflow checks, so
  \<^verbatim>\<open>+\<close> and \<^verbatim>\<open>*\<close> wrap there.
\<close>

unbundle bit_operations_syntax

type_synonym u8 = "8 word"
type_synonym u16 = "16 word"
type_synonym u32 = "32 word"
type_synonym u64 = "64 word"

section \<open>Saturating arithmetic\<close>

definition sat_add :: "'a::len word \<Rightarrow> 'a word \<Rightarrow> 'a word" where
  "sat_add a b = (if a + b < a then - 1 else a + b)"

definition sat_sub :: "'a::len word \<Rightarrow> 'a word \<Rightarrow> 'a word" where
  "sat_sub a b = (if a < b then 0 else a - b)"

lemma sat_add_exact: "unat a + unat b < 2 ^ LENGTH('a) \<Longrightarrow> unat (sat_add a b) = unat a + unat (b :: 'a::len word)"
  by (auto simp: sat_add_def word_less_nat_alt unat_word_ariths)

lemma sat_add_le: "unat (sat_add a b) \<le> unat a + unat (b :: 'a::len word)"
proof (cases "unat a + unat b < 2 ^ LENGTH('a)")
  case False
  moreover have "unat (sat_add a b) < 2 ^ LENGTH('a)" by (rule unsigned_less)
  ultimately show ?thesis by linarith
qed (simp add: sat_add_exact)

lemma unat_drop: "unat (drop_bit n w) = unat w div 2 ^ n"
  by (metis unat_drop_bit_eq drop_bit_eq_div)

lemma sat_sub_exact: "unat (sat_sub a b) = unat a - unat (b :: 'a::len word)"
  by (auto simp: sat_sub_def word_less_nat_alt unat_sub_if')

section \<open>Layout\<close>

definition HIST_SLOTS :: nat where "HIST_SLOTS = 32"

definition TASK_COMM_LEN :: nat where "TASK_COMM_LEN = 16"

definition SLOW_IO_PATH_LEN :: nat where "SLOW_IO_PATH_LEN = 256"

record conn_key =
  ck_pid :: u32
  ck_cgroup_id :: u64
  ck_saddr :: u32
  ck_daddr :: u32
  ck_sport :: u16
  ck_dport :: u16
  ck_protocol :: u8

record conn_agg_wire =
  cw_connections :: u64
  cw_failures :: u64
  cw_failure_reason :: u32
  cw_bytes_sent :: u64
  cw_bytes_recv :: u64
  cw_duration_sum_us :: u64
  cw_duration_max_us :: u64
  cw_tcp_retrans :: u64
  cw_tcp_resets :: u64
  cw_latency_hist :: "u64 list"

definition REASON_NONE :: u32 where "REASON_NONE = 0"
definition REASON_REFUSED :: u32 where "REASON_REFUSED = 1"
definition REASON_TIMEOUT :: u32 where "REASON_TIMEOUT = 2"
definition REASON_UNREACHABLE :: u32 where "REASON_UNREACHABLE = 3"
definition REASON_RESET :: u32 where "REASON_RESET = 4"
definition REASON_OTHER :: u32 where "REASON_OTHER = 5"

definition default_conn_agg_wire :: conn_agg_wire where
  "default_conn_agg_wire =
     \<lparr>cw_connections = 0, cw_failures = 0, cw_failure_reason = REASON_NONE, cw_bytes_sent = 0, cw_bytes_recv = 0,
      cw_duration_sum_us = 0, cw_duration_max_us = 0, cw_tcp_retrans = 0, cw_tcp_resets = 0,
      cw_latency_hist = replicate HIST_SLOTS 0\<rparr>"

record proc_key =
  pk_pid :: u32
  pk_cgroup_id :: u64
  pk_comm :: "u8 list"

record proc_agg_wire =
  pa_exec :: u64
  pa_exit :: u64
  pa_fork :: u64

definition default_proc_agg_wire :: proc_agg_wire where
  "default_proc_agg_wire = \<lparr>pa_exec = 0, pa_exit = 0, pa_fork = 0\<rparr>"

record raw_event =
  re_kind :: u32
  re_code :: u32
  re_pid :: u32
  re_timestamp_ns :: u64
  re_cgroup_id :: u64
  re_saddr :: u32
  re_daddr :: u32
  re_sport :: u16
  re_dport :: u16
  re_protocol :: u8
  re_comm :: "u8 list"
  re_conn_pid :: u32

definition default_raw_event :: raw_event where
  "default_raw_event =
     \<lparr>re_kind = 0, re_code = 0, re_pid = 0, re_timestamp_ns = 0, re_cgroup_id = 0, re_saddr = 0, re_daddr = 0,
      re_sport = 0, re_dport = 0, re_protocol = 0, re_comm = replicate TASK_COMM_LEN 0, re_conn_pid = 0\<rparr>"

definition EVENT_KIND_CONNECT :: u32 where "EVENT_KIND_CONNECT = 1"
definition EVENT_KIND_ACCEPT :: u32 where "EVENT_KIND_ACCEPT = 2"
definition EVENT_KIND_CLOSE :: u32 where "EVENT_KIND_CLOSE = 3"
definition EVENT_KIND_PROCESS_EXEC :: u32 where "EVENT_KIND_PROCESS_EXEC = 10"
definition EVENT_KIND_PROCESS_EXIT :: u32 where "EVENT_KIND_PROCESS_EXIT = 11"
definition EVENT_KIND_PROCESS_FORK :: u32 where "EVENT_KIND_PROCESS_FORK = 12"

definition SYSCALL_OP_OPENAT :: u32 where "SYSCALL_OP_OPENAT = 1"
definition SYSCALL_OP_READ :: u32 where "SYSCALL_OP_READ = 2"
definition SYSCALL_OP_WRITE :: u32 where "SYSCALL_OP_WRITE = 3"
definition SYSCALL_OP_FSYNC :: u32 where "SYSCALL_OP_FSYNC = 4"

definition syscall_op_name :: "u32 \<Rightarrow> string" where
  "syscall_op_name op =
     (if op = SYSCALL_OP_OPENAT then ''openat'' else if op = SYSCALL_OP_READ then ''read''
      else if op = SYSCALL_OP_WRITE then ''write'' else if op = SYSCALL_OP_FSYNC then ''fsync'' else ''unknown'')"

record syscall_key =
  sk_pid :: u32
  sk_cgroup_id :: u64
  sk_op :: u32
  sk_comm :: "u8 list"

record syscall_agg_wire =
  sw_calls :: u64
  sw_errors :: u64
  sw_duration_sum_us :: u64
  sw_duration_max_us :: u64
  sw_hist :: "u64 list"

definition default_syscall_agg_wire :: syscall_agg_wire where
  "default_syscall_agg_wire =
     \<lparr>sw_calls = 0, sw_errors = 0, sw_duration_sum_us = 0, sw_duration_max_us = 0, sw_hist = replicate HIST_SLOTS 0\<rparr>"

record syscall_err_key =
  ek_errno :: u32
  ek_op :: u32

record slow_io_event =
  sl_op :: u32
  sl_path_len :: u32
  sl_pid :: u32
  sl_errno :: u32
  sl_timestamp_ns :: u64
  sl_cgroup_id :: u64
  sl_duration_us :: u64
  sl_comm :: "u8 list"
  sl_path :: "u8 list"

definition default_slow_io_event :: slow_io_event where
  "default_slow_io_event =
     \<lparr>sl_op = 0, sl_path_len = 0, sl_pid = 0, sl_errno = 0, sl_timestamp_ns = 0, sl_cgroup_id = 0, sl_duration_us = 0,
      sl_comm = replicate TASK_COMM_LEN 0, sl_path = replicate SLOW_IO_PATH_LEN 0\<rparr>"

text \<open>The absolute value of the error number decides.\<close>

definition reason_from_errno :: "int \<Rightarrow> u32" where
  "reason_from_errno errno =
     (if \<bar>errno\<bar> = 111 then REASON_REFUSED else if \<bar>errno\<bar> = 110 then REASON_TIMEOUT
      else if \<bar>errno\<bar> = 104 then REASON_RESET else if \<bar>errno\<bar> = 101 \<or> \<bar>errno\<bar> = 113 then REASON_UNREACHABLE
      else REASON_OTHER)"

datatype cfg_index =
    Version | SockDaddr | SockRcvSaddr | SockDport | SockNum | SockFamily | SockProtocol
  | FamilyInet | FamilyInet6
  | TpOldState | TpNewState | TpSport | TpDport | TpFamily | TpSaddr | TpDaddr | TpSaddrV6 | TpDaddrV6
  | TcpEstablished | TcpSynSent | TcpSynRecv | TcpFinWait1 | TcpFinWait2 | TcpTimeWait | TcpClose | TcpCloseWait
  | TcpLastAck | TcpListen | TcpClosing | TcpNewSynRecv
  | IncludeLoopback | RawEventsEnabled | RateLimitTokensPerTick | RateLimitBurst
  | SysOpenatFilename | SysExitRet | SlowThresholdMicros | Reserved

definition cfg_indices :: "cfg_index list" where
  "cfg_indices =
    [Version, SockDaddr, SockRcvSaddr, SockDport, SockNum, SockFamily, SockProtocol,
     FamilyInet, FamilyInet6,
     TpOldState, TpNewState, TpSport, TpDport, TpFamily, TpSaddr, TpDaddr, TpSaddrV6, TpDaddrV6,
     TcpEstablished, TcpSynSent, TcpSynRecv, TcpFinWait1, TcpFinWait2, TcpTimeWait, TcpClose, TcpCloseWait,
     TcpLastAck, TcpListen, TcpClosing, TcpNewSynRecv,
     IncludeLoopback, RawEventsEnabled, RateLimitTokensPerTick, RateLimitBurst,
     SysOpenatFilename, SysExitRet, SlowThresholdMicros, Reserved]"

text \<open>The position of a parameter in the \<^verbatim>\<open>CFG\<close> array.\<close>

definition cfg_pos :: "cfg_index \<Rightarrow> nat" where
  "cfg_pos i = length (takeWhile (\<lambda>j. j \<noteq> i) cfg_indices)"

definition CFG_LEN :: nat where "CFG_LEN = 64"

definition CFG_VERSION :: u64 where "CFG_VERSION = 1"

lemma cfg_pos_less: "cfg_pos i < CFG_LEN"
  by (cases i) (simp_all add: cfg_pos_def cfg_indices_def CFG_LEN_def)

lemma cfg_pos_inj: "cfg_pos i = cfg_pos j \<longleftrightarrow> i = j"
  by (cases i; cases j) (simp_all add: cfg_pos_def cfg_indices_def)

section \<open>Token bucket\<close>

definition TOKEN_TICK_SHIFT :: nat where "TOKEN_TICK_SHIFT = 20"

definition TOKEN_TICKS_PER_SEC :: u64 where "TOKEN_TICKS_PER_SEC = drop_bit TOKEN_TICK_SHIFT 1000000000"

definition tokens_per_tick :: "u64 \<Rightarrow> u64" where
  "tokens_per_tick rate_per_sec =
     (let raw = rate_per_sec div TOKEN_TICKS_PER_SEC
      in if rate_per_sec mod TOKEN_TICKS_PER_SEC = 0 then raw else raw + 1)"

definition burst_for_rate :: "u64 \<Rightarrow> u64" where
  "burst_for_rate rate_per_sec =
     (let burst = rate_per_sec div 10 in if burst = 0 then 1 else if burst > 10000 then 10000 else burst)"

text \<open>The tokens on hand at \<open>now_ns\<close>, before one is spent.\<close>

definition refilled :: "u64 \<Rightarrow> u64 \<Rightarrow> u64 \<Rightarrow> u64 \<Rightarrow> u64 \<Rightarrow> u64" where
  "refilled tokens last_ns now_ns tpt burst =
     (if last_ns = 0 \<or> tpt = 0 then burst
      else let ticks = drop_bit TOKEN_TICK_SHIFT (sat_sub now_ns last_ns);
               max_ticks = burst div tpt + 1;
               refill = (if ticks > max_ticks then max_ticks else ticks) * tpt;
               filled = sat_add tokens refill
           in if filled > burst then burst else filled)"

definition token_bucket_step :: "u64 \<Rightarrow> u64 \<Rightarrow> u64 \<Rightarrow> u64 \<Rightarrow> u64 \<Rightarrow> u64 \<times> bool" where
  "token_bucket_step tokens last_ns now_ns tpt burst0 =
     (let burst = (if burst0 = 0 then 1 else burst0);
          available = refilled tokens last_ns now_ns tpt burst
      in if available = 0 then (0, False) else (available - 1, True))"

text \<open>The bucket on a schedule of events on one processor, as \<^verbatim>\<open>rate_allow\<close> keeps it: tokens left, time of the last event.\<close>

fun bucket_run :: "u64 \<Rightarrow> u64 \<Rightarrow> u64 \<Rightarrow> u64 \<Rightarrow> u64 list \<Rightarrow> bool list \<times> u64" where
  "bucket_run tpt burst tokens last_ns [] = ([], tokens)"
| "bucket_run tpt burst tokens last_ns (now # nows) =
     (let (tokens', ok) = token_bucket_step tokens last_ns now tpt burst;
          (oks, rest) = bucket_run tpt burst tokens' now nows
      in (ok # oks, rest))"

definition allowed :: "bool list \<Rightarrow> nat" where
  "allowed oks = length (filter (\<lambda>b. b) oks)"

lemma allowed_Cons: "allowed (ok # oks) = of_bool ok + allowed oks"
  by (simp add: allowed_def)

lemma step_tokens:
  assumes "token_bucket_step tokens last_ns now tpt burst = (tokens', ok)" "burst \<noteq> 0"
  shows "unat tokens' + of_bool ok = unat (refilled tokens last_ns now tpt burst)"
proof (cases "refilled tokens last_ns now tpt burst = 0")
  case False
  then have "unat (refilled tokens last_ns now tpt burst - 1) + 1 = unat (refilled tokens last_ns now tpt burst)"
    by (simp add: unat_minus_one unat_gt_0)
  then show ?thesis using assms False by (auto simp: token_bucket_step_def Let_def)
qed (use assms in \<open>auto simp: token_bucket_step_def Let_def\<close>)

text \<open>Without wrap-around a step refills at most one portion per full tick.\<close>

lemma refilled_le:
  assumes "last_ns \<noteq> 0" "tpt \<noteq> 0" "unat burst + unat tpt < 2 ^ 64"
  shows "unat (refilled tokens last_ns now tpt burst) \<le> unat tokens + (unat now - unat last_ns) div 2 ^ 20 * unat tpt"
proof -
  let ?ticks = "drop_bit TOKEN_TICK_SHIFT (sat_sub now last_ns)" and ?max = "burst div tpt + 1"
  let ?t = "if ?ticks > ?max then ?max else ?ticks"
  have t0: "unat tpt > 0" using assms(2) by (simp add: unat_gt_0)
  have q: "unat burst div unat tpt * unat tpt \<le> unat burst" by simp
  have "(unat burst div unat tpt + 1) * unat tpt = unat burst div unat tpt * unat tpt + unat tpt" by simp
  with q have m2: "(unat burst div unat tpt + 1) * unat tpt < 2 ^ 64" using assms(3) by linarith
  have "unat burst div unat tpt + 1 \<le> (unat burst div unat tpt + 1) * unat tpt"
    using mult_le_mono2 [of 1 "unat tpt" "unat burst div unat tpt + 1"] t0 by (simp only: mult_1_right)
  then have m1: "unat ?max = unat burst div unat tpt + 1" using m2
    by (simp add: unat_word_ariths unat_div_distrib)
  have tk: "unat ?ticks = (unat now - unat last_ns) div 2 ^ 20"
    by (simp add: unat_drop sat_sub_exact TOKEN_TICK_SHIFT_def)
  have tl: "unat ?t \<le> unat ?ticks" "unat ?t \<le> unat ?max" by (auto simp: word_less_nat_alt)
  have "unat ?t * unat tpt \<le> (unat burst div unat tpt + 1) * unat tpt"
    by (rule mult_le_mono1 [OF tl(2) [unfolded m1]])
  then have lt: "unat ?t * unat tpt < 2 ^ 64" using m2 by (rule le_less_trans)
  have mul: "unat (?t * tpt) = unat ?t * unat tpt"
    unfolding unat_word_ariths(2) by (rule mod_less) (use lt in simp)
  have "unat (sat_add tokens (?t * tpt)) \<le> unat tokens + unat ?t * unat tpt"
    using sat_add_le [of tokens "?t * tpt"] mul by simp
  also have "\<dots> \<le> unat tokens + (unat now - unat last_ns) div 2 ^ 20 * unat tpt"
    using tl(1) tk by simp
  finally show ?thesis using assms(1,2) by (auto simp: refilled_def Let_def word_less_nat_alt)
qed

text \<open>Between two ticks nothing is refilled.\<close>

lemma refilled_quick:
  assumes "last_ns \<noteq> 0" "tpt \<noteq> 0" "unat now - unat last_ns < 2 ^ 20"
  shows "refilled tokens last_ns now tpt burst = (if tokens > burst then burst else tokens)"
proof -
  have "unat (drop_bit TOKEN_TICK_SHIFT (sat_sub now last_ns)) = 0"
    using assms(3) by (simp add: unat_drop sat_sub_exact TOKEN_TICK_SHIFT_def)
  then have "drop_bit TOKEN_TICK_SHIFT (sat_sub now last_ns) = 0" by (simp add: unat_eq_zero)
  then show ?thesis using assms(1,2) by (simp add: refilled_def sat_add_def)
qed

section \<open>Histogram\<close>

definition leading_zeros :: "'a::len word \<Rightarrow> nat" where
  "leading_zeros w = length (takeWhile (\<lambda>i. \<not> bit w i) (rev [0..<LENGTH('a)]))"

definition hist_slot :: "u64 \<Rightarrow> nat" where
  "hist_slot micros =
     (if micros = 0 then 0
      else let index = 63 - leading_zeros micros in if index \<ge> HIST_SLOTS then HIST_SLOTS - 1 else index)"

lemma len64: "LENGTH(64) = 64"
  by simp

lemma leading_zeros_bits:
  assumes "w \<noteq> (0 :: 'a::len word)"
  shows "leading_zeros w < LENGTH('a)" "bit w (LENGTH('a) - 1 - leading_zeros w)"
    "\<And>i. LENGTH('a) - 1 - leading_zeros w < i \<Longrightarrow> \<not> bit w i"
proof -
  let ?xs = "rev [0..<LENGTH('a)]"
  obtain j where j: "bit w j" using assms by (auto simp: bit_eq_iff)
  then have jl: "j < LENGTH('a)" by (rule bit_imp_le_length)
  show lz: "leading_zeros w < LENGTH('a)"
  proof (rule ccontr)
    assume "\<not> leading_zeros w < LENGTH('a)"
    then have "takeWhile (\<lambda>i. \<not> bit w i) ?xs = ?xs"
      using length_takeWhile_le [of "\<lambda>i. \<not> bit w i" ?xs]
      by (metis leading_zeros_def length_rev length_upt diff_zero linorder_not_less takeWhile_eq_take take_all)
    then show False using j jl by (simp add: takeWhile_eq_all_conv)
  qed
  then have "\<not> \<not> bit w (?xs ! leading_zeros w)"
    unfolding leading_zeros_def by (intro nth_length_takeWhile) simp
  moreover have "?xs ! leading_zeros w = LENGTH('a) - 1 - leading_zeros w" using lz by (simp add: rev_nth)
  ultimately show "bit w (LENGTH('a) - 1 - leading_zeros w)" by simp
  show "\<not> bit w i" if i: "LENGTH('a) - 1 - leading_zeros w < i" for i
  proof (cases "i < LENGTH('a)")
    case True
    let ?m = "LENGTH('a) - 1 - i"
    have m: "?m < leading_zeros w" using True i by linarith
    then have "takeWhile (\<lambda>i. \<not> bit w i) ?xs ! ?m = ?xs ! ?m"
      unfolding leading_zeros_def by (rule takeWhile_nth)
    moreover have "?xs ! ?m = i" using True by (simp add: rev_nth)
    moreover have "takeWhile (\<lambda>i. \<not> bit w i) ?xs ! ?m \<in> set (takeWhile (\<lambda>i. \<not> bit w i) ?xs)"
      using m unfolding leading_zeros_def by (rule nth_mem)
    ultimately show ?thesis using set_takeWhileD by fastforce
  next
    case False
    then show ?thesis using bit_imp_le_length by fastforce
  qed
qed

lemma leading_zeros_bounds:
  assumes "w \<noteq> (0 :: 'a::len word)"
  shows "2 ^ (LENGTH('a) - 1 - leading_zeros w) \<le> unat w" "unat w < 2 ^ (LENGTH('a) - leading_zeros w)"
proof -
  let ?k = "LENGTH('a) - 1 - leading_zeros w"
  have "bit (unat w) ?k" using leading_zeros_bits(2) [OF assms] bit_imp_le_length
    by (simp add: bit_unsigned_iff)
  then have "unat w div 2 ^ ?k \<noteq> 0" unfolding bit_iff_odd by (metis even_zero)
  then show "2 ^ ?k \<le> unat w" using div_less linorder_not_less by blast
  have "w = take_bit (Suc ?k) w"
  proof (rule bit_word_eqI)
    show "bit w n = bit (take_bit (Suc ?k) w) n" for n
      using leading_zeros_bits(3) [OF assms, of n] by (cases "n \<le> ?k") (simp_all add: bit_take_bit_iff)
  qed
  then have "unat w = take_bit (Suc ?k) (unat w)" by (metis unsigned_take_bit_eq)
  then have "unat w < 2 ^ Suc ?k" by (metis take_bit_nat_less_exp)
  moreover have "Suc ?k = LENGTH('a) - leading_zeros w" using leading_zeros_bits(1) [OF assms] by linarith
  ultimately show "unat w < 2 ^ (LENGTH('a) - leading_zeros w)" by metis
qed

definition hist_slot_upper_micros :: "nat \<Rightarrow> u64" where
  "hist_slot_upper_micros slot = (if slot + 1 \<ge> HIST_SLOTS then - 1 else push_bit (slot + 1) 1)"

lemma div_gaps: "a \<le> b \<Longrightarrow> b \<le> c \<Longrightarrow> (b - a) div d + (c - b) div d \<le> (c - a) div (d :: nat)"
proof -
  assume "a \<le> b" "b \<le> c"
  then have "c - a = (b - a) + (c - b)" by simp
  then show ?thesis by (metis div_add1_eq le_add1)
qed

text \<open>C21: the rate limiter keeps its promise from above: over any sequence of events at increasing times, the
  number let through is at most the tokens on hand plus one portion for each full tick that passed.\<close>

theorem rate_limit_bound:
  assumes "last_ns \<noteq> 0" "tpt \<noteq> 0" "burst \<noteq> 0" "unat burst + unat tpt < 2 ^ 64" "sorted_wrt (\<le>) (last_ns # nows)"
  shows "allowed (fst (bucket_run tpt burst tokens last_ns nows)) + unat (snd (bucket_run tpt burst tokens last_ns nows)) \<le>
    unat tokens + (unat (last (last_ns # nows)) - unat last_ns) div 2 ^ 20 * unat tpt"
  using assms(1,5)
proof (induction nows arbitrary: tokens last_ns)
  case (Cons now nows)
  obtain tokens' ok where s: "token_bucket_step tokens last_ns now tpt burst = (tokens', ok)" by fastforce
  obtain oks rest where r: "bucket_run tpt burst tokens' now nows = (oks, rest)" by fastforce
  have le: "last_ns \<le> now" "now \<le> last (now # nows)" using Cons.prems(2) by auto
  then have n0: "now \<noteq> 0" using Cons.prems(1) by auto
  have "allowed oks + unat rest \<le> unat tokens' + (unat (last (now # nows)) - unat now) div 2 ^ 20 * unat tpt"
    using Cons.IH [of now tokens'] n0 Cons.prems(2) r by simp
  moreover have "unat tokens' + of_bool ok \<le> unat tokens + (unat now - unat last_ns) div 2 ^ 20 * unat tpt"
    using step_tokens [OF s assms(3)] refilled_le [OF Cons.prems(1) assms(2,4), of tokens now] by simp
  moreover have "(unat now - unat last_ns) div 2 ^ 20 + (unat (last (now # nows)) - unat now) div 2 ^ 20 \<le>
      (unat (last (now # nows)) - unat last_ns) div 2 ^ 20"
    using le by (intro div_gaps) (simp_all add: word_le_nat_alt)
  then have "((unat now - unat last_ns) div 2 ^ 20 + (unat (last (now # nows)) - unat now) div 2 ^ 20) * unat tpt \<le>
      (unat (last (now # nows)) - unat last_ns) div 2 ^ 20 * unat tpt"
    by (rule mult_le_mono1)
  ultimately have "allowed (ok # oks) + unat rest \<le>
      unat tokens + (unat (last (now # nows)) - unat last_ns) div 2 ^ 20 * unat tpt"
    unfolding allowed_Cons add_mult_distrib by linarith
  then show ?case using s r by simp
qed (simp add: allowed_def)

text \<open>A steady stream starves: when the events on a processor follow each other in less than a tick, about a
  millisecond, the limiter refills nothing however long the stream lasts and whatever rate is configured,
  because each event moves the time of the last refill. Exactly the tokens on hand get through.\<close>

lemma steady_stream_starves:
  assumes "last_ns \<noteq> 0" "tpt \<noteq> 0" "burst \<noteq> 0"
    and "sorted_wrt (\<le>) (last_ns # nows)" "\<And>i. i < length nows \<Longrightarrow> unat (nows ! i) < unat ((last_ns # nows) ! i) + 2 ^ 20"
  shows "allowed (fst (bucket_run tpt burst tokens last_ns nows)) = min (length nows) (min (unat tokens) (unat burst))"
  using assms(1,4,5)
proof (induction nows arbitrary: tokens last_ns)
  case (Cons now nows)
  obtain tokens' ok where s: "token_bucket_step tokens last_ns now tpt burst = (tokens', ok)" by fastforce
  obtain oks rest where r: "bucket_run tpt burst tokens' now nows = (oks, rest)" by fastforce
  have n0: "now \<noteq> 0" using Cons.prems(1,2) by auto
  have gap: "unat now - unat last_ns < 2 ^ 20" using Cons.prems(3) [of 0] by simp
  have avail: "unat (refilled tokens last_ns now tpt burst) = min (unat tokens) (unat burst)"
    unfolding refilled_quick [OF Cons.prems(1) assms(2) gap] by (simp add: word_less_nat_alt)
  have b0: "unat burst > 0" using assms(3) by (simp add: unat_gt_0)
  have st: "unat tokens' + of_bool ok = min (unat tokens) (unat burst)" "ok \<longleftrightarrow> min (unat tokens) (unat burst) \<noteq> 0"
    using step_tokens [OF s assms(3)] avail s assms(3) by (auto simp: token_bucket_step_def Let_def split: if_splits)
  have "unat (nows ! i) < unat ((now # nows) ! i) + 2 ^ 20" if "i < length nows" for i
    using Cons.prems(3) [of "Suc i"] that by simp
  then have "allowed oks = min (length nows) (min (unat tokens') (unat burst))"
    using Cons.IH [of now tokens'] n0 Cons.prems(2) r by simp
  then show ?case using s r st b0 by (cases ok) (simp_all add: allowed_def min_def split: if_splits)
qed (simp add: allowed_def)

text \<open>The histogram slot of a duration is inside the array and is the power-of-two range the duration lies in;
  only durations too long for the last range fall below their true range. So the upper bound shown
  for a slot is one for every duration counted in it.\<close>

lemma hist_slot_bounds:
  shows "hist_slot micros < HIST_SLOTS \<and>
    (micros \<noteq> 0 \<longrightarrow> 2 ^ hist_slot micros \<le> unat micros) \<and>
    (hist_slot micros + 1 < HIST_SLOTS \<longrightarrow> unat micros < 2 ^ (hist_slot micros + 1)) \<and>
    micros \<le> hist_slot_upper_micros (hist_slot micros)"
proof (cases "micros = 0")
  case False
  let ?i = "63 - leading_zeros micros"
  have b: "2 ^ ?i \<le> unat micros" "unat micros < 2 ^ (?i + 1)"
  proof -
    have "64 - leading_zeros micros = ?i + 1" using leading_zeros_bits(1) [OF False] by simp
    then show "2 ^ ?i \<le> unat micros" "unat micros < 2 ^ (?i + 1)"
      using leading_zeros_bounds [OF False] by simp_all
  qed
  show ?thesis
  proof (cases "?i \<ge> HIST_SLOTS")
    case True
    then have "(2 :: nat) ^ 31 \<le> 2 ^ ?i" by (intro power_increasing) (simp_all add: HIST_SLOTS_def)
    then show ?thesis using b(1) False True by (simp add: hist_slot_def HIST_SLOTS_def hist_slot_upper_micros_def)
  next
    case i: False
    have "micros \<le> hist_slot_upper_micros ?i"
    proof (cases "?i + 1 \<ge> HIST_SLOTS")
      case f: False
      have "unat (push_bit (?i + 1) (1 :: u64)) = 2 ^ (?i + 1)"
      proof -
        have "(2 :: nat) ^ (?i + 1) < 2 ^ 64" using f by (intro power_strict_increasing) (simp_all add: HIST_SLOTS_def)
        then have "take_bit 64 ((2 :: nat) ^ (?i + 1)) = 2 ^ (?i + 1)" by (rule take_bit_nat_eq_self)
        moreover have "unat (push_bit (?i + 1) (1 :: u64)) = take_bit 64 (push_bit (?i + 1) (unat (1 :: u64)))"
          by (simp only: unsigned_push_bit_eq len64)
        ultimately show ?thesis by (simp only: push_bit_eq_mult unsigned_1 mult_1)
      qed
      then show ?thesis using b(2) f by (simp add: hist_slot_upper_micros_def word_le_nat_alt)
    qed (simp add: hist_slot_upper_micros_def)
    then show ?thesis using b False i by (simp add: hist_slot_def)
  qed
qed (simp add: hist_slot_def HIST_SLOTS_def hist_slot_upper_micros_def)

lemma hist_slot_bounds_witness:
  "hist_slot 5 < HIST_SLOTS \<and> 2 ^ hist_slot 5 \<le> unat (5 :: u64) \<and> unat (5 :: u64) < 2 ^ (hist_slot 5 + 1)"
proof -
  have h: "hist_slot 5 = 2" by code_simp
  show ?thesis using hist_slot_bounds [of 5] unfolding h by (simp add: HIST_SLOTS_def)
qed

lemma rate_limit_bound_witness:
  "allowed (fst (bucket_run 2 10 1 1 [5, 2097153])) + unat (snd (bucket_run 2 10 1 1 [5, 2097153])) \<le> 1 + 2 * 2"
  using rate_limit_bound [of 1 2 10 "[5, 2097153]" 1] by simp

lemma steady_stream_starves_witness:
  "allowed (fst (bucket_run 53 5000 2 7 [8, 9, 10, 11])) = 2"
proof -
  have g: "unat ([8, 9, 10, 11 :: u64] ! i) < unat ([7, 8, 9, 10, 11 :: u64] ! i) + 2 ^ 20" if "i < 4" for i
  proof -
    consider "i = 0" | "i = 1" | "i = 2" | "i = 3" using \<open>i < 4\<close> by linarith
    then show ?thesis by cases simp_all
  qed
  show ?thesis using steady_stream_starves [of 7 53 5000 "[8, 9, 10, 11]" 2] g by simp
qed

end
