(* ===== verification/Ebpf_Programs.thy ===== *)
theory Ebpf_Programs
  imports Ebpf_Abi
begin

text \<open>
  The kernel programs of \<^verbatim>\<open>crates/gse-ebpf-programs/src/\<close>: \<^verbatim>\<open>common.rs\<close>, \<^verbatim>\<open>network.rs\<close>,
  \<^verbatim>\<open>tcp.rs\<close>, \<^verbatim>\<open>process.rs\<close> and \<^verbatim>\<open>syscall.rs\<close>. A program runs to completion on one processor; its state
  is its BPF maps, and what it asks of the kernel is in a record \<open>env\<close>: the processor, the current
  thread, the clock, the arguments and the memory it reads. The target is little-endian. A per-CPU
  map is the list of its keys with a value for every processor; an insertion fails when the map is full.
  The map lookups with a constant index cannot fail and are left out.
\<close>

section \<open>Maps\<close>

type_synonym ('k, 'v) percpu = "('k \<times> (nat \<Rightarrow> 'v)) list"
type_synonym ('k, 'v) hashed = "('k \<times> 'v) list"

text \<open>\<^verbatim>\<open>bump\<close>: update this processor's value, or insert a new key; \<open>z\<close> is the zeroed value.\<close>

definition pc_bump :: "nat \<Rightarrow> 'v \<Rightarrow> nat \<Rightarrow> 'k \<Rightarrow> ('v \<Rightarrow> 'v) \<Rightarrow> ('k, 'v) percpu \<Rightarrow> ('k, 'v) percpu" where
  "pc_bump cap z cpu k g m =
     (case map_of m k of
        Some _ \<Rightarrow> map (\<lambda>(j, f). (j, if j = k then f(cpu := g (f cpu)) else f)) m
      | None \<Rightarrow> if length m < cap then m @ [(k, (\<lambda>_. z)(cpu := g z))] else m)"

definition hm_insert :: "nat \<Rightarrow> 'k \<Rightarrow> 'v \<Rightarrow> ('k, 'v) hashed \<Rightarrow> ('k, 'v) hashed" where
  "hm_insert cap k v m =
     (case map_of m k of
        Some _ \<Rightarrow> map (\<lambda>(j, w). (j, if j = k then v else w)) m
      | None \<Rightarrow> if length m < cap then m @ [(k, v)] else m)"

definition hm_remove :: "'k \<Rightarrow> ('k, 'v) hashed \<Rightarrow> ('k, 'v) hashed" where
  "hm_remove k m = filter (\<lambda>(j, _). j \<noteq> k) m"

section \<open>Environment\<close>

record env =
  en_cpu :: nat
  en_pid_tgid :: u64
  en_cgroup :: u64
  en_comm :: "u8 list option"
  en_rate_ns :: u64
  en_now_ns :: u64
  en_entry :: "u8 list option"
  en_arg0 :: "u64 option"
  en_ret :: u32
  en_mem :: "u64 \<Rightarrow> nat \<Rightarrow> u8 list option"
  en_user_str :: "u64 \<Rightarrow> u8 list option"
  en_reserve :: bool

definition current_tid :: "env \<Rightarrow> u64" where
  "current_tid e = en_pid_tgid e AND 0xFFFFFFFF"

definition current_tgid :: "env \<Rightarrow> u32" where
  "current_tgid e = ucast (drop_bit 32 (en_pid_tgid e))"

definition comm :: "env \<Rightarrow> u8 list" where
  "comm e = (case en_comm e of Some c \<Rightarrow> c | None \<Rightarrow> replicate TASK_COMM_LEN 0)"

definition from_le :: "u8 list \<Rightarrow> 'a::len word" where
  "from_le bs = foldr (\<lambda>b acc. ucast b OR push_bit 8 acc) bs 0"

definition to_le :: "'a::len word \<Rightarrow> u8 list" where
  "to_le w = map (\<lambda>i. ucast (drop_bit (8 * i) w)) [0..<LENGTH('a) div 8]"

definition from_be :: "'a::len word \<Rightarrow> 'a word" where
  "from_be w = from_le (rev (to_le w))"

section \<open>Parameters\<close>

type_synonym cfg_map = "nat \<Rightarrow> u64"

definition cfg :: "cfg_map \<Rightarrow> cfg_index \<Rightarrow> u64 option" where
  "cfg m i = (if cfg_pos i < CFG_LEN then Some (m (cfg_pos i)) else None)"

definition cfg_u16 :: "cfg_map \<Rightarrow> cfg_index \<Rightarrow> u16 option" where
  "cfg_u16 m i = Option.bind (cfg m i) (\<lambda>v. if unat v < 2 ^ 16 then Some (ucast v) else None)"

definition cfg_i32 :: "cfg_map \<Rightarrow> cfg_index \<Rightarrow> int option" where
  "cfg_i32 m i = Option.bind (cfg m i) (\<lambda>v. if unat v < 2 ^ 31 then Some (uint v) else None)"

definition cfg_bool :: "cfg_map \<Rightarrow> cfg_index \<Rightarrow> bool" where
  "cfg_bool m i = (case cfg m i of None \<Rightarrow> False | Some v \<Rightarrow> v \<noteq> 0)"

definition cfg_ready :: "cfg_map \<Rightarrow> bool" where
  "cfg_ready m \<longleftrightarrow> cfg m Version = Some CFG_VERSION"

definition is_state :: "cfg_map \<Rightarrow> cfg_index \<Rightarrow> int \<Rightarrow> bool" where
  "is_state m i st \<longleftrightarrow> cfg_i32 m i = Some st"

section \<open>Fields\<close>

definition TP_BUF_LEN :: nat where "TP_BUF_LEN = 64"

text \<open>\<^verbatim>\<open>read_tp_buf\<close>: the first 64 bytes of the entry.\<close>

definition read_tp_buf :: "env \<Rightarrow> u8 list option" where
  "read_tp_buf e = map_option (take TP_BUF_LEN) (en_entry e)"

definition scratch_u8 :: "u8 list \<Rightarrow> nat \<Rightarrow> u8" where
  "scratch_u8 buf i = buf ! (i mod TP_BUF_LEN)"

definition scratch_u16 :: "u8 list \<Rightarrow> u64 \<Rightarrow> u16" where
  "scratch_u16 buf offset =
     (let i = unat (offset AND 62) in from_le [scratch_u8 buf i, scratch_u8 buf (i + 1)])"

definition scratch_u32 :: "u8 list \<Rightarrow> u64 \<Rightarrow> u32" where
  "scratch_u32 buf offset =
     (let i = unat (offset AND 60)
      in from_le [scratch_u8 buf i, scratch_u8 buf (i + 1), scratch_u8 buf (i + 2), scratch_u8 buf (i + 3)])"

definition scratch_u64 :: "u8 list \<Rightarrow> u64 \<Rightarrow> u64" where
  "scratch_u64 buf offset =
     (let i = offset AND 56 in ucast (scratch_u32 buf i) OR push_bit 32 (ucast (scratch_u32 buf (i + 4))))"

definition read_field :: "env \<Rightarrow> u64 \<Rightarrow> u64 \<Rightarrow> 'a::len word option" where
  "read_field e base offset = map_option from_le (en_mem e (base + offset) (LENGTH('a) div 8))"

text \<open>The key of a socket: IPv4 only, addresses and remote port in host order.\<close>

definition sock_key :: "env \<Rightarrow> cfg_map \<Rightarrow> u64 \<Rightarrow> conn_key option" where
  "sock_key e m sk =
     (case (cfg m SockDaddr, cfg m SockRcvSaddr, cfg m SockDport, cfg m SockNum, cfg m SockFamily, cfg m SockProtocol) of
        (Some o_daddr, Some o_saddr, Some o_dport, Some o_num, Some o_family, Some o_protocol) \<Rightarrow>
          Option.bind (read_field e sk o_family :: u16 option) (\<lambda>family.
          Option.bind (cfg_u16 m FamilyInet) (\<lambda>inet.
          if family \<noteq> inet then None else
          Option.bind (read_field e sk o_daddr) (\<lambda>daddr.
          Option.bind (read_field e sk o_saddr) (\<lambda>saddr.
          Option.bind (read_field e sk o_dport) (\<lambda>dport.
          Option.bind (read_field e sk o_num) (\<lambda>sport.
          Option.bind (read_field e sk o_protocol) (\<lambda>protocol.
            Some \<lparr>ck_pid = current_tgid e, ck_cgroup_id = en_cgroup e, ck_saddr = from_be saddr,
              ck_daddr = from_be daddr, ck_sport = sport, ck_dport = from_be dport, ck_protocol = protocol\<rparr>)))))))
      | _ \<Rightarrow> None)"

definition is_loopback_addr :: "u32 \<Rightarrow> bool" where
  "is_loopback_addr addr \<longleftrightarrow> addr AND 0xFF000000 = 0x7F000000"

section \<open>Rate limit\<close>

record rate_slots =
  rs_tokens :: u64
  rs_last_ns :: u64
  rs_dropped :: u64

definition rate_allow :: "cfg_map \<Rightarrow> u64 \<Rightarrow> rate_slots \<Rightarrow> bool \<times> rate_slots" where
  "rate_allow m now r =
     (let tpt = (case cfg m RateLimitTokensPerTick of Some v \<Rightarrow> v | None \<Rightarrow> 0) in
      if tpt = 0 then (True, r)
      else
        let burst = (case cfg m RateLimitBurst of Some v \<Rightarrow> v | None \<Rightarrow> 1);
            (next_tokens, ok) = token_bucket_step (rs_tokens r) (rs_last_ns r) now tpt burst
        in (ok, r\<lparr>rs_tokens := next_tokens, rs_last_ns := now,
                 rs_dropped := (if ok then rs_dropped r else sat_add (rs_dropped r) 1)\<rparr>))"

text \<open>The guard at the head of every entry point.\<close>

definition admitted :: "cfg_map \<Rightarrow> env \<Rightarrow> (nat \<Rightarrow> rate_slots) \<Rightarrow> bool \<times> (nat \<Rightarrow> rate_slots)" where
  "admitted m e rate =
     (if \<not> cfg_ready m then (False, rate)
      else let (ok, r) = rate_allow m (en_rate_ns e) (rate (en_cpu e)) in (ok, rate(en_cpu e := r)))"

section \<open>Durations\<close>

definition ns_to_micros :: "u64 \<Rightarrow> u64" where
  "ns_to_micros ns = drop_bit 10 ns"

definition record_duration :: "u64 \<Rightarrow> conn_agg_wire \<Rightarrow> conn_agg_wire" where
  "record_duration micros v =
     (let slot = hist_slot micros in
      v\<lparr>cw_duration_sum_us := sat_add (cw_duration_sum_us v) micros,
        cw_duration_max_us := (if micros > cw_duration_max_us v then micros else cw_duration_max_us v),
        cw_latency_hist := (cw_latency_hist v)[slot := sat_add (cw_latency_hist v ! slot) 1]\<rparr>)"

section \<open>Connections\<close>

text \<open>The maps shared in shape by \<^verbatim>\<open>network.rs\<close> and \<^verbatim>\<open>tcp.rs\<close>; each program has its own.\<close>

record conn_maps =
  cm_agg :: "(conn_key, conn_agg_wire) percpu"
  cm_entry :: "(u64, conn_key) hashed"
  cm_cfg :: cfg_map
  cm_rate :: "nat \<Rightarrow> rate_slots"
  cm_cap :: nat

record net_maps = conn_maps +
  nm_start :: "(conn_key, u64) hashed"

definition MAP_CAP :: nat where "MAP_CAP = 16384"

definition bump :: "env \<Rightarrow> conn_key \<Rightarrow> (conn_agg_wire \<Rightarrow> conn_agg_wire) \<Rightarrow> 'a conn_maps_scheme \<Rightarrow> 'a conn_maps_scheme" where
  "bump e k g s = s\<lparr>cm_agg := pc_bump (cm_cap s) default_conn_agg_wire (en_cpu e) k g (cm_agg s)\<rparr>"

definition take_entry :: "env \<Rightarrow> 'a conn_maps_scheme \<Rightarrow> conn_key option \<times> 'a conn_maps_scheme" where
  "take_entry e s =
     (case map_of (cm_entry s) (current_tid e) of
        None \<Rightarrow> (None, s)
      | Some k \<Rightarrow> (Some k, s\<lparr>cm_entry := hm_remove (current_tid e) (cm_entry s)\<rparr>))"

definition guarded :: "env \<Rightarrow> ('a conn_maps_scheme \<Rightarrow> 'a conn_maps_scheme) \<Rightarrow> 'a conn_maps_scheme \<Rightarrow> 'a conn_maps_scheme" where
  "guarded e f s =
     (let (ok, rate) = admitted (cm_cfg s) e (cm_rate s); s1 = s\<lparr>cm_rate := rate\<rparr> in if ok then f s1 else s1)"

definition current_sock :: "env \<Rightarrow> 'a conn_maps_scheme \<Rightarrow> conn_key option" where
  "current_sock e s = Option.bind (en_arg0 e) (sock_key e (cm_cfg s))"

definition stash_entry :: "env \<Rightarrow> 'a conn_maps_scheme \<Rightarrow> 'a conn_maps_scheme" where
  "stash_entry e = guarded e (\<lambda>s.
     case current_sock e s of None \<Rightarrow> s
     | Some k \<Rightarrow> s\<lparr>cm_entry := hm_insert MAP_CAP (current_tid e) k (cm_entry s)\<rparr>)"

text \<open>A return probe that hands the return value to an update of the stashed key.\<close>

definition on_return :: "env \<Rightarrow> (int \<Rightarrow> (conn_agg_wire \<Rightarrow> conn_agg_wire) option) \<Rightarrow> 'a conn_maps_scheme \<Rightarrow> 'a conn_maps_scheme" where
  "on_return e f s =
     (case take_entry e s of
        (None, s1) \<Rightarrow> s1
      | (Some k, s1) \<Rightarrow> (case f (sint (en_ret e)) of None \<Rightarrow> s1 | Some g \<Rightarrow> bump e k g s1))"

section \<open>\<^verbatim>\<open>network.rs\<close>\<close>

definition tcp_sendmsg_ret :: "env \<Rightarrow> 'a conn_maps_scheme \<Rightarrow> 'a conn_maps_scheme" where
  "tcp_sendmsg_ret e = on_return e (\<lambda>ret.
     if ret > 0 then Some (\<lambda>v. v\<lparr>cw_bytes_sent := sat_add (cw_bytes_sent v) (ucast (en_ret e))\<rparr>) else None)"

definition tcp_recvmsg_ret :: "env \<Rightarrow> 'a conn_maps_scheme \<Rightarrow> 'a conn_maps_scheme" where
  "tcp_recvmsg_ret e = on_return e (\<lambda>ret.
     if ret > 0 then Some (\<lambda>v. v\<lparr>cw_bytes_recv := sat_add (cw_bytes_recv v) (ucast (en_ret e))\<rparr>) else None)"

definition tcp_connect_ret :: "env \<Rightarrow> 'a conn_maps_scheme \<Rightarrow> 'a conn_maps_scheme" where
  "tcp_connect_ret e = on_return e (\<lambda>ret.
     if ret < 0 then Some (\<lambda>v. v\<lparr>cw_failures := sat_add (cw_failures v) 1, cw_failure_reason := reason_from_errno ret\<rparr>)
     else None)"

text \<open>The connection and the two states of a state change, if the entry is one to look at.\<close>

definition state_change :: "env \<Rightarrow> cfg_map \<Rightarrow> (conn_key \<times> int \<times> int) option" where
  "state_change e m =
     (case (cfg m TpOldState, cfg m TpNewState, cfg m TpSport, cfg m TpDport, cfg m TpFamily, cfg m TpSaddr, cfg m TpDaddr) of
        (Some o_old, Some o_new, Some o_sport, Some o_dport, Some o_family, Some o_saddr, Some o_daddr) \<Rightarrow>
          Option.bind (read_tp_buf e) (\<lambda>buf.
          if scratch_u16 buf o_family \<noteq> (case cfg_u16 m FamilyInet of Some v \<Rightarrow> v | None \<Rightarrow> - 1) then None
          else
            let k = \<lparr>ck_pid = current_tgid e, ck_cgroup_id = en_cgroup e,
                     ck_saddr = from_be (scratch_u32 buf o_saddr), ck_daddr = from_be (scratch_u32 buf o_daddr),
                     ck_sport = scratch_u16 buf o_sport, ck_dport = scratch_u16 buf o_dport, ck_protocol = 6\<rparr>
            in if \<not> cfg_bool m IncludeLoopback \<and> (is_loopback_addr (ck_saddr k) \<or> is_loopback_addr (ck_daddr k)) then None
               else Some (k, sint (scratch_u32 buf o_old), sint (scratch_u32 buf o_new)))
      | _ \<Rightarrow> None)"

definition connection_up :: "env \<Rightarrow> conn_key \<Rightarrow> net_maps \<Rightarrow> net_maps" where
  "connection_up e k s =
     (let s1 = bump e k (\<lambda>v. v\<lparr>cw_connections := sat_add (cw_connections v) 1\<rparr>) s
      in s1\<lparr>nm_start := hm_insert MAP_CAP k (en_now_ns e) (nm_start s1)\<rparr>)"

definition connection_down :: "env \<Rightarrow> conn_key \<Rightarrow> bool \<Rightarrow> net_maps \<Rightarrow> net_maps" where
  "connection_down e k was_syn_sent s =
     (let s1 = (case map_of (nm_start s) k of
                  None \<Rightarrow> s
                | Some start \<Rightarrow> bump e k (record_duration (ns_to_micros (sat_sub (en_now_ns e) start))) s);
          s2 = s1\<lparr>nm_start := hm_remove k (nm_start s1)\<rparr>
      in if was_syn_sent
         then bump e k (\<lambda>v. v\<lparr>cw_failures := sat_add (cw_failures v) 1, cw_failure_reason := REASON_TIMEOUT\<rparr>) s2
         else s2)"

definition inet_sock_set_state :: "env \<Rightarrow> net_maps \<Rightarrow> net_maps" where
  "inet_sock_set_state e = guarded e (\<lambda>s.
     case state_change e (cm_cfg s) of None \<Rightarrow> s
     | Some (k, old, new) \<Rightarrow>
         if is_state (cm_cfg s) TcpEstablished new then connection_up e k s
         else if \<not> is_state (cm_cfg s) TcpClose new then s
         else connection_down e k (is_state (cm_cfg s) TcpSynSent old) s)"

datatype net_probe = SetState | SendEntry | RecvEntry | ConnectEntry | SendRet | RecvRet | ConnectRet

fun net_probe_run :: "net_probe \<Rightarrow> env \<Rightarrow> net_maps \<Rightarrow> net_maps" where
  "net_probe_run SetState e = inet_sock_set_state e"
| "net_probe_run SendEntry e = stash_entry e"
| "net_probe_run RecvEntry e = stash_entry e"
| "net_probe_run ConnectEntry e = stash_entry e"
| "net_probe_run SendRet e = tcp_sendmsg_ret e"
| "net_probe_run RecvRet e = tcp_recvmsg_ret e"
| "net_probe_run ConnectRet e = tcp_connect_ret e"

section \<open>\<^verbatim>\<open>tcp.rs\<close>\<close>

definition tcp_retransmit_skb_ret :: "env \<Rightarrow> 'a conn_maps_scheme \<Rightarrow> 'a conn_maps_scheme" where
  "tcp_retransmit_skb_ret e = on_return e (\<lambda>ret.
     if ret \<ge> 0 then Some (\<lambda>v. v\<lparr>cw_tcp_retrans := sat_add (cw_tcp_retrans v) 1\<rparr>) else None)"

definition tcp_send_active_reset_entry :: "env \<Rightarrow> 'a conn_maps_scheme \<Rightarrow> 'a conn_maps_scheme" where
  "tcp_send_active_reset_entry e = guarded e (\<lambda>s.
     case current_sock e s of None \<Rightarrow> s
     | Some k \<Rightarrow> bump e k (\<lambda>v. v\<lparr>cw_tcp_resets := sat_add (cw_tcp_resets v) 1\<rparr>) s)"

datatype tcp_probe = RetransmitEntry | RetransmitRet | ResetEntry

fun tcp_probe_run :: "tcp_probe \<Rightarrow> env \<Rightarrow> conn_maps \<Rightarrow> conn_maps" where
  "tcp_probe_run RetransmitEntry e = stash_entry e"
| "tcp_probe_run RetransmitRet e = tcp_retransmit_skb_ret e"
| "tcp_probe_run ResetEntry e = tcp_send_active_reset_entry e"

section \<open>\<^verbatim>\<open>process.rs\<close>\<close>

record proc_maps =
  pm_agg :: "(proc_key, proc_agg_wire) percpu"
  pm_events :: "raw_event list"
  pm_cfg :: cfg_map
  pm_rate :: "nat \<Rightarrow> rate_slots"
  pm_cap :: nat

definition proc_key_of :: "env \<Rightarrow> proc_key" where
  "proc_key_of e = \<lparr>pk_pid = current_tgid e, pk_cgroup_id = en_cgroup e, pk_comm = comm e\<rparr>"

definition emit :: "env \<Rightarrow> u32 \<Rightarrow> proc_key \<Rightarrow> proc_maps \<Rightarrow> proc_maps" where
  "emit e kind k s =
     (if \<not> cfg_bool (pm_cfg s) RawEventsEnabled \<or> \<not> en_reserve e then s
      else s\<lparr>pm_events := pm_events s @
             [default_raw_event\<lparr>re_kind := kind, re_pid := pk_pid k, re_cgroup_id := pk_cgroup_id k, re_comm := pk_comm k,
                re_timestamp_ns := en_now_ns e\<rparr>]\<rparr>)"

definition proc_event :: "env \<Rightarrow> u32 \<Rightarrow> (proc_agg_wire \<Rightarrow> proc_agg_wire) \<Rightarrow> proc_maps \<Rightarrow> proc_maps" where
  "proc_event e kind g s =
     (let (ok, rate) = admitted (pm_cfg s) e (pm_rate s); s1 = s\<lparr>pm_rate := rate\<rparr>; k = proc_key_of e
      in if ok
         then emit e kind k (s1\<lparr>pm_agg := pc_bump (pm_cap s1) default_proc_agg_wire (en_cpu e) k g (pm_agg s1)\<rparr>)
         else s1)"

definition sched_process_exec :: "env \<Rightarrow> proc_maps \<Rightarrow> proc_maps" where
  "sched_process_exec e = proc_event e EVENT_KIND_PROCESS_EXEC (\<lambda>v. v\<lparr>pa_exec := sat_add (pa_exec v) 1\<rparr>)"

definition sched_process_exit :: "env \<Rightarrow> proc_maps \<Rightarrow> proc_maps" where
  "sched_process_exit e = proc_event e EVENT_KIND_PROCESS_EXIT (\<lambda>v. v\<lparr>pa_exit := sat_add (pa_exit v) 1\<rparr>)"

definition sched_process_fork :: "env \<Rightarrow> proc_maps \<Rightarrow> proc_maps" where
  "sched_process_fork e = proc_event e EVENT_KIND_PROCESS_FORK (\<lambda>v. v\<lparr>pa_fork := sat_add (pa_fork v) 1\<rparr>)"

section \<open>\<^verbatim>\<open>syscall.rs\<close>\<close>

record pending =
  pn_op :: u32
  pn_ts_ns :: u64
  pn_filename :: u64
  pn_cgroup_id :: u64
  pn_comm :: "u8 list"

record sys_maps =
  sm_agg :: "(syscall_key, syscall_agg_wire) percpu"
  sm_err :: "(syscall_err_key, u64) percpu"
  sm_pending :: "(u64, pending) hashed"
  sm_slow :: "slow_io_event list"
  sm_cfg :: cfg_map
  sm_rate :: "nat \<Rightarrow> rate_slots"
  sm_cap :: nat

definition filename_arg :: "env \<Rightarrow> cfg_map \<Rightarrow> u32 \<Rightarrow> u64" where
  "filename_arg e m op =
     (if op \<noteq> SYSCALL_OP_OPENAT then 0
      else case cfg m SysOpenatFilename of
             None \<Rightarrow> 0
           | Some offset \<Rightarrow> if offset = 0 then 0
               else (case read_tp_buf e of None \<Rightarrow> 0 | Some buf \<Rightarrow> scratch_u64 buf offset))"

definition sys_enter :: "env \<Rightarrow> u32 \<Rightarrow> sys_maps \<Rightarrow> sys_maps" where
  "sys_enter e op s =
     (let (ok, rate) = admitted (sm_cfg s) e (sm_rate s); s1 = s\<lparr>sm_rate := rate\<rparr>
      in if \<not> ok then s1
         else s1\<lparr>sm_pending := hm_insert 8192 (current_tid e)
                \<lparr>pn_op = op, pn_ts_ns = en_now_ns e, pn_filename = filename_arg e (sm_cfg s) op,
                 pn_cgroup_id = en_cgroup e, pn_comm = comm e\<rparr> (sm_pending s1)\<rparr>)"

definition count_call :: "u64 \<Rightarrow> u32 \<Rightarrow> syscall_agg_wire \<Rightarrow> syscall_agg_wire" where
  "count_call duration_us errno v =
     (let slot = hist_slot duration_us in
      v\<lparr>sw_calls := sat_add (sw_calls v) 1,
        sw_duration_sum_us := sat_add (sw_duration_sum_us v) duration_us,
        sw_duration_max_us := (if duration_us > sw_duration_max_us v then duration_us else sw_duration_max_us v),
        sw_hist := (if slot < length (sw_hist v) then (sw_hist v)[slot := sat_add (sw_hist v ! slot) 1] else sw_hist v),
        sw_errors := (if errno \<noteq> 0 then sat_add (sw_errors v) 1 else sw_errors v)\<rparr>)"

definition emit_slow :: "env \<Rightarrow> u32 \<Rightarrow> pending \<Rightarrow> u64 \<Rightarrow> u32 \<Rightarrow> sys_maps \<Rightarrow> sys_maps" where
  "emit_slow e op p duration_us errno s =
     (if \<not> en_reserve e then s
      else
        let path = (if pn_filename p \<noteq> 0 then en_user_str e (pn_filename p) else None);
            bytes = take SLOW_IO_PATH_LEN (case path of Some b \<Rightarrow> b | None \<Rightarrow> [])
        in s\<lparr>sm_slow := sm_slow s @
             [\<lparr>sl_op = op, sl_path_len = word_of_nat (length bytes), sl_pid = current_tgid e, sl_errno = errno,
               sl_timestamp_ns = en_now_ns e, sl_cgroup_id = pn_cgroup_id p, sl_duration_us = duration_us,
               sl_comm = pn_comm p, sl_path = bytes @ replicate (SLOW_IO_PATH_LEN - length bytes) 0\<rparr>]\<rparr>)"

text \<open>A negative return value is an error; its absolute value, cut to 32 bits, is the error number.\<close>

definition errno_of :: "u64 \<Rightarrow> u32" where
  "errno_of ret = (if sint ret < 0 then word_of_int (- sint ret) else 0)"

definition sys_exit :: "env \<Rightarrow> u32 \<Rightarrow> sys_maps \<Rightarrow> sys_maps" where
  "sys_exit e op s =
     (if \<not> cfg_ready (sm_cfg s) then s
      else case map_of (sm_pending s) (current_tid e) of
        None \<Rightarrow> s
      | Some p \<Rightarrow>
          let s1 = s\<lparr>sm_pending := hm_remove (current_tid e) (sm_pending s)\<rparr> in
          (case (read_tp_buf e, cfg (sm_cfg s) SysExitRet) of
             (Some buf, Some offset) \<Rightarrow>
               let ret = scratch_u64 buf offset;
                   duration_us = ns_to_micros (sat_sub (en_now_ns e) (pn_ts_ns p));
                   errno = errno_of ret;
                   k = \<lparr>sk_pid = current_tgid e, sk_cgroup_id = pn_cgroup_id p, sk_op = op, sk_comm = pn_comm p\<rparr>;
                   s2 = s1\<lparr>sm_agg := pc_bump (sm_cap s1) default_syscall_agg_wire (en_cpu e) k (count_call duration_us errno) (sm_agg s1)\<rparr>;
                   s3 = (if errno \<noteq> 0
                         then s2\<lparr>sm_err := pc_bump 4096 0 (en_cpu e) \<lparr>ek_errno = errno, ek_op = op\<rparr> (\<lambda>n. sat_add n 1) (sm_err s2)\<rparr>
                         else s2)
               in if \<not> cfg_bool (sm_cfg s) RawEventsEnabled then s3
                  else if duration_us < (case cfg (sm_cfg s) SlowThresholdMicros of Some v \<Rightarrow> v | None \<Rightarrow> - 1) then s3
                  else emit_slow e op p duration_us errno s3
           | _ \<Rightarrow> s1))"

end
