(* ===== verification/Ebpf_Agent.thy ===== *)
theory Ebpf_Agent
  imports Ebpf_Programs Btree
begin

text \<open>
  The user side of the eBPF collection, \<^verbatim>\<open>crates/gse-agent-ebpf/src/\<close>: reading and zeroing the
  kernel maps (\<^verbatim>\<open>loader.rs\<close>), summing over processors and building edge records
  (\<^verbatim>\<open>aggregate.rs\<close>), the filter (\<^verbatim>\<open>config.rs\<close>), one round of the collection loops
  (\<^verbatim>\<open>lib.rs\<close>), the system call summaries (\<^verbatim>\<open>syscall.rs\<close>) and the retry delays
  (\<^verbatim>\<open>backoff.rs\<close>). What the kernel programs do while a round reads the maps is the argument
  \<open>mid\<close>; which of the system calls fail is in \<open>it\<close> and \<open>ok\<close>. The process behind a pid is the
  argument \<open>ctx\<close>. The self-monitoring records are not modelled (they hold floats).
\<close>

section \<open>Reading the maps\<close>

type_synonym ('k, 'v) snapshot = "('k \<times> 'v list) list"

text \<open>
  Every key is written back with zeros, one call per key; the kernel goes on in between. \<open>get\<close> and
  \<open>upd\<close> reach the map in the state of the program.
\<close>

definition pc_write :: "'k \<Rightarrow> 'v \<Rightarrow> ('k, 'v) percpu \<Rightarrow> ('k, 'v) percpu" where
  "pc_write k z m = map (\<lambda>(j, f). (j, if j = k then (\<lambda>_. z) else f)) m"

fun reset_keys ::
    "'v \<Rightarrow> ((('k, 'v) percpu \<Rightarrow> ('k, 'v) percpu) \<Rightarrow> 's \<Rightarrow> 's) \<Rightarrow> ('k \<Rightarrow> 's \<Rightarrow> 's) \<Rightarrow> ('k \<Rightarrow> string option) \<Rightarrow> 'k list \<Rightarrow> 's \<Rightarrow>
     string option \<times> 's" where
  "reset_keys z upd mid ok [] s = (None, s)"
| "reset_keys z upd mid ok (k # ks) s =
     (case ok k of Some e \<Rightarrow> (Some e, mid k s)
      | None \<Rightarrow> reset_keys z upd mid ok ks (upd (pc_write k z) (mid k s)))"

definition drain ::
    "'v \<Rightarrow> nat \<Rightarrow> ('s \<Rightarrow> ('k, 'v) percpu) \<Rightarrow> ((('k, 'v) percpu \<Rightarrow> ('k, 'v) percpu) \<Rightarrow> 's \<Rightarrow> 's) \<Rightarrow> string option \<Rightarrow>
     ('k \<Rightarrow> 's \<Rightarrow> 's) \<Rightarrow> ('k \<Rightarrow> string option) \<Rightarrow> 's \<Rightarrow> (string, ('k, 'v) snapshot) result \<times> 's" where
  "drain z cpus get upd it mid ok s =
     (case it of Some e \<Rightarrow> (Inl e, s)
      | None \<Rightarrow>
          (let out = map (\<lambda>(k, f). (k, map f [0..<cpus])) (get s);
               (r, s') = reset_keys z upd mid ok (map fst (get s)) s
           in case r of Some e \<Rightarrow> (Inl e, s') | None \<Rightarrow> (Inr out, s')))"

text \<open>The maps read by the three kinds of source.\<close>

definition drain_conn ::
    "nat \<Rightarrow> string option \<Rightarrow> (conn_key \<Rightarrow> 'a conn_maps_scheme \<Rightarrow> 'a conn_maps_scheme) \<Rightarrow> (conn_key \<Rightarrow> string option) \<Rightarrow>
     'a conn_maps_scheme \<Rightarrow> (string, (conn_key, conn_agg_wire) snapshot) result \<times> 'a conn_maps_scheme" where
  "drain_conn cpus = drain default_conn_agg_wire cpus cm_agg cm_agg_update"

definition drain_process ::
    "nat \<Rightarrow> string option \<Rightarrow> (proc_key \<Rightarrow> proc_maps \<Rightarrow> proc_maps) \<Rightarrow> (proc_key \<Rightarrow> string option) \<Rightarrow>
     proc_maps \<Rightarrow> (string, (proc_key, proc_agg_wire) snapshot) result \<times> proc_maps" where
  "drain_process cpus = drain default_proc_agg_wire cpus pm_agg pm_agg_update"

definition drain_syscall ::
    "nat \<Rightarrow> string option \<Rightarrow> (syscall_key \<Rightarrow> sys_maps \<Rightarrow> sys_maps) \<Rightarrow> (syscall_key \<Rightarrow> string option) \<Rightarrow>
     sys_maps \<Rightarrow> (string, (syscall_key, syscall_agg_wire) snapshot) result \<times> sys_maps" where
  "drain_syscall cpus = drain default_syscall_agg_wire cpus sm_agg sm_agg_update"

definition drain_syscall_errors ::
    "nat \<Rightarrow> string option \<Rightarrow> (syscall_err_key \<Rightarrow> sys_maps \<Rightarrow> sys_maps) \<Rightarrow> (syscall_err_key \<Rightarrow> string option) \<Rightarrow>
     sys_maps \<Rightarrow> (string, (syscall_err_key, u64) snapshot) result \<times> sys_maps" where
  "drain_syscall_errors cpus = drain 0 cpus sm_err sm_err_update"

definition drain_raw_events :: "proc_maps \<Rightarrow> raw_event list \<times> proc_maps" where
  "drain_raw_events s = (pm_events s, s\<lparr>pm_events := []\<rparr>)"

definition drain_slow_io :: "sys_maps \<Rightarrow> slow_io_event list \<times> sys_maps" where
  "drain_slow_io s = (sm_slow s, s\<lparr>sm_slow := []\<rparr>)"

definition sat_sum :: "u64 list \<Rightarrow> u64" where
  "sat_sum xs = fold (\<lambda>x acc. sat_add acc x) xs 0"

definition take_rate_limit_drops :: "nat \<Rightarrow> (nat \<Rightarrow> rate_slots) \<Rightarrow> u64 \<times> (nat \<Rightarrow> rate_slots)" where
  "take_rate_limit_drops cpus rate =
     (let total_drops = sat_sum (map (\<lambda>c. rs_dropped (rate c)) [0..<cpus])
      in (total_drops, if total_drops > 0 then (\<lambda>c. (rate c)\<lparr>rs_dropped := 0\<rparr>) else rate))"

section \<open>Sums over processors\<close>

record conn_agg =
  ca_connections :: u64
  ca_failures :: u64
  ca_failure_reason :: u32
  ca_bytes_sent :: u64
  ca_bytes_recv :: u64
  ca_duration_sum_us :: u64
  ca_duration_max_us :: u64
  ca_tcp_retrans :: u64
  ca_tcp_resets :: u64
  ca_latency_hist :: "u64 list"

definition empty_conn_agg :: "nat \<Rightarrow> conn_agg" where
  "empty_conn_agg slots =
     \<lparr>ca_connections = 0, ca_failures = 0, ca_failure_reason = 0, ca_bytes_sent = 0, ca_bytes_recv = 0,
      ca_duration_sum_us = 0, ca_duration_max_us = 0, ca_tcp_retrans = 0, ca_tcp_resets = 0,
      ca_latency_hist = replicate slots 0\<rparr>"

definition add_cpu :: "conn_agg_wire \<Rightarrow> conn_agg \<Rightarrow> conn_agg" where
  "add_cpu v out =
     \<lparr>ca_connections = sat_add (ca_connections out) (cw_connections v),
      ca_failures = sat_add (ca_failures out) (cw_failures v),
      ca_failure_reason = (if cw_failures v > 0 then max (ca_failure_reason out) (cw_failure_reason v) else ca_failure_reason out),
      ca_bytes_sent = sat_add (ca_bytes_sent out) (cw_bytes_sent v),
      ca_bytes_recv = sat_add (ca_bytes_recv out) (cw_bytes_recv v),
      ca_duration_sum_us = sat_add (ca_duration_sum_us out) (cw_duration_sum_us v),
      ca_duration_max_us = max (ca_duration_max_us out) (cw_duration_max_us v),
      ca_tcp_retrans = sat_add (ca_tcp_retrans out) (cw_tcp_retrans v),
      ca_tcp_resets = sat_add (ca_tcp_resets out) (cw_tcp_resets v),
      ca_latency_hist = map2 sat_add (ca_latency_hist out) (cw_latency_hist v)\<rparr>"

definition view_per_cpu :: "conn_agg_wire list \<Rightarrow> conn_agg" where
  "view_per_cpu vs = fold add_cpu vs (empty_conn_agg HIST_SLOTS)"

definition is_empty :: "conn_agg \<Rightarrow> bool" where
  "is_empty d \<longleftrightarrow>
     ca_connections d = 0 \<and> ca_failures d = 0 \<and> ca_bytes_sent d = 0 \<and> ca_bytes_recv d = 0 \<and>
     ca_duration_sum_us d = 0 \<and> ca_tcp_retrans d = 0 \<and> ca_tcp_resets d = 0 \<and> list_all (\<lambda>n. n = 0) (ca_latency_hist d)"

definition sum_process :: "proc_agg_wire list \<Rightarrow> u64 \<times> u64 \<times> u64" where
  "sum_process vs = fold (\<lambda>v (exec, ex, fk). (sat_add exec (pa_exec v), sat_add ex (pa_exit v), sat_add fk (pa_fork v))) vs (0, 0, 0)"

section \<open>Edge records\<close>

definition word_dec :: "'a::len word \<Rightarrow> string" where
  "word_dec w = nat_dec (unat w)"

definition ipv4_of :: "u32 \<Rightarrow> string" where
  "ipv4_of raw =
     word_dec (drop_bit 24 raw AND 255) @ ''.'' @ word_dec (drop_bit 16 raw AND 255) @ ''.'' @
     word_dec (drop_bit 8 raw AND 255) @ ''.'' @ word_dec (raw AND 255)"

record conn_view_rec =
  cv_src_ip :: string
  cv_dst_ip :: string
  cv_sport :: u16
  cv_dport :: u16
  cv_protocol :: string

definition conn_view :: "conn_key \<Rightarrow> conn_view_rec" where
  "conn_view k =
     \<lparr>cv_src_ip = ipv4_of (ck_saddr k), cv_dst_ip = ipv4_of (ck_daddr k), cv_sport = ck_sport k, cv_dport = ck_dport k,
      cv_protocol = (if ck_protocol k = 6 then ''tcp'' else ''udp'')\<rparr>"

definition reason_str :: "u32 \<Rightarrow> string" where
  "reason_str r =
     (if r = REASON_REFUSED then ''refused'' else if r = REASON_TIMEOUT then ''timeout''
      else if r = REASON_UNREACHABLE then ''unreachable'' else if r = REASON_RESET then ''reset''
      else if r = REASON_OTHER then ''other'' else [])"

record ebpf_edge_record =
  er_record_id :: string
  er_timestamp :: int
  er_bucket_micros :: int
  er_protocol :: string
  er_src_ip :: string
  er_src_port :: u16
  er_dst_ip :: string
  er_dst_port :: u16
  er_src_pod :: string
  er_src_container_id :: string
  er_src_process :: string
  er_src_service :: string
  er_dst_service :: string
  er_connections :: u64
  er_bytes_sent :: u64
  er_bytes_recv :: u64
  er_duration_micros_sum :: u64
  er_duration_micros_max :: u64
  er_tcp_retrans :: u64
  er_tcp_resets :: u64
  er_failures :: u64
  er_failure_reason :: string
  er_latency_hist :: "u64 list"
  er_source :: string
  er_labels :: "(string, string) btmap"

record process_context =
  px_process_name :: string
  px_container_id :: string
  px_pod_name :: string

definition default_process_context :: process_context where
  "default_process_context = \<lparr>px_process_name = [], px_container_id = [], px_pod_name = []\<rparr>"

definition bucket_start :: "int \<Rightarrow> int \<Rightarrow> int" where
  "bucket_start now_micros bucket_secs =
     (let width = max bucket_secs 1 * 1000000 in now_micros div width * width)"

definition edge_record ::
    "string \<Rightarrow> conn_key \<Rightarrow> conn_agg \<Rightarrow> int \<Rightarrow> int \<Rightarrow> process_context option \<Rightarrow> ebpf_edge_record option" where
  "edge_record agent_id k d bucket_ts bucket_secs ctx =
     (if is_empty d then None
      else
        let v = conn_view k; c = (case ctx of Some c \<Rightarrow> c | None \<Rightarrow> default_process_context) in
        Some \<lparr>er_record_id = agent_id @ '':'' @ int_dec bucket_ts @ '':'' @ cv_src_ip v @ '':'' @ word_dec (cv_sport v) @ '':'' @
                cv_dst_ip v @ '':'' @ word_dec (cv_dport v) @ '':'' @ cv_protocol v,
              er_timestamp = bucket_ts, er_bucket_micros = max bucket_secs 1 * 1000000, er_protocol = cv_protocol v,
              er_src_ip = cv_src_ip v, er_src_port = cv_sport v, er_dst_ip = cv_dst_ip v, er_dst_port = cv_dport v,
              er_src_pod = px_pod_name c, er_src_container_id = px_container_id c, er_src_process = px_process_name c,
              er_src_service = [], er_dst_service = [],
              er_connections = ca_connections d, er_bytes_sent = ca_bytes_sent d, er_bytes_recv = ca_bytes_recv d,
              er_duration_micros_sum = ca_duration_sum_us d, er_duration_micros_max = ca_duration_max_us d,
              er_tcp_retrans = ca_tcp_retrans d, er_tcp_resets = ca_tcp_resets d, er_failures = ca_failures d,
              er_failure_reason = reason_str (ca_failure_reason d), er_latency_hist = ca_latency_hist d,
              er_source = ''ebpf'', er_labels = []\<rparr>)"

section \<open>Filter\<close>

record ebpf_config =
  ec_bucket_secs :: int
  ec_flush_interval_secs :: nat
  ec_cgroup_include :: "string list"
  ec_cgroup_exclude :: "string list"
  ec_process_include :: "string list"
  ec_process_exclude :: "string list"
  ec_port_include :: "u16 list"
  ec_port_exclude :: "u16 list"
  ec_include_loopback :: bool
  ec_raw_events_enabled :: bool
  ec_max_events_per_sec :: nat
  ec_slow_threshold_micros :: nat

record filter_input =
  fi_src_ip :: string
  fi_dst_ip :: string
  fi_src_port :: u16
  fi_dst_port :: u16
  fi_cgroup_id :: u64
  fi_process_name :: string
  fi_pod_name :: string

definition is_loopback :: "string \<Rightarrow> bool" where
  "is_loopback ip \<longleftrightarrow> prefix ''127.'' ip \<or> ip = ''::1'' \<or> prefix ''::ffff:127.'' ip"

definition keep :: "filter_input \<Rightarrow> ebpf_config \<Rightarrow> bool" where
  "keep i c =
     (let cgroup = word_dec (fi_cgroup_id i);
          named = (\<lambda>name. fi_process_name i \<noteq> [] \<and> fi_process_name i = name)
      in if \<not> ec_include_loopback c \<and> (is_loopback (fi_src_ip i) \<or> is_loopback (fi_dst_ip i)) then False
         else if ec_port_include c \<noteq> [] \<and> fi_src_port i \<notin> set (ec_port_include c) \<and> fi_dst_port i \<notin> set (ec_port_include c) then False
         else if fi_src_port i \<in> set (ec_port_exclude c) \<or> fi_dst_port i \<in> set (ec_port_exclude c) then False
         else if list_ex (\<lambda>p. prefix p cgroup) (ec_cgroup_exclude c) then False
         else if ec_cgroup_include c \<noteq> [] \<and> \<not> list_ex (\<lambda>p. prefix p cgroup) (ec_cgroup_include c) then False
         else if list_ex named (ec_process_exclude c) then False
         else if ec_process_include c \<noteq> [] \<and> \<not> list_ex named (ec_process_include c) then False
         else True)"

section \<open>One round of the connection loop\<close>

record ebpf_stats =
  es_flushes :: nat
  es_edges :: nat
  es_filtered :: nat
  es_idle_keys :: nat
  es_read_errors :: nat
  es_rate_limited :: nat
  es_edges_skipped :: nat

definition filter_of :: "conn_key \<Rightarrow> process_context option \<Rightarrow> filter_input" where
  "filter_of k ctx =
     (let v = conn_view k; c = (case ctx of Some c \<Rightarrow> c | None \<Rightarrow> default_process_context) in
      \<lparr>fi_src_ip = cv_src_ip v, fi_dst_ip = cv_dst_ip v, fi_src_port = cv_sport v, fi_dst_port = cv_dport v,
       fi_cgroup_id = ck_cgroup_id k, fi_process_name = px_process_name c, fi_pod_name = px_pod_name c\<rparr>)"

text \<open>The loop over the snapshot: each key is idle, filtered, skipped or becomes an edge.\<close>

fun edges_of ::
    "ebpf_config \<Rightarrow> string \<Rightarrow> (u32 \<Rightarrow> process_context option) \<Rightarrow> int \<Rightarrow> (conn_key, conn_agg_wire) snapshot \<Rightarrow>
     ebpf_stats \<Rightarrow> ebpf_edge_record list \<times> ebpf_stats" where
  "edges_of c agent_id ctx bucket_ts [] st = ([], st)"
| "edges_of c agent_id ctx bucket_ts ((k, vs) # rest) st =
     (let d = view_per_cpu vs; x = ctx (ck_pid k) in
      if is_empty d then edges_of c agent_id ctx bucket_ts rest (st\<lparr>es_idle_keys := es_idle_keys st + 1\<rparr>)
      else if \<not> keep (filter_of k x) c then edges_of c agent_id ctx bucket_ts rest (st\<lparr>es_filtered := es_filtered st + 1\<rparr>)
      else if ca_connections d = 0
      then edges_of c agent_id ctx bucket_ts rest (st\<lparr>es_edges_skipped := es_edges_skipped st + 1\<rparr>)
      else
        let (es, st') = edges_of c agent_id ctx bucket_ts rest st
        in (case edge_record agent_id k d bucket_ts (ec_bucket_secs c) x of None \<Rightarrow> es | Some e \<Rightarrow> e # es, st'))"

record 's round_env =
  rn_iter :: "string option"
  rn_mid :: "conn_key \<Rightarrow> 's \<Rightarrow> 's"
  rn_write :: "conn_key \<Rightarrow> string option"
  rn_now :: int
  rn_ctx :: "u32 \<Rightarrow> process_context option"

definition run_round ::
    "ebpf_config \<Rightarrow> string \<Rightarrow> nat \<Rightarrow> 'a conn_maps_scheme round_env \<Rightarrow> 'a conn_maps_scheme \<Rightarrow> ebpf_stats \<Rightarrow>
     ebpf_edge_record list \<times> 'a conn_maps_scheme \<times> ebpf_stats" where
  "run_round c agent_id cpus n s st =
     (case drain_conn cpus (rn_iter n) (rn_mid n) (rn_write n) s of
        (Inl _, s1) \<Rightarrow> ([], s1, st\<lparr>es_read_errors := es_read_errors st + 1\<rparr>)
      | (Inr snap, s1) \<Rightarrow>
          (let (limited, rate) = take_rate_limit_drops cpus (cm_rate s1);
               st1 = st\<lparr>es_flushes := es_flushes st + 1, es_rate_limited := es_rate_limited st + unat limited\<rparr>;
               (es, st2) = edges_of c agent_id (rn_ctx n) (bucket_start (rn_now n) (ec_bucket_secs c)) snap st1
           in (es, s1\<lparr>cm_rate := rate\<rparr>, st2\<lparr>es_edges := es_edges st2 + length es\<rparr>)))"

section \<open>Processes\<close>

type_synonym proc_counts = "u64 \<times> u64 \<times> u64"
type_synonym proc_seen_key = "u32 \<times> u64 \<times> u8 list"

record process_labels =
  pl_container_id :: string
  pl_pod_uid :: string

type_synonym minute_acc = "(int \<times> proc_seen_key, proc_counts \<times> process_labels) btmap"

definition observe :: "proc_key \<Rightarrow> proc_counts \<Rightarrow> int \<Rightarrow> process_context option \<Rightarrow> minute_acc \<Rightarrow> minute_acc" where
  "observe k d bucket_ts ctx acc =
     (let labels = (case ctx of Some c \<Rightarrow> \<lparr>pl_container_id = px_container_id c, pl_pod_uid = px_pod_name c\<rparr>
                    | None \<Rightarrow> \<lparr>pl_container_id = [], pl_pod_uid = []\<rparr>);
          key = (bucket_ts, pk_pid k, pk_cgroup_id k, pk_comm k);
          ((exec, ex, fk), old) = (case bt_get acc key of Some e \<Rightarrow> e | None \<Rightarrow> ((0, 0, 0), labels));
          (dexec, dex, dfk) = d
      in bt_insert key ((sat_add exec dexec, sat_add ex dex, sat_add fk dfk),
           if pl_container_id old = [] \<and> pl_container_id labels \<noteq> [] then labels else old) acc)"

text \<open>\<^verbatim>\<open>drain_closed\<close>: the closed buckets leave the accumulator; a point for each counter that is not zero.\<close>

record process_point =
  pp_timestamp :: int
  pp_measurement :: string
  pp_pid :: u32
  pp_cgroup_id :: u64
  pp_comm :: "u8 list"
  pp_labels :: process_labels
  pp_value :: u64

definition points_of :: "(int \<times> proc_seen_key) \<times> (proc_counts \<times> process_labels) \<Rightarrow> process_point list" where
  "points_of b =
     (let ((ts, pid, cgroup, c), ((exec, ex, fk), labels)) = b in
      map (\<lambda>(m, n). \<lparr>pp_timestamp = ts, pp_measurement = m, pp_pid = pid, pp_cgroup_id = cgroup, pp_comm = c,
             pp_labels = labels, pp_value = n\<rparr>)
        (filter (\<lambda>(_, n). n \<noteq> 0)
          [(''ebpf_process_exec_total'', exec), (''ebpf_process_exit_total'', ex), (''ebpf_process_fork_total'', fk)]))"

definition drain_closed :: "int \<Rightarrow> minute_acc \<Rightarrow> process_point list \<times> minute_acc" where
  "drain_closed now acc =
     (let current_minute = now - now mod 60000000;
          closed = filter (\<lambda>((ts, _), _). ts < current_minute) acc
      in (concat (map points_of closed), filter (\<lambda>((ts, _), _). \<not> ts < current_minute) acc))"

fun observe_all ::
    "(u32 \<Rightarrow> process_context option) \<Rightarrow> int \<Rightarrow> (proc_key, proc_agg_wire) snapshot \<Rightarrow> minute_acc \<Rightarrow> ebpf_stats \<Rightarrow>
     minute_acc \<times> ebpf_stats" where
  "observe_all ctx bucket_ts [] acc st = (acc, st)"
| "observe_all ctx bucket_ts ((k, vs) # rest) acc st =
     (let d = sum_process vs in
      if d = (0, 0, 0) then observe_all ctx bucket_ts rest acc (st\<lparr>es_idle_keys := es_idle_keys st + 1\<rparr>)
      else observe_all ctx bucket_ts rest (observe k d bucket_ts (ctx (pk_pid k)) acc) st)"

section \<open>System calls\<close>

record syscall_agg =
  sy_calls :: u64
  sy_errors :: u64
  sy_duration_sum_us :: u64
  sy_duration_max_us :: u64
  sy_hist :: "u64 list"

definition sum_syscall :: "syscall_agg_wire list \<Rightarrow> syscall_agg" where
  "sum_syscall vs = fold (\<lambda>v out.
     \<lparr>sy_calls = sat_add (sy_calls out) (sw_calls v), sy_errors = sat_add (sy_errors out) (sw_errors v),
      sy_duration_sum_us = sat_add (sy_duration_sum_us out) (sw_duration_sum_us v),
      sy_duration_max_us = max (sy_duration_max_us out) (sw_duration_max_us v),
      sy_hist = map2 sat_add (sy_hist out) (sw_hist v)\<rparr>) vs
     \<lparr>sy_calls = 0, sy_errors = 0, sy_duration_sum_us = 0, sy_duration_max_us = 0, sy_hist = replicate HIST_SLOTS 0\<rparr>"

definition syscall_is_empty :: "syscall_agg \<Rightarrow> bool" where
  "syscall_is_empty a \<longleftrightarrow> sy_calls a = 0 \<and> sy_errors a = 0"

fun p95_scan :: "u64 \<Rightarrow> u64 \<Rightarrow> nat \<Rightarrow> u64 list \<Rightarrow> nat option" where
  "p95_scan target cumulative slot [] = None"
| "p95_scan target cumulative slot (n # ns) =
     (let c = sat_add cumulative n in if c \<ge> target then Some slot else p95_scan target c (slot + 1) ns)"

definition sat_mul :: "u64 \<Rightarrow> u64 \<Rightarrow> u64" where
  "sat_mul a b = (if unat a * unat b \<ge> 2 ^ 64 then - 1 else a * b)"

definition histogram_p95 :: "u64 list \<Rightarrow> u64 option" where
  "histogram_p95 hist =
     (let n = sat_sum hist in
      if n = 0 then None
      else
        let target = word_of_nat ((unat (sat_mul n 95) + 99) div 100)
        in Some (hist_slot_upper_micros
             (case p95_scan target 0 0 hist of Some slot \<Rightarrow> slot | None \<Rightarrow> length hist - 1)))"

section \<open>Retry delays\<close>

record backoff =
  bo_next :: nat
  bo_attempts :: nat

definition BACKOFF_BASE :: nat where "BACKOFF_BASE = 30"
definition BACKOFF_MAX :: nat where "BACKOFF_MAX = 600"

definition backoff_new :: backoff where
  "backoff_new = \<lparr>bo_next = BACKOFF_BASE, bo_attempts = 0\<rparr>"

definition backoff_failed :: "backoff \<Rightarrow> nat \<times> backoff" where
  "backoff_failed b =
     (bo_next b, \<lparr>bo_next = min (bo_next b * 2) BACKOFF_MAX, bo_attempts = min (bo_attempts b + 1) (2 ^ 32 - 1)\<rparr>)"

definition backoff_succeeded :: "backoff \<Rightarrow> backoff" where
  "backoff_succeeded b = \<lparr>bo_next = BACKOFF_BASE, bo_attempts = 0\<rparr>"

end
