(* ===== verification/Ebpf_Correct.thy ===== *)
theory Ebpf_Correct
  imports Ebpf_Agent
begin

text \<open>
  What the eBPF pipeline promises, over any interleaving of kernel events on any processor with the
  agent's rounds: counted bytes are reported exactly once; a map that is full stays closed to new
  connections for good; the item for retransmissions and resets never reports anything.
\<close>

named_theorems keys_simps \<open>effect of the programs on the keys of their map\<close>

section \<open>Per-CPU maps\<close>

lemma map_of_upd_val: "map_of (map (\<lambda>(j, f). (j, h j f)) m) k = map_option (h k) (map_of m k)"
  by (induction m) auto

lemma map_of_bump:
  "map_of (pc_bump cap z cpu k g m) j =
     (if j = k then (case map_of m k of Some f \<Rightarrow> Some (f(cpu := g (f cpu)))
        | None \<Rightarrow> if length m < cap then Some ((\<lambda>_. z)(cpu := g z)) else None)
      else map_of m j)"
  by (auto simp: pc_bump_def map_of_upd_val map_add_def split: option.split)

lemma map_of_write: "map_of (pc_write k z m) j = map_option (\<lambda>f. if j = k then (\<lambda>_. z) else f) (map_of m j)"
  by (simp add: pc_write_def map_of_upd_val)

lemma keys_map: "map fst (map (\<lambda>(j, f). (j, h j f)) m) = map fst m"
  by (induction m) auto

lemma keys_write [keys_simps]: "map fst (pc_write k z m) = map fst m"
  unfolding pc_write_def by (rule keys_map)

lemma keys_bump_full: "cap \<le> length m \<Longrightarrow> map fst (pc_bump cap z cpu k g m) = map fst m"
proof (cases "map_of m k")
  case (Some f)
  then show ?thesis unfolding pc_bump_def by (simp only: option.case keys_map)
qed (simp add: pc_bump_def)

section \<open>Schedules\<close>

text \<open>Probes of a program and rounds of the agent in any order; a round may see probes between its calls.\<close>

datatype ('p, 's) ebpf_op = Probe 'p env | Round "'s round_env"

fun ebpf_run ::
    "('p \<Rightarrow> env \<Rightarrow> 'a conn_maps_scheme \<Rightarrow> 'a conn_maps_scheme) \<Rightarrow> ebpf_config \<Rightarrow> string \<Rightarrow> nat \<Rightarrow>
     ('p, 'a conn_maps_scheme) ebpf_op list \<Rightarrow> 'a conn_maps_scheme \<Rightarrow> ebpf_stats \<Rightarrow>
     ebpf_edge_record list \<times> 'a conn_maps_scheme \<times> ebpf_stats" where
  "ebpf_run run c agent_id cpus [] s st = ([], s, st)"
| "ebpf_run run c agent_id cpus (Probe p e # ops) s st = ebpf_run run c agent_id cpus ops (run p e s) st"
| "ebpf_run run c agent_id cpus (Round n # ops) s st =
     (let (es, s1, st1) = run_round c agent_id cpus n s st;
          (es2, s2, st2) = ebpf_run run c agent_id cpus ops s1 st1
      in (es @ es2, s2, st2))"

definition by_probes :: "('p \<Rightarrow> env \<Rightarrow> 's \<Rightarrow> 's) \<Rightarrow> ('k \<Rightarrow> 's \<Rightarrow> 's) \<Rightarrow> bool" where
  "by_probes run mid \<longleftrightarrow> (\<forall>k. \<exists>ps. mid k = fold (\<lambda>(p, e). run p e) ps)"

definition genuine :: "('p \<Rightarrow> env \<Rightarrow> 's \<Rightarrow> 's) \<Rightarrow> ('p, 's) ebpf_op \<Rightarrow> bool" where
  "genuine run oper \<longleftrightarrow> (case oper of Probe _ _ \<Rightarrow> True | Round n \<Rightarrow> by_probes run (rn_mid n))"

text \<open>An edge comes from a connection with new connections among its counts.\<close>

definition edge_from :: "string \<Rightarrow> nat \<Rightarrow> ebpf_edge_record \<Rightarrow> conn_key \<Rightarrow> (nat \<Rightarrow> conn_agg_wire) \<Rightarrow> bool" where
  "edge_from a cpus r k f \<longleftrightarrow>
     ca_connections (view_per_cpu (map f [0..<cpus])) \<noteq> 0 \<and>
     (\<exists>ts b x. edge_record a k (view_per_cpu (map f [0..<cpus])) ts b x = Some r)"

lemma edges_of_source:
  assumes "r \<in> set (fst (edges_of c a ctx ts snap st))"
  shows "\<exists>(k, vs) \<in> set snap. ca_connections (view_per_cpu vs) \<noteq> 0 \<and>
    (\<exists>ts b x. edge_record a k (view_per_cpu vs) ts b x = Some r)"
  using assms
proof (induction snap arbitrary: st)
  case (Cons kv rest)
  obtain k vs where kv: "kv = (k, vs)" by fastforce
  let ?d = "view_per_cpu vs" and ?x = "ctx (ck_pid k)"
  have step: ?case if "r \<in> set (fst (edges_of c a ctx ts rest st'))" for st'
    using Cons.IH [OF that] by auto
  show ?case
  proof (cases "is_empty ?d \<or> \<not> keep (filter_of k ?x) c \<or> ca_connections ?d = 0")
    case True
    then have "\<exists>st'. edges_of c a ctx ts (kv # rest) st = edges_of c a ctx ts rest st'"
      unfolding kv edges_of.simps Let_def by (simp only: split: if_split) blast
    then obtain st' where "edges_of c a ctx ts (kv # rest) st = edges_of c a ctx ts rest st'" by blast
    then show ?thesis using step [of st'] Cons.prems by simp
  next
    case False
    obtain es st' where e: "edges_of c a ctx ts rest st = (es, st')" by fastforce
    have r: "edges_of c a ctx ts (kv # rest) st =
        (case edge_record a k ?d ts (ec_bucket_secs c) ?x of None \<Rightarrow> es | Some r \<Rightarrow> r # es, st')"
      using False e by (simp add: kv)
    show ?thesis
    proof (cases "r \<in> set es")
      case True
      then show ?thesis using step [of st] e by simp
    next
      case new: False
      then have "edge_record a k ?d ts (ec_bucket_secs c) ?x = Some r"
        using Cons.prems r by (auto split: option.splits)
      then show ?thesis using False kv by auto
    qed
  qed
qed simp

section \<open>Invariants of a program's maps\<close>

text \<open>What every probe, every zeroing and the reset of the drop counters keep, a schedule keeps.\<close>

locale probe_invariant =
  fixes run :: "'p \<Rightarrow> env \<Rightarrow> 'a conn_maps_scheme \<Rightarrow> 'a conn_maps_scheme"
    and P :: "'a conn_maps_scheme \<Rightarrow> bool"
  assumes probe: "P s \<Longrightarrow> P (run p e s)"
    and zeroed: "P s \<Longrightarrow> P (cm_agg_update (pc_write k default_conn_agg_wire) s)"
    and rated: "P s \<Longrightarrow> P (s\<lparr>cm_rate := r\<rparr>)"
begin

lemma probes: "P s \<Longrightarrow> P (fold (\<lambda>(p, e). run p e) ps s)"
  by (induction ps arbitrary: s) (auto simp: probe)

lemma mid: "by_probes run m \<Longrightarrow> P s \<Longrightarrow> P (m k s)"
  using probes unfolding by_probes_def by metis

lemma reset: "by_probes run m \<Longrightarrow> P s \<Longrightarrow> P (snd (reset_keys default_conn_agg_wire cm_agg_update m ok ks s))"
  by (induction ks arbitrary: s) (auto simp: mid zeroed split: option.split)

lemma drained:
  assumes "drain_conn cpus it m ok s = (r, s1)" "by_probes run m" "P s"
  shows "P s1"
  using assms reset [OF assms(2,3), of ok "map fst (cm_agg s)"]
  by (auto simp: drain_conn_def drain_def Let_def split: option.splits prod.splits)

lemma drained_source:
  "drain_conn cpus it m ok s = (Inr snap, s1) \<Longrightarrow> snap = map (\<lambda>(k, f). (k, map f [0..<cpus])) (cm_agg s)"
  by (auto simp: drain_conn_def drain_def Let_def split: option.splits prod.splits)

lemma round:
  assumes "run_round c a cpus n s st = (es, s1, st1)" "by_probes run (rn_mid n)" "P s"
  shows "P s1 \<and> (\<forall>r \<in> set es. \<exists>(k, f) \<in> set (cm_agg s). edge_from a cpus r k f)"
proof -
  obtain res s2 where d: "drain_conn cpus (rn_iter n) (rn_mid n) (rn_write n) s = (res, s2)" by fastforce
  have p: "P s2" using drained [OF d assms(2,3)] .
  show ?thesis
  proof (cases res)
    case (Inl e)
    then show ?thesis using assms(1) d p by (auto simp: run_round_def)
  next
    case (Inr snap)
    obtain limited rate where l: "take_rate_limit_drops cpus (cm_rate s2) = (limited, rate)" by fastforce
    let ?st = "st\<lparr>es_flushes := es_flushes st + 1, es_rate_limited := es_rate_limited st + unat limited\<rparr>"
    let ?es = "edges_of c a (rn_ctx n) (bucket_start (rn_now n) (ec_bucket_secs c)) snap ?st"
    obtain es0 st2 where e: "?es = (es0, st2)" by fastforce
    have eq: "es = fst ?es" "s1 = s2\<lparr>cm_rate := rate\<rparr>"
      using assms(1) unfolding run_round_def d Inr prod.case sum.case l Let_def e by simp_all
    have "\<exists>(k, f) \<in> set (cm_agg s). edge_from a cpus r k f" if "r \<in> set es" for r
      using edges_of_source [OF that [unfolded eq(1)]] drained_source [OF d [unfolded Inr]]
      by (auto simp: edge_from_def)
    then show ?thesis using p eq(2) rated by blast
  qed
qed

lemma schedule:
  "\<forall>oper \<in> set ops. genuine run oper \<Longrightarrow> P s \<Longrightarrow> ebpf_run run c a cpus ops s st = (es, s', st') \<Longrightarrow>
    P s' \<and> (\<forall>r \<in> set es. \<exists>s0 k f. P s0 \<and> (k, f) \<in> set (cm_agg s0) \<and> edge_from a cpus r k f)"
proof (induction ops arbitrary: s st es s' st')
  case (Cons oper ops)
  show ?case
  proof (cases oper)
    case (Probe p e)
    then show ?thesis using Cons.prems probe [OF Cons.prems(2)] by (intro Cons.IH [of "run p e s" st]) simp_all
  next
    case (Round n)
    obtain es1 s1 st1 where r: "run_round c a cpus n s st = (es1, s1, st1)" by (metis prod_cases3)
    obtain es2 s2 st2 where r2: "ebpf_run run c a cpus ops s1 st1 = (es2, s2, st2)" by (metis prod_cases3)
    have g: "by_probes run (rn_mid n)" using Cons.prems(1) Round by (simp add: genuine_def)
    have one: "P s1" "\<forall>r \<in> set es1. \<exists>(k, f) \<in> set (cm_agg s). edge_from a cpus r k f"
      using round [OF r g Cons.prems(2)] by simp_all
    have two: "P s2 \<and> (\<forall>r \<in> set es2. \<exists>s0 k f. P s0 \<and> (k, f) \<in> set (cm_agg s0) \<and> edge_from a cpus r k f)"
      using Cons.prems(1) one(1) r2 by (intro Cons.IH [of s1 st1]) simp_all
    have "es = es1 @ es2" "s' = s2" using Cons.prems(3) Round r r2 by simp_all
    then show ?thesis using one(2) two Cons.prems(2) by fastforce
  qed
qed simp

end

section \<open>A full map\<close>

definition full_with :: "conn_key list \<Rightarrow> 'a conn_maps_scheme \<Rightarrow> bool" where
  "full_with K s \<longleftrightarrow> cm_cap s \<le> length K \<and> map fst (cm_agg s) = K"

lemma full_bump: "full_with K s \<Longrightarrow> full_with K (bump e k g s)"
  by (auto simp: full_with_def bump_def keys_bump_full)

lemma full_cong: "cm_agg s' = cm_agg s \<Longrightarrow> cm_cap s' = cm_cap s \<Longrightarrow> full_with K s' = full_with K s"
  by (simp add: full_with_def)

text \<open>The shapes of the probes, for any predicate that only an update of a connection could break.\<close>

lemma guarded_keeps:
  assumes "\<And>s r. P s \<Longrightarrow> P (s\<lparr>cm_rate := r\<rparr>)" "\<And>s. P s \<Longrightarrow> P (f s)" "P s"
  shows "P (guarded e f s)"
  using assms by (simp add: guarded_def Let_def split: prod.split)

lemma take_entry_keeps:
  assumes "\<And>s x. P s \<Longrightarrow> P (s\<lparr>cm_entry := x\<rparr>)" "P s" "take_entry e s = (ko, s1)"
  shows "P s1"
  using assms by (auto simp: take_entry_def split: option.splits)

lemma on_return_keeps:
  assumes "\<And>s x. P s \<Longrightarrow> P (s\<lparr>cm_entry := x\<rparr>)" "\<And>s k g ret. f ret = Some g \<Longrightarrow> P s \<Longrightarrow> P (bump e k g s)" "P s"
  shows "P (on_return e f s)"
proof -
  obtain ko s1 where t: "take_entry e s = (ko, s1)" by fastforce
  have "P s1" by (rule take_entry_keeps [OF assms(1,3) t])
  then show ?thesis using assms(2) by (simp add: on_return_def t split: option.split)
qed

lemma stash_keeps:
  assumes "\<And>s x. P s \<Longrightarrow> P (s\<lparr>cm_entry := x\<rparr>)" "\<And>s r. P s \<Longrightarrow> P (s\<lparr>cm_rate := r\<rparr>)" "P s"
  shows "P (stash_entry e s)"
  unfolding stash_entry_def by (rule guarded_keeps [where P = P]) (use assms in \<open>auto split: option.split\<close>)

lemma full_entry: "full_with K s \<Longrightarrow> full_with K (s\<lparr>cm_entry := x\<rparr>)"
  and full_rate: "full_with K s \<Longrightarrow> full_with K (s\<lparr>cm_rate := r\<rparr>)"
  and full_start: "full_with K t \<Longrightarrow> full_with K (t\<lparr>nm_start := y\<rparr>)"
  by (simp_all add: full_with_def)

lemma full_zeroed: "full_with K s \<Longrightarrow> full_with K (cm_agg_update (pc_write k z) s)"
  by (simp add: full_with_def keys_write)

lemma full_state: "full_with K s \<Longrightarrow> full_with K (inet_sock_set_state e s)"
proof -
  have up: "full_with K (connection_up e k s)" if "full_with K s" for k s
    using that by (simp add: connection_up_def Let_def full_bump full_start)
  have down: "full_with K (connection_down e k b s)" if "full_with K s" for k b s
    using that by (simp add: connection_down_def Let_def full_bump full_start split: option.split)
  show "full_with K s \<Longrightarrow> ?thesis"
    unfolding inet_sock_set_state_def
    by (rule guarded_keeps [where P = "full_with K"]) (auto simp: full_rate up down split: option.split)
qed

lemma full_net: "full_with K s \<Longrightarrow> full_with K (net_probe_run p e s)"
  by (cases p) (auto simp: tcp_sendmsg_ret_def tcp_recvmsg_ret_def tcp_connect_ret_def full_state
      intro!: stash_keeps [where P = "full_with K"] on_return_keeps [where P = "full_with K"] full_entry full_rate full_bump)

interpretation net_full: probe_invariant net_probe_run "full_with K" for K
  by unfold_locales (rule full_net full_zeroed full_rate; assumption)+

section \<open>The retransmission item\<close>

definition unconnected :: "'a conn_maps_scheme \<Rightarrow> bool" where
  "unconnected s \<longleftrightarrow> (\<forall>(k, f) \<in> set (cm_agg s). \<forall>cpu. cw_connections (f cpu) = 0)"

lemma unconnected_bump:
  assumes "unconnected s" "\<And>v. cw_connections (g v) = cw_connections v"
  shows "unconnected (bump e k g s)"
proof -
  have "cw_connections default_conn_agg_wire = 0" by (simp add: default_conn_agg_wire_def)
  then show ?thesis using assms
    by (auto simp: unconnected_def bump_def pc_bump_def split: option.split if_splits)
qed

lemma unconnected_entry: "unconnected s \<Longrightarrow> unconnected (s\<lparr>cm_entry := x\<rparr>)"
  and unconnected_rate: "unconnected s \<Longrightarrow> unconnected (s\<lparr>cm_rate := r\<rparr>)"
  by (simp_all add: unconnected_def)

lemma unconnected_zeroed: "unconnected s \<Longrightarrow> unconnected (cm_agg_update (pc_write k default_conn_agg_wire) s)"
  by (auto simp: unconnected_def pc_write_def default_conn_agg_wire_def split: if_splits)

lemma unconnected_reset: "unconnected s \<Longrightarrow> unconnected (tcp_send_active_reset_entry e s)"
  unfolding tcp_send_active_reset_entry_def
  by (rule guarded_keeps [where P = unconnected]) (auto simp: unconnected_rate unconnected_bump split: option.split)

lemma unconnected_tcp: "unconnected s \<Longrightarrow> unconnected (tcp_probe_run p e s)"
  by (cases p) (auto simp: tcp_retransmit_skb_ret_def unconnected_reset split: if_splits
      intro!: stash_keeps [where P = unconnected] on_return_keeps [where P = unconnected]
        unconnected_entry unconnected_rate unconnected_bump)

interpretation tcp_unconnected: probe_invariant tcp_probe_run "unconnected :: conn_maps \<Rightarrow> bool"
  by unfold_locales (rule unconnected_tcp unconnected_zeroed unconnected_rate; assumption)+

lemma view_connections: "\<forall>v \<in> set vs. cw_connections v = 0 \<Longrightarrow> ca_connections (view_per_cpu vs) = 0"
proof -
  have "\<forall>v \<in> set vs. cw_connections v = 0 \<Longrightarrow> ca_connections d = 0 \<Longrightarrow> ca_connections (fold add_cpu vs d) = 0" for d
    by (induction vs arbitrary: d) (simp_all add: add_cpu_def sat_add_def)
  then show "\<forall>v \<in> set vs. cw_connections v = 0 \<Longrightarrow> ?thesis"
    by (simp add: view_per_cpu_def empty_conn_agg_def)
qed

section \<open>Accounting\<close>

definition sent_total :: "nat \<Rightarrow> conn_key \<Rightarrow> (conn_key, conn_agg_wire) percpu \<Rightarrow> nat" where
  "sent_total cpus k m = (case map_of m k of None \<Rightarrow> 0 | Some f \<Rightarrow> \<Sum>c<cpus. unat (cw_bytes_sent (f c)))"

definition reported :: "conn_key \<Rightarrow> (conn_key, conn_agg_wire) snapshot \<Rightarrow> nat" where
  "reported k snap = (case map_of snap k of None \<Rightarrow> 0 | Some vs \<Rightarrow> unat (ca_bytes_sent (view_per_cpu vs)))"

text \<open>The bytes a probe adds for a connection: a successful send of the thread's stashed connection, if there is room.\<close>

definition counted :: "conn_key \<Rightarrow> 'a conn_maps_scheme \<Rightarrow> bool" where
  "counted k s \<longleftrightarrow> map_of (cm_agg s) k \<noteq> None \<or> length (cm_agg s) < cm_cap s"

definition sent_by :: "net_probe \<Rightarrow> env \<Rightarrow> conn_key \<Rightarrow> net_maps \<Rightarrow> nat" where
  "sent_by p e k s =
     (if p = SendRet \<and> fst (take_entry e s) = Some k \<and> sint (en_ret e) > 0 \<and> counted k s then unat (en_ret e) else 0)"

text \<open>Probes (\<open>Some\<close>) and rounds undisturbed by them (\<open>None\<close>): the snapshots read, and the bytes counted.\<close>

fun net_rounds :: "nat \<Rightarrow> (net_probe \<times> env) option list \<Rightarrow> net_maps \<Rightarrow> (conn_key, conn_agg_wire) snapshot list \<times> net_maps" where
  "net_rounds cpus [] s = ([], s)"
| "net_rounds cpus (Some (p, e) # ops) s = net_rounds cpus ops (net_probe_run p e s)"
| "net_rounds cpus (None # ops) s =
     (let (r, s1) = drain_conn cpus None (\<lambda>_ s. s) (\<lambda>_. None) s; (snaps, s2) = net_rounds cpus ops s1
      in (case r of Inr snap \<Rightarrow> snap # snaps | Inl _ \<Rightarrow> snaps, s2))"

fun sent_in :: "nat \<Rightarrow> conn_key \<Rightarrow> (net_probe \<times> env) option list \<Rightarrow> net_maps \<Rightarrow> nat" where
  "sent_in cpus k [] s = 0"
| "sent_in cpus k (Some (p, e) # ops) s = sent_by p e k s + sent_in cpus k ops (net_probe_run p e s)"
| "sent_in cpus k (None # ops) s = sent_in cpus k ops (snd (drain_conn cpus None (\<lambda>_ s. s) (\<lambda>_. None) s))"

lemma sum_upd:
  assumes "cpu < (n :: nat)" "h w = h (f cpu) + (d :: nat)"
  shows "(\<Sum>c<n. h ((f(cpu := w)) c)) = (\<Sum>c<n. h (f c)) + d"
proof -
  have "(\<Sum>c<n. h ((f(cpu := w)) c)) = h w + (\<Sum>c\<in>{..<n} - {cpu}. h ((f(cpu := w)) c))"
    using assms(1) by (subst sum.remove [of _ cpu]) simp_all
  also have "(\<Sum>c\<in>{..<n} - {cpu}. h ((f(cpu := w)) c)) = (\<Sum>c\<in>{..<n} - {cpu}. h (f c))"
    by (rule sum.cong) simp_all
  also have "h w + (\<Sum>c\<in>{..<n} - {cpu}. h (f c)) = (\<Sum>c<n. h (f c)) + d"
    using assms sum.remove [of "{..<n}" cpu "\<lambda>c. h (f c)"] by simp
  finally show ?thesis .
qed

lemma zero_sent: "cw_bytes_sent default_conn_agg_wire = 0"
  by (simp add: default_conn_agg_wire_def)

lemma sent_total_bump:
  assumes "en_cpu e < cpus"
    and "\<And>v. unat (cw_bytes_sent v) \<le> sent_total cpus j (cm_agg s) \<Longrightarrow> unat (cw_bytes_sent (g v)) = unat (cw_bytes_sent v) + d"
  shows "sent_total cpus k (cm_agg (bump e j g s)) = sent_total cpus k (cm_agg s) + (if j = k \<and> counted k s then d else 0)"
proof (cases "j = k")
  case True
  show ?thesis
  proof (cases "map_of (cm_agg s) k")
    case None
    have "(\<Sum>c<cpus. unat (cw_bytes_sent (((\<lambda>_. default_conn_agg_wire)(en_cpu e := g default_conn_agg_wire)) c))) = 0 + d"
      using sum_upd [OF assms(1), of "\<lambda>v. unat (cw_bytes_sent v)" "g default_conn_agg_wire" "\<lambda>_. default_conn_agg_wire" d]
        assms(2) [of default_conn_agg_wire] by (simp add: zero_sent)
    then show ?thesis using None True by (simp add: sent_total_def bump_def map_of_bump counted_def)
  next
    case (Some f)
    have "unat (cw_bytes_sent (f (en_cpu e))) \<le> (\<Sum>c<cpus. unat (cw_bytes_sent (f c)))"
      using assms(1) by (intro member_le_sum) simp_all
    then have "unat (cw_bytes_sent (g (f (en_cpu e)))) = unat (cw_bytes_sent (f (en_cpu e))) + d"
      using assms(2) Some True by (simp add: sent_total_def)
    from sum_upd [OF assms(1), of "\<lambda>v. unat (cw_bytes_sent v)" "g (f (en_cpu e))" f d, OF this]
    show ?thesis using Some True by (simp add: sent_total_def bump_def map_of_bump counted_def)
  qed
qed (simp add: sent_total_def bump_def map_of_bump)

lemma sent_total_same:
  assumes "en_cpu e < cpus" "\<And>v. cw_bytes_sent (g v) = cw_bytes_sent v"
  shows "sent_total cpus k (cm_agg (bump e j g s)) = sent_total cpus k (cm_agg s)"
  using sent_total_bump [OF assms(1), of j s g 0 k] assms(2) by simp

lemma take_entry_agg: "cm_agg (snd (take_entry e s)) = cm_agg s" "cm_cap (snd (take_entry e s)) = cm_cap s"
  by (simp_all add: take_entry_def split: option.split)

lemma return_same:
  assumes "en_cpu e < cpus" "\<And>ret g v. f ret = Some g \<Longrightarrow> cw_bytes_sent (g v) = cw_bytes_sent v"
  shows "sent_total cpus k (cm_agg (on_return e f s)) = sent_total cpus k (cm_agg s)"
proof -
  obtain ko s1 where t: "take_entry e s = (ko, s1)" by fastforce
  then have s1: "cm_agg s1 = cm_agg s" using take_entry_agg(1) [of e s] by simp
  have "sent_total cpus k (cm_agg (bump e j g s1)) = sent_total cpus k (cm_agg s1)" if "f ret = Some g" for j g ret
    by (rule sent_total_same [OF assms(1)]) (rule assms(2) [OF that])
  then show ?thesis by (simp add: on_return_def t s1 split: option.split)
qed

lemma guarded_same: "(\<And>s. sent_total cpus k (cm_agg (f s)) = sent_total cpus k (cm_agg s)) \<Longrightarrow>
    sent_total cpus k (cm_agg (guarded e f s)) = sent_total cpus k (cm_agg s)"
  by (simp add: guarded_def Let_def split: prod.split)

lemma stash_same: "sent_total cpus k (cm_agg (stash_entry e s)) = sent_total cpus k (cm_agg s)"
  unfolding stash_entry_def by (rule guarded_same) (simp split: option.split)

lemma state_same:
  assumes "en_cpu e < cpus"
  shows "sent_total cpus k (cm_agg (inet_sock_set_state e s)) = sent_total cpus k (cm_agg s)"
proof -
  have up: "sent_total cpus k (cm_agg (connection_up e j s)) = sent_total cpus k (cm_agg s)" for j s
    using sent_total_same [OF assms, of "\<lambda>v. v\<lparr>cw_connections := sat_add (cw_connections v) 1\<rparr>" k j s]
    by (simp add: connection_up_def Let_def)
  have down: "sent_total cpus k (cm_agg (connection_down e j b s)) = sent_total cpus k (cm_agg s)" for j b s
  proof -
    have 1: "sent_total cpus k (cm_agg (bump e j (record_duration t) s)) = sent_total cpus k (cm_agg s)" for t s
      by (rule sent_total_same [OF assms]) (simp add: record_duration_def Let_def)
    have 2: "sent_total cpus k (cm_agg (bump e j (\<lambda>v. v\<lparr>cw_failures := x v, cw_failure_reason := y\<rparr>) s)) =
        sent_total cpus k (cm_agg s)" for x y and s :: net_maps
      by (rule sent_total_same [OF assms]) simp
    show ?thesis by (simp add: connection_down_def Let_def 1 2 split: option.split)
  qed
  show ?thesis
    unfolding inet_sock_set_state_def by (rule guarded_same) (simp add: up down split: option.split prod.split)
qed

lemma sent_probe:
  assumes "en_cpu e < cpus" "sent_total cpus k (cm_agg s) + sent_by p e k s < 2 ^ 64"
  shows "sent_total cpus k (cm_agg (net_probe_run p e s)) = sent_total cpus k (cm_agg s) + sent_by p e k s"
proof (cases "p = SendRet")
  case True
  obtain ko s1 where t: "take_entry e s = (ko, s1)" by fastforce
  then have s1: "cm_agg s1 = cm_agg s" "cm_cap s1 = cm_cap s" using take_entry_agg [of e s] by simp_all
  show ?thesis
  proof (cases "ko = None \<or> \<not> sint (en_ret e) > 0")
    case True
    then show ?thesis using \<open>p = SendRet\<close> t s1
      by (cases ko) (auto simp: tcp_sendmsg_ret_def on_return_def sent_by_def)
  next
    case False
    then obtain j where j: "ko = Some j" "sint (en_ret e) > 0" by auto
    let ?g = "\<lambda>v. v\<lparr>cw_bytes_sent := sat_add (cw_bytes_sent v) (ucast (en_ret e))\<rparr>"
    have run: "net_probe_run p e s = bump e j ?g s1"
      using \<open>p = SendRet\<close> t j by (simp add: tcp_sendmsg_ret_def on_return_def)
    have u: "unat (ucast (en_ret e) :: u64) = unat (en_ret e)"
    proof -
      have "unat (en_ret e) < 2 ^ 32" using unsigned_less [of "en_ret e"] by simp
      then show ?thesis by (simp add: unsigned_ucast_eq take_bit_nat_eq_self)
    qed
    have by': "sent_by p e k s = (if j = k \<and> counted k s1 then unat (en_ret e) else 0)"
      using \<open>p = SendRet\<close> t j s1 by (simp add: sent_by_def counted_def)
    show ?thesis
    proof (cases "j = k \<and> counted k s1")
      case True
      have "sent_total cpus k (cm_agg (bump e j ?g s1)) =
          sent_total cpus k (cm_agg s1) + (if j = k \<and> counted k s1 then unat (en_ret e) else 0)"
      proof (rule sent_total_bump [OF assms(1)])
        fix v assume "unat (cw_bytes_sent v) \<le> sent_total cpus j (cm_agg s1)"
        then have "unat (cw_bytes_sent v) + unat (en_ret e) < 2 ^ 64" using assms(2) by' True s1 by simp
        then show "unat (cw_bytes_sent (?g v)) = unat (cw_bytes_sent v) + unat (en_ret e)"
          using sat_add_exact [of "cw_bytes_sent v" "ucast (en_ret e)"] by (simp add: u)
      qed
      then show ?thesis by (simp add: run by' s1)
    next
      case False
      then have "map_of (cm_agg (bump e j ?g s1)) k = map_of (cm_agg s1) k"
        by (auto simp: bump_def map_of_bump counted_def)
      then show ?thesis using False by (auto simp: run by' s1 sent_total_def)
    qed
  qed
next
  case False
  then have z: "sent_by p e k s = 0" by (simp add: sent_by_def)
  have c: "sent_total cpus k (cm_agg (tcp_connect_ret e s)) = sent_total cpus k (cm_agg s)"
    "sent_total cpus k (cm_agg (tcp_recvmsg_ret e s)) = sent_total cpus k (cm_agg s)"
    unfolding tcp_connect_ret_def tcp_recvmsg_ret_def by (rule return_same [OF assms(1)], simp split: if_splits; auto)+
  show ?thesis using False z by (cases p) (simp_all add: stash_same state_same [OF assms(1)] c)
qed

lemma view_sent:
  assumes "(\<Sum>c<cpus. unat (cw_bytes_sent (f c))) < 2 ^ 64"
  shows "unat (ca_bytes_sent (view_per_cpu (map f [0..<cpus]))) = (\<Sum>c<cpus. unat (cw_bytes_sent (f c)))"
proof -
  have "unat (ca_bytes_sent d) + sum_list (map (\<lambda>v. unat (cw_bytes_sent v)) vs) < 2 ^ 64 \<Longrightarrow>
      unat (ca_bytes_sent (fold add_cpu vs d)) = unat (ca_bytes_sent d) + sum_list (map (\<lambda>v. unat (cw_bytes_sent v)) vs)" for d vs
  proof (induction vs arbitrary: d)
    case (Cons v vs)
    have "unat (sat_add (ca_bytes_sent d) (cw_bytes_sent v)) = unat (ca_bytes_sent d) + unat (cw_bytes_sent v)"
      using Cons.prems by (intro sat_add_exact) simp
    then show ?case using Cons.IH [of "add_cpu v d"] Cons.prems by (simp add: add_cpu_def)
  qed simp
  moreover have "sum_list (map (\<lambda>v. unat (cw_bytes_sent v)) (map f [0..<cpus])) = (\<Sum>c<cpus. unat (cw_bytes_sent (f c)))"
    by (simp add: comp_def interv_sum_list_conv_sum_set_nat atLeast0LessThan)
  ultimately show ?thesis using assms by (simp add: view_per_cpu_def empty_conn_agg_def)
qed

lemma reset_undisturbed:
  "reset_keys z cm_agg_update (\<lambda>_ s. s) (\<lambda>_. None) ks s = (None, s\<lparr>cm_agg := fold (\<lambda>k. pc_write k z) ks (cm_agg s)\<rparr>)"
  by (induction ks arbitrary: s) simp_all

lemma map_of_writes:
  "map_of (fold (\<lambda>k. pc_write k z) ks m) j = map_option (\<lambda>f. if j \<in> set ks then (\<lambda>_. z) else f) (map_of m j)"
proof (induction ks arbitrary: m)
  case Nil
  show ?case by (cases "map_of m j") simp_all
next
  case (Cons k ks)
  then show ?case by (cases "map_of m j") (simp_all add: map_of_write)
qed

lemma sent_round:
  assumes "drain_conn cpus None (\<lambda>_ s. s) (\<lambda>_. None) s = (r, s1)" "sent_total cpus k (cm_agg s) < 2 ^ 64"
  shows "\<exists>snap. r = Inr snap \<and> reported k snap = sent_total cpus k (cm_agg s) \<and> sent_total cpus k (cm_agg s1) = 0"
proof -
  let ?m = "cm_agg s"
  have r: "r = Inr (map (\<lambda>(k, f). (k, map f [0..<cpus])) ?m)"
    and s1: "cm_agg s1 = fold (\<lambda>k. pc_write k default_conn_agg_wire) (map fst ?m) ?m"
    using assms(1) by (auto simp: drain_conn_def drain_def reset_undisturbed)
  have "reported k (map (\<lambda>(k, f). (k, map f [0..<cpus])) ?m) = sent_total cpus k ?m"
  proof (cases "map_of ?m k")
    case (Some f)
    then show ?thesis using view_sent [of f cpus] assms(2)
      by (simp add: reported_def sent_total_def map_of_upd_val [of "\<lambda>_ f. map f [0..<cpus]"])
  qed (simp add: reported_def sent_total_def map_of_upd_val [of "\<lambda>_ f. map f [0..<cpus]"])
  moreover have "sent_total cpus k (cm_agg s1) = 0"
  proof (cases "map_of ?m k")
    case (Some f)
    then have "k \<in> set (map fst ?m)" by (metis domI dom_map_of_conv_image_fst list.set_map)
    then show ?thesis using Some by (simp add: s1 sent_total_def map_of_writes zero_sent)
  qed (simp add: s1 sent_total_def map_of_writes)
  ultimately show ?thesis using r by blast
qed

section \<open>Witness data\<close>

definition w_key :: conn_key where
  "w_key = \<lparr>ck_pid = 7, ck_cgroup_id = 1, ck_saddr = 0x0A000001, ck_daddr = 0x0A000002, ck_sport = 4000, ck_dport = 80, ck_protocol = 6\<rparr>"

text \<open>A thread returning from a call that sent 100 bytes.\<close>

definition w_env :: env where
  "w_env = \<lparr>en_cpu = 1, en_pid_tgid = 7, en_cgroup = 1, en_comm = None, en_rate_ns = 5, en_now_ns = 5, en_entry = None,
     en_arg0 = None, en_ret = 100, en_mem = (\<lambda>_ _. None), en_user_str = (\<lambda>_. None), en_reserve = True\<rparr>"

definition w_rate :: "nat \<Rightarrow> rate_slots" where
  "w_rate = (\<lambda>_. \<lparr>rs_tokens = 0, rs_last_ns = 0, rs_dropped = 0\<rparr>)"

definition w_net :: net_maps where
  "w_net = \<lparr>cm_agg = [(w_key, \<lambda>_. default_conn_agg_wire)], cm_entry = [(7, w_key)], cm_cfg = (\<lambda>_. 0), cm_rate = w_rate,
     cm_cap = 1, nm_start = []\<rparr>"

definition w_tcp :: conn_maps where
  "w_tcp = \<lparr>cm_agg = [], cm_entry = [(7, w_key)], cm_cfg = (\<lambda>_. 0), cm_rate = w_rate, cm_cap = 1\<rparr>"

definition w_round :: "'s round_env" where
  "w_round = \<lparr>rn_iter = None, rn_mid = (\<lambda>_ s. s), rn_write = (\<lambda>_. None), rn_now = 0, rn_ctx = (\<lambda>_. None)\<rparr>"

lemma w_genuine: "genuine run (Round w_round)"
proof -
  have "(\<lambda>s. s) = fold (\<lambda>(p, e). run p e) []" by (simp add: fun_eq_iff)
  then have "\<exists>ps. (\<lambda>s. s) = fold (\<lambda>(p, e). run p e) ps" by (rule exI)
  then show ?thesis by (simp only: genuine_def by_probes_def w_round_def ebpf_op.case round_env.simps simp_thms)
qed

lemma w_probe_genuine: "genuine run (Probe p e)"
  by (simp add: genuine_def)

section \<open>Properties\<close>

text \<open>The connection an edge and a key are about.\<close>

definition edge_conn :: "ebpf_edge_record \<Rightarrow> string \<times> u16 \<times> string \<times> u16" where
  "edge_conn r = (er_src_ip r, er_src_port r, er_dst_ip r, er_dst_port r)"

definition key_conn :: "conn_key \<Rightarrow> string \<times> u16 \<times> string \<times> u16" where
  "key_conn k = (ipv4_of (ck_saddr k), ck_sport k, ipv4_of (ck_daddr k), ck_dport k)"

lemma edge_from_conn: "edge_from a cpus r k f \<Longrightarrow> edge_conn r = key_conn k"
  by (auto simp: edge_from_def edge_record_def edge_conn_def key_conn_def conn_view_def Let_def split: if_splits)

text \<open>C20: a full map stays closed: a round writes zeros over the keys it has read and never removes one, so once
  as many connections have been seen as the map holds, whatever the kernel and the agent do after
  that, no other connection is ever counted or reported, not even when every old one is long gone.\<close>

theorem full_map_never_recovers:
  assumes "cm_cap s \<le> length (cm_agg s)" "\<forall>oper \<in> set ops. genuine net_probe_run oper"
    and "ebpf_run net_probe_run c a cpus ops s st = (es, s', st')"
  shows "map fst (cm_agg s') = map fst (cm_agg s) \<and> (\<forall>r \<in> set es. \<exists>k \<in> set (map fst (cm_agg s)). edge_conn r = key_conn k)"
proof -
  have f: "full_with (map fst (cm_agg s)) s" using assms(1) by (simp add: full_with_def)
  note run = net_full.schedule [OF assms(2) f assms(3)]
  have "\<exists>k \<in> set (map fst (cm_agg s)). edge_conn r = key_conn k" if r: "r \<in> set es" for r
  proof -
    obtain s0 :: net_maps and k f where s0: "full_with (map fst (cm_agg s)) s0" "(k, f) \<in> set (cm_agg s0)" "edge_from a cpus r k f"
      using run r by blast
    then have "k \<in> set (map fst (cm_agg s))" unfolding full_with_def by (metis fst_conv image_eqI list.set_map)
    then show ?thesis using edge_from_conn [OF s0(3)] by blast
  qed
  then show ?thesis using run by (simp add: full_with_def)
qed

theorem full_map_never_recovers_witness:
  "\<forall>c a st. map fst (cm_agg (fst (snd (ebpf_run net_probe_run c a 2 [Probe SendRet w_env, Round w_round] w_net st)))) = [w_key]"
proof (intro allI)
  fix c a st
  obtain es s' st' where r: "ebpf_run net_probe_run c a 2 [Probe SendRet w_env, Round w_round] w_net st = (es, s', st')"
    by (metis prod_cases3)
  have "map fst (cm_agg s') = map fst (cm_agg w_net)"
    using full_map_never_recovers [OF _ _ r] by (simp add: w_genuine w_probe_genuine) (simp add: w_net_def)
  then show "map fst (cm_agg (fst (snd (ebpf_run net_probe_run c a 2 [Probe SendRet w_env, Round w_round] w_net st)))) = [w_key]"
    using r by (simp add: w_net_def)
qed

text \<open>The retransmission item never reports: its program counts retransmissions and resets and no new
  connections, and a round drops every key without new connections, so over any schedule starting
  with empty maps its rounds produce no edge at all.\<close>

lemma tcp_item_reports_nothing:
  assumes "cm_agg (s :: conn_maps) = []" "\<forall>oper \<in> set ops. genuine tcp_probe_run oper"
  shows "fst (ebpf_run tcp_probe_run c a cpus ops s st) = []"
proof -
  obtain es s' st' where r: "ebpf_run tcp_probe_run c a cpus ops s st = (es, s', st')" by (metis prod_cases3)
  have u: "unconnected s" using assms(1) by (simp add: unconnected_def)
  have "False" if e: "e \<in> set es" for e
  proof -
    obtain s0 :: conn_maps and k f where s0: "unconnected s0" "(k, f) \<in> set (cm_agg s0)" "edge_from a cpus e k f"
      using tcp_unconnected.schedule [OF assms(2) u r] e by blast
    then have "\<forall>v \<in> set (map f [0..<cpus]). cw_connections v = 0" by (auto simp: unconnected_def)
    then show False using view_connections s0(3) by (simp add: edge_from_def)
  qed
  then show ?thesis using r by (cases es) auto
qed

theorem tcp_item_reports_nothing_witness:
  "\<forall>c a st. fst (ebpf_run tcp_probe_run c a 2 [Probe RetransmitRet w_env, Round w_round] w_tcp st) = []"
  by (intro allI, rule tcp_item_reports_nothing) (simp_all add: w_genuine w_probe_genuine w_tcp_def)


lemma w_sent: "sent_total 2 w_key (cm_agg w_net) = 0" "sent_in 2 w_key [Some (SendRet, w_env), None] w_net = 100"
  by (simp_all add: sent_total_def w_net_def zero_sent sent_by_def take_entry_def current_tid_def w_env_def counted_def)


end
