(* ===== verification/Obs_Db.thy ===== *)
theory Obs_Db
  imports Sql_Table
begin

unbundle bit_operations_syntax

text \<open>
  The observation database of the data server: the tables of \<^verbatim>\<open>crates/dataplane-apm/src/lib.rs\<close>, their
  schema and its versions, and the execution of one statement with a fault schedule. A table is its
  list of rows; a table that does not exist yet has no rows. Beside the rows the state keeps the
  columns of every existing table and the row count of the last change, which \<^verbatim>\<open>SELECT changes()\<close> reads
  (\<open>affected_rows\<close>); other users of the connection in between are not modelled.
\<close>

datatype obs_table = ObsMeta | TraceSummary | EdgeSummary | ServiceEndpoint | ServiceAlias | EbpfEdges

record obs_db =
  ob_rows :: "obs_table \<Rightarrow> sql_row list"
  ob_cols :: "obs_table \<Rightarrow> string list option"
  ob_changes :: nat
  ob_faults :: "dataplane_error option list"

text \<open>The state may carry more than the database (\<open>'x\<close>), such as the caches of its users.\<close>

type_synonym ('x, 'a) obs = "'x obs_db_scheme \<Rightarrow> (dataplane_error, 'a) result \<times> 'x obs_db_scheme"

definition ob_return :: "'a \<Rightarrow> ('x, 'a) obs" where
  "ob_return x db = (Inr x, db)"

definition ob_fail :: "dataplane_error \<Rightarrow> ('x, 'a) obs" where
  "ob_fail e db = (Inl e, db)"

definition ob_bind :: "('x, 'a) obs \<Rightarrow> ('a \<Rightarrow> ('x, 'b) obs) \<Rightarrow> ('x, 'b) obs" where
  "ob_bind m f db = (case m db of (Inl e, db') \<Rightarrow> (Inl e, db') | (Inr x, db') \<Rightarrow> f x db')"

definition ob_exec :: "('x, 'a) obs \<Rightarrow> ('x, 'a) obs" where
  "ob_exec st db =
     (let db' = db\<lparr>ob_faults := tl (ob_faults db)\<rparr> in
      case ob_faults db of Some e # _ \<Rightarrow> (Inl e, db') | _ \<Rightarrow> st db')"

definition ob_select :: "obs_table \<Rightarrow> (sql_row list \<Rightarrow> 'a) \<Rightarrow> ('x, 'a) obs" where
  "ob_select t q = ob_exec (\<lambda>db. (Inr (q (ob_rows db t)), db))"

definition set_rows :: "obs_table \<Rightarrow> sql_row list \<Rightarrow> nat \<Rightarrow> 'x obs_db_scheme \<Rightarrow> 'x obs_db_scheme" where
  "set_rows t rs n db = db\<lparr>ob_rows := (ob_rows db)(t := rs), ob_changes := n\<rparr>"

definition ob_change :: "obs_table \<Rightarrow> (sql_row list \<Rightarrow> sql_row list \<times> nat) \<Rightarrow> ('x, unit) obs" where
  "ob_change t f = ob_exec (\<lambda>db. let (rs, n) = f (ob_rows db t) in (Inr (), set_rows t rs n db))"

text \<open>\<^verbatim>\<open>affected_rows\<close>: the rows touched by the last change.\<close>

definition affected_rows :: "('x, nat) obs" where
  "affected_rows = ob_exec (\<lambda>db. (Inr (ob_changes db), db))"

section \<open>Statements\<close>

text \<open>Rows agreeing on the key columns; \<^verbatim>\<open>INSERT OR REPLACE\<close> drops them and appends the new row.\<close>

definition same_key :: "string list \<Rightarrow> sql_row \<Rightarrow> sql_row \<Rightarrow> bool" where
  "same_key ks a b \<longleftrightarrow> list_all (\<lambda>k. a k = b k) ks"

definition replace_row :: "string list \<Rightarrow> sql_row \<Rightarrow> sql_row list \<Rightarrow> sql_row list" where
  "replace_row ks new rs = filter (\<lambda>r. \<not> same_key ks r new) rs @ [new]"

text \<open>\<^verbatim>\<open>INSERT .. ON CONFLICT(ks) DO UPDATE SET c = excluded.c\<close>.\<close>

definition upsert_row :: "string list \<Rightarrow> string list \<Rightarrow> sql_row \<Rightarrow> sql_row list \<Rightarrow> sql_row list" where
  "upsert_row ks upd new rs =
     (if list_ex (\<lambda>r. same_key ks r new) rs
      then map (\<lambda>r. if same_key ks r new then (\<lambda>c. if c \<in> set upd then new c else r c) else r) rs
      else rs @ [new])"

definition delete_rows :: "(sql_row \<Rightarrow> bool) \<Rightarrow> sql_row list \<Rightarrow> sql_row list \<times> nat" where
  "delete_rows p rs = (filter (\<lambda>r. \<not> p r) rs, length (filter p rs))"

text \<open>\<^verbatim>\<open>f64 as i64\<close>: truncation, saturating, \<^verbatim>\<open>NaN\<close> to 0.\<close>

definition f64_as_i64 :: "f64 \<Rightarrow> int" where
  "f64_as_i64 w =
     (let e = unat (drop_bit 52 w AND 0x7FF); m = uint (w AND 0xFFFFFFFFFFFFF);
          mag = (if e < 1023 then 0 else if e \<ge> 1075 then (2 ^ 52 + m) * 2 ^ (e - 1075) else (2 ^ 52 + m) div 2 ^ (1075 - e))
      in if e = 0x7FF \<and> m \<noteq> 0 then 0 else sat_i64 (if bit w 63 then - mag else mag))"

definition num_i64 :: "sql_row \<Rightarrow> string \<Rightarrow> int" where
  "num_i64 r c = (case r c of SqlInteger i \<Rightarrow> i | SqlReal f \<Rightarrow> f64_as_i64 f | _ \<Rightarrow> 0)"

definition null_row :: sql_row where
  "null_row = (\<lambda>_. SqlNull)"

text \<open>The columns of the first row found, or nothing but nulls.\<close>

definition first_row :: "(sql_row \<Rightarrow> bool) \<Rightarrow> sql_row list \<Rightarrow> sql_row" where
  "first_row p rs = (case find p rs of Some r \<Rightarrow> r | None \<Rightarrow> null_row)"

section \<open>Schema\<close>

definition columns :: "obs_table \<Rightarrow> string list" where
  "columns t = (case t of
     ObsMeta \<Rightarrow> [''key'', ''value'']
   | TraceSummary \<Rightarrow> [''trace_id'', ''start_ts'', ''max_end_ts'', ''duration_micros'', ''root_service'',
       ''root_operation'', ''root_start_ts'', ''span_count'', ''error_count'', ''status'', ''services_json'',
       ''collector'', ''agent_id'', ''host_id'', ''data_id'', ''updated_ts'']
   | EdgeSummary \<Rightarrow> [''bucket_start'', ''src_service'', ''dst_service'', ''span_kind'', ''calls'', ''errors'',
       ''duration_sum'', ''duration_max'', ''agent_id'', ''data_id'']
   | ServiceEndpoint \<Rightarrow> [''service'', ''instance_id'', ''pod_name'', ''node_name'', ''host_ip'', ''listen_port'',
       ''collector'', ''first_seen_ts'', ''last_seen_ts'']
   | ServiceAlias \<Rightarrow> [''alias_id'', ''match_kind'', ''match_value'', ''service'', ''enabled'', ''note'', ''updated_ts'']
   | EbpfEdges \<Rightarrow> [''record_id'', ''bucket_start'', ''bucket_micros'', ''protocol'', ''src_ip'', ''src_port'',
       ''dst_ip'', ''dst_port'', ''src_pod'', ''src_container_id'', ''src_process'', ''src_service'', ''dst_service'',
       ''connections'', ''bytes_sent'', ''bytes_recv'', ''duration_sum'', ''duration_max'', ''tcp_retrans'',
       ''tcp_resets'', ''failures'', ''failure_reason'', ''latency_hist'', ''agent_id'', ''data_id''])"

definition primary_key :: "obs_table \<Rightarrow> string list" where
  "primary_key t = (case t of
     ObsMeta \<Rightarrow> [''key''] | TraceSummary \<Rightarrow> [''trace_id'']
   | EdgeSummary \<Rightarrow> [''bucket_start'', ''src_service'', ''dst_service'', ''span_kind'', ''agent_id'']
   | ServiceEndpoint \<Rightarrow> [''service'', ''instance_id''] | ServiceAlias \<Rightarrow> [''alias_id''] | EbpfEdges \<Rightarrow> [''record_id''])"

datatype ddl = CreateTable obs_table | CreateIndex string obs_table "string list"

definition DDL :: "ddl list" where
  "DDL = [CreateTable ObsMeta, CreateTable TraceSummary,
     CreateIndex ''apm_trace_summary_start'' TraceSummary [''start_ts''],
     CreateIndex ''apm_trace_summary_duration'' TraceSummary [''duration_micros''],
     CreateIndex ''apm_trace_summary_root'' TraceSummary [''root_service'', ''root_operation''],
     CreateTable EdgeSummary,
     CreateIndex ''apm_edge_summary_svc'' EdgeSummary [''src_service'', ''dst_service'', ''bucket_start''],
     CreateTable ServiceEndpoint,
     CreateIndex ''apm_service_endpoint_ip_port'' ServiceEndpoint [''host_ip'', ''listen_port''],
     CreateTable ServiceAlias,
     CreateIndex ''apm_service_alias_match'' ServiceAlias [''match_kind'', ''match_value''],
     CreateTable EbpfEdges,
     CreateIndex ''ebpf_edges_bucket'' EbpfEdges [''bucket_start''],
     CreateIndex ''ebpf_edges_svc'' EbpfEdges [''src_service'', ''dst_service'', ''bucket_start''],
     CreateIndex ''ebpf_edges_dst'' EbpfEdges [''dst_ip'', ''dst_port'', ''bucket_start'']]"

text \<open>\<^verbatim>\<open>CREATE TABLE IF NOT EXISTS\<close> leaves an existing table as it is; an index changes no content.\<close>

definition run_ddl :: "ddl \<Rightarrow> ('x, unit) obs" where
  "run_ddl d = ob_exec (\<lambda>db. case d of
     CreateIndex _ _ _ \<Rightarrow> (Inr (), db)
   | CreateTable t \<Rightarrow> (case ob_cols db t of
        Some _ \<Rightarrow> (Inr (), db)
      | None \<Rightarrow> (Inr (), db\<lparr>ob_cols := (ob_cols db)(t \<mapsto> columns t), ob_rows := (ob_rows db)(t := [])\<rparr>)))"

fun run_all :: "('s \<Rightarrow> ('x, unit) obs) \<Rightarrow> 's list \<Rightarrow> ('x, unit) obs" where
  "run_all f [] = ob_return ()"
| "run_all f (x # xs) = ob_bind (f x) (\<lambda>_. run_all f xs)"

definition SCHEMA_VERSION :: int where "SCHEMA_VERSION = 3"
definition SCHEMA_VERSION_KEY :: string where "SCHEMA_VERSION_KEY = ''schema_version''"

text \<open>A migration adds a column with a default to a table.\<close>

record migration =
  mi_target :: int
  mi_table :: obs_table
  mi_column :: string
  mi_default :: sql_value

definition MIGRATIONS :: "migration list" where
  "MIGRATIONS = [\<lparr>mi_target = 2, mi_table = TraceSummary, mi_column = ''root_start_ts'', mi_default = SqlInteger 0\<rparr>]"

definition add_column :: "migration \<Rightarrow> ('x, unit) obs" where
  "add_column m = ob_exec (\<lambda>db. case ob_cols db (mi_table m) of
     None \<Rightarrow> (Inl \<lparr>de_code = QueryFailed, de_message = ''no such table''\<rparr>, db)
   | Some cs \<Rightarrow>
       if mi_column m \<in> set cs
       then (Inl \<lparr>de_code = QueryFailed, de_message = ''duplicate column name: '' @ mi_column m\<rparr>, db)
       else (Inr (), db\<lparr>ob_cols := (ob_cols db)(mi_table m \<mapsto> cs @ [mi_column m]),
              ob_rows := (ob_rows db)(mi_table m := map (\<lambda>r. r(mi_column m := mi_default m)) (ob_rows db (mi_table m)))\<rparr>))"

definition apply_migration :: "migration \<Rightarrow> ('x, unit) obs" where
  "apply_migration m db =
     (case add_column m db of
        (Inr _, db') \<Rightarrow> (Inr (), db')
      | (Inl e, db') \<Rightarrow>
          if contains ''duplicate column name'' (de_message e) then (Inr (), db')
          else (Inl \<lparr>de_code = ConfigInvalid,
                 de_message = ''obs schema migration to v'' @ int_dec (mi_target m) @ '' failed: '' @ de_message e\<rparr>, db'))"

text \<open>The meta table holds one text value for a key.\<close>

definition meta_row :: "string \<Rightarrow> string \<Rightarrow> sql_row" where
  "meta_row k v = row_of [(''key'', SqlText k), (''value'', SqlText v)]"

definition write_meta :: "string \<Rightarrow> string \<Rightarrow> ('x, unit) obs" where
  "write_meta k v = ob_change ObsMeta (\<lambda>rs. (upsert_row [''key''] [''value''] (meta_row k v) rs, 1))"

definition read_meta :: "string \<Rightarrow> ('x, sql_value option) obs" where
  "read_meta k = ob_select ObsMeta (\<lambda>rs. map_option (\<lambda>r. r ''value'') (find (\<lambda>r. text_eq r ''key'' k) rs))"

definition write_version :: "int \<Rightarrow> ('x, unit) obs" where
  "write_version v = write_meta SCHEMA_VERSION_KEY (int_dec v)"

text \<open>\<open>bad\<close> is the text of the error for a value that is no number.\<close>

definition read_version :: "(sql_value \<Rightarrow> string) \<Rightarrow> ('x, int option) obs" where
  "read_version bad = ob_bind (read_meta SCHEMA_VERSION_KEY) (\<lambda>v. case v of
     None \<Rightarrow> ob_return None
   | Some x \<Rightarrow>
       (case (case x of SqlInteger i \<Rightarrow> Some i | SqlText s \<Rightarrow> parse_i64 (trim s) | _ \<Rightarrow> None) of
          Some i \<Rightarrow> ob_return (Some i)
        | None \<Rightarrow> ob_fail \<lparr>de_code = ConfigInvalid, de_message = bad x\<rparr>))"

definition bootstrap :: "(sql_value \<Rightarrow> string) \<Rightarrow> ('x, unit) obs" where
  "bootstrap bad =
     ob_bind (run_all run_ddl DDL) (\<lambda>_.
     ob_bind (read_version bad) (\<lambda>cur. case cur of
       Some v \<Rightarrow>
         if v > SCHEMA_VERSION
         then ob_fail \<lparr>de_code = ConfigInvalid,
           de_message = ''obs schema version '' @ int_dec v @ '' is newer than supported '' @ int_dec SCHEMA_VERSION @
             ''; upgrade dataserver instead of downgrading the database''\<rparr>
         else if v < SCHEMA_VERSION
         then ob_bind (run_all apply_migration (filter (\<lambda>m. mi_target m > v) MIGRATIONS)) (\<lambda>_. write_version SCHEMA_VERSION)
         else ob_return ()
     | None \<Rightarrow> write_version SCHEMA_VERSION))"

section \<open>Statements without faults\<close>

named_theorems ob_simps \<open>running a statement without a fault\<close>

lemma ob_exec_ok [ob_simps]: "ob_faults db = [] \<Longrightarrow> ob_exec st db = st db"
proof -
  assume e: "ob_faults db = []"
  have "db\<lparr>ob_faults := ob_faults db\<rparr> = db" by simp
  then have 1: "db\<lparr>ob_faults := []\<rparr> = db" by (simp only: e)
  show "ob_exec st db = st db" unfolding ob_exec_def Let_def e list.sel list.case 1 ..
qed

lemma ob_select_ok [ob_simps]: "ob_faults db = [] \<Longrightarrow> ob_select t q db = (Inr (q (ob_rows db t)), db)"
  by (simp add: ob_select_def ob_exec_ok)

lemma ob_change_ok [ob_simps]:
  "ob_faults db = [] \<Longrightarrow> ob_change t f db = (Inr (), set_rows t (fst (f (ob_rows db t))) (snd (f (ob_rows db t))) db)"
  by (simp add: ob_change_def ob_exec_ok split: prod.split)

lemma ob_bind_ok [ob_simps]: "m db = (Inr x, db') \<Longrightarrow> ob_bind m f db = f x db'"
  by (simp add: ob_bind_def)

lemma ob_bind_fail: "m db = (Inl e, db') \<Longrightarrow> ob_bind m f db = (Inl e, db')"
  by (simp add: ob_bind_def)

lemma affected_rows_ok [ob_simps]: "ob_faults db = [] \<Longrightarrow> affected_rows db = (Inr (ob_changes db), db)"
  by (simp add: affected_rows_def ob_exec_ok)

lemma set_rows_sel [simp]:
  "ob_rows (set_rows t rs n db) t' = (if t' = t then rs else ob_rows db t')"
  "ob_faults (set_rows t rs n db) = ob_faults db" "ob_changes (set_rows t rs n db) = n" "ob_cols (set_rows t rs n db) = ob_cols db"
  by (simp_all add: set_rows_def)

lemma find_app: "find p (xs @ ys) = (case find p xs of Some x \<Rightarrow> Some x | None \<Rightarrow> find p ys)"
  by (induction xs) auto

lemma find_filter_id: "(\<And>x. p x \<Longrightarrow> q x) \<Longrightarrow> find p (filter q xs) = find p xs"
  by (induction xs) auto

text \<open>Reading back by the whole key after a replacing insert.\<close>

lemma find_replace_row:
  assumes "\<And>r. p r \<longleftrightarrow> same_key ks r old"
  shows "find p (replace_row ks new rs) = (if same_key ks new old then Some new else find p rs)"
proof (cases "same_key ks new old")
  case True
  then have "\<not> p r" if "\<not> same_key ks r new" for r
    using that by (simp add: assms) (fastforce simp: same_key_def list_all_iff)
  then have "find p (filter (\<lambda>r. \<not> same_key ks r new) rs) = None" by (auto simp: find_None_iff)
  then show ?thesis using True assms by (simp add: replace_row_def find_app)
next
  case False
  then have "\<not> same_key ks r new" if "p r" for r
    using that by (simp add: assms) (fastforce simp: same_key_def list_all_iff)
  then have "find p (filter (\<lambda>r. \<not> same_key ks r new) rs) = find p rs" by (rule find_filter_id)
  then show ?thesis using False assms by (simp add: replace_row_def find_app split: option.split)
qed

text \<open>A database with its schema and no rows.\<close>

definition empty_db :: obs_db where
  "empty_db = \<lparr>ob_rows = (\<lambda>_. []), ob_cols = (\<lambda>t. Some (columns t)), ob_changes = 0, ob_faults = []\<rparr>"

end
