(* ===== verification/Observation.thy ===== *)
theory Observation
  imports Json
begin

text \<open>
  The data the agents send and the stores keep: envelopes and records of \<^verbatim>\<open>crates/dataplane-ingest/src/\<close>
  (\<^verbatim>\<open>lib.rs\<close>, \<^verbatim>\<open>trace.rs\<close>, \<^verbatim>\<open>edge.rs\<close>), the log record and the time series point they become. Spans and eBPF
  edges are normalised and validated here; the text of a quoted string in an error (\<open>dbg\<close>) and the
  JSON form of a span (\<open>js\<close>) are parameters. A floating point value is a bit pattern (\<open>f64\<close>).
\<close>

datatype data_type = DtMetrics | DtLogs | DtApm | DtEbpf | DtEbpfEdges | DtTraces

fun data_type_str :: "data_type \<Rightarrow> string" where
  "data_type_str DtMetrics = ''metrics''"
| "data_type_str DtLogs = ''logs''"
| "data_type_str DtApm = ''apm''"
| "data_type_str DtEbpf = ''ebpf''"
| "data_type_str DtEbpfEdges = ''ebpf_edges''"
| "data_type_str DtTraces = ''traces''"

record data_envelope =
  dv_batch_id :: string
  dv_data_type :: data_type
  dv_data_id :: string
  dv_agent_id :: string
  dv_host_id :: string
  dv_sent_at_micros :: int
  dv_records :: "json list"

type_synonym labels = "(string, string) btmap"

record log_record =
  lr_id :: string
  lr_timestamp :: int
  lr_level :: string
  lr_message :: string
  lr_labels :: labels
  lr_payload :: "string option"

record 'v ts_point =
  tp_measurement :: string
  tp_tags :: labels
  tp_field_name :: string
  tp_field_value :: 'v
  tp_timestamp :: int

text \<open>\<^verbatim>\<open>merge_envelope_tags\<close> and \<^verbatim>\<open>merge_common_labels\<close>: the envelope's fields override a record's.\<close>

definition merge_envelope_tags :: "labels \<Rightarrow> data_envelope \<Rightarrow> labels" where
  "merge_envelope_tags tags v =
     (let t = bt_insert ''item_id'' (dv_data_id v) (bt_insert ''agent_id'' (dv_agent_id v) tags)
      in if dv_host_id v \<noteq> [] then bt_insert ''host_id'' (dv_host_id v) t else t)"

definition merge_common_labels :: "labels \<Rightarrow> data_envelope \<Rightarrow> labels" where
  "merge_common_labels ls v =
     (let t = bt_insert ''data_id'' (dv_data_id v) (bt_insert ''agent_id'' (dv_agent_id v)
                (bt_insert ''data_type'' (data_type_str (dv_data_type v)) ls))
      in if dv_host_id v \<noteq> [] then bt_insert ''host_id'' (dv_host_id v) t else t)"

section \<open>Spans\<close>

record span_event =
  sv_name :: string
  sv_time_unix_nano :: int
  sv_attributes :: labels

record span_link =
  sn_trace_id :: string
  sn_span_id :: string
  sn_attributes :: labels

record trace_span =
  sp_record_id :: string
  sp_timestamp :: int
  sp_trace_id :: string
  sp_span_id :: string
  sp_parent_span_id :: string
  sp_name :: string
  sp_kind :: string
  sp_start_unix_nano :: int
  sp_end_unix_nano :: int
  sp_status_code :: string
  sp_status_message :: string
  sp_trace_flags :: nat
  sp_service :: string
  sp_resource :: labels
  sp_scope_name :: string
  sp_scope_version :: string
  sp_attributes :: labels
  sp_events :: "span_event list"
  sp_links :: "span_link list"
  sp_dropped_attributes :: nat
  sp_dropped_events :: nat
  sp_dropped_links :: nat
  sp_collector :: string
  sp_labels :: labels

definition MAX_TRACE_SPAN_BYTES :: nat where "MAX_TRACE_SPAN_BYTES = 256 * 1024"
definition UNKNOWN_SERVICE :: string where "UNKNOWN_SERVICE = ''unknown_service''"

definition duration_micros :: "trace_span \<Rightarrow> int" where
  "duration_micros s = max (sat_sub_i64 (sp_end_unix_nano s) (sp_start_unix_nano s)) 0 div 1000"

definition is_root :: "trace_span \<Rightarrow> bool" where
  "is_root s \<longleftrightarrow> sp_parent_span_id s = []"

text \<open>Integer division of Rust, toward zero.\<close>

definition tdiv :: "int \<Rightarrow> int \<Rightarrow> int" where
  "tdiv a b = (if a < 0 then - ((- a) div b) else a div b)"

definition or_default :: "string \<Rightarrow> string \<Rightarrow> string" where
  "or_default d s = (if s = [] then d else s)"

definition span_record_id :: "string \<Rightarrow> string \<Rightarrow> string" where
  "span_record_id trace_id span_id = trace_id @ '':'' @ span_id"

definition normalize_span :: "trace_span \<Rightarrow> trace_span" where
  "normalize_span s =
     (let low = (\<lambda>t. to_ascii_lowercase (trim t));
          s1 = s\<lparr>sp_trace_id := low (sp_trace_id s), sp_span_id := low (sp_span_id s),
                 sp_parent_span_id := low (sp_parent_span_id s), sp_record_id := low (sp_record_id s),
                 sp_collector := or_default ''otlp'' (sp_collector s),
                 sp_service := or_default UNKNOWN_SERVICE (sp_service s),
                 sp_kind := or_default ''internal'' (sp_kind s),
                 sp_status_code := or_default ''unset'' (sp_status_code s),
                 sp_timestamp := (if sp_timestamp s \<le> 0 then tdiv (sp_start_unix_nano s) 1000 else sp_timestamp s)\<rparr>
      in if sp_record_id s1 = [] \<and> sp_trace_id s1 \<noteq> [] \<and> sp_span_id s1 \<noteq> []
         then s1\<lparr>sp_record_id := span_record_id (sp_trace_id s1) (sp_span_id s1)\<rparr> else s1)"

definition is_ascii_hexdigit :: "char \<Rightarrow> bool" where
  "is_ascii_hexdigit c =
     (let n = (of_char c :: nat) in (48 \<le> n \<and> n \<le> 57) \<or> (65 \<le> n \<and> n \<le> 70) \<or> (97 \<le> n \<and> n \<le> 102))"

definition is_ascii_uppercase :: "char \<Rightarrow> bool" where
  "is_ascii_uppercase c = (let n = (of_char c :: nat) in 65 \<le> n \<and> n \<le> 90)"

definition is_hex :: "string \<Rightarrow> nat \<Rightarrow> bool" where
  "is_hex s n \<longleftrightarrow> length s = n \<and> list_all is_ascii_hexdigit s \<and> \<not> list_ex is_ascii_uppercase s"

definition validate_span :: "(string \<Rightarrow> string) \<Rightarrow> trace_span \<Rightarrow> (string, unit) result" where
  "validate_span dbg s =
     (if \<not> is_hex (sp_trace_id s) 32 then Inl (''trace_id must be 32 hex chars, got '' @ dbg (sp_trace_id s))
      else if \<not> is_hex (sp_span_id s) 16 then Inl (''span_id must be 16 hex chars, got '' @ dbg (sp_span_id s))
      else if sp_parent_span_id s \<noteq> [] \<and> \<not> is_hex (sp_parent_span_id s) 16
      then Inl (''parent_span_id must be empty or 16 hex chars, got '' @ dbg (sp_parent_span_id s))
      else if sp_record_id s \<noteq> span_record_id (sp_trace_id s) (sp_span_id s)
      then Inl (''record_id must equal trace_id:span_id, got '' @ dbg (sp_record_id s))
      else if sp_timestamp s \<le> 0 then Inl (''timestamp must be positive micros, got '' @ int_dec (sp_timestamp s))
      else Inr ())"

definition span_to_log :: "(trace_span \<Rightarrow> string option) \<Rightarrow> trace_span \<Rightarrow> data_envelope \<Rightarrow> log_record" where
  "span_to_log js s v =
     (let ls = foldl (\<lambda>m (k, x). bt_insert k x m) (merge_common_labels (sp_labels s) v)
        [(''trace_id'', sp_trace_id s), (''span_id'', sp_span_id s), (''parent_span_id'', sp_parent_span_id s),
         (''service'', sp_service s), (''kind'', sp_kind s), (''status_code'', sp_status_code s),
         (''collector'', sp_collector s)]
      in \<lparr>lr_id = sp_record_id s, lr_timestamp = sp_timestamp s,
          lr_level = (if sp_status_code s = ''error'' then ''error'' else ''info''),
          lr_message = sp_service s @ '' '' @ sp_name s @ '' '' @ int_dec (duration_micros s) @ ''us'',
          lr_labels = ls, lr_payload = js s\<rparr>)"

section \<open>Edges\<close>

record ebpf_edge =
  eb_record_id :: string
  eb_timestamp :: int
  eb_bucket_micros :: int
  eb_protocol :: string
  eb_src_ip :: string
  eb_src_port :: nat
  eb_dst_ip :: string
  eb_dst_port :: nat
  eb_src_pod :: string
  eb_src_container_id :: string
  eb_src_process :: string
  eb_src_service :: string
  eb_dst_service :: string
  eb_connections :: nat
  eb_bytes_sent :: nat
  eb_bytes_recv :: nat
  eb_duration_micros_sum :: nat
  eb_duration_micros_max :: nat
  eb_tcp_retrans :: nat
  eb_tcp_resets :: nat
  eb_failures :: nat
  eb_failure_reason :: string
  eb_latency_hist :: "nat list"
  eb_source :: string
  eb_labels :: labels

definition MAX_HIST_SLOTS :: nat where "MAX_HIST_SLOTS = 32"

definition validate_edge :: "ebpf_edge \<Rightarrow> (string, unit) result" where
  "validate_edge e =
     (if trim (eb_record_id e) = [] then Inl ''record_id is required''
      else if eb_bucket_micros e \<le> 0 then Inl (''bucket_micros must be > 0: '' @ int_dec (eb_bucket_micros e))
      else if eb_source e \<noteq> ''ebpf'' then Inl (''source must be '' @ [CHR 0x22] @ ''ebpf'' @ [CHR 0x22] @ '': '' @ eb_source e)
      else if eb_protocol e \<noteq> ''tcp'' \<and> eb_protocol e \<noteq> ''udp'' then Inl (''protocol must be tcp or udp: '' @ eb_protocol e)
      else if eb_connections e = 0 then Inl ''connections must be >= 1''
      else if eb_failures e > eb_connections e
      then Inl (''failures ('' @ nat_dec (eb_failures e) @ '') must be <= connections ('' @ nat_dec (eb_connections e) @ '')'')
      else if length (eb_latency_hist e) > MAX_HIST_SLOTS
      then Inl (''latency_hist has '' @ nat_dec (length (eb_latency_hist e)) @ '' slots, max is '' @ nat_dec MAX_HIST_SLOTS)
      else if eb_timestamp e \<le> 0 then Inl (''timestamp must be > 0: '' @ int_dec (eb_timestamp e))
      else Inr ())"

definition lookup_port :: "ebpf_edge \<Rightarrow> int" where
  "lookup_port e = (if eb_dst_port e \<noteq> 0 then int (eb_dst_port e) else int (eb_src_port e))"

section \<open>Records of the other types\<close>

record metrics_record =
  mr_record_id :: string
  mr_timestamp :: int
  mr_measurement :: string
  mr_tags :: labels
  mr_field_name :: string
  mr_field_value :: f64

record logs_record =
  lo_record_id :: string
  lo_timestamp :: int
  lo_level :: string
  lo_message :: string
  lo_source :: string
  lo_labels :: labels

record apm_record =
  ap_record_id :: string
  ap_timestamp :: int
  ap_trace_id :: string
  ap_span_id :: string
  ap_parent_span_id :: string
  ap_service :: string
  ap_operation :: string
  ap_duration_micros :: int
  ap_status :: string
  ap_labels :: labels

record ebpf_event_record =
  ev_record_id :: string
  ev_timestamp :: int
  ev_event_type :: string
  ev_pid :: int
  ev_process_name :: string
  ev_message :: string
  ev_labels :: labels

section \<open>Facts\<close>

lemma bt_ok_merge_common: "bt_ok ls \<Longrightarrow> bt_ok (merge_common_labels ls v)"
  by (simp add: merge_common_labels_def Let_def bt_ok_insert)

lemma duration_nonneg [simp]: "0 \<le> duration_micros s"
  by (simp add: duration_micros_def)

lemma is_hex_no_colon: "is_hex s n \<Longrightarrow> CHR '':'' \<notin> set s"
  by (auto simp: is_hex_def list_all_iff is_ascii_hexdigit_def)

text \<open>A validated span is identified by its record id.\<close>

lemma validated_span_id:
  assumes "validate_span dbg a = Inr ()" "validate_span dbg b = Inr ()" "sp_record_id a = sp_record_id b"
  shows "sp_trace_id a = sp_trace_id b \<and> sp_span_id a = sp_span_id b"
proof -
  have a: "is_hex (sp_trace_id a) 32" "sp_record_id a = span_record_id (sp_trace_id a) (sp_span_id a)"
    and b: "is_hex (sp_trace_id b) 32" "sp_record_id b = span_record_id (sp_trace_id b) (sp_span_id b)"
    using assms(1,2) by (auto simp: validate_span_def split: if_splits)
  have "length (sp_trace_id a) = length (sp_trace_id b)" using a(1) b(1) by (simp add: is_hex_def)
  then show ?thesis using a(2) b(2) assms(3) by (simp add: span_record_id_def)
qed

section \<open>Sample data\<close>

definition demo_span :: "string \<Rightarrow> string \<Rightarrow> int \<Rightarrow> string \<Rightarrow> trace_span" where
  "demo_span parent service ts status =
     \<lparr>sp_record_id = ''t:s'', sp_timestamp = ts, sp_trace_id = ''t'', sp_span_id = ''s'', sp_parent_span_id = parent,
      sp_name = ''op'', sp_kind = ''server'', sp_start_unix_nano = 0, sp_end_unix_nano = 7000, sp_status_code = status,
      sp_status_message = [], sp_trace_flags = 0, sp_service = service, sp_resource = [], sp_scope_name = [],
      sp_scope_version = [], sp_attributes = [], sp_events = [], sp_links = [], sp_dropped_attributes = 0,
      sp_dropped_events = 0, sp_dropped_links = 0, sp_collector = ''otlp'', sp_labels = []\<rparr>"

definition demo_envelope :: data_envelope where
  "demo_envelope = \<lparr>dv_batch_id = ''b'', dv_data_type = DtTraces, dv_data_id = ''d'', dv_agent_id = ''a'', dv_host_id = [],
     dv_sent_at_micros = 0, dv_records = []\<rparr>"

end
