(* ===== verification/Trace_Summary.thy ===== *)
theory Trace_Summary
  imports Obs_Db Observation
begin

text \<open>
  \<^verbatim>\<open>crates/dataplane-apm/src/accumulator.rs\<close>: what the spans of a trace add up to is collected in memory
  and merged into the row of the trace by a flush. The JSON list of services is a pair of
  parameters \<open>enc\<close> and \<open>dec\<close>. Instants are nanoseconds of a monotonic clock. Observations between
  the statements of one flush touch only the collected increments and are not interleaved.
\<close>

record apm_config =
  ac_max_live_traces :: nat
  ac_flush_interval_secs :: nat
  ac_dirty_threshold :: nat
  ac_endpoint_retention_days :: nat
  ac_endpoint_cache_ttl_secs :: nat
  ac_reload_window_secs :: int
  ac_edge_pending_capacity :: nat
  ac_detail_min_duration_micros :: int

definition default_apm_config :: apm_config where
  "default_apm_config = \<lparr>ac_max_live_traces = 20000, ac_flush_interval_secs = 1, ac_dirty_threshold = 500,
     ac_endpoint_retention_days = 30, ac_endpoint_cache_ttl_secs = 60, ac_reload_window_secs = 300,
     ac_edge_pending_capacity = 160000, ac_detail_min_duration_micros = 0\<rparr>"

record trace_delta =
  td_start_ts :: int
  td_max_end_ts :: int
  td_spans :: nat
  td_errors :: nat
  td_services :: "string list"
  td_root :: "(int \<times> string \<times> string) option"
  td_collector :: string
  td_agent_id :: string
  td_host_id :: string
  td_data_id :: string

definition default_delta :: trace_delta where
  "default_delta = \<lparr>td_start_ts = 0, td_max_end_ts = 0, td_spans = 0, td_errors = 0, td_services = [], td_root = None,
     td_collector = [], td_agent_id = [], td_host_id = [], td_data_id = []\<rparr>"

definition new_delta :: "trace_span \<Rightarrow> data_envelope \<Rightarrow> trace_delta" where
  "new_delta s v = default_delta\<lparr>td_start_ts := i64_max, td_collector := sp_collector s, td_agent_id := dv_agent_id v,
     td_host_id := dv_host_id v, td_data_id := dv_data_id v\<rparr>"

definition delta_empty :: "trace_delta \<Rightarrow> bool" where
  "delta_empty d \<longleftrightarrow> td_spans d = 0"

record trace_acc =
  ta_deltas :: "(string, trace_delta) btmap"
  ta_last_flush :: "nat option"
  ta_flushed :: nat
  ta_dropped :: nat

definition trace_acc_new :: trace_acc where
  "trace_acc_new = \<lparr>ta_deltas = [], ta_last_flush = None, ta_flushed = 0, ta_dropped = 0\<rparr>"

definition sat_add32 :: "nat \<Rightarrow> nat \<Rightarrow> nat" where
  "sat_add32 a b = min (a + b) (2 ^ 32 - 1)"

text \<open>The root is the earliest one; of equally early ones the first that came.\<close>

definition earlier_root ::
    "(int \<times> string \<times> string) option \<Rightarrow> (int \<times> string \<times> string) option \<Rightarrow> (int \<times> string \<times> string) option" where
  "earlier_root a b =
     (case (a, b) of (None, _) \<Rightarrow> b | (_, None) \<Rightarrow> a | (Some x, Some y) \<Rightarrow> if fst x \<le> fst y then Some x else Some y)"

definition add_span :: "trace_span \<Rightarrow> trace_delta \<Rightarrow> trace_delta" where
  "add_span s d =
     d\<lparr>td_start_ts := min (td_start_ts d) (sp_timestamp s),
       td_max_end_ts := max (td_max_end_ts d) (sp_timestamp s + duration_micros s),
       td_spans := sat_add32 (td_spans d) 1,
       td_errors := (if sp_status_code s = ''error'' then sat_add32 (td_errors d) 1 else td_errors d),
       td_services := bs_insert (sp_service s) (td_services d),
       td_collector := (if sp_collector s \<noteq> [] then sp_collector s else td_collector d),
       td_root := (if is_root s then earlier_root (td_root d) (Some (sp_timestamp s, sp_service s, sp_name s)) else td_root d)\<rparr>"

definition trace_observe :: "trace_span \<Rightarrow> data_envelope \<Rightarrow> trace_acc \<Rightarrow> trace_acc" where
  "trace_observe s v a =
     (let d = unwrap_or (bt_get (ta_deltas a) (sp_trace_id s)) (new_delta s v)
      in a\<lparr>ta_deltas := bt_insert (sp_trace_id s) (add_span s d) (ta_deltas a)\<rparr>)"

definition dirty_len :: "trace_acc \<Rightarrow> nat" where
  "dirty_len a = length (filter (\<lambda>(_, d). \<not> delta_empty d) (ta_deltas a))"

definition live_len :: "trace_acc \<Rightarrow> nat" where
  "live_len a = length (ta_deltas a)"

text \<open>Cold start: the traces still being written are registered again, with nothing collected.\<close>

definition register_all :: "string list \<Rightarrow> trace_acc \<Rightarrow> trace_acc" where
  "register_all ids a = fold (\<lambda>t a. case bt_get (ta_deltas a) t of Some _ \<Rightarrow> a
     | None \<Rightarrow> a\<lparr>ta_deltas := bt_insert t default_delta (ta_deltas a)\<rparr>) ids a"

definition trace_reload ::
    "apm_config \<Rightarrow> int \<Rightarrow> trace_acc \<Rightarrow> 'x obs_db_scheme \<Rightarrow> (dataplane_error, nat) result \<times> trace_acc \<times> 'x obs_db_scheme" where
  "trace_reload c now a db =
     (let since = sat_sub_i64 now (sat_mul_i64 (ac_reload_window_secs c) 1000000) in
      case ob_select TraceSummary (\<lambda>rs. List.map_filter (\<lambda>r. case r ''trace_id'' of SqlText t \<Rightarrow> Some t | _ \<Rightarrow> None)
             (filter (\<lambda>r. field_i64 r ''max_end_ts'' > since) rs)) db of
        (Inl e, db') \<Rightarrow> (Inl e, a, db')
      | (Inr ids, db') \<Rightarrow> (Inr (length ids), register_all ids a, db'))"

section \<open>Merging into a row\<close>

definition pick :: "string \<Rightarrow> string \<Rightarrow> string" where
  "pick incoming existing = (if incoming \<noteq> [] then incoming else existing)"

definition row_services :: "(string \<Rightarrow> string list option) \<Rightarrow> sql_row \<Rightarrow> string list" where
  "row_services dec r =
     fold bs_insert (case r ''services_json'' of SqlText s \<Rightarrow> (case dec s of Some l \<Rightarrow> l | None \<Rightarrow> []) | _ \<Rightarrow> []) []"

definition as_u32 :: "int \<Rightarrow> nat" where
  "as_u32 i = nat (max i 0) mod 2 ^ 32"

definition merged_root :: "trace_delta \<Rightarrow> sql_row \<Rightarrow> string \<times> string \<times> int" where
  "merged_root d r =
     (let old = (field_text r ''root_service'', field_text r ''root_operation'', num_i64 r ''root_start_ts'') in
      case td_root d of
        Some (ts, service, name) \<Rightarrow>
          if num_i64 r ''root_start_ts'' = 0 \<or> ts < num_i64 r ''root_start_ts'' then (service, name, ts) else old
      | None \<Rightarrow> old)"

definition merge_trace ::
    "(string list \<Rightarrow> string) \<Rightarrow> (string \<Rightarrow> string list option) \<Rightarrow> string \<Rightarrow> trace_delta \<Rightarrow> int \<Rightarrow> sql_row \<Rightarrow> sql_row" where
  "merge_trace enc dec t d now r =
     (let db_start = num_i64 r ''start_ts''; db_spans = as_u32 (num_i64 r ''span_count''); 
          delta_start = (if td_start_ts d = i64_max then db_start else td_start_ts d);
          start_ts = (if db_spans = 0 \<and> db_start = 0 then delta_start else min db_start delta_start);
          max_end = max (num_i64 r ''max_end_ts'') (td_max_end_ts d);
          span_count = sat_add32 db_spans (td_spans d);
          error_count = sat_add32 (as_u32 (num_i64 r ''error_count'')) (td_errors d);
          services = fold bs_insert (td_services d) (row_services dec r);
          (root_service, root_operation, root_start) = merged_root d r
      in row_of [(''trace_id'', SqlText t), (''start_ts'', SqlInteger start_ts), (''max_end_ts'', SqlInteger max_end),
          (''duration_micros'', SqlInteger (max (sat_sub_i64 max_end start_ts) 0)),
          (''root_service'', SqlText root_service), (''root_operation'', SqlText root_operation),
          (''root_start_ts'', SqlInteger root_start), (''span_count'', SqlInteger (int span_count)),
          (''error_count'', SqlInteger (int error_count)),
          (''status'', SqlText (if error_count > 0 then ''error'' else ''ok'')),
          (''services_json'', SqlText (enc services)), (''collector'', SqlText (pick (td_collector d) (field_text r ''collector''))),
          (''agent_id'', SqlText (pick (td_agent_id d) (field_text r ''agent_id''))),
          (''host_id'', SqlText (pick (td_host_id d) (field_text r ''host_id''))),
          (''data_id'', SqlText (pick (td_data_id d) (field_text r ''data_id''))), (''updated_ts'', SqlInteger now)])"

definition flush_trace ::
    "(string list \<Rightarrow> string) \<Rightarrow> (string \<Rightarrow> string list option) \<Rightarrow> string \<Rightarrow> trace_delta \<Rightarrow> int \<Rightarrow> ('x, unit) obs" where
  "flush_trace enc dec t d now =
     ob_bind (ob_select TraceSummary (first_row (\<lambda>r. text_eq r ''trace_id'' t))) (\<lambda>r.
       ob_change TraceSummary (\<lambda>rs. (replace_row (primary_key TraceSummary) (merge_trace enc dec t d now r) rs, 1)))"

text \<open>One trace after the other; a failed one is lost and does not stop the others.\<close>

fun flush_batch ::
    "(string list \<Rightarrow> string) \<Rightarrow> (string \<Rightarrow> string list option) \<Rightarrow> int \<Rightarrow> (string \<times> trace_delta) list \<Rightarrow> nat \<Rightarrow> 'x obs_db_scheme \<Rightarrow> nat \<times> 'x obs_db_scheme" where
  "flush_batch enc dec now [] n db = (n, db)"
| "flush_batch enc dec now ((t, d) # ds) n db =
     (case flush_trace enc dec t d now db of
        (Inl _, db') \<Rightarrow> flush_batch enc dec now ds n db'
      | (Inr _, db') \<Rightarrow> flush_batch enc dec now ds (n + 1) db')"

text \<open>Above the capacity the oldest entries with nothing collected are dropped.\<close>

definition evict_if_needed :: "apm_config \<Rightarrow> trace_acc \<Rightarrow> trace_acc" where
  "evict_if_needed c a =
     (if length (ta_deltas a) \<le> ac_max_live_traces c then a
      else
        let clean = sort_key (\<lambda>(_, d). td_max_end_ts d) (filter (\<lambda>(_, d). delta_empty d) (ta_deltas a));
            out = map fst (take (length (ta_deltas a) - ac_max_live_traces c) clean)
        in a\<lparr>ta_deltas := filter (\<lambda>(t, _). t \<notin> set out) (ta_deltas a), ta_dropped := ta_dropped a + length out\<rparr>)"

definition trace_flush ::
    "(string list \<Rightarrow> string) \<Rightarrow> (string \<Rightarrow> string list option) \<Rightarrow> apm_config \<Rightarrow> int \<Rightarrow> nat \<Rightarrow> trace_acc \<Rightarrow> 'x obs_db_scheme \<Rightarrow>
     nat \<times> trace_acc \<times> 'x obs_db_scheme" where
  "trace_flush enc dec c now instant a db =
     (let batch = filter (\<lambda>(_, d). \<not> delta_empty d) (ta_deltas a);
          a1 = a\<lparr>ta_deltas := map (\<lambda>(t, d). (t, if delta_empty d then d else default_delta)) (ta_deltas a),
                 ta_last_flush := Some instant\<rparr>;
          (written, db') = flush_batch enc dec now batch 0 db;
          a2 = evict_if_needed c a1
      in (written, a2\<lparr>ta_flushed := ta_flushed a2 + written\<rparr>, db'))"

definition trace_flush_due ::
    "(string list \<Rightarrow> string) \<Rightarrow> (string \<Rightarrow> string list option) \<Rightarrow> apm_config \<Rightarrow> int \<Rightarrow> nat \<Rightarrow> trace_acc \<Rightarrow> 'x obs_db_scheme \<Rightarrow>
     nat \<times> trace_acc \<times> 'x obs_db_scheme" where
  "trace_flush_due enc dec c now instant a db =
     (let dirty = dirty_len a;
          elapsed = (case ta_last_flush a of Some t \<Rightarrow> instant - t \<ge> ac_flush_interval_secs c * 1000000000 | None \<Rightarrow> True)
      in if dirty \<noteq> 0 \<and> (dirty \<ge> ac_dirty_threshold c \<or> elapsed) then trace_flush enc dec c now instant a db else (0, a, db))"

section \<open>What a trace adds up to\<close>

text \<open>The abstract content of a summary: counts, the latest end, the services and the root. Parts merge.\<close>

record summary =
  sm_spans :: nat
  sm_errors :: nat
  sm_end :: int
  sm_services :: "string set"
  sm_root :: "(int \<times> string \<times> string) option"

definition empty_view :: summary where
  "empty_view = \<lparr>sm_spans = 0, sm_errors = 0, sm_end = 0, sm_services = {}, sm_root = None\<rparr>"

definition merge_view :: "summary \<Rightarrow> summary \<Rightarrow> summary" where
  "merge_view a b = \<lparr>sm_spans = sat_add32 (sm_spans a) (sm_spans b), sm_errors = sat_add32 (sm_errors a) (sm_errors b),
     sm_end = max (sm_end a) (sm_end b), sm_services = sm_services a \<union> sm_services b,
     sm_root = earlier_root (sm_root a) (sm_root b)\<rparr>"

definition span_view :: "trace_span \<Rightarrow> summary" where
  "span_view s = \<lparr>sm_spans = 1, sm_errors = (if sp_status_code s = ''error'' then 1 else 0),
     sm_end = max 0 (sp_timestamp s + duration_micros s), sm_services = {sp_service s},
     sm_root = (if is_root s then Some (sp_timestamp s, sp_service s, sp_name s) else None)\<rparr>"

definition delta_view :: "trace_delta \<Rightarrow> summary" where
  "delta_view d = \<lparr>sm_spans = min (td_spans d) (2 ^ 32 - 1), sm_errors = min (td_errors d) (2 ^ 32 - 1),
     sm_end = max 0 (td_max_end_ts d), sm_services = set (td_services d), sm_root = td_root d\<rparr>"

definition row_view :: "(string \<Rightarrow> string list option) \<Rightarrow> sql_row \<Rightarrow> summary" where
  "row_view dec r = \<lparr>sm_spans = as_u32 (num_i64 r ''span_count''), sm_errors = as_u32 (num_i64 r ''error_count''),
     sm_end = max 0 (num_i64 r ''max_end_ts''), sm_services = set (row_services dec r),
     sm_root = (if num_i64 r ''root_start_ts'' = 0 then None
       else Some (num_i64 r ''root_start_ts'', field_text r ''root_service'', field_text r ''root_operation''))\<rparr>"

definition trace_row :: "string \<Rightarrow> 'x obs_db_scheme \<Rightarrow> sql_row" where
  "trace_row t db = first_row (\<lambda>r. text_eq r ''trace_id'' t) (ob_rows db TraceSummary)"

definition pending_view :: "string \<Rightarrow> trace_acc \<Rightarrow> summary" where
  "pending_view t a = (case bt_get (ta_deltas a) t of Some d \<Rightarrow> delta_view d | None \<Rightarrow> empty_view)"

definition trace_view :: "(string \<Rightarrow> string list option) \<Rightarrow> string \<Rightarrow> trace_acc \<Rightarrow> 'x obs_db_scheme \<Rightarrow> summary" where
  "trace_view dec t a db = merge_view (row_view dec (trace_row t db)) (pending_view t a)"

datatype trace_op = Observe trace_span data_envelope | Flush int nat

fun trace_run ::
    "(string list \<Rightarrow> string) \<Rightarrow> (string \<Rightarrow> string list option) \<Rightarrow> apm_config \<Rightarrow> trace_op list \<Rightarrow> trace_acc \<Rightarrow> 'x obs_db_scheme \<Rightarrow>
     trace_acc \<times> 'x obs_db_scheme" where
  "trace_run enc dec c [] a db = (a, db)"
| "trace_run enc dec c (Observe s v # ops) a db = trace_run enc dec c ops (trace_observe s v a) db"
| "trace_run enc dec c (Flush now i # ops) a db =
     (let (_, a', db') = trace_flush enc dec c now i a db in trace_run enc dec c ops a' db')"

fun spans_of :: "trace_op list \<Rightarrow> trace_span list" where
  "spans_of [] = []"
| "spans_of (Observe s v # ops) = s # spans_of ops"
| "spans_of (Flush _ _ # ops) = spans_of ops"

lemma trace_run_append:
  "trace_run enc dec c (xs @ ys) a db = (let (a', db') = trace_run enc dec c xs a db in trace_run enc dec c ys a' db')"
  by (induction enc dec c xs a db rule: trace_run.induct) (auto split: prod.split)

lemma spans_of_append: "spans_of (xs @ ys) = spans_of xs @ spans_of ys"
  by (induction xs rule: spans_of.induct) simp_all

section \<open>Algebra of views\<close>

lemma sat_add32_assoc: "sat_add32 (sat_add32 a b) c = sat_add32 a (sat_add32 b c)"
  by (simp add: sat_add32_def)

lemma earlier_root_assoc: "earlier_root (earlier_root a b) c = earlier_root a (earlier_root b c)"
  by (simp add: earlier_root_def split: option.split)

lemma earlier_root_None [simp]: "earlier_root None b = b" "earlier_root a None = a"
  by (simp_all add: earlier_root_def split: option.split)

lemma merge_view_assoc: "merge_view (merge_view a b) c = merge_view a (merge_view b c)"
  by (simp add: merge_view_def sat_add32_assoc earlier_root_assoc max.assoc Un_assoc)

definition view_ok :: "summary \<Rightarrow> bool" where
  "view_ok a \<longleftrightarrow> sm_spans a \<le> 2 ^ 32 - 1 \<and> sm_errors a \<le> 2 ^ 32 - 1 \<and> 0 \<le> sm_end a"

lemma merge_view_empty: "view_ok a \<Longrightarrow> merge_view a empty_view = a"
  by (simp add: view_ok_def merge_view_def empty_view_def sat_add32_def)

lemma as_u32_less: "as_u32 i \<le> 2 ^ 32 - 1"
proof -
  have "nat (max i 0) mod 2 ^ 32 < (2 :: nat) ^ 32" by (rule mod_less_divisor) simp
  then have "nat (max i 0) mod 2 ^ 32 < Suc (2 ^ 32 - 1)" by simp
  then show ?thesis unfolding as_u32_def by (simp only: less_Suc_eq_le)
qed

lemma row_view_ok: "view_ok (row_view dec r)"
  by (simp only: view_ok_def row_view_def summary.simps as_u32_less) simp

lemma default_view [simp]: "delta_view default_delta = empty_view"
  by (simp add: delta_view_def default_delta_def empty_view_def)

lemma add_span_view: "delta_view (add_span s d) = merge_view (delta_view d) (span_view s)"
proof -
  have "min (sat_add32 n 1) (2 ^ 32 - 1) = sat_add32 (min n (2 ^ 32 - 1)) 1" for n
    by (simp add: sat_add32_def)
  then show ?thesis
    by (simp add: delta_view_def add_span_def merge_view_def span_view_def sat_add32_def max.assoc max.left_commute)
qed

lemma new_delta_view: "delta_view (new_delta s v) = empty_view"
  by (simp add: delta_view_def new_delta_def default_delta_def empty_view_def)

lemma empty_merge_span: "merge_view empty_view (span_view s) = span_view s"
  by (simp add: merge_view_def empty_view_def span_view_def sat_add32_def)

section \<open>A flush\<close>

lemma set_fold_bs [simp]: "set (fold bs_insert xs s) = set xs \<union> set s"
  by (induction xs arbitrary: s) auto

lemma row_of_simps [simp]:
  "row_of ((k, v) # kvs) c = (if c = k then v else row_of kvs c)" "row_of [] c = SqlNull"
  by (simp_all add: row_of_def)

definition root_ok :: "trace_delta \<Rightarrow> bool" where
  "root_ok d \<longleftrightarrow> (case td_root d of Some x \<Rightarrow> fst x > 0 | None \<Rightarrow> True)"

lemma merge_trace_cols:
  "num_i64 (merge_trace enc dec t d now r) ''span_count'' = int (sat_add32 (as_u32 (num_i64 r ''span_count'')) (td_spans d))"
  "num_i64 (merge_trace enc dec t d now r) ''error_count'' = int (sat_add32 (as_u32 (num_i64 r ''error_count'')) (td_errors d))"
  "num_i64 (merge_trace enc dec t d now r) ''max_end_ts'' = max (num_i64 r ''max_end_ts'') (td_max_end_ts d)"
  "merge_trace enc dec t d now r ''services_json'' = SqlText (enc (fold bs_insert (td_services d) (row_services dec r)))"
  "field_text (merge_trace enc dec t d now r) ''root_service'' = fst (merged_root d r)"
  "field_text (merge_trace enc dec t d now r) ''root_operation'' = fst (snd (merged_root d r))"
  "num_i64 (merge_trace enc dec t d now r) ''root_start_ts'' = snd (snd (merged_root d r))"
  "merge_trace enc dec t d now r ''trace_id'' = SqlText t"
  by (simp_all add: merge_trace_def Let_def case_prod_unfold num_i64_def field_text_def)

lemma merge_trace_view:
  assumes "\<And>l. dec (enc l) = Some l" "root_ok d"
  shows "row_view dec (merge_trace enc dec t d now r) = merge_view (row_view dec r) (delta_view d)"
proof -
  let ?m = "merge_trace enc dec t d now r"
  have u: "as_u32 (int n) = n" if "n \<le> 2 ^ 32 - 1" for n using that by (simp add: as_u32_def)
  have s: "sat_add32 a b \<le> 2 ^ 32 - 1" for a b by (simp add: sat_add32_def)
  have m: "sat_add32 a (min b (2 ^ 32 - 1)) = sat_add32 a b" for a b by (simp add: sat_add32_def)
  note col = merge_trace_cols [of enc dec t d now r]
  have services: "set (row_services dec ?m) = set (td_services d) \<union> set (row_services dec r)"
    unfolding row_services_def [of dec ?m] by (simp add: col assms(1))
  have root: "sm_root (row_view dec ?m) = earlier_root (sm_root (row_view dec r)) (td_root d)"
    using assms(2)
    by (cases "td_root d")
      (auto simp: row_view_def col merged_root_def Let_def root_ok_def earlier_root_def)
  have "sm_root (row_view dec ?m) = sm_root (merge_view (row_view dec r) (delta_view d))"
    unfolding root by (simp add: merge_view_def delta_view_def)
  moreover have "sm_spans (row_view dec ?m) = sm_spans (merge_view (row_view dec r) (delta_view d))"
    "sm_errors (row_view dec ?m) = sm_errors (merge_view (row_view dec r) (delta_view d))"
    by (simp_all only: row_view_def merge_view_def delta_view_def summary.simps col u [OF s] m)
  moreover have "sm_end (row_view dec ?m) = sm_end (merge_view (row_view dec r) (delta_view d))"
    "sm_services (row_view dec ?m) = sm_services (merge_view (row_view dec r) (delta_view d))"
    by (auto simp: row_view_def merge_view_def delta_view_def col services)
  ultimately show ?thesis by simp
qed

lemma trace_id_key: "text_eq r ''trace_id'' t \<longleftrightarrow> same_key (primary_key TraceSummary) r (row_of [(''trace_id'', SqlText t)])"
  by (simp add: text_eq_def same_key_def primary_key_def)

lemma flush_trace_ok:
  assumes "ob_faults db = []"
  shows "\<exists>db'. flush_trace enc dec t d now db = (Inr (), db') \<and> ob_faults db' = [] \<and>
    trace_row t' db' = (if t' = t then merge_trace enc dec t d now (trace_row t db) else trace_row t' db)"
proof -
  let ?r = "merge_trace enc dec t d now (trace_row t db)"
  have "find (\<lambda>r. text_eq r ''trace_id'' t') (replace_row (primary_key TraceSummary) ?r rs) =
      (if t' = t then Some ?r else find (\<lambda>r. text_eq r ''trace_id'' t') rs)" for rs
    using find_replace_row [of "\<lambda>r. text_eq r ''trace_id'' t'", OF trace_id_key [of _ t'], of ?r rs]
    by (auto simp: same_key_def primary_key_def merge_trace_cols)
  then show ?thesis
    using assms by (simp add: flush_trace_def ob_simps trace_row_def first_row_def)
qed

lemma flush_batch_ok:
  assumes "ob_faults db = []" "distinct (map fst ds)" "flush_batch enc dec now ds n db = (n', db')"
  shows "ob_faults db' = [] \<and> n' = n + length ds \<and> trace_row t db' =
    (case map_of ds t of Some d \<Rightarrow> merge_trace enc dec t d now (trace_row t db) | None \<Rightarrow> trace_row t db)"
  using assms
proof (induction ds arbitrary: n db)
  case (Cons x ds)
  obtain k d where x: "x = (k, d)" by fastforce
  obtain db1 where f: "flush_trace enc dec k d now db = (Inr (), db1)" "ob_faults db1 = []"
    using flush_trace_ok [OF Cons.prems(1)] by blast
  have r: "trace_row t' db1 = (if t' = k then merge_trace enc dec k d now (trace_row k db) else trace_row t' db)" for t'
    using flush_trace_ok [OF Cons.prems(1), of enc dec k d now t'] f(1) by auto
  have "ob_faults db' = [] \<and> n' = (n + 1) + length ds \<and> trace_row t db' =
      (case map_of ds t of Some d \<Rightarrow> merge_trace enc dec t d now (trace_row t db1) | None \<Rightarrow> trace_row t db1)"
    using Cons.prems(2,3) x f by (intro Cons.IH) simp_all
  moreover have "map_of ds k = None" using Cons.prems(2) x by (simp add: map_of_eq_None_iff)
  ultimately show ?case by (auto simp: x r split: option.split)
qed simp

text \<open>The invariant of the collector.\<close>

definition acc_ok :: "trace_acc \<Rightarrow> bool" where
  "acc_ok a \<longleftrightarrow> bt_ok (ta_deltas a) \<and> (\<forall>(t, d) \<in> set (ta_deltas a). (delta_empty d \<longrightarrow> d = default_delta) \<and> root_ok d)"

lemma acc_ok_new: "acc_ok trace_acc_new"
  by (simp add: acc_ok_def trace_acc_new_def)

lemma acc_ok_get: "acc_ok a \<Longrightarrow> bt_get (ta_deltas a) t = Some d \<Longrightarrow> (delta_empty d \<longrightarrow> d = default_delta) \<and> root_ok d"
  by (auto simp: acc_ok_def dest: bt_get_SomeD)

lemma acc_ok_observe:
  assumes "acc_ok a" "sp_timestamp s > 0"
  shows "acc_ok (trace_observe s v a)"
proof -
  let ?d = "unwrap_or (bt_get (ta_deltas a) (sp_trace_id s)) (new_delta s v)"
  have "root_ok ?d"
    using acc_ok_get [OF assms(1)] by (cases "bt_get (ta_deltas a) (sp_trace_id s)") (auto simp: root_ok_def new_delta_def default_delta_def)
  then have "root_ok (add_span s ?d)" using assms(2)
    by (auto simp: root_ok_def add_span_def earlier_root_def split: option.splits)
  moreover have "\<not> delta_empty (add_span s ?d)" by (simp add: delta_empty_def add_span_def sat_add32_def)
  ultimately show ?thesis
    using assms(1) set_bt_insert [of "sp_trace_id s" "add_span s ?d" "ta_deltas a"]
    by (auto simp: acc_ok_def trace_observe_def Let_def bt_ok_insert)
qed

lemma observe_view:
  assumes "acc_ok a"
  shows "trace_view dec t (trace_observe s v a) db =
    (if sp_trace_id s = t then merge_view (trace_view dec t a db) (span_view s) else trace_view dec t a db)"
  by (auto simp: trace_view_def pending_view_def trace_observe_def Let_def bt_get_insert add_span_view new_delta_view
      merge_view_assoc empty_merge_span split: option.split)

lemma acc_ok_defaults: "bt_ok (ta_deltas a) \<Longrightarrow> \<forall>(t, d) \<in> set (ta_deltas a). d = default_delta \<Longrightarrow> acc_ok a"
proof -
  have "root_ok default_delta" by (simp add: root_ok_def default_delta_def)
  then show "bt_ok (ta_deltas a) \<Longrightarrow> \<forall>(t, d) \<in> set (ta_deltas a). d = default_delta \<Longrightarrow> acc_ok a"
    unfolding acc_ok_def by fastforce
qed

lemma evict_sub: "set (ta_deltas (evict_if_needed c a)) \<subseteq> set (ta_deltas a)"
  by (auto simp: evict_if_needed_def Let_def)

lemma flush_acc:
  assumes "trace_flush enc dec c now i a db = (n, a', db')"
  shows "ta_deltas a' = ta_deltas (evict_if_needed c
    (a\<lparr>ta_deltas := map (\<lambda>(t, d). (t, if delta_empty d then d else default_delta)) (ta_deltas a), ta_last_flush := Some i\<rparr>))"
  using assms by (auto simp: trace_flush_def Let_def split: prod.splits)

lemma evict_keeps:
  assumes "acc_ok a" "\<forall>(t, d) \<in> set (ta_deltas a). d = default_delta"
  shows "acc_ok (evict_if_needed c a) \<and> pending_view t (evict_if_needed c a) = empty_view"
proof -
  note sub = evict_sub [of c a]
  moreover have "bt_ok (ta_deltas (evict_if_needed c a))"
    using assms(1) by (simp add: acc_ok_def evict_if_needed_def Let_def bt_ok_filter)
  ultimately have "acc_ok (evict_if_needed c a)" using assms(1) by (auto simp: acc_ok_def)
  moreover have "d = default_delta" if "bt_get (ta_deltas (evict_if_needed c a)) t = Some d" for d
    using bt_get_SomeD [OF that] sub assms(2) by auto
  ultimately show ?thesis by (auto simp: pending_view_def split: option.split)
qed

lemma keys_reset: "map fst (map (\<lambda>(t, d). (t, f d)) m) = map fst m"
  by (induction m) auto

lemma dirty_of:
  assumes ok: "bt_ok (ta_deltas a)"
  shows "map_of (filter (\<lambda>(_, d). \<not> delta_empty d) (ta_deltas a)) t = (case bt_get (ta_deltas a) t of Some d \<Rightarrow> if delta_empty d then None else Some d | None \<Rightarrow> None)"
  proof (cases "bt_get (ta_deltas a) t")
    case None
    then have "t \<notin> fst ` set (ta_deltas a)" by (simp add: bt_get_def map_of_eq_None_iff)
    then have "map_of (filter (\<lambda>(_, d). \<not> delta_empty d) (ta_deltas a)) t = None" by (auto simp: map_of_eq_None_iff)
    then show ?thesis using None by simp
  next
    case (Some d0)
    then have mem: "(t, d0) \<in> set (ta_deltas a)" by (rule bt_get_SomeD)
    show ?thesis
    proof (cases "delta_empty d0")
      case True
      have "d1 = d0" if "(t, d1) \<in> set (ta_deltas a)" for d1
        using that Some bt_get_in_set [OF ok] by simp
      then have "map_of (filter (\<lambda>(_, d). \<not> delta_empty d) (ta_deltas a)) t = None" using True by (auto simp: map_of_eq_None_iff)
      then show ?thesis using Some True by simp
    next
      case False
      then have "(t, d0) \<in> set (filter (\<lambda>(_, d). \<not> delta_empty d) (ta_deltas a))" using mem by simp
      then have "map_of (filter (\<lambda>(_, d). \<not> delta_empty d) (ta_deltas a)) t = Some d0"
      using distinct_map_filter [OF bt_ok_distinct [OF ok]] by simp
      then show ?thesis using Some False by simp
    qed
  qed

lemma flush_view:
  assumes "\<And>l. dec (enc l) = Some l" "acc_ok a" "ob_faults db = []" "trace_flush enc dec c now i a db = (n, a', db')"
  shows "acc_ok a' \<and> ob_faults db' = [] \<and> pending_view t a' = empty_view \<and>
    row_view dec (trace_row t db') = trace_view dec t a db"
proof -
  let ?batch = "filter (\<lambda>(_, d). \<not> delta_empty d) (ta_deltas a)"
  let ?a1 = "a\<lparr>ta_deltas := map (\<lambda>(t, d). (t, if delta_empty d then d else default_delta)) (ta_deltas a), ta_last_flush := Some i\<rparr>"
  obtain w db1 where b: "flush_batch enc dec now ?batch 0 db = (w, db1)" by fastforce
  have eq: "a' = (evict_if_needed c ?a1)\<lparr>ta_flushed := ta_flushed (evict_if_needed c ?a1) + w\<rparr>" "db' = db1"
    using assms(4) b by (auto simp: trace_flush_def Let_def)
  have ok: "bt_ok (ta_deltas a)" using assms(2) by (simp add: acc_ok_def)
  have d: "distinct (map fst ?batch)" by (intro distinct_map_filter bt_ok_distinct ok)
  have rows: "ob_faults db1 = [] \<and> trace_row t db1 =
      (case map_of ?batch t of Some d \<Rightarrow> merge_trace enc dec t d now (trace_row t db) | None \<Rightarrow> trace_row t db)"
    using flush_batch_ok [OF assms(3) d b] by simp
  have all: "\<forall>(t, d) \<in> set (ta_deltas ?a1). d = default_delta"
    using assms(2) by (auto simp: acc_ok_def)
  moreover have "acc_ok ?a1"
  proof -
    have "ta_deltas ?a1 = map (\<lambda>(t, d). (t, if delta_empty d then d else default_delta)) (ta_deltas a)" by simp
    then have "map fst (ta_deltas ?a1) = map fst (ta_deltas a)" by (simp only: keys_reset)
    then have "bt_ok (ta_deltas ?a1)" using ok by (simp only: bt_ok_def)
    then show ?thesis using all by (rule acc_ok_defaults)
  qed
  ultimately have e: "acc_ok (evict_if_needed c ?a1) \<and> pending_view t (evict_if_needed c ?a1) = empty_view"
    by (intro evict_keeps)
  note batch = dirty_of [OF ok, of t]
  have "row_view dec (trace_row t db1) = trace_view dec t a db"
  proof (cases "bt_get (ta_deltas a) t")
    case None
    then show ?thesis using rows batch by (simp add: trace_view_def pending_view_def merge_view_empty row_view_ok)
  next
    case (Some d0)
    have dd: "(delta_empty d0 \<longrightarrow> d0 = default_delta) \<and> root_ok d0" by (rule acc_ok_get [OF assms(2) Some])
    show ?thesis
    proof (cases "delta_empty d0")
      case True
      then show ?thesis using rows batch Some dd by (simp add: trace_view_def pending_view_def merge_view_empty row_view_ok)
    next
      case False
      then show ?thesis using rows batch Some dd by (simp add: trace_view_def pending_view_def merge_trace_view [OF assms(1)])
    qed
  qed
  then show ?thesis using e rows eq by (simp add: acc_ok_def pending_view_def)
qed

lemma flush_deltas:
  assumes "acc_ok a" "card (fst ` set (ta_deltas a)) \<le> ac_max_live_traces c" "trace_flush enc dec c now i a db = (n, a', db')"
  shows "ta_deltas a' = map (\<lambda>(t, d). (t, if delta_empty d then d else default_delta)) (ta_deltas a)"
proof -
  have "distinct (map fst (ta_deltas a))" using assms(1) by (simp add: acc_ok_def bt_ok_distinct)
  then have "card (fst ` set (ta_deltas a)) = length (ta_deltas a)" using distinct_card by fastforce
  then show ?thesis using assms(2,3) by (auto simp: trace_flush_def evict_if_needed_def Let_def split: prod.splits)
qed

lemma flush_keys:
  assumes "acc_ok a" "card (fst ` set (ta_deltas a)) \<le> ac_max_live_traces c" "trace_flush enc dec c now i a db = (n, a', db')"
  shows "fst ` set (ta_deltas a') = fst ` set (ta_deltas a)"
  unfolding flush_deltas [OF assms] by force

section \<open>Histories\<close>

lemma run_view:
  assumes "\<And>l. dec (enc l) = Some l" "acc_ok a" "ob_faults db = []" "\<forall>s \<in> set (spans_of ops). 0 < sp_timestamp s"
    and "trace_run enc dec c ops a db = (a', db')"
  shows "acc_ok a' \<and> ob_faults db' = [] \<and>
    trace_view dec t a' db' = foldl merge_view (trace_view dec t a db) (map span_view (filter (\<lambda>s. sp_trace_id s = t) (spans_of ops)))"
  using assms(2-)
proof (induction ops arbitrary: a db)
  case (Cons x ops)
  show ?case
  proof (cases x)
    case (Observe s v)
    have "acc_ok (trace_observe s v a)" using Cons.prems(1,3) Observe by (intro acc_ok_observe) simp_all
    then show ?thesis
      using Cons.IH [of "trace_observe s v a" db] Cons.prems Observe observe_view [OF Cons.prems(1), of dec t s v db] by simp
  next
    case (Flush now i)
    obtain n a1 db1 where f: "trace_flush enc dec c now i a db = (n, a1, db1)" by (metis prod_cases3)
    have v: "acc_ok a1 \<and> ob_faults db1 = [] \<and> pending_view t a1 = empty_view \<and> row_view dec (trace_row t db1) = trace_view dec t a db"
      by (rule flush_view [OF assms(1) Cons.prems(1,2) f])
    then have "trace_view dec t a1 db1 = trace_view dec t a db"
      by (simp add: trace_view_def [of dec t a1 db1] merge_view_empty flip: row_view_ok)
        (simp add: merge_view_empty row_view_ok flip: v [THEN conjunct2, THEN conjunct2, THEN conjunct2])
    then show ?thesis using Cons.IH [of a1 db1] Cons.prems(3,4) v f Flush by simp
  qed
qed simp

lemma run_keys:
  assumes "acc_ok a" "\<forall>s \<in> set (spans_of ops). 0 < sp_timestamp s" "\<And>l. dec (enc l) = Some l" "ob_faults db = []"
    and "card (fst ` set (ta_deltas a) \<union> sp_trace_id ` set (spans_of ops)) \<le> ac_max_live_traces c"
    and "trace_run enc dec c ops a db = (a', db')"
  shows "fst ` set (ta_deltas a') = fst ` set (ta_deltas a) \<union> sp_trace_id ` set (spans_of ops)"
  using assms(1,2,4-)
proof (induction ops arbitrary: a db)
  case (Cons x ops)
  show ?case
  proof (cases x)
    case (Observe s v)
    have ok: "acc_ok (trace_observe s v a)" using Cons.prems(1,2) Observe by (intro acc_ok_observe) simp_all
    have k: "fst ` set (ta_deltas (trace_observe s v a)) = insert (sp_trace_id s) (fst ` set (ta_deltas a))"
      by (simp add: trace_observe_def Let_def fst_set_bt_insert)
    show ?thesis using Cons.IH [OF ok] Cons.prems Observe by (simp add: k)
  next
    case (Flush now i)
    obtain n a1 db1 where f: "trace_flush enc dec c now i a db = (n, a1, db1)" by (metis prod_cases3)
    have v: "acc_ok a1 \<and> ob_faults db1 = []" using flush_view [OF assms(3) Cons.prems(1,3) f] by blast
    have "card (fst ` set (ta_deltas a)) \<le> card (fst ` set (ta_deltas a) \<union> sp_trace_id ` set (spans_of ops))"
      by (intro card_mono) auto
    then have "card (fst ` set (ta_deltas a)) \<le> ac_max_live_traces c" using Cons.prems(4) Flush by simp
    then have k: "fst ` set (ta_deltas a1) = fst ` set (ta_deltas a)" by (intro flush_keys [OF Cons.prems(1) _ f])
    show ?thesis using Cons.IH [of a1 db1] Cons.prems v f Flush by (simp add: k)
  qed
qed simp

section \<open>The start time\<close>

definition starts_ok :: "string \<Rightarrow> trace_acc \<Rightarrow> 'x obs_db_scheme \<Rightarrow> bool" where
  "starts_ok t a db \<longleftrightarrow> (\<forall>d. bt_get (ta_deltas a) t = Some d \<longrightarrow> 0 \<le> td_start_ts d) \<and> 0 \<le> num_i64 (trace_row t db) ''start_ts''"

lemma merge_trace_start:
  "num_i64 (merge_trace enc dec t d now r) ''start_ts'' =
     (let db_start = num_i64 r ''start_ts''; delta_start = (if td_start_ts d = i64_max then db_start else td_start_ts d) in
      if as_u32 (num_i64 r ''span_count'') = 0 \<and> db_start = 0 then delta_start else min db_start delta_start)"
  "num_i64 (merge_trace enc dec t d now r) ''duration_micros'' =
     max (sat_sub_i64 (num_i64 (merge_trace enc dec t d now r) ''max_end_ts'') (num_i64 (merge_trace enc dec t d now r) ''start_ts'')) 0"
  by (simp_all add: merge_trace_def Let_def case_prod_unfold num_i64_def)

lemma flush_row:
  assumes "acc_ok a" "ob_faults db = []" "trace_flush enc dec c now i a db = (n, a', db')"
  shows "trace_row t db' = (case bt_get (ta_deltas a) t of
      Some d \<Rightarrow> if delta_empty d then trace_row t db else merge_trace enc dec t d now (trace_row t db)
    | None \<Rightarrow> trace_row t db)"
proof -
  let ?batch = "filter (\<lambda>(_, d). \<not> delta_empty d) (ta_deltas a)"
  obtain w db1 where b: "flush_batch enc dec now ?batch 0 db = (w, db1)" by fastforce
  have ok: "bt_ok (ta_deltas a)" using assms(1) by (simp add: acc_ok_def)
  have "db' = db1" using assms(3) b by (auto simp: trace_flush_def Let_def)
  moreover have "trace_row t db1 =
      (case map_of ?batch t of Some d \<Rightarrow> merge_trace enc dec t d now (trace_row t db) | None \<Rightarrow> trace_row t db)"
    using flush_batch_ok [OF assms(2) distinct_map_filter [OF bt_ok_distinct [OF ok]] b] by simp
  ultimately show ?thesis by (simp add: dirty_of [OF ok] split: option.split)
qed

lemma starts_ok_observe:
  assumes "starts_ok t a db" "0 < sp_timestamp s"
  shows "starts_ok t (trace_observe s v a) db"
proof -
  let ?d = "unwrap_or (bt_get (ta_deltas a) (sp_trace_id s)) (new_delta s v)"
  have n: "0 \<le> td_start_ts (new_delta s v)" by (simp add: new_delta_def i64_max_def)
  have "0 \<le> td_start_ts ?d" if "sp_trace_id s = t"
  proof (cases "bt_get (ta_deltas a) t")
    case None
    then show ?thesis using n that by simp
  next
    case (Some d)
    then have "0 \<le> td_start_ts d" using assms(1) by (simp add: starts_ok_def)
    then show ?thesis using Some that by simp
  qed
  moreover have "td_start_ts (add_span s d) = min (td_start_ts d) (sp_timestamp s)" for d by (simp add: add_span_def)
  ultimately have "0 \<le> td_start_ts (add_span s ?d)" if "sp_trace_id s = t" using that assms(2) by simp
  then show ?thesis using assms(1)
    by (cases "sp_trace_id s = t") (simp_all add: starts_ok_def trace_observe_def Let_def bt_get_insert)
qed

lemma starts_ok_flush:
  assumes "starts_ok t a db" "acc_ok a" "ob_faults db = []" "trace_flush enc dec c now i a db = (n, a', db')"
  shows "starts_ok t a' db'"
proof -
  have "0 \<le> num_i64 (trace_row t db') ''start_ts''"
    using assms(1) flush_row [OF assms(2-4), of t]
    by (auto simp: starts_ok_def merge_trace_start Let_def split: option.splits)
  moreover have "0 \<le> td_start_ts d" if d: "bt_get (ta_deltas a') t = Some d" for d
  proof -
    note f = flush_acc [OF assms(4)]
    have "set (ta_deltas a') \<subseteq> (\<lambda>(t, d). (t, if delta_empty d then d else default_delta)) ` set (ta_deltas a)"
      unfolding f by (rule order_trans [OF evict_sub]) simp
    then have "(t, d) \<in> (\<lambda>(t, d). (t, if delta_empty d then d else default_delta)) ` set (ta_deltas a)"
      using bt_get_SomeD [OF d] by blast
    then have "d = default_delta" using assms(2) by (auto simp: acc_ok_def)
    then show ?thesis by (simp add: default_delta_def)
  qed
  ultimately show ?thesis by (simp add: starts_ok_def)
qed

lemma run_starts:
  assumes "\<And>l. dec (enc l) = Some l" "acc_ok a" "ob_faults db = []" "\<forall>s \<in> set (spans_of ops). 0 < sp_timestamp s"
    and "starts_ok t a db" "trace_run enc dec c ops a db = (a', db')"
  shows "starts_ok t a' db'"
  using assms(2-)
proof (induction ops arbitrary: a db)
  case (Cons x ops)
  show ?case
  proof (cases x)
    case (Observe s v)
    have "acc_ok (trace_observe s v a)" "starts_ok t (trace_observe s v a) db"
      using Cons.prems(1,3,4) Observe by (simp_all add: acc_ok_observe starts_ok_observe)
    then show ?thesis using Cons.IH [of "trace_observe s v a" db] Cons.prems Observe by simp
  next
    case (Flush now i)
    obtain n a1 db1 where f: "trace_flush enc dec c now i a db = (n, a1, db1)" by (metis prod_cases3)
    have "acc_ok a1 \<and> ob_faults db1 = []" using flush_view [OF assms(1) Cons.prems(1,2) f] by blast
    moreover have "starts_ok t a1 db1" by (rule starts_ok_flush [OF Cons.prems(4,1,2) f])
    ultimately show ?thesis using Cons.IH [of a1 db1] Cons.prems f Flush by simp
  qed
qed simp

text \<open>Observing after a flush: the entry of the trace starts from time 0.\<close>

lemma observe_more:
  assumes "\<forall>(s, v) \<in> set later. 0 < sp_timestamp s"
    and "bt_get (ta_deltas a) t = Some d" "td_start_ts d = 0" "td_spans d > 0 \<or> t \<in> (\<lambda>(s, v). sp_trace_id s) ` set later"
    and "trace_run enc dec c (map (\<lambda>(s, v). Observe s v) later) a db = (a', db')"
  shows "db' = db \<and> (\<exists>d'. bt_get (ta_deltas a') t = Some d' \<and> td_start_ts d' = 0 \<and> td_spans d' > 0)"
  using assms
proof (induction later arbitrary: a d)
  case (Cons x later)
  obtain s v where x: "x = (s, v)" by fastforce
  let ?d = "if sp_trace_id s = t then add_span s d else d"
  have "bt_get (ta_deltas (trace_observe s v a)) t = Some ?d"
    using Cons.prems(2) by (cases "sp_trace_id s = t") (simp_all add: trace_observe_def Let_def bt_get_insert)
  moreover have "td_start_ts ?d = 0" using Cons.prems(1,3) x by (auto simp: add_span_def)
  moreover have "td_spans ?d > 0 \<or> t \<in> (\<lambda>(s, v). sp_trace_id s) ` set later"
    using Cons.prems(4) x by (auto simp: add_span_def sat_add32_def)
  ultimately show ?case using Cons.IH [of "trace_observe s v a" ?d] Cons.prems(1,5) x by simp
qed auto

lemma spans_of_map: "spans_of (map (\<lambda>(s, v). Observe s v) later) = map fst later"
  by (induction later) auto

section \<open>Witness data\<close>

fun demo_enc :: "string list \<Rightarrow> string" where
  "demo_enc [] = []"
| "demo_enc (s # ss) = concat (map (\<lambda>c. [CHR ''c'', c]) s) @ CHR ''.'' # demo_enc ss"

fun demo_dec :: "string \<Rightarrow> string \<Rightarrow> string list" where
  "demo_dec acc [] = []"
| "demo_dec acc [x] = (if x = CHR ''.'' then [acc] else [])"
| "demo_dec acc (x # y # ys) = (if x = CHR ''.'' then acc # demo_dec [] (y # ys) else demo_dec (acc @ [y]) ys)"

lemma demo_dec_dot: "demo_dec acc (CHR ''.'' # xs) = acc # demo_dec [] xs"
  by (cases xs) simp_all

lemma demo_dec_word: "demo_dec acc (concat (map (\<lambda>c. [CHR ''c'', c]) s) @ CHR ''.'' # xs) = (acc @ s) # demo_dec [] xs"
  by (induction s arbitrary: acc) (simp_all add: demo_dec_dot)

lemma demo_codec: "demo_dec [] (demo_enc l) = l"
  by (induction l) (simp_all add: demo_dec_word)

definition w_first :: trace_span where "w_first = demo_span [] ''gw'' 1000 ''ok''"
definition w_second :: trace_span where "w_second = demo_span ''p'' ''order'' 2000 ''error''"

lemmas w_defs = w_first_def w_second_def demo_span_def

section \<open>Properties\<close>



text \<open>C28: the start of a trace is lost by a second flush: a flush resets the entry of a trace to the default, whose
  start is 0 and not the unset mark, so as soon as more spans of a flushed trace arrive the next flush
  writes 0 as its start and its end time as its duration.\<close>

theorem later_flush_zeroes_start:
  assumes "\<And>l. dec (enc l) = Some l" "ob_faults db = []" "0 \<le> num_i64 (trace_row t db) ''start_ts''"
    and "\<forall>s \<in> set (spans_of ops). 0 < sp_timestamp s" "\<forall>(s, v) \<in> set later. 0 < sp_timestamp s"
    and "t \<in> sp_trace_id ` set (spans_of ops)" "t \<in> (\<lambda>(s, v). sp_trace_id s) ` set later"
    and "card (sp_trace_id ` set (spans_of ops)) \<le> ac_max_live_traces c"
    and "trace_run enc dec c (ops @ [Flush n1 i1] @ map (\<lambda>(s, v). Observe s v) later @ [Flush n2 i2]) trace_acc_new db = (a, db')"
  shows "num_i64 (trace_row t db') ''start_ts'' = 0 \<and>
    num_i64 (trace_row t db') ''duration_micros'' = max (sat_i64 (num_i64 (trace_row t db') ''max_end_ts'')) 0"
proof -
  obtain a1 db1 where r1: "trace_run enc dec c ops trace_acc_new db = (a1, db1)" by fastforce
  obtain k a2 db2 where f1: "trace_flush enc dec c n1 i1 a1 db1 = (k, a2, db2)" by (metis prod_cases3)
  obtain a3 db3 where r2: "trace_run enc dec c (map (\<lambda>(s, v). Observe s v) later) a2 db2 = (a3, db3)" by fastforce
  obtain k2 where f2: "trace_flush enc dec c n2 i2 a3 db3 = (k2, a, db')"
    using assms(9) r1 f1 r2 by (auto simp: trace_run_append split: prod.splits)
  have s0: "starts_ok t trace_acc_new db" using assms(3) by (simp add: starts_ok_def trace_acc_new_def)
  have ok1: "acc_ok a1 \<and> ob_faults db1 = []" using run_view [OF assms(1) acc_ok_new assms(2,4) r1] by blast
  have st1: "starts_ok t a1 db1" by (rule run_starts [OF assms(1) acc_ok_new assms(2,4) s0 r1])
  have keys: "fst ` set (ta_deltas a1) = sp_trace_id ` set (spans_of ops)"
    using run_keys [OF acc_ok_new assms(4,1,2) _ r1] assms(8) by (simp add: trace_acc_new_def)
  have ok2: "acc_ok a2 \<and> ob_faults db2 = []" using flush_view [OF assms(1) _ _ f1] ok1 by blast
  have st2: "starts_ok t a2 db2" by (rule starts_ok_flush [OF st1 _ _ f1]) (use ok1 in simp_all)
  have d2: "ta_deltas a2 = map (\<lambda>(t, d). (t, if delta_empty d then d else default_delta)) (ta_deltas a1)"
    by (rule flush_deltas [OF _ _ f1]) (use ok1 keys assms(8) in simp_all)
  obtain d1 where "(t, d1) \<in> set (ta_deltas a1)" using assms(6) keys by force
  then have "(t, default_delta) \<in> set (ta_deltas a2)" using ok1 by (force simp: d2 acc_ok_def)
  then have g2: "bt_get (ta_deltas a2) t = Some default_delta" using ok2 bt_get_in_set by (fastforce simp: acc_ok_def)
  obtain d3 where d3: "db3 = db2" "bt_get (ta_deltas a3) t = Some d3" "td_start_ts d3 = 0" "td_spans d3 > 0"
    using observe_more [OF assms(5) g2 _ _ r2] assms(7) by (auto simp: default_delta_def)
  have "\<forall>s \<in> set (spans_of (map (\<lambda>(s, v). Observe s v) later)). 0 < sp_timestamp s"
    using assms(5) by (auto simp: spans_of_map)
  then have ok3: "acc_ok a3" using run_view [OF assms(1) _ _ _ r2] ok2 by blast
  have row: "trace_row t db' = merge_trace enc dec t d3 n2 (trace_row t db2)"
    using flush_row [OF ok3 _ f2, of t] d3 ok2 by (simp add: delta_empty_def)
  have "0 \<le> num_i64 (trace_row t db2) ''start_ts''" using st2 by (simp add: starts_ok_def)
  then have "num_i64 (trace_row t db') ''start_ts'' = 0"
    unfolding row by (simp add: merge_trace_start(1) Let_def d3(3) i64_max_def)
  then show ?thesis unfolding row by (simp add: merge_trace_start(2) sat_sub_i64_def)
qed

theorem later_flush_zeroes_start_witness:
  "num_i64 (trace_row ''t'' (snd (trace_run demo_enc (\<lambda>x. Some (demo_dec [] x)) default_apm_config
     ([Observe w_first demo_envelope] @ [Flush 5 5] @ map (\<lambda>(s, v). Observe s v) [(w_second, demo_envelope)] @ [Flush 6 6])
     trace_acc_new empty_db))) ''start_ts'' = 0"
proof -
  have "\<forall>s \<in> set (spans_of [Observe w_first demo_envelope]). 0 < sp_timestamp s" "0 \<le> num_i64 (trace_row ''t'' empty_db) ''start_ts''"
    "\<forall>(s, v) \<in> set [(w_second, demo_envelope)]. 0 < sp_timestamp s" "''t'' \<in> sp_trace_id ` set (spans_of [Observe w_first demo_envelope])"
    "''t'' \<in> (\<lambda>(s, v). sp_trace_id s) ` set [(w_second, demo_envelope)]"
    "card (sp_trace_id ` set (spans_of [Observe w_first demo_envelope])) \<le> ac_max_live_traces default_apm_config" "ob_faults empty_db = []"
    by (simp_all add: w_defs trace_row_def first_row_def empty_db_def null_row_def num_i64_def default_apm_config_def)
  note h = this
  show ?thesis
    using later_flush_zeroes_start [of "\<lambda>x. Some (demo_dec [] x)" demo_enc, OF _ h(7,2,1,3,4,5,6) prod.collapse [symmetric], of 5 5 6 6]
    unfolding demo_codec by (rule conjunct1) (rule refl)
qed

end
