(* ===== verification/Red_Samples.thy ===== *)
theory Red_Samples
  imports Observation "HOL-Library.Multiset"
begin

text \<open>
  \<^verbatim>\<open>crates/dataplane-apm/src/red.rs\<close>: latency samples of spans and edges grouped by minute, and the
  statistics of the closed minutes. Percentages are whole numbers; the rank the code computes in
  floating point (\<^verbatim>\<open>(p / 100.0 * n as f64).ceil()\<close>, at most 20000 samples) is the exact one there,
  so it is computed on integers. Times are far from the ends of \<^verbatim>\<open>i64\<close>.
\<close>

definition MICROS_PER_SEC :: int where "MICROS_PER_SEC = 1000000"
definition DEFAULT_GROUP_SAMPLE_CAP :: nat where "DEFAULT_GROUP_SAMPLE_CAP = 20000"

type_synonym group_key = "int \<times> string \<times> string \<times> string \<times> string"

record group_acc =
  ga_count :: nat
  ga_sum :: int
  ga_max :: int
  ga_samples :: "int list"

record red_samples =
  rd_cap :: nat
  rd_service :: "(group_key, group_acc) btmap"
  rd_edge :: "(group_key, group_acc) btmap"
  rd_dropped :: nat

record group_stats =
  gs_bucket_start :: int
  gs_src_or_service :: string
  gs_dst_or_operation :: string
  gs_span_kind :: string
  gs_status :: string
  gs_count :: nat
  gs_errors :: nat
  gs_duration_sum :: int
  gs_duration_max :: int
  gs_samples :: "int list"

definition red_new :: "nat \<Rightarrow> red_samples" where
  "red_new cap = \<lparr>rd_cap = max cap 1, rd_service = [], rd_edge = [], rd_dropped = 0\<rparr>"

text \<open>One group takes one sample; beyond the cap the sample is dropped, the count and the sum are not.\<close>

definition add_sample :: "nat \<Rightarrow> int \<Rightarrow> group_acc \<Rightarrow> group_acc \<times> bool" where
  "add_sample cap d a =
     (let room = length (ga_samples a) < cap in
      (\<lparr>ga_count = sat_add64 (ga_count a) 1, ga_sum = sat_add_i64 (ga_sum a) d, ga_max = max (ga_max a) d,
        ga_samples = (if room then ga_samples a @ [d] else ga_samples a)\<rparr>, room))"

definition empty_group :: group_acc where
  "empty_group = \<lparr>ga_count = 0, ga_sum = 0, ga_max = 0, ga_samples = []\<rparr>"

definition observe_in ::
    "nat \<Rightarrow> group_key \<Rightarrow> int \<Rightarrow> (group_key, group_acc) btmap \<Rightarrow> (group_key, group_acc) btmap \<times> bool" where
  "observe_in cap k d m =
     (let (a, kept) = add_sample cap d (unwrap_or (bt_get m k) empty_group) in (bt_insert k a m, kept))"

definition count_drop :: "bool \<Rightarrow> nat \<Rightarrow> nat" where
  "count_drop kept n = (if kept then n else sat_add64 n 1)"

definition observe_span :: "int \<Rightarrow> string \<Rightarrow> string \<Rightarrow> string \<Rightarrow> string \<Rightarrow> int \<Rightarrow> red_samples \<Rightarrow> red_samples" where
  "observe_span bucket service operation kind status d r =
     (let (m, kept) = observe_in (rd_cap r) (bucket, service, operation, kind, status) d (rd_service r)
      in r\<lparr>rd_service := m, rd_dropped := count_drop kept (rd_dropped r)\<rparr>)"

definition observe_edge_sample :: "int \<Rightarrow> string \<Rightarrow> string \<Rightarrow> string \<Rightarrow> string \<Rightarrow> int \<Rightarrow> red_samples \<Rightarrow> red_samples" where
  "observe_edge_sample bucket src dst kind status d r =
     (let (m, kept) = observe_in (rd_cap r) (bucket, src, dst, kind, status) d (rd_edge r)
      in r\<lparr>rd_edge := m, rd_dropped := count_drop kept (rd_dropped r)\<rparr>)"

definition stats_of :: "group_key \<times> group_acc \<Rightarrow> group_stats" where
  "stats_of g =
     (let ((bucket, a, b, kind, status), acc) = g in
      \<lparr>gs_bucket_start = bucket, gs_src_or_service = a, gs_dst_or_operation = b, gs_span_kind = kind, gs_status = status,
       gs_count = ga_count acc, gs_errors = 0, gs_duration_sum = ga_sum acc, gs_duration_max = ga_max acc,
       gs_samples = sort (ga_samples acc)\<rparr>)"

definition bucket_closed :: "int \<Rightarrow> group_key \<Rightarrow> bool" where
  "bucket_closed now k \<longleftrightarrow> fst k + 60 * MICROS_PER_SEC \<le> now"

definition drain_closed_groups ::
    "int \<Rightarrow> (group_key, group_acc) btmap \<Rightarrow> group_stats list \<times> (group_key, group_acc) btmap" where
  "drain_closed_groups now m =
     (map stats_of (filter (\<lambda>(k, _). bucket_closed now k) m), filter (\<lambda>(k, _). \<not> bucket_closed now k) m)"

record closed_samples =
  cl_service :: "group_stats list"
  cl_edge :: "group_stats list"

definition take_closed :: "int \<Rightarrow> red_samples \<Rightarrow> closed_samples \<times> red_samples" where
  "take_closed now r =
     (let (service, ms) = drain_closed_groups now (rd_service r); (edge, me) = drain_closed_groups now (rd_edge r)
      in (\<lparr>cl_service = service, cl_edge = edge\<rparr>, r\<lparr>rd_service := ms, rd_edge := me\<rparr>))"

definition groups :: "red_samples \<Rightarrow> nat" where
  "groups r = length (rd_service r) + length (rd_edge r)"

text \<open>The nearest rank: the smallest position that covers \<open>p\<close> percent of the sorted samples.\<close>

definition nearest_rank :: "nat \<Rightarrow> nat \<Rightarrow> nat" where
  "nearest_rank p n = max ((p * n + 99) div 100) 1"

definition percentile :: "nat \<Rightarrow> int list \<Rightarrow> int option" where
  "percentile p xs =
     (if xs = [] then None
      else let i = nearest_rank p (length xs) - 1 in if i < length xs then Some (sort xs ! i) else None)"

definition stats_avg :: "group_stats \<Rightarrow> int option" where
  "stats_avg g = (if gs_count g = 0 then None else Some (tdiv (gs_duration_sum g) (int (gs_count g))))"

section \<open>Percentiles\<close>

lemma count_split: "length (filter P xs) = length (filter P (take i xs)) + length (filter P (drop i xs))"
proof -
  have "filter P xs = filter P (take i xs) @ filter P (drop i xs)" by (simp flip: filter_append)
  then show ?thesis by simp
qed

lemma sorted_count_le:
  assumes "sorted xs" "i < length xs"
  shows "i < length (filter (\<lambda>x. x \<le> xs ! i) xs)"
proof -
  have "x \<le> xs ! i" if x: "x \<in> set (take (Suc i) xs)" for x
  proof -
    obtain j where "j < Suc i" "x = xs ! j" using x assms(2) by (auto simp: in_set_conv_nth)
    then show ?thesis using assms sorted_nth_mono [of xs j i] by simp
  qed
  then have "filter (\<lambda>x. x \<le> xs ! i) (take (Suc i) xs) = take (Suc i) xs" by (simp add: filter_id_conv)
  then have "length (filter (\<lambda>x. x \<le> xs ! i) (take (Suc i) xs)) = Suc i" using assms(2) by simp
  then show ?thesis using count_split [of "\<lambda>x. x \<le> xs ! i" xs "Suc i"] by simp
qed

lemma sorted_count_less:
  assumes "sorted xs" "i < length xs"
  shows "length (filter (\<lambda>x. x < xs ! i) xs) \<le> i"
proof -
  have "\<not> x < xs ! i" if x: "x \<in> set (drop i xs)" for x
  proof -
    obtain j where j: "j < length xs - i" "x = xs ! (i + j)" using x by (auto simp: in_set_conv_nth)
    then have "xs ! i \<le> xs ! (i + j)" using assms sorted_nth_mono [of xs i "i + j"] by simp
    then show ?thesis using j(2) by simp
  qed
  then have "filter (\<lambda>x. x < xs ! i) (drop i xs) = []" by (simp add: filter_empty_conv)
  moreover have "length (filter (\<lambda>x. x < xs ! i) (take i xs)) \<le> i"
    by (rule order_trans [OF length_filter_le]) simp
  ultimately show ?thesis using count_split [of "\<lambda>x. x < xs ! i" xs i] by simp
qed

lemma count_sort: "length (filter P (sort xs)) = length (filter P (xs :: int list))"
proof -
  have "mset (filter P (sort xs)) = mset (filter P xs)" by simp
  then show ?thesis by (rule mset_eq_length)
qed

text \<open>A percentile is a sample, at least that share of the samples is not above it, and it is the smallest
  such sample: the samples below it are fewer. It exists as soon as there is a sample.\<close>

lemma percentile_exact:
  assumes "xs \<noteq> []" "0 < p" "p \<le> 100"
  shows "\<exists>v. percentile p xs = Some v \<and> v \<in> set xs \<and>
    p * length xs \<le> 100 * length (filter (\<lambda>x. x \<le> v) xs) \<and> 100 * length (filter (\<lambda>x. x < v) xs) < p * length xs"
proof -
  let ?n = "length xs"
  let ?i = "nearest_rank p ?n - 1"
  have n: "0 < ?n" using assms(1) by simp
  have "p * ?n \<le> 100 * ?n" using assms(3) by simp
  then have "(p * ?n + 99) div 100 \<le> ?n" by (simp add: div_le_mono [of _ "100 * ?n + 99" 100, THEN order_trans])
  then have "nearest_rank p ?n \<le> ?n" using n by (simp add: nearest_rank_def Suc_leI)
  then have i: "?i < ?n" using n by linarith
  have pn: "0 < p * ?n" using n assms(2) by simp
  then have "1 \<le> (p * ?n + 99) div 100" by (simp add: div_greater_zero_iff Suc_le_eq)
  then have r: "nearest_rank p ?n = (p * ?n + 99) div 100" by (simp add: nearest_rank_def)
  have cover: "p * ?n \<le> 100 * Suc ?i" "100 * ?i < p * ?n"
    using pn by (simp_all add: r, arith+)
  let ?v = "sort xs ! ?i"
  have s: "?i < length (sort xs)" using i by simp
  have "?i < length (filter (\<lambda>x. x \<le> ?v) (sort xs))" by (rule sorted_count_le [OF sorted_sort s])
  moreover have "length (filter (\<lambda>x. x < ?v) (sort xs)) \<le> ?i" by (rule sorted_count_less [OF sorted_sort s])
  ultimately have "p * ?n \<le> 100 * length (filter (\<lambda>x. x \<le> ?v) xs)" "100 * length (filter (\<lambda>x. x < ?v) xs) < p * ?n"
    using cover by (simp_all add: count_sort)
  moreover have "percentile p xs = Some ?v" using assms(1) i by (simp add: percentile_def Let_def)
  moreover have "?v \<in> set xs" using nth_mem [OF s] by simp
  ultimately show ?thesis by blast
qed

theorem percentile_exact_witness:
  "\<exists>v. percentile 95 [40, 10, 30, 20] = Some v \<and> v \<in> set [40, 10, 30, 20 :: int] \<and>
    95 * length [40, 10, 30, 20 :: int] \<le> 100 * length (filter (\<lambda>x. x \<le> v) [40, 10, 30, 20]) \<and>
    100 * length (filter (\<lambda>x. x < v) [40, 10, 30, 20]) < 95 * length [40, 10, 30, 20 :: int]"
  by (rule percentile_exact) simp_all

end
