(* ===== verification/Edge_Pairing.thy ===== *)
theory Edge_Pairing
  imports Obs_Db Red_Samples
begin

text \<open>
  \<^verbatim>\<open>crates/dataplane-apm/src/edge.rs\<close>: client spans are paired with the server spans they caused, and the
  pairs counted as calls between services by minute. A call without a partner becomes an edge to an
  unknown service once its minute is over. The resolver of unknown services is an argument that may
  change the state (it has caches). Spans arriving between the statements of one flush touch only the
  maps in memory and are not interleaved.
\<close>

definition EDGE_BUCKET_SECS :: int where "EDGE_BUCKET_SECS = 60"
definition PENDING_TTL_SECS :: int where "PENDING_TTL_SECS = 120"

type_synonym span_ref = "string \<times> string"

text \<open>The key of an edge: minute, source, target, kind, agent.\<close>

type_synonym edge_key = "int \<times> string \<times> string \<times> string \<times> string"

record edge_delta =
  ed_calls :: nat
  ed_errors :: nat
  ed_duration_sum :: int
  ed_duration_max :: int
  ed_data_id :: string
  ed_peer_host :: string
  ed_peer_port :: int
  ed_peer_pod :: string

definition default_edge_delta :: edge_delta where
  "default_edge_delta = \<lparr>ed_calls = 0, ed_errors = 0, ed_duration_sum = 0, ed_duration_max = 0, ed_data_id = [],
     ed_peer_host = [], ed_peer_port = 0, ed_peer_pod = []\<rparr>"

record pending_span =
  ps_service :: string
  ps_pod_name :: string
  ps_timestamp :: int
  ps_peer_host :: string
  ps_peer_port :: int
  ps_fallback_dst :: string
  ps_duration_micros :: int
  ps_status_code :: string
  ps_agent_id :: string
  ps_data_id :: string

definition span_attr :: "trace_span \<Rightarrow> string list \<Rightarrow> string" where
  "span_attr s ks =
     (case List.map_filter (\<lambda>k. filter_opt (\<lambda>v. v \<noteq> []) (bt_get (sp_attributes s) k)) ks of [] \<Rightarrow> [] | v # _ \<Rightarrow> v)"

definition pending_of :: "trace_span \<Rightarrow> data_envelope \<Rightarrow> pending_span" where
  "pending_of s v =
     (let peer_host = span_attr s [''server.address'', ''net.peer.name'', ''net.peer.ip''];
          peer_port = unwrap_or (parse_i64 (span_attr s [''server.port'', ''net.peer.port''])) 0
      in \<lparr>ps_service = sp_service s, ps_pod_name = unwrap_or (bt_get (sp_resource s) ''k8s.pod.name'') [],
          ps_timestamp = sp_timestamp s, ps_peer_host = peer_host, ps_peer_port = peer_port,
          ps_fallback_dst = (if peer_host = [] then ''unknown'' else ''unknown:'' @ peer_host),
          ps_duration_micros = duration_micros s, ps_status_code = sp_status_code s,
          ps_agent_id = dv_agent_id v, ps_data_id = dv_data_id v\<rparr>)"

record edge_acc =
  ea_capacity :: nat
  ea_samples :: red_samples
  ea_waiting_client :: "(span_ref, pending_span list) btmap"
  ea_waiting_server :: "(span_ref, pending_span) btmap"
  ea_recorded :: "(span_ref, int) btmap"
  ea_edges :: "(edge_key, edge_delta) btmap"
  ea_dropped :: nat
  ea_paired :: nat

definition edge_acc_new :: "nat \<Rightarrow> red_samples \<Rightarrow> edge_acc" where
  "edge_acc_new capacity samples = \<lparr>ea_capacity = max capacity 1, ea_samples = samples, ea_waiting_client = [],
     ea_waiting_server = [], ea_recorded = [], ea_edges = [], ea_dropped = 0, ea_paired = 0\<rparr>"

definition bucket_of :: "int \<Rightarrow> int" where
  "bucket_of ts = ts div (EDGE_BUCKET_SECS * 1000000) * EDGE_BUCKET_SECS * 1000000"

text \<open>One call added to an edge, or the edge begun with it.\<close>

definition add_call :: "pending_span \<Rightarrow> data_envelope \<Rightarrow> string \<Rightarrow> edge_delta option \<Rightarrow> edge_delta" where
  "add_call client v peer_pod old =
     (let e = unwrap_or old (default_edge_delta\<lparr>ed_data_id := dv_data_id v, ed_peer_host := ps_peer_host client,
            ed_peer_port := ps_peer_port client, ed_peer_pod := peer_pod\<rparr>);
          no_host = ed_peer_host e = []
      in e\<lparr>ed_calls := sat_add64 (ed_calls e) 1,
           ed_errors := (if ps_status_code client = ''error'' then sat_add64 (ed_errors e) 1 else ed_errors e),
           ed_duration_sum := sat_add_i64 (ed_duration_sum e) (ps_duration_micros client),
           ed_duration_max := max (ed_duration_max e) (ps_duration_micros client),
           ed_data_id := dv_data_id v,
           ed_peer_host := (if no_host then ps_peer_host client else ed_peer_host e),
           ed_peer_port := (if no_host then ps_peer_port client else ed_peer_port e),
           ed_peer_pod := (if ed_peer_pod e = [] then peer_pod else ed_peer_pod e)\<rparr>)"

text \<open>\<open>record_call\<close> is \<^verbatim>\<open>record\<close>: the span given is the one being observed, client or server.\<close>

definition record_call ::
    "trace_span \<Rightarrow> data_envelope \<Rightarrow> pending_span \<Rightarrow> pending_span option \<Rightarrow> edge_acc \<Rightarrow> bool \<times> edge_acc" where
  "record_call server v client paired a =
     (let client_key = (sp_trace_id server, sp_parent_span_id server) in
      if bt_get (ea_recorded a) client_key \<noteq> None then (False, a)
      else
        let (dst, peer_pod) = (case paired of Some s \<Rightarrow> (ps_service s, ps_pod_name s) | None \<Rightarrow> (ps_fallback_dst client, []));
            bucket = bucket_of (ps_timestamp client);
            key = (bucket, ps_service client, dst, ''server'', dv_agent_id v)
        in (True, a\<lparr>ea_recorded := bt_insert client_key (ps_timestamp client) (ea_recorded a),
             ea_edges := bt_insert key (add_call client v peer_pod (bt_get (ea_edges a) key)) (ea_edges a),
             ea_samples := observe_edge_sample bucket (ps_service client) dst ''server'' (ps_status_code client)
               (ps_duration_micros client) (ea_samples a),
             ea_paired := ea_paired a + 1\<rparr>))"

fun record_calls ::
    "trace_span \<Rightarrow> data_envelope \<Rightarrow> pending_span \<Rightarrow> pending_span list \<Rightarrow> edge_acc \<Rightarrow> bool \<times> edge_acc" where
  "record_calls s v client [] a = (False, a)"
| "record_calls s v client (x # xs) a =
     (let (p, a1) = record_call s v client (Some x) a; (q, a2) = record_calls s v client xs a1 in (p \<or> q, a2))"

definition pending_len :: "edge_acc \<Rightarrow> nat" where
  "pending_len a = length (ea_waiting_server a) + sum_list (map (\<lambda>(_, ss). length ss) (ea_waiting_client a))"

definition edges_dirty_len :: "edge_acc \<Rightarrow> nat" where
  "edges_dirty_len a = length (ea_edges a)"

text \<open>First what is too old, then, above the capacity, the oldest waiting clients.\<close>

definition expire :: "int \<Rightarrow> edge_acc \<Rightarrow> edge_acc" where
  "expire now a =
     (let cutoff = now - PENDING_TTL_SECS * 1000000;
          wc = filter (\<lambda>(_, ss). ss \<noteq> []) (map (\<lambda>(k, ss). (k, filter (\<lambda>s. ps_timestamp s \<ge> cutoff) ss)) (ea_waiting_client a));
          ws = filter (\<lambda>(_, s). ps_timestamp s \<ge> cutoff) (ea_waiting_server a);
          rec = filter (\<lambda>(_, ts). ts \<ge> cutoff) (ea_recorded a)
      in a\<lparr>ea_waiting_client := wc, ea_waiting_server := ws, ea_recorded := rec,
           ea_dropped := ea_dropped a + (length (ea_waiting_server a) - length ws) + (length (ea_recorded a) - length rec)\<rparr>)"

definition limit_pending :: "edge_acc \<Rightarrow> edge_acc" where
  "limit_pending a =
     (if pending_len a \<le> ea_capacity a then a
      else
        let oldest = map fst (take (pending_len a - ea_capacity a) (sort_key (\<lambda>(_, s). ps_timestamp s) (ea_waiting_server a)))
        in a\<lparr>ea_waiting_server := filter (\<lambda>(k, _). k \<notin> set oldest) (ea_waiting_server a),
             ea_dropped := ea_dropped a + length oldest\<rparr>)"

definition evict :: "int \<Rightarrow> edge_acc \<Rightarrow> edge_acc" where
  "evict now a = limit_pending (expire now a)"

definition observe_client :: "trace_span \<Rightarrow> data_envelope \<Rightarrow> edge_acc \<Rightarrow> bool \<times> edge_acc" where
  "observe_client s v a =
     (let key = (sp_trace_id s, sp_span_id s); info = pending_of s v;
          (paired, a1) = (case bt_get (ea_waiting_client a) key of
             Some servers \<Rightarrow> record_calls s v info servers (a\<lparr>ea_waiting_client := bt_remove key (ea_waiting_client a)\<rparr>)
           | None \<Rightarrow> (False, a))
      in (paired, a1\<lparr>ea_waiting_server := bt_insert key info (ea_waiting_server a1)\<rparr>))"

definition observe_server :: "trace_span \<Rightarrow> data_envelope \<Rightarrow> edge_acc \<Rightarrow> bool \<times> edge_acc" where
  "observe_server s v a =
     (let key = (sp_trace_id s, sp_parent_span_id s); info = pending_of s v in
      case bt_get (ea_waiting_server a) key of
        Some client \<Rightarrow> record_call s v client (Some info) (a\<lparr>ea_waiting_server := bt_remove key (ea_waiting_server a)\<rparr>)
      | None \<Rightarrow> (False, a\<lparr>ea_waiting_client :=
          bt_insert key (unwrap_or (bt_get (ea_waiting_client a) key) [] @ [info]) (ea_waiting_client a)\<rparr>))"

definition edge_observe :: "trace_span \<Rightarrow> data_envelope \<Rightarrow> edge_acc \<Rightarrow> bool \<times> edge_acc" where
  "edge_observe s v a =
     (if sp_kind s = ''client''
      then let (p, a1) = observe_client s v a in (p, evict (sp_timestamp s) a1)
      else if sp_kind s = ''server'' \<and> sp_parent_span_id s \<noteq> []
      then let (p, a1) = observe_server s v a in (p, evict (sp_timestamp s) a1)
      else (False, a))"

section \<open>Flush\<close>

definition fallback_edge_key :: "pending_span \<Rightarrow> edge_key" where
  "fallback_edge_key c = (bucket_of (ps_timestamp c), ps_service c, ps_fallback_dst c, ''server'', ps_agent_id c)"

definition fallback_edge_delta :: "pending_span \<Rightarrow> edge_delta" where
  "fallback_edge_delta c = default_edge_delta\<lparr>ed_calls := 1, ed_errors := (if ps_status_code c = ''error'' then 1 else 0),
     ed_duration_sum := ps_duration_micros c, ed_duration_max := ps_duration_micros c, ed_data_id := ps_data_id c,
     ed_peer_host := ps_peer_host c, ed_peer_port := ps_peer_port c\<rparr>"

text \<open>The waiting clients whose minute is over, each once unless it was counted.\<close>

fun give_up ::
    "(span_ref \<times> pending_span) list \<Rightarrow> edge_acc \<Rightarrow> (edge_key \<times> edge_delta) list \<times> edge_acc" where
  "give_up [] a = ([], a)"
| "give_up ((k, c) # cs) a =
     (let a1 = a\<lparr>ea_waiting_server := bt_remove k (ea_waiting_server a)\<rparr> in
      if bt_get (ea_recorded a1) k \<noteq> None then give_up cs a1
      else
        let a2 = a1\<lparr>ea_recorded := bt_insert k (ps_timestamp c) (ea_recorded a1),
               ea_samples := observe_edge_sample (bucket_of (ps_timestamp c)) (ps_service c) (ps_fallback_dst c) ''server''
                 (ps_status_code c) (ps_duration_micros c) (ea_samples a1)\<rparr>;
            (batch, a3) = give_up cs a2
        in ((fallback_edge_key c, fallback_edge_delta c) # batch, a3))"

definition take_edges :: "int \<Rightarrow> edge_acc \<Rightarrow> (edge_key \<times> edge_delta) list \<times> edge_acc" where
  "take_edges now a =
     (let closed = filter (\<lambda>(_, c). ps_timestamp c + EDGE_BUCKET_SECS * 1000000 \<le> now) (ea_waiting_server a);
          (batch, a1) = give_up closed a
      in (batch @ ea_edges a1, a1\<lparr>ea_edges := []\<rparr>))"

definition edge_key_row :: "edge_key \<Rightarrow> (string \<times> sql_value) list" where
  "edge_key_row k =
     (let (bucket, src, dst, kind, agent) = k in
      [(''bucket_start'', SqlInteger bucket), (''src_service'', SqlText src), (''dst_service'', SqlText dst),
       (''span_kind'', SqlText kind), (''agent_id'', SqlText agent)])"

definition merge_edge :: "edge_key \<Rightarrow> edge_delta \<Rightarrow> sql_row \<Rightarrow> sql_row" where
  "merge_edge k d r =
     row_of (edge_key_row k @
       [(''calls'', SqlInteger (num_i64 r ''calls'' + u64_as_i64 (ed_calls d))),
        (''errors'', SqlInteger (num_i64 r ''errors'' + u64_as_i64 (ed_errors d))),
        (''duration_sum'', SqlInteger (num_i64 r ''duration_sum'' + ed_duration_sum d)),
        (''duration_max'', SqlInteger (max (num_i64 r ''duration_max'') (ed_duration_max d))),
        (''data_id'', SqlText (case r ''data_id'' of SqlText s \<Rightarrow> if s \<noteq> [] then s else ed_data_id d | _ \<Rightarrow> ed_data_id d))])"

definition has_key :: "edge_key \<Rightarrow> sql_row \<Rightarrow> bool" where
  "has_key k r \<longleftrightarrow> same_key (primary_key EdgeSummary) r (row_of (edge_key_row k))"

definition flush_edge :: "edge_key \<Rightarrow> edge_delta \<Rightarrow> ('x, unit) obs" where
  "flush_edge k d =
     ob_bind (ob_select EdgeSummary (first_row (has_key k))) (\<lambda>r.
       ob_change EdgeSummary (\<lambda>rs. (replace_row (primary_key EdgeSummary) (merge_edge k d r) rs, 1)))"

type_synonym 'x resolver = "string \<Rightarrow> int \<Rightarrow> string \<Rightarrow> ('x, string option) obs"

definition resolve_key :: "'x resolver option \<Rightarrow> edge_key \<Rightarrow> edge_delta \<Rightarrow> 'x obs_db_scheme \<Rightarrow> edge_key \<times> 'x obs_db_scheme" where
  "resolve_key res k d db =
     (let (bucket, src, dst, kind, agent) = k in
      if \<not> starts_with dst ''unknown'' then (k, db)
      else case res of
        None \<Rightarrow> (k, db)
      | Some f \<Rightarrow> (case f (ed_peer_host d) (ed_peer_port d) (ed_peer_pod d) db of
            (Inr (Some service), db') \<Rightarrow> ((bucket, src, service, kind, agent), db')
          | (_, db') \<Rightarrow> (k, db')))"

fun write_edges ::
    "'x resolver option \<Rightarrow> (edge_key \<times> edge_delta) list \<Rightarrow> nat \<Rightarrow> 'x obs_db_scheme \<Rightarrow> nat \<times> 'x obs_db_scheme" where
  "write_edges res [] n db = (n, db)"
| "write_edges res ((k, d) # es) n db =
     (let (k', db1) = resolve_key res k d db in
      case flush_edge k' d db1 of
        (Inl _, db2) \<Rightarrow> write_edges res es n db2
      | (Inr _, db2) \<Rightarrow> write_edges res es (n + 1) db2)"

definition edge_flush ::
    "'x resolver option \<Rightarrow> int \<Rightarrow> edge_acc \<Rightarrow> 'x obs_db_scheme \<Rightarrow> nat \<times> edge_acc \<times> 'x obs_db_scheme" where
  "edge_flush res now a db =
     (let (batch, a') = take_edges now a; (written, db') = write_edges res batch 0 db in (written, a', db'))"

section \<open>Calls in the table\<close>

definition row_calls :: "sql_row list \<Rightarrow> int" where
  "row_calls rs = sum_list (map (\<lambda>r. num_i64 r ''calls'') rs)"

definition keyed :: "sql_row list \<Rightarrow> bool" where
  "keyed rs \<longleftrightarrow> distinct (map (\<lambda>r. map r (primary_key EdgeSummary)) rs)"

lemma same_key_map: "same_key ks a b \<longleftrightarrow> map a ks = map b ks"
  by (auto simp: same_key_def list_all_iff)

lemma row_calls_filter:
  assumes "keyed rs"
  shows "row_calls (filter (\<lambda>r. \<not> same_key (primary_key EdgeSummary) r x) rs) =
    row_calls rs - num_i64 (first_row (\<lambda>r. same_key (primary_key EdgeSummary) r x) rs) ''calls''"
  using assms
proof (induction rs)
  case Nil
  then show ?case by (simp add: row_calls_def first_row_def null_row_def num_i64_def)
next
  case (Cons r rs)
  have k: "keyed rs" using Cons.prems by (simp add: keyed_def)
  show ?case
  proof (cases "same_key (primary_key EdgeSummary) r x")
    case True
    then have "\<not> same_key (primary_key EdgeSummary) r' x" if "r' \<in> set rs" for r'
    proof -
      have "map r (primary_key EdgeSummary) \<notin> (\<lambda>r. map r (primary_key EdgeSummary)) ` set rs"
        using Cons.prems unfolding keyed_def list.map distinct.simps set_map by simp
      then have "map r' (primary_key EdgeSummary) \<noteq> map r (primary_key EdgeSummary)" using that by (metis imageI)
      then show ?thesis using True unfolding same_key_map by metis
    qed
    then have "filter (\<lambda>r. \<not> same_key (primary_key EdgeSummary) r x) rs = rs" by (simp add: filter_id_conv)
    then show ?thesis using True by (simp add: row_calls_def first_row_def)
  next
    case False
    then show ?thesis using Cons.IH [OF k] by (simp add: row_calls_def first_row_def)
  qed
qed

lemma keyed_replace:
  assumes "keyed rs"
  shows "keyed (replace_row (primary_key EdgeSummary) new rs)"
proof -
  have "distinct (map (\<lambda>r. map r (primary_key EdgeSummary)) (filter (\<lambda>r. \<not> same_key (primary_key EdgeSummary) r new) rs))"
    using assms unfolding keyed_def by (rule distinct_map_filter)
  then show ?thesis by (auto simp: keyed_def replace_row_def same_key_map)
qed

lemma merge_edge_key: "same_key (primary_key EdgeSummary) r (merge_edge k d x) \<longleftrightarrow> has_key k r"
  by (cases k) (simp add: has_key_def same_key_def primary_key_def merge_edge_def edge_key_row_def row_of_def)

lemma merge_edge_calls: "num_i64 (merge_edge k d r) ''calls'' = num_i64 r ''calls'' + u64_as_i64 (ed_calls d)"
  by (cases k) (simp add: num_i64_def merge_edge_def edge_key_row_def row_of_def)

lemma flush_edge_calls:
  assumes "ob_faults db = []" "keyed (ob_rows db EdgeSummary)"
  shows "\<exists>db'. flush_edge k d db = (Inr (), db') \<and> ob_faults db' = [] \<and> keyed (ob_rows db' EdgeSummary) \<and>
    row_calls (ob_rows db' EdgeSummary) = row_calls (ob_rows db EdgeSummary) + u64_as_i64 (ed_calls d)"
proof -
  let ?rs = "ob_rows db EdgeSummary"
  let ?new = "merge_edge k d (first_row (has_key k) ?rs)"
  have "row_calls (replace_row (primary_key EdgeSummary) ?new ?rs) =
      row_calls (filter (\<lambda>r. \<not> same_key (primary_key EdgeSummary) r ?new) ?rs) + num_i64 ?new ''calls''"
    by (simp add: replace_row_def row_calls_def)
  also have "\<dots> = row_calls ?rs + u64_as_i64 (ed_calls d)"
    using row_calls_filter [OF assms(2), of ?new] by (simp add: merge_edge_key merge_edge_calls cong: filter_cong)
  finally show ?thesis
    using assms keyed_replace [OF assms(2)] by (simp add: flush_edge_def ob_simps)
qed

lemma write_edges_calls:
  assumes "ob_faults db = []" "keyed (ob_rows db EdgeSummary)" "write_edges None es n db = (n', db')"
  shows "n' = n + length es \<and> ob_faults db' = [] \<and> keyed (ob_rows db' EdgeSummary) \<and>
    row_calls (ob_rows db' EdgeSummary) = row_calls (ob_rows db EdgeSummary) + sum_list (map (\<lambda>(_, d). u64_as_i64 (ed_calls d)) es)"
  using assms
proof (induction es arbitrary: n db)
  case (Cons e es)
  obtain k d where e: "e = (k, d)" by fastforce
  obtain db1 where f: "flush_edge k d db = (Inr (), db1)" "ob_faults db1 = []" "keyed (ob_rows db1 EdgeSummary)"
    "row_calls (ob_rows db1 EdgeSummary) = row_calls (ob_rows db EdgeSummary) + u64_as_i64 (ed_calls d)"
    using flush_edge_calls [OF Cons.prems(1,2)] by blast
  have "resolve_key None k d db = (k, db)" by (simp add: resolve_key_def split: prod.split)
  then have "write_edges None es (n + 1) db1 = (n', db')" using Cons.prems(3) e f(1) by simp
  from Cons.IH [OF f(2,3) this] show ?case by (simp add: e f(4))
qed simp

section \<open>The order of arrival\<close>

text \<open>A client span and the server span it caused, close enough in time to be paired.\<close>

definition partners :: "trace_span \<Rightarrow> trace_span \<Rightarrow> bool" where
  "partners c s \<longleftrightarrow> sp_kind c = ''client'' \<and> sp_kind s = ''server'' \<and> sp_trace_id s = sp_trace_id c \<and>
     sp_parent_span_id s = sp_span_id c \<and> sp_span_id c \<noteq> [] \<and> sp_parent_span_id c \<noteq> sp_span_id c \<and>
     sp_timestamp c \<ge> sp_timestamp s - PENDING_TTL_SECS * 1000000 \<and> sp_timestamp s \<ge> sp_timestamp c - PENDING_TTL_SECS * 1000000"

definition counted_calls :: "trace_span list \<Rightarrow> data_envelope \<Rightarrow> int \<Rightarrow> nat \<Rightarrow> obs_db \<Rightarrow> int" where
  "counted_calls spans v now capacity db =
     (let a = fold (\<lambda>s a. snd (edge_observe s v a)) spans (edge_acc_new capacity (red_new DEFAULT_GROUP_SAMPLE_CAP));
          (_, _, db') = edge_flush None now a db
      in row_calls (ob_rows db' EdgeSummary))"

lemma pending_of_sel [simp]: "ps_timestamp (pending_of s v) = sp_timestamp s"
  by (simp add: pending_of_def Let_def)

lemmas pairing_run = partners_def edge_observe_def observe_client_def observe_server_def edge_acc_new_def Let_def record_call_def
  evict_def expire_def limit_pending_def pending_len_def bt_get_def bt_remove_def take_edges_def add_call_def
  default_edge_delta_def sat_add64_def u64_max_def PENDING_TTL_SECS_def fallback_edge_delta_def

lemma client_first_edges:
  assumes "partners c s"
  shows "map (\<lambda>(_, d). ed_calls d)
    (fst (take_edges now (snd (edge_observe s v (snd (edge_observe c v (edge_acc_new capacity samples))))))) = [1]"
  using assms by (simp add: pairing_run)

lemma server_first_edges:
  assumes "partners c s" "sp_timestamp c + EDGE_BUCKET_SECS * 1000000 \<le> now"
  shows "map (\<lambda>(_, d). ed_calls d)
    (fst (take_edges now (snd (edge_observe c v (snd (edge_observe s v (edge_acc_new capacity samples))))))) = [1, 1]"
  using assms by (simp add: pairing_run) (metis)

lemma batch_calls: "map (\<lambda>(_, d). ed_calls d) es = ns \<Longrightarrow>
    sum_list (map (\<lambda>(_, d). u64_as_i64 (ed_calls d)) es) = sum_list (map u64_as_i64 ns)"
  by (induction es arbitrary: ns) auto

lemma counted_calls_eq:
  assumes "ob_faults db = []" "ob_rows db EdgeSummary = []"
    and "map (\<lambda>(_, d). ed_calls d) (fst (take_edges now (fold (\<lambda>s a. snd (edge_observe s v a)) spans
      (edge_acc_new capacity (red_new DEFAULT_GROUP_SAMPLE_CAP))))) = ns"
  shows "counted_calls spans v now capacity db = sum_list (map u64_as_i64 ns)"
proof -
  let ?a = "fold (\<lambda>s a. snd (edge_observe s v a)) spans (edge_acc_new capacity (red_new DEFAULT_GROUP_SAMPLE_CAP))"
  obtain batch a' where t: "take_edges now ?a = (batch, a')" by fastforce
  obtain n db' where w: "write_edges None batch 0 db = (n, db')" by fastforce
  have "row_calls (ob_rows db' EdgeSummary) = sum_list (map (\<lambda>(_, d). u64_as_i64 (ed_calls d)) batch)"
    using write_edges_calls [OF assms(1) _ w] assms(2) by (simp add: keyed_def row_calls_def)
  then show ?thesis using batch_calls [of batch ns] assms(3) by (simp add: counted_calls_def edge_flush_def t w)
qed

section \<open>Properties\<close>

text \<open>A call is counted once when its client span arrives first, and twice when the server span does: the late
  client is paired under the wrong reference, its own parent, and stays in the waiting list, so that
  the flush after its minute counts the same call again as one to an unknown service.\<close>

lemma arrival_order_counts:
  assumes "partners c s" "sp_timestamp c + EDGE_BUCKET_SECS * 1000000 \<le> now" "ob_faults db = []" "ob_rows db EdgeSummary = []"
  shows "counted_calls [c, s] v now capacity db = 1 \<and> counted_calls [s, c] v now capacity db = 2"
proof -
  have "u64_as_i64 1 = 1" by (simp add: u64_as_i64_def)
  then show ?thesis
    using counted_calls_eq [OF assms(3,4), of now v "[c, s]" capacity "[1]"] client_first_edges [OF assms(1), of now v capacity]
      counted_calls_eq [OF assms(3,4), of now v "[s, c]" capacity "[1, 1]"] server_first_edges [OF assms(1,2), of v capacity]
    by simp
qed

definition w_client :: trace_span where
  "w_client = (demo_span ''p'' ''gw'' 1000 ''ok'')\<lparr>sp_kind := ''client'', sp_span_id := ''c''\<rparr>"

definition w_server :: trace_span where
  "w_server = demo_span ''c'' ''order'' 1200 ''ok''"

theorem arrival_order_counts_witness:
  "counted_calls [w_client, w_server] demo_envelope 100000000 10 empty_db = 1 \<and>
   counted_calls [w_server, w_client] demo_envelope 100000000 10 empty_db = 2"
  by (rule arrival_order_counts)
    (simp_all add: partners_def w_client_def w_server_def demo_span_def empty_db_def PENDING_TTL_SECS_def EDGE_BUCKET_SECS_def)

end
