(* ===== verification/Ip_Addr.thy ===== *)
theory Ip_Addr
  imports Prelude "HOL-Library.Word"
begin

unbundle bit_operations_syntax

text \<open>
  Rust's \<^verbatim>\<open>IpAddr::from_str\<close>, which the service name mappings of \<^verbatim>\<open>crates/dataplane-apm/src/alias.rs\<close>
  rely on, and their \<^verbatim>\<open>is_valid_cidr\<close> and \<^verbatim>\<open>cidr_contains\<close>. An IPv6 address may end in a dotted IPv4
  address and contain one double colon, which stands for at least one group.
\<close>

datatype ip_addr = V4 "32 word" | V6 "128 word"

definition hex_digit :: "char \<Rightarrow> nat option" where
  "hex_digit c =
     (let n = (of_char c :: nat) in
      if 48 \<le> n \<and> n \<le> 57 then Some (n - 48) else if 97 \<le> n \<and> n \<le> 102 then Some (n - 87)
      else if 65 \<le> n \<and> n \<le> 70 then Some (n - 55) else None)"

fun hex_acc :: "nat \<Rightarrow> string \<Rightarrow> nat option" where
  "hex_acc acc [] = Some acc"
| "hex_acc acc (c # cs) = (case hex_digit c of None \<Rightarrow> None | Some d \<Rightarrow> hex_acc (16 * acc + d) cs)"

fun all_some :: "'a option list \<Rightarrow> 'a list option" where
  "all_some [] = Some []"
| "all_some (None # xs) = None"
| "all_some (Some x # xs) = map_option ((#) x) (all_some xs)"

definition parse_octet :: "string \<Rightarrow> nat option" where
  "parse_octet s =
     (if length s > 3 \<or> (length s > 1 \<and> hd s = CHR ''0'') then None else filter_opt (\<lambda>n. n \<le> 255) (parse_digits s))"

definition parse_ipv4 :: "string \<Rightarrow> nat option" where
  "parse_ipv4 s =
     (case all_some (map parse_octet (split_on CHR ''.'' s)) of
        Some [a, b, c, d] \<Rightarrow> Some (((a * 256 + b) * 256 + c) * 256 + d)
      | _ \<Rightarrow> None)"

definition parse_group :: "string \<Rightarrow> nat option" where
  "parse_group s = (if s = [] \<or> length s > 4 then None else hex_acc 0 s)"

text \<open>The groups between colons; the last piece may be a dotted address worth two groups.\<close>

definition parse_groups :: "bool \<Rightarrow> string \<Rightarrow> nat list option" where
  "parse_groups dotted s =
     (if s = [] then Some []
      else
        let ws = split_on CHR '':'' s; front = butlast ws; z = last ws in
        case all_some (map parse_group front) of
          None \<Rightarrow> None
        | Some gs \<Rightarrow>
            (case parse_group z of
               Some g \<Rightarrow> Some (gs @ [g])
             | None \<Rightarrow> if dotted then map_option (\<lambda>a. gs @ [a div 65536, a mod 65536]) (parse_ipv4 z) else None))"

definition groups_value :: "nat list \<Rightarrow> nat" where
  "groups_value gs = foldl (\<lambda>v g. v * 65536 + g) 0 gs"

definition parse_ipv6 :: "string \<Rightarrow> nat option" where
  "parse_ipv6 s =
     (case find_str ''::'' s of
        None \<Rightarrow> (case parse_groups True s of Some gs \<Rightarrow> if length gs = 8 then Some (groups_value gs) else None | None \<Rightarrow> None)
      | Some i \<Rightarrow>
          (case (parse_groups False (take i s), parse_groups True (drop (i + 2) s)) of
             (Some h, Some t) \<Rightarrow>
               if length h + length t \<le> 7 then Some (groups_value (h @ replicate (8 - length h - length t) 0 @ t)) else None
           | _ \<Rightarrow> None))"

definition parse_ip :: "string \<Rightarrow> ip_addr option" where
  "parse_ip s =
     (case parse_ipv4 s of
        Some a \<Rightarrow> Some (V4 (word_of_nat a))
      | None \<Rightarrow> map_option (\<lambda>a. V6 (word_of_nat a)) (parse_ipv6 s))"

text \<open>\<^verbatim>\<open>str::parse::<u8>\<close> and \<^verbatim>\<open>split_once('/')\<close>.\<close>

definition parse_u8 :: "string \<Rightarrow> nat option" where
  "parse_u8 s =
     filter_opt (\<lambda>n. n < 256) (parse_digits (case s of c # cs \<Rightarrow> if c = CHR ''+'' then cs else s | [] \<Rightarrow> s))"

definition split_once :: "char \<Rightarrow> string \<Rightarrow> (string \<times> string) option" where
  "split_once d s = (case find_str [d] s of None \<Rightarrow> None | Some i \<Rightarrow> Some (take i s, drop (i + 1) s))"

definition is_valid_cidr :: "string \<Rightarrow> bool" where
  "is_valid_cidr s =
     (case split_once CHR ''/'' s of
        None \<Rightarrow> False
      | Some (addr, len) \<Rightarrow>
          (case (parse_ip (trim addr), parse_u8 (trim len)) of
             (Some (V4 _), Some n) \<Rightarrow> n \<le> 32
           | (Some (V6 _), Some n) \<Rightarrow> n \<le> 128
           | _ \<Rightarrow> False))"

definition net_mask :: "nat \<Rightarrow> 'a::len word" where
  "net_mask n = (if n = 0 then 0 else push_bit (LENGTH('a) - n) (- 1))"

definition cidr_contains :: "string \<Rightarrow> string \<Rightarrow> bool" where
  "cidr_contains cidr ip =
     (case split_once CHR ''/'' cidr of
        None \<Rightarrow> False
      | Some (net, len) \<Rightarrow>
          (case (parse_ip (trim net), parse_ip (trim ip), parse_u8 (trim len)) of
             (Some (V4 a), Some (V4 b), Some n) \<Rightarrow> n \<le> 32 \<and> a AND net_mask n = b AND net_mask n
           | (Some (V6 a), Some (V6 b), Some n) \<Rightarrow> n \<le> 128 \<and> a AND net_mask n = b AND net_mask n
           | _ \<Rightarrow> False))"

text \<open>A network contains exactly the addresses that agree with it on its leading bits: comparing under the mask is
  comparing the addresses with the host part shifted away.\<close>

lemma cidr_prefix_exact:
  assumes "n \<le> LENGTH('a)"
  shows "((a :: 'a::len word) AND net_mask n = b AND net_mask n) \<longleftrightarrow> drop_bit (LENGTH('a) - n) a = drop_bit (LENGTH('a) - n) b"
proof (cases "n = 0")
  case True
  have "drop_bit LENGTH('a) x = 0" for x :: "'a word" by (rule bit_word_eqI) (simp add: bit_simps)
  then show ?thesis using True by (simp add: net_mask_def)
next
  case False
  let ?k = "LENGTH('a) - n"
  have m: "x AND net_mask n = push_bit ?k (drop_bit ?k x)" for x :: "'a word"
    using False by (intro bit_word_eqI) (auto simp: net_mask_def bit_simps)
  have d: "drop_bit ?k (push_bit ?k (drop_bit ?k x)) = drop_bit ?k x" for x :: "'a word"
    by (intro bit_word_eqI) (auto simp: bit_simps dest: bit_imp_le_length)
  show ?thesis unfolding m using d by metis
qed

theorem cidr_prefix_exact_witness:
  "((10 :: 8 word) AND net_mask 5 = 14 AND net_mask 5) \<longleftrightarrow> drop_bit (LENGTH(8) - 5) (10 :: 8 word) = drop_bit (LENGTH(8) - 5) 14"
  by (rule cidr_prefix_exact) simp

end
