(* ===== verification/Service_Names.thy ===== *)
theory Service_Names
  imports Obs_Db Observation Ip_Addr
begin

text \<open>
  From addresses, pods and processes to service names: the static mappings of
  \<^verbatim>\<open>crates/dataplane-apm/src/alias.rs\<close> with their cache, the registry of endpoints of \<^verbatim>\<open>endpoint.rs\<close> and
  the edge writer of \<^verbatim>\<open>ebpf_edge.rs\<close>. The caches are part of one state with the database; instants
  are nanoseconds of a monotonic clock, given to every operation that reads it. The lock and its
  poisoning are not modelled.
\<close>

definition invalid_argument :: "string \<Rightarrow> dataplane_error" where
  "invalid_argument m = \<lparr>de_code = InvalidArgument, de_message = m\<rparr>"

datatype alias_kind = ProcessName | ProcessPrefix | PodPrefix | Cidr

fun alias_kind_str :: "alias_kind \<Rightarrow> string" where
  "alias_kind_str ProcessName = ''process_name''"
| "alias_kind_str ProcessPrefix = ''process_prefix''"
| "alias_kind_str PodPrefix = ''pod_prefix''"
| "alias_kind_str Cidr = ''cidr''"

definition alias_kind_parse :: "string \<Rightarrow> alias_kind option" where
  "alias_kind_parse s =
     (if s = ''process_name'' then Some ProcessName
      else if s = ''process_prefix'' then Some ProcessPrefix
      else if s = ''pod_prefix'' then Some PodPrefix
      else if s = ''cidr'' then Some Cidr
      else None)"

record alias_record =
  al_id :: string
  al_kind :: string
  al_value :: string
  al_service :: string
  al_enabled :: bool
  al_note :: string
  al_updated :: int

record alias_upsert =
  au_kind :: string
  au_value :: string
  au_service :: string
  au_enabled :: "bool option"
  au_note :: "string option"

definition validate_alias :: "alias_upsert \<Rightarrow> (dataplane_error, alias_kind \<times> string \<times> string) result" where
  "validate_alias u =
     (case alias_kind_parse (trim (au_kind u)) of
        None \<Rightarrow> Inl (invalid_argument (''unsupported match_kind: '' @ au_kind u @
          '' (expected process_name/process_prefix/pod_prefix/cidr)''))
      | Some kind \<Rightarrow>
          let v = trim (au_value u); service = trim (au_service u) in
          if v = [] then Inl (invalid_argument ''match_value must not be empty'')
          else if service = [] then Inl (invalid_argument ''service must not be empty'')
          else if kind = Cidr \<and> \<not> is_valid_cidr v
          then Inl (invalid_argument (''match_value must be a valid CIDR for match_kind=cidr: '' @ v))
          else Inr (kind, v, service))"

definition alias_id :: "alias_kind \<Rightarrow> string \<Rightarrow> string" where
  "alias_id kind v = alias_kind_str kind @ '':'' @ v"

section \<open>The state\<close>

record endpoint =
  ep_service :: string
  ep_instance_id :: string
  ep_pod_name :: string
  ep_node_name :: string
  ep_host_ip :: string
  ep_listen_port :: int
  ep_collector :: string

record loaded_aliases =
  lo_version :: nat
  lo_at :: nat
  lo_aliases :: "alias_record list"

record name_db = obs_db +
  nd_version :: nat
  nd_alias_ttl :: nat
  nd_loaded :: "loaded_aliases option"
  nd_retention_days :: nat
  nd_cache_ttl :: nat
  nd_dirty :: "(string \<times> string, endpoint \<times> int) btmap"
  nd_cache_ip :: "(string \<times> int, string option \<times> nat) btmap"
  nd_cache_pod :: "(string, string option \<times> nat) btmap"
  nd_upserted :: nat
  nd_written :: nat

type_synonym ('x, 'a) nm = "('x name_db_ext, 'a) obs"

definition nm_update :: "('x name_db_scheme \<Rightarrow> 'x name_db_scheme) \<Rightarrow> ('x, unit) nm" where
  "nm_update f s = (Inr (), f s)"

section \<open>Static mappings\<close>

text \<open>A row of another shape is skipped.\<close>

definition alias_of_row :: "sql_row \<Rightarrow> alias_record option" where
  "alias_of_row r =
     (case (r ''alias_id'', r ''match_kind'', r ''match_value'', r ''service'', r ''enabled'', r ''note'', r ''updated_ts'') of
        (SqlText i, SqlText k, SqlText v, SqlText s, SqlInteger e, SqlText n, SqlInteger u) \<Rightarrow>
          Some \<lparr>al_id = i, al_kind = k, al_value = v, al_service = s, al_enabled = (e \<noteq> 0), al_note = n, al_updated = u\<rparr>
      | _ \<Rightarrow> None)"

definition alias_row :: "alias_record \<Rightarrow> sql_row" where
  "alias_row a = row_of [(''alias_id'', SqlText (al_id a)), (''match_kind'', SqlText (al_kind a)),
     (''match_value'', SqlText (al_value a)), (''service'', SqlText (al_service a)), (''enabled'', bool_int (al_enabled a)),
     (''note'', SqlText (al_note a)), (''updated_ts'', SqlInteger (al_updated a))]"

definition select_aliases :: "string option \<Rightarrow> bool option \<Rightarrow> sql_row list \<Rightarrow> alias_record list" where
  "select_aliases kind enabled rs =
     List.map_filter alias_of_row
       (sort_key (\<lambda>r. (field_text r ''match_kind'', field_text r ''match_value''))
         (filter (\<lambda>r. (case kind of Some k \<Rightarrow> text_eq r ''match_kind'' k | None \<Rightarrow> True) \<and>
                      (case enabled of Some b \<Rightarrow> r ''enabled'' = bool_int b | None \<Rightarrow> True)) rs))"

definition list_aliases :: "string option \<Rightarrow> bool option \<Rightarrow> ('x, alias_record list) obs" where
  "list_aliases kind enabled =
     (case filter_opt (\<lambda>k. alias_kind_parse k = None) kind of
        Some k \<Rightarrow> ob_fail (invalid_argument (''unsupported match_kind: '' @ k))
      | None \<Rightarrow> ob_select ServiceAlias (select_aliases kind enabled))"

definition upsert_alias :: "alias_upsert \<Rightarrow> int \<Rightarrow> ('x, alias_record) obs" where
  "upsert_alias u now =
     (case validate_alias u of
        Inl e \<Rightarrow> ob_fail e
      | Inr (kind, v, service) \<Rightarrow>
          let a = \<lparr>al_id = alias_id kind v, al_kind = alias_kind_str kind, al_value = v, al_service = service,
                   al_enabled = unwrap_or (au_enabled u) True, al_note = unwrap_or (au_note u) [], al_updated = now\<rparr> in
          ob_bind (ob_change ServiceAlias (\<lambda>rs.
              (upsert_row [''alias_id''] [''service'', ''enabled'', ''note'', ''updated_ts''] (alias_row a) rs, 1)))
            (\<lambda>_. ob_return a))"

text \<open>The row count is a statement of its own on the shared connection: \<open>mid\<close> is what others do before it.\<close>

definition run_between :: "('x obs_db_scheme \<Rightarrow> 'x obs_db_scheme) \<Rightarrow> ('x, unit) obs" where
  "run_between mid s = (Inr (), mid s)"

definition set_alias_enabled :: "('x obs_db_scheme \<Rightarrow> 'x obs_db_scheme) \<Rightarrow> string \<Rightarrow> bool \<Rightarrow> int \<Rightarrow> ('x, bool) obs" where
  "set_alias_enabled mid k enabled now =
     ob_bind (ob_change ServiceAlias (\<lambda>rs.
         (map (\<lambda>r. if text_eq r ''alias_id'' k then row_set [(''enabled'', bool_int enabled), (''updated_ts'', SqlInteger now)] r else r) rs,
          length (filter (\<lambda>r. text_eq r ''alias_id'' k) rs))))
       (\<lambda>_. ob_bind (run_between mid) (\<lambda>_. ob_bind affected_rows (\<lambda>n. ob_return (n > 0))))"

definition delete_alias :: "('x obs_db_scheme \<Rightarrow> 'x obs_db_scheme) \<Rightarrow> string \<Rightarrow> ('x, bool) obs" where
  "delete_alias mid k =
     ob_bind (ob_change ServiceAlias (delete_rows (\<lambda>r. text_eq r ''alias_id'' k)))
       (\<lambda>_. ob_bind (run_between mid) (\<lambda>_. ob_bind affected_rows (\<lambda>n. ob_return (n > 0))))"

text \<open>The cache is loaded again when a change raised the version or its time is over.\<close>

definition invalidate :: "('x, unit) nm" where
  "invalidate = nm_update (\<lambda>s. s\<lparr>nd_version := nd_version s + 1\<rparr>)"

definition alias_snapshot :: "nat \<Rightarrow> ('x, alias_record list) nm" where
  "alias_snapshot at s =
     (case filter_opt (\<lambda>l. lo_version l = nd_version s \<and> at - lo_at l < nd_alias_ttl s) (nd_loaded s) of
        Some l \<Rightarrow> (Inr (lo_aliases l), s)
      | None \<Rightarrow> ob_bind (list_aliases None (Some True)) (\<lambda>as.
          ob_bind (nm_update (\<lambda>s'. s'\<lparr>nd_loaded := Some \<lparr>lo_version = nd_version s, lo_at = at, lo_aliases = as\<rparr>\<rparr>))
            (\<lambda>_. ob_return as)) s)"

definition matches_kind :: "alias_record \<Rightarrow> alias_kind \<Rightarrow> string \<Rightarrow> string \<Rightarrow> string \<Rightarrow> bool" where
  "matches_kind a kind host_ip pod process =
     (case kind of
        ProcessName \<Rightarrow> process \<noteq> [] \<and> al_value a = process
      | ProcessPrefix \<Rightarrow> process \<noteq> [] \<and> starts_with process (al_value a)
      | PodPrefix \<Rightarrow> pod \<noteq> [] \<and> starts_with pod (al_value a)
      | Cidr \<Rightarrow> host_ip \<noteq> [] \<and> cidr_contains (al_value a) host_ip)"

text \<open>Of equally new mappings the first listed one stays.\<close>

definition newest :: "alias_record list \<Rightarrow> alias_record option" where
  "newest as = foldl (\<lambda>best a. case best of None \<Rightarrow> Some a | Some b \<Rightarrow> if al_updated a > al_updated b then Some a else best) None as"

fun best_alias :: "alias_kind list \<Rightarrow> alias_record list \<Rightarrow> string \<Rightarrow> string \<Rightarrow> string \<Rightarrow> string option" where
  "best_alias [] as host_ip pod process = None"
| "best_alias (k # ks) as host_ip pod process =
     (case newest (filter (\<lambda>a. al_enabled a \<and> al_kind a = alias_kind_str k \<and> matches_kind a k host_ip pod process) as) of
        Some a \<Rightarrow> Some (al_service a)
      | None \<Rightarrow> best_alias ks as host_ip pod process)"

definition alias_resolve :: "nat \<Rightarrow> string \<Rightarrow> string \<Rightarrow> string \<Rightarrow> ('x, string option) nm" where
  "alias_resolve at host_ip pod process =
     ob_bind (alias_snapshot at) (\<lambda>as.
       ob_return (best_alias [ProcessName, ProcessPrefix, PodPrefix, Cidr] as host_ip pod process))"

section \<open>Endpoints\<close>

definition endpoint_of :: "trace_span \<Rightarrow> endpoint option" where
  "endpoint_of s =
     (if sp_service s = [] then None
      else
        let field = (\<lambda>k. unwrap_or (bt_get (sp_resource s) k) []);
            pod = field ''k8s.pod.name''; explicit = field ''service.instance.id'';
            port = (case bt_get (sp_attributes s) ''server.port'' of Some p \<Rightarrow> Some p
                    | None \<Rightarrow> bt_get (sp_attributes s) ''net.host.port'')
        in Some \<lparr>ep_service = sp_service s,
             ep_instance_id = (if explicit \<noteq> [] then explicit else if pod \<noteq> [] then sp_service s @ ''@'' @ pod else sp_service s),
             ep_pod_name = pod, ep_node_name = field ''k8s.node.name'', ep_host_ip = field ''host.ip'',
             ep_listen_port = unwrap_or (Option.bind port parse_i64) 0, ep_collector = sp_collector s\<rparr>)"

definition endpoint_observe :: "trace_span \<Rightarrow> int \<Rightarrow> 'x name_db_scheme \<Rightarrow> 'x name_db_scheme" where
  "endpoint_observe sp now s =
     (case endpoint_of sp of
        None \<Rightarrow> s
      | Some e \<Rightarrow> s\<lparr>nd_dirty := bt_insert (ep_service e, ep_instance_id e) (e, now) (nd_dirty s)\<rparr>)"

definition endpoints_dirty :: "'x name_db_scheme \<Rightarrow> nat" where
  "endpoints_dirty s = length (nd_dirty s)"

definition endpoint_row :: "endpoint \<Rightarrow> int \<Rightarrow> sql_row" where
  "endpoint_row e now = row_of [(''service'', SqlText (ep_service e)), (''instance_id'', SqlText (ep_instance_id e)),
     (''pod_name'', SqlText (ep_pod_name e)), (''node_name'', SqlText (ep_node_name e)), (''host_ip'', SqlText (ep_host_ip e)),
     (''listen_port'', SqlInteger (ep_listen_port e)), (''collector'', SqlText (ep_collector e)),
     (''first_seen_ts'', SqlInteger now), (''last_seen_ts'', SqlInteger now)]"

definition upsert_endpoint :: "endpoint \<Rightarrow> int \<Rightarrow> ('x, unit) obs" where
  "upsert_endpoint e now = ob_change ServiceEndpoint (\<lambda>rs.
     (upsert_row (primary_key ServiceEndpoint)
        [''pod_name'', ''node_name'', ''host_ip'', ''listen_port'', ''collector'', ''last_seen_ts''] (endpoint_row e now) rs, 1))"

fun upsert_endpoints :: "(endpoint \<times> int) list \<Rightarrow> nat \<Rightarrow> 'x obs_db_scheme \<Rightarrow> nat \<times> 'x obs_db_scheme" where
  "upsert_endpoints [] n s = (n, s)"
| "upsert_endpoints ((e, now) # es) n s =
     (case upsert_endpoint e now s of
        (Inl _, s') \<Rightarrow> upsert_endpoints es n s'
      | (Inr _, s') \<Rightarrow> upsert_endpoints es (n + 1) s')"

definition endpoints_flush :: "('x, nat) nm" where
  "endpoints_flush s =
     (let (n, s') = upsert_endpoints (map snd (nd_dirty s)) 0 (s\<lparr>nd_dirty := []\<rparr>)
      in (Inr n, s'\<lparr>nd_upserted := nd_upserted s' + n\<rparr>))"

definition first_service :: "(sql_row \<Rightarrow> bool) \<Rightarrow> sql_row list \<Rightarrow> string option" where
  "first_service p rs = Option.bind (find p rs) (\<lambda>r. field_opt_text r ''service'')"

text \<open>A cached answer may be that there is no service; one too old is dropped.\<close>

definition cached ::
    "nat \<Rightarrow> nat \<Rightarrow> 'k \<Rightarrow> ('k, string option \<times> nat) btmap \<Rightarrow> string option option \<times> ('k, string option \<times> nat) btmap" where
  "cached ttl at k m =
     (case bt_get m k of
        None \<Rightarrow> (None, m)
      | Some (v, t) \<Rightarrow> if at - t < ttl then (Some v, m) else (None, bt_remove k m))"

definition lookup_by_ip_port :: "nat \<Rightarrow> string \<Rightarrow> int \<Rightarrow> ('x, string option) nm" where
  "lookup_by_ip_port at host_ip port s =
     (if host_ip = [] \<or> port = 0 then (Inr None, s)
      else
        let k = (host_ip, port); (hit, m) = cached (nd_cache_ttl s) at k (nd_cache_ip s); s1 = s\<lparr>nd_cache_ip := m\<rparr> in
        case hit of
          Some v \<Rightarrow> (Inr v, s1)
        | None \<Rightarrow> ob_bind (ob_select ServiceEndpoint
              (first_service (\<lambda>r. text_eq r ''host_ip'' host_ip \<and> r ''listen_port'' = SqlInteger port))) (\<lambda>v.
            ob_bind (nm_update (\<lambda>s'. s'\<lparr>nd_cache_ip := bt_insert k (v, at) (nd_cache_ip s')\<rparr>)) (\<lambda>_. ob_return v)) s1)"

definition lookup_by_pod :: "nat \<Rightarrow> string \<Rightarrow> ('x, string option) nm" where
  "lookup_by_pod at pod s =
     (if pod = [] then (Inr None, s)
      else
        let (hit, m) = cached (nd_cache_ttl s) at pod (nd_cache_pod s); s1 = s\<lparr>nd_cache_pod := m\<rparr> in
        case hit of
          Some v \<Rightarrow> (Inr v, s1)
        | None \<Rightarrow> ob_bind (ob_select ServiceEndpoint (first_service (\<lambda>r. text_eq r ''pod_name'' pod))) (\<lambda>v.
            ob_bind (nm_update (\<lambda>s'. s'\<lparr>nd_cache_pod := bt_insert pod (v, at) (nd_cache_pod s')\<rparr>)) (\<lambda>_. ob_return v)) s1)"

definition purge_expired :: "('x name_db_scheme \<Rightarrow> 'x name_db_scheme) \<Rightarrow> int \<Rightarrow> ('x, nat) nm" where
  "purge_expired mid now s =
     (let cutoff = sat_sub_i64 now (wrap_i64 (wrap_i64 (int (nd_retention_days s) * 86400) * 1000000)) in
      ob_bind (ob_change ServiceEndpoint (delete_rows (\<lambda>r. field_i64 r ''last_seen_ts'' < cutoff)))
        (\<lambda>_. ob_bind (run_between mid) (\<lambda>_. affected_rows)) s)"

section \<open>Edges\<close>

definition unknown_service :: "string \<Rightarrow> string" where
  "unknown_service ip = (if ip = [] then ''unknown'' else ''unknown-'' @ ip)"

definition resolve_name :: "nat \<Rightarrow> string \<Rightarrow> int \<Rightarrow> string \<Rightarrow> string \<Rightarrow> ('x, string) nm" where
  "resolve_name at host_ip port pod process =
     ob_bind (alias_resolve at host_ip pod process) (\<lambda>a. case a of Some v \<Rightarrow> ob_return v | None \<Rightarrow>
     ob_bind (lookup_by_ip_port at host_ip port) (\<lambda>b. case b of Some v \<Rightarrow> ob_return v | None \<Rightarrow>
     ob_bind (if pod = [] then ob_return None else lookup_by_pod at pod) (\<lambda>c. case c of Some v \<Rightarrow> ob_return v | None \<Rightarrow>
     ob_return (unknown_service host_ip))))"

definition resolve_src :: "nat \<Rightarrow> ebpf_edge \<Rightarrow> ('x, string) nm" where
  "resolve_src at e =
     (if eb_src_service e \<noteq> [] then ob_return (eb_src_service e)
      else resolve_name at (eb_src_ip e) (int (eb_src_port e)) (eb_src_pod e) (eb_src_process e))"

definition resolve_dst :: "nat \<Rightarrow> ebpf_edge \<Rightarrow> ('x, string) nm" where
  "resolve_dst at e =
     (if eb_dst_service e \<noteq> [] then ob_return (eb_dst_service e)
      else resolve_name at (eb_dst_ip e) (lookup_port e) [] [])"

definition ebpf_row :: "(nat list \<Rightarrow> string) \<Rightarrow> ebpf_edge \<Rightarrow> data_envelope \<Rightarrow> string \<Rightarrow> string \<Rightarrow> sql_row" where
  "ebpf_row js e v src dst = row_of
     [(''record_id'', SqlText (eb_record_id e)), (''bucket_start'', SqlInteger (eb_timestamp e)),
      (''bucket_micros'', SqlInteger (eb_bucket_micros e)), (''protocol'', SqlText (eb_protocol e)),
      (''src_ip'', SqlText (eb_src_ip e)), (''src_port'', SqlInteger (int (eb_src_port e))),
      (''dst_ip'', SqlText (eb_dst_ip e)), (''dst_port'', SqlInteger (int (eb_dst_port e))),
      (''src_pod'', SqlText (eb_src_pod e)), (''src_container_id'', SqlText (eb_src_container_id e)),
      (''src_process'', SqlText (eb_src_process e)), (''src_service'', SqlText src), (''dst_service'', SqlText dst),
      (''connections'', SqlInteger (u64_as_i64 (eb_connections e))), (''bytes_sent'', SqlInteger (u64_as_i64 (eb_bytes_sent e))),
      (''bytes_recv'', SqlInteger (u64_as_i64 (eb_bytes_recv e))),
      (''duration_sum'', SqlInteger (u64_as_i64 (eb_duration_micros_sum e))),
      (''duration_max'', SqlInteger (u64_as_i64 (eb_duration_micros_max e))),
      (''tcp_retrans'', SqlInteger (u64_as_i64 (eb_tcp_retrans e))), (''tcp_resets'', SqlInteger (u64_as_i64 (eb_tcp_resets e))),
      (''failures'', SqlInteger (u64_as_i64 (eb_failures e))), (''failure_reason'', SqlText (eb_failure_reason e)),
      (''latency_hist'', SqlText (js (eb_latency_hist e))), (''agent_id'', SqlText (dv_agent_id v)),
      (''data_id'', SqlText (dv_data_id v))]"

definition upsert_edge :: "(nat list \<Rightarrow> string) \<Rightarrow> nat \<Rightarrow> ebpf_edge \<Rightarrow> data_envelope \<Rightarrow> ('x, unit) nm" where
  "upsert_edge js at e v =
     ob_bind (resolve_src at e) (\<lambda>src.
     ob_bind (resolve_dst at e) (\<lambda>dst.
     ob_bind (ob_change EbpfEdges (\<lambda>rs. (replace_row (primary_key EbpfEdges) (ebpf_row js e v src dst) rs, 1))) (\<lambda>_.
     nm_update (\<lambda>s. s\<lparr>nd_written := nd_written s + 1\<rparr>))))"

end
