(* ===== verification/Apm_Sink.thy ===== *)
theory Apm_Sink
  imports Service_Names Trace_Summary Edge_Pairing
begin

text \<open>
  \<^verbatim>\<open>crates/dataplane-apm/src/sink.rs\<close>: the observation sink of the data server, which owns the trace
  summaries, the call edges with their samples, the endpoints and the static mappings. Its state
  extends that of the names; the samples are those shared with the edges. The instants and the
  wall clock are arguments, as are the JSON forms of a list of services and of a histogram.
\<close>

definition SERVICE_MEASUREMENT_PREFIXES :: "string list" where
  "SERVICE_MEASUREMENT_PREFIXES = [''ebpf_process_'', ''ebpf_syscall_'']"

definition PROCESS_NAME_TAG :: string where "PROCESS_NAME_TAG = ''process_name''"
definition SERVICE_TAG :: string where "SERVICE_TAG = ''service''"
definition UNKNOWN_SERVICE_PREFIX :: string where "UNKNOWN_SERVICE_PREFIX = ''unknown-''"

record flush_report =
  fr_traces :: nat
  fr_endpoints :: nat
  fr_edges :: nat

record apm_sink = name_db +
  as_config :: apm_config
  as_acc :: trace_acc
  as_edges :: edge_acc

record codecs =
  cd_enc :: "string list \<Rightarrow> string"
  cd_dec :: "string \<Rightarrow> string list option"

definition sink_new :: "obs_db \<Rightarrow> apm_config \<Rightarrow> red_samples \<Rightarrow> apm_sink" where
  "sink_new db c samples =
     (let ttl = ac_endpoint_cache_ttl_secs c * 1000000000 in
      \<lparr>ob_rows = ob_rows db, ob_cols = ob_cols db, ob_changes = ob_changes db, ob_faults = ob_faults db,
       nd_version = 0, nd_alias_ttl = ttl, nd_loaded = None, nd_retention_days = ac_endpoint_retention_days c,
       nd_cache_ttl = ttl, nd_dirty = [], nd_cache_ip = [], nd_cache_pod = [], nd_upserted = 0, nd_written = 0,
       as_config = c, as_acc = trace_acc_new, as_edges = edge_acc_new (ac_edge_pending_capacity c) samples\<rparr>)"

text \<open>The resolver of unknown targets: static mappings, then the address, then the pod.\<close>

definition name_resolver :: "nat \<Rightarrow> string \<Rightarrow> int \<Rightarrow> string \<Rightarrow> ('x, string option) nm" where
  "name_resolver at host_ip port pod =
     ob_bind (alias_resolve at host_ip pod []) (\<lambda>a. case a of Some v \<Rightarrow> ob_return (Some v) | None \<Rightarrow>
     ob_bind (lookup_by_ip_port at host_ip port) (\<lambda>b. case b of Some v \<Rightarrow> ob_return (Some v) | None \<Rightarrow>
     lookup_by_pod at pod))"

definition sink_reload :: "int \<Rightarrow> apm_sink \<Rightarrow> (dataplane_error, nat) result \<times> apm_sink" where
  "sink_reload now s =
     (let (r, a, s') = trace_reload (as_config s) now (as_acc s) s in (r, s'\<lparr>as_acc := a\<rparr>))"

definition flush_edges :: "int \<Rightarrow> nat \<Rightarrow> apm_sink \<Rightarrow> nat \<times> apm_sink" where
  "flush_edges now at s =
     (if edges_dirty_len (as_edges s) = 0 \<and> pending_len (as_edges s) = 0 then (0, s)
      else let (n, a, s') = edge_flush (Some (name_resolver at)) now (as_edges s) s in (n, s'\<lparr>as_edges := a\<rparr>))"

definition sink_flush_endpoints :: "apm_sink \<Rightarrow> nat \<times> apm_sink" where
  "sink_flush_endpoints s = (case endpoints_flush s of (Inl _, s') \<Rightarrow> (0, s') | (Inr n, s') \<Rightarrow> (n, s'))"

definition sink_flush_due :: "codecs \<Rightarrow> int \<Rightarrow> nat \<Rightarrow> apm_sink \<Rightarrow> flush_report \<times> apm_sink" where
  "sink_flush_due cd now at s =
     (let (t, a, s1) = trace_flush_due (cd_enc cd) (cd_dec cd) (as_config s) now at (as_acc s) s;
          s2 = s1\<lparr>as_acc := a\<rparr>;
          (n, s3) = (if endpoints_dirty s2 > 0 then sink_flush_endpoints s2 else (0, s2));
          (e, s4) = flush_edges now at s3
      in (\<lparr>fr_traces = t, fr_endpoints = n, fr_edges = e\<rparr>, s4))"

definition sink_flush_now :: "codecs \<Rightarrow> int \<Rightarrow> nat \<Rightarrow> apm_sink \<Rightarrow> flush_report \<times> apm_sink" where
  "sink_flush_now cd now at s =
     (let (t, a, s1) = trace_flush (cd_enc cd) (cd_dec cd) (as_config s) now at (as_acc s) s;
          (n, s2) = sink_flush_endpoints (s1\<lparr>as_acc := a\<rparr>);
          (e, s3) = flush_edges now at s2
      in (\<lparr>fr_traces = t, fr_endpoints = n, fr_edges = e\<rparr>, s3))"

text \<open>Changes of the mappings through the sink make the cached ones void; one that hits nothing does not.\<close>

definition sink_upsert_alias :: "alias_upsert \<Rightarrow> int \<Rightarrow> ('x, alias_record) nm" where
  "sink_upsert_alias u now = ob_bind (upsert_alias u now) (\<lambda>a. ob_bind invalidate (\<lambda>_. ob_return a))"

definition sink_set_alias_enabled :: "('x name_db_scheme \<Rightarrow> 'x name_db_scheme) \<Rightarrow> string \<Rightarrow> bool \<Rightarrow> int \<Rightarrow> ('x, bool) nm" where
  "sink_set_alias_enabled mid k b now =
     ob_bind (set_alias_enabled mid k b now) (\<lambda>hit. ob_bind (if hit then invalidate else ob_return ()) (\<lambda>_. ob_return hit))"

definition sink_delete_alias :: "('x name_db_scheme \<Rightarrow> 'x name_db_scheme) \<Rightarrow> string \<Rightarrow> ('x, bool) nm" where
  "sink_delete_alias mid k =
     ob_bind (delete_alias mid k) (\<lambda>hit. ob_bind (if hit then invalidate else ob_return ()) (\<lambda>_. ob_return hit))"

definition lookup_service :: "nat \<Rightarrow> string \<Rightarrow> int \<Rightarrow> string \<Rightarrow> ('x, string option) nm" where
  "lookup_service at host_ip port pod =
     ob_bind (lookup_by_ip_port at host_ip port) (\<lambda>b. case b of Some v \<Rightarrow> ob_return (Some v) | None \<Rightarrow> lookup_by_pod at pod)"

text \<open>The \<^verbatim>\<open>service\<close> tag of a process metric that has none.\<close>

definition metric_tags :: "nat \<Rightarrow> string \<Rightarrow> labels \<Rightarrow> 'x name_db_scheme \<Rightarrow> (string \<times> string) list \<times> 'x name_db_scheme" where
  "metric_tags at measurement tags s =
     (if \<not> list_ex (starts_with measurement) SERVICE_MEASUREMENT_PREFIXES then ([], s)
      else if filter_opt (\<lambda>v. v \<noteq> []) (bt_get tags SERVICE_TAG) \<noteq> None then ([], s)
      else case filter_opt (\<lambda>v. v \<noteq> []) (bt_get tags PROCESS_NAME_TAG) of
        None \<Rightarrow> ([], s)
      | Some process \<Rightarrow> (case alias_resolve at [] [] process s of
            (Inr (Some service), s') \<Rightarrow> ([(SERVICE_TAG, service)], s')
          | (Inr None, s') \<Rightarrow> ([(SERVICE_TAG, UNKNOWN_SERVICE_PREFIX @ process)], s')
          | (Inl _, s') \<Rightarrow> ([], s')))"

definition sink_observe_span :: "int \<Rightarrow> trace_span \<Rightarrow> data_envelope \<Rightarrow> apm_sink \<Rightarrow> apm_sink" where
  "sink_observe_span now sp v s =
     (let s1 = endpoint_observe sp now (s\<lparr>as_acc := trace_observe sp v (as_acc s)\<rparr>);
          e = snd (edge_observe sp v (as_edges s1));
          e' = (if sp_collector sp = ''otlp''
                then e\<lparr>ea_samples := observe_span (bucket_of (sp_timestamp sp)) (sp_service sp) (sp_name sp) (sp_kind sp)
                         (sp_status_code sp) (duration_micros sp) (ea_samples e)\<rparr>
                else e)
      in s1\<lparr>as_edges := e'\<rparr>)"

section \<open>Mappings take effect at once\<close>

text \<open>The mappings that count are the enabled rows; cached ones of the current version are those.\<close>

definition enabled_aliases :: "'x obs_db_scheme \<Rightarrow> alias_record list" where
  "enabled_aliases s = select_aliases None (Some True) (ob_rows s ServiceAlias)"

definition cache_ok :: "'x name_db_scheme \<Rightarrow> bool" where
  "cache_ok s \<longleftrightarrow> ob_faults s = [] \<and>
     (case nd_loaded s of None \<Rightarrow> True
      | Some l \<Rightarrow> lo_version l \<le> nd_version s \<and> (lo_version l = nd_version s \<longrightarrow> lo_aliases l = enabled_aliases s))"

text \<open>What the state may do besides: nothing that touches the mappings, their cache or the faults.\<close>

definition names_kept :: "'x name_db_scheme \<Rightarrow> 'y name_db_scheme \<Rightarrow> bool" where
  "names_kept s s' \<longleftrightarrow> ob_faults s' = ob_faults s \<and> ob_rows s' ServiceAlias = ob_rows s ServiceAlias \<and>
     nd_version s' = nd_version s \<and> nd_loaded s' = nd_loaded s"

definition alias_matches :: "alias_record \<Rightarrow> alias_kind \<Rightarrow> string \<Rightarrow> string \<Rightarrow> string \<Rightarrow> bool" where
  "alias_matches a k host_ip pod process \<longleftrightarrow>
     al_enabled a \<and> al_kind a = alias_kind_str k \<and> matches_kind a k host_ip pod process"

fun kind_rank :: "alias_kind \<Rightarrow> nat" where
  "kind_rank ProcessName = 0" | "kind_rank ProcessPrefix = 1" | "kind_rank PodPrefix = 2" | "kind_rank Cidr = 3"

text \<open>The answer the mappings give: no match, or a match of the first kind that has any, with the latest change.\<close>

definition alias_answer :: "alias_record list \<Rightarrow> string \<Rightarrow> string \<Rightarrow> string \<Rightarrow> string option \<Rightarrow> bool" where
  "alias_answer as host_ip pod process r \<longleftrightarrow>
     (case r of
        None \<Rightarrow> \<forall>a \<in> set as. \<forall>k. \<not> alias_matches a k host_ip pod process
      | Some service \<Rightarrow> \<exists>a \<in> set as. \<exists>k. al_service a = service \<and> alias_matches a k host_ip pod process \<and>
          (\<forall>b \<in> set as. \<forall>j. alias_matches b j host_ip pod process \<longrightarrow>
             kind_rank k < kind_rank j \<or> j = k \<and> al_updated b \<le> al_updated a))"

lemma newest_fold:
  assumes "foldl (\<lambda>best a. case best of None \<Rightarrow> Some a | Some b \<Rightarrow> if al_updated a > al_updated b then Some a else best) best as = r"
  shows "(r = None \<longleftrightarrow> best = None \<and> as = []) \<and>
    (\<forall>a. r = Some a \<longrightarrow> (a \<in> set as \<or> best = Some a) \<and> (\<forall>b \<in> set as. al_updated b \<le> al_updated a) \<and>
       (\<forall>b. best = Some b \<longrightarrow> al_updated b \<le> al_updated a))"
  using assms
proof (induction as arbitrary: best)
  case Nil
  then show ?case by auto
next
  case (Cons x xs)
  let ?best = "case best of None \<Rightarrow> Some x | Some b \<Rightarrow> if al_updated x > al_updated b then Some x else best"
  have IH: "(r = None \<longleftrightarrow> ?best = None \<and> xs = []) \<and>
    (\<forall>a. r = Some a \<longrightarrow> (a \<in> set xs \<or> ?best = Some a) \<and> (\<forall>b \<in> set xs. al_updated b \<le> al_updated a) \<and>
       (\<forall>b. ?best = Some b \<longrightarrow> al_updated b \<le> al_updated a))"
    by (rule Cons.IH) (use Cons.prems in simp)
  obtain b where b: "?best = Some b" "al_updated x \<le> al_updated b" "b = x \<or> best = Some b" "\<And>c. best = Some c \<Longrightarrow> al_updated c \<le> al_updated b"
  proof (cases best)
    case None
    then show ?thesis using that [of x] by simp
  next
    case (Some c)
    then show ?thesis using that [of x] that [of c] by (cases "al_updated x > al_updated c") simp_all
  qed
  show ?case using IH b by fastforce
qed

lemma newest_None: "newest as = None \<longleftrightarrow> as = []"
  using newest_fold [OF refl, of None as] by (simp add: newest_def)

lemma newest_Some: "newest as = Some a \<Longrightarrow> a \<in> set as \<and> (\<forall>b \<in> set as. al_updated b \<le> al_updated a)"
  using newest_fold [OF refl, of None as] by (simp add: newest_def)

lemma kind_str_inject: "alias_kind_str k = alias_kind_str j \<longleftrightarrow> k = j"
  by (cases k; cases j) simp_all

lemma all_kinds: "(\<forall>k. P k) \<longleftrightarrow> P ProcessName \<and> P ProcessPrefix \<and> P PodPrefix \<and> P Cidr"
  by (metis alias_kind.exhaust)

abbreviation candidates :: "alias_record list \<Rightarrow> string \<Rightarrow> string \<Rightarrow> string \<Rightarrow> alias_kind \<Rightarrow> alias_record list" where
  "candidates as ip pod process k \<equiv>
     filter (\<lambda>a. al_enabled a \<and> al_kind a = alias_kind_str k \<and> matches_kind a k ip pod process) as"

lemma best_alias_None: "best_alias ks as ip pod process = None \<longleftrightarrow> (\<forall>k \<in> set ks. candidates as ip pod process k = [])"
  by (induction ks) (auto simp: newest_None newest_None [THEN iffD2, OF refl] split: option.splits)

lemma best_alias_Some:
  "best_alias ks as ip pod process = Some v \<Longrightarrow> \<exists>pre k post a. ks = pre @ k # post \<and> v = al_service a \<and>
     newest (candidates as ip pod process k) = Some a \<and> (\<forall>j \<in> set pre. candidates as ip pod process j = [])"
proof (induction ks)
  case Nil
  then show ?case by simp
next
  case (Cons k ks)
  show ?case
  proof (cases "newest (candidates as ip pod process k)")
    case None
    then obtain pre j post a where "ks = pre @ j # post" "v = al_service a"
        "newest (candidates as ip pod process j) = Some a" "\<forall>i \<in> set pre. candidates as ip pod process i = []"
      using Cons by auto
    then show ?thesis using None by (intro exI [of _ "k # pre"]) (auto simp: newest_None)
  next
    case (Some a)
    then show ?thesis using Cons.prems by (intro exI [of _ "[]"]) simp
  qed
qed

lemma best_alias_ranked:
  assumes "\<And>k. k \<in> set ks" "sorted_wrt (\<lambda>i j. kind_rank i < kind_rank j) ks"
  shows "alias_answer as ip pod process (best_alias ks as ip pod process)"
proof -
  have no: "\<not> alias_matches a k ip pod process" if "candidates as ip pod process k = []" "a \<in> set as" for a k
    using that by (auto simp: alias_matches_def filter_empty_conv)
  show ?thesis
  proof (cases "best_alias ks as ip pod process")
    case None
    then have "candidates as ip pod process k = []" for k using best_alias_None [of ks as ip pod process] assms(1) [of k] by blast
    then show ?thesis unfolding None alias_answer_def option.case using no by blast
  next
    case (Some v)
    obtain pre k post a where k: "ks = pre @ k # post" "v = al_service a"
        "newest (candidates as ip pod process k) = Some a" "\<forall>j \<in> set pre. candidates as ip pod process j = []"
      using best_alias_Some [OF Some] by blast
    have a: "a \<in> set as" "alias_matches a k ip pod process"
        "\<forall>b \<in> set as. alias_matches b k ip pod process \<longrightarrow> al_updated b \<le> al_updated a"
      using newest_Some [OF k(3)] by (auto simp: alias_matches_def)
    have later: "kind_rank k < kind_rank j" if "j \<notin> set pre" "j \<noteq> k" for j
      using that assms(1) [of j] assms(2) unfolding k(1) by (auto simp: sorted_wrt_append)
    have "kind_rank k < kind_rank j \<or> j = k \<and> al_updated b \<le> al_updated a" if "b \<in> set as" "alias_matches b j ip pod process" for b j
      using that no [of j b] k(4) later [of j] a(3) by blast
    then show ?thesis unfolding Some alias_answer_def option.case using a(1,2) k(2) by blast
  qed
qed

lemma best_alias_answer: "alias_answer as ip pod process (best_alias [ProcessName, ProcessPrefix, PodPrefix, Cidr] as ip pod process)"
proof (rule best_alias_ranked)
  show "k \<in> set [ProcessName, ProcessPrefix, PodPrefix, Cidr]" for k by (cases k) simp_all
qed simp

text \<open>The operations keep the cache right.\<close>

lemma cache_ok_kept: "cache_ok s \<Longrightarrow> names_kept s s' \<Longrightarrow> cache_ok s'"
  by (simp add: cache_ok_def names_kept_def enabled_aliases_def split: option.splits)

lemma snapshot_ok:
  assumes "cache_ok s" "alias_snapshot at s = (r, s')"
  shows "r = Inr (enabled_aliases s) \<and> cache_ok s' \<and> ob_rows s' = ob_rows s \<and> nd_version s' = nd_version s"
proof -
  have f: "ob_faults s = []" using assms(1) by (simp add: cache_ok_def)
  show ?thesis
  proof (cases "filter_opt (\<lambda>l. lo_version l = nd_version s \<and> at - lo_at l < nd_alias_ttl s) (nd_loaded s)")
    case None
    then have "alias_snapshot at s = (Inr (enabled_aliases s),
        s\<lparr>nd_loaded := Some \<lparr>lo_version = nd_version s, lo_at = at, lo_aliases = enabled_aliases s\<rparr>\<rparr>)"
      by (simp add: alias_snapshot_def ob_bind_def list_aliases_def ob_select_ok [OF f] nm_update_def ob_return_def enabled_aliases_def)
    then show ?thesis using assms f by (auto simp: cache_ok_def enabled_aliases_def)
  next
    case (Some l)
    then have "nd_loaded s = Some l" "lo_version l = nd_version s" by (auto simp: filter_opt_def split: option.splits if_splits)
    then show ?thesis using assms Some by (auto simp: cache_ok_def alias_snapshot_def)
  qed
qed

lemma resolve_ok:
  assumes "cache_ok s" "alias_resolve at ip pod process s = (r, s')"
  shows "r = Inr (best_alias [ProcessName, ProcessPrefix, PodPrefix, Cidr] (enabled_aliases s) ip pod process) \<and>
    cache_ok s' \<and> ob_rows s' = ob_rows s"
proof -
  obtain q t where "alias_snapshot at s = (q, t)" by fastforce
  then show ?thesis using snapshot_ok [OF assms(1), of at q t] assms(2)
    by (auto simp: alias_resolve_def ob_bind_def ob_return_def)
qed

text \<open>Every operation of the sink, run on its state for its effect.\<close>

datatype sink_op =
  SinkSpan int trace_span data_envelope | SinkFlush int nat | SinkEdge nat ebpf_edge data_envelope
  | SinkMetric nat string labels | SinkLookup nat string int string | SinkPurge int
  | SinkUpsertAlias alias_upsert int | SinkSetAlias string bool int | SinkDeleteAlias string

fun sink_do :: "codecs \<Rightarrow> (nat list \<Rightarrow> string) \<Rightarrow> sink_op \<Rightarrow> apm_sink \<Rightarrow> apm_sink" where
  "sink_do cd js (SinkSpan now sp v) s = sink_observe_span now sp v s"
| "sink_do cd js (SinkFlush now at) s = snd (sink_flush_now cd now at s)"
| "sink_do cd js (SinkEdge at e v) s = snd (upsert_edge js at e v s)"
| "sink_do cd js (SinkMetric at m tags) s = snd (metric_tags at m tags s)"
| "sink_do cd js (SinkLookup at ip port pod) s = snd (lookup_service at ip port pod s)"
| "sink_do cd js (SinkPurge now) s = snd (purge_expired (\<lambda>x. x) now s)"
| "sink_do cd js (SinkUpsertAlias u now) s = snd (sink_upsert_alias u now s)"
| "sink_do cd js (SinkSetAlias k b now) s = snd (sink_set_alias_enabled (\<lambda>x. x) k b now s)"
| "sink_do cd js (SinkDeleteAlias k) s = snd (sink_delete_alias (\<lambda>x. x) k s)"

definition sink_run :: "codecs \<Rightarrow> (nat list \<Rightarrow> string) \<Rightarrow> sink_op list \<Rightarrow> apm_sink \<Rightarrow> apm_sink" where
  "sink_run cd js ops s = fold (sink_do cd js) ops s"

definition safe :: "('x, 'a) nm \<Rightarrow> bool" where
  "safe m \<longleftrightarrow> (\<forall>s. cache_ok s \<longrightarrow> cache_ok (snd (m s)))"

named_theorems safes \<open>operations that keep the cache of mappings right\<close>

lemma safeD: "safe m \<Longrightarrow> cache_ok s \<Longrightarrow> cache_ok (snd (m s))"
  by (simp add: safe_def)

lemma safe_bind [safes]: "safe m \<Longrightarrow> (\<And>x. safe (f x)) \<Longrightarrow> safe (ob_bind m f)"
  unfolding safe_def ob_bind_def by (auto split: prod.splits sum.splits)

lemma safe_return [safes]: "safe (ob_return x)"
  by (simp add: safe_def ob_return_def)

lemma safe_select [safes]: "safe (ob_select t q)"
  by (simp add: safe_def ob_select_ok cache_ok_def)

lemma safe_change [safes]: "t \<noteq> ServiceAlias \<Longrightarrow> safe (ob_change t f)"
  by (auto simp: safe_def cache_ok_def ob_change_ok enabled_aliases_def set_rows_def split: option.splits)

lemma safe_affected [safes]: "safe affected_rows"
  by (simp add: safe_def affected_rows_ok cache_ok_def)

lemma safe_between [safes]: "safe (run_between (\<lambda>x. x))"
  by (simp add: safe_def run_between_def)

lemma safe_resolve [safes]: "safe (alias_resolve at ip pod process)"
  using resolve_ok by (metis safe_def prod.collapse)

lemma safe_cond [safes]: "safe m \<Longrightarrow> safe m' \<Longrightarrow> safe (if b then m else m')"
  by simp

lemma safe_option [safes]: "safe m \<Longrightarrow> (\<And>v. safe (f v)) \<Longrightarrow> safe (case x of None \<Rightarrow> m | Some v \<Rightarrow> f v)"
  by (cases x) simp_all

lemma safe_written [safes]: "safe (nm_update (\<lambda>s. s\<lparr>nd_written := f s\<rparr>))"
  by (simp add: safe_def nm_update_def cache_ok_def enabled_aliases_def split: option.splits)

lemma safe_cache_ip [safes]: "safe (nm_update (\<lambda>s. s\<lparr>nd_cache_ip := f s\<rparr>))"
  by (simp add: safe_def nm_update_def cache_ok_def enabled_aliases_def split: option.splits)

lemma safe_cache_pod [safes]: "safe (nm_update (\<lambda>s. s\<lparr>nd_cache_pod := f s\<rparr>))"
  by (simp add: safe_def nm_update_def cache_ok_def enabled_aliases_def split: option.splits)

lemma cache_ok_other [simp]:
  "cache_ok (s\<lparr>nd_cache_ip := a\<rparr>) = cache_ok s" "cache_ok (s\<lparr>nd_cache_pod := b\<rparr>) = cache_ok s"
  "cache_ok (s\<lparr>nd_dirty := c\<rparr>) = cache_ok s" "cache_ok (s\<lparr>nd_upserted := n\<rparr>) = cache_ok s"
  by (simp_all add: cache_ok_def enabled_aliases_def split: option.splits)

lemma cache_ok_sink [simp]: "cache_ok (s\<lparr>as_acc := a\<rparr>) = cache_ok s" "cache_ok (s\<lparr>as_edges := e\<rparr>) = cache_ok s"
  by (simp_all add: cache_ok_def enabled_aliases_def split: option.splits)

lemma safe_lookup_ip [safes]: "safe (lookup_by_ip_port at ip port)"
proof (unfold safe_def, intro allI impI)
  fix s :: "'a name_db_scheme" assume c: "cache_ok s"
  show "cache_ok (snd (lookup_by_ip_port at ip port s))"
  proof (cases "ip = [] \<or> port = 0")
    case True
    then show ?thesis using c by (auto simp: lookup_by_ip_port_def)
  next
    case False
    obtain hit m where h: "cached (nd_cache_ttl s) at (ip, port) (nd_cache_ip s) = (hit, m)" by fastforce
    have q: "safe (ob_bind (ob_select ServiceEndpoint (first_service (\<lambda>r. text_eq r ''host_ip'' ip \<and> r ''listen_port'' = SqlInteger port))) (\<lambda>v.
        ob_bind (nm_update (\<lambda>s'. s'\<lparr>nd_cache_ip := bt_insert (ip, port) (v, at) (nd_cache_ip s')\<rparr>)) (\<lambda>_. ob_return v)))"
      by (intro safes)
    show ?thesis using False c h safeD [OF q, of "s\<lparr>nd_cache_ip := m\<rparr>"] by (cases hit) (simp_all add: lookup_by_ip_port_def)
  qed
qed

lemma safe_lookup_pod [safes]: "safe (lookup_by_pod at pod)"
proof (unfold safe_def, intro allI impI)
  fix s :: "'a name_db_scheme" assume c: "cache_ok s"
  show "cache_ok (snd (lookup_by_pod at pod s))"
  proof (cases "pod = []")
    case True
    then show ?thesis using c by (auto simp: lookup_by_pod_def)
  next
    case False
    obtain hit m where h: "cached (nd_cache_ttl s) at pod (nd_cache_pod s) = (hit, m)" by fastforce
    have q: "safe (ob_bind (ob_select ServiceEndpoint (first_service (\<lambda>r. text_eq r ''pod_name'' pod))) (\<lambda>v.
        ob_bind (nm_update (\<lambda>s'. s'\<lparr>nd_cache_pod := bt_insert pod (v, at) (nd_cache_pod s')\<rparr>)) (\<lambda>_. ob_return v)))"
      by (intro safes)
    show ?thesis using False c h safeD [OF q, of "s\<lparr>nd_cache_pod := m\<rparr>"] by (cases hit) (simp_all add: lookup_by_pod_def)
  qed
qed

lemma safe_resolver [safes]: "safe (name_resolver at ip port pod)"
  unfolding name_resolver_def by (intro safes)

lemma safe_name [safes]: "safe (resolve_name at ip port pod process)"
  unfolding resolve_name_def by (intro safes)

lemma safe_upsert_edge [safes]: "safe (upsert_edge js at e v)"
  unfolding upsert_edge_def resolve_src_def resolve_dst_def by (intro safes) simp

lemma upsert_endpoints_safe: "cache_ok s \<Longrightarrow> cache_ok (snd (upsert_endpoints es n s))"
proof (induction es n s rule: upsert_endpoints.induct)
  case (2 e now es n s)
  have "cache_ok (snd (upsert_endpoint e now s))" using 2(3) by (intro safeD) (simp_all add: upsert_endpoint_def safes)
  then show ?case using 2(1,2) by (auto split: prod.split sum.split)
qed simp

lemma flush_batch_safe: "cache_ok s \<Longrightarrow> cache_ok (snd (flush_batch enc dec now ds n s))"
proof (induction enc dec now ds n s rule: flush_batch.induct)
  case (2 enc dec now t d ds n s)
  have "cache_ok (snd (flush_trace enc dec t d now s))"
    by (rule safeD [OF _ 2(3)]) (simp add: flush_trace_def, intro safes, simp)
  then show ?case using 2(1,2) by (auto split: prod.split sum.split)
qed simp

lemma write_edges_safe: "cache_ok s \<Longrightarrow> cache_ok (snd (write_edges (Some (name_resolver at)) es n s))"
proof (induction es arbitrary: n s)
  case (Cons e es)
  obtain k d where e: "e = (k, d)" by fastforce
  obtain k' s1 where r: "resolve_key (Some (name_resolver at)) k d s = (k', s1)" by fastforce
  obtain q s2 where f: "flush_edge k' d s1 = (q, s2)" by fastforce
  have "cache_ok (snd (name_resolver at ip port pod s))" for ip port pod by (rule safeD [OF safe_resolver Cons.prems])
  then have "cache_ok (snd (resolve_key (Some (name_resolver at)) k d s))"
    by (auto simp: resolve_key_def Cons.prems split: prod.split sum.split option.split) (metis snd_conv)+
  then have "cache_ok s2" using safeD [of "flush_edge k' d" s1] f r by (simp add: flush_edge_def safes)
  then show ?case using Cons.IH r f e by (cases q) simp_all
qed simp

lemma flush_edges_safe: "cache_ok s \<Longrightarrow> cache_ok (snd (flush_edges now at s))"
  using write_edges_safe [of s at "fst (take_edges now (as_edges s))" 0]
  by (simp add: flush_edges_def edge_flush_def split: prod.split) (auto split: prod.splits)

lemma flush_endpoints_safe: "cache_ok s \<Longrightarrow> cache_ok (snd (sink_flush_endpoints s))"
  using upsert_endpoints_safe [of "s\<lparr>nd_dirty := []\<rparr>" "map snd (nd_dirty s)" 0]
  by (auto simp: sink_flush_endpoints_def endpoints_flush_def split: prod.splits)

lemma flush_now_safe: "cache_ok s \<Longrightarrow> cache_ok (snd (sink_flush_now cd now at s))"
proof -
  assume c: "cache_ok s"
  obtain t a s1 where t: "trace_flush (cd_enc cd) (cd_dec cd) (as_config s) now at (as_acc s) s = (t, a, s1)" by (metis prod_cases3)
  obtain n s2 where e: "sink_flush_endpoints (s1\<lparr>as_acc := a\<rparr>) = (n, s2)" by fastforce
  have "cache_ok s1" using t flush_batch_safe [OF c] by (auto simp: trace_flush_def Let_def split: prod.splits) (metis snd_conv)
  then have "cache_ok s2" using flush_endpoints_safe [of "s1\<lparr>as_acc := a\<rparr>"] e by simp
  then show "cache_ok (snd (sink_flush_now cd now at s))"
    using flush_edges_safe [of s2 now at] by (simp add: sink_flush_now_def t e split: prod.split) (auto split: prod.splits)
qed

lemma metric_tags_safe: "cache_ok s \<Longrightarrow> cache_ok (snd (metric_tags at m tags s))"
proof -
  assume c: "cache_ok s"
  have "cache_ok (snd (alias_resolve at [] [] process s))" for process by (rule safeD [OF safe_resolve c])
  then show "cache_ok (snd (metric_tags at m tags s))"
    by (auto simp: metric_tags_def c split: option.split prod.split sum.split) (metis snd_conv)+
qed

text \<open>A change of the mappings raises the version, so that no loaded list is current.\<close>

lemma cache_ok_changed:
  assumes "cache_ok s" "ob_faults s' = []" "nd_loaded s' = nd_loaded s" "nd_version s' = nd_version s + 1"
  shows "cache_ok s'"
  using assms by (auto simp: cache_ok_def split: option.splits)

lemma upsert_alias_safe: "safe (sink_upsert_alias u now)"
proof (unfold safe_def, intro allI impI)
  fix s :: "'a name_db_scheme" assume c: "cache_ok s"
  then have f: "ob_faults s = []" by (simp add: cache_ok_def)
  show "cache_ok (snd (sink_upsert_alias u now s))"
  proof (cases "validate_alias u")
    case (Inl e)
    then show ?thesis using c by (simp add: sink_upsert_alias_def upsert_alias_def ob_bind_def ob_fail_def)
  next
    case (Inr kvs)
    obtain k v service where kvs: "kvs = (k, v, service)" by (cases kvs)
    show ?thesis
      by (rule cache_ok_changed [OF c])
        (simp_all add: sink_upsert_alias_def upsert_alias_def Inr kvs Let_def ob_bind_def ob_return_def ob_change_ok [OF f] invalidate_def nm_update_def f set_rows_def)
  qed
qed

lemma map_no_match: "filter p rs = [] \<Longrightarrow> map (\<lambda>r. if p r then f r else r) rs = rs"
  by (induction rs) (auto split: if_splits)

lemma filter_no_match: "filter p rs = [] \<Longrightarrow> filter (\<lambda>r. \<not> p r) rs = rs"
  by (simp add: filter_empty_conv)

lemma cache_ok_same_rows:
  "cache_ok s \<Longrightarrow> rs = ob_rows s ServiceAlias \<Longrightarrow> cache_ok (set_rows ServiceAlias rs n s)"
  by (auto simp: cache_ok_def enabled_aliases_def set_rows_def split: option.splits)

lemma set_alias_safe: "safe (sink_set_alias_enabled (\<lambda>x. x) k b now)"
proof (unfold safe_def, intro allI impI)
  fix s :: "'a name_db_scheme" assume c: "cache_ok s"
  then have f: "ob_faults s = []" by (simp add: cache_ok_def)
  let ?hits = "filter (\<lambda>r. text_eq r ''alias_id'' k) (ob_rows s ServiceAlias)"
  let ?rs = "map (\<lambda>r. if text_eq r ''alias_id'' k then row_set [(''enabled'', bool_int b), (''updated_ts'', SqlInteger now)] r else r)
    (ob_rows s ServiceAlias)"
  have r: "snd (sink_set_alias_enabled (\<lambda>x. x) k b now s) =
    (if ?hits = [] then set_rows ServiceAlias ?rs 0 s
     else (set_rows ServiceAlias ?rs (length ?hits) s)\<lparr>nd_version := nd_version s + 1\<rparr>)"
    by (simp add: sink_set_alias_enabled_def set_alias_enabled_def ob_bind_def ob_return_def ob_change_ok [OF f] run_between_def
        affected_rows_ok f invalidate_def nm_update_def) (simp add: set_rows_def)
  show "cache_ok (snd (sink_set_alias_enabled (\<lambda>x. x) k b now s))"
  proof (cases "?hits = []")
    case True
    then show ?thesis unfolding r by (simp add: cache_ok_same_rows [OF c] map_no_match)
  next
    case False
    then show ?thesis unfolding r by (intro cache_ok_changed [OF c]) (simp_all add: f set_rows_def)
  qed
qed

lemma delete_alias_safe: "safe (sink_delete_alias (\<lambda>x. x) k)"
proof (unfold safe_def, intro allI impI)
  fix s :: "'a name_db_scheme" assume c: "cache_ok s"
  then have f: "ob_faults s = []" by (simp add: cache_ok_def)
  let ?hits = "filter (\<lambda>r. text_eq r ''alias_id'' k) (ob_rows s ServiceAlias)"
  let ?rs = "filter (\<lambda>r. \<not> text_eq r ''alias_id'' k) (ob_rows s ServiceAlias)"
  have r: "snd (sink_delete_alias (\<lambda>x. x) k s) =
    (if ?hits = [] then set_rows ServiceAlias ?rs 0 s
     else (set_rows ServiceAlias ?rs (length ?hits) s)\<lparr>nd_version := nd_version s + 1\<rparr>)"
    by (simp add: sink_delete_alias_def delete_alias_def delete_rows_def ob_bind_def ob_return_def ob_change_ok [OF f] run_between_def
        affected_rows_ok f invalidate_def nm_update_def) (simp add: set_rows_def)
  show "cache_ok (snd (sink_delete_alias (\<lambda>x. x) k s))"
  proof (cases "?hits = []")
    case True
    then show ?thesis unfolding r by (simp add: cache_ok_same_rows [OF c] filter_no_match)
  next
    case False
    then show ?thesis unfolding r by (intro cache_ok_changed [OF c]) (simp_all add: f set_rows_def)
  qed
qed

lemma purge_safe: "cache_ok s \<Longrightarrow> cache_ok (snd (purge_expired (\<lambda>x. x) now s))"
  unfolding purge_expired_def Let_def by (rule safeD, intro safes) simp_all

lemma sink_do_safe: "cache_ok s \<Longrightarrow> cache_ok (sink_do cd js op s)"
proof (cases op)
  case (SinkSpan now sp v)
  then show "cache_ok s \<Longrightarrow> ?thesis" by (simp add: sink_observe_span_def endpoint_observe_def Let_def split: option.split)
qed (simp_all add: flush_now_safe purge_safe metric_tags_safe safeD upsert_alias_safe set_alias_safe delete_alias_safe safe_upsert_edge
    lookup_service_def safes)

lemma sink_run_safe: "cache_ok s \<Longrightarrow> cache_ok (sink_run cd js ops s)"
proof (induction ops arbitrary: s)
  case (Cons op ops)
  then show ?case using sink_do_safe [of s cd js op] by (simp add: sink_run_def)
qed (simp add: sink_run_def)

section \<open>Properties\<close>


text \<open>A sink with one mapping, from the process \<^verbatim>\<open>nginx\<close> to the service \<^verbatim>\<open>web\<close>.\<close>

definition w_mapping :: alias_record where
  "w_mapping = \<lparr>al_id = ''process_name:nginx'', al_kind = ''process_name'', al_value = ''nginx'', al_service = ''web'',
     al_enabled = True, al_note = [], al_updated = 1\<rparr>"

definition w_sink :: apm_sink where
  "w_sink = sink_new (empty_db\<lparr>ob_rows := (\<lambda>t. if t = ServiceAlias then [alias_row w_mapping] else [])\<rparr>) default_apm_config (red_new 1)"

lemma w_sink_sel: "ob_faults w_sink = []" "nd_loaded w_sink = None" "ob_rows w_sink ServiceAlias = [alias_row w_mapping]"
  "nd_version w_sink = 0"
  by (simp_all add: w_sink_def sink_new_def empty_db_def Let_def)

lemma w_enabled: "select_aliases None (Some True) [alias_row w_mapping] = [w_mapping]"
  by (simp add: select_aliases_def alias_row_def row_of_def w_mapping_def alias_of_row_def bool_int_def map_filter_simps)


text \<open>C29: a mapping deleted while another change runs may live on: the count of deleted rows is asked for in a second
  statement, so that a purge in between that removes nothing makes the deletion look like a miss; the row is gone,
  the answer is that there was none, and the cached mapping is used until its time is over.\<close>

theorem racing_purge_hides_deletion:
  assumes "ob_faults s = []" "nd_loaded s = Some l" "lo_version l = nd_version s" "at - lo_at l < nd_alias_ttl s"
    and "mid = (\<lambda>x. snd (ob_change ServiceEndpoint (delete_rows old) x))" "\<forall>r \<in> set (ob_rows s ServiceEndpoint). \<not> old r"
    and "sink_delete_alias mid k s = (r, s')"
  shows "r = Inr False \<and> ob_rows s' ServiceAlias = filter (\<lambda>r. \<not> text_eq r ''alias_id'' k) (ob_rows s ServiceAlias) \<and>
    fst (alias_resolve at ip pod process s') =
      Inr (best_alias [ProcessName, ProcessPrefix, PodPrefix, Cidr] (lo_aliases l) ip pod process)"
proof -
  have none: "filter old (ob_rows s ServiceEndpoint) = []" using assms(6) by (simp add: filter_empty_conv)
  have s': "r = Inr False" "s' = set_rows ServiceEndpoint (ob_rows s ServiceEndpoint) 0
      (set_rows ServiceAlias (filter (\<lambda>r. \<not> text_eq r ''alias_id'' k) (ob_rows s ServiceAlias))
        (length (filter (\<lambda>r. text_eq r ''alias_id'' k) (ob_rows s ServiceAlias))) s)"
    using assms(7) by (simp_all add: assms(5) sink_delete_alias_def delete_alias_def delete_rows_def ob_bind_def ob_return_def
        ob_change_ok assms(1) run_between_def affected_rows_ok none filter_no_match)
  have "nd_loaded s' = Some l" "nd_version s' = nd_version s" "nd_alias_ttl s' = nd_alias_ttl s"
    using assms(2) by (simp_all add: s'(2) set_rows_def)
  then have "alias_snapshot at s' = (Inr (lo_aliases l), s')" using assms(3,4) by (simp add: alias_snapshot_def)
  then show ?thesis by (simp add: s' alias_resolve_def ob_bind_def ob_return_def)
qed

definition w_cached :: apm_sink where
  "w_cached = w_sink\<lparr>nd_loaded := Some \<lparr>lo_version = 0, lo_at = 0, lo_aliases = [w_mapping]\<rparr>\<rparr>"

theorem racing_purge_hides_deletion_witness:
  "fst (sink_delete_alias (\<lambda>x. snd (ob_change ServiceEndpoint (delete_rows (\<lambda>_. True)) x)) ''process_name:nginx'' w_cached) = Inr False \<and>
   fst (alias_resolve 5 [] [] ''nginx'' (snd (sink_delete_alias
     (\<lambda>x. snd (ob_change ServiceEndpoint (delete_rows (\<lambda>_. True)) x)) ''process_name:nginx'' w_cached))) = Inr (Some ''web'')"
proof -
  let ?l = "\<lparr>lo_version = 0, lo_at = 0, lo_aliases = [w_mapping]\<rparr>"
  have h: "ob_faults w_cached = []" "nd_loaded w_cached = Some ?l" "lo_version ?l = nd_version w_cached"
      "5 - lo_at ?l < nd_alias_ttl w_cached" "\<forall>r \<in> set (ob_rows w_cached ServiceEndpoint). \<not> True"
    by (simp_all add: w_cached_def w_sink_def sink_new_def empty_db_def default_apm_config_def Let_def)
  have "best_alias [ProcessName, ProcessPrefix, PodPrefix, Cidr] [w_mapping] [] [] ''nginx'' = Some ''web''"
    by (simp add: newest_def w_mapping_def matches_kind_def)
  then show ?thesis
    using racing_purge_hides_deletion [OF h(1-4) refl h(5) prod.collapse [symmetric], of "''process_name:nginx''" "[]" "[]" "''nginx''"] by simp
qed

end
