(* ===== verification/Metric_Points.thy ===== *)
theory Metric_Points
  imports Obs_Db Observation Complex_Main
begin

text \<open>
  The time-series side of the data server as its writers see it: points are written one by one, and a
  second point of the same measurement, labels and time replaces the first (the name of its field is
  not part of its identity), as the writers state. Values the code computes as \<^verbatim>\<open>f64\<close> from counters
  below $2^{53}$ are exact rationals. The state carries the written points in their order beside the
  database; a write may fail by its own fault schedule.
\<close>

record metric_db = obs_db +
  mt_points :: "rat ts_point list"
  mt_faults :: "dataplane_error option list"

type_synonym ('x, 'a) mt = "('x metric_db_ext, 'a) obs"

definition ts_write :: "rat ts_point \<Rightarrow> ('x, unit) mt" where
  "ts_write p s =
     (let s' = s\<lparr>mt_faults := tl (mt_faults s)\<rparr> in
      case mt_faults s of Some e # _ \<Rightarrow> (Inl e, s') | _ \<Rightarrow> (Inr (), s'\<lparr>mt_points := mt_points s' @ [p]\<rparr>))"

text \<open>Points are written until one fails.\<close>

fun write_points :: "rat ts_point list \<Rightarrow> ('x, unit) mt" where
  "write_points [] = ob_return ()"
| "write_points (p # ps) = ob_bind (ts_write p) (\<lambda>_. write_points ps)"

definition is_point :: "string \<Rightarrow> labels \<Rightarrow> int \<Rightarrow> 'v ts_point \<Rightarrow> bool" where
  "is_point m tags ts p \<longleftrightarrow> tp_measurement p = m \<and> tp_tags p = tags \<and> tp_timestamp p = ts"

text \<open>What the store answers for a series at a time: the value written last.\<close>

definition ts_value :: "'v ts_point list \<Rightarrow> string \<Rightarrow> labels \<Rightarrow> int \<Rightarrow> 'v option" where
  "ts_value ps m tags ts = map_option tp_field_value (find (is_point m tags ts) (rev ps))"

definition tags_of :: "(string \<times> string) list \<Rightarrow> labels" where
  "tags_of kvs = bt_of_list kvs"

definition metric_point :: "string \<Rightarrow> (string \<times> string) list \<Rightarrow> 'v \<Rightarrow> int \<Rightarrow> 'v ts_point" where
  "metric_point m tags v ts =
     \<lparr>tp_measurement = m, tp_tags = tags_of tags, tp_field_name = ''value'', tp_field_value = v, tp_timestamp = ts\<rparr>"

text \<open>Sums by key, in a map.\<close>

definition tally :: "('k::linorder \<times> int) list \<Rightarrow> ('k, int) btmap" where
  "tally kvs = foldl (\<lambda>m (k, v). bt_insert k (unwrap_or (bt_get m k) 0 + v) m) [] kvs"

definition sum_for :: "'k \<Rightarrow> ('k \<times> int) list \<Rightarrow> int" where
  "sum_for k kvs = sum_list (map snd (filter (\<lambda>kv. fst kv = k) kvs))"

lemma tally_snoc: "tally (kvs @ [(k, v)]) = bt_insert k (unwrap_or (bt_get (tally kvs) k) 0 + v) (tally kvs)"
  by (simp add: tally_def)

lemma tally_get: "bt_get (tally kvs) k = (if k \<in> fst ` set kvs then Some (sum_for k kvs) else None)"
proof (induction kvs rule: rev_induct)
  case Nil
  then show ?case by (simp add: tally_def)
next
  case (snoc kv kvs)
  obtain k' v where kv: "kv = (k', v)" by force
  have z: "sum_for k kvs = 0" if "k \<notin> fst ` set kvs" for k
    using that by (simp add: sum_for_def filter_empty_conv [THEN iffD2])
      (metis (mono_tags, lifting) filter_False image_eqI list.simps(8) sum_list.Nil)
  show ?case using snoc z [of k']
    by (auto simp: kv tally_snoc bt_get_insert sum_for_def image_iff)
qed

lemma tally_ok: "bt_ok (tally kvs)"
proof (induction kvs rule: rev_induct)
  case (snoc kv kvs)
  then show ?case by (cases kv) (simp add: tally_snoc bt_ok_insert)
qed (simp add: tally_def)

text \<open>The last entry of a sorted map with a property.\<close>

lemma find_rev_last:
  assumes "bt_ok m" "(k, v) \<in> set m" "P (k, v)" "\<And>k' v'. (k', v') \<in> set m \<Longrightarrow> P (k', v') \<Longrightarrow> k' \<le> k"
  shows "find P (rev m) = Some (k, v)"
proof -
  obtain xs ys where m: "m = xs @ (k, v) # ys" using assms(2) by (meson split_list)
  have "\<not> P (k', v')" if "(k', v') \<in> set ys" for k' v'
  proof
    assume "P (k', v')"
    then have "k' \<le> k" using assms(4) [of k' v'] that by (simp add: m)
    moreover have "k < k'" using assms(1) that by (force simp: m bt_ok_def sorted_wrt_append)
    ultimately show False by simp
  qed
  then have "find P (rev ys) = None" by (auto simp: find_None_iff)
  then show ?thesis using assms(3) by (simp add: m find_app)
qed

lemma ts_value_append:
  "ts_value (ps @ qs) m tags ts = (case ts_value qs m tags ts of Some v \<Rightarrow> Some v | None \<Rightarrow> ts_value ps m tags ts)"
  by (simp add: ts_value_def find_app split: option.split)

lemma ts_value_other: "(\<And>p. p \<in> set ps \<Longrightarrow> tp_measurement p \<noteq> m) \<Longrightarrow> ts_value ps m tags ts = None"
  by (auto simp: ts_value_def find_None_iff is_point_def)

lemma write_points_ok: "mt_faults s = [] \<Longrightarrow> write_points ps s = (Inr (), s\<lparr>mt_points := mt_points s @ ps\<rparr>)"
proof (induction ps arbitrary: s)
  case Nil
  then show ?case by (simp add: ob_return_def)
next
  case (Cons p ps)
  have "s\<lparr>mt_faults := mt_faults s\<rparr> = s" by simp
  then have "s\<lparr>mt_faults := []\<rparr> = s" by (simp only: Cons.prems)
  then have "ts_write p s = (Inr (), s\<lparr>mt_points := mt_points s @ [p]\<rparr>)" by (simp add: ts_write_def Cons.prems)
  then show ?case using Cons.IH [of "s\<lparr>mt_points := mt_points s @ [p]\<rparr>"] Cons.prems by (simp add: ob_bind_def)
qed

lemma nat_dec_inject: "nat_dec a = nat_dec b \<longleftrightarrow> a = b"
  by (metis digits_acc_nat_dec option.inject)

lemma int_dec_inject: "int_dec a = int_dec b \<longleftrightarrow> a = b"
proof
  assume e: "int_dec a = int_dec b"
  have s: "nat_dec n \<noteq> CHR ''-'' # cs" for n cs using hd_nat_dec_sign by blast
  show "a = b"
  proof (cases "a < 0"; cases "b < 0")
  qed (use e s s [symmetric] in \<open>auto simp: int_dec_def nat_dec_inject\<close>)
qed simp

end
