(* ===== verification/Ebpf_Metrics.thy ===== *)
theory Ebpf_Metrics
  imports Metric_Points
begin

text \<open>
  \<^verbatim>\<open>crates/dataplane-apm/src/ebpf_metrics.rs\<close>: minute metrics derived from the stored edges, with a
  watermark in the database. The parser of a histogram (\<^verbatim>\<open>serde_json\<close>) is the parameter \<open>ph\<close>. Sums are
  taken on integers; the threshold \<^verbatim>\<open>total as f64 * 0.95\<close> is compared exactly, which agrees with the
  code for totals below $2^{50}$.
\<close>

definition DEFAULT_LAG_SECS :: int where "DEFAULT_LAG_SECS = 60"
definition MINUTE_MICROS :: int where "MINUTE_MICROS = 60000000"
definition WATERMARK_KEY :: string where "WATERMARK_KEY = ''ebpf_metrics_watermark''"

record agg_report =
  gr_buckets :: "int list"
  gr_rows :: nat
  gr_points :: nat

record edge_row =
  er_bucket_start :: int
  er_src_service :: string
  er_dst_service :: string
  er_src_ip :: string
  er_src_port :: int
  er_dst_ip :: string
  er_dst_port :: int
  er_protocol :: string
  er_connections :: int
  er_bytes_sent :: int
  er_bytes_recv :: int
  er_duration_sum :: int
  er_duration_max :: int
  er_tcp_retrans :: int
  er_tcp_resets :: int
  er_failures :: int
  er_failure_reason :: string
  er_latency_hist :: "nat list"

definition floor_minute :: "int \<Rightarrow> int" where
  "floor_minute ts = ts - ts mod MINUTE_MICROS"

section \<open>Aggregation\<close>

type_synonym edge_pair = "int \<times> string \<times> string"

definition pair_of :: "edge_row \<Rightarrow> edge_pair" where
  "pair_of r = (floor_minute (er_bucket_start r), er_src_service r, er_dst_service r)"

text \<open>The contributions of a row to each counter; a count of zero contributes nothing but to the connections.\<close>

definition connection_counts :: "edge_row list \<Rightarrow> ((edge_pair \<times> int) \<times> int) list" where
  "connection_counts rs = map (\<lambda>r. ((pair_of r, er_dst_port r), er_connections r)) rs"

definition positive_counts :: "(edge_row \<Rightarrow> 'k) \<Rightarrow> (edge_row \<Rightarrow> int) \<Rightarrow> edge_row list \<Rightarrow> ('k \<times> int) list" where
  "positive_counts k v rs = map (\<lambda>r. (k r, v r)) (filter (\<lambda>r. v r > 0) rs)"

definition failure_key :: "edge_row \<Rightarrow> edge_pair \<times> string" where
  "failure_key r = (pair_of r, if er_failure_reason r = [] then ''other'' else er_failure_reason r)"

definition bytes_key :: "string \<Rightarrow> edge_row \<Rightarrow> edge_pair \<times> string \<times> string \<times> int \<times> string" where
  "bytes_key direction r = (pair_of r, er_src_ip r, er_dst_ip r, er_dst_port r, direction @ '':'' @ er_protocol r)"

definition bytes_counts :: "edge_row list \<Rightarrow> ((edge_pair \<times> string \<times> string \<times> int \<times> string) \<times> int) list" where
  "bytes_counts rs = concat (map (\<lambda>r. positive_counts (bytes_key ''sent'') er_bytes_sent [r] @
     positive_counts (bytes_key ''recv'') er_bytes_recv [r]) rs)"

fun add_hist :: "nat list \<Rightarrow> nat list \<Rightarrow> nat list" where
  "add_hist [] ys = ys"
| "add_hist xs [] = xs"
| "add_hist (x # xs) (y # ys) = sat_add64 x y # add_hist xs ys"

text \<open>Durations: sum, greatest, histogram.\<close>

definition add_duration :: "edge_row \<Rightarrow> (edge_pair, int \<times> int \<times> nat list) btmap \<Rightarrow> (edge_pair, int \<times> int \<times> nat list) btmap" where
  "add_duration r m =
     (let (s, g, h) = unwrap_or (bt_get m (pair_of r)) (0, 0, replicate (length (er_latency_hist r)) 0)
      in bt_insert (pair_of r) (s + er_duration_sum r, max g (er_duration_max r), add_hist h (er_latency_hist r)) m)"

definition durations :: "edge_row list \<Rightarrow> (edge_pair, int \<times> int \<times> nat list) btmap" where
  "durations rs = foldl (\<lambda>m r. add_duration r m) [] rs"

definition slot_upper_micros :: "nat \<Rightarrow> nat" where
  "slot_upper_micros slot = 2 ^ min (slot + 1) 62"

fun p95_slot :: "nat \<Rightarrow> nat \<Rightarrow> nat \<Rightarrow> nat list \<Rightarrow> nat option" where
  "p95_slot n cumulative slot [] = None"
| "p95_slot n cumulative slot (x # xs) =
     (let c = sat_add64 cumulative x in if c * 100 \<ge> n * 95 then Some slot else p95_slot n c (slot + 1) xs)"

definition edge_hist_p95 :: "nat list \<Rightarrow> nat option" where
  "edge_hist_p95 h =
     (if sum_list h = 0 then None
      else Some (slot_upper_micros (case p95_slot (sum_list h) 0 0 h of Some i \<Rightarrow> i | None \<Rightarrow> length h - 1)))"

definition pair_tags :: "string \<Rightarrow> string \<Rightarrow> (string \<times> string) list" where
  "pair_tags src dst = [(''src_service'', src), (''dst_service'', dst)]"

text \<open>The labels of the series shared with the spans.\<close>

definition request_tags :: "string \<Rightarrow> string \<Rightarrow> (string \<times> string) list" where
  "request_tags src dst = pair_tags src dst @ [(''span_kind'', []), (''status'', []), (''source'', ''ebpf'')]"

definition error_tags :: "string \<Rightarrow> string \<Rightarrow> (string \<times> string) list" where
  "error_tags src dst = pair_tags src dst @ [(''span_kind'', []), (''source'', ''ebpf'')]"

definition duration_tags :: "string \<Rightarrow> string \<Rightarrow> string \<Rightarrow> (string \<times> string) list" where
  "duration_tags src dst field = pair_tags src dst @ [(''span_kind'', []), (''field'', field), (''source'', ''ebpf'')]"

definition connection_tags :: "string \<Rightarrow> string \<Rightarrow> int \<Rightarrow> (string \<times> string) list" where
  "connection_tags src dst port = pair_tags src dst @ [(''dst_port'', int_dec port)]"

definition connection_points :: "(edge_pair \<times> int) \<times> int \<Rightarrow> rat ts_point list" where
  "connection_points e = (let (((bucket, src, dst), port), v) = e in
     [metric_point ''ebpf_edge_connections_total'' (connection_tags src dst port) (of_int v) bucket,
      metric_point ''apm_edge_requests_total'' (request_tags src dst) (of_int v) bucket])"

definition counter_points :: "string \<Rightarrow> edge_pair \<times> int \<Rightarrow> rat ts_point list" where
  "counter_points m e = (let ((bucket, src, dst), v) = e in [metric_point m (pair_tags src dst) (of_int v) bucket])"

definition failure_points :: "(edge_pair \<times> string) \<times> int \<Rightarrow> rat ts_point list" where
  "failure_points e = (let (((bucket, src, dst), reason), v) = e in
     [metric_point ''ebpf_tcp_failures_total'' (pair_tags src dst @ [(''reason'', reason)]) (of_int v) bucket,
      metric_point ''apm_edge_errors_total'' (error_tags src dst) (of_int v) bucket])"

definition bytes_points :: "(edge_pair \<times> string \<times> string \<times> int \<times> string) \<times> int \<Rightarrow> rat ts_point list" where
  "bytes_points e = (let (((bucket, src, dst), src_ip, dst_ip, port, dir), v) = e;
       direction = takeWhile (\<lambda>c. c \<noteq> CHR '':'') dir; protocol = tl (dropWhile (\<lambda>c. c \<noteq> CHR '':'') dir) in
     [metric_point ''ebpf_edge_bytes_total''
        (pair_tags src dst @ [(''src_ip'', src_ip), (''dst_ip'', dst_ip), (''dst_port'', int_dec port),
           (''protocol'', protocol), (''direction'', direction)]) (of_int v) bucket])"

definition connections_total :: "edge_row list \<Rightarrow> edge_pair \<Rightarrow> int" where
  "connections_total rs p = sum_list (map er_connections (filter (\<lambda>r. pair_of r = p) rs))"

definition duration_points :: "edge_row list \<Rightarrow> edge_pair \<times> int \<times> int \<times> nat list \<Rightarrow> rat ts_point list" where
  "duration_points rs e = (let ((bucket, src, dst), s, g, h) = e; n = connections_total rs (bucket, src, dst);
       p = (\<lambda>field v. metric_point ''apm_edge_duration_micros'' (duration_tags src dst field) v bucket) in
     (if n > 0 then [p ''avg'' (of_int s / of_int n)] else []) @
     (if g > 0 then [p ''max'' (of_int g)] else []) @
     (case edge_hist_p95 h of Some v \<Rightarrow> [p ''p95'' (of_nat v)] | None \<Rightarrow> []))"

definition aggregate :: "edge_row list \<Rightarrow> rat ts_point list" where
  "aggregate rs =
     concat (map connection_points (tally (connection_counts rs))) @
     concat (map (counter_points ''ebpf_tcp_retrans_total'') (tally (positive_counts pair_of er_tcp_retrans rs))) @
     concat (map (counter_points ''ebpf_tcp_resets_total'') (tally (positive_counts pair_of er_tcp_resets rs))) @
     concat (map failure_points (tally (positive_counts failure_key er_failures rs))) @
     concat (map bytes_points (tally (bytes_counts rs))) @
     concat (map (duration_points rs) (durations rs))"

section \<open>Rounds\<close>

definition read_watermark :: "('x, int option) obs" where
  "read_watermark = ob_select ObsMeta (\<lambda>rs.
     case first_row (\<lambda>r. text_eq r ''key'' WATERMARK_KEY) rs ''value'' of SqlText v \<Rightarrow> parse_i64 v | _ \<Rightarrow> None)"

definition write_watermark :: "int \<Rightarrow> ('x, unit) obs" where
  "write_watermark v s =
     (case write_meta WATERMARK_KEY (int_dec v) s of
        (Inl e, s') \<Rightarrow> (Inl \<lparr>de_code = QueryFailed, de_message = de_message e\<rparr>, s')
      | r \<Rightarrow> r)"

definition edge_row_of :: "(string \<Rightarrow> nat list option) \<Rightarrow> sql_row \<Rightarrow> edge_row" where
  "edge_row_of ph r =
     \<lparr>er_bucket_start = num_i64 r ''bucket_start'', er_src_service = field_text r ''src_service'',
      er_dst_service = field_text r ''dst_service'', er_src_ip = field_text r ''src_ip'', er_src_port = num_i64 r ''src_port'',
      er_dst_ip = field_text r ''dst_ip'', er_dst_port = num_i64 r ''dst_port'', er_protocol = field_text r ''protocol'',
      er_connections = num_i64 r ''connections'', er_bytes_sent = num_i64 r ''bytes_sent'', er_bytes_recv = num_i64 r ''bytes_recv'',
      er_duration_sum = num_i64 r ''duration_sum'', er_duration_max = num_i64 r ''duration_max'',
      er_tcp_retrans = num_i64 r ''tcp_retrans'', er_tcp_resets = num_i64 r ''tcp_resets'', er_failures = num_i64 r ''failures'',
      er_failure_reason = field_text r ''failure_reason'', er_latency_hist = unwrap_or (ph (field_text r ''latency_hist'')) []\<rparr>"

definition load_rows :: "(string \<Rightarrow> nat list option) \<Rightarrow> int \<Rightarrow> int \<Rightarrow> ('x, edge_row list) obs" where
  "load_rows ph lo hi = ob_select EbpfEdges (\<lambda>rs.
     map (edge_row_of ph) (filter (\<lambda>r. lo < field_i64 r ''bucket_start'' \<and> field_i64 r ''bucket_start'' \<le> hi) rs))"

definition dedup_sorted :: "int list \<Rightarrow> int list" where
  "dedup_sorted xs = remdups_adj (sort xs)"

text \<open>One round over the minutes that are over for \<open>lag\<close> seconds; the first one only sets the watermark.\<close>

definition ebpf_round :: "(string \<Rightarrow> nat list option) \<Rightarrow> int \<Rightarrow> int \<Rightarrow> ('x, agg_report) mt" where
  "ebpf_round ph lag now =
     (let upper = floor_minute (now - max lag 0 * 1000000); empty = \<lparr>gr_buckets = [], gr_rows = 0, gr_points = 0\<rparr> in
      ob_bind read_watermark (\<lambda>w. case w of
        None \<Rightarrow> ob_bind (write_watermark upper) (\<lambda>_. ob_return empty)
      | Some w \<Rightarrow>
          if upper \<le> w then ob_return empty
          else ob_bind (load_rows ph w upper) (\<lambda>rs.
            if rs = [] then ob_bind (write_watermark upper) (\<lambda>_. ob_return empty)
            else ob_bind (write_points (aggregate rs)) (\<lambda>_. ob_bind (write_watermark upper) (\<lambda>_.
              ob_return \<lparr>gr_buckets = dedup_sorted (map tp_timestamp (aggregate rs)), gr_rows = length rs,
                gr_points = length (aggregate rs)\<rparr>)))))"

section \<open>Reading the series back\<close>

lemma tags_get: "bt_get (tags_of kvs) k = map_of (rev kvs) k"
  by (simp add: tags_of_def bt_get_of_list)

lemma connection_tags_inject:
  "tags_of (connection_tags a b p) = tags_of (connection_tags a' b' p') \<longleftrightarrow> a = a' \<and> b = b' \<and> p = p'"
proof
  assume e: "tags_of (connection_tags a b p) = tags_of (connection_tags a' b' p')"
  have g: "bt_get (tags_of (connection_tags a b p)) ''src_service'' = Some a"
    "bt_get (tags_of (connection_tags a b p)) ''dst_service'' = Some b"
    "bt_get (tags_of (connection_tags a b p)) ''dst_port'' = Some (int_dec p)" for a b p
    by (simp_all add: tags_get connection_tags_def pair_tags_def)
  show "a = a' \<and> b = b' \<and> p = p'" using g [of a b p] g [of a' b' p'] by (simp add: e int_dec_inject)
qed simp

lemma request_tags_inject: "tags_of (request_tags a b) = tags_of (request_tags a' b') \<longleftrightarrow> a = a' \<and> b = b'"
proof
  assume e: "tags_of (request_tags a b) = tags_of (request_tags a' b')"
  have g: "bt_get (tags_of (request_tags a b)) ''src_service'' = Some a"
    "bt_get (tags_of (request_tags a b)) ''dst_service'' = Some b" for a b
    by (simp_all add: tags_get request_tags_def pair_tags_def)
  show "a = a' \<and> b = b'" using g [of a b] g [of a' b'] by (simp add: e)
qed simp

text \<open>Only the first part of the points has the two counters of connections.\<close>

lemma aggregate_connections:
  assumes "m \<in> {''ebpf_edge_connections_total'', ''apm_edge_requests_total''}"
  shows "ts_value (aggregate rs) m tags ts = ts_value (concat (map connection_points (tally (connection_counts rs)))) m tags ts"
proof -
  have "ts_value (concat (map (counter_points ''ebpf_tcp_retrans_total'') x)) m tags ts = None"
    "ts_value (concat (map (counter_points ''ebpf_tcp_resets_total'') x)) m tags ts = None" for x
    using assms by (intro ts_value_other; force simp: counter_points_def metric_point_def)+
  moreover have "ts_value (concat (map failure_points x)) m tags ts = None" for x
    using assms by (intro ts_value_other) (force simp: failure_points_def metric_point_def)
  moreover have "ts_value (concat (map bytes_points x)) m tags ts = None" for x
    using assms by (intro ts_value_other) (force simp: bytes_points_def metric_point_def Let_def)
  moreover have "ts_value (concat (map (duration_points rs) x)) m tags ts = None" for x
    using assms by (intro ts_value_other) (force simp: duration_points_def metric_point_def Let_def split: if_splits option.splits)
  ultimately show ?thesis by (simp add: aggregate_def ts_value_append)
qed

lemma connection_value:
  "ts_value (aggregate rs) ''ebpf_edge_connections_total'' (tags_of (connection_tags src dst port)) ts =
     map_option of_int (bt_get (tally (connection_counts rs)) ((ts, src, dst), port))"
proof -
  have one: "ts_value (connection_points (((b, s, d), p), v)) ''ebpf_edge_connections_total'' (tags_of (connection_tags src dst port)) ts =
      (if ((b, s, d), p) = ((ts, src, dst), port) then Some (of_int v) else None)" for b s d p v
    by (auto simp: connection_points_def ts_value_def is_point_def metric_point_def connection_tags_inject)
  have "distinct (map fst m) \<Longrightarrow> ts_value (concat (map connection_points m)) ''ebpf_edge_connections_total''
      (tags_of (connection_tags src dst port)) ts = map_option of_int (bt_get m ((ts, src, dst), port))" for m
  proof (induction m)
    case Nil
    then show ?case by (simp add: ts_value_def)
  next
    case (Cons e m)
    obtain b s d p v where e: "e = (((b, s, d), p), v)" by (metis prod.exhaust)
    have "bt_get m ((b, s, d), p) = None" using Cons.prems by (simp add: e bt_get_def map_of_eq_None_iff)
    then show ?case using Cons by (auto simp: e ts_value_append one bt_get_def split: option.splits)
  qed
  from this [OF bt_ok_distinct [OF tally_ok]] show ?thesis by (simp add: aggregate_connections)
qed

lemma request_value:
  assumes "r \<in> set rs" "\<And>r'. r' \<in> set rs \<Longrightarrow> pair_of r' = pair_of r \<Longrightarrow> er_dst_port r' \<le> er_dst_port r"
  shows "ts_value (aggregate rs) ''apm_edge_requests_total'' (tags_of (request_tags (er_src_service r) (er_dst_service r)))
      (floor_minute (er_bucket_start r)) =
    Some (of_int (sum_for (pair_of r, er_dst_port r) (connection_counts rs)))"
proof -
  let ?m = "tally (connection_counts rs)"
  let ?P = "\<lambda>e. fst (fst e) = pair_of r"
  have one: "ts_value (concat (map connection_points m)) ''apm_edge_requests_total''
      (tags_of (request_tags (er_src_service r) (er_dst_service r))) (floor_minute (er_bucket_start r)) =
    map_option (\<lambda>e. of_int (snd e)) (find ?P (rev m))" for m
  proof (induction m)
    case Nil
    then show ?case by (simp add: ts_value_def)
  next
    case (Cons e m)
    obtain b s d p v where e: "e = (((b, s, d), p), v)" by (metis prod.exhaust)
    have "ts_value (connection_points e) ''apm_edge_requests_total''
        (tags_of (request_tags (er_src_service r) (er_dst_service r))) (floor_minute (er_bucket_start r)) =
      (if ?P e then Some (of_int v) else None)"
      by (auto simp: e connection_points_def ts_value_def is_point_def metric_point_def request_tags_inject pair_of_def)
    then show ?case using Cons by (auto simp: ts_value_append find_app e split: option.splits)
  qed
  have k: "k \<in> fst ` set (connection_counts rs) \<longleftrightarrow> (\<exists>r' \<in> set rs. k = (pair_of r', er_dst_port r'))" for k
    by (auto simp: connection_counts_def image_iff)
  have v: "bt_get ?m (pair_of r, er_dst_port r) = Some (sum_for (pair_of r, er_dst_port r) (connection_counts rs))"
    using assms(1) by (auto simp: tally_get k)
  have "find ?P (rev ?m) = Some ((pair_of r, er_dst_port r), sum_for (pair_of r, er_dst_port r) (connection_counts rs))"
  proof (rule find_rev_last [OF tally_ok])
    show "((pair_of r, er_dst_port r), sum_for (pair_of r, er_dst_port r) (connection_counts rs)) \<in> set ?m"
      by (rule bt_get_SomeD [OF v])
  next
    fix k' v' assume a: "(k', v') \<in> set ?m" "?P (k', v')"
    then have "bt_get ?m k' = Some v'" using bt_get_in_set [OF tally_ok] by blast
    then obtain r' where "r' \<in> set rs" "k' = (pair_of r', er_dst_port r')" by (auto simp: tally_get k split: if_splits)
    then show "k' \<le> (pair_of r, er_dst_port r)" using assms(2) [of r'] a(2) by simp
  qed simp
  then show ?thesis by (simp add: aggregate_connections one)
qed

section \<open>Two rounds\<close>

lemma upsert_meta_read:
  "first_row (\<lambda>r. text_eq r ''key'' k) (upsert_row [''key''] [''value''] (meta_row k v) rs) ''value'' = SqlText v"
proof (cases "list_ex (\<lambda>r. same_key [''key''] r (meta_row k v)) rs")
  case True
  then have e: "\<exists>r \<in> set rs. text_eq r ''key'' k" by (auto simp: list_ex_iff same_key_def meta_row_def row_of_def text_eq_def)
  let ?f = "\<lambda>r. if same_key [''key''] r (meta_row k v) then (\<lambda>c. if c \<in> set [''value''] then meta_row k v c else r c) else r"
  have "find (\<lambda>r. text_eq r ''key'' k) (map ?f rs) = map_option ?f (find (\<lambda>r. text_eq r ''key'' k) rs)"
    by (rule find_cong_map) (simp add: text_eq_def)
  moreover obtain r where r: "find (\<lambda>r. text_eq r ''key'' k) rs = Some r" "text_eq r ''key'' k"
    using e by (metis find_None_iff find_SomeD not_None_eq)
  ultimately have fm: "find (\<lambda>r. text_eq r ''key'' k) (map ?f rs) = Some (?f r)" by simp
  have u: "upsert_row [''key''] [''value''] (meta_row k v) rs = map ?f rs" using True by (simp only: upsert_row_def if_True)
  show ?thesis unfolding first_row_def u fm option.case
    using r(2) by (simp add: same_key_def meta_row_def row_of_def text_eq_def)
next
  case False
  then have "find (\<lambda>r. text_eq r ''key'' k) rs = None"
    by (auto simp: find_None_iff list_ex_iff same_key_def meta_row_def row_of_def text_eq_def)
  then show ?thesis using False by (simp add: first_row_def upsert_row_def find_app meta_row_def row_of_def text_eq_def)
qed

definition watermark_is :: "'x metric_db_scheme \<Rightarrow> int \<Rightarrow> bool" where
  "watermark_is s w \<longleftrightarrow> ob_faults s = [] \<and> mt_faults s = [] \<and> read_watermark s = (Inr (Some w), s)"

definition edge_rows_of :: "(string \<Rightarrow> nat list option) \<Rightarrow> 'x metric_db_scheme \<Rightarrow> edge_row list" where
  "edge_rows_of ph s = map (edge_row_of ph) (ob_rows s EbpfEdges)"

definition integer_buckets :: "'x metric_db_scheme \<Rightarrow> bool" where
  "integer_buckets s \<longleftrightarrow> (\<forall>r \<in> set (ob_rows s EbpfEdges). \<exists>b. r ''bucket_start'' = SqlInteger b)"

text \<open>A round adds the points of the rows after the watermark and moves it.\<close>

lemma round_effect:
  assumes "watermark_is s w" "ebpf_round ph lag now s = (res, s')" "upper = floor_minute (now - max lag 0 * 1000000)"
    and "w < upper" "0 \<le> upper" "upper < 2 ^ 63" "integer_buckets s"
  shows "watermark_is s' upper \<and> ob_rows s' EbpfEdges = ob_rows s EbpfEdges \<and> is_some (case res of Inr x \<Rightarrow> Some x | _ \<Rightarrow> None) \<and>
    mt_points s' = mt_points s @ aggregate (filter (\<lambda>r. w < er_bucket_start r \<and> er_bucket_start r \<le> upper) (edge_rows_of ph s))"
proof -
  have f: "ob_faults s = []" "mt_faults s = []" and r: "read_watermark s = (Inr (Some w), s)"
    using assms(1) by (simp_all add: watermark_is_def)
  let ?rs = "filter (\<lambda>r. w < er_bucket_start r \<and> er_bucket_start r \<le> upper) (edge_rows_of ph s)"
  have l: "load_rows ph w upper s = (Inr ?rs, s)"
  proof -
    have "map (edge_row_of ph) (filter (\<lambda>r. w < field_i64 r ''bucket_start'' \<and> field_i64 r ''bucket_start'' \<le> upper) rs) =
        filter (\<lambda>r. w < er_bucket_start r \<and> er_bucket_start r \<le> upper) (map (edge_row_of ph) rs)"
      if "\<forall>r \<in> set rs. \<exists>b. r ''bucket_start'' = SqlInteger b" for rs
      using that by (induction rs) (auto simp: edge_row_of_def num_i64_def field_i64_def)
    then show ?thesis using assms(7) by (simp add: load_rows_def ob_select_ok f edge_rows_of_def integer_buckets_def)
  qed
  have w: "write_watermark upper t = (Inr (), set_rows ObsMeta (upsert_row [''key''] [''value''] (meta_row WATERMARK_KEY (int_dec upper))
      (ob_rows t ObsMeta)) 1 t)" if "ob_faults t = []" for t :: "'a metric_db_scheme"
    using that by (simp add: write_watermark_def write_meta_def ob_change_ok)
  have p: "parse_i64 (int_dec upper) = Some upper" by (rule parse_i64_int_dec) (use assms(5,6) in simp_all)
  have a0: "aggregate [] = []"
    by (simp add: aggregate_def tally_def connection_counts_def positive_counts_def bytes_counts_def durations_def)
  let ?s' = "set_rows ObsMeta (upsert_row [''key''] [''value''] (meta_row WATERMARK_KEY (int_dec upper)) (ob_rows s ObsMeta)) 1
    (s\<lparr>mt_points := mt_points s @ aggregate ?rs\<rparr>)"
  have "\<exists>x. ebpf_round ph lag now s = (Inr x, ?s')"
  proof (cases "?rs = []")
    case True
    then have "?s' = set_rows ObsMeta (upsert_row [''key''] [''value''] (meta_row WATERMARK_KEY (int_dec upper)) (ob_rows s ObsMeta)) 1 s"
      by (simp add: a0)
    then show ?thesis using assms(4) True
      by (simp add: ebpf_round_def Let_def assms(3) [symmetric] ob_bind_def r l w [OF f(1)] ob_return_def del: filter_empty_conv)
  next
    case False
    have "ob_faults (s\<lparr>mt_points := mt_points s @ aggregate ?rs\<rparr>) = []" by (simp add: f)
    from w [OF this] show ?thesis using assms(4) False
      by (simp add: ebpf_round_def Let_def assms(3) [symmetric] ob_bind_def r l write_points_ok [OF f(2)] ob_return_def del: filter_empty_conv)
  qed
  then have s': "s' = ?s'" "is_some (case res of Inr x \<Rightarrow> Some x | _ \<Rightarrow> None)" using assms(2) by auto
  have "read_watermark ?s' = (Inr (Some upper), ?s')"
    by (simp add: read_watermark_def ob_select_ok f upsert_meta_read p)
  then show ?thesis using s' by (simp add: watermark_is_def f) (simp add: f set_rows_def)
qed

section \<open>Properties\<close>

definition connections_in :: "edge_row list \<Rightarrow> string \<Rightarrow> string \<Rightarrow> int \<Rightarrow> (int \<Rightarrow> bool) \<Rightarrow> int" where
  "connections_in rs src dst port p = sum_list (map er_connections
     (filter (\<lambda>r. er_src_service r = src \<and> er_dst_service r = dst \<and> er_dst_port r = port \<and> p (er_bucket_start r)) rs))"

lemma connection_sum:
  "bt_get (tally (connection_counts (filter (\<lambda>r. q (er_bucket_start r)) rs))) ((ts, src, dst), port) =
    (if \<exists>r \<in> set rs. er_src_service r = src \<and> er_dst_service r = dst \<and> er_dst_port r = port \<and>
          q (er_bucket_start r) \<and> floor_minute (er_bucket_start r) = ts
     then Some (connections_in rs src dst port (\<lambda>b. q b \<and> floor_minute b = ts)) else None)"
proof -
  have "sum_for ((ts, src, dst), port) (connection_counts (filter (\<lambda>r. q (er_bucket_start r)) rs)) =
      connections_in rs src dst port (\<lambda>b. q b \<and> floor_minute b = ts)"
    by (induction rs) (auto simp: sum_for_def connection_counts_def connections_in_def pair_of_def)
  moreover have "((ts, src, dst), port) \<in> fst ` set (connection_counts (filter (\<lambda>r. q (er_bucket_start r)) rs)) \<longleftrightarrow>
    (\<exists>r \<in> set rs. er_src_service r = src \<and> er_dst_service r = dst \<and> er_dst_port r = port \<and>
          q (er_bucket_start r) \<and> floor_minute (er_bucket_start r) = ts)"
    by (auto simp: connection_counts_def pair_of_def image_iff)
  ultimately show ?thesis by (simp only: tally_get)
qed

lemma connections_in_split:
  assumes "\<And>b. p b \<longleftrightarrow> q b \<or> r b" "\<And>b. \<not> (q b \<and> r b)"
  shows "connections_in rs src dst port p = connections_in rs src dst port q + connections_in rs src dst port r"
  using assms by (induction rs) (auto simp: connections_in_def)

lemma floor_minute_mult: "floor_minute t = MINUTE_MICROS * (t div MINUTE_MICROS)"
  by (simp add: floor_minute_def minus_mod_eq_mult_div)

lemma floor_minute_iff:
  assumes "floor_minute u = u"
  shows "floor_minute b = u \<longleftrightarrow> u \<le> b \<and> b < u + MINUTE_MICROS"
proof -
  let ?q = "b div MINUTE_MICROS" and ?k = "u div MINUTE_MICROS"
  have u: "u = MINUTE_MICROS * ?k" using assms floor_minute_mult by simp
  have b: "b = MINUTE_MICROS * ?q + b mod MINUTE_MICROS" by simp
  have m: "0 \<le> b mod MINUTE_MICROS" "b mod MINUTE_MICROS < MINUTE_MICROS" by (simp_all add: MINUTE_MICROS_def)
  have "?q = ?k" if "u \<le> b" "b < u + MINUTE_MICROS"
  proof (rule antisym; rule ccontr)
    assume "\<not> ?q \<le> ?k"
    then have "MINUTE_MICROS * (?k + 1) \<le> MINUTE_MICROS * ?q" by (intro mult_left_mono) (simp_all add: MINUTE_MICROS_def)
    moreover have "MINUTE_MICROS * (?k + 1) = u + MINUTE_MICROS" using u by (simp add: distrib_left)
    ultimately show False using that m b by linarith
  next
    assume "\<not> ?k \<le> ?q"
    then have "MINUTE_MICROS * (?q + 1) \<le> MINUTE_MICROS * ?k" by (intro mult_left_mono) (simp_all add: MINUTE_MICROS_def)
    moreover have "MINUTE_MICROS * (?q + 1) = MINUTE_MICROS * ?q + MINUTE_MICROS" by (simp add: distrib_left)
    ultimately show False using that m b u by linarith
  qed
  then show ?thesis using m b u floor_minute_mult [of b] by (metis add.commute add_le_cancel_left add_strict_left_mono le_add_same_cancel1)
qed

lemma floor_minute_idem: "floor_minute (floor_minute t) = floor_minute t"
  by (simp add: floor_minute_def mod_diff_left_eq [symmetric])

text \<open>The first bucket of a minute is lost: a round ends with the rows at the instant a minute begins and the next one
  starts after it, both write the value of that minute, and the second value replaces the first; what stays for
  the minute is the number of its connections without those of its first bucket.\<close>

lemma minute_start_lost:
  assumes "watermark_is s w" "integer_buckets s" "ebpf_round ph lag now1 s = (r1, s1)" "ebpf_round ph lag now2 s1 = (r2, s2)"
    and "u = floor_minute (now1 - max lag 0 * 1000000)" "u2 = floor_minute (now2 - max lag 0 * 1000000)"
    and "0 \<le> w" "w < u" "u + MINUTE_MICROS \<le> u2" "u2 < 2 ^ 63"
    and "r \<in> set (edge_rows_of ph s)" "u < er_bucket_start r" "er_bucket_start r < u + MINUTE_MICROS"
  shows "ts_value (mt_points s2) ''ebpf_edge_connections_total''
      (tags_of (connection_tags (er_src_service r) (er_dst_service r) (er_dst_port r))) u =
    Some (of_int (connections_in (edge_rows_of ph s) (er_src_service r) (er_dst_service r) (er_dst_port r) (\<lambda>b. floor_minute b = u) -
      connections_in (edge_rows_of ph s) (er_src_service r) (er_dst_service r) (er_dst_port r) (\<lambda>b. b = u)))"
proof -
  let ?rs = "edge_rows_of ph s" and ?c = "connections_in (edge_rows_of ph s) (er_src_service r) (er_dst_service r) (er_dst_port r)"
  have m: "0 < MINUTE_MICROS" by (simp add: MINUTE_MICROS_def)
  have fu: "floor_minute b = u \<longleftrightarrow> u \<le> b \<and> b < u + MINUTE_MICROS" for b
    by (rule floor_minute_iff) (simp add: assms(5) floor_minute_idem)
  have 1: "watermark_is s1 u" "ob_rows s1 EbpfEdges = ob_rows s EbpfEdges"
    using round_effect [OF assms(1,3,5,8)] assms(2,7-10) m by auto
  have e: "edge_rows_of ph s1 = ?rs" "integer_buckets s1" using 1(2) assms(2) by (simp_all add: edge_rows_of_def integer_buckets_def)
  let ?late = "filter (\<lambda>r. u < er_bucket_start r \<and> er_bucket_start r \<le> u2) ?rs"
  have 2: "mt_points s2 = mt_points s1 @ aggregate ?late"
    using round_effect [OF 1(1) assms(4,6)] assms(7-10) e m by auto
  have "bt_get (tally (connection_counts ?late)) ((u, er_src_service r, er_dst_service r), er_dst_port r) =
      Some (?c (\<lambda>b. (u < b \<and> b \<le> u2) \<and> floor_minute b = u))"
  proof -
    have "er_bucket_start r \<le> u2" "floor_minute (er_bucket_start r) = u" using assms(9,12,13) fu by auto
    then have ex: "\<exists>q \<in> set ?rs. er_src_service q = er_src_service r \<and> er_dst_service q = er_dst_service r \<and>
        er_dst_port q = er_dst_port r \<and> (u < er_bucket_start q \<and> er_bucket_start q \<le> u2) \<and> floor_minute (er_bucket_start q) = u"
      using assms(11,12) by blast
    show ?thesis by (rule trans [OF connection_sum [of "\<lambda>b. u < b \<and> b \<le> u2" ?rs u "er_src_service r" "er_dst_service r" "er_dst_port r"] if_P [OF ex]])
  qed
  moreover have "?c (\<lambda>b. floor_minute b = u) = ?c (\<lambda>b. (u < b \<and> b \<le> u2) \<and> floor_minute b = u) + ?c (\<lambda>b. b = u)"
  proof (rule connections_in_split)
    fix b
    show "floor_minute b = u \<longleftrightarrow> (u < b \<and> b \<le> u2) \<and> floor_minute b = u \<or> b = u"
      using fu [of b] assms(9) m by linarith
    show "\<not> (((u < b \<and> b \<le> u2) \<and> floor_minute b = u) \<and> b = u)" by simp
  qed
  ultimately show ?thesis by (simp add: 2 ts_value_append connection_value)
qed

text \<open>Two buckets of the minute from 60 s on, the first of them at its start.\<close>

definition w_row :: "int \<Rightarrow> int \<Rightarrow> int \<Rightarrow> sql_row" where
  "w_row bucket port n = row_of [(''bucket_start'', SqlInteger bucket), (''src_service'', SqlText ''a''), (''dst_service'', SqlText ''b''),
     (''dst_port'', SqlInteger port), (''connections'', SqlInteger n)]"

definition w_metrics :: metric_db where
  "w_metrics = \<lparr>ob_rows = (\<lambda>t. if t = ObsMeta then [meta_row WATERMARK_KEY ''0'']
       else if t = EbpfEdges then [w_row 60000000 80 5, w_row 70000000 80 3] else []),
     ob_cols = (\<lambda>t. Some (columns t)), ob_changes = 0, ob_faults = [], mt_points = [], mt_faults = []\<rparr>"

lemma w_metrics_facts:
  "watermark_is w_metrics 0" "integer_buckets w_metrics"
  "edge_rows_of (\<lambda>_. Some []) w_metrics = map (edge_row_of (\<lambda>_. Some [])) [w_row 60000000 80 5, w_row 70000000 80 3]"
  by (simp_all add: watermark_is_def w_metrics_def read_watermark_def ob_select_ok first_row_def meta_row_def row_of_def text_eq_def
      parse_i64_def parse_digits_def char_digit_def integer_buckets_def w_row_def edge_rows_of_def)

lemma w_row_sel:
  "er_bucket_start (edge_row_of ph (w_row b p n)) = b" "er_src_service (edge_row_of ph (w_row b p n)) = ''a''"
  "er_dst_service (edge_row_of ph (w_row b p n)) = ''b''" "er_dst_port (edge_row_of ph (w_row b p n)) = p"
  "er_connections (edge_row_of ph (w_row b p n)) = n"
  by (simp_all add: edge_row_of_def w_row_def row_of_def num_i64_def field_text_def)

theorem minute_start_lost_witness:
  "ts_value (mt_points (snd (ebpf_round (\<lambda>_. Some []) 60 180000000 (snd (ebpf_round (\<lambda>_. Some []) 60 120000000 w_metrics)))))
     ''ebpf_edge_connections_total'' (tags_of (connection_tags ''a'' ''b'' 80)) 60000000 = Some 3"
proof -
  let ?r = "edge_row_of (\<lambda>_. Some []) (w_row 70000000 80 3)"
  have u: "60000000 = floor_minute (120000000 - max 60 0 * 1000000)" "120000000 = floor_minute (180000000 - max 60 0 * 1000000)"
    by (simp_all add: floor_minute_def MINUTE_MICROS_def)
  have r: "?r \<in> set (edge_rows_of (\<lambda>_. Some []) w_metrics)" by (simp add: w_metrics_facts)
  show ?thesis
    using minute_start_lost [OF w_metrics_facts(1,2) prod.collapse [symmetric] prod.collapse [symmetric] u _ _ _ _ r]
    by (simp add: w_row_sel w_metrics_facts(3) connections_in_def floor_minute_def MINUTE_MICROS_def)
qed

text \<open>Calls to several ports of a service are not added up: the series of requests between two services has no port
  label, the counts by port are written to it one after the other, and what stays for a minute is the count
  of the greatest port alone.\<close>

lemma requests_of_greatest_port:
  assumes "r \<in> set rs" "\<And>r'. r' \<in> set rs \<Longrightarrow> pair_of r' = pair_of r \<Longrightarrow> er_dst_port r' \<le> er_dst_port r"
  shows "ts_value (aggregate rs) ''apm_edge_requests_total'' (tags_of (request_tags (er_src_service r) (er_dst_service r)))
      (floor_minute (er_bucket_start r)) =
    Some (of_int (sum_list (map er_connections (filter (\<lambda>q. pair_of q = pair_of r \<and> er_dst_port q = er_dst_port r) rs))))"
proof -
  have "sum_for (pair_of r, er_dst_port r) (connection_counts rs) =
      sum_list (map er_connections (filter (\<lambda>q. pair_of q = pair_of r \<and> er_dst_port q = er_dst_port r) rs))"
    by (induction rs) (auto simp: sum_for_def connection_counts_def)
  then show ?thesis using request_value [OF assms] by simp
qed

theorem requests_of_greatest_port_witness:
  "ts_value (aggregate (map (edge_row_of (\<lambda>_. Some [])) [w_row 60000000 443 7, w_row 60000000 80 5]))
     ''apm_edge_requests_total'' (tags_of (request_tags ''a'' ''b'')) 60000000 = Some 7"
proof -
  have "er_dst_port r' \<le> 443" if "r' \<in> set (map (edge_row_of (\<lambda>_. Some [])) [w_row 60000000 443 7, w_row 60000000 80 5])" for r'
    using that by (auto simp: w_row_sel)
  then show ?thesis
    using requests_of_greatest_port [of "edge_row_of (\<lambda>_. Some []) (w_row 60000000 443 7)"
        "map (edge_row_of (\<lambda>_. Some [])) [w_row 60000000 443 7, w_row 60000000 80 5]"]
    by (simp add: w_row_sel pair_of_def floor_minute_def MINUTE_MICROS_def)
qed

end
