(* ===== verification/Apm_Metrics.thy ===== *)
theory Apm_Metrics
  imports Metric_Points Red_Samples
begin

text \<open>
  \<^verbatim>\<open>crates/dataplane-apm/src/aggregator.rs\<close>: the closed minutes of the samples become request, error and
  duration series of the services, and the stored edges of these minutes those of the calls between
  services. The samples are taken out of memory before the first statement, whatever follows.
\<close>

definition SOURCE_OTLP :: string where "SOURCE_OTLP = ''otlp''"

record apm_report =
  ar_service_points :: nat
  ar_edge_points :: nat
  ar_buckets :: "int list"

section \<open>Services\<close>

text \<open>Counts are kept by status, durations over all of them; only server spans are counted.\<close>

type_synonym operation_key = "int \<times> string \<times> string \<times> string"

definition group_operation :: "group_stats \<Rightarrow> operation_key" where
  "group_operation g = (gs_bucket_start g, gs_src_or_service g, gs_dst_or_operation g, gs_span_kind g)"

definition server_groups :: "group_stats list \<Rightarrow> group_stats list" where
  "server_groups gs = filter (\<lambda>g. gs_span_kind g = ''server'') gs"

definition service_counts :: "group_stats list \<Rightarrow> (operation_key \<times> string, int) btmap" where
  "service_counts gs = tally (map (\<lambda>g. ((group_operation g, gs_status g), int (gs_count g))) gs)"

definition service_durations :: "group_stats list \<Rightarrow> (operation_key, nat \<times> int \<times> int \<times> int list) btmap" where
  "service_durations gs = foldl (\<lambda>m g.
     let (n, s, x, d) = unwrap_or (bt_get m (group_operation g)) (0, 0, 0, [])
     in bt_insert (group_operation g) (n + gs_count g, s + gs_duration_sum g, max x (gs_duration_max g), d @ gs_samples g) m) [] gs"

definition service_tags :: "string \<Rightarrow> string \<Rightarrow> string \<Rightarrow> (string \<times> string) list" where
  "service_tags service operation kind =
     [(''service'', service), (''operation'', operation), (''span_kind'', kind), (''source'', SOURCE_OTLP)]"

definition status_tags :: "string \<Rightarrow> string \<Rightarrow> string \<Rightarrow> string \<Rightarrow> (string \<times> string) list" where
  "status_tags service operation kind status =
     [(''service'', service), (''operation'', operation), (''span_kind'', kind), (''status'', status), (''source'', SOURCE_OTLP)]"

definition count_points :: "(operation_key \<times> string) \<times> int \<Rightarrow> rat ts_point list" where
  "count_points e = (let (((bucket, service, operation, kind), status), n) = e;
       p = (\<lambda>m. metric_point m (status_tags service operation kind status) (of_int n) bucket) in
     p ''apm_service_requests_total'' # (if status = ''error'' then [p ''apm_service_errors_total''] else []))"

definition operation_points :: "operation_key \<times> nat \<times> int \<times> int \<times> int list \<Rightarrow> rat ts_point list" where
  "operation_points e = (let ((bucket, service, operation, kind), n, s, x, d) = e;
       p = (\<lambda>(field, v). metric_point ''apm_service_duration_micros''
              (service_tags service operation kind @ [(''field'', field)]) (of_int v) bucket) in
     map p (List.map_filter (\<lambda>(field, v). map_option (Pair field) v)
       [(''avg'', if n > 0 then Some (tdiv s (int n)) else None), (''p50'', percentile 50 d), (''p95'', percentile 95 d),
        (''p99'', percentile 99 d), (''max'', Some x)]))"

definition service_points :: "group_stats list \<Rightarrow> rat ts_point list" where
  "service_points gs = concat (map count_points (service_counts (server_groups gs))) @
     concat (map operation_points (service_durations (server_groups gs)))"

section \<open>Edges\<close>

definition merge_edge_samples :: "group_stats list \<Rightarrow> (operation_key, int list) btmap" where
  "merge_edge_samples gs = foldl (\<lambda>m g. bt_insert (group_operation g) (unwrap_or (bt_get m (group_operation g)) [] @ gs_samples g) m) [] gs"

text \<open>The edges of a minute, summed over the agents by source, target and kind.\<close>

record edge_sums =
  es_src :: string
  es_dst :: string
  es_kind :: string
  es_calls :: int
  es_errors :: int
  es_duration_sum :: int

definition edge_sum_key :: "sql_row \<Rightarrow> string \<times> string \<times> string" where
  "edge_sum_key r = (field_text r ''src_service'', field_text r ''dst_service'', field_text r ''span_kind'')"

definition edge_column :: "string \<Rightarrow> sql_row list \<Rightarrow> (string \<times> string \<times> string, int) btmap" where
  "edge_column c rs = tally (map (\<lambda>r. (edge_sum_key r, field_i64 r c)) rs)"

definition edge_rows :: "int \<Rightarrow> ('x, edge_sums list) obs" where
  "edge_rows bucket = ob_select EdgeSummary (\<lambda>rs.
     let m = filter (\<lambda>r. r ''bucket_start'' = SqlInteger bucket) rs in
     map (\<lambda>((src, dst, kind), n). \<lparr>es_src = src, es_dst = dst, es_kind = kind, es_calls = n,
            es_errors = unwrap_or (bt_get (edge_column ''errors'' m) (src, dst, kind)) 0,
            es_duration_sum = unwrap_or (bt_get (edge_column ''duration_sum'' m) (src, dst, kind)) 0\<rparr>)
       (edge_column ''calls'' m))"

definition edge_tags :: "edge_sums \<Rightarrow> (string \<times> string) list" where
  "edge_tags e = [(''src_service'', es_src e), (''dst_service'', es_dst e), (''span_kind'', es_kind e), (''source'', SOURCE_OTLP)]"

definition edge_points :: "int \<Rightarrow> (operation_key, int list) btmap \<Rightarrow> edge_sums \<Rightarrow> rat ts_point list" where
  "edge_points bucket samples e =
     (let d = (\<lambda>field v. metric_point ''apm_edge_duration_micros'' (edge_tags e @ [(''field'', field)]) v bucket) in
     metric_point ''apm_edge_requests_total'' (edge_tags e) (of_int (es_calls e)) bucket #
     (if es_errors e > 0 then [metric_point ''apm_edge_errors_total'' (edge_tags e) (of_int (es_errors e)) bucket] else []) @
     (if es_calls e > 0 then [d ''avg'' (of_int (es_duration_sum e) / of_int (es_calls e))] else []) @
     (case Option.bind (bt_get samples (bucket, es_src e, es_dst e, es_kind e)) (percentile 95) of
        Some v \<Rightarrow> [d ''p95'' (of_int v)] | None \<Rightarrow> []))"

text \<open>One minute after the other: its rows are read, then its points written.\<close>

fun edge_minutes :: "(operation_key, int list) btmap \<Rightarrow> int list \<Rightarrow> ('x, nat) mt" where
  "edge_minutes samples [] = ob_return 0"
| "edge_minutes samples (b # bs) = ob_bind (edge_rows b) (\<lambda>es.
     let ps = concat (map (edge_points b samples) es) in
     ob_bind (write_points ps) (\<lambda>_. ob_bind (edge_minutes samples bs) (\<lambda>n. ob_return (length ps + n))))"

definition apm_round ::
    "int \<Rightarrow> red_samples \<Rightarrow> 'x metric_db_scheme \<Rightarrow> (dataplane_error, apm_report) result \<times> red_samples \<times> 'x metric_db_scheme" where
  "apm_round now red s =
     (let (closed, red') = take_closed now red; sp = service_points (cl_service closed);
          samples = merge_edge_samples (cl_edge closed); bs = remdups_adj (map (\<lambda>(k, _). fst k) samples);
          (r, s') = ob_bind (write_points sp) (\<lambda>_. ob_bind (edge_minutes samples bs) (\<lambda>n.
            ob_return \<lparr>ar_service_points = length sp, ar_edge_points = n, ar_buckets = bs\<rparr>)) s
      in (r, red', s'))"

section \<open>Reading the counts back\<close>

lemma status_tags_inject:
  "tags_of (status_tags a b k st) = tags_of (status_tags a' b' k' st') \<longleftrightarrow> a = a' \<and> b = b' \<and> k = k' \<and> st = st'"
proof
  assume e: "tags_of (status_tags a b k st) = tags_of (status_tags a' b' k' st')"
  have g: "bt_get (tags_of (status_tags a b k st)) ''service'' = Some a"
    "bt_get (tags_of (status_tags a b k st)) ''operation'' = Some b"
    "bt_get (tags_of (status_tags a b k st)) ''span_kind'' = Some k"
    "bt_get (tags_of (status_tags a b k st)) ''status'' = Some st" for a b k st
    by (simp_all add: tags_of_def bt_get_of_list status_tags_def)
  show "a = a' \<and> b = b' \<and> k = k' \<and> st = st'" using g [of a b k st] g [of a' b' k' st'] by (simp add: e)
qed simp

lemma operation_points_name: "p \<in> set (operation_points e) \<Longrightarrow> tp_measurement p = ''apm_service_duration_micros''"
  unfolding operation_points_def Let_def by (cases e) (auto simp: metric_point_def simp del: List.map_filter_simps)

lemma count_value:
  "ts_value (service_points gs) ''apm_service_requests_total'' (tags_of (status_tags service operation kind status)) b =
     map_option of_int (bt_get (service_counts (server_groups gs)) ((b, service, operation, kind), status))"
proof -
  let ?m = "''apm_service_requests_total''" and ?t = "tags_of (status_tags service operation kind status)"
  have d: "ts_value (concat (map operation_points x)) ?m ?t b = None" for x
    by (rule ts_value_other) (auto dest: operation_points_name)
  have one: "ts_value (count_points (((b', a, p, k), st), n)) ?m ?t b =
      (if ((b', a, p, k), st) = ((b, service, operation, kind), status) then Some (of_int n) else None)" for b' a p k st n
    by (auto simp: count_points_def Let_def ts_value_def is_point_def metric_point_def status_tags_inject)
  have "distinct (map fst m) \<Longrightarrow> ts_value (concat (map count_points m)) ?m ?t b =
      map_option of_int (bt_get m ((b, service, operation, kind), status))" for m
  proof (induction m)
    case Nil
    then show ?case by (simp add: ts_value_def)
  next
    case (Cons e m)
    obtain b' a p k st n where e: "e = (((b', a, p, k), st), n)" by (metis prod.exhaust)
    have "bt_get m ((b', a, p, k), st) = None" using Cons.prems by (simp add: e bt_get_def map_of_eq_None_iff)
    then show ?case using Cons by (auto simp: e ts_value_append one bt_get_def split: option.splits)
  qed
  from this [OF bt_ok_distinct [OF tally_ok]] show ?thesis by (simp add: service_points_def ts_value_append d service_counts_def)
qed

text \<open>A group of the samples is counted as it is: groups differ in their whole key.\<close>

lemma group_counted:
  assumes "bt_ok m" "bt_get m (b, service, operation, ''server'', status) = Some g"
  shows "bt_get (service_counts (server_groups (map stats_of m))) ((b, service, operation, ''server''), status) = Some (int (ga_count g))"
proof -
  let ?k = "(b, service, operation, ''server'', status)"
  let ?kvs = "map (\<lambda>g. ((group_operation g, gs_status g), int (gs_count g))) (server_groups (map stats_of m))"
  have "sum_for ((b, service, operation, ''server''), status)
      (map (\<lambda>g. ((group_operation g, gs_status g), int (gs_count g))) (server_groups (map stats_of m))) =
      (case map_of m ?k of Some g \<Rightarrow> int (ga_count g) | None \<Rightarrow> 0)" if "distinct (map fst m)" for m
    using that
  proof (induction m)
    case Nil
    then show ?case by (simp add: sum_for_def server_groups_def)
  next
    case (Cons e m)
    obtain b' a p k st h where e: "e = ((b', a, p, k, st), h)" by (metis prod.exhaust)
    have "map_of m (b', a, p, k, st) = None" using Cons.prems by (simp add: e map_of_eq_None_iff)
    then show ?case using Cons
      by (auto simp: e sum_for_def server_groups_def stats_of_def group_operation_def split: option.splits)
  qed
  from this [OF bt_ok_distinct [OF assms(1)]]
  have s: "sum_for ((b, service, operation, ''server''), status) ?kvs = int (ga_count g)"
    using assms(2) by (simp add: bt_get_def)
  have "stats_of (?k, g) \<in> set (server_groups (map stats_of m))"
    using bt_get_SomeD [OF assms(2)] by (simp add: server_groups_def stats_of_def image_iff) force
  then have "((b, service, operation, ''server''), status) \<in> fst ` set ?kvs"
    by (force simp: image_iff stats_of_def group_operation_def)
  then show ?thesis by (simp only: service_counts_def tally_get if_True s)
qed

lemma edge_points_other: "p \<in> set (edge_points b samples e) \<Longrightarrow> tp_measurement p \<noteq> ''apm_service_requests_total''"
  by (auto simp: edge_points_def metric_point_def Let_def split: if_splits option.splits)

lemma edge_minutes_points:
  assumes "ob_faults s = []" "mt_faults s = []"
  shows "\<exists>n ps. edge_minutes samples bs s = (Inr n, s\<lparr>mt_points := mt_points s @ ps\<rparr>) \<and>
    (\<forall>p \<in> set ps. tp_measurement p \<noteq> ''apm_service_requests_total'')"
  using assms
proof (induction bs arbitrary: s)
  case Nil
  then show ?case by (intro exI [of _ 0] exI [of _ "[]"]) (simp add: ob_return_def)
next
  case (Cons b bs)
  obtain es where es: "edge_rows b s = (Inr es, s)" using Cons.prems by (simp add: edge_rows_def ob_select_ok)
  let ?ps = "concat (map (edge_points b samples) es)"
  obtain n ps where r: "edge_minutes samples bs (s\<lparr>mt_points := mt_points s @ ?ps\<rparr>) = (Inr n, s\<lparr>mt_points := (mt_points s @ ?ps) @ ps\<rparr>)"
      "\<forall>p \<in> set ps. tp_measurement p \<noteq> ''apm_service_requests_total''"
    using Cons.IH [of "s\<lparr>mt_points := mt_points s @ ?ps\<rparr>"] Cons.prems by auto
  have "edge_minutes samples (b # bs) s = (Inr (length ?ps + n), s\<lparr>mt_points := mt_points s @ ?ps @ ps\<rparr>)"
    using r(1) by (simp add: ob_bind_def es Let_def write_points_ok [OF Cons.prems(2)] ob_return_def)
  moreover have "\<forall>p \<in> set (?ps @ ps). tp_measurement p \<noteq> ''apm_service_requests_total''"
    using r(2) edge_points_other by fastforce
  ultimately show ?case by blast
qed

lemma apm_round_effect:
  assumes "ob_faults s = []" "mt_faults s = []" "apm_round now red s = (r, red', s')" "bt_ok (rd_service red)"
  shows "ob_faults s' = [] \<and> mt_faults s' = [] \<and> rd_service red' = filter (\<lambda>(k, _). \<not> bucket_closed now k) (rd_service red) \<and>
    rd_cap red' = rd_cap red \<and>
    (\<forall>b service operation status g. bt_get (rd_service red) (b, service, operation, ''server'', status) = Some g \<longrightarrow>
      b + 60 * MICROS_PER_SEC \<le> now \<longrightarrow>
      ts_value (mt_points s') ''apm_service_requests_total'' (tags_of (status_tags service operation ''server'' status)) b =
        Some (of_int (int (ga_count g))))"
proof -
  obtain closed red2 where t: "take_closed now red = (closed, red2)" by fastforce
  let ?m = "filter (\<lambda>(k, _). bucket_closed now k) (rd_service red)"
  have c: "cl_service closed = map stats_of ?m" "rd_service red2 = filter (\<lambda>(k, _). \<not> bucket_closed now k) (rd_service red)"
      "rd_cap red2 = rd_cap red"
    using t by (auto simp: take_closed_def drain_closed_groups_def)
  let ?sp = "service_points (cl_service closed)" and ?samples = "merge_edge_samples (cl_edge closed)"
  let ?bs = "remdups_adj (map (\<lambda>(k, _). fst k) ?samples)"
  obtain n ps where e: "edge_minutes ?samples ?bs (s\<lparr>mt_points := mt_points s @ ?sp\<rparr>) = (Inr n, s\<lparr>mt_points := (mt_points s @ ?sp) @ ps\<rparr>)"
      "\<forall>p \<in> set ps. tp_measurement p \<noteq> ''apm_service_requests_total''"
    using edge_minutes_points [of "s\<lparr>mt_points := mt_points s @ ?sp\<rparr>" ?samples ?bs] assms(1,2) by auto
  have s': "s' = s\<lparr>mt_points := (mt_points s @ ?sp) @ ps\<rparr>" "red' = red2"
    using assms(3) e(1) by (auto simp: apm_round_def t Let_def ob_bind_def write_points_ok [OF assms(2)] ob_return_def)
  have ok: "bt_ok ?m" by (rule bt_ok_filter [OF assms(4)])
  have "ts_value (mt_points s') ''apm_service_requests_total'' (tags_of (status_tags service operation ''server'' status)) b =
      Some (of_int (int (ga_count g)))"
    if g: "bt_get (rd_service red) (b, service, operation, ''server'', status) = Some g" "b + 60 * MICROS_PER_SEC \<le> now"
    for b service operation status g
  proof -
    have "((b, service, operation, ''server'', status), g) \<in> set ?m"
      using bt_get_SomeD [OF g(1)] g(2) by (simp add: bucket_closed_def)
    then have "bt_get ?m (b, service, operation, ''server'', status) = Some g" using bt_get_in_set [OF ok] by blast
    then show ?thesis using group_counted [OF ok] ts_value_other [of ps] e(2)
      by (simp add: s' ts_value_append c(1) count_value)
  qed
  then show ?thesis using assms(1,2) c(2,3) by (simp add: s')
qed

lemma observe_span_get:
  "bt_get (rd_service (observe_span b service operation kind status d red)) k =
    (if k = (b, service, operation, kind, status)
     then Some (fst (add_sample (rd_cap red) d (unwrap_or (bt_get (rd_service red) k) empty_group)))
     else bt_get (rd_service red) k)"
  by (simp add: observe_span_def observe_in_def bt_get_insert split: prod.split)

lemma observe_span_ok: "bt_ok (rd_service red) \<Longrightarrow> bt_ok (rd_service (observe_span b service operation kind status d red))"
  by (simp add: observe_span_def observe_in_def bt_ok_insert split: prod.split)

lemma observe_spans:
  assumes "bt_ok (rd_service red)" "ga_count (unwrap_or (bt_get (rd_service red) (b, service, operation, kind, status)) empty_group) + length ds \<le> u64_max"
    and "ds \<noteq> [] \<or> bt_get (rd_service red) (b, service, operation, kind, status) \<noteq> None"
  shows "bt_ok (rd_service (fold (observe_span b service operation kind status) ds red)) \<and>
    (\<exists>g. bt_get (rd_service (fold (observe_span b service operation kind status) ds red)) (b, service, operation, kind, status) = Some g \<and>
      ga_count g = ga_count (unwrap_or (bt_get (rd_service red) (b, service, operation, kind, status)) empty_group) + length ds)"
  using assms
proof (induction ds arbitrary: red)
  case Nil
  then show ?case by auto
next
  case (Cons d ds)
  let ?k = "(b, service, operation, kind, status)" and ?red = "observe_span b service operation kind status d red"
  have c: "ga_count (unwrap_or (bt_get (rd_service ?red) ?k) empty_group) =
      ga_count (unwrap_or (bt_get (rd_service red) ?k) empty_group) + 1"
    using Cons.prems(2) by (simp add: observe_span_get add_sample_def Let_def sat_add64_exact)
  have "bt_get (rd_service ?red) ?k \<noteq> None" by (simp add: observe_span_get)
  then show ?case using Cons.IH [of ?red] observe_span_ok [OF Cons.prems(1)] Cons.prems(2) c by simp
qed

section \<open>Properties\<close>

text \<open>Spans that arrive after their minute was written replace its count instead of adding to it: the samples of a
  written minute are gone from memory, so the next round counts the late ones alone and writes their
  number over the number the minute had.\<close>

lemma late_spans_replace_count:
  assumes "ob_faults s = []" "mt_faults s = []" "bt_ok (rd_service red)"
    and "bt_get (rd_service red) (b, service, operation, ''server'', status) = Some g" "b + 60 * MICROS_PER_SEC \<le> now1"
    and "apm_round now1 red s = (r1, red1, s1)"
    and "red2 = fold (observe_span b service operation ''server'' status) late red1" "late \<noteq> []" "length late \<le> u64_max" "now1 \<le> now2"
    and "apm_round now2 red2 s1 = (r2, red3, s2)"
  shows "ts_value (mt_points s1) ''apm_service_requests_total'' (tags_of (status_tags service operation ''server'' status)) b =
      Some (of_int (int (ga_count g))) \<and>
    ts_value (mt_points s2) ''apm_service_requests_total'' (tags_of (status_tags service operation ''server'' status)) b =
      Some (of_int (int (length late)))"
proof -
  let ?k = "(b, service, operation, ''server'', status)"
  note 1 = apm_round_effect [OF assms(1,2,6,3)]
  have ok1: "bt_ok (rd_service red1)" using 1 bt_ok_filter [OF assms(3)] by simp
  have "bt_get (rd_service red1) ?k = None"
    using 1 assms(5) by (auto simp: bt_get_def map_of_eq_None_iff bucket_closed_def)
  then have z: "ga_count (unwrap_or (bt_get (rd_service red1) ?k) empty_group) = 0" by (simp add: empty_group_def)
  have "bt_ok (rd_service red2) \<and> (\<exists>h. bt_get (rd_service red2) ?k = Some h \<and> ga_count h = length late)"
    using observe_spans [OF ok1, of b service operation "''server''" status late] assms(8,9) by (simp only: assms(7) z) simp
  then obtain h where h: "bt_ok (rd_service red2)" "bt_get (rd_service red2) ?k = Some h" "ga_count h = length late" by blast
  have "ob_faults s1 = []" "mt_faults s1 = []" using 1 by simp_all
  from apm_round_effect [OF this assms(11) h(1)] show ?thesis using 1 assms(4,5,10) h(2,3) by fastforce
qed

definition w_store :: metric_db where
  "w_store = \<lparr>ob_rows = (\<lambda>_. []), ob_cols = (\<lambda>t. Some (columns t)), ob_changes = 0, ob_faults = [], mt_points = [], mt_faults = []\<rparr>"

definition w_spans :: red_samples where
  "w_spans = fold (observe_span 0 ''web'' ''get'' ''server'' ''ok'') [5, 7] (red_new 10)"

definition w_round :: "(dataplane_error, apm_report) result \<times> red_samples \<times> metric_db" where
  "w_round = apm_round 60000000 w_spans w_store"

lemma w_spans_group:
  "bt_ok (rd_service w_spans)"
  "bt_get (rd_service w_spans) (0, ''web'', ''get'', ''server'', ''ok'') = Some \<lparr>ga_count = 2, ga_sum = 12, ga_max = 7, ga_samples = [5, 7]\<rparr>"
  by (simp_all add: w_spans_def observe_span_get add_sample_def Let_def red_new_def empty_group_def sat_add64_def u64_max_def
      sat_add_i64_def sat_i64_def i64_max_def i64_min_def observe_span_def observe_in_def bt_ok_def bt_get_def)

text \<open>Two spans in the first minute, one late span of the same operation after it was written.\<close>

theorem late_spans_replace_count_witness:
  "ts_value (mt_points (snd (snd w_round))) ''apm_service_requests_total''
     (tags_of (status_tags ''web'' ''get'' ''server'' ''ok'')) 0 = Some 2 \<and>
   ts_value (mt_points (snd (snd (apm_round 120000000
       (fold (observe_span 0 ''web'' ''get'' ''server'' ''ok'') [9] (fst (snd w_round))) (snd (snd w_round))))))
     ''apm_service_requests_total'' (tags_of (status_tags ''web'' ''get'' ''server'' ''ok'')) 0 = Some 1"
proof -
  have "ob_faults w_store = []" "mt_faults w_store = []" by (simp_all add: w_store_def)
  moreover have "apm_round 60000000 w_spans w_store = (fst w_round, fst (snd w_round), snd (snd w_round))"
    by (simp add: w_round_def)
  moreover obtain r2 red3 s2 where
    "apm_round 120000000 (fold (observe_span 0 ''web'' ''get'' ''server'' ''ok'') [9] (fst (snd w_round))) (snd (snd w_round)) = (r2, red3, s2)"
    by (metis prod_cases3)
  ultimately show ?thesis
    using late_spans_replace_count [OF _ _ w_spans_group _ _ refl, of w_store 60000000 "fst w_round" "fst (snd w_round)" "snd (snd w_round)" "[9]" 120000000]
    by (simp add: MICROS_PER_SEC_def u64_max_def)
qed

end
