(* ===== verification/Log_Store.thy ===== *)
theory Log_Store
  imports Observation Proto
begin

text \<open>
  \<^verbatim>\<open>crates/dataplane-log/src/lib.rs\<close> over an index seen as the list of its documents in the order they
  were added. The tokenizer of messages is the parameter \<open>tok\<close>; the order of a search by relevance is
  the parameter \<open>rank\<close>, of which only the set of documents is known. An exact term
  matches the whole of its field. Every query reads the last commit (the code reloads the reader first); failures of the
  index itself are not modelled.
\<close>

definition DEFAULT_LIMIT :: nat where "DEFAULT_LIMIT = 100"
definition MAX_LIMIT :: nat where "MAX_LIMIT = 1000"
definition DELETE_SCAN_LIMIT :: nat where "DELETE_SCAN_LIMIT = 100000"
definition LOG_SCHEMA_VERSION :: nat where "LOG_SCHEMA_VERSION = 4"
definition INDEXED_DEFAULT_LIMIT :: nat where "INDEXED_DEFAULT_LIMIT = 100"
definition INDEXED_MAX_LIMIT :: nat where "INDEXED_MAX_LIMIT = 10000"
definition DELETE_BATCH_LIMIT :: nat where "DELETE_BATCH_LIMIT = 10000"
definition DELETE_BATCH_MAX_ROUNDS :: nat where "DELETE_BATCH_MAX_ROUNDS = 10000"

record log_filter =
  lf_from_ts :: "int option"
  lf_to_ts :: "int option"
  lf_level :: "string option"
  lf_message_query :: "string option"
  lf_labels :: labels
  lf_limit :: nat

definition default_log_filter :: log_filter where
  "default_log_filter = \<lparr>lf_from_ts = None, lf_to_ts = None, lf_level = None, lf_message_query = None, lf_labels = [],
     lf_limit = DEFAULT_LIMIT\<rparr>"

datatype time_order = Asc | Desc

record indexed_filter =
  if_from_ts :: "int option"
  if_to_ts :: "int option"
  if_trace_id :: "string option"
  if_service :: "string option"
  if_data_type :: "string option"
  if_data_id :: "string option"
  if_level :: "string option"
  if_message_query :: "string option"
  if_limit :: nat
  if_order :: time_order

definition default_indexed_filter :: indexed_filter where
  "default_indexed_filter = \<lparr>if_from_ts = None, if_to_ts = None, if_trace_id = None, if_service = None, if_data_type = None,
     if_data_id = None, if_level = None, if_message_query = None, if_limit = INDEXED_DEFAULT_LIMIT, if_order = Desc\<rparr>"

definition by_trace_id :: "string \<Rightarrow> indexed_filter" where
  "by_trace_id t = default_indexed_filter\<lparr>if_trace_id := Some t, if_limit := INDEXED_MAX_LIMIT, if_order := Asc\<rparr>"

definition clamp_log_limit :: "nat \<Rightarrow> nat" where
  "clamp_log_limit n = min (if n = 0 then DEFAULT_LIMIT else n) MAX_LIMIT"

definition clamp_indexed_limit :: "nat \<Rightarrow> nat" where
  "clamp_indexed_limit n = min (if n = 0 then INDEXED_DEFAULT_LIMIT else n) INDEXED_MAX_LIMIT"

definition promoted :: "labels \<Rightarrow> string \<Rightarrow> string" where
  "promoted ls k = unwrap_or (bt_get ls k) []"

text \<open>The directory of an index: a kept one of another version is left alone and a new one is begun beside it.\<close>

definition resolve_index_dir :: "string option \<Rightarrow> bool \<Rightarrow> string \<Rightarrow> string" where
  "resolve_index_dir version has_index name =
     (if Option.bind (map_option trim version) parse_u64 = Some LOG_SCHEMA_VERSION then name
      else if \<not> has_index then name
      else name @ ''-v'' @ nat_dec LOG_SCHEMA_VERSION)"

section \<open>Queries\<close>

definition term_match :: "string option \<Rightarrow> string \<Rightarrow> bool" where
  "term_match v field = (case v of None \<Rightarrow> True | Some x \<Rightarrow> field = x)"

definition in_range :: "int option \<Rightarrow> int option \<Rightarrow> int \<Rightarrow> bool" where
  "in_range lo hi ts \<longleftrightarrow> unwrap_or lo i64_min \<le> ts \<and> ts \<le> unwrap_or hi i64_max"

definition message_match :: "(string \<Rightarrow> string list) \<Rightarrow> string option \<Rightarrow> string \<Rightarrow> bool" where
  "message_match tok q m = (case q of None \<Rightarrow> True | Some s \<Rightarrow> list_all (\<lambda>t. t \<in> set (tok m)) (tok s))"

definition indexed_match :: "(string \<Rightarrow> string list) \<Rightarrow> indexed_filter \<Rightarrow> log_record \<Rightarrow> bool" where
  "indexed_match tok f r \<longleftrightarrow> in_range (if_from_ts f) (if_to_ts f) (lr_timestamp r) \<and>
     term_match (if_trace_id f) (promoted (lr_labels r) ''trace_id'') \<and>
     term_match (if_data_type f) (promoted (lr_labels r) ''data_type'') \<and>
     term_match (if_service f) (promoted (lr_labels r) ''service'') \<and>
     term_match (if_data_id f) (promoted (lr_labels r) ''data_id'') \<and>
     term_match (if_level f) (lr_level r) \<and> message_match tok (if_message_query f) (lr_message r)"

definition indexed_top_docs :: "(string \<Rightarrow> string list) \<Rightarrow> indexed_filter \<Rightarrow> log_record list \<Rightarrow> log_record list" where
  "indexed_top_docs tok f docs =
     take (clamp_indexed_limit (if_limit f))
       (sort_key (\<lambda>r. case if_order f of Asc \<Rightarrow> lr_timestamp r | Desc \<Rightarrow> - lr_timestamp r) (filter (indexed_match tok f) docs))"

definition search_indexed :: "(string \<Rightarrow> string list) \<Rightarrow> indexed_filter \<Rightarrow> log_record list \<Rightarrow> log_record list" where
  "search_indexed = indexed_top_docs"

text \<open>A filter whose labels are all indexed; another label makes it none.\<close>

fun add_indexed_labels :: "labels \<Rightarrow> indexed_filter \<Rightarrow> indexed_filter option" where
  "add_indexed_labels [] f = Some f"
| "add_indexed_labels ((k, v) # kvs) f =
     (if k = ''trace_id'' then add_indexed_labels kvs (f\<lparr>if_trace_id := Some v\<rparr>)
      else if k = ''data_type'' then add_indexed_labels kvs (f\<lparr>if_data_type := Some v\<rparr>)
      else if k = ''service'' then add_indexed_labels kvs (f\<lparr>if_service := Some v\<rparr>)
      else if k = ''data_id'' then add_indexed_labels kvs (f\<lparr>if_data_id := Some v\<rparr>)
      else None)"

definition to_indexed_filter :: "log_filter \<Rightarrow> indexed_filter option" where
  "to_indexed_filter f = add_indexed_labels (lf_labels f)
     (default_indexed_filter\<lparr>if_from_ts := lf_from_ts f, if_to_ts := lf_to_ts f, if_level := lf_level f,
        if_message_query := lf_message_query f, if_limit := lf_limit f\<rparr>)"

definition filter_match :: "(string \<Rightarrow> string list) \<Rightarrow> log_filter \<Rightarrow> log_record \<Rightarrow> bool" where
  "filter_match tok f r \<longleftrightarrow> in_range (lf_from_ts f) (lf_to_ts f) (lr_timestamp r) \<and> term_match (lf_level f) (lr_level r) \<and>
     message_match tok (lf_message_query f) (lr_message r)"

definition labels_match :: "log_filter \<Rightarrow> log_record \<Rightarrow> bool" where
  "labels_match f r \<longleftrightarrow> list_all (\<lambda>(k, v). bt_get (lr_labels r) k = Some v) (lf_labels f)"

text \<open>The labels are compared after the cut: only the first documents by relevance are looked at.\<close>

definition collect_hits ::
    "(string \<Rightarrow> string list) \<Rightarrow> (log_record list \<Rightarrow> log_record list) \<Rightarrow> log_filter \<Rightarrow> nat \<Rightarrow> log_record list \<Rightarrow> log_record list" where
  "collect_hits tok rank f top_n docs =
     take (max top_n 1) (filter (labels_match f) (take (max top_n 1) (rank (filter (filter_match tok f) docs))))"

definition log_search ::
    "(string \<Rightarrow> string list) \<Rightarrow> (log_record list \<Rightarrow> log_record list) \<Rightarrow> log_filter \<Rightarrow> log_record list \<Rightarrow> log_record list" where
  "log_search tok rank f docs = take (clamp_log_limit (lf_limit f)) (collect_hits tok rank f MAX_LIMIT docs)"

section \<open>Changes\<close>

definition log_append :: "string \<Rightarrow> log_record \<Rightarrow> log_record list \<Rightarrow> log_record list" where
  "log_append uuid r docs = docs @ [r\<lparr>lr_id := (if lr_id r = [] then uuid else lr_id r)\<rparr>]"

definition delete_ids :: "string list \<Rightarrow> log_record list \<Rightarrow> log_record list" where
  "delete_ids ids docs = filter (\<lambda>r. lr_id r = [] \<or> lr_id r \<notin> set ids) docs"

text \<open>Deleting by the index goes on in batches until one is not full, at most \<open>rounds\<close> times.\<close>

fun delete_batches ::
    "(string \<Rightarrow> string list) \<Rightarrow> indexed_filter \<Rightarrow> nat \<Rightarrow> nat \<Rightarrow> log_record list \<Rightarrow> nat option \<times> log_record list" where
  "delete_batches tok f 0 n docs = (None, docs)"
| "delete_batches tok f (Suc rounds) n docs =
     (let batch = indexed_top_docs tok (f\<lparr>if_limit := DELETE_BATCH_LIMIT, if_order := Asc\<rparr>) docs in
      if batch = [] then (Some n, docs)
      else
        let docs' = delete_ids (map lr_id batch) docs in
        if length batch < DELETE_BATCH_LIMIT then (Some (n + length batch), docs')
        else delete_batches tok f rounds (n + length batch) docs')"

definition delete_matching ::
    "(string \<Rightarrow> string list) \<Rightarrow> (log_record list \<Rightarrow> log_record list) \<Rightarrow> log_filter \<Rightarrow> log_record list \<Rightarrow>
     (dataplane_error, nat) result \<times> log_record list" where
  "delete_matching tok rank f docs =
     (case to_indexed_filter f of
        Some g \<Rightarrow> (case delete_batches tok g DELETE_BATCH_MAX_ROUNDS 0 docs of
            (Some n, docs') \<Rightarrow> (Inr n, docs')
          | (None, docs') \<Rightarrow> (Inl \<lparr>de_code = QueryFailed,
              de_message = ''delete_matching exceeded '' @ nat_dec DELETE_BATCH_MAX_ROUNDS @ '' rounds''\<rparr>, docs'))
      | None \<Rightarrow>
          let ids = filter (\<lambda>i. i \<noteq> []) (map lr_id (collect_hits tok rank f DELETE_SCAN_LIMIT docs))
          in (Inr (length ids), delete_ids ids docs))"

section \<open>Deleting by the index is complete\<close>

lemma top_docs_full:
  assumes "length (indexed_top_docs tok (f\<lparr>if_limit := DELETE_BATCH_LIMIT, if_order := Asc\<rparr>) docs) < DELETE_BATCH_LIMIT"
  shows "set (indexed_top_docs tok (f\<lparr>if_limit := DELETE_BATCH_LIMIT, if_order := Asc\<rparr>) docs) = {r \<in> set docs. indexed_match tok f r}"
    and "length (indexed_top_docs tok (f\<lparr>if_limit := DELETE_BATCH_LIMIT, if_order := Asc\<rparr>) docs) = length (filter (indexed_match tok f) docs)"
proof -
  have m: "indexed_match tok (f\<lparr>if_limit := a, if_order := b\<rparr>) = indexed_match tok f" for a b
    by (rule ext) (simp add: indexed_match_def)
  have c: "clamp_indexed_limit DELETE_BATCH_LIMIT = DELETE_BATCH_LIMIT"
    by (simp add: clamp_indexed_limit_def DELETE_BATCH_LIMIT_def INDEXED_MAX_LIMIT_def)
  let ?s = "sort_key (\<lambda>r. lr_timestamp r) (filter (indexed_match tok f) docs)"
  have t: "indexed_top_docs tok (f\<lparr>if_limit := DELETE_BATCH_LIMIT, if_order := Asc\<rparr>) docs = take DELETE_BATCH_LIMIT ?s"
    by (simp add: indexed_top_docs_def m c)
  then have "length ?s < DELETE_BATCH_LIMIT" using assms by simp
  then have "take DELETE_BATCH_LIMIT ?s = ?s" by simp
  then show "set (indexed_top_docs tok (f\<lparr>if_limit := DELETE_BATCH_LIMIT, if_order := Asc\<rparr>) docs) = {r \<in> set docs. indexed_match tok f r}"
    "length (indexed_top_docs tok (f\<lparr>if_limit := DELETE_BATCH_LIMIT, if_order := Asc\<rparr>) docs) = length (filter (indexed_match tok f) docs)"
    unfolding t by auto
qed

text \<open>Documents with an id of their own: what is left out of a deletion stays.\<close>

definition ids_ok :: "log_record list \<Rightarrow> bool" where
  "ids_ok docs \<longleftrightarrow> distinct (map lr_id docs) \<and> [] \<notin> lr_id ` set docs"

lemma delete_ids_members:
  assumes "ids_ok docs" "set batch \<subseteq> set docs"
  shows "delete_ids (map lr_id batch) docs = filter (\<lambda>r. r \<notin> set batch) docs"
proof -
  have inj: "inj_on lr_id (set docs)" using assms(1) by (simp add: ids_ok_def distinct_map)
  have "(lr_id r = [] \<or> lr_id r \<notin> set (map lr_id batch)) = (r \<notin> set batch)" if "r \<in> set docs" for r
  proof -
    have "lr_id r \<noteq> []" using assms(1) that unfolding ids_ok_def by (metis image_eqI)
    moreover have "lr_id r \<in> lr_id ` set batch \<longleftrightarrow> r \<in> set batch"
      using inj_on_image_mem_iff [OF inj that assms(2)] .
    ultimately show ?thesis by simp
  qed
  then show ?thesis by (simp add: delete_ids_def cong: filter_cong)
qed

lemma delete_batches_exact:
  assumes "ids_ok docs" "length (filter (indexed_match tok f) docs) < rounds * DELETE_BATCH_LIMIT"
  shows "delete_batches tok f rounds n docs =
    (Some (n + length (filter (indexed_match tok f) docs)), filter (\<lambda>r. \<not> indexed_match tok f r) docs)"
  using assms
proof (induction rounds arbitrary: n docs)
  case 0
  then show ?case by simp
next
  case (Suc rounds)
  let ?batch = "indexed_top_docs tok (f\<lparr>if_limit := DELETE_BATCH_LIMIT, if_order := Asc\<rparr>) docs"
  let ?m = "filter (indexed_match tok f) docs"
  show ?case
  proof (cases "length ?batch < DELETE_BATCH_LIMIT")
    case True
    note full = top_docs_full [OF True]
    have d: "delete_ids (map lr_id ?batch) docs = filter (\<lambda>r. \<not> indexed_match tok f r) docs"
      unfolding delete_ids_members [OF Suc.prems(1), of ?batch, unfolded full(1), simplified]
      by (rule filter_cong) simp_all
    show ?thesis
    proof (cases "?batch = []")
      case e: True
      then have "?m = []" using full(2) by simp
      then have "filter (\<lambda>r. \<not> indexed_match tok f r) docs = docs" by (simp add: filter_empty_conv filter_id_conv)
      then show ?thesis using e \<open>?m = []\<close> by (simp add: Let_def)
    next
      case False
      then show ?thesis using True d full(2) by (simp add: Let_def)
    qed
  next
    case False
    have c: "clamp_indexed_limit DELETE_BATCH_LIMIT = DELETE_BATCH_LIMIT"
      by (simp add: clamp_indexed_limit_def DELETE_BATCH_LIMIT_def INDEXED_MAX_LIMIT_def)
    have mm: "indexed_match tok (f\<lparr>if_limit := a, if_order := b\<rparr>) = indexed_match tok f" for a b
      by (rule ext) (simp add: indexed_match_def)
    have t: "?batch = take DELETE_BATCH_LIMIT (sort_key (\<lambda>r. lr_timestamp r) ?m)" by (simp add: indexed_top_docs_def mm c)
    have len: "length ?batch = DELETE_BATCH_LIMIT" using False by (simp add: t)
    have sub: "set ?batch \<subseteq> set ?m" unfolding t using set_take_subset by fastforce
    have dist: "distinct ?batch" using Suc.prems(1) unfolding t ids_ok_def
      by (intro distinct_take) (simp add: distinct_map)
    let ?docs' = "delete_ids (map lr_id ?batch) docs"
    have d: "?docs' = filter (\<lambda>r. r \<notin> set ?batch) docs" using sub by (intro delete_ids_members [OF Suc.prems(1)]) auto
    have ok: "ids_ok ?docs'" using Suc.prems(1) unfolding d ids_ok_def by (auto simp: distinct_map_filter)
    have dm: "distinct ?m" using Suc.prems(1) by (simp add: ids_ok_def distinct_map)
    have lm: "length (filter (indexed_match tok f) ?docs') + DELETE_BATCH_LIMIT = length ?m"
    proof -
      have e: "filter (indexed_match tok f) ?docs' = filter (\<lambda>r. r \<notin> set ?batch) ?m" by (simp add: d conj_commute)
      have "set (filter (\<lambda>r. r \<in> set ?batch) ?m) = set ?batch" using sub by auto
      then have "length (filter (\<lambda>r. r \<in> set ?batch) ?m) = card (set ?batch)"
        using distinct_card [OF distinct_filter [OF dm, of "\<lambda>r. r \<in> set ?batch"]] by (simp only:)
      then have "length (filter (\<lambda>r. r \<in> set ?batch) ?m) = DELETE_BATCH_LIMIT" using dist len by (simp add: distinct_card)
      moreover have "length (filter (\<lambda>r. r \<in> set ?batch) ?m) + length (filter (\<lambda>r. r \<notin> set ?batch) ?m) = length ?m"
        by (rule sum_length_filter_compl)
      ultimately show ?thesis using e by simp
    qed
    then have "length (filter (indexed_match tok f) ?docs') < rounds * DELETE_BATCH_LIMIT" using Suc.prems(2) by simp
    from Suc.IH [OF ok this, of "n + length ?batch"]
    have "delete_batches tok f rounds (n + length ?batch) ?docs' =
        (Some (n + length ?m), filter (\<lambda>r. \<not> indexed_match tok f r) ?docs')" using lm len by simp
    moreover have "filter (\<lambda>r. \<not> indexed_match tok f r) ?docs' = filter (\<lambda>r. \<not> indexed_match tok f r) docs"
      unfolding d using sub by (auto intro!: filter_cong)
    moreover have "?batch \<noteq> []" using len by (auto simp: DELETE_BATCH_LIMIT_def)
    ultimately show ?thesis using False by (simp add: Let_def del: filter_filter)
  qed
qed

section \<open>Property\<close>

text \<open>C30: a deletion whose labels are all indexed is complete and exact: with ids of their own exactly the matching
  documents go, the answer is their number, and the rounds the code allows are enough for up to
  $10^8$ of them.\<close>

theorem index_deletion_exact:
  assumes "ids_ok docs" "to_indexed_filter f = Some g"
    and "length (filter (indexed_match tok g) docs) < DELETE_BATCH_MAX_ROUNDS * DELETE_BATCH_LIMIT"
  shows "delete_matching tok rank f docs =
    (Inr (length (filter (indexed_match tok g) docs)), filter (\<lambda>r. \<not> indexed_match tok g r) docs)"
  using delete_batches_exact [OF assms(1,3), of 0] assms(2) by (simp add: delete_matching_def)

definition w_log :: "string \<Rightarrow> int \<Rightarrow> string \<Rightarrow> log_record" where
  "w_log k ts kind = \<lparr>lr_id = k, lr_timestamp = ts, lr_level = ''info'', lr_message = ''m'', lr_labels = [(''data_type'', kind)],
     lr_payload = None\<rparr>"

theorem index_deletion_exact_witness:
  "delete_matching (\<lambda>m. [m]) rev (default_log_filter\<lparr>lf_to_ts := Some 5, lf_labels := [(''data_type'', ''traces'')]\<rparr>)
     [w_log ''a'' 1 ''traces'', w_log ''b'' 2 ''logs'', w_log ''c'' 9 ''traces''] =
   (Inr 1, [w_log ''b'' 2 ''logs'', w_log ''c'' 9 ''traces''])"
proof -
  let ?f = "default_log_filter\<lparr>lf_to_ts := Some 5, lf_labels := [(''data_type'', ''traces'')]\<rparr>"
  let ?g = "default_indexed_filter\<lparr>if_to_ts := Some 5, if_data_type := Some ''traces''\<rparr>"
  have g: "to_indexed_filter ?f = Some ?g"
    by (simp add: to_indexed_filter_def default_log_filter_def default_indexed_filter_def DEFAULT_LIMIT_def INDEXED_DEFAULT_LIMIT_def)
  have m: "indexed_match (\<lambda>m. [m]) ?g (w_log k ts kind) \<longleftrightarrow> i64_min \<le> ts \<and> ts \<le> 5 \<and> kind = ''traces''" for k ts kind
    by (auto simp: indexed_match_def default_indexed_filter_def in_range_def term_match_def message_match_def promoted_def
        w_log_def bt_get_def)
  show ?thesis
    using index_deletion_exact [OF _ g, of "[w_log ''a'' 1 ''traces'', w_log ''b'' 2 ''logs'', w_log ''c'' 9 ''traces'']" "\<lambda>m. [m]" rev]
    by (simp add: m ids_ok_def i64_min_def DELETE_BATCH_MAX_ROUNDS_def DELETE_BATCH_LIMIT_def) (simp add: w_log_def)
qed

end
