(* ===== verification/Apm_Retention.thy ===== *)
theory Apm_Retention
  imports Metric_Points Log_Store
begin

text \<open>
  \<^verbatim>\<open>crates/dataplane-apm/src/retention.rs\<close> and \<^verbatim>\<open>ebpf_retention.rs\<close>: old observation data is deleted by age,
  and beyond the byte budget by an age limit raised in steps. The state carries the log documents beside
  the tables and the points. The bytes on disk, the files a collection frees and the tombstones a
  deletion sets are functions of the state (\<open>retention_env\<close>); every call of the log or series store may
  fail like a statement.
\<close>

definition MICROS_PER_DAY :: int where "MICROS_PER_DAY = 86400 * 1000000"

definition APM_MEASUREMENTS :: "string list" where
  "APM_MEASUREMENTS = [''apm_service_requests_total'', ''apm_service_errors_total'', ''apm_service_duration_micros'',
     ''apm_edge_requests_total'', ''apm_edge_errors_total'', ''apm_edge_duration_micros'']"

record retention_config =
  rc_default_retention_days :: nat
  rc_endpoint_retention_days :: nat
  rc_max_bytes :: nat
  rc_evict_step_secs :: int
  rc_max_rounds :: nat

definition default_retention_config :: retention_config where
  "default_retention_config = \<lparr>rc_default_retention_days = 3, rc_endpoint_retention_days = 30, rc_max_bytes = 0,
     rc_evict_step_secs = 3600, rc_max_rounds = 24\<rparr>"

record retention_report =
  rp_details :: nat
  rp_summaries :: nat
  rp_edges :: nat
  rp_endpoints :: nat
  rp_tombstones :: nat
  rp_reclaimed :: nat
  rp_bytes_before :: nat
  rp_bytes_after :: nat
  rp_rounds :: nat
  rp_reason :: "string option"

definition empty_report :: retention_report where
  "empty_report = \<lparr>rp_details = 0, rp_summaries = 0, rp_edges = 0, rp_endpoints = 0, rp_tombstones = 0, rp_reclaimed = 0,
     rp_bytes_before = 0, rp_bytes_after = 0, rp_rounds = 0, rp_reason = None\<rparr>"

record retention_db = metric_db +
  rt_logs :: "log_record list"

record 's retention_env =
  re_du :: "'s \<Rightarrow> nat"
  re_gc :: "'s \<Rightarrow> nat"
  re_stones :: "string \<Rightarrow> int \<Rightarrow> 's \<Rightarrow> nat"
  re_tok :: "string \<Rightarrow> string list"
  re_rank :: "log_record list \<Rightarrow> log_record list"

type_synonym ('x, 'a) rt = "('x retention_db_ext metric_db_ext, 'a) obs"
type_synonym 'x rt_env = "'x retention_db_scheme retention_env"

definition store_call :: "('x retention_db_scheme \<Rightarrow> (dataplane_error, 'a) result \<times> 'x retention_db_scheme) \<Rightarrow> ('x, 'a) rt" where
  "store_call f s =
     (let s' = s\<lparr>mt_faults := tl (mt_faults s)\<rparr> in case mt_faults s of Some e # _ \<Rightarrow> (Inl e, s') | _ \<Rightarrow> f s')"

definition delete_logs :: "'x rt_env \<Rightarrow> log_filter \<Rightarrow> ('x, nat) rt" where
  "delete_logs env f = store_call (\<lambda>s. let (r, docs) = delete_matching (re_tok env) (re_rank env) f (rt_logs s) in (r, s\<lparr>rt_logs := docs\<rparr>))"

definition reclaim_space :: "'x rt_env \<Rightarrow> ('x, nat) rt" where
  "reclaim_space env = store_call (\<lambda>s. (Inr (re_gc env s), s))"

text \<open>The points of a measurement in a range of times; the range must not be empty.\<close>

definition delete_series :: "'x rt_env \<Rightarrow> string \<Rightarrow> int \<Rightarrow> int \<Rightarrow> ('x, nat) rt" where
  "delete_series env m from to = store_call (\<lambda>s.
     if from \<ge> to
     then (Inl \<lparr>de_code = InvalidArgument, de_message = ''from_ts ('' @ int_dec from @ '') must be earlier than to_ts ('' @ int_dec to @ '')''\<rparr>, s)
     else (Inr (re_stones env m to s),
       s\<lparr>mt_points := filter (\<lambda>p. \<not> (tp_measurement p = m \<and> from \<le> tp_timestamp p \<and> tp_timestamp p < to)) (mt_points s)\<rparr>))"

definition delete_rows_older_than :: "obs_table \<Rightarrow> string \<Rightarrow> int \<Rightarrow> ('x, nat) obs" where
  "delete_rows_older_than t c cutoff =
     ob_bind (ob_change t (delete_rows (\<lambda>r. field_i64 r c < cutoff))) (\<lambda>_. affected_rows)"

definition delete_endpoints :: "int \<Rightarrow> ('x, nat) obs" where
  "delete_endpoints cutoff = delete_rows_older_than ServiceEndpoint ''last_seen_ts'' cutoff"

definition traces_until :: "int \<Rightarrow> log_filter" where
  "traces_until cutoff = default_log_filter\<lparr>lf_to_ts := Some cutoff, lf_labels := [(''data_type'', ''traces'')]\<rparr>"

fun delete_measurements :: "'x rt_env \<Rightarrow> int \<Rightarrow> string list \<Rightarrow> ('x, nat) rt" where
  "delete_measurements env cutoff [] = ob_return 0"
| "delete_measurements env cutoff (m # ms) = ob_bind (delete_series env m 0 (max cutoff 1)) (\<lambda>n.
     ob_bind (delete_measurements env cutoff ms) (\<lambda>k. ob_return (n + k)))"

definition evict_older_than :: "'x rt_env \<Rightarrow> int \<Rightarrow> ('x, retention_report) rt" where
  "evict_older_than env cutoff =
     ob_bind (delete_logs env (traces_until cutoff)) (\<lambda>d.
     ob_bind (delete_rows_older_than TraceSummary ''start_ts'' cutoff) (\<lambda>s.
     ob_bind (delete_rows_older_than EdgeSummary ''bucket_start'' cutoff) (\<lambda>e.
     ob_bind (delete_measurements env cutoff APM_MEASUREMENTS) (\<lambda>t.
       ob_return (empty_report\<lparr>rp_details := d, rp_summaries := s, rp_edges := e, rp_tombstones := t\<rparr>)))))"

definition add_report :: "retention_report \<Rightarrow> retention_report \<Rightarrow> retention_report" where
  "add_report a b = a\<lparr>rp_details := rp_details a + rp_details b, rp_summaries := rp_summaries a + rp_summaries b,
     rp_edges := rp_edges a + rp_edges b, rp_tombstones := rp_tombstones a + rp_tombstones b\<rparr>"

text \<open>Eviction: the limit moves on by a step as long as the data is over the budget.\<close>

fun evict_loop :: "'x rt_env \<Rightarrow> nat \<Rightarrow> int \<Rightarrow> int \<Rightarrow> nat \<Rightarrow> int \<Rightarrow> retention_report \<Rightarrow> ('x, retention_report) rt" where
  "evict_loop env budget now step left cursor rep s =
     (if re_du env s \<le> budget then (Inr rep, s)
      else if cursor \<ge> now then (Inr (rep\<lparr>rp_reason := Some ''no_apm_data_left''\<rparr>), s)
      else case left of
        0 \<Rightarrow> (Inr (rep\<lparr>rp_reason := Some ''max_rounds_reached''\<rparr>), s)
      | Suc left' \<Rightarrow>
          let cursor' = min (sat_add_i64 cursor step) now in
          ob_bind (evict_older_than env cursor') (\<lambda>r.
            ob_bind (reclaim_space env) (\<lambda>n.
              evict_loop env budget now step left' cursor'
                ((add_report rep r)\<lparr>rp_reclaimed := rp_reclaimed rep + n, rp_rounds := rp_rounds rep + 1\<rparr>))) s)"

declare evict_loop.simps [simp del]

definition evict_step :: "retention_config \<Rightarrow> int \<Rightarrow> int \<Rightarrow> int" where
  "evict_step c now cutoff =
     max (max (tdiv (max (now - cutoff) 1) (int (max (rc_max_rounds c) 1))) (max (rc_evict_step_secs c) 1 * 1000000)) 1"

definition retention_cutoff :: "int \<Rightarrow> nat \<Rightarrow> int" where
  "retention_cutoff now days = sat_sub_i64 now (wrap_i64 (int (max days 1) * MICROS_PER_DAY))"

definition retention_run :: "'x rt_env \<Rightarrow> retention_config \<Rightarrow> int \<Rightarrow> ('x, retention_report) rt" where
  "retention_run env c now s =
     (let before = re_du env s; cutoff = retention_cutoff now (rc_default_retention_days c) in
      ob_bind (evict_older_than env cutoff) (\<lambda>r.
      ob_bind (delete_endpoints (retention_cutoff now (rc_endpoint_retention_days c))) (\<lambda>k.
      ob_bind (reclaim_space env) (\<lambda>n.
      let rep = r\<lparr>rp_endpoints := k, rp_reclaimed := n, rp_bytes_before := before\<rparr> in
      ob_bind (if rc_max_bytes c > 0
               then evict_loop env (rc_max_bytes c) now (evict_step c now cutoff) (rc_max_rounds c) cutoff rep
               else ob_return rep) (\<lambda>rep s'.
        (Inr (rep\<lparr>rp_bytes_after := re_du env s'\<rparr>), s'))))) s)"

section \<open>Edge records of the kernel side\<close>

definition BATCH_SIZE :: int where "BATCH_SIZE = 1000"
definition DEFAULT_RETENTION_DAYS :: nat where "DEFAULT_RETENTION_DAYS = 3"

record edge_delete_report =
  dr_deleted :: nat
  dr_batches :: nat

text \<open>A batch is the first rows that match; what a row count says is asked for after each.\<close>

fun delete_first :: "nat \<Rightarrow> (sql_row \<Rightarrow> bool) \<Rightarrow> sql_row list \<Rightarrow> sql_row list \<times> nat" where
  "delete_first n p [] = ([], 0)"
| "delete_first n p (r # rs) =
     (if p r \<and> n > 0 then let (kept, k) = delete_first (n - 1) p rs in (kept, k + 1)
      else let (kept, k) = delete_first n p rs in (r # kept, k))"

fun edge_batches :: "nat \<Rightarrow> (sql_row \<Rightarrow> bool) \<Rightarrow> nat \<Rightarrow> edge_delete_report \<Rightarrow> 'x obs_db_scheme \<Rightarrow>
    (dataplane_error, edge_delete_report) result option \<times> 'x obs_db_scheme" where
  "edge_batches limit p 0 rep s = (None, s)"
| "edge_batches limit p (Suc fuel) rep s =
     (case ob_bind (ob_change EbpfEdges (delete_first limit p)) (\<lambda>_. affected_rows) s of
        (Inl e, s') \<Rightarrow> (Some (Inl e), s')
      | (Inr n, s') \<Rightarrow>
          let rep' = \<lparr>dr_deleted = dr_deleted rep + n, dr_batches = dr_batches rep + 1\<rparr> in
          if n < limit then (Some (Inr rep'), s') else edge_batches limit p fuel rep' s')"

definition old_edge :: "string \<Rightarrow> int \<Rightarrow> sql_row \<Rightarrow> bool" where
  "old_edge data_id cutoff r \<longleftrightarrow> (data_id = [] \<or> text_eq r ''data_id'' data_id) \<and> field_i64 r ''bucket_start'' < cutoff"

definition delete_edges_before_batched ::
    "string \<Rightarrow> int \<Rightarrow> int \<Rightarrow> nat \<Rightarrow> 'x obs_db_scheme \<Rightarrow> (dataplane_error, edge_delete_report) result option \<times> 'x obs_db_scheme" where
  "delete_edges_before_batched data_id cutoff batch fuel =
     edge_batches (nat (max batch 1)) (old_edge data_id cutoff) fuel \<lparr>dr_deleted = 0, dr_batches = 0\<rparr>"

definition delete_edges_before ::
    "string \<Rightarrow> int \<Rightarrow> nat \<Rightarrow> 'x obs_db_scheme \<Rightarrow> (dataplane_error, edge_delete_report) result option \<times> 'x obs_db_scheme" where
  "delete_edges_before data_id cutoff = delete_edges_before_batched data_id cutoff BATCH_SIZE"

definition clamp_retention_days :: "nat \<Rightarrow> nat" where
  "clamp_retention_days d = max d 1"

text \<open>The days of a collection item, a number below \<open>storage\<close> or at the top; \<^verbatim>\<open>as u32\<close> wraps.\<close>

definition retention_days :: "json \<Rightarrow> nat" where
  "retention_days v =
     (let number = (\<lambda>x. Option.bind x as_u64);
          days = (case number (Option.bind (json_get v ''storage'') (\<lambda>x. json_get x ''retention_days'')) of
              Some d \<Rightarrow> Some d | None \<Rightarrow> number (json_get v ''retention_days''))
      in case days of Some d \<Rightarrow> clamp_retention_days (d mod 2 ^ 32) | None \<Rightarrow> DEFAULT_RETENTION_DAYS)"

definition cutoff_micros :: "int \<Rightarrow> nat \<Rightarrow> int" where
  "cutoff_micros now days = sat_sub_i64 now (wrap_i64 (wrap_i64 (int (clamp_retention_days days) * 86400) * 1000000))"

section \<open>What a run leaves alone\<close>

definition is_trace :: "log_record \<Rightarrow> bool" where
  "is_trace r \<longleftrightarrow> promoted (lr_labels r) ''data_type'' = ''traces''"

definition apm_point :: "'v ts_point \<Rightarrow> bool" where
  "apm_point p \<longleftrightarrow> tp_measurement p \<in> set APM_MEASUREMENTS"

text \<open>Data of the other kinds, and data of the kinds that are deleted with a time after \<open>now\<close>.\<close>

definition spares :: "int \<Rightarrow> 'x retention_db_scheme \<Rightarrow> 'x retention_db_scheme \<Rightarrow> bool" where
  "spares now s s' \<longleftrightarrow>
     (\<forall>t. t \<notin> {TraceSummary, EdgeSummary, ServiceEndpoint} \<longrightarrow> ob_rows s' t = ob_rows s t) \<and>
     filter (\<lambda>r. field_i64 r ''start_ts'' \<ge> now) (ob_rows s' TraceSummary) = filter (\<lambda>r. field_i64 r ''start_ts'' \<ge> now) (ob_rows s TraceSummary) \<and>
     filter (\<lambda>r. field_i64 r ''bucket_start'' \<ge> now) (ob_rows s' EdgeSummary) = filter (\<lambda>r. field_i64 r ''bucket_start'' \<ge> now) (ob_rows s EdgeSummary) \<and>
     filter (\<lambda>r. field_i64 r ''last_seen_ts'' \<ge> now) (ob_rows s' ServiceEndpoint) = filter (\<lambda>r. field_i64 r ''last_seen_ts'' \<ge> now) (ob_rows s ServiceEndpoint) \<and>
     filter (\<lambda>r. \<not> is_trace r \<or> lr_timestamp r > now) (rt_logs s') = filter (\<lambda>r. \<not> is_trace r \<or> lr_timestamp r > now) (rt_logs s) \<and>
     filter (\<lambda>p. \<not> apm_point p \<or> tp_timestamp p \<ge> max now 1) (mt_points s') = filter (\<lambda>p. \<not> apm_point p \<or> tp_timestamp p \<ge> max now 1) (mt_points s)"

lemma spares_refl [simp]: "spares now s s"
  by (simp add: spares_def)

lemma spares_trans: "spares now a b \<Longrightarrow> spares now b c \<Longrightarrow> spares now a c"
  by (simp add: spares_def)

definition harmless :: "int \<Rightarrow> ('x, 'a) rt \<Rightarrow> bool" where
  "harmless now m \<longleftrightarrow> (\<forall>s. ids_ok (rt_logs s) \<longrightarrow> ids_ok (rt_logs (snd (m s))) \<and> spares now s (snd (m s)))"

named_theorems harms \<open>operations that leave fresh and foreign data alone\<close>

lemma harmless_bind [harms]: "harmless now m \<Longrightarrow> (\<And>x. harmless now (f x)) \<Longrightarrow> harmless now (ob_bind m f)"
  unfolding harmless_def ob_bind_def by (auto split: prod.splits sum.splits) (metis snd_conv spares_trans)+

lemma harmless_return [harms]: "harmless now (ob_return x)"
  by (simp add: harmless_def ob_return_def)

lemma harmless_exec:
  assumes "\<And>s. ids_ok (rt_logs s) \<Longrightarrow> ids_ok (rt_logs (snd (m s))) \<and> spares now s (snd (m s))"
  shows "harmless now (ob_exec m)"
proof (unfold harmless_def, intro allI impI)
  fix s :: "'a retention_db_scheme" assume i: "ids_ok (rt_logs s)"
  let ?s = "s\<lparr>ob_faults := tl (ob_faults s)\<rparr>"
  have "spares now s ?s" by (simp add: spares_def)
  moreover have "ids_ok (rt_logs (snd (m ?s))) \<and> spares now ?s (snd (m ?s))" by (rule assms) (simp add: i)
  ultimately show "ids_ok (rt_logs (snd (ob_exec m s))) \<and> spares now s (snd (ob_exec m s))"
    using i spares_trans by (auto simp: ob_exec_def Let_def split: list.split option.split)
qed

lemma harmless_call:
  assumes "\<And>s. ids_ok (rt_logs s) \<Longrightarrow> ids_ok (rt_logs (snd (m s))) \<and> spares now s (snd (m s))"
  shows "harmless now (store_call m)"
proof (unfold harmless_def, intro allI impI)
  fix s :: "'a retention_db_scheme" assume i: "ids_ok (rt_logs s)"
  let ?s = "s\<lparr>mt_faults := tl (mt_faults s)\<rparr>"
  have "spares now s ?s" by (simp add: spares_def)
  moreover have "ids_ok (rt_logs (snd (m ?s))) \<and> spares now ?s (snd (m ?s))" by (rule assms) (simp add: i)
  ultimately show "ids_ok (rt_logs (snd (store_call m s))) \<and> spares now s (snd (store_call m s))"
    using i spares_trans by (auto simp: store_call_def Let_def split: list.split option.split)
qed

lemma harmless_affected [harms]: "harmless now affected_rows"
  unfolding affected_rows_def by (rule harmless_exec) simp

lemma filter_delete: "(\<And>x. q x \<Longrightarrow> \<not> p x) \<Longrightarrow> filter q (fst (delete_rows p rs)) = filter q rs"
  by (induction rs) (auto simp: delete_rows_def)

lemma harmless_deletion:
  assumes "(t, c) \<in> {(TraceSummary, ''start_ts''), (EdgeSummary, ''bucket_start''), (ServiceEndpoint, ''last_seen_ts'')}" "cutoff \<le> now"
  shows "harmless now (ob_change t (delete_rows (\<lambda>r. field_i64 r c < cutoff)))"
  unfolding ob_change_def
proof (rule harmless_exec, unfold Let_def split_beta snd_conv)
  fix s :: "'a retention_db_scheme" assume "ids_ok (rt_logs s)"
  let ?rs = "fst (delete_rows (\<lambda>r. field_i64 r c < cutoff) (ob_rows s t))"
  have "filter (\<lambda>r. field_i64 r c \<ge> now) ?rs = filter (\<lambda>r. field_i64 r c \<ge> now) (ob_rows s t)"
    by (rule filter_delete) (use assms(2) in linarith)
  then show "ids_ok (rt_logs (set_rows t ?rs (snd (delete_rows (\<lambda>r. field_i64 r c < cutoff) (ob_rows s t))) s)) \<and>
      spares now s (set_rows t ?rs (snd (delete_rows (\<lambda>r. field_i64 r c < cutoff) (ob_rows s t))) s)"
    using assms(1) \<open>ids_ok (rt_logs s)\<close> by (auto simp: spares_def set_rows_def)
qed

lemma harmless_rows [harms]:
  assumes "(t, c) \<in> {(TraceSummary, ''start_ts''), (EdgeSummary, ''bucket_start''), (ServiceEndpoint, ''last_seen_ts'')}" "cutoff \<le> now"
  shows "harmless now (delete_rows_older_than t c cutoff)"
  unfolding delete_rows_older_than_def by (rule harmless_bind [OF harmless_deletion [OF assms] harmless_affected])

lemma indexed_traces:
  "to_indexed_filter (traces_until cutoff) =
     Some (default_indexed_filter\<lparr>if_to_ts := Some cutoff, if_data_type := Some ''traces'', if_limit := DEFAULT_LIMIT\<rparr>)"
  by (simp add: traces_until_def to_indexed_filter_def default_log_filter_def default_indexed_filter_def)

lemma delete_batches_subset:
  assumes "ids_ok docs"
  shows "\<exists>p. snd (delete_batches tok f rounds n docs) = filter p docs \<and> (\<forall>r \<in> set docs. \<not> p r \<longrightarrow> indexed_match tok f r)"
  using assms
proof (induction rounds arbitrary: n docs)
  case 0
  then show ?case by (intro exI [of _ "\<lambda>_. True"]) simp
next
  case (Suc rounds)
  let ?batch = "indexed_top_docs tok (f\<lparr>if_limit := DELETE_BATCH_LIMIT, if_order := Asc\<rparr>) docs"
  let ?docs' = "delete_ids (map lr_id ?batch) docs"
  have "indexed_match tok (f\<lparr>if_limit := a, if_order := b\<rparr>) = indexed_match tok f" for a b
    by (rule ext) (simp add: indexed_match_def)
  then have sub: "set ?batch \<subseteq> {r \<in> set docs. indexed_match tok f r}"
    unfolding indexed_top_docs_def using set_take_subset by fastforce
  have d: "?docs' = filter (\<lambda>r. r \<notin> set ?batch) docs" using sub by (intro delete_ids_members [OF Suc.prems]) auto
  have ok: "ids_ok ?docs'" using Suc.prems unfolding d ids_ok_def by (auto simp: distinct_map_filter)
  obtain p where p: "snd (delete_batches tok f rounds (n + length ?batch) ?docs') = filter p ?docs'"
      "\<forall>r \<in> set ?docs'. \<not> p r \<longrightarrow> indexed_match tok f r"
    using Suc.IH [OF ok] by blast
  have one: "\<exists>p. ?docs' = filter p docs \<and> (\<forall>r \<in> set docs. \<not> p r \<longrightarrow> indexed_match tok f r)"
    using d sub by (intro exI [of _ "\<lambda>r. r \<notin> set ?batch"]) auto
  have two: "\<exists>p. filter q ?docs' = filter p docs \<and> (\<forall>r \<in> set docs. \<not> p r \<longrightarrow> indexed_match tok f r)"
    if "\<forall>r \<in> set ?docs'. \<not> q r \<longrightarrow> indexed_match tok f r" for q
  proof (intro exI [of _ "\<lambda>r. q r \<and> r \<notin> set ?batch"] conjI)
    show "filter q ?docs' = filter (\<lambda>r. q r \<and> r \<notin> set ?batch) docs" by (simp add: d conj_commute)
    show "\<forall>r \<in> set docs. \<not> (q r \<and> r \<notin> set ?batch) \<longrightarrow> indexed_match tok f r" using that sub by (auto simp: d)
  qed
  show ?case using one two [OF p(2)] p(1) by (auto simp: Let_def intro: exI [of _ "\<lambda>_. True"])
qed

lemma harmless_logs [harms]:
  assumes "cutoff \<le> now"
  shows "harmless now (delete_logs env (traces_until cutoff))"
  unfolding delete_logs_def
proof (rule harmless_call)
  fix s :: "'a retention_db_scheme" assume i: "ids_ok (rt_logs s)"
  let ?g = "default_indexed_filter\<lparr>if_to_ts := Some cutoff, if_data_type := Some ''traces'', if_limit := DEFAULT_LIMIT\<rparr>"
  obtain r docs where d: "delete_matching (re_tok env) (re_rank env) (traces_until cutoff) (rt_logs s) = (r, docs)" by fastforce
  have "docs = snd (delete_batches (re_tok env) ?g DELETE_BATCH_MAX_ROUNDS 0 (rt_logs s))"
    using d by (auto simp: delete_matching_def indexed_traces split: prod.splits option.splits)
  then obtain p where p: "docs = filter p (rt_logs s)" "\<forall>r \<in> set (rt_logs s). \<not> p r \<longrightarrow> indexed_match (re_tok env) ?g r"
    using delete_batches_subset [OF i] by metis
  have m: "indexed_match (re_tok env) ?g r \<Longrightarrow> is_trace r \<and> lr_timestamp r \<le> now" for r
    using assms by (auto simp: indexed_match_def default_indexed_filter_def in_range_def term_match_def is_trace_def)
  have "ids_ok docs" using i by (auto simp: p(1) ids_ok_def distinct_map_filter)
  moreover have "filter (\<lambda>r. \<not> is_trace r \<or> lr_timestamp r > now) docs = filter (\<lambda>r. \<not> is_trace r \<or> lr_timestamp r > now) (rt_logs s)"
    unfolding p(1) filter_filter using p(2) m by (intro filter_cong) fastforce+
  ultimately show "ids_ok (rt_logs (snd (let (r, docs) = delete_matching (re_tok env) (re_rank env) (traces_until cutoff) (rt_logs s)
        in (r, s\<lparr>rt_logs := docs\<rparr>)))) \<and>
      spares now s (snd (let (r, docs) = delete_matching (re_tok env) (re_rank env) (traces_until cutoff) (rt_logs s)
        in (r, s\<lparr>rt_logs := docs\<rparr>)))"
    by (simp add: d spares_def)
qed

lemma harmless_series [harms]:
  assumes "cutoff \<le> now" "m \<in> set APM_MEASUREMENTS"
  shows "harmless now (delete_series env m 0 (max cutoff 1))"
  unfolding delete_series_def
proof (rule harmless_call)
  fix s :: "'a retention_db_scheme" assume i: "ids_ok (rt_logs s)"
  let ?p = "\<lambda>p. \<not> (tp_measurement p = m \<and> 0 \<le> tp_timestamp p \<and> tp_timestamp p < max cutoff 1)"
  have "filter (\<lambda>p. \<not> apm_point p \<or> tp_timestamp p \<ge> max now 1) (filter ?p (mt_points s)) =
      filter (\<lambda>p. \<not> apm_point p \<or> tp_timestamp p \<ge> max now 1) (mt_points s)"
    unfolding filter_filter using assms by (intro filter_cong) (auto simp: apm_point_def)
  then show "ids_ok (rt_logs (snd (if 0 \<ge> max cutoff 1
        then (Inl \<lparr>de_code = InvalidArgument, de_message = ''from_ts ('' @ int_dec 0 @ '') must be earlier than to_ts ('' @ int_dec (max cutoff 1) @ '')''\<rparr>, s)
        else (Inr (re_stones env m (max cutoff 1) s), s\<lparr>mt_points := filter ?p (mt_points s)\<rparr>)))) \<and>
      spares now s (snd (if 0 \<ge> max cutoff 1
        then (Inl \<lparr>de_code = InvalidArgument, de_message = ''from_ts ('' @ int_dec 0 @ '') must be earlier than to_ts ('' @ int_dec (max cutoff 1) @ '')''\<rparr>, s)
        else (Inr (re_stones env m (max cutoff 1) s), s\<lparr>mt_points := filter ?p (mt_points s)\<rparr>)))"
    using i by (simp add: spares_def)
qed

lemma harmless_measurements [harms]:
  "cutoff \<le> now \<Longrightarrow> set ms \<subseteq> set APM_MEASUREMENTS \<Longrightarrow> harmless now (delete_measurements env cutoff ms)"
proof (induction ms)
  case (Cons m ms)
  then have "harmless now (delete_series env m 0 (max cutoff 1))" "harmless now (delete_measurements env cutoff ms)"
    by (simp_all add: harmless_series)
  then show ?case by (simp add: harmless_bind harmless_return)
qed (simp add: harms)

lemma harmless_reclaim [harms]: "harmless now (reclaim_space env)"
  unfolding reclaim_space_def by (rule harmless_call) simp

lemma harmless_evict [harms]: "cutoff \<le> now \<Longrightarrow> harmless now (evict_older_than env cutoff)"
  unfolding evict_older_than_def by (intro harms) simp_all

lemma harmless_loop: "harmless now (evict_loop env budget now step left cursor rep)"
proof (unfold harmless_def, intro allI impI)
  fix s :: "'a retention_db_scheme" assume "ids_ok (rt_logs s)"
  then show "ids_ok (rt_logs (snd (evict_loop env budget now step left cursor rep s))) \<and>
      spares now s (snd (evict_loop env budget now step left cursor rep s))"
  proof (induction left arbitrary: cursor rep s)
    case 0
    then show ?case by (simp add: evict_loop.simps)
  next
    case (Suc left)
    let ?c = "min (sat_add_i64 cursor step) now"
    have "harmless now (ob_bind (evict_older_than env ?c) (\<lambda>r. ob_bind (reclaim_space env) (\<lambda>n.
        evict_loop env budget now step left ?c
          ((add_report rep r)\<lparr>rp_reclaimed := rp_reclaimed rep + n, rp_rounds := rp_rounds rep + 1\<rparr>))))"
      by (intro harms) (simp_all add: harmless_def Suc.IH)
    then show ?case using Suc.prems by (auto simp: evict_loop.simps [of _ _ _ _ "Suc left"] Let_def harmless_def)
  qed
qed

text \<open>Up to this number of days the product does not overflow.\<close>

definition SAFE_DAYS :: nat where "SAFE_DAYS = 106751991"

lemma cutoff_le: "i64_min \<le> now \<Longrightarrow> days \<le> SAFE_DAYS \<Longrightarrow> retention_cutoff now days \<le> now"
proof -
  assume n: "i64_min \<le> now" and d: "days \<le> SAFE_DAYS"
  have "wrap_i64 (int (max days 1) * MICROS_PER_DAY) = int (max days 1) * MICROS_PER_DAY"
    by (rule wrap_i64_id) (use d in \<open>simp_all add: MICROS_PER_DAY_def i64_min_def i64_max_def SAFE_DAYS_def\<close>)
  then show ?thesis using n by (simp add: retention_cutoff_def sat_sub_i64_def sat_i64_def MICROS_PER_DAY_def)
qed

section \<open>Rounds\<close>

text \<open>What the loop reports: within the budget, or the whole window gone, or the rounds used up.\<close>

definition loop_outcome :: "'x rt_env \<Rightarrow> nat \<Rightarrow> nat \<Rightarrow> retention_report \<Rightarrow> 'x retention_db_scheme \<Rightarrow> bool" where
  "loop_outcome env budget rounds rep s \<longleftrightarrow> rp_rounds rep \<le> rounds \<and>
     (rp_reason rep = None \<and> re_du env s \<le> budget \<or>
      rp_reason rep = Some ''no_apm_data_left'' \<and> re_du env s > budget \<or>
      rp_reason rep = Some ''max_rounds_reached'' \<and> re_du env s > budget \<and> rp_rounds rep = rounds)"

lemma evict_loop_outcome:
  "evict_loop env budget now step left cursor rep s = (Inr rep', s') \<Longrightarrow> rp_reason rep = None \<Longrightarrow>
    loop_outcome env budget (rp_rounds rep + left) rep' s'"
proof (induction left arbitrary: cursor rep s)
  case 0
  then show ?case by (auto simp: evict_loop.simps loop_outcome_def split: if_splits)
next
  case (Suc left)
  show ?case
  proof (cases "re_du env s \<le> budget \<or> cursor \<ge> now")
    case True
    then show ?thesis using Suc.prems by (auto simp: evict_loop.simps [of _ _ _ _ "Suc left"] loop_outcome_def split: if_splits)
  next
    case False
    then obtain r n s1 where "evict_loop env budget now step left (min (sat_add_i64 cursor step) now)
        ((add_report rep r)\<lparr>rp_reclaimed := rp_reclaimed rep + n, rp_rounds := rp_rounds rep + 1\<rparr>) s1 = (Inr rep', s')"
      using Suc.prems(1) by (auto simp: evict_loop.simps [of _ _ _ _ "Suc left"] Let_def ob_bind_def split: prod.splits sum.splits)
    from Suc.IH [OF this] show ?thesis using Suc.prems(2) by (simp add: add_report_def)
  qed
qed

section \<open>Points that go\<close>

definition shrinks :: "('x, 'a) rt \<Rightarrow> bool" where
  "shrinks m \<longleftrightarrow> (\<forall>s. set (mt_points (snd (m s))) \<subseteq> set (mt_points s))"

named_theorems shrink \<open>operations that add no point\<close>

lemma shrinksD: "shrinks m \<Longrightarrow> set (mt_points (snd (m s))) \<subseteq> set (mt_points s)"
  by (simp add: shrinks_def)

lemma shrinks_bind [shrink]: "shrinks m \<Longrightarrow> (\<And>x. shrinks (f x)) \<Longrightarrow> shrinks (ob_bind m f)"
  unfolding shrinks_def ob_bind_def by (auto split: prod.splits sum.splits) (metis snd_conv subsetD)+

lemma shrinks_return [shrink]: "shrinks (ob_return x)"
  by (simp add: shrinks_def ob_return_def)

lemma shrinks_change [shrink]: "shrinks (ob_change t f)"
  by (auto simp: shrinks_def ob_change_def ob_exec_def Let_def set_rows_def split: list.splits option.splits prod.splits)

lemma shrinks_affected [shrink]: "shrinks affected_rows"
  by (auto simp: shrinks_def affected_rows_def ob_exec_def Let_def split: list.splits option.splits)

lemma shrinks_logs [shrink]: "shrinks (delete_logs env f)"
  by (auto simp: shrinks_def delete_logs_def store_call_def Let_def split: list.splits option.splits prod.splits)

lemma shrinks_reclaim [shrink]: "shrinks (reclaim_space env)"
  by (auto simp: shrinks_def reclaim_space_def store_call_def Let_def split: list.splits option.splits)

lemma shrinks_series [shrink]: "shrinks (delete_series env m a b)"
  by (auto simp: shrinks_def delete_series_def store_call_def Let_def split: list.splits option.splits if_splits)

lemma shrinks_measurements [shrink]: "shrinks (delete_measurements env cutoff ms)"
  by (induction ms) (auto intro!: shrink)

lemma shrinks_rows [shrink]: "shrinks (delete_rows_older_than t c cutoff)"
  unfolding delete_rows_older_than_def by (intro shrink)

lemma shrinks_evict [shrink]: "shrinks (evict_older_than env cutoff)"
  unfolding evict_older_than_def by (intro shrink)

lemma shrinks_loop [shrink]: "shrinks (evict_loop env budget now step left cursor rep)"
proof (unfold shrinks_def, intro allI)
  fix s :: "'a retention_db_scheme"
  show "set (mt_points (snd (evict_loop env budget now step left cursor rep s))) \<subseteq> set (mt_points s)"
  proof (induction left arbitrary: cursor rep s)
    case 0
    then show ?case by (simp add: evict_loop.simps)
  next
    case (Suc left)
    let ?c = "min (sat_add_i64 cursor step) now"
    have "shrinks (ob_bind (evict_older_than env ?c) (\<lambda>r. ob_bind (reclaim_space env) (\<lambda>n.
        evict_loop env budget now step left ?c
          ((add_report rep r)\<lparr>rp_reclaimed := rp_reclaimed rep + n, rp_rounds := rp_rounds rep + 1\<rparr>))))"
      by (intro shrink) (simp add: shrinks_def Suc.IH)
    then show ?case by (auto simp: evict_loop.simps [of _ _ _ _ "Suc left"] Let_def shrinks_def)
  qed
qed

lemma series_gone:
  "delete_measurements env cutoff ms s = (Inr n, s') \<Longrightarrow> p \<in> set (mt_points s') \<Longrightarrow> tp_measurement p \<in> set ms \<Longrightarrow>
    \<not> (0 \<le> tp_timestamp p \<and> tp_timestamp p < max cutoff 1)"
proof (induction ms arbitrary: n s)
  case Nil
  then show ?case by simp
next
  case (Cons m ms)
  obtain k s1 where d: "delete_series env m 0 (max cutoff 1) s = (Inr k, s1)"
    using Cons.prems(1) by (auto simp: ob_bind_def split: prod.splits sum.splits)
  then obtain n' where r: "delete_measurements env cutoff ms s1 = (Inr n', s')"
    using Cons.prems(1) by (auto simp: ob_bind_def ob_return_def split: prod.splits sum.splits)
  have "set (mt_points s') \<subseteq> set (mt_points s1)" using shrinks_measurements [of env cutoff ms] r by (metis shrinks_def snd_conv)
  moreover have "\<forall>q \<in> set (mt_points s1). \<not> (tp_measurement q = m \<and> 0 \<le> tp_timestamp q \<and> tp_timestamp q < max cutoff 1)"
    using d by (auto simp: delete_series_def store_call_def Let_def split: list.splits option.splits if_splits)
  ultimately show ?case using Cons.IH [OF r Cons.prems(2)] Cons.prems(2,3) by auto
qed

lemma bind_okD: "ob_bind m f s = (Inr x, s') \<Longrightarrow> \<exists>y t. m s = (Inr y, t) \<and> f y t = (Inr x, s')"
  by (auto simp: ob_bind_def split: prod.splits sum.splits)

lemma evict_gone:
  assumes "evict_older_than env cutoff s = (Inr r, s')" "p \<in> set (mt_points s')" "apm_point p"
  shows "\<not> (0 \<le> tp_timestamp p \<and> tp_timestamp p < max cutoff 1)"
proof -
  obtain t s1 s2 where "delete_measurements env cutoff APM_MEASUREMENTS s1 = (Inr t, s2)" "s2 = s'"
    using assms(1) unfolding evict_older_than_def by (auto dest!: bind_okD simp: ob_return_def)
  then show ?thesis using series_gone assms(2,3) unfolding apm_point_def by blast
qed

section \<open>Batches of edge records\<close>

lemma delete_first_eq:
  "delete_first n p rs = (rs', k) \<Longrightarrow> k = min n (length (filter p rs)) \<and> length (filter p rs') = length (filter p rs) - k \<and>
    filter (\<lambda>r. \<not> p r) rs' = filter (\<lambda>r. \<not> p r) rs"
proof (induction n p rs arbitrary: rs' k rule: delete_first.induct)
  case (2 n p r rs)
  show ?case
  proof (cases "p r \<and> n > 0")
    case True
    obtain kept j where d: "delete_first (n - 1) p rs = (kept, j)" by fastforce
    from 2(1) [OF True d] show ?thesis using 2(3) True d by (cases n) auto
  next
    case False
    obtain kept j where d: "delete_first n p rs = (kept, j)" by fastforce
    from 2(2) [OF False d] show ?thesis using 2(3) False d by (auto simp: Suc_diff_le)
  qed
qed simp

lemma edge_batches_exact:
  assumes "ob_faults s = []" "0 < limit" "length (filter p (ob_rows s EbpfEdges)) < fuel * limit"
  shows "\<exists>s'. edge_batches limit p fuel rep s =
      (Some (Inr \<lparr>dr_deleted = dr_deleted rep + length (filter p (ob_rows s EbpfEdges)),
        dr_batches = dr_batches rep + length (filter p (ob_rows s EbpfEdges)) div limit + 1\<rparr>), s') \<and>
    ob_rows s' EbpfEdges = filter (\<lambda>r. \<not> p r) (ob_rows s EbpfEdges)"
  using assms
proof (induction fuel arbitrary: rep s)
  case 0
  then show ?case by simp
next
  case (Suc fuel)
  let ?m = "length (filter p (ob_rows s EbpfEdges))"
  obtain rs k where d: "delete_first limit p (ob_rows s EbpfEdges) = (rs, k)" by fastforce
  note e = delete_first_eq [OF d]
  let ?s = "set_rows EbpfEdges rs k s"
  let ?rep = "\<lparr>dr_deleted = dr_deleted rep + k, dr_batches = dr_batches rep + 1\<rparr>"
  have step: "ob_bind (ob_change EbpfEdges (delete_first limit p)) (\<lambda>_. affected_rows) s = (Inr k, ?s)"
    by (simp add: ob_bind_def ob_change_ok Suc.prems(1) d affected_rows_ok)
  show ?case
  proof (cases "k < limit")
    case True
    then have k: "k = ?m" using e by simp
    have "length (filter p rs) = 0" using e k by linarith
    then have "filter p rs = []" by simp
    then have "filter (\<lambda>r. \<not> p r) rs = rs" by (simp add: filter_empty_conv filter_id_conv)
    then have "rs = filter (\<lambda>r. \<not> p r) (ob_rows s EbpfEdges)" using e by simp
    then show ?thesis using True k by (intro exI [of _ ?s]) (simp add: step Let_def)
  next
    case False
    then have k: "k = limit" "limit \<le> ?m" using e by simp_all
    have l: "length (filter p (ob_rows ?s EbpfEdges)) = ?m - limit" using e k by simp
    have "ob_faults ?s = []" "length (filter p (ob_rows ?s EbpfEdges)) < fuel * limit"
      using Suc.prems k l by simp_all
    from Suc.IH [OF this(1) Suc.prems(2) this(2), of ?rep] obtain s' where
        "edge_batches limit p fuel ?rep ?s = (Some (Inr \<lparr>dr_deleted = dr_deleted ?rep + length (filter p (ob_rows ?s EbpfEdges)),
          dr_batches = dr_batches ?rep + length (filter p (ob_rows ?s EbpfEdges)) div limit + 1\<rparr>), s')"
        "ob_rows s' EbpfEdges = filter (\<lambda>r. \<not> p r) (ob_rows ?s EbpfEdges)"
      by blast
    note s' = this [unfolded l]
    have "?m div limit = (?m - limit) div limit + 1" using k(2) Suc.prems(2) by (simp add: le_div_geq)
    then show ?thesis using s' e False k by (intro exI [of _ s']) (simp add: step Let_def)
  qed
qed

section \<open>Runs without a fault\<close>

definition quiet :: "'x retention_db_scheme \<Rightarrow> bool" where
  "quiet s \<longleftrightarrow> ob_faults s = [] \<and> mt_faults s = [] \<and> ids_ok (rt_logs s) \<and>
     length (rt_logs s) < DELETE_BATCH_MAX_ROUNDS * DELETE_BATCH_LIMIT"

definition fine :: "('x, 'a) rt \<Rightarrow> bool" where
  "fine m \<longleftrightarrow> (\<forall>s. quiet s \<longrightarrow> (\<exists>x s'. m s = (Inr x, s') \<and> quiet s'))"

named_theorems fines \<open>operations that succeed without a fault\<close>

lemma fine_bind [fines]: "fine m \<Longrightarrow> (\<And>x. fine (f x)) \<Longrightarrow> fine (ob_bind m f)"
  unfolding fine_def ob_bind_def by fastforce

lemma fine_return [fines]: "fine (ob_return x)"
  by (simp add: fine_def ob_return_def)

lemma fine_change [fines]: "fine (ob_change t f)"
  by (auto simp: fine_def ob_change_ok quiet_def set_rows_def)

lemma fine_affected [fines]: "fine affected_rows"
  by (auto simp: fine_def affected_rows_ok quiet_def)

lemma store_call_ok: "mt_faults s = [] \<Longrightarrow> store_call f s = f s"
proof -
  assume e: "mt_faults s = []"
  have "s\<lparr>mt_faults := mt_faults s\<rparr> = s" by simp
  then have 1: "s\<lparr>mt_faults := []\<rparr> = s" by (simp only: e)
  show ?thesis unfolding store_call_def Let_def e list.sel list.case 1 ..
qed

lemma fine_reclaim [fines]: "fine (reclaim_space env)"
  by (auto simp: fine_def reclaim_space_def store_call_ok quiet_def)

lemma fine_series [fines]: "fine (delete_series env m 0 (max cutoff 1))"
  by (auto simp: fine_def delete_series_def store_call_ok quiet_def)

lemma fine_logs [fines]: "fine (delete_logs env (traces_until cutoff))"
proof (unfold fine_def, intro allI impI)
  fix s :: "'a retention_db_scheme" assume q: "quiet s"
  let ?g = "default_indexed_filter\<lparr>if_to_ts := Some cutoff, if_data_type := Some ''traces'', if_limit := DEFAULT_LIMIT\<rparr>"
  let ?docs = "filter (\<lambda>r. \<not> indexed_match (re_tok env) ?g r) (rt_logs s)"
  have "length (filter (indexed_match (re_tok env) ?g) (rt_logs s)) < DELETE_BATCH_MAX_ROUNDS * DELETE_BATCH_LIMIT"
    using q length_filter_le [of "indexed_match (re_tok env) ?g" "rt_logs s"] unfolding quiet_def by linarith
  then have "delete_matching (re_tok env) (re_rank env) (traces_until cutoff) (rt_logs s) =
      (Inr (length (filter (indexed_match (re_tok env) ?g) (rt_logs s))), ?docs)"
    using delete_batches_exact [of "rt_logs s" "re_tok env" ?g DELETE_BATCH_MAX_ROUNDS 0] q
    by (simp add: delete_matching_def indexed_traces quiet_def)
  moreover have "quiet (s\<lparr>rt_logs := ?docs\<rparr>)"
    using q le_less_trans [OF length_filter_le [of "\<lambda>r. \<not> indexed_match (re_tok env) ?g r" "rt_logs s"]]
    by (auto simp: quiet_def ids_ok_def distinct_map_filter)
  ultimately show "\<exists>x s'. delete_logs env (traces_until cutoff) s = (Inr x, s') \<and> quiet s'"
    using q by (auto simp: delete_logs_def store_call_ok quiet_def)
qed

lemma fine_measurements [fines]: "fine (delete_measurements env cutoff ms)"
  by (induction ms) (auto intro!: fines)

lemma fine_rows [fines]: "fine (delete_rows_older_than t c cutoff)"
  unfolding delete_rows_older_than_def by (intro fines)

lemma fine_evict [fines]: "fine (evict_older_than env cutoff)"
  unfolding evict_older_than_def by (intro fines)

lemma fine_loop [fines]: "fine (evict_loop env budget now step left cursor rep)"
proof (induction left arbitrary: cursor rep)
  case 0
  then show ?case by (auto simp: fine_def evict_loop.simps)
next
  case (Suc left)
  let ?c = "min (sat_add_i64 cursor step) now"
  have "fine (ob_bind (evict_older_than env ?c) (\<lambda>r. ob_bind (reclaim_space env) (\<lambda>n.
      evict_loop env budget now step left ?c
        ((add_report rep r)\<lparr>rp_reclaimed := rp_reclaimed rep + n, rp_rounds := rp_rounds rep + 1\<rparr>))))"
    by (intro fines Suc.IH)
  then show ?case by (auto simp: fine_def evict_loop.simps [of _ _ _ _ "Suc left"] Let_def)
qed

lemma retention_succeeds:
  assumes "quiet s"
  shows "\<exists>rep s'. retention_run env c now s = (Inr rep, s')"
proof -
  let ?cutoff = "retention_cutoff now (rc_default_retention_days c)"
  have tail: "fine (\<lambda>s'. (Inr (rep\<lparr>rp_bytes_after := re_du env s'\<rparr>), s'))" for rep by (simp add: fine_def)
  have "fine (ob_bind (evict_older_than env ?cutoff) (\<lambda>r.
      ob_bind (delete_endpoints (retention_cutoff now (rc_endpoint_retention_days c))) (\<lambda>k.
      ob_bind (reclaim_space env) (\<lambda>n.
      ob_bind (if rc_max_bytes c > 0
               then evict_loop env (rc_max_bytes c) now (evict_step c now ?cutoff) (rc_max_rounds c) ?cutoff
                 (r\<lparr>rp_endpoints := k, rp_reclaimed := n, rp_bytes_before := before\<rparr>)
               else ob_return (r\<lparr>rp_endpoints := k, rp_reclaimed := n, rp_bytes_before := before\<rparr>))
        (\<lambda>rep s'. (Inr (rep\<lparr>rp_bytes_after := re_du env s'\<rparr>), s'))))))" for before
    unfolding delete_endpoints_def by (intro fines tail) (simp add: fines)
  then show ?thesis using assms by (simp add: retention_run_def Let_def fine_def) blast
qed

section \<open>Sample data\<close>

text \<open>Five days after the epoch: an old and a new span, a log line, and an old point derived from a kernel edge.\<close>

definition w_env :: "retention_db retention_env" where
  "w_env = \<lparr>re_du = (\<lambda>s. 5 + length (rt_logs s)), re_gc = (\<lambda>_. 0), re_stones = (\<lambda>_ _ _. 0), re_tok = (\<lambda>m. [m]), re_rank = rev\<rparr>"

definition w_now :: int where "w_now = 5 * MICROS_PER_DAY"

definition w_kernel_point :: "rat ts_point" where
  "w_kernel_point = metric_point ''apm_edge_requests_total'' [(''source'', ''ebpf'')] 1 60000000"

definition w_kept :: retention_db where
  "w_kept = \<lparr>ob_rows = (\<lambda>t. if t = EbpfEdges then map (\<lambda>b. row_of [(''bucket_start'', SqlInteger b)]) [1, 2, 9] else []),
     ob_cols = (\<lambda>t. Some (columns t)), ob_changes = 0, ob_faults = [],
     mt_points = [w_kernel_point], mt_faults = [], rt_logs = [w_log ''a'' 1 ''traces'', w_log ''b'' 1 ''logs'', w_log ''c'' w_now ''traces'']\<rparr>"

lemma w_kept_quiet: "quiet w_kept"
  by (simp add: quiet_def w_kept_def ids_ok_def DELETE_BATCH_MAX_ROUNDS_def DELETE_BATCH_LIMIT_def) (simp add: w_log_def)

section \<open>Properties\<close>



text \<open>The series of calls between services that are derived from the kernel's edges carry the same names as those of
  the spans, so a run that succeeds deletes them with these: nothing of the six names between 0 and
  the age limit is left, whatever its source label says.\<close>

lemma retention_takes_kernel_series:
  assumes "retention_run env c now s = (Inr rep, s')" "apm_point p"
    and "0 \<le> tp_timestamp p" "tp_timestamp p < retention_cutoff now (rc_default_retention_days c)"
  shows "p \<notin> set (mt_points s')"
proof
  assume p: "p \<in> set (mt_points s')"
  let ?cutoff = "retention_cutoff now (rc_default_retention_days c)"
  obtain r s1 where e: "evict_older_than env ?cutoff s = (Inr r, s1)"
    using assms(1) by (auto simp: retention_run_def Let_def dest!: bind_okD)
  have tail: "shrinks (\<lambda>s'. (Inr (rep\<lparr>rp_bytes_after := re_du env s'\<rparr>), s'))" for rep by (simp add: shrinks_def)
  let ?rest = "ob_bind (delete_endpoints (retention_cutoff now (rc_endpoint_retention_days c))) (\<lambda>k.
      ob_bind (reclaim_space env) (\<lambda>n.
      ob_bind (if rc_max_bytes c > 0
               then evict_loop env (rc_max_bytes c) now (evict_step c now ?cutoff) (rc_max_rounds c) ?cutoff
                 (r\<lparr>rp_endpoints := k, rp_reclaimed := n, rp_bytes_before := re_du env s\<rparr>)
               else ob_return (r\<lparr>rp_endpoints := k, rp_reclaimed := n, rp_bytes_before := re_du env s\<rparr>))
        (\<lambda>rep s'. (Inr (rep\<lparr>rp_bytes_after := re_du env s'\<rparr>), s'))))"
  have "shrinks ?rest" unfolding delete_endpoints_def by (intro shrink tail) (simp add: shrink)
  moreover have "?rest s1 = (Inr rep, s')"
    using assms(1) by (simp add: retention_run_def Let_def ob_bind_def [of "evict_older_than env ?cutoff"] e)
  ultimately have "set (mt_points s') \<subseteq> set (mt_points s1)" using shrinksD [of ?rest s1] by simp
  then show False using evict_gone [OF e _ assms(2)] p assms(3,4) by auto
qed

theorem retention_takes_kernel_series_witness:
  "\<exists>rep s'. retention_run w_env default_retention_config w_now w_kept = (Inr rep, s') \<and> w_kernel_point \<notin> set (mt_points s')"
proof -
  obtain rep s' where r: "retention_run w_env default_retention_config w_now w_kept = (Inr rep, s')"
    using retention_succeeds [OF w_kept_quiet] by blast
  have "w_kernel_point \<notin> set (mt_points s')"
    by (rule retention_takes_kernel_series [OF r])
      (simp_all add: w_kernel_point_def metric_point_def apm_point_def APM_MEASUREMENTS_def w_now_def MICROS_PER_DAY_def
        retention_cutoff_def default_retention_config_def sat_sub_i64_def sat_i64_def i64_max_def i64_min_def wrap_i64_def)
  then show ?thesis using r by blast
qed

text \<open>Eviction ends within its rounds and says why: the data is within the budget, or the whole window is gone and
  it is not, or the rounds are used up.\<close>

lemma eviction_outcome:
  assumes "retention_run env c now s = (Inr rep, s')" "0 < rc_max_bytes c"
  shows "loop_outcome env (rc_max_bytes c) (rc_max_rounds c) rep s' \<and> rp_bytes_after rep = re_du env s'"
proof -
  let ?cutoff = "retention_cutoff now (rc_default_retention_days c)"
  obtain r s1 k n s2 rep' where e: "evict_older_than env ?cutoff s = (Inr r, s1)"
    and l: "evict_loop env (rc_max_bytes c) now (evict_step c now ?cutoff) (rc_max_rounds c) ?cutoff
        (r\<lparr>rp_endpoints := k, rp_reclaimed := n, rp_bytes_before := re_du env s\<rparr>) s2 = (Inr rep', s')"
      "rep = rep'\<lparr>rp_bytes_after := re_du env s'\<rparr>"
    using assms by (auto simp: retention_run_def Let_def dest!: bind_okD)
  have "rp_reason r = None \<and> rp_rounds r = 0"
    using e unfolding evict_older_than_def by (auto dest!: bind_okD simp: ob_return_def empty_report_def)
  then have "loop_outcome env (rc_max_bytes c) (rc_max_rounds c) rep' s'" using evict_loop_outcome [OF l(1)] by simp
  then show ?thesis by (simp add: l(2) loop_outcome_def)
qed

theorem eviction_outcome_witness:
  "\<exists>rep s'. retention_run w_env (default_retention_config\<lparr>rc_max_bytes := 6\<rparr>) w_now w_kept = (Inr rep, s') \<and>
     loop_outcome w_env 6 24 rep s'"
proof -
  obtain rep s' where r: "retention_run w_env (default_retention_config\<lparr>rc_max_bytes := 6\<rparr>) w_now w_kept = (Inr rep, s')"
    using retention_succeeds [OF w_kept_quiet] by blast
  then show ?thesis using eviction_outcome [OF r] by (simp add: default_retention_config_def)
qed

text \<open>The edge records of an item older than the limit are deleted completely, in one more batch than there are full
  ones, and nothing else is.\<close>

lemma edge_retention_exact:
  assumes "ob_faults s = []" "length (filter (old_edge data_id cutoff) (ob_rows s EbpfEdges)) < fuel"
  shows "\<exists>s'. delete_edges_before_batched data_id cutoff batch fuel s =
      (Some (Inr \<lparr>dr_deleted = length (filter (old_edge data_id cutoff) (ob_rows s EbpfEdges)),
        dr_batches = length (filter (old_edge data_id cutoff) (ob_rows s EbpfEdges)) div nat (max batch 1) + 1\<rparr>), s') \<and>
    ob_rows s' EbpfEdges = filter (\<lambda>r. \<not> old_edge data_id cutoff r) (ob_rows s EbpfEdges)"
proof -
  have b: "0 < nat (max batch 1)" by simp
  then have "fuel * 1 \<le> fuel * nat (max batch 1)" by (intro mult_le_mono2) linarith
  then have "length (filter (old_edge data_id cutoff) (ob_rows s EbpfEdges)) < fuel * nat (max batch 1)"
    using assms(2) by linarith
  from edge_batches_exact [OF assms(1) b this, of "\<lparr>dr_deleted = 0, dr_batches = 0\<rparr>"] show ?thesis
    by (simp add: delete_edges_before_batched_def)
qed

theorem edge_retention_exact_witness:
  "\<exists>s'. delete_edges_before_batched [] 5 1 3 w_kept = (Some (Inr \<lparr>dr_deleted = 2, dr_batches = 3\<rparr>), s') \<and>
     ob_rows s' EbpfEdges = [row_of [(''bucket_start'', SqlInteger 9)]]"
proof -
  have f: "ob_faults w_kept = []" by (simp add: w_kept_def)
  have r: "ob_rows w_kept EbpfEdges = map (\<lambda>b. row_of [(''bucket_start'', SqlInteger b)]) [1, 2, 9]" by (simp add: w_kept_def)
  have o: "old_edge [] 5 (row_of [(''bucket_start'', SqlInteger b)]) \<longleftrightarrow> b < 5" for b
    by (simp add: old_edge_def field_i64_def row_of_def)
  show ?thesis using edge_retention_exact [OF f, of "[]" 5 3 1] by (simp add: r o numeral_2_eq_2 numeral_3_eq_3)
qed

end
