(* ===== verification/Kv_Store.thy ===== *)
theory Kv_Store
  imports Observation Proto
begin

text \<open>
  \<^verbatim>\<open>crates/dataplane-kv/src/lib.rs\<close>: the byte store, an ordered map from byte strings to byte strings.
  The locale \<open>key_marks\<close> is what its clients rely on: what is set exists and stays until it is deleted.
  A range read stops at the first key without the prefix; that nothing is missed by it is a fact of the
  order of the keys. Failures of the engine are those of the callers' schedules.
\<close>

type_synonym kv = "(string, string) btmap"

definition DEFAULT_CACHE_BYTES :: nat where "DEFAULT_CACHE_BYTES = 64 * 1024 * 1024"

definition cache_size :: "nat \<Rightarrow> nat" where
  "cache_size n = (if n = 0 then DEFAULT_CACHE_BYTES else n)"

definition key_not_found :: dataplane_error where
  "key_not_found = \<lparr>de_code = NotFound, de_message = ''key not found''\<rparr>"

definition kv_get :: "string \<Rightarrow> kv \<Rightarrow> (dataplane_error, string) result" where
  "kv_get k m = (case bt_get m k of Some v \<Rightarrow> Inr v | None \<Rightarrow> Inl key_not_found)"

definition kv_set :: "string \<Rightarrow> string \<Rightarrow> kv \<Rightarrow> kv" where
  "kv_set k v m = bt_insert k v m"

definition kv_delete :: "string \<Rightarrow> kv \<Rightarrow> (dataplane_error, unit) result \<times> kv" where
  "kv_delete k m = (if bt_get m k = None then Inl key_not_found else Inr (), bt_remove k m)"

definition kv_exists :: "string \<Rightarrow> kv \<Rightarrow> bool" where
  "kv_exists k m = is_some (bt_get m k)"

text \<open>From the prefix on, up to the first key that does not begin with it.\<close>

definition scan_prefix :: "string \<Rightarrow> kv \<Rightarrow> (string \<times> string) list" where
  "scan_prefix p m = takeWhile (\<lambda>e. starts_with (fst e) p) (dropWhile (\<lambda>e. fst e < p) m)"

definition le_bytes :: "int \<Rightarrow> string" where
  "le_bytes t = map (\<lambda>i. char_of (nat (t mod 2 ^ 64) div 256 ^ i mod 256 :: nat)) [0..<8]"

definition micros_of :: "string \<Rightarrow> int option" where
  "micros_of v =
     (if length v = 8
      then let n = (\<Sum>i = 0..<8. int (of_char (v ! i)) * 256 ^ i) in Some (if n < 2 ^ 63 then n else n - 2 ^ 64)
      else None)"

definition prune_prefix_before :: "string \<Rightarrow> int \<Rightarrow> kv \<Rightarrow> nat \<times> kv" where
  "prune_prefix_before p cutoff m =
     (let expired = (\<lambda>(k, v). p \<le> k \<and> starts_with k p \<and> (case micros_of v of None \<Rightarrow> True | Some t \<Rightarrow> t < cutoff))
      in (length (filter expired m), filter (\<lambda>e. \<not> expired e) m))"

section \<open>What the clients rely on\<close>

locale key_marks =
  fixes present :: "'k \<Rightarrow> 'm \<Rightarrow> bool" and mark :: "'k \<Rightarrow> 'm \<Rightarrow> 'm"
  assumes present_mark: "present k (mark k' m) \<longleftrightarrow> k = k' \<or> present k m"
begin

lemma present_marks: "present k (foldl (\<lambda>m k. mark k m) m ks) \<longleftrightarrow> k \<in> set ks \<or> present k m"
  by (induction ks arbitrary: m) (auto simp: present_mark)

lemma present_mono: "present k m \<Longrightarrow> present k (mark k' m)"
  by (simp add: present_mark)

end

lemma kv_exists_set: "kv_exists k (kv_set k' v m) \<longleftrightarrow> k = k' \<or> kv_exists k m"
  by (auto simp: kv_exists_def kv_set_def bt_get_insert)

interpretation kv_marks: key_marks kv_exists "\<lambda>k. kv_set k v" for v
  by unfold_locales (rule kv_exists_set)

lemma kv_get_set: "kv_get k (kv_set k v m) = Inr v"
  by (simp add: kv_get_def kv_set_def bt_get_insert)

lemma kv_get_set_other: "k \<noteq> k' \<Longrightarrow> kv_get k (kv_set k' v m) = kv_get k m"
  by (simp add: kv_get_def kv_set_def bt_get_insert)

lemma kv_delete_exact: "kv_get k (snd (kv_delete k' m)) = (if k = k' then Inl key_not_found else kv_get k m)"
  by (simp add: kv_delete_def kv_get_def bt_get_remove)

text \<open>The bytes of a time read back as the time.\<close>

lemma digit_sum: "(\<Sum>i = 0..<k. (n div 256 ^ i mod 256) * 256 ^ i) = n mod 256 ^ k" for n :: int
proof (induction k)
  case (Suc k)
  have "n mod 256 ^ Suc k = n mod (256 ^ k * 256)" by (simp add: mult.commute)
  also have "\<dots> = 256 ^ k * (n div 256 ^ k mod 256) + n mod 256 ^ k" by (rule zmod_zmult2_eq) simp
  finally show ?case using Suc by (simp add: mult.commute)
qed simp

lemma micros_le_bytes:
  assumes "i64_min \<le> t" "t \<le> i64_max"
  shows "micros_of (le_bytes t) = Some t"
proof -
  let ?n = "t mod 2 ^ 64"
  have b: "int (of_char (le_bytes t ! i)) = ?n div 256 ^ i mod 256" if "i < 8" for i
  proof -
    have "of_char (le_bytes t ! i) = nat ?n div 256 ^ i mod 256" using that by (simp add: le_bytes_def)
    then show ?thesis by (simp add: zdiv_int zmod_int)
  qed
  have "(\<Sum>i = 0..<8. int (of_char (le_bytes t ! i)) * 256 ^ i) = (\<Sum>i = 0..<8. (?n div 256 ^ i mod 256) * 256 ^ i)"
    by (rule sum.cong) (use b in auto)
  also have "\<dots> = ?n" by (simp add: digit_sum)
  finally have s: "(\<Sum>i = 0..<8. int (of_char (le_bytes t ! i)) * 256 ^ i) = ?n" .
  have "?n = (if t < 0 then t + 2 ^ 64 else t)" 
  proof (cases "t < 0")
    case True
    have "?n = (t + 2 ^ 64) mod 2 ^ 64" by simp
    also have "\<dots> = t + 2 ^ 64" using True assms unfolding i64_min_def by (intro mod_pos_pos_trivial) auto
    finally show ?thesis using True by simp
  next
    case False
    then have "?n = t" using assms unfolding i64_max_def by (intro mod_pos_pos_trivial) auto
    then show ?thesis using False by simp
  qed
  moreover have "length (le_bytes t) = 8" by (simp add: le_bytes_def)
  ultimately show ?thesis using assms unfolding micros_of_def s i64_min_def i64_max_def Let_def by auto
qed

section \<open>Prefix scans\<close>

lemma less_prefix: "starts_with k p \<Longrightarrow> \<not> k < p" for p :: string
proof (induction p arbitrary: k)
  case (Cons c p)
  obtain a where k: "k = c # a" "starts_with a p" using Cons.prems by (cases k) (auto simp: starts_with_def)
  then show ?case using Cons.IH by simp
qed simp

lemma prefix_between: "starts_with k p \<Longrightarrow> starts_with k' p \<Longrightarrow> k \<le> x \<Longrightarrow> x \<le> k' \<Longrightarrow> starts_with x p" for p :: string
proof (induction p arbitrary: k k' x)
  case (Cons c p)
  obtain a where k: "k = c # a" "starts_with a p" using Cons.prems(1) by (cases k) (auto simp: starts_with_def)
  obtain b where k': "k' = c # b" "starts_with b p" using Cons.prems(2) by (cases k') (auto simp: starts_with_def)
  obtain d y where x: "x = d # y" using Cons.prems(3) k by (cases x) auto
  have "d = c" "a \<le> y" "y \<le> b" using Cons.prems(3,4) k(1) k'(1) x by auto
  then show ?case using Cons.IH [OF k(2) k'(2)] x by (simp add: starts_with_def)
qed (simp add: starts_with_def)

text \<open>A scan misses nothing and adds nothing.\<close>

lemma take_prefix_block:
  assumes "bt_ok m" "\<forall>e \<in> set m. p \<le> fst e"
  shows "takeWhile (\<lambda>e. starts_with (fst e) p) m = filter (\<lambda>e. starts_with (fst e) p) m"
  using assms
proof (induction m)
  case (Cons e m)
  have o: "bt_ok m" "\<forall>x \<in> set m. fst e < fst x" using Cons.prems(1) by (auto simp: bt_ok_def)
  show ?case
  proof (cases "starts_with (fst e) p")
    case True
    then show ?thesis using Cons.IH o(1) Cons.prems(2) by (simp add: case_prod_beta)
  next
    case False
    have "\<not> starts_with (fst x) p" if "x \<in> set m" for x
    proof
      assume x: "starts_with (fst x) p"
      have "starts_with p p" by (simp add: starts_with_def)
      then have "starts_with (fst e) p"
        using prefix_between [of p p "fst x" "fst e"] x o(2) that Cons.prems(2) by (simp add: less_imp_le)
      then show False using False by simp
    qed
    then show ?thesis using False by (auto simp: case_prod_beta filter_empty_conv)
  qed
qed simp

lemma scan_prefix_exact: "bt_ok m \<Longrightarrow> scan_prefix p m = filter (\<lambda>e. starts_with (fst e) p) m"
proof (induction m)
  case (Cons e m)
  have o: "bt_ok m" "\<forall>x \<in> set m. fst e < fst x" using Cons.prems by (auto simp: bt_ok_def)
  show ?case
  proof (cases "fst e < p")
    case True
    then show ?thesis using Cons.IH [OF o(1)] less_prefix [of "fst e" p] by (auto simp: scan_prefix_def case_prod_beta)
  next
    case False
    then have "\<forall>x \<in> set (e # m). p \<le> fst x" using o(2) by auto
    then show ?thesis using take_prefix_block [OF Cons.prems] False by (auto simp: scan_prefix_def case_prod_beta)
  qed
qed (simp add: scan_prefix_def)

end
