(* ===== verification/Ingest.thy ===== *)
theory Ingest
  imports Kv_Store Log_Store
begin

text \<open>
  \<^verbatim>\<open>crates/dataplane-ingest/src/lib.rs\<close>: a batch of records is checked, freed of the records seen before by
  the marks of their ids in the key value store, written to the log or the time series, and handed to the
  derived sinks. The state holds the three stores, the state \<open>'s\<close> of the sinks and the failures of the
  coming engine calls. The decoders of \<^verbatim>\<open>serde\<close>, the JSON text of a record and quoted strings are parameters
  (\<open>decoders\<close>); a sink is the function its trait asks for. The time of the marks is one per batch.
\<close>

record record_failure =
  rf_record_id :: string
  rf_code :: string
  rf_message :: string

record ingest_reply =
  ir_batch_id :: string
  ir_accepted :: nat
  ir_status :: string
  ir_failures :: "record_failure list"

record stream_index =
  sx_last_seen :: int
  sx_accepted :: nat

datatype apply_error = InvalidRecord record_failure | EngineError dataplane_error

record decoders =
  de_metrics :: "json \<Rightarrow> (string, metrics_record) result"
  de_logs :: "json \<Rightarrow> (string, logs_record) result"
  de_apm :: "json \<Rightarrow> (string, apm_record) result"
  de_ebpf :: "json \<Rightarrow> (string, ebpf_event_record) result"
  de_span :: "json \<Rightarrow> (string, trace_span) result"
  de_edge :: "json \<Rightarrow> (string, ebpf_edge) result"
  de_text :: "json \<Rightarrow> string"
  de_dbg :: "string \<Rightarrow> string"
  de_payload :: "trace_span \<Rightarrow> string option"

record 's sinks =
  sk_trace :: "(int \<times> (trace_span \<Rightarrow> data_envelope \<Rightarrow> 's \<Rightarrow> (dataplane_error, unit) result \<times> 's)) option"
  sk_edge :: "(ebpf_edge \<Rightarrow> data_envelope \<Rightarrow> 's \<Rightarrow> (dataplane_error, unit) result \<times> 's) option"
  sk_metric :: "(string \<Rightarrow> labels \<Rightarrow> 's \<Rightarrow> (string \<times> string) list \<times> 's) option"

record 's ingest_state =
  ig_kv :: kv
  ig_logs :: "log_record list"
  ig_points :: "f64 ts_point list"
  ig_sink :: 's
  ig_faults :: "dataplane_error option list"

type_synonym ('s, 'a) ig = "'s ingest_state \<Rightarrow> (apply_error, 'a) result \<times> 's ingest_state"

definition ig_return :: "'a \<Rightarrow> ('s, 'a) ig" where
  "ig_return x s = (Inr x, s)"

definition ig_lift :: "(record_failure, 'a) result \<Rightarrow> ('s, 'a) ig" where
  "ig_lift r s = (case r of Inl f \<Rightarrow> Inl (InvalidRecord f) | Inr x \<Rightarrow> Inr x, s)"

definition ig_bind :: "('s, 'a) ig \<Rightarrow> ('a \<Rightarrow> ('s, 'b) ig) \<Rightarrow> ('s, 'b) ig" where
  "ig_bind f g s = (case f s of (Inl e, s') \<Rightarrow> (Inl e, s') | (Inr x, s') \<Rightarrow> g x s')"

text \<open>A call of a store either fails by the schedule and changes nothing, or takes effect.\<close>

definition engine_call :: "('s ingest_state \<Rightarrow> 'a \<times> 's ingest_state) \<Rightarrow> ('s, 'a) ig" where
  "engine_call f s =
     (let s' = s\<lparr>ig_faults := tl (ig_faults s)\<rparr> in
      case ig_faults s of Some e # _ \<Rightarrow> (Inl (EngineError e), s') | _ \<Rightarrow> (let (x, s'') = f s' in (Inr x, s'')))"

section \<open>Marks\<close>

definition INGEST_PREFIX :: string where "INGEST_PREFIX = ''ingest/''"

definition ingest_key :: "string \<Rightarrow> string" where
  "ingest_key record_id = INGEST_PREFIX @ record_id"

definition stream_key :: "string \<Rightarrow> data_type \<Rightarrow> string \<Rightarrow> string" where
  "stream_key agent_id t data_id = ''stream/'' @ agent_id @ ''/'' @ data_type_str t @ ''/'' @ data_id"

definition already_accepted :: "string \<Rightarrow> ('s, bool) ig" where
  "already_accepted i = engine_call (\<lambda>s. (kv_exists (ingest_key i) (ig_kv s), s))"

definition mark_ingested :: "int \<Rightarrow> string \<Rightarrow> ('s, unit) ig" where
  "mark_ingested now i = engine_call (\<lambda>s. ((), s\<lparr>ig_kv := kv_set (ingest_key i) (le_bytes now) (ig_kv s)\<rparr>))"

definition append_log :: "log_record \<Rightarrow> ('s, unit) ig" where
  "append_log r = engine_call (\<lambda>s. ((), s\<lparr>ig_logs := ig_logs s @ [r]\<rparr>))"

definition write_point :: "f64 ts_point \<Rightarrow> ('s, unit) ig" where
  "write_point p = engine_call (\<lambda>s. ((), s\<lparr>ig_points := ig_points s @ [p]\<rparr>))"

text \<open>A record whose id is marked is accepted without any effect; a new one is marked after it was stored.\<close>

definition unless_accepted :: "int \<Rightarrow> string \<Rightarrow> ('s, unit) ig \<Rightarrow> ('s, unit) ig" where
  "unless_accepted now i body =
     ig_bind (already_accepted i) (\<lambda>seen. if seen then ig_return () else ig_bind body (\<lambda>_. mark_ingested now i))"

section \<open>Records\<close>

definition raw_record_id :: "json \<Rightarrow> string" where
  "raw_record_id raw = unwrap_or (Option.bind (json_get raw ''record_id'') as_str) []"

definition parse_record :: "(json \<Rightarrow> (string, 'r) result) \<Rightarrow> json \<Rightarrow> (record_failure, 'r) result" where
  "parse_record dec raw =
     (case dec raw of
        Inl m \<Rightarrow> Inl \<lparr>rf_record_id = raw_record_id raw, rf_code = ''invalid_record'', rf_message = m\<rparr>
      | Inr r \<Rightarrow> Inr r)"

definition require_record_id :: "string \<Rightarrow> json \<Rightarrow> (record_failure, unit) result" where
  "require_record_id i raw =
     (if i = [] then Inl \<lparr>rf_record_id = raw_record_id raw, rf_code = ''invalid_record'', rf_message = ''record_id is required''\<rparr>
      else Inr ())"

definition rejected :: "string \<Rightarrow> (string, unit) result \<Rightarrow> (record_failure, unit) result" where
  "rejected i r = (case r of Inl m \<Rightarrow> Inl \<lparr>rf_record_id = i, rf_code = ''invalid_argument'', rf_message = m\<rparr> | Inr () \<Rightarrow> Inr ())"

definition exceeds_size_limit :: "decoders \<Rightarrow> json \<Rightarrow> bool" where
  "exceeds_size_limit D raw \<longleftrightarrow> length (de_text D raw) > MAX_TRACE_SPAN_BYTES"

definition within_size_limit :: "decoders \<Rightarrow> json \<Rightarrow> (record_failure, unit) result" where
  "within_size_limit D raw =
     (if exceeds_size_limit D raw
      then Inl \<lparr>rf_record_id = raw_record_id raw, rf_code = ''invalid_argument'',
             rf_message = ''span exceeds '' @ nat_dec MAX_TRACE_SPAN_BYTES @
               '' bytes (256 KiB); reduce attributes/events or drop them at the collector''\<rparr>
      else Inr ())"

definition put_labels :: "(string \<times> string) list \<Rightarrow> labels \<Rightarrow> labels" where
  "put_labels kvs ls = foldl (\<lambda>m (k, v). bt_insert k v m) ls kvs"

definition write_metric :: "'s sinks \<Rightarrow> data_envelope \<Rightarrow> metrics_record \<Rightarrow> ('s, unit) ig" where
  "write_metric S v r s =
     (let tags = merge_envelope_tags (mr_tags r) v;
          (more_tags, k) = (case sk_metric S of None \<Rightarrow> ([], ig_sink s) | Some f \<Rightarrow> f (mr_measurement r) tags (ig_sink s))
      in write_point \<lparr>tp_measurement = mr_measurement r, tp_tags = put_labels more_tags tags, tp_field_name = mr_field_name r,
           tp_field_value = mr_field_value r, tp_timestamp = mr_timestamp r\<rparr> (s\<lparr>ig_sink := k\<rparr>))"

definition log_of_logs :: "data_envelope \<Rightarrow> logs_record \<Rightarrow> log_record" where
  "log_of_logs v r = \<lparr>lr_id = lo_record_id r, lr_timestamp = lo_timestamp r, lr_level = lo_level r, lr_message = lo_message r,
     lr_labels = merge_common_labels (put_labels [(''source'', lo_source r)] (lo_labels r)) v, lr_payload = None\<rparr>"

definition log_of_apm :: "data_envelope \<Rightarrow> apm_record \<Rightarrow> log_record" where
  "log_of_apm v r = \<lparr>lr_id = ap_record_id r, lr_timestamp = ap_timestamp r,
     lr_level = (if ap_status r = [] then ''info'' else ap_status r),
     lr_message = ap_service r @ '' '' @ ap_operation r @ '' '' @ int_dec (ap_duration_micros r) @ ''us'',
     lr_labels = merge_common_labels (put_labels
       [(''trace_id'', ap_trace_id r), (''span_id'', ap_span_id r), (''parent_span_id'', ap_parent_span_id r),
        (''service'', ap_service r), (''operation'', ap_operation r), (''duration_micros'', int_dec (ap_duration_micros r)),
        (''status'', ap_status r)] (ap_labels r)) v,
     lr_payload = None\<rparr>"

definition log_of_ebpf :: "data_envelope \<Rightarrow> ebpf_event_record \<Rightarrow> log_record" where
  "log_of_ebpf v r = \<lparr>lr_id = ev_record_id r, lr_timestamp = ev_timestamp r, lr_level = ''info'', lr_message = ev_message r,
     lr_labels = merge_common_labels (put_labels
       [(''event_type'', ev_event_type r), (''pid'', int_dec (ev_pid r)), (''process_name'', ev_process_name r)] (ev_labels r)) v,
     lr_payload = None\<rparr>"

text \<open>The details of a span are kept from a duration on that the sink sets; a sink that fails is only noted.\<close>

definition detail_min :: "'s sinks \<Rightarrow> int" where
  "detail_min S = (case sk_trace S of None \<Rightarrow> 0 | Some (d, _) \<Rightarrow> d)"

definition tell_trace :: "'s sinks \<Rightarrow> trace_span \<Rightarrow> data_envelope \<Rightarrow> ('s, unit) ig" where
  "tell_trace S sp v s = (Inr (), case sk_trace S of None \<Rightarrow> s | Some (_, f) \<Rightarrow> s\<lparr>ig_sink := snd (f sp v (ig_sink s))\<rparr>)"

definition tell_edge :: "'s sinks \<Rightarrow> ebpf_edge \<Rightarrow> data_envelope \<Rightarrow> ('s, unit) ig" where
  "tell_edge S e v s = (Inr (), case sk_edge S of None \<Rightarrow> s | Some f \<Rightarrow> s\<lparr>ig_sink := snd (f e v (ig_sink s))\<rparr>)"

definition apply_one :: "decoders \<Rightarrow> 's sinks \<Rightarrow> int \<Rightarrow> data_envelope \<Rightarrow> json \<Rightarrow> ('s, unit) ig" where
  "apply_one D S now v raw =
     (case dv_data_type v of
        DtMetrics \<Rightarrow>
          ig_bind (ig_lift (parse_record (de_metrics D) raw)) (\<lambda>r.
          ig_bind (ig_lift (require_record_id (mr_record_id r) raw)) (\<lambda>_.
          unless_accepted now (mr_record_id r) (write_metric S v r)))
      | DtLogs \<Rightarrow>
          ig_bind (ig_lift (parse_record (de_logs D) raw)) (\<lambda>r.
          ig_bind (ig_lift (require_record_id (lo_record_id r) raw)) (\<lambda>_.
          unless_accepted now (lo_record_id r) (append_log (log_of_logs v r))))
      | DtApm \<Rightarrow>
          ig_bind (ig_lift (parse_record (de_apm D) raw)) (\<lambda>r.
          ig_bind (ig_lift (require_record_id (ap_record_id r) raw)) (\<lambda>_.
          unless_accepted now (ap_record_id r) (append_log (log_of_apm v r))))
      | DtEbpf \<Rightarrow>
          ig_bind (ig_lift (parse_record (de_ebpf D) raw)) (\<lambda>r.
          ig_bind (ig_lift (require_record_id (ev_record_id r) raw)) (\<lambda>_.
          unless_accepted now (ev_record_id r) (append_log (log_of_ebpf v r))))
      | DtTraces \<Rightarrow>
          ig_bind (ig_lift (within_size_limit D raw)) (\<lambda>_.
          ig_bind (ig_lift (parse_record (de_span D) raw)) (\<lambda>r.
          ig_bind (ig_lift (require_record_id (sp_record_id r) raw)) (\<lambda>_.
          let sp = normalize_span r in
          ig_bind (ig_lift (rejected (sp_record_id sp) (validate_span (de_dbg D) sp))) (\<lambda>_.
          unless_accepted now (sp_record_id sp)
            (ig_bind (if duration_micros sp \<ge> detail_min S then append_log (span_to_log (de_payload D) sp v) else ig_return ())
              (\<lambda>_. tell_trace S sp v))))))
      | DtEbpfEdges \<Rightarrow>
          ig_bind (ig_lift (parse_record (de_edge D) raw)) (\<lambda>r.
          ig_bind (ig_lift (rejected (eb_record_id r) (validate_edge r))) (\<lambda>_.
          unless_accepted now (eb_record_id r) (tell_edge S r v))))"

section \<open>Batches\<close>

text \<open>A failed engine call ends the batch; a record that is refused does not.\<close>

fun apply_records ::
    "decoders \<Rightarrow> 's sinks \<Rightarrow> int \<Rightarrow> data_envelope \<Rightarrow> json list \<Rightarrow> nat \<Rightarrow> record_failure list \<Rightarrow> 's ingest_state \<Rightarrow>
     (dataplane_error, nat \<times> record_failure list) result \<times> 's ingest_state" where
  "apply_records D S now v [] n fs s = (Inr (n, fs), s)"
| "apply_records D S now v (raw # rs) n fs s =
     (case apply_one D S now v raw s of
        (Inr _, s') \<Rightarrow> apply_records D S now v rs (n + 1) fs s'
      | (Inl (InvalidRecord f), s') \<Rightarrow> apply_records D S now v rs n (fs @ [f]) s'
      | (Inl (EngineError e), s') \<Rightarrow> (Inl e, s'))"

definition stream_json :: "stream_index \<Rightarrow> string" where
  "stream_json x = ''{\"last_seen_micros\":'' @ int_dec (sx_last_seen x) @ '',\"accepted\":'' @ nat_dec (sx_accepted x) @ ''}''"

definition upsert_stream :: "data_envelope \<Rightarrow> nat \<Rightarrow> ('s, unit) ig" where
  "upsert_stream v n = engine_call (\<lambda>s. ((), s\<lparr>ig_kv := kv_set (stream_key (dv_agent_id v) (dv_data_type v) (dv_data_id v))
     (stream_json \<lparr>sx_last_seen = dv_sent_at_micros v, sx_accepted = n\<rparr>) (ig_kv s)\<rparr>))"

definition batch_reply :: "data_envelope \<Rightarrow> nat \<Rightarrow> record_failure list \<Rightarrow> ingest_reply" where
  "batch_reply v n fs = \<lparr>ir_batch_id = dv_batch_id v, ir_accepted = n,
     ir_status = (if fs = [] then ''ok'' else ''partial''), ir_failures = fs\<rparr>"

definition apply_with_sinks ::
    "decoders \<Rightarrow> 's sinks \<Rightarrow> int \<Rightarrow> data_envelope \<Rightarrow> 's ingest_state \<Rightarrow> (dataplane_error, ingest_reply) result \<times> 's ingest_state" where
  "apply_with_sinks D S now v s =
     (if trim (dv_agent_id v) = [] then (Inl \<lparr>de_code = InvalidArgument, de_message = ''agent_id is required''\<rparr>, s)
      else if dv_records v = [] then (Inl \<lparr>de_code = InvalidArgument, de_message = ''records must not be empty''\<rparr>, s)
      else
        case apply_records D S now v (dv_records v) 0 [] s of
          (Inl e, s') \<Rightarrow> (Inl e, s')
        | (Inr (n, fs), s') \<Rightarrow>
            if n = 0 then (Inr (batch_reply v n fs), s')
            else (case upsert_stream v n s' of
                (Inl (EngineError e), s'') \<Rightarrow> (Inl e, s'')
              | (_, s'') \<Rightarrow> (Inr (batch_reply v n fs), s'')))"

section \<open>Searches\<close>

record log_query =
  lq_data_type :: "string option"
  lq_agent_id :: "string option"
  lq_host_id :: "string option"
  lq_data_id :: "string option"
  lq_from_ts :: "int option"
  lq_to_ts :: "int option"
  lq_level :: "string option"
  lq_message_query :: "string option"
  lq_trace_id :: "string option"
  lq_event_type :: "string option"
  lq_labels :: labels
  lq_limit :: "nat option"

definition insert_label :: "string \<Rightarrow> string option \<Rightarrow> labels \<Rightarrow> labels" where
  "insert_label k v ls = (case v of Some x \<Rightarrow> bt_insert k x ls | None \<Rightarrow> ls)"

definition query_filter :: "log_query \<Rightarrow> log_filter" where
  "query_filter q =
     \<lparr>lf_from_ts = lq_from_ts q, lf_to_ts = lq_to_ts q, lf_level = lq_level q, lf_message_query = lq_message_query q,
      lf_labels = insert_label ''event_type'' (lq_event_type q) (insert_label ''trace_id'' (lq_trace_id q)
        (insert_label ''data_id'' (lq_data_id q) (insert_label ''host_id'' (lq_host_id q)
          (insert_label ''agent_id'' (lq_agent_id q) (insert_label ''data_type'' (lq_data_type q) (lq_labels q)))))),
      lf_limit = clamp_log_limit (unwrap_or (lq_limit q) 0)\<rparr>"

definition search_logs ::
    "(string \<Rightarrow> string list) \<Rightarrow> (log_record list \<Rightarrow> log_record list) \<Rightarrow> log_query \<Rightarrow> log_record list \<Rightarrow>
     (dataplane_error, log_record list) result" where
  "search_logs tok rank q docs =
     (case (lq_from_ts q, lq_to_ts q) of
        (Some a, Some b) \<Rightarrow>
          if a > b then Inl \<lparr>de_code = InvalidArgument, de_message = ''from_ts must not be later than to_ts''\<rparr>
          else Inr (log_search tok rank (query_filter q) docs)
      | _ \<Rightarrow> Inr (log_search tok rank (query_filter q) docs))"

section \<open>What a record is\<close>

text \<open>The verdict on a record depends on nothing stored: it is refused, or has an id and the log records it becomes.\<close>

definition valid_id :: "(record_failure, 'r) result \<Rightarrow> ('r \<Rightarrow> string) \<Rightarrow> json \<Rightarrow> ('r \<Rightarrow> 'd) \<Rightarrow> (record_failure, string \<times> 'd) result" where
  "valid_id p i raw d =
     (case p of Inl f \<Rightarrow> Inl f | Inr r \<Rightarrow> (case require_record_id (i r) raw of Inl f \<Rightarrow> Inl f | Inr _ \<Rightarrow> Inr (i r, d r)))"

definition checked :: "decoders \<Rightarrow> int \<Rightarrow> data_envelope \<Rightarrow> json \<Rightarrow> (record_failure, string \<times> log_record list) result" where
  "checked D least v raw =
     (case dv_data_type v of
        DtMetrics \<Rightarrow> valid_id (parse_record (de_metrics D) raw) mr_record_id raw (\<lambda>_. [])
      | DtLogs \<Rightarrow> valid_id (parse_record (de_logs D) raw) lo_record_id raw (\<lambda>r. [log_of_logs v r])
      | DtApm \<Rightarrow> valid_id (parse_record (de_apm D) raw) ap_record_id raw (\<lambda>r. [log_of_apm v r])
      | DtEbpf \<Rightarrow> valid_id (parse_record (de_ebpf D) raw) ev_record_id raw (\<lambda>r. [log_of_ebpf v r])
      | DtTraces \<Rightarrow>
          (case within_size_limit D raw of Inl f \<Rightarrow> Inl f | Inr _ \<Rightarrow>
          (case valid_id (parse_record (de_span D) raw) sp_record_id raw normalize_span of Inl f \<Rightarrow> Inl f | Inr (_, sp) \<Rightarrow>
          (case rejected (sp_record_id sp) (validate_span (de_dbg D) sp) of Inl f \<Rightarrow> Inl f | Inr _ \<Rightarrow>
            Inr (sp_record_id sp, if duration_micros sp \<ge> least then [span_to_log (de_payload D) sp v] else []))))
      | DtEbpfEdges \<Rightarrow>
          (case parse_record (de_edge D) raw of Inl f \<Rightarrow> Inl f | Inr r \<Rightarrow>
          (case rejected (eb_record_id r) (validate_edge r) of Inl f \<Rightarrow> Inl f | Inr _ \<Rightarrow> Inr (eb_record_id r, []))))"

definition clear :: "'s ingest_state \<Rightarrow> bool" where
  "clear s \<longleftrightarrow> set (ig_faults s) \<subseteq> {None}"

definition stored :: "'s ingest_state \<Rightarrow> log_record list \<times> f64 ts_point list \<times> 's" where
  "stored s = (ig_logs s, ig_points s, ig_sink s)"

definition marks :: "kv \<Rightarrow> string \<Rightarrow> bool" where
  "marks m = (\<lambda>i. kv_exists (ingest_key i) m)"

text \<open>What storing a record does to the marks and the log, whether it works or not.\<close>

definition writes :: "('s, unit) ig \<Rightarrow> log_record list \<Rightarrow> bool" where
  "writes b ds \<longleftrightarrow> (\<forall>s. case b s of
       (Inl e, s') \<Rightarrow> (\<exists>x. e = EngineError x) \<and> ig_kv s' = ig_kv s \<and> ig_logs s' = ig_logs s \<and> \<not> clear s
     | (Inr _, s') \<Rightarrow> ig_kv s' = ig_kv s \<and> ig_logs s' = ig_logs s @ ds \<and> (clear s \<longrightarrow> clear s'))"

lemma clear_tl: "clear s \<Longrightarrow> set (tl (ig_faults s)) \<subseteq> {None}"
  by (cases "ig_faults s") (auto simp: clear_def)

lemma engine_call_cases:
  obtains (fails) e where "engine_call f s = (Inl (EngineError e), s\<lparr>ig_faults := tl (ig_faults s)\<rparr>)" "\<not> clear s"
  | (works) x s' where "f (s\<lparr>ig_faults := tl (ig_faults s)\<rparr>) = (x, s')" "engine_call f s = (Inr x, s')"
proof (cases "\<exists>e fs. ig_faults s = Some e # fs")
  case True
  then obtain e fs where e: "ig_faults s = Some e # fs" by blast
  then show ?thesis by (intro fails [of e]) (auto simp: engine_call_def Let_def clear_def)
next
  case False
  obtain x s' where x: "f (s\<lparr>ig_faults := tl (ig_faults s)\<rparr>) = (x, s')" by force
  have "engine_call f s = (Inr x, s')"
    using False x by (auto simp: engine_call_def Let_def split: list.split option.split)
  with x show ?thesis by (rule works)
qed

lemma writes_append [intro]: "writes (append_log r) [r]"
  unfolding writes_def append_log_def
proof
  fix s
  show "case engine_call (\<lambda>s. ((), s\<lparr>ig_logs := ig_logs s @ [r]\<rparr>)) s of
       (Inl e, s') \<Rightarrow> (\<exists>x. e = EngineError x) \<and> ig_kv s' = ig_kv s \<and> ig_logs s' = ig_logs s \<and> \<not> clear s
     | (Inr _, s') \<Rightarrow> ig_kv s' = ig_kv s \<and> ig_logs s' = ig_logs s @ [r] \<and> (clear s \<longrightarrow> clear s')"
    by (cases rule: engine_call_cases [of "\<lambda>s. ((), s\<lparr>ig_logs := ig_logs s @ [r]\<rparr>)" s])
      (auto simp: clear_def dest!: clear_tl [unfolded clear_def])
qed

lemma writes_point: "writes (\<lambda>s. write_point (p s) (s\<lparr>ig_sink := k s\<rparr>)) []"
  unfolding writes_def
proof
  fix s
  let ?s = "s\<lparr>ig_sink := k s\<rparr>" and ?f = "\<lambda>t. ((), t\<lparr>ig_points := ig_points t @ [p s]\<rparr>)"
  show "case write_point (p s) ?s of
       (Inl e, s') \<Rightarrow> (\<exists>x. e = EngineError x) \<and> ig_kv s' = ig_kv s \<and> ig_logs s' = ig_logs s \<and> \<not> clear s
     | (Inr _, s') \<Rightarrow> ig_kv s' = ig_kv s \<and> ig_logs s' = ig_logs s @ [] \<and> (clear s \<longrightarrow> clear s')"
    unfolding write_point_def
    by (cases rule: engine_call_cases [of ?f ?s]) (auto simp: clear_def dest!: clear_tl [unfolded clear_def])
qed

lemma writes_metric [intro]:
  fixes S :: "'s sinks"
  shows "writes (write_metric S v r) []"
proof -
  define k where "k = (\<lambda>s :: 's ingest_state. case sk_metric S of None \<Rightarrow> ([], ig_sink s)
    | Some f \<Rightarrow> f (mr_measurement r) (merge_envelope_tags (mr_tags r) v) (ig_sink s))"
  have "write_metric S v r = (\<lambda>s. write_point \<lparr>tp_measurement = mr_measurement r,
      tp_tags = put_labels (fst (k s)) (merge_envelope_tags (mr_tags r) v), tp_field_name = mr_field_name r,
      tp_field_value = mr_field_value r, tp_timestamp = mr_timestamp r\<rparr> (s\<lparr>ig_sink := snd (k s)\<rparr>))"
    by (rule ext) (simp add: write_metric_def k_def case_prod_beta Let_def)
  then show ?thesis using writes_point by simp
qed

lemma writes_tell [intro]: "writes (tell_trace S sp v) []" "writes (tell_edge S e v) []"
  by (auto simp: writes_def tell_trace_def tell_edge_def clear_def split: option.splits)

lemma writes_return [intro]: "writes (ig_return ()) []"
  by (auto simp: writes_def ig_return_def)

lemma writes_bind:
  assumes "writes b ds" "writes c []" "\<And>s. \<exists>s'. c s = (Inr (), s')"
  shows "writes (ig_bind b (\<lambda>_. c)) ds"
  unfolding writes_def
proof
  fix s
  obtain x s1 where b: "b s = (x, s1)" by force
  obtain s2 where c: "c s1 = (Inr (), s2)" using assms(3) by blast
  have "case b s of
       (Inl e, s') \<Rightarrow> (\<exists>x. e = EngineError x) \<and> ig_kv s' = ig_kv s \<and> ig_logs s' = ig_logs s \<and> \<not> clear s
     | (Inr _, s') \<Rightarrow> ig_kv s' = ig_kv s \<and> ig_logs s' = ig_logs s @ ds \<and> (clear s \<longrightarrow> clear s')"
    using assms(1) by (simp add: writes_def)
  moreover have "ig_kv s2 = ig_kv s1 \<and> ig_logs s2 = ig_logs s1 \<and> (clear s1 \<longrightarrow> clear s2)"
    using assms(2) c by (auto simp: writes_def dest!: spec [of _ s1])
  ultimately show "case ig_bind b (\<lambda>_. c) s of
       (Inl e, s') \<Rightarrow> (\<exists>x. e = EngineError x) \<and> ig_kv s' = ig_kv s \<and> ig_logs s' = ig_logs s \<and> \<not> clear s
     | (Inr _, s') \<Rightarrow> ig_kv s' = ig_kv s \<and> ig_logs s' = ig_logs s @ ds \<and> (clear s \<longrightarrow> clear s')"
    using b c by (cases x) (auto simp: ig_bind_def)
qed

lemma apply_one_invalid:
  "checked D (detail_min S) v raw = Inl f \<Longrightarrow> apply_one D S now v raw s = (Inl (InvalidRecord f), s)"
  by (cases "dv_data_type v")
    (auto simp: checked_def apply_one_def valid_id_def ig_bind_def ig_lift_def Let_def split: sum.splits prod.splits)

lemma apply_one_valid:
  assumes "checked D (detail_min S) v raw = Inr (i, ds)"
  shows "\<exists>b. writes b ds \<and> apply_one D S now v raw = unless_accepted now i b"
proof -
  have t: "\<exists>s'. tell_trace S sp v s = (Inr (), s')" for sp s by (simp add: tell_trace_def)
  have lift: "ig_bind (ig_lift (Inr x)) g = g x" for x :: 'x and g :: "'x \<Rightarrow> ('a, unit) ig"
    by (rule ext) (simp add: ig_bind_def ig_lift_def)
  show ?thesis
  proof (cases "dv_data_type v")
    case DtTraces
    from assms obtain r where r: "within_size_limit D raw = Inr ()" "parse_record (de_span D) raw = Inr r"
        "require_record_id (sp_record_id r) raw = Inr ()"
        "rejected (sp_record_id (normalize_span r)) (validate_span (de_dbg D) (normalize_span r)) = Inr ()"
      and i: "i = sp_record_id (normalize_span r)"
        "ds = (if duration_micros (normalize_span r) \<ge> detail_min S then [span_to_log (de_payload D) (normalize_span r) v] else [])"
      by (auto simp: checked_def DtTraces valid_id_def split: sum.splits)
    let ?b = "ig_bind (if duration_micros (normalize_span r) \<ge> detail_min S then append_log (span_to_log (de_payload D) (normalize_span r) v)
        else ig_return ()) (\<lambda>_. tell_trace S (normalize_span r) v)"
    have "writes ?b ds" by (rule writes_bind) (use t i in auto)
    moreover have "apply_one D S now v raw = unless_accepted now i ?b" by (simp add: apply_one_def DtTraces lift r i(1) Let_def)
    ultimately show ?thesis by blast
  qed (use assms in \<open>auto simp: checked_def apply_one_def valid_id_def lift split: sum.splits\<close>)
qed

lemma marks_set: "marks (kv_set (ingest_key i) t m) = (marks m)(i := True)"
  by (rule ext) (auto simp: marks_def ingest_key_def kv_exists_set)

lemma marks_stream: "marks (kv_set (stream_key a t d) x m) = marks m"
  by (rule ext) (auto simp: marks_def ingest_key_def INGEST_PREFIX_def stream_key_def kv_exists_set)

lemma already_cases:
  obtains (fails) e where "already_accepted i s = (Inl (EngineError e), s\<lparr>ig_faults := tl (ig_faults s)\<rparr>)" "\<not> clear s"
  | (works) "already_accepted i s = (Inr (marks (ig_kv s) i), s\<lparr>ig_faults := tl (ig_faults s)\<rparr>)"
  unfolding already_accepted_def marks_def
  by (rule engine_call_cases [of "\<lambda>s. (kv_exists (ingest_key i) (ig_kv s), s)" s]) auto

lemma mark_cases:
  obtains (fails) e where "mark_ingested now i s = (Inl (EngineError e), s\<lparr>ig_faults := tl (ig_faults s)\<rparr>)" "\<not> clear s"
  | (works) "mark_ingested now i s =
      (Inr (), s\<lparr>ig_faults := tl (ig_faults s), ig_kv := kv_set (ingest_key i) (le_bytes now) (ig_kv s)\<rparr>)"
  unfolding mark_ingested_def
  by (rule engine_call_cases [of "\<lambda>s. ((), s\<lparr>ig_kv := kv_set (ingest_key i) (le_bytes now) (ig_kv s)\<rparr>)" s]) auto

text \<open>A record seen before changes nothing; a new one is written and marked, or an engine call fails before the mark.\<close>

lemma unless_accepted_cases:
  assumes "writes b ds"
  obtains (seen) s' where "marks (ig_kv s) i" "unless_accepted now i b s = (Inr (), s')" "s' = s\<lparr>ig_faults := tl (ig_faults s)\<rparr>"
  | (new) s' where "\<not> marks (ig_kv s) i" "unless_accepted now i b s = (Inr (), s')" "marks (ig_kv s') = (marks (ig_kv s))(i := True)"
      "ig_logs s' = ig_logs s @ ds" "clear s \<longrightarrow> clear s'"
  | (failed) e s' where "unless_accepted now i b s = (Inl (EngineError e), s')" "\<not> clear s" "ig_kv s' = ig_kv s" "ig_logs s' = ig_logs s"
  | (unmarked) e s' where "\<not> marks (ig_kv s) i" "unless_accepted now i b s = (Inl (EngineError e), s')" "\<not> clear s"
      "ig_kv s' = ig_kv s" "ig_logs s' = ig_logs s @ ds"
proof (cases rule: already_cases [of i s])
  case (fails e)
  then show ?thesis by (intro failed [of e "s\<lparr>ig_faults := tl (ig_faults s)\<rparr>"]) (auto simp: unless_accepted_def ig_bind_def)
next
  case works
  let ?s = "s\<lparr>ig_faults := tl (ig_faults s)\<rparr>"
  show ?thesis
  proof (cases "marks (ig_kv s) i")
    case True
    then show ?thesis using works by (intro seen) (auto simp: unless_accepted_def ig_bind_def ig_return_def)
  next
    case False
    obtain x t where b: "b ?s = (x, t)" by force
    have w: "case x of Inl e \<Rightarrow> (\<exists>y. e = EngineError y) \<and> ig_kv t = ig_kv s \<and> ig_logs t = ig_logs s \<and> \<not> clear ?s
        | Inr _ \<Rightarrow> ig_kv t = ig_kv s \<and> ig_logs t = ig_logs s @ ds \<and> (clear ?s \<longrightarrow> clear t)"
      using assms b unfolding writes_def by (auto dest!: spec [of _ ?s] split: sum.splits)
    have c: "clear s \<Longrightarrow> clear ?s" using clear_tl by (auto simp: clear_def)
    show ?thesis
    proof (cases x)
      case (Inl e)
      then show ?thesis using works False b w c by (intro failed [of "(case e of EngineError y \<Rightarrow> y | InvalidRecord f \<Rightarrow> undefined)" t]) (auto simp: unless_accepted_def ig_bind_def)
    next
      case (Inr u)
      show ?thesis
      proof (cases rule: mark_cases [of now i t])
        case (fails e)
        then show ?thesis using works False b w c Inr
          by (intro unmarked [of e "t\<lparr>ig_faults := tl (ig_faults t)\<rparr>"]) (auto simp: unless_accepted_def ig_bind_def)
      next
        case works': works
        have "clear t \<Longrightarrow> clear (t\<lparr>ig_faults := tl (ig_faults t), ig_kv := m\<rparr>)" for m using clear_tl [of t] by (simp add: clear_def)
        then show ?thesis using works works' False b w c Inr by (intro new) (auto simp: unless_accepted_def ig_bind_def marks_set)
      qed
    qed
  qed
qed

section \<open>What a batch stores\<close>

text \<open>The log records of a batch: every valid record whose id is new, once.\<close>

fun new_docs :: "decoders \<Rightarrow> int \<Rightarrow> data_envelope \<Rightarrow> (string \<Rightarrow> bool) \<Rightarrow> json list \<Rightarrow> log_record list" where
  "new_docs D least v seen [] = []"
| "new_docs D least v seen (raw # rs) =
     (case checked D least v raw of
        Inl _ \<Rightarrow> new_docs D least v seen rs
      | Inr (i, ds) \<Rightarrow> if seen i then new_docs D least v seen rs else ds @ new_docs D least v (seen(i := True)) rs)"

definition valid_records :: "decoders \<Rightarrow> int \<Rightarrow> data_envelope \<Rightarrow> json list \<Rightarrow> nat" where
  "valid_records D least v rs = length (filter (\<lambda>raw. \<not> isl (checked D least v raw)) rs)"

definition refusals :: "decoders \<Rightarrow> int \<Rightarrow> data_envelope \<Rightarrow> json list \<Rightarrow> record_failure list" where
  "refusals D least v rs = map projl (filter isl (map (checked D least v) rs))"

definition ids_of :: "decoders \<Rightarrow> int \<Rightarrow> data_envelope \<Rightarrow> json list \<Rightarrow> string list" where
  "ids_of D least v rs = map (fst \<circ> projr) (filter (Not \<circ> isl) (map (checked D least v) rs))"

lemma batch_simps [simp]:
  "valid_records D least v [] = 0" "refusals D least v [] = []" "ids_of D least v [] = []"
  "checked D least v raw = Inl f \<Longrightarrow> valid_records D least v (raw # rs) = valid_records D least v rs"
  "checked D least v raw = Inl f \<Longrightarrow> refusals D least v (raw # rs) = f # refusals D least v rs"
  "checked D least v raw = Inl f \<Longrightarrow> ids_of D least v (raw # rs) = ids_of D least v rs"
  "checked D least v raw = Inr (i, ds) \<Longrightarrow> valid_records D least v (raw # rs) = Suc (valid_records D least v rs)"
  "checked D least v raw = Inr (i, ds) \<Longrightarrow> refusals D least v (raw # rs) = refusals D least v rs"
  "checked D least v raw = Inr (i, ds) \<Longrightarrow> ids_of D least v (raw # rs) = i # ids_of D least v rs"
  by (simp_all add: valid_records_def refusals_def ids_of_def)

lemma new_docs_seen: "\<forall>i \<in> set (ids_of D least v rs). seen i \<Longrightarrow> new_docs D least v seen rs = []"
proof (induction rs)
  case (Cons raw rs)
  then show ?case by (cases "checked D least v raw") auto
qed simp

text \<open>Without failures of an engine a batch always ends with its reply, and stores exactly its new records.\<close>

lemma records_clear:
  assumes "clear s"
  shows "\<exists>s'. apply_records D S now v rs n fs s =
      (Inr (n + valid_records D (detail_min S) v rs, fs @ refusals D (detail_min S) v rs), s') \<and> clear s' \<and>
    ig_logs s' = ig_logs s @ new_docs D (detail_min S) v (marks (ig_kv s)) rs"
  using assms
proof (induction rs arbitrary: n fs s)
  case (Cons raw rs)
  show ?case
  proof (cases "checked D (detail_min S) v raw")
    case (Inl f)
    then show ?thesis using Cons.IH [OF Cons.prems, of n "fs @ [f]"] by (simp add: apply_one_invalid)
  next
    case (Inr p)
    obtain i ds where p: "p = (i, ds)" by force
    obtain b where b: "writes b ds" "apply_one D S now v raw = unless_accepted now i b"
      using apply_one_valid Inr p by blast
    show ?thesis
    using b(1) proof (cases rule: unless_accepted_cases [where s = s and i = i and now = now])
      case (seen s')
      have "clear s'" using seen(3) clear_tl [OF Cons.prems] by (simp add: clear_def)
      from Cons.IH [OF this, of "n + 1" fs] show ?thesis using seen Inr p b(2) by simp
    next
      case (new s')
      then have "clear s'" using Cons.prems by simp
      from Cons.IH [OF this, of "n + 1" fs] show ?thesis using new Inr p b(2) by (simp add: fun_upd_def)
    qed (use Cons.prems in auto)
  qed
qed (simp add: clear_def)

lemma records_seen:
  assumes "clear s" "\<forall>i \<in> set (ids_of D (detail_min S) v rs). marks (ig_kv s) i"
  shows "\<exists>s'. apply_records D S now v rs n fs s =
      (Inr (n + valid_records D (detail_min S) v rs, fs @ refusals D (detail_min S) v rs), s') \<and> clear s' \<and>
    ig_kv s' = ig_kv s \<and> stored s' = stored s"
  using assms
proof (induction rs arbitrary: n fs s)
  case (Cons raw rs)
  show ?case
  proof (cases "checked D (detail_min S) v raw")
    case (Inl f)
    then show ?thesis using Cons.IH [of s n "fs @ [f]"] Cons.prems by (simp add: apply_one_invalid)
  next
    case (Inr p)
    obtain i ds where p: "p = (i, ds)" by force
    obtain b where b: "writes b ds" "apply_one D S now v raw = unless_accepted now i b"
      using apply_one_valid Inr p by blast
    have m: "marks (ig_kv s) i" "\<forall>i \<in> set (ids_of D (detail_min S) v rs). marks (ig_kv s) i" using Cons.prems(2) Inr p by simp_all
    show ?thesis
    using b(1) proof (cases rule: unless_accepted_cases [where s = s and i = i and now = now])
      case (seen s')
      have "clear s'" using seen(3) clear_tl [OF Cons.prems(1)] by (simp add: clear_def)
      from Cons.IH [OF this, of "n + 1" fs] show ?thesis using seen Inr p b(2) m(2) by (auto simp: stored_def)
    qed (use Cons.prems m in auto)
  qed
qed (simp add: clear_def)

text \<open>A batch that was answered has marked all its valid records.\<close>

lemma records_done:
  assumes "apply_records D S now v rs n fs s = (Inr (n', fs'), s')"
  shows "n' = n + valid_records D (detail_min S) v rs \<and> fs' = fs @ refusals D (detail_min S) v rs \<and>
    (\<forall>i. marks (ig_kv s') i \<longleftrightarrow> marks (ig_kv s) i \<or> i \<in> set (ids_of D (detail_min S) v rs))"
  using assms
proof (induction rs arbitrary: n fs s)
  case (Cons raw rs)
  show ?case
  proof (cases "checked D (detail_min S) v raw")
    case (Inl f)
    then show ?thesis using Cons.IH [of n "fs @ [f]" s] Cons.prems by (simp add: apply_one_invalid)
  next
    case (Inr p)
    obtain i ds where p: "p = (i, ds)" by force
    obtain b where b: "writes b ds" "apply_one D S now v raw = unless_accepted now i b"
      using apply_one_valid Inr p by blast
    show ?thesis
    using b(1) proof (cases rule: unless_accepted_cases [where s = s and i = i and now = now])
      case (seen t)
      then show ?thesis using Cons.IH [of "n + 1" fs t] Cons.prems Inr p b(2) by auto
    next
      case (new t)
      then show ?thesis using Cons.IH [of "n + 1" fs t] Cons.prems Inr p b(2) by auto
    qed (use Cons.prems b(2) in auto)
  qed
qed simp

lemma records_logs:
  assumes "apply_records D S now v rs n fs s = (Inr r, s')"
  shows "ig_logs s' = ig_logs s @ new_docs D (detail_min S) v (marks (ig_kv s)) rs"
  using assms
proof (induction rs arbitrary: n fs s)
  case (Cons raw rs)
  show ?case
  proof (cases "checked D (detail_min S) v raw")
    case (Inl f)
    then show ?thesis using Cons.IH [of n "fs @ [f]" s] Cons.prems by (simp add: apply_one_invalid)
  next
    case (Inr p)
    obtain i ds where p: "p = (i, ds)" by force
    obtain b where b: "writes b ds" "apply_one D S now v raw = unless_accepted now i b"
      using apply_one_valid Inr p by blast
    show ?thesis using b(1)
    proof (cases rule: unless_accepted_cases [where s = s and i = i and now = now])
      case (seen t)
      then show ?thesis using Cons.IH [of "n + 1" fs t] Cons.prems Inr p b(2) by simp
    next
      case (new t)
      then show ?thesis using Cons.IH [of "n + 1" fs t] Cons.prems Inr p b(2) by (simp add: fun_upd_def)
    qed (use Cons.prems b(2) in auto)
  qed
qed simp

text \<open>A batch that an engine stopped: its records up to there are stored and marked, but for one that may miss its mark.\<close>

lemma records_failed:
  assumes "apply_records D S now v rs n fs s = (Inl e, s1)"
  shows "\<exists>ds. ig_logs s1 = ig_logs s @ ds \<and> (\<forall>i. marks (ig_kv s) i \<longrightarrow> marks (ig_kv s1) i) \<and>
    (new_docs D (detail_min S) v (marks (ig_kv s)) rs = ds @ new_docs D (detail_min S) v (marks (ig_kv s1)) rs \<or>
     (\<exists>pre d post. ds = pre @ [d] \<and> new_docs D (detail_min S) v (marks (ig_kv s1)) rs = d # post \<and>
        new_docs D (detail_min S) v (marks (ig_kv s)) rs = pre @ d # post))"
  using assms
proof (induction rs arbitrary: n fs s)
  case (Cons raw rs)
  show ?case
  proof (cases "checked D (detail_min S) v raw")
    case (Inl f)
    then show ?thesis using Cons.IH [of n "fs @ [f]" s] Cons.prems by (simp add: apply_one_invalid)
  next
    case (Inr p)
    obtain i ds where p: "p = (i, ds)" by force
    obtain b where b: "writes b ds" "apply_one D S now v raw = unless_accepted now i b"
      using apply_one_valid Inr p by blast
    show ?thesis
    using b(1) proof (cases rule: unless_accepted_cases [where s = s and i = i and now = now])
      case (seen t)
      have "apply_records D S now v rs (n + 1) fs t = (Inl e, s1)" using Cons.prems seen b(2) by simp
      note ih = Cons.IH [OF this]
      have "marks (ig_kv s1) i" using ih seen(1,3) by auto
      then show ?thesis using ih seen Inr p by simp
    next
      case (new t)
      have "apply_records D S now v rs (n + 1) fs t = (Inl e, s1)" using Cons.prems new b(2) by simp
      from Cons.IH [OF this] obtain es where es: "ig_logs s1 = ig_logs t @ es" "\<forall>i. marks (ig_kv t) i \<longrightarrow> marks (ig_kv s1) i"
        "new_docs D (detail_min S) v (marks (ig_kv t)) rs = es @ new_docs D (detail_min S) v (marks (ig_kv s1)) rs \<or>
         (\<exists>pre d post. es = pre @ [d] \<and> new_docs D (detail_min S) v (marks (ig_kv s1)) rs = d # post \<and>
            new_docs D (detail_min S) v (marks (ig_kv t)) rs = pre @ d # post)" by blast
      have m: "marks (ig_kv s1) i" "\<forall>j. marks (ig_kv s) j \<longrightarrow> marks (ig_kv s1) j" using es(2) new(3) by auto
      show ?thesis
      proof (intro exI conjI)
        show "ig_logs s1 = ig_logs s @ (ds @ es)" using es(1) new(4) by simp
        show "\<forall>i. marks (ig_kv s) i \<longrightarrow> marks (ig_kv s1) i" by (rule m(2))
        show "new_docs D (detail_min S) v (marks (ig_kv s)) (raw # rs) = (ds @ es) @ new_docs D (detail_min S) v (marks (ig_kv s1)) (raw # rs) \<or>
          (\<exists>pre d post. ds @ es = pre @ [d] \<and> new_docs D (detail_min S) v (marks (ig_kv s1)) (raw # rs) = d # post \<and>
            new_docs D (detail_min S) v (marks (ig_kv s)) (raw # rs) = pre @ d # post)"
          using es(3)
        proof (elim disjE exE conjE)
          fix pre d post
          assume "es = pre @ [d]" "new_docs D (detail_min S) v (marks (ig_kv s1)) rs = d # post"
            "new_docs D (detail_min S) v (marks (ig_kv t)) rs = pre @ d # post"
          then show ?thesis using Inr p new(1,3) m(1) by (intro disjI2 exI [of _ "ds @ pre"]) auto
        qed (use Inr p new(1,3) m(1) in simp)
      qed
    next
      case (failed x t)
      then show ?thesis using Cons.prems b(2) by (auto intro!: exI [of _ "[]"])
    next
      case (unmarked x t)
      then have t: "s1 = t" using Cons.prems b(2) by simp
      show ?thesis
      proof (cases ds)
        case Nil
        then show ?thesis using unmarked t by (auto intro!: exI [of _ "[]"])
      next
        case (Cons d ds')
        have "length ds \<le> 1" using Inr p by (auto simp: checked_def valid_id_def split: data_type.splits sum.splits if_splits)
        then have "ds = [d]" using Cons by simp
        then show ?thesis using unmarked t Inr p by (auto intro!: exI [of _ "[d]"])
      qed
    qed
  qed
qed simp

definition proper :: "data_envelope \<Rightarrow> bool" where
  "proper v \<longleftrightarrow> trim (dv_agent_id v) \<noteq> [] \<and> dv_records v \<noteq> []"

lemma upsert_stream_clear:
  assumes "clear s"
  shows "\<exists>s'. upsert_stream v n s = (Inr (), s') \<and> clear s' \<and> stored s' = stored s \<and> marks (ig_kv s') = marks (ig_kv s)"
proof -
  have "\<not> (\<exists>e fs. ig_faults s = Some e # fs)" using assms by (auto simp: clear_def)
  then show ?thesis using clear_tl [OF assms]
    by (auto simp: upsert_stream_def engine_call_def Let_def clear_def stored_def marks_stream split: list.split option.split)
qed

lemma batch_clear:
  assumes "clear s" "proper v"
  shows "\<exists>s'. apply_with_sinks D S now v s = (Inr (batch_reply v (valid_records D (detail_min S) v (dv_records v))
      (refusals D (detail_min S) v (dv_records v))), s') \<and> clear s' \<and>
    ig_logs s' = ig_logs s @ new_docs D (detail_min S) v (marks (ig_kv s)) (dv_records v)"
proof -
  obtain t where t: "apply_records D S now v (dv_records v) 0 [] s =
      (Inr (valid_records D (detail_min S) v (dv_records v), refusals D (detail_min S) v (dv_records v)), t)" "clear t"
      "ig_logs t = ig_logs s @ new_docs D (detail_min S) v (marks (ig_kv s)) (dv_records v)"
    using records_clear [OF assms(1), of D S now v "dv_records v" 0 "[]"] by auto
  obtain u where u: "upsert_stream v (valid_records D (detail_min S) v (dv_records v)) t = (Inr (), u)" "clear u" "stored u = stored t"
    using upsert_stream_clear [OF t(2)] by blast
  then show ?thesis using assms(2) t by (auto simp: apply_with_sinks_def proper_def stored_def)
qed

lemma batch_seen:
  assumes "clear s" "proper v" "\<forall>i \<in> set (ids_of D (detail_min S) v (dv_records v)). marks (ig_kv s) i"
  shows "\<exists>s'. apply_with_sinks D S now v s = (Inr (batch_reply v (valid_records D (detail_min S) v (dv_records v))
      (refusals D (detail_min S) v (dv_records v))), s') \<and> stored s' = stored s"
proof -
  obtain t where t: "apply_records D S now v (dv_records v) 0 [] s =
      (Inr (valid_records D (detail_min S) v (dv_records v), refusals D (detail_min S) v (dv_records v)), t)" "clear t"
      "stored t = stored s"
    using records_seen [OF assms(1,3), of now 0 "[]"] by auto
  obtain u where "upsert_stream v (valid_records D (detail_min S) v (dv_records v)) t = (Inr (), u)" "stored u = stored t"
    using upsert_stream_clear [OF t(2)] by blast
  then show ?thesis using assms(2) t by (auto simp: apply_with_sinks_def proper_def)
qed

lemma batch_done:
  assumes "apply_with_sinks D S now v s = (Inr rep, s')"
  shows "proper v \<and> rep = batch_reply v (valid_records D (detail_min S) v (dv_records v)) (refusals D (detail_min S) v (dv_records v)) \<and>
    (\<forall>i. marks (ig_kv s') i \<longleftrightarrow> marks (ig_kv s) i \<or> i \<in> set (ids_of D (detail_min S) v (dv_records v)))"
proof -
  have p: "proper v" using assms by (auto simp: apply_with_sinks_def proper_def split: if_splits)
  obtain n fs t where t: "apply_records D S now v (dv_records v) 0 [] s = (Inr (n, fs), t)"
    using assms p by (auto simp: apply_with_sinks_def proper_def split: sum.splits prod.splits)
  have m: "marks (ig_kv (snd (upsert_stream v n t))) = marks (ig_kv t)"
    by (auto simp: upsert_stream_def engine_call_def Let_def marks_stream split: list.split option.split)
  have "rep = batch_reply v n fs \<and> marks (ig_kv s') = marks (ig_kv t)"
    using assms p t m by (auto simp: apply_with_sinks_def proper_def split: if_splits prod.splits sum.splits apply_error.splits)
  then show ?thesis using p records_done [OF t] by simp
qed

section \<open>Sample data\<close>

definition w_decoders :: decoders where
  "w_decoders = \<lparr>de_metrics = \<lambda>_. Inl [],
     de_logs = (\<lambda>raw. Inr \<lparr>lo_record_id = raw_record_id raw, lo_timestamp = 1, lo_level = ''info'', lo_message = ''m'', lo_source = [],
       lo_labels = []\<rparr>),
     de_apm = \<lambda>_. Inl [],
     de_ebpf = (\<lambda>raw. Inr \<lparr>ev_record_id = raw_record_id raw, ev_timestamp = 2, ev_event_type = ''exec'', ev_pid = 1, ev_process_name = ''p'',
       ev_message = ''x'', ev_labels = []\<rparr>),
     de_span = \<lambda>_. Inl [], de_edge = \<lambda>_. Inl [], de_text = \<lambda>_. [], de_dbg = \<lambda>x. x, de_payload = \<lambda>_. None\<rparr>"

definition w_sinks :: "unit sinks" where
  "w_sinks = \<lparr>sk_trace = None, sk_edge = None, sk_metric = None\<rparr>"

definition w_batch :: "data_type \<Rightarrow> string \<Rightarrow> data_envelope" where
  "w_batch t agent = \<lparr>dv_batch_id = ''b'', dv_data_type = t, dv_data_id = ''d'', dv_agent_id = agent, dv_host_id = [],
     dv_sent_at_micros = 0, dv_records = [JObj [(''record_id'', JStr ''r1'')], JObj [(''record_id'', JStr [])]]\<rparr>"

definition w_stores :: "dataplane_error option list \<Rightarrow> unit ingest_state" where
  "w_stores fs = \<lparr>ig_kv = [], ig_logs = [], ig_points = [], ig_sink = (), ig_faults = fs\<rparr>"

definition w_doc :: log_record where
  "w_doc = log_of_logs (w_batch DtLogs ''a'') \<lparr>lo_record_id = ''r1'', lo_timestamp = 1, lo_level = ''info'', lo_message = ''m'',
     lo_source = [], lo_labels = []\<rparr>"

lemma w_checked:
  "checked w_decoders (detail_min w_sinks) (w_batch DtLogs agent) (JObj [(''record_id'', JStr ''r1'')]) =
     Inr (''r1'', [log_of_logs (w_batch DtLogs agent) \<lparr>lo_record_id = ''r1'', lo_timestamp = 1, lo_level = ''info'', lo_message = ''m'',
       lo_source = [], lo_labels = []\<rparr>])"
  "checked w_decoders (detail_min w_sinks) (w_batch DtLogs agent) (JObj [(''record_id'', JStr [])]) =
     Inl \<lparr>rf_record_id = [], rf_code = ''invalid_record'', rf_message = ''record_id is required''\<rparr>"
  by (simp_all add: checked_def w_batch_def w_decoders_def valid_id_def parse_record_def require_record_id_def raw_record_id_def bt_get_def)

lemma w_records: "dv_records (w_batch t agent) = [JObj [(''record_id'', JStr ''r1'')], JObj [(''record_id'', JStr [])]]"
  by (simp add: w_batch_def)

lemma w_proper: "proper (w_batch t ''a'')" "proper (w_batch t ''b'')"
  by (simp_all add: proper_def w_batch_def) (code_simp, code_simp)

lemma w_new_docs: "new_docs w_decoders (detail_min w_sinks) (w_batch DtLogs ''a'') (marks []) (dv_records (w_batch DtLogs ''a'')) = [w_doc]"
  by (simp add: w_records w_checked marks_def kv_exists_def w_doc_def)

section \<open>Properties\<close>

text \<open>Sending an answered batch again, after whatever else was ingested and with working engines, gives the same answer and
  stores nothing: no log record, no point, nothing in the derived data.\<close>

lemma resent_batch_idempotent:
  assumes "apply_with_sinks D S now v s = (Inr rep, s1)"
    and "clear s2" "\<forall>i. marks (ig_kv s1) i \<longrightarrow> marks (ig_kv s2) i"
  shows "\<exists>s3. apply_with_sinks D S now2 v s2 = (Inr rep, s3) \<and> stored s3 = stored s2"
  using batch_seen [OF assms(2), of v D S now2] batch_done [OF assms(1)] assms(3) by auto

theorem resent_batch_idempotent_witness:
  "\<exists>rep s1 s3. apply_with_sinks w_decoders w_sinks 5 (w_batch DtLogs ''a'') (w_stores []) = (Inr rep, s1) \<and>
     apply_with_sinks w_decoders w_sinks 9 (w_batch DtLogs ''a'') s1 = (Inr rep, s3) \<and> stored s3 = stored s1 \<and> ig_logs s1 = [w_doc]"
proof -
  have c: "clear (w_stores [])" by (simp add: clear_def w_stores_def)
  obtain rep s1 where s1: "apply_with_sinks w_decoders w_sinks 5 (w_batch DtLogs ''a'') (w_stores []) = (Inr rep, s1)" "clear s1"
      "ig_logs s1 = [w_doc]"
    using batch_clear [OF c w_proper(1), of w_decoders w_sinks 5 DtLogs] w_new_docs by (auto simp: w_stores_def)
  show ?thesis using resent_batch_idempotent [OF s1(1,2), of 9] s1 by blast
qed



text \<open>The marks know nothing of the sender or the type: a batch of any agent and of any type whose records carry ids
  that were ingested before, from elsewhere and with other content, is answered as accepted and is lost.\<close>

lemma dedup_ignores_sender:
  assumes "apply_with_sinks D S now v s = (Inr rep, s1)" "clear s1" "proper w"
    and "\<forall>raw \<in> set (dv_records w). \<not> isl (checked D (detail_min S) w raw)"
    and "set (ids_of D (detail_min S) w (dv_records w)) \<subseteq> set (ids_of D (detail_min S) v (dv_records v))"
  shows "\<exists>s2. apply_with_sinks D S now2 w s1 = (Inr (batch_reply w (length (dv_records w)) []), s2) \<and> stored s2 = stored s1"
proof -
  have "valid_records D (detail_min S) w (dv_records w) = length (dv_records w)" "refusals D (detail_min S) w (dv_records w) = []"
    using assms(4) by (auto simp: valid_records_def refusals_def filter_empty_conv)
  then show ?thesis using batch_seen [OF assms(2,3), of D S now2] batch_done [OF assms(1)] assms(5) by auto
qed

definition w_other :: data_envelope where
  "w_other = (w_batch DtEbpf ''b'')\<lparr>dv_records := [JObj [(''record_id'', JStr ''r1'')]]\<rparr>"

theorem dedup_ignores_sender_witness:
  "\<exists>rep s1 s2. apply_with_sinks w_decoders w_sinks 5 (w_batch DtLogs ''a'') (w_stores []) = (Inr rep, s1) \<and>
     apply_with_sinks w_decoders w_sinks 9 w_other s1 = (Inr (batch_reply w_other 1 []), s2) \<and> ig_logs s2 = [w_doc]"
proof -
  have c: "clear (w_stores [])" by (simp add: clear_def w_stores_def)
  obtain rep s1 where s1: "apply_with_sinks w_decoders w_sinks 5 (w_batch DtLogs ''a'') (w_stores []) = (Inr rep, s1)" "clear s1"
      "ig_logs s1 = [w_doc]"
    using batch_clear [OF c w_proper(1), of w_decoders w_sinks 5 DtLogs] w_new_docs by (auto simp: w_stores_def)
  have p: "proper w_other" using w_proper(2) [of DtEbpf] by (simp add: proper_def w_other_def)
  have o: "checked w_decoders (detail_min w_sinks) w_other (JObj [(''record_id'', JStr ''r1'')]) =
      Inr (''r1'', [log_of_ebpf w_other \<lparr>ev_record_id = ''r1'', ev_timestamp = 2, ev_event_type = ''exec'', ev_pid = 1,
        ev_process_name = ''p'', ev_message = ''x'', ev_labels = []\<rparr>])" (is "_ = Inr (_, ?d)")
    by (simp add: checked_def w_other_def w_batch_def w_decoders_def valid_id_def parse_record_def require_record_id_def
        raw_record_id_def bt_get_def)
  have r: "dv_records w_other = [JObj [(''record_id'', JStr ''r1'')]]" by (simp add: w_other_def)
  have "set (ids_of w_decoders (detail_min w_sinks) w_other (dv_records w_other)) \<subseteq>
      set (ids_of w_decoders (detail_min w_sinks) (w_batch DtLogs ''a'') (dv_records (w_batch DtLogs ''a'')))"
    by (simp add: r o w_checked w_records)
  then show ?thesis using dedup_ignores_sender [OF s1(1,2) p _ , of 9] s1 by (auto simp: r o stored_def)
qed

end
