(* ===== verification/Log_Follow.thy ===== *)
theory Log_Follow
  imports Ingest
begin

text \<open>
  The file log collector of the agent, \<^verbatim>\<open>crates/gse-agent-core/src/collect/\<close>: file patterns (\<^verbatim>\<open>glob.rs\<close>),
  cleaning rules (\<^verbatim>\<open>clean.rs\<close>), the collector's settings (\<^verbatim>\<open>config.rs\<close>) and the following of files by inode and
  offset (\<^verbatim>\<open>logfile.rs\<close>). A text is its bytes; a slice that does not begin at a character panics (\<open>None\<close>). The
  directories at the time of a poll are a function from directory paths to entries; they do not change within
  one poll. Regular expressions are a parameter \<open>rx\<close>: a compiled one maps a line to nothing or to what its first
  group has captured. Parsing and printing of JSON are parameters.
\<close>

section \<open>Patterns\<close>

text \<open>The characters of a valid text, each as its bytes.\<close>

definition char_length :: "char \<Rightarrow> nat" where
  "char_length c = (let n = (of_char c :: nat) in if n < 192 then 1 else if n < 224 then 2 else if n < 240 then 3 else 4)"

function utf8_chars :: "string \<Rightarrow> string list" where
  "utf8_chars [] = []"
| "utf8_chars (c # cs) = (c # take (char_length c - 1) cs) # utf8_chars (drop (char_length c - 1) cs)"
  by pat_completeness auto
termination by (relation "measure length") auto

text \<open>A star tries the empty text first and then one character after the other, up to a slash.\<close>

fun match_at :: "string list \<Rightarrow> string list \<Rightarrow> bool"
and star_at :: "string list \<Rightarrow> string list \<Rightarrow> bool" where
  "match_at [] t = (t = [])"
| "match_at (p # pat) t =
     (if p = ''*'' then match_at pat t \<or> star_at pat t
      else case t of [] \<Rightarrow> False
        | c # cs \<Rightarrow> (if p = ''?'' then c \<noteq> ''/'' else c = p) \<and> match_at pat cs)"
| "star_at pat [] = False"
| "star_at pat (c # cs) = (c \<noteq> ''/'' \<and> (match_at pat cs \<or> star_at pat cs))"

definition glob_match :: "string \<Rightarrow> string \<Rightarrow> bool" where
  "glob_match pattern text = match_at (utf8_chars pattern) (utf8_chars text)"

record dir_entry =
  de_name :: string
  de_is_file :: bool
  de_inode :: nat
  de_content :: "string option"

type_synonym dirs = "string \<Rightarrow> dir_entry list option"

text \<open>The part before the last slash and the part after it; trailing slashes do not count.\<close>

definition split_parent :: "string \<Rightarrow> (string \<times> string) option" where
  "split_parent pattern =
     (let p = rev (dropWhile (\<lambda>c. c = CHR ''/'') (rev pattern));
          name = rev (takeWhile (\<lambda>c. c \<noteq> CHR ''/'') (rev p));
          above = take (length p - length name) p;
          d = rev (dropWhile (\<lambda>c. c = CHR ''/'') (rev above))
      in if name = [] \<or> name = ''..'' \<or> above = [] then None
         else Some (if d = [] then ''/'' else d, name))"

definition join_name :: "string \<Rightarrow> string \<Rightarrow> string" where
  "join_name d n = (if d = ''/'' then d @ n else d @ ''/'' @ n)"

definition find_files :: "dirs \<Rightarrow> string \<Rightarrow> (string \<times> dir_entry) list" where
  "find_files ds pattern =
     (case split_parent pattern of
        None \<Rightarrow> []
      | Some (d, file_pat) \<Rightarrow>
          (case ds d of
             None \<Rightarrow> []
           | Some es \<Rightarrow> map (\<lambda>e. (join_name d (de_name e), e))
               (sort_key de_name (filter (\<lambda>e. de_is_file e \<and> glob_match file_pat (de_name e)) es))))"

section \<open>Cleaning\<close>

record extract_rule =
  xr_kind :: string
  xr_expr :: string
  xr_label :: string

record clean_config =
  cc_include :: "string option"
  cc_exclude :: "string option"
  cc_extract :: "extract_rule list"

record cleaned_line =
  cl_message :: string
  cl_labels :: labels

type_synonym regex = "string \<Rightarrow> string option option"

datatype compiled_rule = CrRegex regex string | CrJson "string list" string

record cleaner =
  ck_include :: "regex option"
  ck_exclude :: "regex option"
  ck_extract :: "compiled_rule list"

definition compile_rule :: "(string \<Rightarrow> regex option) \<Rightarrow> extract_rule \<Rightarrow> compiled_rule option" where
  "compile_rule rx r =
     (if xr_kind r = ''regex'' then map_option (\<lambda>re. CrRegex re (xr_label r)) (rx (xr_expr r))
      else if xr_kind r = ''json'' \<and> xr_expr r \<noteq> [] then Some (CrJson (split_on (CHR ''.'') (xr_expr r)) (xr_label r))
      else None)"

definition cleaner_new :: "(string \<Rightarrow> regex option) \<Rightarrow> clean_config \<Rightarrow> cleaner" where
  "cleaner_new rx c =
     \<lparr>ck_include = Option.bind (filter_opt (\<lambda>s. s \<noteq> []) (cc_include c)) rx,
      ck_exclude = Option.bind (filter_opt (\<lambda>s. s \<noteq> []) (cc_exclude c)) rx,
      ck_extract = List.map_filter (compile_rule rx) (cc_extract c)\<rparr>"

definition value_at :: "json \<Rightarrow> string list \<Rightarrow> json option" where
  "value_at v path = filter_opt (\<lambda>w. w \<noteq> JNull) (json_path v path)"

definition extract_label :: "(string \<Rightarrow> json option) \<Rightarrow> (json \<Rightarrow> string) \<Rightarrow> string \<Rightarrow> compiled_rule \<Rightarrow> labels \<Rightarrow> labels" where
  "extract_label pj pt line rule ls =
     (case rule of
        CrRegex re label \<Rightarrow> (case re line of Some (Some m) \<Rightarrow> bt_insert label m ls | _ \<Rightarrow> ls)
      | CrJson path label \<Rightarrow>
          (case value_at (unwrap_or (pj line) JNull) path of
             Some (JStr s) \<Rightarrow> bt_insert label s ls
           | Some v \<Rightarrow> bt_insert label (pt v) ls
           | None \<Rightarrow> ls))"

definition clean_line :: "(string \<Rightarrow> json option) \<Rightarrow> (json \<Rightarrow> string) \<Rightarrow> cleaner \<Rightarrow> string \<Rightarrow> cleaned_line option" where
  "clean_line pj pt c line =
     (if (case ck_include c of Some re \<Rightarrow> re line = None | None \<Rightarrow> False) then None
      else if (case ck_exclude c of Some re \<Rightarrow> re line \<noteq> None | None \<Rightarrow> False) then None
      else Some \<lparr>cl_message = line, cl_labels = fold (extract_label pj pt line) (ck_extract c) []\<rparr>)"

definition LEVELS :: "string list" where
  "LEVELS = [''fatal'', ''error'', ''warn'', ''debug'', ''info'']"

definition detect_level :: "string \<Rightarrow> string" where
  "detect_level line = unwrap_or (find (\<lambda>l. contains l (to_ascii_lowercase line)) LEVELS) ''info''"

section \<open>Settings\<close>

record collector_config =
  co_interval_secs :: nat
  co_path_patterns :: "string list"
  co_namespace :: string
  co_pod_name_pattern :: string
  co_container :: string
  co_kubeconfig :: string
  co_start_mode :: string
  co_start_n :: nat
  co_batch_max_records :: nat
  co_flush_interval_secs :: nat
  co_clean :: clean_config

definition default_collector_config :: collector_config where
  "default_collector_config = \<lparr>co_interval_secs = 15, co_path_patterns = [], co_namespace = [], co_pod_name_pattern = [],
     co_container = [], co_kubeconfig = [], co_start_mode = ''tail'', co_start_n = 0, co_batch_max_records = 100,
     co_flush_interval_secs = 5, co_clean = \<lparr>cc_include = None, cc_exclude = None, cc_extract = []\<rparr>\<rparr>"

definition collector_from_value :: "(json \<Rightarrow> collector_config option) \<Rightarrow> json \<Rightarrow> collector_config" where
  "collector_from_value dec v = unwrap_or (dec v) default_collector_config"

definition start_mode :: "collector_config \<Rightarrow> string" where
  "start_mode c = (if co_start_mode c = ''head'' then ''head'' else ''tail'')"

section \<open>Lines\<close>

record log_line =
  ll_text :: string
  ll_offset :: nat

record file_state =
  fi_inode :: nat
  fi_offset :: nat

definition trim_newline :: "string \<Rightarrow> string" where
  "trim_newline s =
     (if s \<noteq> [] \<and> last s = CHR 0x0A
      then (let t = butlast s in if t \<noteq> [] \<and> last t = CHR 0x0D then butlast t else t)
      else s)"

text \<open>The offset behind the first newlines, or the end of the text.\<close>

fun skip_lines :: "nat \<Rightarrow> nat \<Rightarrow> string \<Rightarrow> nat" where
  "skip_lines k i [] = i"
| "skip_lines k i (c # cs) =
     (if c = CHR 0x0A then (if k \<le> 1 then i + 1 else skip_lines (k - 1) (i + 1) cs) else skip_lines k (i + 1) cs)"

definition head_start_offset :: "string \<Rightarrow> nat \<Rightarrow> nat" where
  "head_start_offset text n = (if n \<le> 1 then 0 else skip_lines (n - 1) 0 text)"

text \<open>The starts of the lines; a newline at the very end begins none.\<close>

definition line_starts :: "string \<Rightarrow> nat list" where
  "line_starts text = (if text = [] then [] else 0 # filter (\<lambda>i. i < length text \<and> text ! (i - 1) = CHR 0x0A) [1..<length text])"

definition line_at :: "string \<Rightarrow> nat list \<Rightarrow> nat \<Rightarrow> log_line" where
  "line_at text starts i =
     (let a = starts ! i; b = (if i + 1 < length starts then starts ! (i + 1) else length text)
      in \<lparr>ll_text = trim_newline (take (b - a) (drop a text)), ll_offset = a\<rparr>)"

definition tail_lines :: "string \<Rightarrow> nat \<Rightarrow> log_line list" where
  "tail_lines text n =
     (let starts = line_starts text; k = min (length starts) n
      in if n = 0 then [] else map (line_at text starts) [length starts - k..<length starts])"

text \<open>Whole lines with their offsets, and the offset of what is left.\<close>

fun cut_lines :: "nat \<Rightarrow> string \<Rightarrow> string \<Rightarrow> log_line list \<times> nat" where
  "cut_lines start acc [] = ([], start)"
| "cut_lines start acc (c # cs) =
     (if c = CHR 0x0A
      then (let (ls, n) = cut_lines (start + length acc + 1) [] cs
            in (\<lparr>ll_text = trim_newline (acc @ [c]), ll_offset = start\<rparr> # ls, n))
      else cut_lines start (acc @ [c]) cs)"

definition char_boundary :: "string \<Rightarrow> nat \<Rightarrow> bool" where
  "char_boundary text i \<longleftrightarrow> i = length text \<or> (i < length text \<and> (of_char (text ! i) :: nat) \<notin> {128..<192})"

definition read_new_lines :: "string \<Rightarrow> nat \<Rightarrow> (log_line list \<times> nat) option" where
  "read_new_lines text from =
     (if from > length text then Some ([], length text)
      else if \<not> char_boundary text from then None
      else Some (cut_lines from [] (drop from text)))"

definition initial_state :: "collector_config \<Rightarrow> nat \<Rightarrow> string option \<Rightarrow> file_state \<times> log_line list" where
  "initial_state cfg inode content =
     (let text = unwrap_or content [] in
      if start_mode cfg = ''head'' then (\<lparr>fi_inode = inode, fi_offset = head_start_offset text (co_start_n cfg)\<rparr>, [])
      else (\<lparr>fi_inode = inode, fi_offset = length text\<rparr>, tail_lines text (co_start_n cfg)))"

section \<open>Polls\<close>

type_synonym file_states = "(string, file_state) btmap"

text \<open>One file of a poll: a new file, or a new inode under the path, starts afresh.\<close>

definition poll_file :: "collector_config \<Rightarrow> string \<Rightarrow> dir_entry \<Rightarrow> file_states \<Rightarrow> ((string \<times> log_line) list \<times> file_states) option" where
  "poll_file cfg path e states =
     (let (st, history, states1) =
        (case filter_opt (\<lambda>s. fi_inode s = de_inode e) (bt_get states path) of
           Some s \<Rightarrow> (s, [], states)
         | None \<Rightarrow> (let (s, h) = initial_state cfg (de_inode e) (de_content e) in (s, h, bt_insert path s states)))
      in case de_content e of
           None \<Rightarrow> Some (map (Pair path) history, states1)
         | Some text \<Rightarrow>
             map_option (\<lambda>(ls, n). (map (Pair path) (history @ ls), bt_insert path (st\<lparr>fi_offset := n\<rparr>) states1))
               (read_new_lines text (fi_offset st)))"

fun poll_files :: "collector_config \<Rightarrow> (string \<times> dir_entry) list \<Rightarrow> file_states \<Rightarrow> ((string \<times> log_line) list \<times> file_states) option" where
  "poll_files cfg [] states = Some ([], states)"
| "poll_files cfg ((path, e) # fs) states =
     (case poll_file cfg path e states of
        None \<Rightarrow> None
      | Some (ls, states') \<Rightarrow> map_option (\<lambda>(ls', s'). (ls @ ls', s')) (poll_files cfg fs states'))"

definition poll_pattern :: "dirs \<Rightarrow> string \<Rightarrow> collector_config \<Rightarrow> file_states \<Rightarrow> ((string \<times> log_line) list \<times> file_states) option" where
  "poll_pattern ds pattern cfg states = poll_files cfg (find_files ds pattern) states"

definition to_record :: "string \<Rightarrow> int \<Rightarrow> string \<Rightarrow> nat \<Rightarrow> log_line \<Rightarrow> cleaned_line \<Rightarrow> logs_record" where
  "to_record agent_id now path inode line cleaned =
     \<lparr>lo_record_id = agent_id @ '':'' @ path @ '':'' @ nat_dec inode @ '':'' @ nat_dec (ll_offset line), lo_timestamp = now,
      lo_level = detect_level (ll_text line), lo_message = cl_message cleaned, lo_source = path, lo_labels = cl_labels cleaned\<rparr>"

definition records_of ::
    "string \<Rightarrow> int \<Rightarrow> (string \<Rightarrow> cleaned_line option) \<Rightarrow> file_states \<Rightarrow> (string \<times> log_line) list \<Rightarrow> logs_record list" where
  "records_of agent_id now clean states ls = List.map_filter (\<lambda>(path, line).
     map_option (to_record agent_id now path (case bt_get states path of Some s \<Rightarrow> fi_inode s | None \<Rightarrow> 0) line) (clean (ll_text line))) ls"

fun poll_patterns ::
    "dirs \<Rightarrow> string \<Rightarrow> int \<Rightarrow> (string \<Rightarrow> cleaned_line option) \<Rightarrow> collector_config \<Rightarrow> string list \<Rightarrow> file_states \<Rightarrow>
     (logs_record list \<times> file_states) option" where
  "poll_patterns ds agent_id now clean cfg [] states = Some ([], states)"
| "poll_patterns ds agent_id now clean cfg (p # ps) states =
     (case poll_pattern ds p cfg states of
        None \<Rightarrow> None
      | Some (ls, states') \<Rightarrow>
          map_option (\<lambda>(rs, s'). (records_of agent_id now clean states' ls @ rs, s')) (poll_patterns ds agent_id now clean cfg ps states'))"

text \<open>Full batches, then what is left.\<close>

function batches_of :: "nat \<Rightarrow> 'r list \<Rightarrow> 'r list list" where
  "batches_of k rs =
     (if rs = [] then [] else if k = 0 \<or> length rs < k then [rs] else take k rs # batches_of k (drop k rs))"
  by pat_completeness auto
termination by (relation "measure (\<lambda>(k, rs). length rs)") auto

declare batches_of.simps [simp del]

text \<open>One round of the collector: its batches for the buffer and the new states.\<close>

definition log_round ::
    "dirs \<Rightarrow> string \<Rightarrow> int \<Rightarrow> (string \<Rightarrow> cleaned_line option) \<Rightarrow> collector_config \<Rightarrow> file_states \<Rightarrow>
     (logs_record list list \<times> file_states) option" where
  "log_round ds agent_id now clean cfg states =
     map_option (\<lambda>(rs, s). (batches_of (max (co_batch_max_records cfg) 1) rs, s))
       (poll_patterns ds agent_id now clean cfg (co_path_patterns cfg) states)"

section \<open>What a pattern matches\<close>

inductive glob_lang :: "string list \<Rightarrow> string list \<Rightarrow> bool" where
  gl_empty: "glob_lang [] []"
| gl_star: "''/'' \<notin> set xs \<Longrightarrow> glob_lang pat ys \<Longrightarrow> glob_lang (''*'' # pat) (xs @ ys)"
| gl_one: "c \<noteq> ''/'' \<Longrightarrow> glob_lang pat cs \<Longrightarrow> glob_lang (''?'' # pat) (c # cs)"
| gl_char: "p \<noteq> ''*'' \<Longrightarrow> p \<noteq> ''?'' \<Longrightarrow> glob_lang pat cs \<Longrightarrow> glob_lang (p # pat) (p # cs)"

inductive_cases gl_NilE [elim!]: "glob_lang [] t"
inductive_cases gl_ConsE: "glob_lang (p # pat) t"

lemma match_sound:
  "match_at pat t \<Longrightarrow> glob_lang pat t"
  "star_at pat t \<Longrightarrow> \<exists>xs ys. t = xs @ ys \<and> ''/'' \<notin> set xs \<and> glob_lang pat ys"
proof (induction pat t and pat t rule: match_at_star_at.induct)
  case (2 p pat t)
  show ?case
  proof (cases "p = ''*''")
    case True
    then show ?thesis using 2 gl_star [of "[]" pat t] gl_star by auto
  next
    case False
    then show ?thesis using 2 by (auto split: list.splits if_splits intro: glob_lang.intros)
  qed
next
  case (4 pat c cs)
  from 4(3) have c: "c \<noteq> ''/''" "match_at pat cs \<or> star_at pat cs" by auto
  from c(2) show ?case
  proof
    assume "match_at pat cs"
    then show ?thesis using 4(1) c by (intro exI [of _ "[c]"] exI [of _ cs]) auto
  next
    assume "star_at pat cs"
    then obtain xs ys where "cs = xs @ ys" "''/'' \<notin> set xs" "glob_lang pat ys" using 4(2) c by auto
    then show ?thesis using c(1) by (intro exI [of _ "c # xs"] exI [of _ ys]) auto
  qed
qed (auto intro: glob_lang.intros)

lemma star_complete: "''/'' \<notin> set xs \<Longrightarrow> match_at pat ys \<Longrightarrow> xs \<noteq> [] \<Longrightarrow> star_at pat (xs @ ys)"
proof (induction xs)
  case (Cons x xs)
  then show ?case by (cases "xs = []") auto
qed simp

lemma match_complete: "glob_lang pat t \<Longrightarrow> match_at pat t"
proof (induction rule: glob_lang.induct)
  case (gl_star xs pat ys)
  then show ?case using star_complete [of xs pat ys] by (cases "xs = []") auto
qed auto

section \<open>Following a file\<close>

lemma cut_lines_append:
  "cut_lines start acc (xs @ ys) =
     (let (ls, n) = cut_lines start acc xs; rest = drop (n - start) (acc @ xs); (ls', n') = cut_lines n rest ys in (ls @ ls', n'))"
proof (induction start acc xs rule: cut_lines.induct)
  case (2 start acc c cs)
  have le: "start + length acc + 1 \<le> snd (cut_lines (start + length acc + 1) [] cs)"
  proof -
    have "s \<le> snd (cut_lines s a zs)" for s a zs
      by (induction s a zs rule: cut_lines.induct) (auto split: prod.splits simp: Let_def case_prod_beta)
    then show ?thesis .
  qed
  show ?case
  proof (cases "c = CHR 0x0A")
    case True
    obtain ls n where e: "cut_lines (start + length acc + 1) [] cs = (ls, n)" by force
    have "drop (n - start) (acc @ c # cs) = drop (n - (start + length acc + 1)) cs"
      using le e by (simp add: drop_Cons' nat_diff_split)
    then show ?thesis using 2(1) True e by (simp add: Let_def case_prod_beta)
  next
    case False
    then show ?thesis using 2(2) by (simp add: Let_def)
  qed
qed (simp add: Let_def)

lemma cut_lines_rest:
  "CHR 0x0A \<notin> set acc \<Longrightarrow> cut_lines start acc xs = (ls, n) \<Longrightarrow>
     start \<le> n \<and> n \<le> start + length acc + length xs \<and> CHR 0x0A \<notin> set (drop (n - start) (acc @ xs)) \<and>
     (n = start \<or> (acc @ xs) ! (n - start - 1) = CHR 0x0A)"
proof (induction start acc xs arbitrary: ls n rule: cut_lines.induct)
  case (2 start acc c cs)
  show ?case
  proof (cases "c = CHR 0x0A")
    case True
    obtain ls' where e: "cut_lines (start + length acc + 1) [] cs = (ls', n)"
      using 2(4) True by (auto split: prod.splits simp: Let_def)
    have ih: "start + length acc + 1 \<le> n" "n \<le> start + length acc + 1 + length cs"
        "CHR 0x0A \<notin> set (drop (n - (start + length acc + 1)) cs)"
        "n = start + length acc + 1 \<or> cs ! (n - (start + length acc + 1) - 1) = CHR 0x0A"
      using 2(1) [OF True _ e] by auto
    have d: "drop (n - start) (acc @ c # cs) = drop (n - (start + length acc + 1)) cs"
      using ih(1) by (simp add: drop_Cons' nat_diff_split)
    have "(acc @ c # cs) ! (n - start - 1) = CHR 0x0A"
    proof (cases "n = start + length acc + 1")
      case False
      then have "n - start - 1 - length acc = Suc (n - (start + length acc + 1) - 1)" "\<not> n - start - 1 < length acc"
        using ih(1) by linarith+
      then show ?thesis using ih(4) False by (simp add: nth_append)
    qed (use True in \<open>simp add: nth_append\<close>)
    then show ?thesis using ih d by simp
  next
    case False
    then show ?thesis using 2(2) [OF False, of ls n] 2(3,4) by auto
  qed
qed auto

lemma cut_lines_partial: "CHR 0x0A \<notin> set r \<Longrightarrow> cut_lines s a (r @ u) = cut_lines s (a @ r) u"
  by (induction r arbitrary: a) auto

text \<open>Reading on where the last read stopped gives the lines of the whole text, each once.\<close>

lemma cut_lines_resume:
  assumes "cut_lines 0 [] t = (ls, n)"
  shows "cut_lines 0 [] (t @ u) = (ls @ fst (cut_lines n [] (drop n (t @ u))), snd (cut_lines n [] (drop n (t @ u))))"
proof -
  have r: "n \<le> length t" "CHR 0x0A \<notin> set (drop n t)" using cut_lines_rest [OF _ assms] by auto
  have "cut_lines n [] (drop n (t @ u)) = cut_lines n (drop n t) u"
    using cut_lines_partial [OF r(2), of n "[]" u] r(1) by simp
  then show ?thesis using cut_lines_append [of 0 "[]" t u] assms by (simp add: Let_def case_prod_beta)
qed

text \<open>What the UTF-8 encoding gives: no character begins in the middle of one, so none begins a line or follows a newline.\<close>

definition whole_text :: "string \<Rightarrow> bool" where
  "whole_text t \<longleftrightarrow> (\<forall>i < length t. (i = 0 \<or> t ! (i - 1) = CHR 0x0A) \<longrightarrow> char_boundary t i)"

definition one_file :: "string \<Rightarrow> string \<Rightarrow> nat \<Rightarrow> string \<Rightarrow> dirs" where
  "one_file d f inode t =
     (\<lambda>x. if x = d then Some [\<lparr>de_name = f, de_is_file = True, de_inode = inode, de_content = Some t\<rparr>] else None)"

fun polls :: "dirs list \<Rightarrow> string \<Rightarrow> collector_config \<Rightarrow> file_states \<Rightarrow> ((string \<times> log_line) list \<times> file_states) option" where
  "polls [] pattern cfg states = Some ([], states)"
| "polls (ds # dss) pattern cfg states =
     (case poll_pattern ds pattern cfg states of
        None \<Rightarrow> None
      | Some (ls, s') \<Rightarrow> map_option (\<lambda>(ls', s''). (ls @ ls', s'')) (polls dss pattern cfg s'))"

lemma poll_known:
  assumes "split_parent pattern = Some (d, fp)" "glob_match fp f" "bt_get states (join_name d f) = Some \<lparr>fi_inode = inode, fi_offset = n\<rparr>"
    and "n \<le> length t" "char_boundary t n"
  shows "poll_pattern (one_file d f inode t) pattern cfg states =
    Some (map (Pair (join_name d f)) (fst (cut_lines n [] (drop n t))),
      bt_insert (join_name d f) \<lparr>fi_inode = inode, fi_offset = snd (cut_lines n [] (drop n t))\<rparr> states)"
  using assms by (simp add: poll_pattern_def find_files_def one_file_def poll_file_def read_new_lines_def case_prod_beta)

lemma whole_cut_boundary:
  assumes "whole_text t" "cut_lines 0 [] p = (ls, n)" "t = p @ u"
  shows "n \<le> length t \<and> char_boundary t n"
proof -
  have r: "n \<le> length p" "n = 0 \<or> p ! (n - 1) = CHR 0x0A" using cut_lines_rest [OF _ assms(2)] by auto
  show ?thesis
  proof (cases "n = length t")
    case False
    then have "n < length t" using r(1) assms(3) by simp
    moreover have "n = 0 \<or> t ! (n - 1) = CHR 0x0A" using r assms(3) by (cases n) (auto simp: nth_append)
    ultimately show ?thesis using assms(1) by (auto simp: whole_text_def)
  qed (simp add: char_boundary_def)
qed

lemma polls_known:
  assumes "split_parent pattern = Some (d, fp)" "glob_match fp f" "\<forall>t \<in> set ts. whole_text t"
    and "sorted_wrt (\<lambda>a b. \<exists>u. b = a @ u) (p # ts)"
    and "bt_get states (join_name d f) = Some \<lparr>fi_inode = inode, fi_offset = snd (cut_lines 0 [] p)\<rparr>"
  shows "\<exists>ls states'. polls (map (one_file d f inode) ts) pattern cfg states = Some (map (Pair (join_name d f)) ls, states') \<and>
    fst (cut_lines 0 [] (last (p # ts))) = fst (cut_lines 0 [] p) @ ls"
  using assms(3-5)
proof (induction ts arbitrary: p states)
  case (Cons t ts)
  obtain u where u: "t = p @ u" using Cons.prems(2) by auto
  obtain l n where c: "cut_lines 0 [] p = (l, n)" by force
  have b: "n \<le> length t \<and> char_boundary t n" using whole_cut_boundary [OF _ c u] Cons.prems(1) by simp
  let ?s = "bt_insert (join_name d f) \<lparr>fi_inode = inode, fi_offset = snd (cut_lines n [] (drop n t))\<rparr> states"
  have p: "poll_pattern (one_file d f inode t) pattern cfg states =
      Some (map (Pair (join_name d f)) (fst (cut_lines n [] (drop n t))), ?s)"
    using poll_known [OF assms(1,2)] Cons.prems(3) b c by simp
  have r: "fst (cut_lines 0 [] t) = l @ fst (cut_lines n [] (drop n t))" "snd (cut_lines 0 [] t) = snd (cut_lines n [] (drop n t))"
    using cut_lines_resume [OF c, of u] u by simp_all
  have "bt_get ?s (join_name d f) = Some \<lparr>fi_inode = inode, fi_offset = snd (cut_lines 0 [] t)\<rparr>"
    by (simp add: bt_get_insert r(2))
  then obtain ls states' where ih: "polls (map (one_file d f inode) ts) pattern cfg ?s = Some (map (Pair (join_name d f)) ls, states')"
      "fst (cut_lines 0 [] (last (t # ts))) = fst (cut_lines 0 [] t) @ ls"
    using Cons.IH [of t ?s] Cons.prems(1,2) by auto
  show ?case using ih p r(1) c by (intro exI [of _ "fst (cut_lines n [] (drop n t)) @ ls"] exI [of _ states']) simp
qed simp

section \<open>Sample data\<close>

definition w_cfg :: collector_config where
  "w_cfg = default_collector_config\<lparr>co_start_mode := ''head''\<rparr>"

definition w_line :: "string \<Rightarrow> log_line" where
  "w_line m = \<lparr>ll_text = m, ll_offset = 0\<rparr>"

definition w_log_record :: "string \<Rightarrow> logs_record" where
  "w_log_record m = to_record ''a'' 1 ''/v/x.log'' 7 (w_line m) \<lparr>cl_message = m, cl_labels = []\<rparr>"

definition w_js :: "logs_record \<Rightarrow> json" where
  "w_js r = JStr (lo_message r)"

definition w_serde :: decoders where
  "w_serde = w_decoders\<lparr>de_logs := \<lambda>raw. Inr (w_log_record (if raw = JStr ''old'' then ''old'' else ''new''))\<rparr>"

definition w_lines_batch :: "string \<Rightarrow> data_envelope" where
  "w_lines_batch m = (w_batch DtLogs ''a'')\<lparr>dv_records := map w_js [w_log_record m]\<rparr>"

section \<open>Properties\<close>

text \<open>C40: a pattern matches exactly the texts of its language: a star stands for any characters but a slash, a question mark for
  one, anything else for itself.\<close>

theorem glob_exact: "glob_match pattern text \<longleftrightarrow> glob_lang (utf8_chars pattern) (utf8_chars text)"
  using match_sound(1) match_complete by (auto simp: glob_match_def)



text \<open>C37: a file emptied and written again under its inode, as log rotation by copying does, is lost where its lines begin at offsets
  used before: their ids are those of the old lines, and the data server takes them for records it already has.\<close>

theorem rotated_lines_lost:
  assumes "rs1 = map (\<lambda>(l, c). to_record agent_id t1 path inode l c) ls1" "rs2 = map (\<lambda>(l, c). to_record agent_id t2 path inode l c) ls2"
    and "set (map (ll_offset \<circ> fst) ls2) \<subseteq> set (map (ll_offset \<circ> fst) ls1)"
    and "\<forall>r \<in> set (rs1 @ rs2). de_logs D (js r) = Inr r"
    and "dv_data_type v = DtLogs" "dv_records v = map js rs1" "dv_data_type w = DtLogs" "dv_records w = map js rs2" "proper w"
    and "apply_with_sinks D S now v s = (Inr rep, s1)" "clear s1"
  shows "\<exists>s2. apply_with_sinks D S now2 w s1 = (Inr (batch_reply w (length ls2) []), s2) \<and> stored s2 = stored s1"
proof -
  have id: "lo_record_id (to_record agent_id t path inode l c) \<noteq> []" for t l c by (simp add: to_record_def)
  have chk: "checked D (detail_min S) x (js r) = Inr (lo_record_id r, [log_of_logs x r])"
    if "dv_data_type x = DtLogs" "r \<in> set (rs1 @ rs2)" for x r
  proof -
    have "lo_record_id r \<noteq> []" using that(2) assms(1,2) id by auto
    then show ?thesis using that assms(4) by (simp add: checked_def valid_id_def parse_record_def require_record_id_def)
  qed
  have ids: "ids_of D (detail_min S) x (map js rs) = map lo_record_id rs" "valid_records D (detail_min S) x (map js rs) = length rs"
      "refusals D (detail_min S) x (map js rs) = []"
    if "dv_data_type x = DtLogs" "set rs \<subseteq> set (rs1 @ rs2)" for x rs
    using that(2) by (induction rs) (use chk [OF that(1)] in auto)
  have "set (map lo_record_id rs2) \<subseteq> set (map lo_record_id rs1)"
  proof
    fix i assume "i \<in> set (map lo_record_id rs2)"
    then obtain l c where l: "(l, c) \<in> set ls2" "i = lo_record_id (to_record agent_id t2 path inode l c)" using assms(2) by auto
    then obtain l1 c1 where "(l1, c1) \<in> set ls1" "ll_offset l1 = ll_offset l" using assms(3) by force
    then show "i \<in> set (map lo_record_id rs1)" using l(2) assms(1) by (force simp: to_record_def)
  qed
  then have "\<forall>i \<in> set (ids_of D (detail_min S) w (dv_records w)). marks (ig_kv s1) i"
    using batch_done [OF assms(10)] ids(1) [OF assms(5), of rs1] ids(1) [OF assms(7), of rs2] assms(6,8) by auto
  from batch_seen [OF assms(11,9) this, of now2] show ?thesis
    using ids(2,3) [OF assms(7), of rs2] assms(2,8) by simp
qed

theorem rotated_lines_lost_witness:
  "\<exists>rep s1 s2. apply_with_sinks w_serde w_sinks 5 (w_lines_batch ''old'') (w_stores []) = (Inr rep, s1) \<and>
     apply_with_sinks w_serde w_sinks 9 (w_lines_batch ''new'') s1 = (Inr (batch_reply (w_lines_batch ''new'') 1 []), s2) \<and>
     stored s2 = stored s1"
proof -
  have p: "proper (w_lines_batch m)" for m using w_proper(1) [of DtLogs] by (simp add: proper_def w_lines_batch_def)
  obtain rep s1 where s1: "apply_with_sinks w_serde w_sinks 5 (w_lines_batch ''old'') (w_stores []) = (Inr rep, s1)" "clear s1"
    using batch_clear [of "w_stores []" "w_lines_batch ''old''" w_serde w_sinks 5] p by (auto simp: clear_def w_stores_def)
  let ?c = "\<lambda>m. [(w_line m, \<lparr>cl_message = m, cl_labels = []\<rparr>)]"
  have r: "[w_log_record m] = map (\<lambda>(l, c). to_record ''a'' 1 ''/v/x.log'' 7 l c) (?c m)" for m by (simp add: w_log_record_def)
  have m: "lo_message (w_log_record m) = m" for m by (simp add: w_log_record_def to_record_def)
  have d: "\<forall>r \<in> set ([w_log_record ''old''] @ [w_log_record ''new'']). de_logs w_serde (w_js r) = Inr r"
    by (simp add: w_serde_def w_js_def m)
  have o: "set (map (ll_offset \<circ> fst) (?c ''new'')) \<subseteq> set (map (ll_offset \<circ> fst) (?c ''old''))" by (simp add: w_line_def)
  have t: "dv_data_type (w_lines_batch m) = DtLogs" "dv_records (w_lines_batch m) = map w_js [w_log_record m]" for m
    by (simp_all add: w_lines_batch_def w_batch_def)
  show ?thesis using rotated_lines_lost [OF r r o d t t p s1, of 9] s1 by auto
qed

end
