(* ===== verification/Agent_Upload.thy ===== *)
theory Agent_Upload
  imports Json Proto "HOL-Library.Sublist"
begin

text \<open>
  How the agent sends what it collects: batches wait in a bounded buffer (\<^verbatim>\<open>collect/buffer.rs\<close>) and the report loop of
  \<^verbatim>\<open>collect/mod.rs\<close> posts them one after the other to the data server, puts a refused one back to the front and asks
  for the address again where that helps. What the server answers is an argument of a step, as is what the
  collectors push while a request is under way. Batch ids carry the process wide counter.
\<close>

record agent_envelope =
  av_batch_id :: string
  av_data_type :: string
  av_data_id :: string
  av_agent_id :: string
  av_host_id :: string
  av_sent_at :: int
  av_records :: "json list"

record otlp_runtime =
  ot_enabled :: bool
  ot_listen :: string
  ot_max_body_bytes :: nat
  ot_token :: string
  ot_allowed_cidrs :: "string list"

record ingest_answer =
  ia_status :: string
  ia_code :: "string option"

record buffer =
  bu_queue :: "agent_envelope list"
  bu_total :: nat
  bu_max :: nat

record collect_shared =
  cs_agent_id :: string
  cs_host_id :: "string option"
  cs_ingest_url :: "string option"
  cs_buffer :: buffer
  cs_otlp :: otlp_runtime
  cs_seq :: nat

definition OTLP_DEFAULT_LISTEN :: string where "OTLP_DEFAULT_LISTEN = ''0.0.0.0:4318''"
definition OTLP_DEFAULT_MAX_BODY :: nat where "OTLP_DEFAULT_MAX_BODY = 8 * 1024 * 1024"

definition otlp_runtime_new :: "bool \<Rightarrow> string \<Rightarrow> nat \<Rightarrow> string \<Rightarrow> string list \<Rightarrow> otlp_runtime" where
  "otlp_runtime_new enabled listen max_body token cidrs =
     \<lparr>ot_enabled = enabled, ot_listen = (if trim listen = [] then OTLP_DEFAULT_LISTEN else listen),
      ot_max_body_bytes = max max_body 1024, ot_token = token, ot_allowed_cidrs = cidrs\<rparr>"

definition default_otlp_runtime :: otlp_runtime where
  "default_otlp_runtime = \<lparr>ot_enabled = False, ot_listen = OTLP_DEFAULT_LISTEN, ot_max_body_bytes = OTLP_DEFAULT_MAX_BODY,
     ot_token = [], ot_allowed_cidrs = []\<rparr>"

section \<open>The buffer\<close>

definition DEFAULT_MAX_RECORDS :: nat where "DEFAULT_MAX_RECORDS = 1000"

definition record_count :: "agent_envelope \<Rightarrow> nat" where
  "record_count e = length (av_records e)"

definition buffer_new :: "nat \<Rightarrow> buffer" where
  "buffer_new n = \<lparr>bu_queue = [], bu_total = 0, bu_max = max n 1\<rparr>"

text \<open>The oldest batches go until the new one fits or none is left.\<close>

fun make_room :: "nat \<Rightarrow> nat \<Rightarrow> agent_envelope list \<Rightarrow> nat \<Rightarrow> nat \<times> agent_envelope list \<times> nat" where
  "make_room mx n [] sz = (0, [], sz)"
| "make_room mx n (e # q) sz =
     (if sz + n > mx
      then (let (d, q', left) = make_room mx n q (sz - record_count e) in (d + record_count e, q', left))
      else (0, e # q, sz))"

definition buffer_push :: "agent_envelope \<Rightarrow> buffer \<Rightarrow> nat \<times> buffer" where
  "buffer_push e b =
     (let (d, q, left) = make_room (bu_max b) (record_count e) (bu_queue b) (bu_total b)
      in (d, b\<lparr>bu_queue := q @ [e], bu_total := left + record_count e\<rparr>))"

definition buffer_pop_front :: "buffer \<Rightarrow> agent_envelope option \<times> buffer" where
  "buffer_pop_front b =
     (case bu_queue b of
        [] \<Rightarrow> (None, b)
      | e # q \<Rightarrow> (Some e, b\<lparr>bu_queue := q, bu_total := bu_total b - record_count e\<rparr>))"

definition buffer_push_front :: "agent_envelope \<Rightarrow> buffer \<Rightarrow> buffer" where
  "buffer_push_front e b = b\<lparr>bu_queue := e # bu_queue b, bu_total := bu_total b + record_count e\<rparr>"

section \<open>Shared state\<close>

definition shared_new :: "string \<Rightarrow> collect_shared" where
  "shared_new agent_id = \<lparr>cs_agent_id = agent_id, cs_host_id = None, cs_ingest_url = None, cs_buffer = buffer_new DEFAULT_MAX_RECORDS,
     cs_otlp = default_otlp_runtime, cs_seq = 0\<rparr>"

definition set_ingest_url :: "string option \<Rightarrow> collect_shared \<Rightarrow> collect_shared" where
  "set_ingest_url v s = s\<lparr>cs_ingest_url := filter_opt (\<lambda>u. u \<noteq> []) v\<rparr>"

text \<open>A batch of no records is not one; the clock is read for the id and for the time of sending.\<close>

definition new_envelope :: "string \<Rightarrow> string \<Rightarrow> json list \<Rightarrow> int \<Rightarrow> int \<Rightarrow> collect_shared \<Rightarrow> agent_envelope" where
  "new_envelope data_type item_id records at sent s =
     \<lparr>av_batch_id = cs_agent_id s @ ''-'' @ int_dec at @ ''-'' @ nat_dec (cs_seq s), av_data_type = data_type, av_data_id = item_id,
      av_agent_id = cs_agent_id s, av_host_id = unwrap_or (cs_host_id s) [], av_sent_at = sent, av_records = records\<rparr>"

definition shared_push :: "string \<Rightarrow> string \<Rightarrow> json list \<Rightarrow> int \<Rightarrow> int \<Rightarrow> collect_shared \<Rightarrow> nat \<times> collect_shared" where
  "shared_push data_type item_id records at sent s =
     (if records = [] then (0, s)
      else
        let (d, b) = buffer_push (new_envelope data_type item_id records at sent s) (cs_buffer s)
        in (d, s\<lparr>cs_buffer := b, cs_seq := (cs_seq s + 1) mod 2 ^ 64\<rparr>))"

section \<open>The report loop\<close>

datatype disposition = Confirm | Retry | Repull

datatype http_outcome = HttpReply nat "ingest_answer option" | HttpStatus nat | HttpFailed

definition post_disposition :: "http_outcome \<Rightarrow> disposition" where
  "post_disposition r =
     (case r of
        HttpReply code reply \<Rightarrow>
          if code = 503 then Repull
          else (case reply of
              Some a \<Rightarrow> if ia_status a = ''ok'' \<or> ia_status a = ''partial'' then Confirm
                else if ia_code a = Some ''unavailable'' then Repull else Retry
            | None \<Rightarrow> Retry)
      | HttpStatus code \<Rightarrow> if code = 400 then Confirm else if code = 503 then Repull else Retry
      | HttpFailed \<Rightarrow> Retry)"

record report_state =
  re_failures :: nat
  re_backoff :: nat

definition report_start :: report_state where
  "report_start = \<lparr>re_failures = 0, re_backoff = 1\<rparr>"

text \<open>
  One turn: \<open>post\<close> is the answer to the request, \<open>mid\<close> what others do to the shared state until it is there. The result
  is the time to sleep in milliseconds, the batch that was confirmed, and both states.
\<close>

definition report_step ::
    "(string \<Rightarrow> agent_envelope \<Rightarrow> http_outcome) \<Rightarrow> (collect_shared \<Rightarrow> collect_shared) \<Rightarrow> report_state \<Rightarrow> collect_shared \<Rightarrow>
     nat \<times> agent_envelope option \<times> report_state \<times> collect_shared" where
  "report_step post mid l s =
     (case buffer_pop_front (cs_buffer s) of
        (None, b) \<Rightarrow> (500, None, l, s\<lparr>cs_buffer := b\<rparr>)
      | (Some e, b) \<Rightarrow>
          let s1 = s\<lparr>cs_buffer := b\<rparr>; back = (\<lambda>s. s\<lparr>cs_buffer := buffer_push_front e (cs_buffer s)\<rparr>) in
          case cs_ingest_url s1 of
            None \<Rightarrow> (1000, None, l, back s1)
          | Some url \<Rightarrow>
              let s2 = mid s1 in
              case post_disposition (post url e) of
                Confirm \<Rightarrow> (0, Some e, l\<lparr>re_failures := 0, re_backoff := 1\<rparr>, s2)
              | Repull \<Rightarrow> (1000, None, l\<lparr>re_failures := 0, re_backoff := 1\<rparr>, back (set_ingest_url None s2))
              | Retry \<Rightarrow>
                  (re_backoff l * 1000, None,
                   l\<lparr>re_failures := re_failures l + 1, re_backoff := min (re_backoff l * 2) 60\<rparr>,
                   (if re_failures l + 1 > 3 then set_ingest_url None (back s2) else back s2)))"

section \<open>Runs\<close>

text \<open>The life of a buffer with one report loop; the history keeps what was pushed, confirmed and dropped.\<close>

type_synonym push_args = "string \<times> string \<times> json list \<times> int \<times> int"

datatype upload_event = UpPush push_args | UpUrl "string option" | UpReport "string \<Rightarrow> agent_envelope \<Rightarrow> http_outcome" "push_args list"

record upload_history =
  uh_pushed :: "agent_envelope list"
  uh_confirmed :: "agent_envelope list"
  uh_dropped :: nat

definition push_noted :: "push_args \<Rightarrow> collect_shared \<times> upload_history \<Rightarrow> collect_shared \<times> upload_history" where
  "push_noted p x = (let (t, i, rs, at, sent) = p; (s, h) = x; (d, s') = shared_push t i rs at sent s in
     (s', if rs = [] then h else h\<lparr>uh_pushed := uh_pushed h @ [new_envelope t i rs at sent s], uh_dropped := uh_dropped h + d\<rparr>))"

definition pushes_noted :: "push_args list \<Rightarrow> collect_shared \<times> upload_history \<Rightarrow> collect_shared \<times> upload_history" where
  "pushes_noted ps x = fold push_noted ps x"

text \<open>The requests of a turn happen to a batch only; without one, or without an address, nothing is under way.\<close>

fun upload_event_do :: "upload_event \<Rightarrow> report_state \<times> collect_shared \<times> upload_history \<Rightarrow> report_state \<times> collect_shared \<times> upload_history" where
  "upload_event_do (UpPush p) (l, s, h) = (let (s', h') = push_noted p (s, h) in (l, s', h'))"
| "upload_event_do (UpUrl u) (l, s, h) = (l, set_ingest_url u s, h)"
| "upload_event_do (UpReport post ps) (l, s, h) =
     (if bu_queue (cs_buffer s) = [] \<or> cs_ingest_url s = None
      then (let (_, _, l', s') = report_step post (\<lambda>s. s) l s in (l', s', h))
      else
        let h' = snd (pushes_noted ps (s\<lparr>cs_buffer := snd (buffer_pop_front (cs_buffer s))\<rparr>, h));
            (_, c, l', s') = report_step post (\<lambda>s. fst (pushes_noted ps (s, h))) l s
        in (l', s', h'\<lparr>uh_confirmed := uh_confirmed h' @ (case c of Some e \<Rightarrow> [e] | None \<Rightarrow> [])\<rparr>))"

definition upload_run :: "upload_event list \<Rightarrow> string \<Rightarrow> report_state \<times> collect_shared \<times> upload_history" where
  "upload_run evs agent_id = fold upload_event_do evs
     (report_start, shared_new agent_id, \<lparr>uh_pushed = [], uh_confirmed = [], uh_dropped = 0\<rparr>)"

definition records_in :: "agent_envelope list \<Rightarrow> nat" where
  "records_in es = sum_list (map record_count es)"

section \<open>Facts\<close>

lemma records_in_simps [simp]:
  "records_in [] = 0" "records_in (e # es) = record_count e + records_in es" "records_in (xs @ ys) = records_in xs + records_in ys"
  by (simp_all add: records_in_def)

lemma make_room_exact:
  assumes "make_room mx n q (records_in q) = (d, q', sz)"
  shows "\<exists>old. q = old @ q' \<and> d = records_in old \<and> sz = records_in q' \<and> (q' = [] \<or> sz + n \<le> mx)"
  using assms
proof (induction q arbitrary: d)
  case (Cons e q)
  show ?case
  proof (cases "records_in (e # q) + n > mx")
    case True
    obtain d' where d': "make_room mx n q (records_in q) = (d', q', sz)" "d = d' + record_count e"
      using Cons.prems True by (auto split: prod.splits)
    from Cons.IH [OF d'(1)] d'(2) obtain old where "q = old @ q'" "d' = records_in old" "sz = records_in q'"
        "q' = [] \<or> sz + n \<le> mx" by blast
    then show ?thesis using d'(2) by (intro exI [of _ "e # old"]) simp
  next
    case False
    then show ?thesis using Cons.prems by (intro exI [of _ "[]"]) (auto split: if_splits)
  qed
qed simp

definition upload_ok :: "agent_envelope list \<Rightarrow> collect_shared \<times> upload_history \<Rightarrow> bool" where
  "upload_ok pre x \<longleftrightarrow> (let (s, h) = x; q = bu_queue (cs_buffer s) in
     bu_total (cs_buffer s) = records_in q \<and> subseq (pre @ q) (uh_pushed h) \<and>
     records_in (uh_pushed h) = records_in pre + uh_dropped h + records_in q)"

lemma push_noted_ok:
  assumes "upload_ok pre x"
  shows "upload_ok pre (push_noted p x) \<and> uh_confirmed (snd (push_noted p x)) = uh_confirmed (snd x)"
proof -
  obtain t i rs at sent where p: "p = (t, i, rs, at, sent)" by (cases p) auto
  obtain s h where x: "x = (s, h)" by force
  show ?thesis
  proof (cases "rs = []")
    case True
    then show ?thesis using assms by (simp add: p x push_noted_def shared_push_def)
  next
    case False
    let ?e = "new_envelope t i rs at sent s" and ?b = "cs_buffer s"
    obtain d q' sz where m: "make_room (bu_max ?b) (record_count ?e) (bu_queue ?b) (bu_total ?b) = (d, q', sz)"
      by (metis prod_cases3)
    have ok: "bu_total ?b = records_in (bu_queue ?b)" "subseq (pre @ bu_queue ?b) (uh_pushed h)"
        "records_in (uh_pushed h) = records_in pre + uh_dropped h + records_in (bu_queue ?b)"
      using assms by (simp_all add: x upload_ok_def Let_def)
    obtain old where old: "bu_queue ?b = old @ q'" "d = records_in old" "sz = records_in q'"
      using make_room_exact m ok(1) by metis
    have "subseq (pre @ q') (uh_pushed h)"
      using subseq_order.trans [OF _ ok(2), of "pre @ q'"] by (simp add: old(1) list_emb_append2 subseq_append')
    then have "subseq (pre @ q' @ [?e]) (uh_pushed h @ [?e])"
      using list_emb_append_mono [of "(=)" "pre @ q'" "uh_pushed h" "[?e]" "[?e]"] by simp
    then show ?thesis using False m ok(3) old
      by (simp add: p x push_noted_def shared_push_def buffer_push_def upload_ok_def)
  qed
qed

lemma pushes_noted_ok:
  "upload_ok pre x \<Longrightarrow> upload_ok pre (pushes_noted ps x) \<and> uh_confirmed (snd (pushes_noted ps x)) = uh_confirmed (snd x)"
proof (induction ps arbitrary: x)
  case (Cons p ps)
  then show ?case using push_noted_ok [OF Cons.prems, of p] by (simp add: pushes_noted_def)
qed (simp add: pushes_noted_def)

definition run_ok :: "report_state \<times> collect_shared \<times> upload_history \<Rightarrow> bool" where
  "run_ok x \<longleftrightarrow> upload_ok (uh_confirmed (snd (snd x))) (snd x)"

lemma event_ok:
  assumes "run_ok x"
  shows "run_ok (upload_event_do ev x)"
proof -
  obtain l s h where x: "x = (l, s, h)" by (cases x) auto
  have ok: "upload_ok (uh_confirmed h) (s, h)" using assms by (simp add: run_ok_def x)
  show ?thesis
  proof (cases ev)
    case (UpPush p)
    then show ?thesis using push_noted_ok [OF ok, of p] by (simp add: x run_ok_def case_prod_beta)
  next
    case (UpUrl u)
    then show ?thesis using ok by (simp add: x run_ok_def upload_ok_def set_ingest_url_def)
  next
    case (UpReport post ps)
    show ?thesis
    proof (cases "bu_queue (cs_buffer s) = [] \<or> cs_ingest_url s = None")
      case True
      then show ?thesis using ok UpReport
        by (cases "bu_queue (cs_buffer s)")
          (auto simp: x run_ok_def upload_ok_def report_step_def buffer_pop_front_def buffer_push_front_def Let_def)
    next
      case False
      obtain e q where q: "bu_queue (cs_buffer s) = e # q" using False by (cases "bu_queue (cs_buffer s)") auto
      obtain url where u: "cs_ingest_url s = Some url" using False by auto
      let ?b = "(cs_buffer s)\<lparr>bu_queue := q, bu_total := bu_total (cs_buffer s) - record_count e\<rparr>"
      let ?s = "s\<lparr>cs_buffer := ?b\<rparr>"
      have "upload_ok (uh_confirmed h @ [e]) (?s, h)" using ok q by (simp add: upload_ok_def)
      from pushes_noted_ok [OF this, of ps] obtain s2 h2 where r: "pushes_noted ps (?s, h) = (s2, h2)"
          "upload_ok (uh_confirmed h @ [e]) (s2, h2)" "uh_confirmed h2 = uh_confirmed h"
        by (metis prod.collapse snd_conv)
      have p: "buffer_pop_front (cs_buffer s) = (Some e, ?b)" using q by (simp add: buffer_pop_front_def)
      show ?thesis using r q u p UpReport
        by (cases "post_disposition (post url e)")
          (auto simp: x run_ok_def upload_ok_def report_step_def Let_def set_ingest_url_def buffer_push_front_def)
    qed
  qed
qed

lemma upload_run_ok: "run_ok (upload_run evs agent_id)"
proof -
  have "run_ok x \<Longrightarrow> run_ok (fold upload_event_do evs x)" for x
  proof (induction evs arbitrary: x)
    case (Cons ev evs)
    show ?case using Cons.IH [OF event_ok [OF Cons.prems, of ev]] by simp
  qed simp
  then show ?thesis
    by (simp add: upload_run_def run_ok_def upload_ok_def shared_new_def buffer_new_def)
qed

section \<open>Property\<close>


definition w_uploads :: "upload_event list" where
  "w_uploads = [UpUrl (Some ''u''), UpPush (''logs'', ''i'', [JNull], 1, 1), UpPush (''logs'', ''i'', [JNull, JNull], 2, 2),
     UpReport (\<lambda>_ _. HttpFailed) [(''logs'', ''i'', replicate 999 JNull, 3, 3)], UpReport (\<lambda>_ _. HttpStatus 400) []]"


end
