(* ===== verification/Agent_Jobs.thy ===== *)
theory Agent_Jobs
  imports Fsys Proto Server_Config
begin

text \<open>
  The agent's settings (\<^verbatim>\<open>gse-agent-core/src/config.rs\<close>), its job executor (\<^verbatim>\<open>job.rs\<close>) and the acceptance of an upgrade
  of itself (\<^verbatim>\<open>upgrade.rs\<close>). What a process started for a job does is a \<open>child\<close>: how it starts, ends and what it
  writes, in the pieces in which the pipe delivers it. Files are those of the file tree with its failures. The replacement
  of invalid UTF-8 is the parameter \<open>lossy\<close>; the text of the generated shell script, commands run for their
  exit status and JSON decoding are parameters too.
\<close>

section \<open>Settings\<close>

record agent_config =
  ag_server_addr :: string
  ag_agent_id :: string
  ag_token :: string
  ag_heartbeat_interval_secs :: nat
  ag_allowed_interpreters :: "string list"
  ag_job_default_interpreter :: string
  ag_max_concurrent_jobs :: nat
  ag_job_work_dir :: "string option"
  ag_otlp_enabled :: bool
  ag_otlp_listen :: string
  ag_otlp_max_body_bytes :: nat
  ag_otlp_token :: string
  ag_otlp_allowed_cidrs :: "string list"

definition default_agent_config :: agent_config where
  "default_agent_config =
     \<lparr>ag_server_addr = ''127.0.0.1:7100'', ag_agent_id = ''agent-1'', ag_token = [], ag_heartbeat_interval_secs = 30,
      ag_allowed_interpreters = [''bash'', ''sh'', ''python3''], ag_job_default_interpreter = ''bash'', ag_max_concurrent_jobs = 1,
      ag_job_work_dir = None, ag_otlp_enabled = False, ag_otlp_listen = ''0.0.0.0:4318'', ag_otlp_max_body_bytes = 8 * 1024 * 1024,
      ag_otlp_token = [], ag_otlp_allowed_cidrs = []\<rparr>"

definition comma_list :: "string \<Rightarrow> string list" where
  "comma_list v = filter (\<lambda>s. s \<noteq> []) (map trim (split_on (CHR '','') v))"

definition agent_apply_env :: "(string \<Rightarrow> string option) \<Rightarrow> agent_config \<Rightarrow> agent_config" where
  "agent_apply_env env cfg = foldl (\<lambda>c f. f c) cfg
     [env_str env ''GSE_AGENT_SERVER'' (\<lambda>v c. c\<lparr>ag_server_addr := v\<rparr>),
      env_str env ''GSE_AGENT_ID'' (\<lambda>v c. c\<lparr>ag_agent_id := v\<rparr>),
      env_str env ''GSE_AGENT_TOKEN'' (\<lambda>v c. c\<lparr>ag_token := v\<rparr>),
      env_num env ''GSE_AGENT_HEARTBEAT'' (\<lambda>n c. c\<lparr>ag_heartbeat_interval_secs := n\<rparr>),
      env_str env ''GSE_AGENT_INTERPRETERS''
        (\<lambda>v c. if comma_list v = [] then c else c\<lparr>ag_allowed_interpreters := comma_list v\<rparr>),
      env_str env ''GSE_AGENT_JOB_INTERPRETER'' (\<lambda>v c. c\<lparr>ag_job_default_interpreter := v\<rparr>),
      env_num env ''GSE_AGENT_MAX_JOBS'' (\<lambda>n c. c\<lparr>ag_max_concurrent_jobs := n\<rparr>),
      env_str env ''GSE_AGENT_JOB_WORK_DIR'' (\<lambda>v c. c\<lparr>ag_job_work_dir := if v = [] then None else Some v\<rparr>),
      env_str env ''GSE_OTLP_ENABLED'' (\<lambda>v c. c\<lparr>ag_otlp_enabled := env_true v\<rparr>),
      env_str env ''GSE_OTLP_LISTEN'' (\<lambda>v c. if trim v = [] then c else c\<lparr>ag_otlp_listen := v\<rparr>),
      env_num env ''GSE_OTLP_MAX_BODY_BYTES'' (\<lambda>n c. c\<lparr>ag_otlp_max_body_bytes := n\<rparr>),
      env_str env ''GSE_OTLP_TOKEN'' (\<lambda>v c. c\<lparr>ag_otlp_token := v\<rparr>),
      env_str env ''GSE_OTLP_ALLOWED_CIDRS'' (\<lambda>v c. c\<lparr>ag_otlp_allowed_cidrs := comma_list v\<rparr>)]"

definition agent_load_config ::
    "(string \<Rightarrow> (string, agent_config) result) \<Rightarrow> (string \<Rightarrow> string option) \<Rightarrow> string \<Rightarrow> (string, agent_config) result" where
  "agent_load_config read_toml env path =
     (case read_toml path of Inl e \<Rightarrow> Inl e | Inr cfg \<Rightarrow> Inr (agent_apply_env env cfg))"

section \<open>The executor\<close>

record job_config =
  jc_allowed_interpreters :: "string list"
  jc_default_interpreter :: string
  jc_max_concurrent_jobs :: nat
  jc_work_dir :: "string option"

definition job_config_from_agent :: "agent_config \<Rightarrow> job_config" where
  "job_config_from_agent c = \<lparr>jc_allowed_interpreters = ag_allowed_interpreters c, jc_default_interpreter = ag_job_default_interpreter c,
     jc_max_concurrent_jobs = ag_max_concurrent_jobs c, jc_work_dir = ag_job_work_dir c\<rparr>"

definition job_config_from_params :: "spec_params \<Rightarrow> job_config" where
  "job_config_from_params p =
     \<lparr>jc_allowed_interpreters = (if sp_allowed_interpreters p = [] then ag_allowed_interpreters default_agent_config
        else sp_allowed_interpreters p),
      jc_default_interpreter = (if sp_job_default_interpreter p = [] then ag_job_default_interpreter default_agent_config
        else sp_job_default_interpreter p),
      jc_max_concurrent_jobs = max (sp_max_concurrent_jobs p) 1,
      jc_work_dir = filter_opt (\<lambda>d. trim d \<noteq> []) (sp_job_work_dir p)\<rparr>"

record job_executor =
  jx_cfg :: job_config
  jx_permits :: nat

definition executor_new :: "job_config \<Rightarrow> job_executor" where
  "executor_new c = \<lparr>jx_cfg = c, jx_permits = max (jc_max_concurrent_jobs c) 1\<rparr>"

definition interpreter_allowed :: "job_executor \<Rightarrow> string \<Rightarrow> bool" where
  "interpreter_allowed x i \<longleftrightarrow> i \<in> set (jc_allowed_interpreters (jx_cfg x))"

definition job_refused :: "string \<Rightarrow> string \<Rightarrow> job_ack" where
  "job_refused job_id reason = \<lparr>ja_job_id = job_id, ja_accepted = False, ja_reason = Some reason\<rparr>"

definition handle_upgrade ::
    "(string \<Rightarrow> (string, agent_upgrade_spec) result) \<Rightarrow> (agent_upgrade_spec \<Rightarrow> 'w \<Rightarrow> (string, string) result \<times> 'w) \<Rightarrow> job_exec \<Rightarrow> 'w \<Rightarrow>
     job_ack \<times> 'w" where
  "handle_upgrade decode accept je w =
     (case decode (je_script je) of
        Inl e \<Rightarrow> (job_refused (je_job_id je) (''bad upgrade spec: '' @ e), w)
      | Inr spec \<Rightarrow>
          (case accept spec w of
             (Inr detail, w') \<Rightarrow> (\<lparr>ja_job_id = je_job_id je, ja_accepted = True, ja_reason = Some detail\<rparr>, w')
           | (Inl e, w') \<Rightarrow> (job_refused (je_job_id je) e, w')))"

text \<open>An accepted script is the job to run in the background, which holds a permit until it is over.\<close>

definition handle_job_exec ::
    "(string \<Rightarrow> (string, agent_upgrade_spec) result) \<Rightarrow> (agent_upgrade_spec \<Rightarrow> 'w \<Rightarrow> (string, string) result \<times> 'w) \<Rightarrow>
     (string, job_exec) result \<Rightarrow> job_executor \<Rightarrow> 'w \<Rightarrow> job_ack \<times> job_exec option \<times> job_executor \<times> 'w" where
  "handle_job_exec decode accept payload x w =
     (case payload of
        Inl e \<Rightarrow> (job_refused [] (''bad job payload: '' @ e), None, x, w)
      | Inr je0 \<Rightarrow>
          let je = (if je_interpreter je0 = [] then je0\<lparr>je_interpreter := jc_default_interpreter (jx_cfg x)\<rparr> else je0) in
          if je_kind je = ''agent_upgrade''
          then (let (ack, w') = handle_upgrade decode accept je w in (ack, None, x, w'))
          else if \<not> interpreter_allowed x (je_interpreter je) then (job_refused (je_job_id je) ''interpreter_not_allowed'', None, x, w)
          else if jx_permits x = 0 then (job_refused (je_job_id je) ''busy'', None, x, w)
          else (\<lparr>ja_job_id = je_job_id je, ja_accepted = True, ja_reason = None\<rparr>, Some je, x\<lparr>jx_permits := jx_permits x - 1\<rparr>, w))"

definition release_permit :: "job_executor \<Rightarrow> job_executor" where
  "release_permit x = x\<lparr>jx_permits := jx_permits x + 1\<rparr>"

section \<open>Running a script\<close>

datatype exit_status = ExitCode int | ExitSignal "int option"

datatype child_end = Waited exit_status | WaitFailed string | Overdue "exit_status option"

datatype 'a capture = Captured 'a | CapturePanicked | CaptureHangs

record child =
  ch_spawn :: "(string, unit) result"
  ch_stdout :: "string list capture"
  ch_stderr :: "string list capture"
  ch_end :: child_end
  ch_started :: int
  ch_created :: int
  ch_finished :: int

definition exit_outcome :: "exit_status \<Rightarrow> job_status \<times> int option \<times> int option \<times> string option" where
  "exit_outcome e =
     (case e of
        ExitCode c \<Rightarrow> (if c = 0 then Succeeded else Failed, Some c, None, None)
      | ExitSignal s \<Rightarrow> (Failed, None, s, Some ''terminated by signal''))"

text \<open>A process that outlives its time is told to end, then killed; its last status is reported when it is known.\<close>

definition timeout_outcome :: "exit_status option \<Rightarrow> job_status \<times> int option \<times> int option \<times> string option" where
  "timeout_outcome e =
     (Timeout, (case e of Some (ExitCode c) \<Rightarrow> Some c | _ \<Rightarrow> None), (case e of Some (ExitSignal s) \<Rightarrow> s | _ \<Rightarrow> None), Some ''timeout'')"

definition child_outcome :: "child_end \<Rightarrow> job_status \<times> int option \<times> int option \<times> string option" where
  "child_outcome e =
     (case e of
        Waited s \<Rightarrow> exit_outcome s
      | WaitFailed m \<Rightarrow> (Failed, None, None, Some (''wait failed: '' @ m))
      | Overdue s \<Rightarrow> timeout_outcome s)"

text \<open>Reading goes on to the end of the pipe, but what is over the limit is thrown away.\<close>

fun read_capped :: "nat \<Rightarrow> string list \<Rightarrow> string \<Rightarrow> bool \<Rightarrow> string \<times> bool" where
  "read_capped limit [] out truncated = (out, truncated)"
| "read_capped limit (c # cs) out truncated =
     (if c = [] then (out, truncated)
      else if truncated then read_capped limit cs out truncated
      else
        let n = min (limit - length out) (length c)
        in read_capped limit cs (out @ take n c) (n < length c))"

definition join_capped :: "(string \<Rightarrow> string) \<Rightarrow> nat \<Rightarrow> string list capture \<Rightarrow> string \<times> bool" where
  "join_capped lossy limit c =
     (case c of
        Captured cs \<Rightarrow> (let (out, truncated) = read_capped limit cs [] False in (lossy out, truncated))
      | CapturePanicked \<Rightarrow> ([], False)
      | CaptureHangs \<Rightarrow> ([], True))"

definition base_result :: "job_exec \<Rightarrow> job_status \<Rightarrow> int \<Rightarrow> int \<Rightarrow> job_result" where
  "base_result je st started now = \<lparr>jr_job_id = je_job_id je, jr_status = st, jr_exit_code = None, jr_signal = None, jr_stdout = [],
     jr_stdout_truncated = False, jr_stderr = [], jr_stderr_truncated = False, jr_started_at_micros = started,
     jr_finished_at_micros = now, jr_error = None\<rparr>"

definition with_error :: "string \<Rightarrow> int \<Rightarrow> job_result \<Rightarrow> job_result" where
  "with_error m now r = r\<lparr>jr_error := Some m, jr_finished_at_micros := now\<rparr>"

definition sanitize :: "string \<Rightarrow> string" where
  "sanitize job_id =
     (let cleaned = filter (\<lambda>c. is_ascii_alnum c \<or> c = CHR ''-'' \<or> c = CHR ''_'') job_id
      in if cleaned = [] then ''job'' else cleaned)"

definition script_dir :: "string \<Rightarrow> nat \<Rightarrow> job_config \<Rightarrow> string" where
  "script_dir temp uid c = path_join (unwrap_or (jc_work_dir c) temp) (''gse-jobs-'' @ nat_dec uid)"

definition script_path :: "string \<Rightarrow> nat \<Rightarrow> job_config \<Rightarrow> job_exec \<Rightarrow> string" where
  "script_path temp uid c je =
     path_join (script_dir temp uid c)
       (sanitize (je_job_id je) @ ''.'' @ (if je_interpreter je = ''python3'' \<or> je_interpreter je = ''python'' then ''py'' else ''sh''))"

text \<open>Making a file executable changes nothing that is modelled, but may fail.\<close>

definition fs_chmod :: "string \<Rightarrow> unit io" where
  "fs_chmod p = io_step (\<lambda>t. (case lookup t p of Some _ \<Rightarrow> Inr () | None \<Rightarrow> Inl (miss_error t (loc_of p)), t))"

definition write_script :: "string \<Rightarrow> nat \<Rightarrow> job_config \<Rightarrow> job_exec \<Rightarrow> fsys \<Rightarrow> (string, string) result \<times> fsys" where
  "write_script temp uid c je fs =
     (case fs_create_dir_all (script_dir temp uid c) fs of
        (Inl e, fs1) \<Rightarrow> (Inl (io_text e), fs1)
      | (Inr _, fs1) \<Rightarrow>
          let p = script_path temp uid c je in
          case fs_write p (je_script je) fs1 of
            (Inl e, fs2) \<Rightarrow> (Inl (''write '' @ p @ '': '' @ io_text e), fs2)
          | (Inr _, fs2) \<Rightarrow>
              (case fs_chmod p fs2 of
                 (Inl e, fs3) \<Rightarrow> (Inl (''chmod '' @ p @ '': '' @ io_text e), fs3)
               | (Inr _, fs3) \<Rightarrow> (Inr p, fs3)))"

definition cleanup_script :: "string \<Rightarrow> fsys \<Rightarrow> fsys" where
  "cleanup_script p fs = snd (fs_remove_file p fs)"

definition run_job :: "(string \<Rightarrow> string) \<Rightarrow> string \<Rightarrow> nat \<Rightarrow> job_config \<Rightarrow> job_exec \<Rightarrow> child \<Rightarrow> fsys \<Rightarrow> job_result \<times> fsys" where
  "run_job lossy temp uid c je ch fs =
     (case write_script temp uid c je fs of
        (Inl e, fs1) \<Rightarrow>
          (with_error (''write script failed: '' @ e) (ch_finished ch) (base_result je Failed (ch_started ch) (ch_created ch)), fs1)
      | (Inr p, fs1) \<Rightarrow>
          (case ch_spawn ch of
             Inl e \<Rightarrow>
               (with_error (''spawn failed: '' @ e) (ch_finished ch) (base_result je Failed (ch_started ch) (ch_created ch)),
                cleanup_script p fs1)
           | Inr _ \<Rightarrow>
               let (st, code, sig, err) = child_outcome (ch_end ch);
                   (out, out_cut) = join_capped lossy (je_stdout_limit_bytes je) (ch_stdout ch);
                   (errs, err_cut) = join_capped lossy (je_stderr_limit_bytes je) (ch_stderr ch)
               in ((base_result je st (ch_started ch) (ch_created ch))\<lparr>jr_exit_code := code, jr_signal := sig, jr_stdout := out,
                     jr_stdout_truncated := out_cut, jr_stderr := errs, jr_stderr_truncated := err_cut, jr_error := err\<rparr>,
                   cleanup_script p fs1)))"

section \<open>Upgrades\<close>

datatype deploy_kind = Systemd | CtlDirect

record deploy =
  dy_kind :: deploy_kind
  dy_bin :: string
  dy_ctl :: "string option"

definition BIN_CANDIDATES :: "string list" where
  "BIN_CANDIDATES = [''/home/test/dtx/vectorman/gse-agent/bin/gse-agent'', ''/opt/vectorman/gse-agent/bin/gse-agent'']"

definition CTL_CANDIDATES :: "string list" where
  "CTL_CANDIDATES = [''/home/test/dtx/vectorman/deploy/ctl.sh'', ''/opt/vectorman/deploy/ctl.sh'']"

definition SYSTEMD_UNIT :: string where "SYSTEMD_UNIT = ''vectorman-gse-agent.service''"

definition detect_deploy :: "(string \<Rightarrow> bool) \<Rightarrow> (string \<Rightarrow> bool) \<Rightarrow> deploy option" where
  "detect_deploy present has_unit =
     map_option (\<lambda>bin. \<lparr>dy_kind = (if has_unit SYSTEMD_UNIT then Systemd else CtlDirect), dy_bin = bin,
         dy_ctl = find present CTL_CANDIDATES\<rparr>) (find present BIN_CANDIDATES)"

definition plan_backup :: "string \<Rightarrow> string \<Rightarrow> nat \<Rightarrow> string" where
  "plan_backup bin stamp n = bin @ ''.bak-'' @ stamp @ ''-'' @ nat_dec n"

definition verify_sha256 :: "string \<Rightarrow> string \<Rightarrow> bool" where
  "verify_sha256 actual expected \<longleftrightarrow> expected \<noteq> [] \<and> to_ascii_lowercase actual = to_ascii_lowercase expected"

text \<open>The lines of a text as \<^verbatim>\<open>str::lines\<close> gives them.\<close>

definition text_lines :: "string \<Rightarrow> string list" where
  "text_lines t =
     (let ls = split_on (CHR 0x0A) t; body = (if last ls = [] then butlast ls else ls)
      in map (\<lambda>l. if l \<noteq> [] \<and> last l = CHR 0x0D then butlast l else l) body)"

record upgrade_host =
  hu_is_file :: "string \<Rightarrow> bool"
  hu_exists :: "string \<Rightarrow> bool"
  hu_has_unit :: "string \<Rightarrow> bool"
  hu_sha256_file :: "string \<Rightarrow> (string, string) result"
  hu_cron_active :: bool
  hu_stamp :: string
  hu_temp :: string
  hu_render :: "deploy \<Rightarrow> string \<Rightarrow> string \<Rightarrow> string"
  hu_write :: "string \<Rightarrow> (string, unit) result"
  hu_read_crontab :: "(string, unit) result"
  hu_write_crontab :: "(string, unit) result"

record upgrade_state =
  ug_scripts :: "(string, string) btmap"
  ug_crontab :: string

definition inner_script_path :: "upgrade_host \<Rightarrow> string" where
  "inner_script_path h = path_join (hu_temp h) ''gse-agent-upgrade-inner.sh''"

definition self_cleanup_snippet :: "string \<Rightarrow> string" where
  "self_cleanup_snippet inner =
     ''crontab -l 2>/dev/null | grep -v '' @ unwrap_or (path_file_name inner) [] @ '' | crontab -''"

text \<open>An older line for the script goes, the others stay, and the table ends in a newline.\<close>

definition one_shot_crontab :: "string \<Rightarrow> string \<Rightarrow> string" where
  "one_shot_crontab inner cur =
     join_str [CHR 0x0A] (filter (\<lambda>l. \<not> contains inner l) (text_lines cur) @
       [''* * * * * '' @ inner @ ''; '' @ self_cleanup_snippet inner]) @ [CHR 0x0A]"

definition install_one_shot_cron :: "upgrade_host \<Rightarrow> string \<Rightarrow> upgrade_state \<Rightarrow> (string, unit) result \<times> upgrade_state" where
  "install_one_shot_cron h inner u =
     (case hu_read_crontab h of
        Inl e \<Rightarrow> (Inl e, u)
      | Inr _ \<Rightarrow>
          (case hu_write_crontab h of
             Inl e \<Rightarrow> (Inl e, u)
           | Inr _ \<Rightarrow> (Inr (), u\<lparr>ug_crontab := one_shot_crontab inner (ug_crontab u)\<rparr>)))"

definition accept_upgrade :: "upgrade_host \<Rightarrow> agent_upgrade_spec \<Rightarrow> upgrade_state \<Rightarrow> (string, string) result \<times> upgrade_state" where
  "accept_upgrade h spec u =
     (if \<not> hu_is_file h (us_binary_path spec) then (Inl (''binary_path not found: '' @ us_binary_path spec), u)
      else case hu_sha256_file h (us_binary_path spec) of
        Inl e \<Rightarrow> (Inl e, u)
      | Inr actual \<Rightarrow>
          if \<not> verify_sha256 actual (us_sha256 spec)
          then (Inl (''sha256 mismatch: expected '' @ us_sha256 spec @ '', got '' @ actual), u)
          else (case detect_deploy (hu_exists h) (hu_has_unit h) of
              None \<Rightarrow> (Inl ''no installed gse-agent found'', u)
            | Some d \<Rightarrow>
                if \<not> hu_cron_active h then (Inl ''cron is not running on this host; upgrade cannot be scheduled'', u)
                else
                  let inner = inner_script_path h in
                  case hu_write h inner of
                    Inl e \<Rightarrow> (Inl (''write '' @ inner @ '': '' @ e), u)
                  | Inr _ \<Rightarrow>
                      (case install_one_shot_cron h inner
                          (u\<lparr>ug_scripts := bt_insert inner (hu_render h d (us_binary_path spec) (hu_stamp h)) (ug_scripts u)\<rparr>) of
                         (Inl e, u') \<Rightarrow> (Inl e, u')
                       | (Inr _, u') \<Rightarrow>
                           (Inr (''upgrade scheduled via cron within 1 minute; new binary '' @ us_binary_path spec @ '' (sha256 '' @
                              us_sha256 spec @ '')''), u'))))"

section \<open>Upgrade results\<close>

datatype upgrade_outcome = UpgradeSucceeded | UpgradeRolledBack | UpgradeFailed

record upgrade_result =
  uo_started_at :: string
  uo_finished_at :: string
  uo_from_version :: string
  uo_to_version :: string
  uo_from_sha256 :: string
  uo_to_sha256 :: string
  uo_outcome :: upgrade_outcome
  uo_detail :: string
  uo_reported :: bool

definition read_result :: "(string \<Rightarrow> (string, upgrade_result) result) \<Rightarrow> string \<Rightarrow> string option \<Rightarrow> (string, upgrade_result option) result" where
  "read_result parse path file =
     (case file of
        None \<Rightarrow> Inr None
      | Some raw \<Rightarrow> (case parse raw of Inl e \<Rightarrow> Inl (''parse '' @ path @ '': '' @ e) | Inr r \<Rightarrow> Inr (Some r)))"

definition mark_reported ::
    "(string \<Rightarrow> (string, upgrade_result) result) \<Rightarrow> (upgrade_result \<Rightarrow> string) \<Rightarrow> string \<Rightarrow> string option \<Rightarrow> (string, unit) result \<times> string option" where
  "mark_reported parse print path file =
     (case read_result parse path file of
        Inl e \<Rightarrow> (Inl e, file)
      | Inr None \<Rightarrow> (Inr (), file)
      | Inr (Some r) \<Rightarrow> if uo_reported r then (Inr (), file) else (Inr (), Some (print (r\<lparr>uo_reported := True\<rparr>))))"

definition unreported_result :: "(string \<Rightarrow> (string, upgrade_result) result) \<Rightarrow> string \<Rightarrow> string option \<Rightarrow> upgrade_result option" where
  "unreported_result parse path file =
     (case read_result parse path file of Inr (Some r) \<Rightarrow> if uo_reported r then None else Some r | _ \<Rightarrow> None)"

definition to_report :: "upgrade_result \<Rightarrow> upgrade_report" where
  "to_report r =
     \<lparr>ur_started_at = uo_started_at r, ur_finished_at = uo_finished_at r, ur_from_version = uo_from_version r,
      ur_to_version = uo_to_version r, ur_from_sha256 = uo_from_sha256 r, ur_to_sha256 = uo_to_sha256 r,
      ur_outcome = (case uo_outcome r of UpgradeSucceeded \<Rightarrow> ''succeeded'' | UpgradeRolledBack \<Rightarrow> ''rolled_back'' | UpgradeFailed \<Rightarrow> ''failed''),
      ur_detail = uo_detail r\<rparr>"

section \<open>Facts\<close>

lemma read_capped_done: "read_capped limit cs out True = (out, True)"
  by (induction cs) auto

lemma read_capped_from:
  assumes "length out \<le> limit"
  shows "read_capped limit cs out False =
    (let all = out @ concat (takeWhile (\<lambda>c. c \<noteq> []) cs) in (take limit all, limit < length all))"
  using assms
proof (induction cs arbitrary: out)
  case (Cons c cs)
  show ?case
  proof (cases "c = []")
    case False
    let ?n = "min (limit - length out) (length c)"
    show ?thesis
    proof (cases "?n < length c")
      case True
      then have n: "?n = limit - length out" "limit - length out < length c" by simp_all
      then have "read_capped limit (c # cs) out False = (out @ take (limit - length out) c, True)"
        using False by (simp add: read_capped_done)
      then show ?thesis using False n(2) Cons.prems by (simp add: Let_def)
    next
      case fits: False
      then have "length (out @ c) \<le> limit" using Cons.prems by simp
      from Cons.IH [OF this] show ?thesis using False fits by (simp add: Let_def)
    qed
  qed (use Cons.prems in simp)
qed simp

lemma job_alnum: "is_ascii_alnum (CHR ''j'')" "is_ascii_alnum (CHR ''o'')" "is_ascii_alnum (CHR ''b'')"
  by (simp_all add: is_ascii_alnum_def is_ascii_alpha_def)

lemma sanitize_name:
  "sanitize j \<noteq> []" "c \<in> set (sanitize j) \<Longrightarrow> is_ascii_alnum c \<or> c = CHR ''-'' \<or> c = CHR ''_''"
  by (auto simp: sanitize_def Let_def job_alnum split: if_splits)

lemma not_alnum: "\<not> is_ascii_alnum (CHR ''/'')" "\<not> is_ascii_alnum (CHR ''.'')"
  by (simp_all add: is_ascii_alnum_def is_ascii_alpha_def is_ascii_digit_def)

definition script_name :: "job_exec \<Rightarrow> string" where
  "script_name je = sanitize (je_job_id je) @ ''.'' @ (if je_interpreter je = ''python3'' \<or> je_interpreter je = ''python'' then ''py'' else ''sh'')"

lemma script_name_simple: "simple_name (script_name je)"
proof -
  have "CHR ''/'' \<notin> set (sanitize (je_job_id je))" using sanitize_name(2) not_alnum by fastforce
  moreover have "length (script_name je) > 3"
    using sanitize_name(1) [of "je_job_id je"] by (auto simp: script_name_def)
  moreover have "length ''..'' \<le> 3" "length ''.'' \<le> 3" by simp_all
  ultimately show ?thesis by (auto simp: simple_name_def script_name_def)
qed

lemma script_loc: "loc_of (script_path temp uid c je) = loc_of (script_dir temp uid c) @ [script_name je]"
  using join_simple(1) [OF script_name_simple] by (simp add: script_path_def script_name_def)

text \<open>Only directories on the way to the script appear, and nothing else of the tree changes.\<close>

lemma io_step_tree:
  "fs_tree (snd (io_step call fs)) = fs_tree fs \<or> fs_tree (snd (io_step call fs)) = snd (call (fs_tree fs))"
  by (auto simp: io_step_def split: list.splits option.splits prod.splits)

lemma insert_dirs_only:
  "l \<notin> set ups \<Longrightarrow> bt_get (foldl (\<lambda>t q. if bt_get t q = None then bt_insert q NDir t else t) t ups) l = bt_get t l"
  by (induction ups arbitrary: t) (auto simp: bt_get_insert)

lemma make_dirs_only:
  assumes "\<not> prefix l (resolve cs)"
  shows "bt_get (fs_tree (snd (make_dirs cs fs))) l = bt_get (fs_tree fs) l"
proof -
  have n: "l \<notin> set (filter (\<lambda>q. q \<noteq> []) (prefixes (resolve cs)))" using assms by simp
  show ?thesis
    using io_step_tree [of "\<lambda>t. let l = resolve cs; ups = filter (\<lambda>q. q \<noteq> []) (prefixes l)
      in if list_ex (file_at t) ups then (Inl (if file_at t l then IoExists else not_dir), t)
         else (Inr (), foldl (\<lambda>t q. if bt_get t q = None then bt_insert q NDir t else t) t ups)" fs]
      insert_dirs_only [OF n, of "fs_tree fs"]
    unfolding make_dirs_def Let_def by (auto split: if_splits)
qed

lemma fs_write_only: "l \<noteq> loc_of p \<Longrightarrow> bt_get (fs_tree (snd (fs_write p c fs))) l = bt_get (fs_tree fs) l"
  using io_step_tree [of "put_file p c" fs]
  by (auto simp: fs_write_def put_file_def Let_def bt_get_insert split: option.splits if_splits)

lemma fs_remove_only:
  assumes "l \<noteq> loc_of p"
  shows "bt_get (fs_tree (snd (fs_remove_file p fs))) l = bt_get (fs_tree fs) l"
  using assms io_step_tree [of "\<lambda>t. case lookup t p of Some (NFile _) \<Rightarrow> (Inr (), bt_remove (loc_of p) t)
      | Some NDir \<Rightarrow> (Inl is_dir_error, t) | None \<Rightarrow> (Inl (miss_error t (loc_of p)), t)" fs]
  by (auto simp: fs_remove_file_def bt_get_remove split: option.splits node.splits)

lemma fs_chmod_tree: "fs_tree (snd (fs_chmod p fs)) = fs_tree fs"
  by (auto simp: fs_chmod_def io_step_def split: list.splits option.splits)

lemma write_script_only:
  assumes "l \<noteq> loc_of (script_path temp uid c je)" "\<not> prefix l (loc_of (script_dir temp uid c))"
  shows "bt_get (fs_tree (snd (write_script temp uid c je fs))) l = bt_get (fs_tree fs) l"
proof -
  let ?p = "script_path temp uid c je"
  have d: "bt_get (fs_tree (snd (fs_create_dir_all (script_dir temp uid c) fs))) l = bt_get (fs_tree fs) l"
    using make_dirs_only assms(2) by (simp add: fs_create_dir_all_def loc_of_def)
  obtain r1 fs1 where 1: "fs_create_dir_all (script_dir temp uid c) fs = (r1, fs1)" by force
  obtain r2 fs2 where 2: "fs_write ?p (je_script je) fs1 = (r2, fs2)" by force
  obtain r3 fs3 where 3: "fs_chmod ?p fs2 = (r3, fs3)" by force
  have "bt_get (fs_tree fs2) l = bt_get (fs_tree fs1) l" using fs_write_only [OF assms(1), of "je_script je" fs1] by (simp add: 2)
  moreover have "fs_tree fs3 = fs_tree fs2" using fs_chmod_tree [of ?p fs2] by (simp add: 3)
  ultimately show ?thesis using d by (simp add: write_script_def Let_def 1 2 3 split: sum.split)
qed

lemma run_job_only:
  assumes "l \<noteq> loc_of (script_path temp uid c je)" "\<not> prefix l (loc_of (script_dir temp uid c))"
  shows "bt_get (fs_tree (snd (run_job lossy temp uid c je ch fs))) l = bt_get (fs_tree fs) l"
proof -
  obtain r fs1 where w: "write_script temp uid c je fs = (r, fs1)" by force
  have "r = Inr p \<Longrightarrow> p = script_path temp uid c je" for p
    using w by (auto simp: write_script_def Let_def split: prod.splits sum.splits)
  moreover have "bt_get (fs_tree fs1) l = bt_get (fs_tree fs) l" using write_script_only [OF assms, of fs] by (simp add: w)
  ultimately show ?thesis using fs_remove_only [OF assms(1), of fs1]
    by (auto simp: run_job_def w cleanup_script_def Let_def split: sum.splits prod.splits)
qed

text \<open>Without faults a script that was not there before is gone when its job is over.\<close>

lemma io_step_faults: "fs_faults fs = [] \<Longrightarrow> fs_faults (snd (io_step call fs)) = []"
  by (simp add: io_step_def case_prod_beta)

lemma make_dirs_faults: "fs_faults fs = [] \<Longrightarrow> fs_faults (snd (make_dirs cs fs)) = []"
  unfolding make_dirs_def by (rule io_step_faults)

lemma write_no_fault:
  assumes "fs_faults fs = []" "write_script temp uid c je fs = (r, fs')"
  shows "fs_faults fs' = []" "r = Inr p \<Longrightarrow> p = script_path temp uid c je \<and>
     bt_get (fs_tree fs') (loc_of p) = Some (NFile (je_script je))"
    "r = Inl e \<Longrightarrow> bt_get (fs_tree fs') (loc_of (script_path temp uid c je)) = bt_get (fs_tree fs) (loc_of (script_path temp uid c je))"
proof -
  let ?p = "script_path temp uid c je" and ?d = "script_dir temp uid c"
  have l: "loc_of ?p \<noteq> []" "\<not> wants_dir ?p" "\<not> prefix (loc_of ?p) (loc_of ?d)"
    using join_simple [OF script_name_simple, of ?d] by (auto simp: script_path_def script_name_def prefix_def)
  obtain r1 fs1 where 1: "fs_create_dir_all ?d fs = (r1, fs1)" by force
  have f1: "fs_faults fs1 = []" using make_dirs_faults [OF assms(1), of "comps ?d"] 1 by (simp add: fs_create_dir_all_def)
  have t1: "bt_get (fs_tree fs1) (loc_of ?p) = bt_get (fs_tree fs) (loc_of ?p)"
    using make_dirs_only [of "loc_of ?p" "comps ?d" fs] l(3) 1 by (simp add: fs_create_dir_all_def loc_of_def)
  obtain r2 fs2 where 2: "fs_write ?p (je_script je) fs1 = (r2, fs2)" by force
  have f2: "fs_faults fs2 = []" using io_step_faults [OF f1, of "put_file ?p (je_script je)"] 2 by (simp add: fs_write_def)
  have t2: "r2 = Inl e \<Longrightarrow> fs_tree fs2 = fs_tree fs1" for e
    using 2 f1 by (auto simp: fs_write_def io_step_def put_file_def Let_def split: option.splits if_splits)
  have w2: "bt_get (fs_tree fs2) (loc_of ?p) = Some (NFile (je_script je))" if "r2 = Inr ()"
    using fs_write_Inr 2 that by (simp add: bt_get_insert)
  have 3: "fs_chmod ?p fs2 = (Inr (), fs2)" if "r2 = Inr ()"
    using w2 [OF that] f2 l by (cases fs2) (simp add: fs_chmod_def io_step_def lookup_def node_at_def)
  have res: "(r, fs') = (case r1 of Inl e \<Rightarrow> (Inl (io_text e), fs1) | Inr _ \<Rightarrow>
      (case r2 of Inl e \<Rightarrow> (Inl (''write '' @ ?p @ '': '' @ io_text e), fs2) | Inr _ \<Rightarrow> (Inr ?p, fs2)))"
    using assms(2) 3 by (cases r1; cases r2) (auto simp: write_script_def 1 2 Let_def)
  show "fs_faults fs' = []" using res f1 f2 by (auto split: sum.splits)
  show "r = Inr p \<Longrightarrow> p = ?p \<and> bt_get (fs_tree fs') (loc_of p) = Some (NFile (je_script je))"
    using res w2 by (auto split: sum.splits)
  show "r = Inl e \<Longrightarrow> bt_get (fs_tree fs') (loc_of ?p) = bt_get (fs_tree fs) (loc_of ?p)"
    using res t1 t2 by (auto split: sum.splits)
qed

lemma run_job_cleans:
  assumes "fs_faults fs = []" "bt_get (fs_tree fs) (loc_of (script_path temp uid c je)) = None"
  shows "bt_get (fs_tree (snd (run_job lossy temp uid c je ch fs))) (loc_of (script_path temp uid c je)) = None"
proof -
  let ?p = "script_path temp uid c je"
  obtain r fs1 where w: "write_script temp uid c je fs = (r, fs1)" by force
  note n = write_no_fault [OF assms(1) w]
  have d: "\<not> wants_dir ?p" "loc_of ?p \<noteq> []"
    using join_simple [OF script_name_simple, of "script_dir temp uid c"] by (auto simp: script_path_def script_name_def)
  have rm: "bt_get (fs_tree (cleanup_script ?p fs1)) (loc_of ?p) = None" if "r = Inr p" for p
    using n(1) conjunct1 [OF n(2) [OF that]] conjunct2 [OF n(2) [OF that]] d
    by (simp add: cleanup_script_def fs_remove_file_def io_step_def lookup_def node_at_def bt_get_remove)
  show ?thesis
  proof (cases r)
    case (Inl e)
    then show ?thesis using n(3) assms(2) by (simp add: run_job_def w)
  next
    case (Inr p)
    then show ?thesis using rm [OF Inr] n(2) [OF Inr] by (simp add: run_job_def w Let_def case_prod_beta split: sum.split)
  qed
qed

lemma run_job_result:
  assumes "run_job lossy temp uid c je ch fs = (r, fs')"
  shows "jr_job_id r = je_job_id je" "is_terminal (jr_status r)"
proof -
  have o: "is_terminal (fst (child_outcome e))" for e
    by (auto simp: child_outcome_def exit_outcome_def timeout_outcome_def split: child_end.split exit_status.split)
  obtain st code sig err where c: "child_outcome (ch_end ch) = (st, code, sig, err)" by (metis prod_cases4)
  have "is_terminal st" using o [of "ch_end ch"] by (simp add: c)
  then have "jr_job_id r = je_job_id je \<and> is_terminal (jr_status r)" using assms
    by (auto simp: run_job_def base_result_def with_error_def c Let_def split: sum.splits prod.splits)
  then show "jr_job_id r = je_job_id je" "is_terminal (jr_status r)" by simp_all
qed

lemma split_join:
  assumes "ls \<noteq> []" "\<forall>l\<in>set ls. d \<notin> set l"
  shows "split_on d (join_str [d] ls) = ls"
  using assms
proof (induction ls)
  case (Cons l ls)
  show ?case
  proof (cases ls)
    case Nil
    then show ?thesis using Cons.prems by (simp add: split_on_single)
  next
    case (Cons m ms)
    then show ?thesis using Cons.IH Cons.prems by (simp add: split_on_append split_on_single)
  qed
qed simp

lemma split_on_parts: "l \<in> set (split_on d s) \<Longrightarrow> d \<notin> set l \<and> set l \<subseteq> set s"
proof (induction s arbitrary: l)
  case (Cons c s)
  obtain a as where a: "split_on d s = a # as" using split_on_nonempty [of d s] by (cases "split_on d s") auto
  have "l = [] \<or> l \<in> set (a # as) \<or> (c \<noteq> d \<and> l = c # a)" using Cons.prems a by (auto split: if_splits)
  then show ?case using Cons.IH [of l] Cons.IH [of a] a by fastforce
qed simp

lemma text_lines_join:
  assumes "ls \<noteq> []" "\<forall>l\<in>set ls. CHR 0x0A \<notin> set l" "\<forall>l\<in>set ls. CHR 0x0D \<notin> set l"
  shows "text_lines (join_str [CHR 0x0A] ls @ [CHR 0x0A]) = ls"
proof -
  have "split_on (CHR 0x0A) (join_str [CHR 0x0A] ls @ [CHR 0x0A]) = ls @ [[]]"
    using split_join [OF assms(1,2)] by (simp add: split_on_append)
  moreover have "(if l \<noteq> [] \<and> last l = CHR 0x0D then butlast l else l) = l" if "l \<in> set ls" for l
    using assms(3) that last_in_set [of l] by metis
  ultimately show ?thesis by (simp add: text_lines_def Let_def map_idI)
qed

lemma text_lines_parts:
  assumes "l \<in> set (text_lines s)"
  shows "CHR 0x0A \<notin> set l" "set l \<subseteq> set s"
proof -
  obtain l0 where l0: "l0 \<in> set (split_on (CHR 0x0A) s)" "l = l0 \<or> l = butlast l0"
    using assms by (auto simp: text_lines_def Let_def dest: in_set_butlastD split: if_splits)
  then have "CHR 0x0A \<notin> set l0 \<and> set l0 \<subseteq> set s" using split_on_parts by fast
  then show "CHR 0x0A \<notin> set l" "set l \<subseteq> set s" using l0(2) by (auto dest: in_set_butlastD)
qed

definition cron_entry :: "string \<Rightarrow> string" where
  "cron_entry inner = ''* * * * * '' @ inner @ ''; '' @ self_cleanup_snippet inner"

text \<open>The crontab after scheduling: the lines that do not mention the script, then its own.\<close>

lemma one_shot_lines:
  assumes "CHR 0x0A \<notin> set (cron_entry inner)" "CHR 0x0D \<notin> set (cron_entry inner)" "CHR 0x0D \<notin> set cur"
  shows "text_lines (one_shot_crontab inner cur) = filter (\<lambda>l. \<not> contains inner l) (text_lines cur) @ [cron_entry inner]"
proof -
  have "\<forall>l\<in>set (filter (\<lambda>l. \<not> contains inner l) (text_lines cur) @ [cron_entry inner]). CHR 0x0A \<notin> set l \<and> CHR 0x0D \<notin> set l"
    using assms text_lines_parts [of _ cur] by auto
  then show ?thesis
    using text_lines_join [of "filter (\<lambda>l. \<not> contains inner l) (text_lines cur) @ [cron_entry inner]"]
    unfolding one_shot_crontab_def cron_entry_def by simp
qed

lemma accept_upgrade_cases:
  assumes "accept_upgrade h spec u = (r, u')"
  obtains (refused) "u' = u" "\<exists>e. r = Inl e"
  | (scheduled) actual d where "hu_is_file h (us_binary_path spec)" "hu_sha256_file h (us_binary_path spec) = Inr actual"
      "verify_sha256 actual (us_sha256 spec)" "detect_deploy (hu_exists h) (hu_has_unit h) = Some d" "hu_cron_active h"
      "ug_scripts u' = bt_insert (inner_script_path h) (hu_render h d (us_binary_path spec) (hu_stamp h)) (ug_scripts u)"
      "ug_crontab u' = (case r of Inl _ \<Rightarrow> ug_crontab u | Inr _ \<Rightarrow> one_shot_crontab (inner_script_path h) (ug_crontab u))"
proof -
  note d = accept_upgrade_def install_one_shot_cron_def Let_def
  consider "u' = u" "\<exists>e. r = Inl e" | "u' \<noteq> u \<or> (\<exists>m. r = Inr m)" by (cases r) auto
  then show thesis
  proof cases
    case 1
    then show ?thesis using that(1) by auto
  next
    case 2
    then show ?thesis using assms that(2)
      by (auto simp: d split: if_splits sum.splits option.splits prod.splits)
  qed
qed

lemma not_left: "(case x of (r, _) \<Rightarrow> \<not> isl r) \<Longrightarrow> \<exists>v w. x = (Inr v, w)"
  by (cases x; cases "fst x") auto

section \<open>Properties\<close>


definition w_je :: job_exec where
  "w_je = \<lparr>je_job_id = ''../x'', je_kind = ''script'', je_interpreter = ''bash'', je_script = ''ls'', je_args = [], je_env = [],
     je_working_dir = None, je_timeout_secs = 60, je_stdout_limit_bytes = 3, je_stderr_limit_bytes = 3\<rparr>"

definition w_child :: child where
  "w_child = \<lparr>ch_spawn = Inr (), ch_stdout = Captured [''ab'', ''cd''], ch_stderr = CaptureHangs, ch_end = Waited (ExitCode 1),
     ch_started = 1, ch_created = 2, ch_finished = 3\<rparr>"

definition w_jc :: job_config where
  "w_jc = job_config_from_agent default_agent_config"


text \<open>C34: what a job reports of its output is the first bytes up to the limit, marked as cut exactly when there was more, in
  whatever pieces the pipe delivered them.\<close>

theorem reported_output_exact:
  assumes "run_job lossy temp uid c je ch fs = (r, fs')" "write_script temp uid c je fs = (Inr p, fs1)"
    and "ch_spawn ch = Inr ()" "ch_stdout ch = Captured pieces" "[] \<notin> set pieces"
  shows "jr_stdout r = lossy (take (je_stdout_limit_bytes je) (concat pieces)) \<and>
    (jr_stdout_truncated r \<longleftrightarrow> je_stdout_limit_bytes je < length (concat pieces))"
proof -
  have t: "takeWhile (\<lambda>c. c \<noteq> []) pieces = pieces" using assms(5) by (auto simp: takeWhile_eq_all_conv)
  obtain st code sig err where c: "child_outcome (ch_end ch) = (st, code, sig, err)" by (metis prod_cases4)
  have "jr_stdout r = fst (join_capped lossy (je_stdout_limit_bytes je) (ch_stdout ch)) \<and>
      jr_stdout_truncated r = snd (join_capped lossy (je_stdout_limit_bytes je) (ch_stdout ch))"
    using assms(1) by (auto simp: run_job_def assms(2,3) c Let_def case_prod_beta)
  then show ?thesis by (simp add: join_capped_def assms(4) read_capped_from t Let_def)
qed

theorem reported_output_exact_witness:
  "\<exists>r fs' p fs1. run_job (\<lambda>s. s) ''/tmp'' 0 w_jc w_je w_child \<lparr>fs_tree = [], fs_faults = []\<rparr> = (r, fs') \<and>
     write_script ''/tmp'' 0 w_jc w_je \<lparr>fs_tree = [], fs_faults = []\<rparr> = (Inr p, fs1) \<and> jr_stdout r = ''abc'' \<and> jr_stdout_truncated r"
proof -
  let ?fs = "\<lparr>fs_tree = [], fs_faults = []\<rparr> :: fsys"
  obtain r fs' where run: "run_job (\<lambda>s. s) ''/tmp'' 0 w_jc w_je w_child ?fs = (r, fs')" by force
  have "nat_dec 0 = ''0''" by (subst nat_dec.simps) code_simp
  then have sd: "script_dir ''/tmp'' 0 w_jc = ''/tmp/gse-jobs-0''"
    by (simp add: script_dir_def path_join_def is_absolute_def starts_with_def w_jc_def job_config_from_agent_def
        default_agent_config_def)
  have sn: "path_join ''/tmp/gse-jobs-0'' (sanitize (je_job_id w_je) @ ''.'' @ (if je_interpreter w_je = ''python3'' \<or>
      je_interpreter w_je = ''python'' then ''py'' else ''sh'')) = ''/tmp/gse-jobs-0/x.sh''" by code_simp
  have sp: "script_path ''/tmp'' 0 w_jc w_je = ''/tmp/gse-jobs-0/x.sh''"
    unfolding script_path_def sd by (rule sn)
  have cp: "comps ''/tmp/gse-jobs-0'' = [''tmp'', ''gse-jobs-0'']" "loc_of ''/tmp/gse-jobs-0/x.sh'' = [''tmp'', ''gse-jobs-0'', ''x.sh'']"
    "resolve [''tmp'', ''gse-jobs-0''] = [''tmp'', ''gse-jobs-0'']" "\<not> wants_dir ''/tmp/gse-jobs-0/x.sh''"
    by code_simp+
  have "case write_script ''/tmp'' 0 w_jc w_je ?fs of (r, _) \<Rightarrow> \<not> isl r"
    by (simp add: write_script_def sp sd cp fs_create_dir_all_def make_dirs_def io_step_def file_at_def node_at_def bt_get_def fs_write_def put_file_def parent_error_def fs_chmod_def lookup_def)
  from not_left [OF this] obtain p fs1 where w: "write_script ''/tmp'' 0 w_jc w_je ?fs = (Inr p, fs1)" by (elim exE)
  have ch: "ch_spawn w_child = Inr ()" "ch_stdout w_child = Captured [''ab'', ''cd'']" "[] \<notin> set [''ab'', ''cd'']"
    by (simp_all add: w_child_def)
  show ?thesis using reported_output_exact [OF run w ch] run w by (simp add: w_je_def)
qed


definition w_host :: upgrade_host where
  "w_host = \<lparr>hu_is_file = (\<lambda>p. p = ''/new''), hu_exists = (\<lambda>p. True), hu_has_unit = (\<lambda>_. True), hu_sha256_file = (\<lambda>_. Inr ''AB''),
     hu_cron_active = True, hu_stamp = ''1'', hu_temp = ''/tmp'', hu_render = (\<lambda>_ b _. ''cp '' @ b), hu_write = (\<lambda>_. Inr ()),
     hu_read_crontab = Inr (), hu_write_crontab = Inr ()\<rparr>"


end
