(* ===== verification/Agent_Runtime.thy ===== *)
theory Agent_Runtime
  imports Agent_Upload Agent_Jobs "HOL-Library.Countable"
begin

text \<open>
  The running agent: the state every path shares (\<^verbatim>\<open>gse-agent-core/src/spec_apply.rs\<close>), the supervisor that keeps the
  collectors in line with the spec (\<^verbatim>\<open>collect/mod.rs\<close>) and the life of a connection (\<^verbatim>\<open>lib.rs\<close>): connect, authenticate,
  pull the spec, send heartbeats, reconnect. Calls to the server are their answers; control messages wait in the
  queue of the supervisor until it takes them. A supervisor whose channel is replaced stops its collectors; what it
  still does until then is not modelled. \<open>pr\<close> is \<^verbatim>\<open>Value::to_string\<close>.
\<close>

datatype 'a call_answer = CallFailed string | CallBad string | CallOk 'a

section \<open>Collectors\<close>

text \<open>A runner is the task of an item: the item and the receiver settings it started with.\<close>

record runner =
  rn_fingerprint :: string
  rn_item :: spec_item
  rn_otlp :: otlp_runtime

datatype control = SpecChanged "spec_item list" bool | PullAddr

record supervisor =
  sv_queue :: "control list"
  sv_runners :: "(string, runner) btmap"
  sv_started :: bool

definition item_fingerprint :: "(json \<Rightarrow> string) \<Rightarrow> spec_item \<Rightarrow> string" where
  "item_fingerprint pr i = pr (jobj [(''kind'', JStr (si_kind i)), (''enabled'', JBool (si_enabled i)),
     (''collector'', si_collector i), (''storage'', si_storage i)])"

definition must_restart :: "string option \<Rightarrow> string \<Rightarrow> string \<Rightarrow> bool \<Rightarrow> bool" where
  "must_restart current fp kind rebind \<longleftrightarrow> (if rebind \<and> kind = ''apm_otlp'' then True else current \<noteq> Some fp)"

definition spawn_collector :: "(json \<Rightarrow> string) \<Rightarrow> otlp_runtime \<Rightarrow> spec_item \<Rightarrow> runner" where
  "spawn_collector pr otlp i = \<lparr>rn_fingerprint = item_fingerprint pr i, rn_item = i, rn_otlp = otlp\<rparr>"

definition align_item :: "(json \<Rightarrow> string) \<Rightarrow> otlp_runtime \<Rightarrow> bool \<Rightarrow> spec_item \<Rightarrow> (string, runner) btmap \<Rightarrow> (string, runner) btmap" where
  "align_item pr otlp rebind i m =
     (if \<not> si_enabled i then m
      else if must_restart (map_option rn_fingerprint (bt_get m (si_item_id i))) (item_fingerprint pr i) (si_kind i) rebind
      then bt_insert (si_item_id i) (spawn_collector pr otlp i) m
      else m)"

definition reconcile :: "(json \<Rightarrow> string) \<Rightarrow> otlp_runtime \<Rightarrow> spec_item list \<Rightarrow> bool \<Rightarrow> (string, runner) btmap \<Rightarrow> (string, runner) btmap" where
  "reconcile pr otlp items rebind m =
     (let keep = map si_item_id (filter si_enabled items)
      in filter (\<lambda>(k, _). k \<in> set keep) (fold (align_item pr otlp rebind) items m))"

definition set_host_id :: "string option \<Rightarrow> collect_shared \<Rightarrow> collect_shared" where
  "set_host_id v s = s\<lparr>cs_host_id := v\<rparr>"

definition pull_addr :: "dataplane_addr_reply call_answer \<Rightarrow> collect_shared \<Rightarrow> collect_shared" where
  "pull_addr a s =
     (case a of
        CallOk r \<Rightarrow> if dr_ok r then set_ingest_url (dr_ingest_url r) (set_host_id (dr_host_id r) s) else set_ingest_url None s
      | _ \<Rightarrow> s)"

definition supervisor_new :: supervisor where
  "supervisor_new = \<lparr>sv_queue = [], sv_runners = [], sv_started = False\<rparr>"

text \<open>One turn of the supervisor: the message at the head of its queue, or the tick of every five seconds when there is none.\<close>

definition supervise :: "(json \<Rightarrow> string) \<Rightarrow> dataplane_addr_reply call_answer \<Rightarrow> supervisor \<Rightarrow> collect_shared \<Rightarrow> supervisor \<times> collect_shared" where
  "supervise pr a sv s =
     (case sv_queue sv of
        SpecChanged items rebind # q \<Rightarrow>
          (sv\<lparr>sv_queue := q, sv_runners := reconcile pr (cs_otlp s) items rebind (sv_runners sv)\<rparr>, s)
      | PullAddr # q \<Rightarrow> (sv\<lparr>sv_queue := q, sv_started := True\<rparr>, pull_addr a s)
      | [] \<Rightarrow> (sv, if sv_started sv \<and> cs_ingest_url s = None then pull_addr a s else s))"

section \<open>State of the process\<close>

definition MAX_REPORT_ATTEMPTS :: nat where "MAX_REPORT_ATTEMPTS = 5"

record agent_runtime =
  rt_agent_id :: string
  rt_server_addr :: string
  rt_heartbeat_secs :: nat
  rt_token :: string
  rt_executor :: job_executor
  rt_shared :: collect_shared
  rt_applied :: agent_spec_wire
  rt_revision :: string
  rt_last_ack :: "agent_spec_ack option"
  rt_pending :: nat
  rt_reauth :: bool
  rt_supervisor :: "supervisor option"
  rt_report_loops :: nat

definition hide_tokens :: "spec_params \<Rightarrow> spec_params" where
  "hide_tokens p = p\<lparr>sp_token := None, sp_otlp_token := None\<rparr>"

definition params_of_agent :: "agent_config \<Rightarrow> spec_params" where
  "params_of_agent c =
     \<lparr>sp_heartbeat_interval_secs = ag_heartbeat_interval_secs c, sp_allowed_interpreters = ag_allowed_interpreters c,
      sp_job_default_interpreter = ag_job_default_interpreter c, sp_max_concurrent_jobs = ag_max_concurrent_jobs c,
      sp_job_work_dir = ag_job_work_dir c, sp_otlp_enabled = ag_otlp_enabled c, sp_otlp_listen = ag_otlp_listen c,
      sp_otlp_max_body_bytes = ag_otlp_max_body_bytes c, sp_otlp_token = None, sp_otlp_allowed_cidrs = ag_otlp_allowed_cidrs c,
      sp_token = None, sp_cpu_limit_percent = None, sp_mem_limit_percent = None, sp_log_level = ''info''\<rparr>"

definition params_from_config :: "agent_config \<Rightarrow> spec_params" where
  "params_from_config c = (params_of_agent c)
     \<lparr>sp_otlp_token := (if ag_otlp_token c = [] then None else Some (ag_otlp_token c)),
      sp_token := (if ag_token c = [] then None else Some (ag_token c))\<rparr>"

definition shared_from_config :: "agent_config \<Rightarrow> collect_shared" where
  "shared_from_config c = (shared_new (ag_agent_id c))
     \<lparr>cs_otlp := otlp_runtime_new (ag_otlp_enabled c) (ag_otlp_listen c) (ag_otlp_max_body_bytes c) (ag_otlp_token c) (ag_otlp_allowed_cidrs c)\<rparr>"

definition runtime_new :: "agent_config \<Rightarrow> agent_runtime" where
  "runtime_new c =
     \<lparr>rt_agent_id = ag_agent_id c, rt_server_addr = ag_server_addr c, rt_heartbeat_secs = max (ag_heartbeat_interval_secs c) 1,
      rt_token = ag_token c, rt_executor = executor_new (job_config_from_agent c), rt_shared = shared_from_config c,
      rt_applied = \<lparr>aw_params = hide_tokens (params_of_agent c), aw_items = []\<rparr>, rt_revision = [], rt_last_ack = None,
      rt_pending = 0, rt_reauth = False, rt_supervisor = None, rt_report_loops = 0\<rparr>"

definition schedule_report :: "agent_runtime \<Rightarrow> agent_runtime" where
  "schedule_report rt = rt\<lparr>rt_pending := MAX_REPORT_ATTEMPTS\<rparr>"

definition pending_ack :: "agent_runtime \<Rightarrow> agent_spec_ack option" where
  "pending_ack rt = (if rt_pending rt = 0 then None else rt_last_ack rt)"

definition confirm_report :: "agent_runtime \<Rightarrow> agent_runtime" where
  "confirm_report rt = rt\<lparr>rt_pending := 0\<rparr>"

definition decay_report :: "agent_runtime \<Rightarrow> agent_runtime" where
  "decay_report rt = rt\<lparr>rt_pending := rt_pending rt - 1\<rparr>"

section \<open>Applying a spec\<close>

definition agent_not_enforced :: "spec_params \<Rightarrow> string list" where
  "agent_not_enforced p = filter (\<lambda>f.
     if f = ''cpu_limit_percent'' then is_some (sp_cpu_limit_percent p)
     else if f = ''mem_limit_percent'' then is_some (sp_mem_limit_percent p)
     else if f = ''log_level'' then sp_log_level p \<noteq> [] \<and> sp_log_level p \<noteq> sp_log_level default_spec_params
     else False) NOT_ENFORCED_FIELDS"

definition note_fields :: "json option \<Rightarrow> string list \<Rightarrow> string list" where
  "note_fields v found =
     (case v of
        Some (JObj m) \<Rightarrow> fold (\<lambda>k f. if bt_get m k \<noteq> None \<and> k \<notin> set f then f @ [k] else f) [''server_addr'', ''agent_id''] found
      | _ \<Rightarrow> found)"

definition immutable_text :: string where
  "immutable_text = [CHR 0xE4, CHR 0xB8, CHR 0x8D, CHR 0xE5, CHR 0x8F, CHR 0xAF, CHR 0xE4, CHR 0xB8, CHR 0x8B,
      CHR 0xE5, CHR 0x8F, CHR 0x91, CHR 0xE7, CHR 0x9A, CHR 0x84, CHR 0xE5, CHR 0xAD, CHR 0x97,
      CHR 0xE6, CHR 0xAE, CHR 0xB5] @
     '': ''"

definition rejects_immutable_fields :: "json option \<Rightarrow> string option" where
  "rejects_immutable_fields raw =
     (case raw of
        None \<Rightarrow> None
      | Some v \<Rightarrow>
          let found = note_fields (json_get v ''params'') (note_fields (json_path v [''spec'', ''params''])
                (note_fields (json_get v ''spec'') (note_fields (Some v) [])))
          in if found = [] then None else Some (immutable_text @ join_str '', '' found))"

definition normalize_items :: "spec_item list \<Rightarrow> spec_item list" where
  "normalize_items = filter (\<lambda>i. si_item_id i \<noteq> [] \<and> si_kind i \<noteq> [])"

text \<open>Without a supervisor the message is lost.\<close>

definition control_send :: "control \<Rightarrow> agent_runtime \<Rightarrow> agent_runtime" where
  "control_send m rt = rt\<lparr>rt_supervisor := map_option (\<lambda>sv. sv\<lparr>sv_queue := sv_queue sv @ [m]\<rparr>) (rt_supervisor rt)\<rparr>"

definition build_ack :: "agent_runtime \<Rightarrow> string \<Rightarrow> string \<Rightarrow> string \<Rightarrow> agent_spec_ack" where
  "build_ack rt revision outcome detail =
     \<lparr>ak_revision = revision, ak_outcome = outcome, ak_applied = rt_applied rt,
      ak_not_enforced = agent_not_enforced (aw_params (rt_applied rt)), ak_detail = detail\<rparr>"

definition remember :: "agent_spec_ack \<Rightarrow> agent_runtime \<Rightarrow> agent_runtime" where
  "remember ack rt = rt\<lparr>rt_last_ack := Some ack\<rparr>"

definition replay_applied_items :: "agent_runtime \<Rightarrow> agent_runtime" where
  "replay_applied_items rt = control_send (SpecChanged (aw_items (rt_applied rt)) False) rt"

definition otlp_of_params :: "spec_params \<Rightarrow> otlp_runtime" where
  "otlp_of_params p = otlp_runtime_new (sp_otlp_enabled p) (sp_otlp_listen p) (sp_otlp_max_body_bytes p)
     (unwrap_or (sp_otlp_token p) []) (sp_otlp_allowed_cidrs p)"

definition apply_spec :: "agent_spec_wire \<Rightarrow> agent_runtime \<Rightarrow> agent_runtime" where
  "apply_spec spec rt =
     (let p = aw_params spec;
          rt1 = rt\<lparr>rt_heartbeat_secs := max (sp_heartbeat_interval_secs p) 1\<rparr>;
          job = job_config_from_params p;
          rt2 = (if jx_cfg (rt_executor rt1) \<noteq> job then rt1\<lparr>rt_executor := executor_new job\<rparr> else rt1);
          otlp = otlp_of_params p;
          changed = (cs_otlp (rt_shared rt2) \<noteq> otlp);
          rt3 = (if changed then rt2\<lparr>rt_shared := (rt_shared rt2)\<lparr>cs_otlp := otlp\<rparr>\<rparr> else rt2);
          items = normalize_items (aw_items spec);
          rt4 = control_send (SpecChanged items changed) rt3;
          rt5 = (case sp_token p of
              Some t \<Rightarrow> if t \<noteq> [] \<and> rt_token rt4 \<noteq> t then rt4\<lparr>rt_token := t, rt_reauth := True\<rparr> else rt4
            | None \<Rightarrow> rt4)
      in rt5\<lparr>rt_applied := \<lparr>aw_params = hide_tokens p, aw_items = items\<rparr>\<rparr>)"

definition spec_outcome :: "spec_params \<Rightarrow> string" where
  "spec_outcome p = (if agent_not_enforced p = [] then OUT_APPLIED else OUT_PARTIAL)"

definition no_spec_text :: string where
  "no_spec_text = [CHR 0xE6, CHR 0x97, CHR 0xA0, CHR 0xE6, CHR 0x9C, CHR 0x9F, CHR 0xE6, CHR 0x9C, CHR 0x9B] @
     '' spec'' @
     [CHR 0xEF, CHR 0xBC, CHR 0x8C, CHR 0xE4, CHR 0xBF, CHR 0x9D, CHR 0xE6, CHR 0x8C, CHR 0x81,
      CHR 0xE6, CHR 0x9C, CHR 0xAC, CHR 0xE5, CHR 0x9C, CHR 0xB0, CHR 0xE5, CHR 0x9F, CHR 0xBA,
      CHR 0xE7, CHR 0xBA, CHR 0xBF]"

definition apply_push :: "agent_spec_push \<Rightarrow> agent_runtime \<Rightarrow> agent_spec_ack \<times> agent_runtime" where
  "apply_push push rt =
     (case pu_spec push of
        None \<Rightarrow>
          let rt1 = schedule_report (replay_applied_items rt);
              ack = build_ack rt1 (pu_revision push) OUT_UNCHANGED no_spec_text
          in (ack, remember ack rt1)
      | Some spec \<Rightarrow>
          if rt_revision rt \<noteq> [] \<and> rt_revision rt = pu_revision push
          then
            let rt1 = replay_applied_items rt; ack = build_ack rt1 (pu_revision push) OUT_UNCHANGED []
            in (ack, remember ack rt1)
          else
            let rt1 = schedule_report ((apply_spec spec rt)\<lparr>rt_revision := pu_revision push\<rparr>);
                ack = build_ack rt1 (pu_revision push) (spec_outcome (aw_params spec)) []
            in (ack, remember ack rt1))"

definition apply_local_file :: "spec_params \<Rightarrow> agent_runtime \<Rightarrow> agent_spec_ack \<times> agent_runtime" where
  "apply_local_file p rt =
     (let rt1 = schedule_report ((apply_spec \<lparr>aw_params = p, aw_items = aw_items (rt_applied rt)\<rparr> rt)\<lparr>rt_revision := []\<rparr>);
          ack = build_ack rt1 [] (spec_outcome p) ''reloaded from file''
      in (ack, remember ack rt1))"

text \<open>A pushed spec, as the handler gets it: the JSON value when the bytes are one, and the decoded message.\<close>

definition handle_spec_push :: "json option \<Rightarrow> (string, agent_spec_push) result \<Rightarrow> agent_runtime \<Rightarrow> (string, agent_spec_ack) result \<times> agent_runtime" where
  "handle_spec_push raw decoded rt =
     (case rejects_immutable_fields raw of
        Some reason \<Rightarrow>
          (Inr \<lparr>ak_revision = rt_revision rt, ak_outcome = OUT_REJECTED, ak_applied = rt_applied rt, ak_not_enforced = [],
             ak_detail = reason\<rparr>, rt)
      | None \<Rightarrow>
          (case decoded of
             Inl e \<Rightarrow> (Inl (''bad spec push: '' @ e), rt)
           | Inr push \<Rightarrow> (let (ack, rt') = apply_push push rt in (Inr ack, rt'))))"

definition reload_from_file :: "(string, agent_config) result \<Rightarrow> agent_runtime \<Rightarrow> agent_runtime" where
  "reload_from_file file rt =
     (case file of
        Inl _ \<Rightarrow> rt
      | Inr c \<Rightarrow>
          if ag_agent_id c \<noteq> rt_agent_id rt \<or> ag_server_addr c \<noteq> rt_server_addr rt then rt
          else snd (apply_local_file (params_from_config c) rt))"

section \<open>Connections\<close>

datatype agent_error = AuthFailed string | ConnError string bool

record connection =
  cn_dial :: "(string, unit) result"
  cn_register :: "string \<Rightarrow> (string, unit) result"
  cn_auth :: "auth_request \<Rightarrow> auth_reply call_answer"
  cn_pull :: "agent_spec_push call_answer"

definition conn_new :: "string \<Rightarrow> agent_error" where "conn_new m = ConnError m False"
definition conn_after_connected :: "string \<Rightarrow> agent_error" where "conn_after_connected m = ConnError m True"

fun register_handlers :: "connection \<Rightarrow> string list \<Rightarrow> agent_error option" where
  "register_handlers cn [] = None"
| "register_handlers cn (m # ms) =
     (case cn_register cn m of Inl e \<Rightarrow> Some (conn_new (''register '' @ m @ '': '' @ e)) | Inr _ \<Rightarrow> register_handlers cn ms)"

text \<open>A new supervisor takes the place of the old one, and a new report loop starts with it.\<close>

definition start_supervisor :: "agent_runtime \<Rightarrow> agent_runtime" where
  "start_supervisor rt = rt\<lparr>rt_supervisor := Some supervisor_new, rt_report_loops := rt_report_loops rt + 1\<rparr>"

definition authenticate :: "connection \<Rightarrow> string \<Rightarrow> string \<Rightarrow> string \<Rightarrow> agent_error option" where
  "authenticate cn version agent_id token =
     (case cn_auth cn \<lparr>aq_agent_id = agent_id, aq_token = token, aq_version = version\<rparr> of
        CallFailed e \<Rightarrow> Some (conn_new (''auth rpc: '' @ e))
      | CallBad e \<Rightarrow> Some (AuthFailed (''bad auth reply: '' @ e))
      | CallOk r \<Rightarrow> if ar_ok r then None else Some (AuthFailed (unwrap_or (ar_reason r) [])))"

definition pull_spec :: "agent_spec_push call_answer \<Rightarrow> agent_runtime \<Rightarrow> agent_runtime" where
  "pull_spec a rt = (case a of CallOk push \<Rightarrow> snd (apply_push push rt) | _ \<Rightarrow> rt)"

text \<open>The connection up to its first heartbeat; no error means that the session is up.\<close>

definition connect_once :: "string \<Rightarrow> connection \<Rightarrow> agent_runtime \<Rightarrow> agent_error option \<times> agent_runtime" where
  "connect_once version cn rt =
     (case cn_dial cn of
        Inl e \<Rightarrow> (Some (conn_new (''dial: '' @ e)), rt)
      | Inr _ \<Rightarrow>
          (case register_handlers cn [''exec'', ''job_exec'', ''file_read'', ''file_write''] of
             Some e \<Rightarrow> (Some e, rt)
           | None \<Rightarrow>
               let rt1 = start_supervisor rt in
               case register_handlers cn [''agent_spec''] of
                 Some e \<Rightarrow> (Some e, rt1)
               | None \<Rightarrow>
                   (case authenticate cn version (rt_agent_id rt1) (rt_token rt1) of
                      Some e \<Rightarrow> (Some e, rt1)
                    | None \<Rightarrow> (None, control_send PullAddr (pull_spec (cn_pull cn) rt1)))))"

text \<open>
  One heartbeat: \<open>mid\<close> is what other tasks do until the answer is there. The results: the message sent, an error that ends
  the session, whether the upgrade result is to be marked as reported, and the state.
\<close>

definition heartbeat_round ::
    "(heartbeat \<Rightarrow> heartbeat_reply call_answer) \<Rightarrow> (agent_runtime \<Rightarrow> agent_runtime) \<Rightarrow> int \<Rightarrow> upgrade_result option \<Rightarrow> agent_runtime \<Rightarrow>
     heartbeat \<times> agent_error option \<times> bool \<times> agent_runtime" where
  "heartbeat_round call mid now up rt =
     (let spec = pending_ack rt;
          hb = \<lparr>hb_agent_id = rt_agent_id rt, hb_ts_micros = now, hb_upgrade_result = map_option to_report up, hb_spec = spec\<rparr>;
          rt1 = mid rt
      in case call hb of
           CallFailed e \<Rightarrow> (hb, Some (conn_after_connected (''heartbeat rpc: '' @ e)), False, rt1)
         | CallBad _ \<Rightarrow> (hb, None, is_some up, if is_some spec then decay_report rt1 else rt1)
         | CallOk r \<Rightarrow>
             (hb, None, is_some up,
              if is_some spec then (if hr_spec_synced r then confirm_report rt1 else decay_report rt1) else rt1))"

definition heartbeat_wait :: "agent_runtime \<Rightarrow> bool \<times> agent_runtime" where
  "heartbeat_wait rt = (rt_reauth rt, rt\<lparr>rt_reauth := False\<rparr>)"

definition BACKOFF_MAX_SECS :: nat where "BACKOFF_MAX_SECS = 60"

definition next_backoff :: "nat \<Rightarrow> bool \<Rightarrow> nat" where
  "next_backoff current connected = (if connected then 1 else min (current * 2) BACKOFF_MAX_SECS)"

datatype run_next = Stop string | Again nat nat

text \<open>What follows on the end of a session: the process ends, or it sleeps and tries again with a new delay.\<close>

definition run_after :: "nat \<Rightarrow> agent_error option \<Rightarrow> run_next" where
  "run_after backoff outcome =
     (case outcome of
        None \<Rightarrow> Again 0 1
      | Some (AuthFailed reason) \<Rightarrow> Stop (''auth rejected: '' @ reason)
      | Some (ConnError _ connected) \<Rightarrow> Again backoff (next_backoff backoff connected))"

definition handle_exec :: "(string, command) result \<Rightarrow> receipt" where
  "handle_exec payload =
     (case payload of
        Inl e \<Rightarrow> \<lparr>rc_command_id = [], rc_ok = False, rc_message = Some (''bad command payload: '' @ e)\<rparr>
      | Inr cmd \<Rightarrow>
          if cm_name cmd = ''ping'' then \<lparr>rc_command_id = cm_id cmd, rc_ok = True, rc_message = Some ''pong''\<rparr>
          else \<lparr>rc_command_id = cm_id cmd, rc_ok = False, rc_message = Some (''unknown command: '' @ cm_name cmd)\<rparr>)"

section \<open>The agent as a whole\<close>

datatype agent_event =
    AeConnect connection
  | AePush "json option" "(string, agent_spec_push) result"
  | AeReload "(string, agent_config) result"
  | AeControl "dataplane_addr_reply call_answer"
  | AeBeat "heartbeat \<Rightarrow> heartbeat_reply call_answer" int "upgrade_result option"
  | AeWait

fun agent_step :: "(json \<Rightarrow> string) \<Rightarrow> string \<Rightarrow> agent_event \<Rightarrow> agent_runtime \<Rightarrow> agent_runtime" where
  "agent_step pr ver (AeConnect cn) rt = snd (connect_once ver cn rt)"
| "agent_step pr ver (AePush raw dec) rt = snd (handle_spec_push raw dec rt)"
| "agent_step pr ver (AeReload f) rt = reload_from_file f rt"
| "agent_step pr ver (AeControl a) rt =
     (case rt_supervisor rt of
        None \<Rightarrow> rt
      | Some sv \<Rightarrow> (let (sv', s') = supervise pr a sv (rt_shared rt) in rt\<lparr>rt_supervisor := Some sv', rt_shared := s'\<rparr>))"
| "agent_step pr ver (AeBeat call now up) rt = (let (_, _, _, rt') = heartbeat_round call (\<lambda>r. r) now up rt in rt')"
| "agent_step pr ver AeWait rt = snd (heartbeat_wait rt)"

definition agent_run :: "(json \<Rightarrow> string) \<Rightarrow> string \<Rightarrow> agent_event list \<Rightarrow> agent_runtime \<Rightarrow> agent_runtime" where
  "agent_run pr ver evs rt = fold (agent_step pr ver) evs rt"

section \<open>Facts\<close>

lemma item_fingerprint_inject:
  assumes "inj pr" "item_fingerprint pr i = item_fingerprint pr j"
  shows "si_kind i = si_kind j \<and> si_enabled i = si_enabled j \<and> si_collector i = si_collector j \<and> si_storage i = si_storage j"
proof -
  let ?o = "\<lambda>i. [(''kind'', JStr (si_kind i)), (''enabled'', JBool (si_enabled i)), (''collector'', si_collector i), (''storage'', si_storage i)]"
  have "bt_of_list (?o i) = bt_of_list (?o j)" using assms by (auto simp: item_fingerprint_def jobj_def dest: injD)
  then have "bt_get (bt_of_list (?o i)) k = bt_get (bt_of_list (?o j)) k" for k by simp
  from this [of "''kind''"] this [of "''enabled''"] this [of "''collector''"] this [of "''storage''"]
  show ?thesis by (simp_all add: bt_get_of_list)
qed

definition enabled_item :: "spec_item list \<Rightarrow> string \<Rightarrow> spec_item option" where
  "enabled_item items k = find (\<lambda>i. si_enabled i \<and> si_item_id i = k) items"

lemma enabled_item_None: "enabled_item items k = None \<longleftrightarrow> k \<notin> set (map si_item_id (filter si_enabled items))"
  by (auto simp: enabled_item_def find_None_iff)

lemma enabled_item_SomeD: "enabled_item items k = Some i \<Longrightarrow> i \<in> set items \<and> si_enabled i \<and> si_item_id i = k"
  by (auto simp: enabled_item_def find_Some_iff)

text \<open>Items with different ids are aligned independently of each other.\<close>

lemma align_get:
  "bt_get (align_item pr otlp rebind i m) k =
     (if si_enabled i \<and> k = si_item_id i \<and>
         must_restart (map_option rn_fingerprint (bt_get m k)) (item_fingerprint pr i) (si_kind i) rebind
      then Some (spawn_collector pr otlp i) else bt_get m k)"
  by (auto simp: align_item_def bt_get_insert)

lemma align_fold_get:
  assumes "distinct (map si_item_id items)"
  shows "bt_get (fold (align_item pr otlp rebind) items m) k =
    (case enabled_item items k of
       Some i \<Rightarrow> if must_restart (map_option rn_fingerprint (bt_get m k)) (item_fingerprint pr i) (si_kind i) rebind
         then Some (spawn_collector pr otlp i) else bt_get m k
     | None \<Rightarrow> bt_get m k)"
  using assms
proof (induction items arbitrary: m)
  case (Cons i items)
  have "si_item_id i \<notin> set (map si_item_id items)" "distinct (map si_item_id items)" using Cons.prems by auto
  then have n: "enabled_item items (si_item_id i) = None" by (auto simp: enabled_item_None)
  show ?case
  proof (cases "si_item_id i = k")
    case True
    then show ?thesis using n Cons.IH [OF \<open>distinct (map si_item_id items)\<close>, of "align_item pr otlp rebind i m"]
      by (auto simp: align_get enabled_item_def)
  next
    case False
    then have h: "bt_get (align_item pr otlp rebind i m) k = bt_get m k" by (subst align_get) auto
    show ?thesis using False Cons.IH [OF \<open>distinct (map si_item_id items)\<close>, of "align_item pr otlp rebind i m", unfolded h]
      by (simp add: enabled_item_def)
  qed
qed (simp add: enabled_item_def)

lemma bt_get_filter_key: "bt_get (filter (\<lambda>(k, _). P k) m) k = (if P k then bt_get m k else None)"
  by (induction m) (auto simp: bt_get_def)

lemma reconcile_get:
  assumes "distinct (map si_item_id items)"
  shows "bt_get (reconcile pr otlp items rebind m) k =
    (case enabled_item items k of
       None \<Rightarrow> None
     | Some i \<Rightarrow> if must_restart (map_option rn_fingerprint (bt_get m k)) (item_fingerprint pr i) (si_kind i) rebind
         then Some (spawn_collector pr otlp i) else bt_get m k)"
  using enabled_item_None [of items k]
  by (auto simp: reconcile_def Let_def bt_get_filter_key align_fold_get [OF assms] split: option.split)

text \<open>What the supervisor is to reach: one runner for each enabled item, started with its content and, for the receiver,
  with the present settings.\<close>

definition collects :: "spec_item list \<Rightarrow> otlp_runtime \<Rightarrow> (string, runner) btmap \<Rightarrow> bool" where
  "collects items otlp m \<longleftrightarrow> (\<forall>k. case (enabled_item items k, bt_get m k) of
       (None, None) \<Rightarrow> True
     | (Some i, Some r) \<Rightarrow> si_kind (rn_item r) = si_kind i \<and> si_collector (rn_item r) = si_collector i \<and>
         si_storage (rn_item r) = si_storage i \<and> (si_kind i = ''apm_otlp'' \<longrightarrow> rn_otlp r = otlp)
     | _ \<Rightarrow> False)"

definition runners_ok :: "(json \<Rightarrow> string) \<Rightarrow> (string, runner) btmap \<Rightarrow> bool" where
  "runners_ok pr m \<longleftrightarrow> (\<forall>k r. bt_get m k = Some r \<longrightarrow> rn_fingerprint r = item_fingerprint pr (rn_item r))"

definition otlp_current :: "otlp_runtime \<Rightarrow> (string, runner) btmap \<Rightarrow> bool" where
  "otlp_current otlp m \<longleftrightarrow> (\<forall>k r. bt_get m k = Some r \<longrightarrow> si_kind (rn_item r) = ''apm_otlp'' \<longrightarrow> rn_otlp r = otlp)"

lemma reconcile_runners_ok:
  "distinct (map si_item_id items) \<Longrightarrow> runners_ok pr m \<Longrightarrow> runners_ok pr (reconcile pr otlp items rebind m)"
  by (auto simp: runners_ok_def reconcile_get spawn_collector_def split: option.splits if_splits)

lemma reconcile_otlp:
  assumes "inj pr" "distinct (map si_item_id items)" "runners_ok pr m" "rebind \<or> otlp_current otlp m"
  shows "otlp_current otlp (reconcile pr otlp items rebind m)"
  unfolding otlp_current_def
proof (intro allI impI)
  fix k r assume r: "bt_get (reconcile pr otlp items rebind m) k = Some r" "si_kind (rn_item r) = ''apm_otlp''"
  then obtain i where i: "enabled_item items k = Some i" by (auto simp: reconcile_get [OF assms(2)] split: option.splits)
  show "rn_otlp r = otlp"
  proof (cases "must_restart (map_option rn_fingerprint (bt_get m k)) (item_fingerprint pr i) (si_kind i) rebind")
    case True
    then show ?thesis using r(1) i by (auto simp: reconcile_get [OF assms(2)] spawn_collector_def)
  next
    case False
    then have m: "bt_get m k = Some r" using r(1) i by (simp add: reconcile_get [OF assms(2)])
    then have "item_fingerprint pr (rn_item r) = item_fingerprint pr i" "\<not> (rebind \<and> si_kind i = ''apm_otlp'')"
      using False assms(3) by (auto simp: must_restart_def runners_ok_def split: if_splits)
    then have "\<not> rebind" using item_fingerprint_inject [OF assms(1)] r(2) by metis
    then show ?thesis using assms(4) m r(2) by (simp add: otlp_current_def)
  qed
qed

lemma reconcile_collects:
  assumes "inj pr" "distinct (map si_item_id items)" "runners_ok pr m" "rebind \<or> otlp_current otlp m"
  shows "collects items otlp (reconcile pr otlp items rebind m)"
  unfolding collects_def
proof (rule allI)
  fix k
  let ?m = "reconcile pr otlp items rebind m"
  show "case (enabled_item items k, bt_get ?m k) of (None, None) \<Rightarrow> True
     | (Some i, Some r) \<Rightarrow> si_kind (rn_item r) = si_kind i \<and> si_collector (rn_item r) = si_collector i \<and>
         si_storage (rn_item r) = si_storage i \<and> (si_kind i = ''apm_otlp'' \<longrightarrow> rn_otlp r = otlp)
     | _ \<Rightarrow> False"
  proof (cases "enabled_item items k")
    case None
    then show ?thesis by (simp add: reconcile_get [OF assms(2)])
  next
    case (Some i)
    have "\<exists>r. bt_get ?m k = Some r \<and> item_fingerprint pr (rn_item r) = item_fingerprint pr i"
    proof (cases "must_restart (map_option rn_fingerprint (bt_get m k)) (item_fingerprint pr i) (si_kind i) rebind")
      case True
      then show ?thesis using Some by (simp add: reconcile_get [OF assms(2)] spawn_collector_def)
    next
      case False
      then obtain r where "bt_get m k = Some r" "rn_fingerprint r = item_fingerprint pr i"
        by (auto simp: must_restart_def split: if_splits)
      then show ?thesis using False Some assms(3) by (auto simp: reconcile_get [OF assms(2)] runners_ok_def)
    qed
    then obtain r where r: "bt_get ?m k = Some r" "item_fingerprint pr (rn_item r) = item_fingerprint pr i" by blast
    then show ?thesis using item_fingerprint_inject [OF assms(1) r(2)] reconcile_otlp [OF assms] Some
      by (auto simp: otlp_current_def)
  qed
qed

text \<open>The invariant: queues hold well-formed item lists, and a change of the receiver settings that its runners have not seen
  is still in the queue.\<close>

fun spec_items :: "control list \<Rightarrow> spec_item list list" where
  "spec_items [] = []"
| "spec_items (SpecChanged items b # q) = items # spec_items q"
| "spec_items (PullAddr # q) = spec_items q"

lemma spec_items_append [simp]: "spec_items (p @ q) = spec_items p @ spec_items q"
  by (induction p rule: spec_items.induct) auto

definition rebind_waits :: "control list \<Rightarrow> bool" where
  "rebind_waits q \<longleftrightarrow> (\<exists>items. SpecChanged items True \<in> set q)"

lemma rebind_waits_simps [simp]:
  "\<not> rebind_waits []" "rebind_waits (SpecChanged items b # q) \<longleftrightarrow> b \<or> rebind_waits q" "rebind_waits (PullAddr # q) = rebind_waits q"
  "rebind_waits (p @ q) \<longleftrightarrow> rebind_waits p \<or> rebind_waits q"
  by (auto simp: rebind_waits_def)

definition distinct_items :: "spec_item list \<Rightarrow> bool" where
  "distinct_items items \<longleftrightarrow> distinct (map si_item_id items)"

definition sup_ok :: "(json \<Rightarrow> string) \<Rightarrow> otlp_runtime \<Rightarrow> supervisor \<Rightarrow> bool" where
  "sup_ok pr otlp sv \<longleftrightarrow> runners_ok pr (sv_runners sv) \<and> list_all distinct_items (spec_items (sv_queue sv)) \<and>
     (rebind_waits (sv_queue sv) \<or> otlp_current otlp (sv_runners sv))"

definition sup_synced :: "spec_item list \<Rightarrow> otlp_runtime \<Rightarrow> supervisor \<Rightarrow> bool" where
  "sup_synced items otlp sv \<longleftrightarrow>
     (if spec_items (sv_queue sv) = [] then collects items otlp (sv_runners sv) else last (spec_items (sv_queue sv)) = items)"

definition run_inv :: "(json \<Rightarrow> string) \<Rightarrow> agent_runtime \<Rightarrow> bool" where
  "run_inv pr rt \<longleftrightarrow> distinct_items (aw_items (rt_applied rt)) \<and>
     (case rt_supervisor rt of None \<Rightarrow> True | Some sv \<Rightarrow> sup_ok pr (cs_otlp (rt_shared rt)) sv)"

definition synced :: "agent_runtime \<Rightarrow> bool" where
  "synced rt \<longleftrightarrow> (case rt_supervisor rt of None \<Rightarrow> False
     | Some sv \<Rightarrow> sup_synced (aw_items (rt_applied rt)) (cs_otlp (rt_shared rt)) sv)"

lemma pull_addr_otlp [simp]: "cs_otlp (pull_addr a s) = cs_otlp s"
  by (simp add: pull_addr_def set_ingest_url_def set_host_id_def split: call_answer.split)

lemma supervise_otlp: "cs_otlp (snd (supervise pr a sv s)) = cs_otlp s"
  by (simp add: supervise_def split: list.split control.split)

lemma supervise_ok:
  assumes "inj pr" "sup_ok pr (cs_otlp s) sv"
  shows "sup_ok pr (cs_otlp s) (fst (supervise pr a sv s))"
    and "sup_synced items (cs_otlp s) sv \<Longrightarrow> sup_synced items (cs_otlp s) (fst (supervise pr a sv s))"
proof -
  let ?sv = "fst (supervise pr a sv s)"
  have "sup_ok pr (cs_otlp s) ?sv \<and> (sup_synced items (cs_otlp s) sv \<longrightarrow> sup_synced items (cs_otlp s) ?sv)"
  proof (cases "sv_queue sv")
    case Nil
    then show ?thesis using assms(2) by (simp add: supervise_def)
  next
    case (Cons m q)
    show ?thesis
    proof (cases m)
      case (SpecChanged its b)
      have d: "distinct (map si_item_id its)" "runners_ok pr (sv_runners sv)" "list_all distinct_items (spec_items q)"
          "b \<or> rebind_waits q \<or> otlp_current (cs_otlp s) (sv_runners sv)"
        using assms(2) Cons SpecChanged by (simp_all add: sup_ok_def distinct_items_def)
      let ?m = "reconcile pr (cs_otlp s) its b (sv_runners sv)"
      have r: "runners_ok pr ?m" by (rule reconcile_runners_ok [OF d(1,2)])
      have o: "rebind_waits q \<or> otlp_current (cs_otlp s) ?m" using reconcile_otlp [OF assms(1) d(1,2)] d(4) by blast
      have c: "spec_items q = [] \<Longrightarrow> collects its (cs_otlp s) ?m"
      proof -
        assume "spec_items q = []"
        then have "\<not> rebind_waits q" by (induction q rule: spec_items.induct) auto
        then show ?thesis using reconcile_collects [OF assms(1) d(1,2)] d(4) by blast
      qed
      show ?thesis using Cons SpecChanged r o c d(3) by (auto simp: supervise_def sup_ok_def sup_synced_def)
    next
      case PullAddr
      then show ?thesis using assms(2) Cons by (simp add: supervise_def sup_ok_def sup_synced_def)
    qed
  qed
  then show "sup_ok pr (cs_otlp s) ?sv" "sup_synced items (cs_otlp s) sv \<Longrightarrow> sup_synced items (cs_otlp s) ?sv" by simp_all
qed

lemma distinct_normalize: "distinct_items items \<Longrightarrow> distinct_items (normalize_items items)"
  by (simp add: distinct_items_def normalize_items_def distinct_map_filter)

lemma apply_spec_fields:
  "rt_supervisor (apply_spec spec rt) = map_option (\<lambda>sv. sv\<lparr>sv_queue := sv_queue sv @
     [SpecChanged (normalize_items (aw_items spec)) (cs_otlp (rt_shared rt) \<noteq> otlp_of_params (aw_params spec))]\<rparr>) (rt_supervisor rt)"
  "cs_otlp (rt_shared (apply_spec spec rt)) = otlp_of_params (aw_params spec)"
  "rt_applied (apply_spec spec rt) = \<lparr>aw_params = hide_tokens (aw_params spec), aw_items = normalize_items (aw_items spec)\<rparr>"
  by (auto simp: apply_spec_def Let_def control_send_def split: option.split)

text \<open>A delivery of the items that are applied brings the supervisor back in line.\<close>

lemma delivered:
  assumes "run_inv pr rt" "distinct_items (aw_items (rt_applied rt'))"
    and "rt_supervisor rt' = map_option (\<lambda>sv. sv\<lparr>sv_queue := sv_queue sv @ [SpecChanged (aw_items (rt_applied rt')) b]\<rparr>) (rt_supervisor rt)"
    and "b \<or> cs_otlp (rt_shared rt') = cs_otlp (rt_shared rt)"
  shows "run_inv pr rt'" "rt_supervisor rt \<noteq> None \<Longrightarrow> synced rt'"
  using assms by (auto simp: run_inv_def synced_def sup_ok_def sup_synced_def split: option.splits)

lemma apply_spec_ok:
  assumes "run_inv pr rt" "distinct_items (aw_items spec)"
  shows "run_inv pr (apply_spec spec rt)" "rt_supervisor rt \<noteq> None \<Longrightarrow> synced (apply_spec spec rt)"
  using delivered [OF assms(1), of "apply_spec spec rt" "cs_otlp (rt_shared rt) \<noteq> otlp_of_params (aw_params spec)"]
    distinct_normalize [OF assms(2)]
  by (simp_all add: apply_spec_fields)

lemma replay_ok:
  assumes "run_inv pr rt"
  shows "run_inv pr (replay_applied_items rt)" "rt_supervisor rt \<noteq> None \<Longrightarrow> synced (replay_applied_items rt)"
  using delivered [OF assms, of "replay_applied_items rt" False] assms
  by (simp_all add: replay_applied_items_def control_send_def run_inv_def)

lemma inv_cong:
  assumes "rt_applied rt' = rt_applied rt" "rt_supervisor rt' = rt_supervisor rt" "cs_otlp (rt_shared rt') = cs_otlp (rt_shared rt)"
  shows "run_inv pr rt' = run_inv pr rt" "synced rt' = synced rt"
  by (cases "rt_supervisor rt"; simp add: assms run_inv_def synced_def)+

lemma inv_other_fields [simp]:
  "run_inv pr (remember a rt) = run_inv pr rt" "synced (remember a rt) = synced rt"
  "run_inv pr (schedule_report rt) = run_inv pr rt" "synced (schedule_report rt) = synced rt"
  "run_inv pr (rt\<lparr>rt_revision := v\<rparr>) = run_inv pr rt" "synced (rt\<lparr>rt_revision := v\<rparr>) = synced rt"
  "run_inv pr (rt\<lparr>rt_pending := n\<rparr>) = run_inv pr rt" "synced (rt\<lparr>rt_pending := n\<rparr>) = synced rt"
  "run_inv pr (rt\<lparr>rt_reauth := b\<rparr>) = run_inv pr rt" "synced (rt\<lparr>rt_reauth := b\<rparr>) = synced rt"
  by (rule inv_cong; simp add: remember_def schedule_report_def)+

definition push_ok :: "agent_spec_push \<Rightarrow> bool" where
  "push_ok push \<longleftrightarrow> (case pu_spec push of None \<Rightarrow> True | Some w \<Rightarrow> distinct_items (aw_items w))"

lemma apply_push_ok:
  assumes "run_inv pr rt" "push_ok push"
  shows "run_inv pr (snd (apply_push push rt))" "rt_supervisor rt \<noteq> None \<Longrightarrow> synced (snd (apply_push push rt))"
proof -
  have "run_inv pr (snd (apply_push push rt)) \<and> (rt_supervisor rt \<noteq> None \<longrightarrow> synced (snd (apply_push push rt)))"
  proof (cases "pu_spec push")
    case None
    then show ?thesis using replay_ok [OF assms(1)] by (simp add: apply_push_def Let_def)
  next
    case (Some w)
    then have w: "distinct_items (aw_items w)" using assms(2) by (simp add: push_ok_def)
    show ?thesis using replay_ok [OF assms(1)] apply_spec_ok [OF assms(1) w] Some by (simp add: apply_push_def Let_def)
  qed
  then show "run_inv pr (snd (apply_push push rt))" "rt_supervisor rt \<noteq> None \<Longrightarrow> synced (snd (apply_push push rt))" by simp_all
qed

lemma apply_local_file_ok:
  assumes "run_inv pr rt"
  shows "run_inv pr (snd (apply_local_file p rt))" "rt_supervisor rt \<noteq> None \<Longrightarrow> synced (snd (apply_local_file p rt))"
proof -
  have "distinct_items (aw_items (rt_applied rt))" using assms by (simp add: run_inv_def)
  then have "run_inv pr (apply_spec \<lparr>aw_params = p, aw_items = aw_items (rt_applied rt)\<rparr> rt)"
      "rt_supervisor rt \<noteq> None \<Longrightarrow> synced (apply_spec \<lparr>aw_params = p, aw_items = aw_items (rt_applied rt)\<rparr> rt)"
    using apply_spec_ok [OF assms] by simp_all
  then show "run_inv pr (snd (apply_local_file p rt))" "rt_supervisor rt \<noteq> None \<Longrightarrow> synced (snd (apply_local_file p rt))"
    by (simp_all add: apply_local_file_def Let_def)
qed

lemma pull_addr_queued [simp]: "run_inv pr (control_send PullAddr rt) = run_inv pr rt" "synced (control_send PullAddr rt) = synced rt"
  by (cases "rt_supervisor rt"; simp add: control_send_def run_inv_def synced_def sup_ok_def sup_synced_def)+

definition answer_ok :: "agent_spec_push call_answer \<Rightarrow> bool" where
  "answer_ok a \<longleftrightarrow> (case a of CallOk push \<Rightarrow> push_ok push | _ \<Rightarrow> True)"

definition reaches_supervisor :: "connection \<Rightarrow> bool" where
  "reaches_supervisor cn \<longleftrightarrow> cn_dial cn = Inr () \<and> register_handlers cn [''exec'', ''job_exec'', ''file_read'', ''file_write''] = None"

lemma start_inv: "run_inv pr rt \<Longrightarrow> run_inv pr (start_supervisor rt)"
  by (simp add: run_inv_def start_supervisor_def supervisor_new_def sup_ok_def runners_ok_def otlp_current_def)

text \<open>How far a connection gets.\<close>

lemma connect_cases:
  obtains (none) "\<not> reaches_supervisor cn" "snd (connect_once ver cn rt) = rt" "fst (connect_once ver cn rt) \<noteq> None"
  | (started) "reaches_supervisor cn" "snd (connect_once ver cn rt) = start_supervisor rt" "fst (connect_once ver cn rt) \<noteq> None"
  | (up) "reaches_supervisor cn" "fst (connect_once ver cn rt) = None"
      "snd (connect_once ver cn rt) = control_send PullAddr (pull_spec (cn_pull cn) (start_supervisor rt))"
proof (cases "cn_dial cn")
  case (Inl e)
  then show ?thesis using none by (simp add: connect_once_def reaches_supervisor_def)
next
  case dialed: (Inr x)
  show ?thesis
  proof (cases "register_handlers cn [''exec'', ''job_exec'', ''file_read'', ''file_write'']")
    case (Some e)
    then show ?thesis using none dialed by (simp only: connect_once_def reaches_supervisor_def sum.case option.case) simp
  next
    case None
    then have r: "reaches_supervisor cn" using dialed by (simp add: reaches_supervisor_def)
    have c: "connect_once ver cn rt = (let rt1 = start_supervisor rt in
        case register_handlers cn [''agent_spec''] of Some e \<Rightarrow> (Some e, rt1)
        | None \<Rightarrow> (case authenticate cn ver (rt_agent_id rt1) (rt_token rt1) of
             Some e \<Rightarrow> (Some e, rt1) | None \<Rightarrow> (None, control_send PullAddr (pull_spec (cn_pull cn) rt1))))"
      by (simp only: connect_once_def dialed None sum.case option.case)
    show ?thesis
    proof (cases "register_handlers cn [''agent_spec'']")
      case (Some e)
      show ?thesis by (rule started [OF r]) (simp_all only: c Let_def Some option.case fst_conv snd_conv not_False_eq_True option.distinct)
    next
      case reg: None
      show ?thesis
      proof (cases "authenticate cn ver (rt_agent_id (start_supervisor rt)) (rt_token (start_supervisor rt))")
        case (Some e)
        show ?thesis
          by (rule started [OF r]) (simp_all only: c Let_def reg Some option.case fst_conv snd_conv not_False_eq_True option.distinct)
      next
        case None
        show ?thesis by (rule up [OF r]) (simp_all only: c Let_def reg None option.case fst_conv snd_conv)
      qed
    qed
  qed
qed

lemma connect_ok:
  assumes "run_inv pr rt" "answer_ok (cn_pull cn)"
  shows "run_inv pr (snd (connect_once ver cn rt))"
    and "fst (connect_once ver cn rt) = None \<Longrightarrow> cn_pull cn = CallOk push \<Longrightarrow> synced (snd (connect_once ver cn rt))"
proof -
  have s: "rt_supervisor (start_supervisor rt) \<noteq> None" by (simp add: start_supervisor_def)
  note p = apply_push_ok [OF start_inv [OF assms(1)]]
  have pull: "run_inv pr (pull_spec (cn_pull cn) (start_supervisor rt))"
    using start_inv [OF assms(1)] assms(2) p(1) by (cases "cn_pull cn") (simp_all add: pull_spec_def answer_ok_def)
  show "run_inv pr (snd (connect_once ver cn rt))"
    by (cases rule: connect_cases [of cn ver rt]) (simp_all add: assms(1) start_inv pull)
  show "synced (snd (connect_once ver cn rt))" if "fst (connect_once ver cn rt) = None" "cn_pull cn = CallOk push"
  proof (cases rule: connect_cases [of cn ver rt])
    case up
    have "push_ok push" using assms(2) that(2) by (simp add: answer_ok_def)
    then show ?thesis using p(2) s up(3) that(2) by (simp add: pull_spec_def)
  qed (use that(1) in simp_all)
qed

fun event_ok :: "agent_event \<Rightarrow> bool" where
  "event_ok (AeConnect cn) = answer_ok (cn_pull cn)"
| "event_ok (AePush raw (Inr push)) = push_ok push"
| "event_ok _ = True"

fun is_connect :: "agent_event \<Rightarrow> bool" where
  "is_connect (AeConnect cn) = True"
| "is_connect _ = False"

lemma beat_fields:
  "heartbeat_round call (\<lambda>r. r) now up rt = (hb, e, m, rt') \<Longrightarrow> \<exists>n. rt' = rt\<lparr>rt_pending := n\<rparr>"
proof -
  have same: "rt = rt\<lparr>rt_pending := rt_pending rt\<rparr>" by simp
  assume "heartbeat_round call (\<lambda>r. r) now up rt = (hb, e, m, rt')"
  then have "rt' = rt \<or> rt' = confirm_report rt \<or> rt' = decay_report rt"
    by (auto simp: heartbeat_round_def Let_def split: call_answer.splits if_splits)
  then show ?thesis
  proof (elim disjE)
    assume "rt' = rt"
    then show ?thesis using same by metis
  qed (auto simp: confirm_report_def decay_report_def)
qed

lemma agent_step_ok:
  assumes "inj pr" "run_inv pr rt" "event_ok e"
  shows "run_inv pr (agent_step pr ver e rt)"
    and "synced rt \<Longrightarrow> \<not> is_connect e \<Longrightarrow> synced (agent_step pr ver e rt)"
proof -
  have sup: "synced rt \<Longrightarrow> rt_supervisor rt \<noteq> None" by (auto simp: synced_def split: option.splits)
  have "run_inv pr (agent_step pr ver e rt) \<and> (synced rt \<and> \<not> is_connect e \<longrightarrow> synced (agent_step pr ver e rt))"
  proof (cases e)
    case (AeConnect cn)
    then show ?thesis using connect_ok(1) [OF assms(2)] assms(3) by simp
  next
    case (AePush raw dec)
    have "dec = Inr push \<Longrightarrow> push_ok push" for push using assms(3) AePush by simp
    then show ?thesis using apply_push_ok [OF assms(2)] assms(2) sup AePush
      by (auto simp: handle_spec_push_def case_prod_beta split: option.splits sum.splits)
  next
    case (AeReload f)
    then show ?thesis using apply_local_file_ok [OF assms(2)] assms(2) sup by (auto simp: reload_from_file_def split: sum.splits)
  next
    case (AeControl a)
    show ?thesis
    proof (cases "rt_supervisor rt")
      case (Some sv)
      then have "sup_ok pr (cs_otlp (rt_shared rt)) sv" using assms(2) by (simp add: run_inv_def)
      then show ?thesis using supervise_ok [OF assms(1), where s = "rt_shared rt" and sv = sv and a = a] supervise_otlp [of pr a sv "rt_shared rt"]
          Some AeControl assms(2)
        by (simp add: case_prod_beta run_inv_def synced_def)
    qed (use AeControl assms(2) in simp)
  next
    case (AeBeat call now up)
    obtain hb er m rt' where h: "heartbeat_round call (\<lambda>r. r) now up rt = (hb, er, m, rt')" by (metis prod_cases4)
    then show ?thesis using beat_fields [OF h] AeBeat assms(2) by auto
  next
    case AeWait
    then show ?thesis using assms(2) by (simp add: heartbeat_wait_def)
  qed
  then show "run_inv pr (agent_step pr ver e rt)" "synced rt \<Longrightarrow> \<not> is_connect e \<Longrightarrow> synced (agent_step pr ver e rt)" by simp_all
qed

lemma agent_run_append: "agent_run pr ver (xs @ ys) rt = agent_run pr ver ys (agent_run pr ver xs rt)"
  by (simp add: agent_run_def)

lemma agent_run_ok:
  assumes "inj pr" "run_inv pr rt" "\<forall>e\<in>set evs. event_ok e"
  shows "run_inv pr (agent_run pr ver evs rt)"
    and "synced rt \<Longrightarrow> \<forall>e\<in>set evs. \<not> is_connect e \<Longrightarrow> synced (agent_run pr ver evs rt)"
proof -
  have "run_inv pr (agent_run pr ver evs rt) \<and>
      (synced rt \<longrightarrow> (\<forall>e\<in>set evs. \<not> is_connect e) \<longrightarrow> synced (agent_run pr ver evs rt))"
    using assms(2,3)
  proof (induction evs arbitrary: rt)
    case (Cons e evs)
    then show ?case using agent_step_ok [OF assms(1) Cons.prems(1), of e ver] by (simp add: agent_run_def)
  qed (simp add: agent_run_def)
  then show "run_inv pr (agent_run pr ver evs rt)"
    "synced rt \<Longrightarrow> \<forall>e\<in>set evs. \<not> is_connect e \<Longrightarrow> synced (agent_run pr ver evs rt)" by simp_all
qed

lemma runtime_new_inv: "run_inv pr (runtime_new c)"
  by (simp add: run_inv_def runtime_new_def distinct_items_def)

text \<open>Without a new spec, a reload or a connection nothing is delivered to the supervisor.\<close>

fun is_quiet :: "agent_event \<Rightarrow> bool" where
  "is_quiet (AeControl a) = True"
| "is_quiet (AeBeat call now up) = True"
| "is_quiet AeWait = True"
| "is_quiet _ = False"

definition idle :: "spec_item list \<Rightarrow> agent_runtime \<Rightarrow> bool" where
  "idle items rt \<longleftrightarrow> aw_items (rt_applied rt) = items \<and>
     (\<exists>sv. rt_supervisor rt = Some sv \<and> sv_runners sv = [] \<and> spec_items (sv_queue sv) = [])"

lemma quiet_idle:
  assumes "is_quiet e" "idle items rt"
  shows "idle items (agent_step pr ver e rt)"
proof -
  obtain sv where sv: "rt_supervisor rt = Some sv" "sv_runners sv = []" "spec_items (sv_queue sv) = []" "aw_items (rt_applied rt) = items"
    using assms(2) by (auto simp: idle_def)
  show ?thesis
  proof (cases e)
    case (AeControl a)
    have "sv_runners (fst (supervise pr a sv (rt_shared rt))) = [] \<and> spec_items (sv_queue (fst (supervise pr a sv (rt_shared rt)))) = []"
      using sv(2,3) by (cases "sv_queue sv" rule: spec_items.cases) (auto simp: supervise_def)
    then show ?thesis using sv AeControl by (simp add: idle_def case_prod_beta)
  next
    case (AeBeat call now up)
    obtain hb er m rt' where h: "heartbeat_round call (\<lambda>r. r) now up rt = (hb, er, m, rt')" by (metis prod_cases4)
    then show ?thesis using beat_fields [OF h] AeBeat assms(2) by (auto simp: idle_def)
  next
    case AeWait
    then show ?thesis using assms(2) by (simp add: heartbeat_wait_def idle_def)
  qed (use assms(1) in simp_all)
qed

lemma quiet_run_idle: "\<forall>e\<in>set evs. is_quiet e \<Longrightarrow> idle items rt \<Longrightarrow> idle items (agent_run pr ver evs rt)"
proof (induction evs arbitrary: rt)
  case (Cons e evs)
  then show ?case using quiet_idle [of e items rt pr ver] by (simp add: agent_run_def)
qed (simp add: agent_run_def)

lemma control_send_loops [simp]: "rt_report_loops (control_send m rt) = rt_report_loops rt"
  by (simp add: control_send_def)

lemma apply_push_loops [simp]: "rt_report_loops (snd (apply_push push rt)) = rt_report_loops rt"
  by (simp add: apply_push_def apply_spec_def replay_applied_items_def remember_def schedule_report_def Let_def split: option.split)

lemma apply_local_file_loops [simp]: "rt_report_loops (snd (apply_local_file p rt)) = rt_report_loops rt"
  by (simp add: apply_local_file_def apply_spec_def remember_def schedule_report_def Let_def split: option.split)

lemma connect_loops:
  "rt_report_loops (snd (connect_once ver cn rt)) = rt_report_loops rt + (if reaches_supervisor cn then 1 else 0)"
  by (cases rule: connect_cases [of cn ver rt]) (simp_all add: start_supervisor_def pull_spec_def split: call_answer.split)

section \<open>Properties\<close>


text \<open>Values can be printed so that different ones differ: they are countable.\<close>

instance word :: (len) countable
  by (rule countable_classI [of "\<lambda>w. unat w"]) (simp add: word_unat_eq_iff)

instance json_num :: countable by countable_datatype

instance json :: countable by countable_datatype

definition w_pr :: "json \<Rightarrow> string" where
  "w_pr j = replicate (to_nat j) (CHR ''x'')"

lemma w_pr_inj: "inj w_pr"
  by (rule injI) (simp add: w_pr_def)

definition w_item :: spec_item where
  "w_item = \<lparr>si_item_id = ''i'', si_name = ''n'', si_kind = ''apm_otlp'', si_enabled = True, si_collector = JNull, si_storage = JNull\<rparr>"

definition w_push :: "string \<Rightarrow> agent_spec_push" where
  "w_push revision = \<lparr>pu_revision = revision, pu_spec = Some \<lparr>aw_params = default_spec_params\<lparr>sp_otlp_enabled := True\<rparr>, aw_items = [w_item]\<rparr>\<rparr>"

definition w_conn :: connection where
  "w_conn = \<lparr>cn_dial = Inr (), cn_register = (\<lambda>_. Inr ()), cn_auth = (\<lambda>_. CallOk \<lparr>ar_ok = True, ar_reason = None\<rparr>),
     cn_pull = CallOk (w_push ''r'')\<rparr>"

lemma w_conn_up: "fst (connect_once v w_conn rt) = None"
  by (simp add: connect_once_def w_conn_def authenticate_def Let_def)


text \<open>C31: a connection that gets as far as its supervisor but then cannot register, authenticate or pull the spec leaves the
  agent without any collector, although it knows the items it applied; heartbeats, address answers and waiting do not
  bring them back, only a push, a reload or another connection.\<close>

theorem failed_pull_stops_collectors:
  assumes "reaches_supervisor cn" "fst (connect_once ver cn rt) \<noteq> None \<or> (\<forall>push. cn_pull cn \<noteq> CallOk push)"
    and "\<forall>e\<in>set evs. is_quiet e" "rt' = agent_run pr ver evs (snd (connect_once ver cn rt))"
  shows "aw_items (rt_applied rt') = aw_items (rt_applied rt) \<and> (\<exists>sv. rt_supervisor rt' = Some sv \<and> sv_runners sv = [])"
proof -
  have st: "idle (aw_items (rt_applied rt)) (start_supervisor rt)"
    by (simp add: idle_def start_supervisor_def supervisor_new_def)
  have "idle (aw_items (rt_applied rt)) (snd (connect_once ver cn rt))"
  proof (cases rule: connect_cases [of cn ver rt])
    case none
    then show ?thesis using assms(1) by simp
  next
    case started
    then show ?thesis using st by simp
  next
    case up
    then have "pull_spec (cn_pull cn) (start_supervisor rt) = start_supervisor rt"
      using assms(2) by (auto simp: pull_spec_def split: call_answer.split)
    then show ?thesis using st up(3) by (auto simp: idle_def control_send_def)
  qed
  from quiet_run_idle [OF assms(3) this, of pr ver] show ?thesis by (auto simp: assms(4) idle_def)
qed

definition w_bad_conn :: connection where
  "w_bad_conn = w_conn\<lparr>cn_pull := CallFailed ''timeout''\<rparr>"

theorem failed_pull_stops_collectors_witness:
  "\<exists>rt'. rt' = agent_run w_pr ''1'' [AeControl (CallFailed ''e''), AeWait]
       (snd (connect_once ''1'' w_bad_conn (snd (apply_push (w_push ''r'') (runtime_new default_agent_config))))) \<and>
     aw_items (rt_applied rt') = [w_item] \<and> (\<exists>sv. rt_supervisor rt' = Some sv \<and> sv_runners sv = [])"
proof -
  let ?rt = "snd (apply_push (w_push ''r'') (runtime_new default_agent_config))"
  have r: "reaches_supervisor w_bad_conn" by (simp add: reaches_supervisor_def w_bad_conn_def w_conn_def)
  have f: "fst (connect_once ''1'' w_bad_conn ?rt) \<noteq> None \<or> (\<forall>push. cn_pull w_bad_conn \<noteq> CallOk push)"
    by (simp add: w_bad_conn_def)
  have q: "\<forall>e\<in>set [AeControl (CallFailed ''e''), AeWait]. is_quiet e" by simp
  have i: "aw_items (rt_applied ?rt) = [w_item]"
    by (simp add: apply_push_def w_push_def runtime_new_def Let_def remember_def schedule_report_def apply_spec_fields
        normalize_items_def w_item_def)
  show ?thesis using failed_pull_stops_collectors [OF r f q refl, of w_pr] by (simp add: i)
qed

text \<open>Every connection that gets as far as its supervisor starts a report loop, and none ever ends: their number is the
  number of such connections.\<close>

lemma report_loops_accumulate:
  "rt_report_loops (agent_run pr ver evs rt) =
     rt_report_loops rt + length (filter (\<lambda>e. case e of AeConnect cn \<Rightarrow> reaches_supervisor cn | _ \<Rightarrow> False) evs)"
proof (induction evs arbitrary: rt)
  case (Cons e evs)
  have "rt_report_loops (agent_step pr ver e rt) =
      rt_report_loops rt + (if (case e of AeConnect cn \<Rightarrow> reaches_supervisor cn | _ \<Rightarrow> False) then 1 else 0)"
  proof (cases e)
    case (AeConnect cn)
    then show ?thesis by (simp add: connect_loops)
  next
    case (AeBeat call now up)
    obtain hb er m rt' where h: "heartbeat_round call (\<lambda>r. r) now up rt = (hb, er, m, rt')" by (metis prod_cases4)
    then show ?thesis using beat_fields [OF h] AeBeat by auto
  qed (auto simp: handle_spec_push_def reload_from_file_def heartbeat_wait_def case_prod_beta split: option.split sum.split)
  then show ?case using Cons.IH [of "agent_step pr ver e rt"] by (simp add: agent_run_def)
qed (simp add: agent_run_def)

text \<open>Two loops on one buffer: while one waits for the answer to the first batch, the other sends the second one, which is
  then confirmed before the first.\<close>

lemma second_loop_reorders:
  assumes "bu_queue (cs_buffer s) = e1 # e2 # q" "cs_ingest_url s = Some u"
    and "post_disposition (post u e1) = Confirm" "post_disposition (post u e2) = Confirm"
  shows "\<exists>s1. fst (snd (report_step post (\<lambda>s. s) l2 s1)) = Some e2 \<and>
    fst (snd (report_step post (\<lambda>s. snd (snd (snd (report_step post (\<lambda>s. s) l2 s)))) l1 s)) = Some e1 \<and>
    s1 = s\<lparr>cs_buffer := snd (buffer_pop_front (cs_buffer s))\<rparr>"
  using assms by (simp add: report_step_def buffer_pop_front_def Let_def)

fun failed_attempts :: "nat \<Rightarrow> nat \<Rightarrow> nat" where
  "failed_attempts 0 b = b"
| "failed_attempts (Suc n) b = (case run_after b (Some (conn_new [])) of Again _ b' \<Rightarrow> failed_attempts n b' | Stop _ \<Rightarrow> b)"

lemma failed_attempts_simp: "failed_attempts (Suc n) b = failed_attempts n (min (b * 2) 60)"
  by (simp add: run_after_def conn_new_def next_backoff_def BACKOFF_MAX_SECS_def)

lemma failed_attempts_max: "failed_attempts n 60 = 60"
  by (induction n) (simp_all add: failed_attempts_simp del: failed_attempts.simps(2))

text \<open>After enough failures to connect the delay is at its maximum, and a session that was up when it broke still waits
  that long before the next attempt; only then does the delay start again at a second.\<close>

lemma broken_session_waits_longest:
  assumes "6 \<le> n"
  shows "run_after (failed_attempts n 1) (Some (conn_after_connected m)) = Again 60 1"
proof -
  obtain k where "n = Suc (Suc (Suc (Suc (Suc (Suc k)))))" using assms by (metis add_Suc le_Suc_ex numeral_eq_Suc pred_numeral_simps(1,2,3) BitM.simps add_0 plus_nat.simps)
  then have "failed_attempts n 1 = failed_attempts k 60" by (simp add: failed_attempts_simp del: failed_attempts.simps(2))
  then show ?thesis by (simp add: failed_attempts_max run_after_def conn_after_connected_def next_backoff_def)
qed

theorem broken_session_waits_longest_witness:
  "run_after (failed_attempts 6 1) (Some (conn_after_connected ''heartbeat rpc'')) = Again 60 1"
  by (rule broken_session_waits_longest) simp

text \<open>A spec that is applied while a heartbeat carries the report of the one before is not reported by heartbeats: the
  confirmation of the old report cancels it.\<close>

lemma newer_report_cancelled:
  assumes "pending_ack rt = Some old" "call = (\<lambda>_. CallOk \<lparr>hr_spec_synced = True\<rparr>)"
    and "heartbeat_round call (\<lambda>r. snd (apply_push push r)) now up rt = (hb, e, m, rt')"
  shows "hb_spec hb = Some old" "pending_ack rt' = None" "rt_last_ack rt' = rt_last_ack (snd (apply_push push rt))"
  using assms by (auto simp: heartbeat_round_def Let_def confirm_report_def pending_ack_def)

text \<open>No report ever holds a credential.\<close>

definition no_tokens :: "spec_params \<Rightarrow> bool" where
  "no_tokens p \<longleftrightarrow> sp_token p = None \<and> sp_otlp_token p = None"

lemma reports_hide_tokens:
  assumes "no_tokens (aw_params (rt_applied rt))"
  shows "no_tokens (aw_params (rt_applied (snd (apply_push push rt))))" "no_tokens (aw_params (ak_applied (fst (apply_push push rt))))"
    "no_tokens (aw_params (rt_applied (snd (apply_local_file p rt))))" "no_tokens (aw_params (ak_applied (fst (apply_local_file p rt))))"
  using assms by (simp_all add: apply_push_def apply_local_file_def Let_def remember_def schedule_report_def build_ack_def
      replay_applied_items_def control_send_def apply_spec_fields hide_tokens_def no_tokens_def split: option.split)

text \<open>A reload goes back to the token of the file and asks for a new authentication with it.\<close>

lemma reload_token:
  assumes "ag_agent_id c = rt_agent_id rt" "ag_server_addr c = rt_server_addr rt" "ag_token c \<noteq> []" "rt_token rt \<noteq> ag_token c"
  shows "rt_token (reload_from_file (Inr c) rt) = ag_token c" "rt_reauth (reload_from_file (Inr c) rt)"
    "rt_agent_id (reload_from_file (Inr c) rt) = rt_agent_id rt"
  using assms by (auto simp: reload_from_file_def apply_local_file_def Let_def remember_def schedule_report_def apply_spec_def
      control_send_def params_from_config_def)

end
