(* ===== verification/Agent_Restart.thy ===== *)
theory Agent_Restart
  imports Agent_Runtime Agent_Link
begin

text \<open>
  The agent of \<^theory_text>\<open>Agent_Runtime\<close> against the server of \<^theory_text>\<open>Agent_Link\<close>: what becomes of a token that was rotated by
  pushing a spec when the agent reads its file again, on a signal or because it starts anew.
\<close>

text \<open>A connection whose authentication the server answers in a state.\<close>

definition served_by :: "server_config \<Rightarrow> int \<Rightarrow> nat \<Rightarrow> link \<Rightarrow> connection \<Rightarrow> bool" where
  "served_by cfg now c s cn \<longleftrightarrow> reaches_supervisor cn \<and> register_handlers cn [''agent_spec''] = None \<and>
     (\<forall>req. cn_auth cn req = CallOk (fst (handle_auth cfg now c (Some req) s)))"

lemma refused_connection:
  assumes "served_by cfg now c s cn" "lg_faults (lk_led s) = []" "sc_auth_enabled cfg"
    and "\<not> accepts (lk_led s) (rt_agent_id rt) (rt_token rt)"
  shows "\<exists>reason. fst (connect_once ver cn rt) = Some (AuthFailed reason)"
proof -
  let ?req = "\<lparr>aq_agent_id = rt_agent_id rt, aq_token = rt_token rt, aq_version = ver\<rparr>"
  obtain reply s' where h: "handle_auth cfg now c (Some ?req) s = (reply, s')" by force
  have "\<not> ar_ok reply" using handle_auth_ok(1) [OF assms(2,3) h] assms(4) by simp
  then have a: "authenticate cn ver (rt_agent_id (start_supervisor rt)) (rt_token (start_supervisor rt)) =
      Some (AuthFailed (unwrap_or (ar_reason reply) []))"
    using assms(1) h by (simp add: authenticate_def start_supervisor_def served_by_def)
  show ?thesis using assms(1) a unfolding served_by_def reaches_supervisor_def connect_once_def Let_def
    by (simp only: sum.case option.case fst_conv) simp
qed

text \<open>C32: when the token of an agent was rotated and the agent has authenticated with the new one, a reload of its file, which
  still holds the old token, or a restart makes the next connection be refused, and the process ends.\<close>

theorem rotation_then_reload_stops_agent:
  assumes "lg_faults (lk_led s) = []" "sc_auth_enabled cfg" "tokens_of (lk_led s) (ag_agent_id conf) = Some (ag_token conf, prev)"
    and "ag_token conf \<noteq> []" "new \<noteq> ag_token conf"
    and "s1 = s\<lparr>lk_led := snd (rotate_agent_token (ag_agent_id conf) new (lk_led s))\<rparr>"
    and "handle_auth cfg now1 c1 (Some \<lparr>aq_agent_id = ag_agent_id conf, aq_token = new, aq_version = ver\<rparr>) s1 = (reply, s2)"
    and "rt_agent_id rt = ag_agent_id conf" "rt_server_addr rt = ag_server_addr conf" "rt_token rt = new"
    and "served_by cfg now2 c2 s2 cn"
  shows "ar_ok reply \<and>
    (\<exists>reason. run_after b (fst (connect_once ver cn (reload_from_file (Inr conf) rt))) = Stop (''auth rejected: '' @ reason)) \<and>
    (\<exists>reason. run_after b (fst (connect_once ver cn (runtime_new conf))) = Stop (''auth rejected: '' @ reason))"
proof -
  have t: "tokens_of (lk_led s1) (ag_agent_id conf) = Some (new, Some (ag_token conf))" "lg_faults (lk_led s1) = []"
    using rotated_tokens [OF assms(1,3,4), of new] by (simp_all add: assms(6))
  note ok = handle_auth_ok [OF t(2) assms(2,7)]
  have r: "ar_ok reply" using ok(1) t(1) by (simp add: accepts_def)
  have f: "lg_faults (lk_led s2) = []" using ok(5) by simp
  have "tokens_of (lk_led s2) (ag_agent_id conf) = Some (new, None)" using ok(4) r t(1) by (simp add: used_token_def)
  then have n: "\<not> accepts (lk_led s2) (ag_agent_id conf) (ag_token conf)" using assms(5) by (simp add: accepts_def)
  have "rt_agent_id (reload_from_file (Inr conf) rt) = ag_agent_id conf \<and> rt_token (reload_from_file (Inr conf) rt) = ag_token conf"
    using reload_token [of conf rt] assms(4,5,8,9,10) by simp
  then obtain e1 where e1: "fst (connect_once ver cn (reload_from_file (Inr conf) rt)) = Some (AuthFailed e1)"
    using refused_connection [OF assms(11) f assms(2), of "reload_from_file (Inr conf) rt" ver] n by auto
  obtain e2 where e2: "fst (connect_once ver cn (runtime_new conf)) = Some (AuthFailed e2)"
    using refused_connection [OF assms(11) f assms(2), of "runtime_new conf" ver] n by (auto simp: runtime_new_def)
  show ?thesis using r by (simp add: e1 e2 run_after_def)
qed

definition w_file :: agent_config where
  "w_file = default_agent_config\<lparr>ag_agent_id := ''a1'', ag_token := ''old''\<rparr>"

theorem rotation_then_reload_stops_agent_witness:
  "\<exists>s2 cn reason. served_by default_server_config 6 8 s2 cn \<and>
     run_after 1 (fst (connect_once ''1'' cn (runtime_new w_file))) = Stop (''auth rejected: '' @ reason)"
proof -
  let ?s1 = "demo_link\<lparr>lk_led := snd (rotate_agent_token ''a1'' ''new'' (lk_led demo_link))\<rparr>"
  obtain reply s2 where h: "handle_auth default_server_config 5 7 (Some \<lparr>aq_agent_id = ''a1'', aq_token = ''new'', aq_version = ''1''\<rparr>) ?s1 = (reply, s2)"
    by fastforce
  let ?cn = "\<lparr>cn_dial = Inr (), cn_register = (\<lambda>_. Inr ()), cn_auth = (\<lambda>req. CallOk (fst (handle_auth default_server_config 6 8 (Some req) s2))),
      cn_pull = CallFailed []\<rparr>"
  have c: "served_by default_server_config 6 8 s2 ?cn" by (simp add: served_by_def reaches_supervisor_def)
  have e: "sc_auth_enabled default_server_config" by (simp add: default_server_config_def)
  have w: "ag_agent_id w_file = ''a1''" "ag_token w_file = ''old''" "tokens_of (lk_led demo_link) (ag_agent_id w_file) = Some (ag_token w_file, None)"
    using demo_link_facts(2) by (simp_all add: w_file_def)
  have x: "rt_agent_id ((runtime_new w_file)\<lparr>rt_token := ''new''\<rparr>) = ag_agent_id w_file"
    "rt_server_addr ((runtime_new w_file)\<lparr>rt_token := ''new''\<rparr>) = ag_server_addr w_file" "rt_token ((runtime_new w_file)\<lparr>rt_token := ''new''\<rparr>) = ''new''"
    by (simp_all add: runtime_new_def)
  have n: "ag_token w_file \<noteq> []" "''new'' \<noteq> ag_token w_file" by (simp_all add: w(2))
  show ?thesis
    using rotation_then_reload_stops_agent [OF demo_link_facts(1) e w(3) n refl _ x c, of 5 7 "''1''" reply 1] h c
    by (simp add: w(1)) blast
qed

end
