(* ===== verification/Otlp_Receiver.thy ===== *)
theory Otlp_Receiver
  imports Agent_Upload Observation Ip_Addr
begin

unbundle bit_operations_syntax

text \<open>
  The receiver of OTLP traces of the agent (\<^verbatim>\<open>gse-agent-core/src/collect/otlp.rs\<close>): a request is admitted by token,
  source address and size, unpacked, decoded and turned into records, which are those the data server decodes
  (\<^theory_text>\<open>Observation\<close>). The decoders of the OTLP messages, gzip and the printing of numbers and JSON are parameters.
  Bytes are characters.
\<close>

section \<open>OTLP messages\<close>

datatype any_value =
    AvNone
  | AvString string
  | AvBool bool
  | AvInt int
  | AvDouble f64
  | AvBytes string
  | AvArray "any_value list"
  | AvKvlist "(string \<times> any_value option) list"
  | AvOther string

type_synonym key_values = "(string \<times> any_value option) list"

record otel_event =
  oe_name :: string
  oe_time_unix_nano :: nat
  oe_attributes :: key_values

record otel_link =
  ok_trace_id :: string
  ok_span_id :: string
  ok_attributes :: key_values

record otel_status =
  os_code :: int
  os_message :: string

record otel_span =
  on_trace_id :: string
  on_span_id :: string
  on_parent_span_id :: string
  on_name :: string
  on_kind :: int
  on_start_unix_nano :: nat
  on_end_unix_nano :: nat
  on_attributes :: key_values
  on_events :: "otel_event list"
  on_links :: "otel_link list"
  on_status :: "otel_status option"
  on_flags :: nat
  on_dropped_attributes :: nat
  on_dropped_events :: nat
  on_dropped_links :: nat

record scope_spans =
  oc_scope :: "(string \<times> string) option"
  oc_spans :: "otel_span list"

record resource_spans =
  or_resource :: "key_values option"
  or_scope_spans :: "scope_spans list"

text \<open>What the receiver calls: printing, and unpacking, which gives bytes and possibly an error after them.\<close>

record otlp_lib =
  ol_double :: "f64 \<Rightarrow> string"
  ol_strings :: "string list \<Rightarrow> string"
  ol_map :: "labels \<Rightarrow> string"
  ol_json_text :: "json \<Rightarrow> string"
  ol_gunzip :: "string \<Rightarrow> string \<times> string option"
  ol_from_json :: "string \<Rightarrow> (string, resource_spans list) result"
  ol_from_protobuf :: "string \<Rightarrow> (string, resource_spans list) result"
  ol_to_value :: "trace_span \<Rightarrow> json option"

section \<open>Settings\<close>

definition DEFAULT_BATCH_MAX_RECORDS :: nat where "DEFAULT_BATCH_MAX_RECORDS = 100"
definition DEFAULT_FLUSH_INTERVAL_SECS :: nat where "DEFAULT_FLUSH_INTERVAL_SECS = 5"

record otlp_config =
  oc_listen :: string
  oc_max_body_bytes :: nat
  oc_token :: string
  oc_allowed_cidrs :: "(ip_addr \<times> nat) list"
  oc_batch_max_records :: nat
  oc_flush_interval_secs :: nat
  oc_service_allowlist :: "string list"
  oc_service_denylist :: "string list"
  oc_attribute_allowlist :: "string list"
  oc_item_id :: string

text \<open>Entries that are no network are left out.\<close>

definition parse_cidr :: "string \<Rightarrow> (ip_addr \<times> nat) option" where
  "parse_cidr raw =
     (case split_once CHR ''/'' raw of
        None \<Rightarrow> None
      | Some (addr, len) \<Rightarrow>
          (case (parse_ip (trim addr), parse_u8 (trim len)) of
             (Some a, Some n) \<Rightarrow> if n > (case a of V4 _ \<Rightarrow> 32 | V6 _ \<Rightarrow> 128) then None else Some (a, n)
           | _ \<Rightarrow> None))"

definition parse_cidrs :: "string list \<Rightarrow> (ip_addr \<times> nat) list" where
  "parse_cidrs vs = List.map_filter parse_cidr vs"

definition address_in :: "ip_addr \<Rightarrow> ip_addr \<Rightarrow> nat \<Rightarrow> bool" where
  "address_in addr net n \<longleftrightarrow>
     (case (addr, net) of
        (V4 a, V4 b) \<Rightarrow> n \<le> 32 \<and> a AND net_mask n = b AND net_mask n
      | (V6 a, V6 b) \<Rightarrow> n \<le> 128 \<and> a AND net_mask n = b AND net_mask n
      | _ \<Rightarrow> False)"

definition clamp_nat :: "nat \<Rightarrow> nat \<Rightarrow> nat \<Rightarrow> nat" where
  "clamp_nat lo hi n = max lo (min hi n)"

definition json_strings :: "json \<Rightarrow> string \<Rightarrow> string list" where
  "json_strings v k = (case Option.bind (json_get v k) as_array of None \<Rightarrow> [] | Some xs \<Rightarrow> List.map_filter as_str xs)"

definition otlp_from_item :: "string \<Rightarrow> json \<Rightarrow> string \<Rightarrow> nat \<Rightarrow> string \<Rightarrow> string list \<Rightarrow> otlp_config" where
  "otlp_from_item item_id collector listen max_body token cidrs =
     \<lparr>oc_listen = listen, oc_max_body_bytes = max max_body 1024, oc_token = token, oc_allowed_cidrs = parse_cidrs cidrs,
      oc_batch_max_records = (case Option.bind (json_get collector ''batch_max_records'') as_u64 of
        None \<Rightarrow> DEFAULT_BATCH_MAX_RECORDS | Some v \<Rightarrow> clamp_nat 1 5000 v),
      oc_flush_interval_secs = (case Option.bind (json_get collector ''flush_interval_secs'') as_u64 of
        None \<Rightarrow> DEFAULT_FLUSH_INTERVAL_SECS | Some v \<Rightarrow> clamp_nat 1 60 v),
      oc_service_allowlist = json_strings collector ''service_allowlist'',
      oc_service_denylist = json_strings collector ''service_denylist'',
      oc_attribute_allowlist = json_strings collector ''attribute_allowlist'', oc_item_id = item_id\<rparr>"

section \<open>Conversion\<close>

definition i64_of :: "nat \<Rightarrow> int" where
  "i64_of v = (if int v \<le> i64_max then int v else 0)"

definition span_micros :: "nat \<Rightarrow> int" where
  "span_micros nanos = i64_of nanos div 1000"

definition hex_char :: "nat \<Rightarrow> char" where
  "hex_char d = (if d < 10 then char_of (48 + d) else char_of (87 + d))"

definition hex_encode :: "string \<Rightarrow> string" where
  "hex_encode bs = concat (map (\<lambda>b. [hex_char (of_char b div 16), hex_char (of_char b mod 16)]) bs)"

definition hex_lower :: "string \<Rightarrow> nat \<Rightarrow> string option" where
  "hex_lower bs n = (if length bs * 2 \<noteq> n \<or> (\<forall>b\<in>set bs. b = CHR 0x00) then None else Some (hex_encode bs))"

definition kind_of :: "int \<Rightarrow> string" where
  "kind_of k = (if k = 2 then ''server'' else if k = 3 then ''client'' else if k = 4 then ''producer''
     else if k = 5 then ''consumer'' else ''internal'')"

definition status_of :: "otel_status option \<Rightarrow> string" where
  "status_of s =
     (case s of Some st \<Rightarrow> if os_code st = 2 then ''error'' else if os_code st = 1 then ''ok'' else ''unset'' | None \<Rightarrow> ''unset'')"

fun any_value_to_string :: "otlp_lib \<Rightarrow> any_value \<Rightarrow> string" where
  "any_value_to_string L AvNone = []"
| "any_value_to_string L (AvString s) = s"
| "any_value_to_string L (AvBool b) = (if b then ''true'' else ''false'')"
| "any_value_to_string L (AvInt i) = int_dec i"
| "any_value_to_string L (AvDouble d) = ol_double L d"
| "any_value_to_string L (AvBytes b) = hex_encode b"
| "any_value_to_string L (AvArray vs) = ol_strings L (map (any_value_to_string L) vs)"
| "any_value_to_string L (AvKvlist kvs) =
     ol_map L (bt_of_list (map (\<lambda>(k, v). (k, case v of None \<Rightarrow> [] | Some x \<Rightarrow> any_value_to_string L x)) kvs))"
| "any_value_to_string L (AvOther s) = s"

definition attributes_to_map :: "otlp_lib \<Rightarrow> key_values \<Rightarrow> labels" where
  "attributes_to_map L kvs = bt_of_list (map (\<lambda>(k, v). (k, case v of None \<Rightarrow> [] | Some x \<Rightarrow> any_value_to_string L x)) kvs)"

definition service_allowed :: "string \<Rightarrow> otlp_config \<Rightarrow> bool" where
  "service_allowed service cfg \<longleftrightarrow>
     service \<notin> set (oc_service_denylist cfg) \<and> (oc_service_allowlist cfg = [] \<or> service \<in> set (oc_service_allowlist cfg))"

definition keep_attributes :: "otlp_config \<Rightarrow> labels \<Rightarrow> labels" where
  "keep_attributes cfg a =
     (if oc_attribute_allowlist cfg = [] then a else filter (\<lambda>(k, _). k \<in> set (oc_attribute_allowlist cfg)) a)"

definition span_to_record ::
    "otlp_lib \<Rightarrow> otlp_config \<Rightarrow> string \<Rightarrow> labels \<Rightarrow> string \<times> string \<Rightarrow> otel_span \<Rightarrow> trace_span option" where
  "span_to_record L cfg service res scope s =
     (case (hex_lower (on_trace_id s) 32, hex_lower (on_span_id s) 16) of
        (Some trace_id, Some span_id) \<Rightarrow>
          Some \<lparr>sp_record_id = trace_id @ '':'' @ span_id, sp_timestamp = span_micros (on_start_unix_nano s),
            sp_trace_id = trace_id, sp_span_id = span_id, sp_parent_span_id = unwrap_or (hex_lower (on_parent_span_id s) 16) [],
            sp_name = on_name s, sp_kind = kind_of (on_kind s), sp_start_unix_nano = i64_of (on_start_unix_nano s),
            sp_end_unix_nano = i64_of (on_end_unix_nano s), sp_status_code = status_of (on_status s),
            sp_status_message = (case on_status s of None \<Rightarrow> [] | Some st \<Rightarrow> os_message st),
            sp_trace_flags = on_flags s mod 256, sp_service = service, sp_resource = res, sp_scope_name = fst scope,
            sp_scope_version = snd scope,
            sp_attributes = keep_attributes cfg (attributes_to_map L (on_attributes s)),
            sp_events = map (\<lambda>e. \<lparr>sv_name = oe_name e, sv_time_unix_nano = i64_of (oe_time_unix_nano e),
              sv_attributes = attributes_to_map L (oe_attributes e)\<rparr>) (on_events s),
            sp_links = map (\<lambda>l. \<lparr>sn_trace_id = unwrap_or (hex_lower (ok_trace_id l) 32) [],
              sn_span_id = unwrap_or (hex_lower (ok_span_id l) 16) [], sn_attributes = attributes_to_map L (ok_attributes l)\<rparr>) (on_links s),
            sp_dropped_attributes = on_dropped_attributes s, sp_dropped_events = on_dropped_events s,
            sp_dropped_links = on_dropped_links s, sp_collector = ''otlp'', sp_labels = []\<rparr>
      | _ \<Rightarrow> None)"

definition count_spans :: "scope_spans list \<Rightarrow> nat" where
  "count_spans ss = sum_list (map (\<lambda>s. length (oc_spans s)) ss)"

definition add_converted ::
    "trace_span option \<Rightarrow> trace_span list \<times> nat \<Rightarrow> trace_span list \<times> nat" where
  "add_converted r x = (case r of Some t \<Rightarrow> (fst x @ [t], snd x) | None \<Rightarrow> (fst x, snd x + 1))"

definition resource_service :: "labels \<Rightarrow> string" where
  "resource_service res = (case bt_get res ''service.name'' of Some v \<Rightarrow> if v = [] then UNKNOWN_SERVICE else v | None \<Rightarrow> UNKNOWN_SERVICE)"

fun spans_from_request ::
    "otlp_lib \<Rightarrow> otlp_config \<Rightarrow> resource_spans list \<Rightarrow> trace_span list \<times> nat \<times> nat \<Rightarrow> trace_span list \<times> nat \<times> nat" where
  "spans_from_request L cfg [] acc = acc"
| "spans_from_request L cfg (r # rs) (records, dropped, invalid) =
     (let res = (case or_resource r of None \<Rightarrow> [] | Some kvs \<Rightarrow> attributes_to_map L kvs); service = resource_service res in
      if \<not> service_allowed service cfg
      then spans_from_request L cfg rs (records, dropped + count_spans (or_scope_spans r), invalid)
      else
        let (records', invalid') = fold (\<lambda>sc x. fold (\<lambda>s x. add_converted (span_to_record L cfg service res (unwrap_or (oc_scope sc) ([], [])) s) x)
              (oc_spans sc) x) (or_scope_spans r) (records, invalid)
        in spans_from_request L cfg rs (records', dropped, invalid'))"

section \<open>Requests\<close>

record otlp_stats =
  st_requests :: nat
  st_denied_auth :: nat
  st_denied_cidr :: nat
  st_too_large :: nat
  st_parse_errors :: nat
  st_gzip_errors :: nat
  st_spans_in :: nat
  st_spans_dropped :: nat
  st_batches :: nat
  st_spans_invalid :: nat

definition otlp_stats_new :: otlp_stats where
  "otlp_stats_new = \<lparr>st_requests = 0, st_denied_auth = 0, st_denied_cidr = 0, st_too_large = 0, st_parse_errors = 0, st_gzip_errors = 0,
     st_spans_in = 0, st_spans_dropped = 0, st_batches = 0, st_spans_invalid = 0\<rparr>"

definition fetch_add :: "nat \<Rightarrow> nat \<Rightarrow> nat" where
  "fetch_add x n = (x + n) mod 2 ^ 64"

record span_batch =
  sb_item_id :: string
  sb_records :: "json list"

record otlp_outcome =
  oo_status :: nat
  oo_body :: string

definition outcome_ok :: otlp_outcome where
  "outcome_ok = \<lparr>oo_status = 200, oo_body = ''{\"partialSuccess\":{}}''\<rparr>"

definition outcome_error :: "otlp_lib \<Rightarrow> nat \<Rightarrow> string \<Rightarrow> string \<Rightarrow> otlp_outcome" where
  "outcome_error L status code message =
     \<lparr>oo_status = status, oo_body = ol_json_text L (jobj [(''code'', JStr code), (''error'', JStr message)])\<rparr>"

definition GZIP_LIMIT :: nat where "GZIP_LIMIT = 64 * 1024 * 1024"

text \<open>At most the limit is unpacked; an error is seen only when it comes before it.\<close>

definition decompress :: "otlp_lib \<Rightarrow> string \<Rightarrow> string \<Rightarrow> (string, string) result" where
  "decompress L content_encoding body =
     (let enc = to_ascii_lowercase (trim content_encoding) in
      if enc = [] \<or> enc = ''identity'' then Inr body
      else if enc \<noteq> ''gzip'' then Inl (''unsupported content-encoding: '' @ content_encoding)
      else
        let (out, err) = ol_gunzip L body in
        if length out \<ge> GZIP_LIMIT then Inr (take GZIP_LIMIT out)
        else (case err of None \<Rightarrow> Inr out | Some e \<Rightarrow> Inl (''gzip decode failed: '' @ e)))"

definition decode_request :: "otlp_lib \<Rightarrow> string \<Rightarrow> string \<Rightarrow> (string, resource_spans list) result" where
  "decode_request L content_type body =
     (let ct = to_ascii_lowercase content_type in
      if contains ''json'' ct
      then (case ol_from_json L body of Inl e \<Rightarrow> Inl (''invalid OTLP JSON: '' @ e) | Inr r \<Rightarrow> Inr r)
      else if contains ''protobuf'' ct \<or> contains ''octet-stream'' ct \<or> ct = []
      then (case ol_from_protobuf L body of Inl e \<Rightarrow> Inl (''invalid OTLP protobuf: '' @ e) | Inr r \<Rightarrow> Inr r)
      else Inl (''unsupported content-type: '' @ content_type))"

record otlp_request =
  oq_content_type :: string
  oq_content_encoding :: string
  oq_authorization :: "string option"
  oq_remote :: "ip_addr option"
  oq_body :: string

definition source_allowed :: "otlp_config \<Rightarrow> ip_addr option \<Rightarrow> bool" where
  "source_allowed cfg remote \<longleftrightarrow> (case remote of None \<Rightarrow> False
     | Some a \<Rightarrow> \<exists>(net, n)\<in>set (oc_allowed_cidrs cfg). address_in a net n)"

definition handle_otlp ::
    "otlp_lib \<Rightarrow> otlp_config \<Rightarrow> otlp_request \<Rightarrow> otlp_stats \<Rightarrow> otlp_outcome \<times> span_batch option \<times> otlp_stats" where
  "handle_otlp L cfg q st0 =
     (let st = st0\<lparr>st_requests := fetch_add (st_requests st0) 1\<rparr> in
      if oc_token cfg \<noteq> [] \<and> oq_authorization q \<noteq> Some (''Bearer '' @ oc_token cfg)
      then (outcome_error L 401 ''unauthenticated'' ''invalid or missing bearer token'', None,
            st\<lparr>st_denied_auth := fetch_add (st_denied_auth st) 1\<rparr>)
      else if oc_allowed_cidrs cfg \<noteq> [] \<and> \<not> source_allowed cfg (oq_remote q)
      then (outcome_error L 403 ''permission_denied'' ''source address not allowed'', None,
            st\<lparr>st_denied_cidr := fetch_add (st_denied_cidr st) 1\<rparr>)
      else if length (oq_body q) > oc_max_body_bytes cfg
      then (outcome_error L 413 ''invalid_argument'' ''request body too large'', None,
            st\<lparr>st_too_large := fetch_add (st_too_large st) 1\<rparr>)
      else case decompress L (oq_content_encoding q) (oq_body q) of
        Inl reason \<Rightarrow> (outcome_error L 400 ''invalid_argument'' reason, None, st\<lparr>st_gzip_errors := fetch_add (st_gzip_errors st) 1\<rparr>)
      | Inr payload \<Rightarrow>
          if length payload > oc_max_body_bytes cfg
          then (outcome_error L 413 ''invalid_argument'' ''decompressed body too large'', None,
                st\<lparr>st_too_large := fetch_add (st_too_large st) 1\<rparr>)
          else (case decode_request L (oq_content_type q) payload of
              Inl reason \<Rightarrow> (outcome_error L 400 ''invalid_argument'' reason, None,
                st\<lparr>st_parse_errors := fetch_add (st_parse_errors st) 1\<rparr>)
            | Inr request \<Rightarrow>
                let (records, dropped, invalid) = spans_from_request L cfg request ([], 0, 0);
                    st1 = st\<lparr>st_spans_in := fetch_add (st_spans_in st) (length records),
                             st_spans_dropped := fetch_add (st_spans_dropped st) dropped,
                             st_spans_invalid := fetch_add (st_spans_invalid st) invalid\<rparr>
                in if records = [] then (outcome_ok, None, st1)
                   else (outcome_ok, Some \<lparr>sb_item_id = oc_item_id cfg, sb_records = List.map_filter (ol_to_value L) records\<rparr>,
                         st1\<lparr>st_batches := fetch_add (st_batches st1) 1\<rparr>)))"

text \<open>The server loop hands on posts to one path; of the body it reads one byte more than is allowed.\<close>

definition serve_otlp ::
    "otlp_lib \<Rightarrow> otlp_config \<Rightarrow> string \<Rightarrow> string \<Rightarrow> (string, string) result \<Rightarrow> otlp_request \<Rightarrow> otlp_stats \<Rightarrow>
     otlp_outcome \<times> span_batch option \<times> otlp_stats" where
  "serve_otlp L cfg method url body q st =
     (if method \<noteq> ''POST'' \<or> url \<noteq> ''/v1/traces''
      then (outcome_error L 404 ''not_found'' ''only POST /v1/traces is supported'', None, st)
      else (case body of
          Inl e \<Rightarrow> (outcome_error L 400 ''invalid_argument'' (''read body: '' @ e), None,
            st\<lparr>st_parse_errors := fetch_add (st_parse_errors st) 1\<rparr>)
        | Inr b \<Rightarrow> handle_otlp L cfg (q\<lparr>oq_body := take (oc_max_body_bytes cfg + 1) b,
            oq_remote := filter_opt (\<lambda>a. a \<noteq> V4 0 \<and> a \<noteq> V6 0) (oq_remote q)\<rparr>) st))"

definition forward_batch :: "span_batch \<Rightarrow> int \<Rightarrow> int \<Rightarrow> collect_shared \<Rightarrow> nat \<times> collect_shared" where
  "forward_batch b at sent s =
     (if sb_records b = [] then (0, s) else shared_push ''traces'' (sb_item_id b) (sb_records b) at sent s)"

section \<open>Facts\<close>

lemma code_at_plain:
  assumes "\<forall>w\<in>set codes. \<forall>c\<in>set w. c \<notin> set s"
  shows "code_at codes s = None"
proof -
  have "\<not> (w \<noteq> [] \<and> take (length w) s = w)" if "w \<in> set codes" for w
  proof
    assume a: "w \<noteq> [] \<and> take (length w) s = w"
    then obtain c where c: "c \<in> set w" by (cases w) auto
    have "set w \<subseteq> set s" using a by (metis set_take_subset)
    then show False using assms that c by blast
  qed
  then show ?thesis by (simp add: code_at_def find_None_iff)
qed

lemma trim_plain:
  assumes "\<forall>w\<in>set ws_codes. \<forall>c\<in>set w. c \<notin> set s"
  shows "trim s = s"
proof -
  have "code_at ws_codes s = None" by (rule code_at_plain [OF assms])
  moreover have "code_at (map rev ws_codes) (rev s) = None" by (rule code_at_plain) (use assms in simp)
  ultimately show ?thesis by (simp add: trim_def trim_start_def trim_end_def strip_fix)
qed

definition id_char :: "char \<Rightarrow> bool" where
  "id_char c \<longleftrightarrow> (is_ascii_hexdigit c \<and> \<not> is_ascii_uppercase c) \<or> c = CHR '':''"

lemma id_trim:
  assumes "\<forall>c\<in>set s. id_char c"
  shows "to_ascii_lowercase (trim s) = s"
proof -
  have w: "\<forall>w\<in>set ws_codes. \<forall>c\<in>set w. \<not> id_char c"
    by (simp add: ws_codes_def id_char_def is_ascii_hexdigit_def)
  then have "trim s = s" using assms by (intro trim_plain) blast
  moreover have "to_lower_char c = c" if "id_char c" for c
    using that by (auto simp: id_char_def is_ascii_uppercase_def to_lower_char_def Let_def)
  ultimately show ?thesis using assms by (simp add: to_ascii_lowercase_def map_idI)
qed

lemma hex_char_ok: "d < 16 \<Longrightarrow> is_ascii_hexdigit (hex_char d) \<and> \<not> is_ascii_uppercase (hex_char d)"
  by (simp add: hex_char_def is_ascii_hexdigit_def is_ascii_uppercase_def Let_def)

lemma char_div: "(of_char c :: nat) div 16 < 16"
proof -
  have "(of_char c :: nat) < 256" by simp
  then show ?thesis by linarith
qed

lemma hex_encode_length: "length (hex_encode bs) = 2 * length bs"
  by (induction bs) (simp_all add: hex_encode_def)

lemma hex_encode_hex: "is_hex (hex_encode bs) (2 * length bs)"
proof -
  have "\<forall>c\<in>set (hex_encode bs). is_ascii_hexdigit c \<and> \<not> is_ascii_uppercase c"
    using hex_char_ok char_div by (auto simp: hex_encode_def)
  then show ?thesis by (auto simp: is_hex_def hex_encode_length list_all_iff list_ex_iff)
qed

lemma hex_lower_SomeD: "hex_lower bs n = Some h \<Longrightarrow> is_hex h n"
  using hex_encode_hex [of bs] by (auto simp: hex_lower_def mult.commute split: if_splits)

lemma is_hex_id: "is_hex h n \<Longrightarrow> c \<in> set h \<Longrightarrow> id_char c"
  by (auto simp: is_hex_def id_char_def list_all_iff list_ex_iff)

lemma add_converted_count:
  "length (fst (add_converted r x)) + snd (add_converted r x) = length (fst x) + snd x + 1"
  by (auto simp: add_converted_def split: option.split)

lemma add_spans_count:
  "length (fst (fold (\<lambda>s x. add_converted (f s) x) ss x)) + snd (fold (\<lambda>s x. add_converted (f s) x) ss x) = length (fst x) + snd x + length ss"
proof (induction ss arbitrary: x)
  case (Cons s ss)
  show ?case using Cons.IH [of "add_converted (f s) x"] add_converted_count [of "f s" x] by simp
qed simp

lemma add_scopes_count:
  "length (fst (fold (\<lambda>sc x. fold (\<lambda>s x. add_converted (f sc s) x) (oc_spans sc) x) scs x)) +
     snd (fold (\<lambda>sc x. fold (\<lambda>s x. add_converted (f sc s) x) (oc_spans sc) x) scs x) = length (fst x) + snd x + count_spans scs"
proof (induction scs arbitrary: x)
  case (Cons sc scs)
  show ?case using Cons.IH [of "fold (\<lambda>s x. add_converted (f sc s) x) (oc_spans sc) x"] add_spans_count [of "f sc" "oc_spans sc" x]
    by (simp add: count_spans_def)
qed (simp add: count_spans_def)

lemma spans_count:
  assumes "spans_from_request L cfg rs acc = (records, dropped, invalid)"
  shows "length records + dropped + invalid =
    length (fst acc) + fst (snd acc) + snd (snd acc) + sum_list (map (\<lambda>r. count_spans (or_scope_spans r)) rs)"
  using assms
proof (induction L cfg rs acc rule: spans_from_request.induct)
  case (2 L cfg r rs rec d i)
  let ?res = "case or_resource r of None \<Rightarrow> [] | Some kvs \<Rightarrow> attributes_to_map L kvs"
  let ?f = "\<lambda>sc. span_to_record L cfg (resource_service ?res) ?res (unwrap_or (oc_scope sc) ([], []))"
  show ?case
  proof (cases "service_allowed (resource_service ?res) cfg")
    case False
    then show ?thesis using 2 by (simp add: Let_def)
  next
    case True
    obtain rec' i' where f: "fold (\<lambda>sc x. fold (\<lambda>s x. add_converted (?f sc s) x) (oc_spans sc) x) (or_scope_spans r) (rec, i) = (rec', i')"
      by force
    have c: "length rec' + i' = length rec + i + count_spans (or_scope_spans r)"
      using add_scopes_count [of ?f "or_scope_spans r" "(rec, i)"] by (simp add: f)
    have "spans_from_request L cfg rs (rec', d, i') = (records, dropped, invalid)" using 2(3) True f by (simp add: Let_def)
    from 2(2) [OF refl refl _ f [symmetric] refl this] True c show ?thesis by simp
  qed
qed simp

text \<open>The batch limit of the item is not looked at.\<close>

lemma span_any_limit: "span_to_record L (cfg\<lparr>oc_batch_max_records := n\<rparr>) = span_to_record L cfg"
proof -
  have "keep_attributes (cfg\<lparr>oc_batch_max_records := n\<rparr>) a = keep_attributes cfg a" for a by (simp add: keep_attributes_def)
  then show ?thesis by (intro ext) (simp only: span_to_record_def)
qed

lemma spans_any_limit: "spans_from_request L (cfg\<lparr>oc_batch_max_records := n\<rparr>) rs acc = spans_from_request L cfg rs acc"
  by (induction L cfg rs acc rule: spans_from_request.induct)
    (auto simp: span_any_limit service_allowed_def Let_def case_prod_beta cong: if_cong)

text \<open>A batch that does not fit into the empty buffer empties it.\<close>

lemma make_room_none:
  assumes "n > mx"
  shows "fst (snd (make_room mx n q sz)) = []"
  using assms by (induction q arbitrary: sz) (auto simp: case_prod_beta)

lemma large_push_empties:
  assumes "record_count e > bu_max b"
  shows "bu_queue (snd (buffer_push e b)) = [e]"
  using make_room_none [OF assms, of "bu_queue b" "bu_total b"] by (simp add: buffer_push_def case_prod_beta)

lemma admitted:
  assumes "handle_otlp L cfg q st = (o', Some b, st')"
  obtains payload request records dropped invalid where
    "oc_token cfg = [] \<or> oq_authorization q = Some (''Bearer '' @ oc_token cfg)"
    "oc_allowed_cidrs cfg = [] \<or> source_allowed cfg (oq_remote q)" "length (oq_body q) \<le> oc_max_body_bytes cfg"
    "decompress L (oq_content_encoding q) (oq_body q) = Inr payload" "length payload \<le> oc_max_body_bytes cfg"
    "decode_request L (oq_content_type q) payload = Inr request"
    "spans_from_request L cfg request ([], 0, 0) = (records, dropped, invalid)" "o' = outcome_ok"
    "b = \<lparr>sb_item_id = oc_item_id cfg, sb_records = List.map_filter (ol_to_value L) records\<rparr>"
  using assms
  by (auto simp: handle_otlp_def Let_def split: if_splits sum.splits prod.splits)

section \<open>Properties\<close>

text \<open>C38: what the agent makes of a span is what the data server takes: normalising changes nothing, and the record is
  valid exactly when the span starts at or after the first microsecond of the epoch and its time fits into 64 bits.\<close>

theorem converted_spans_accepted:
  assumes "span_to_record L cfg service res scope s = Some r" "service \<noteq> []"
  shows "normalize_span r = r \<and>
    (validate_span dbg r = Inr () \<longleftrightarrow> 1000 \<le> on_start_unix_nano s \<and> int (on_start_unix_nano s) \<le> i64_max)"
proof -
  obtain t i where h: "hex_lower (on_trace_id s) 32 = Some t" "hex_lower (on_span_id s) 16 = Some i"
    using assms(1) by (auto simp: span_to_record_def split: option.splits)
  let ?p = "unwrap_or (hex_lower (on_parent_span_id s) 16) []"
  have r: "sp_trace_id r = t" "sp_span_id r = i" "sp_parent_span_id r = ?p" "sp_record_id r = t @ '':'' @ i"
    "sp_timestamp r = span_micros (on_start_unix_nano s)" "sp_start_unix_nano r = i64_of (on_start_unix_nano s)"
    "sp_service r = service" "sp_collector r = ''otlp''" "sp_kind r = kind_of (on_kind s)" "sp_status_code r = status_of (on_status s)"
    using assms(1) by (auto simp: span_to_record_def h)
  have hex: "is_hex t 32" "is_hex i 16" "?p = [] \<or> is_hex ?p 16"
    using hex_lower_SomeD h by (auto split: option.splits simp: unwrap_or_def)
  have ids: "\<forall>c\<in>set t. id_char c" "\<forall>c\<in>set i. id_char c" "\<forall>c\<in>set (t @ '':'' @ i). id_char c"
    using is_hex_id [OF hex(1)] is_hex_id [OF hex(2)] by (auto simp: id_char_def)
  note low = ids [THEN id_trim]
  have lp: "to_ascii_lowercase (trim ?p) = ?p" using hex(3) is_hex_id id_trim by (auto simp: to_ascii_lowercase_def)
  have t0: "span_micros (on_start_unix_nano s) = tdiv (i64_of (on_start_unix_nano s)) 1000"
    by (simp add: span_micros_def tdiv_def i64_of_def)
  have n: "normalize_span r = r"
    using r low lp t0 assms(2)
    by (cases r) (auto simp: normalize_span_def Let_def or_default_def kind_of_def status_of_def split: option.splits)
  have ts: "0 < span_micros (on_start_unix_nano s) \<longleftrightarrow> 1000 \<le> on_start_unix_nano s \<and> int (on_start_unix_nano s) \<le> i64_max"
    by (auto simp: span_micros_def i64_of_def)
  have "validate_span dbg r = Inr () \<longleftrightarrow> 0 < span_micros (on_start_unix_nano s)"
    using hex by (auto simp: validate_span_def r span_record_id_def)
  then show ?thesis using n ts by blast
qed

definition w_lib :: otlp_lib where
  "w_lib = \<lparr>ol_double = (\<lambda>_. ''0''), ol_strings = concat, ol_map = (\<lambda>_. ''m''), ol_json_text = (\<lambda>_. ''j''), ol_gunzip = (\<lambda>b. (b, None)),
     ol_from_json = (\<lambda>_. Inr []), ol_from_protobuf = (\<lambda>_. Inr []), ol_to_value = (\<lambda>r. Some (JStr (sp_record_id r)))\<rparr>"

definition w_span :: otel_span where
  "w_span = \<lparr>on_trace_id = replicate 16 (CHR 0x1A), on_span_id = replicate 8 (CHR 0xB2), on_parent_span_id = [], on_name = ''get'', on_kind = 2,
     on_start_unix_nano = 5000, on_end_unix_nano = 9000, on_attributes = [], on_events = [], on_links = [], on_status = None, on_flags = 1,
     on_dropped_attributes = 0, on_dropped_events = 0, on_dropped_links = 0\<rparr>"

definition w_otlp :: otlp_config where
  "w_otlp = otlp_from_item ''i'' JNull ''l'' 4096 [] [''10.0.0.1'']"

theorem converted_spans_accepted_witness:
  "\<exists>r. span_to_record w_lib w_otlp ''shop'' [] ([], []) w_span = Some r \<and> validate_span id r = Inr ()"
proof -
  have "span_to_record w_lib w_otlp ''shop'' [] ([], []) w_span \<noteq> None"
    by (simp add: span_to_record_def hex_lower_def w_span_def)
  then obtain r where r: "span_to_record w_lib w_otlp ''shop'' [] ([], []) w_span = Some r" by blast
  show ?thesis using converted_spans_accepted [OF r, of id] r by (simp add: w_span_def i64_max_def)
qed

text \<open>Every span of a request becomes a record, is counted as filtered by its service, or is counted as invalid.\<close>

lemma every_span_counted:
  assumes "spans_from_request L cfg request ([], 0, 0) = (records, dropped, invalid)"
  shows "length records + dropped + invalid = sum_list (map (\<lambda>r. count_spans (or_scope_spans r)) request)"
  using spans_count [OF assms] by simp

lemma every_span_counted_witness:
  "\<exists>records dropped invalid.
     spans_from_request w_lib w_otlp [\<lparr>or_resource = None, or_scope_spans = [\<lparr>oc_scope = None, oc_spans = [w_span, w_span\<lparr>on_span_id := []\<rparr>]\<rparr>]\<rparr>] ([], 0, 0) =
       (records, dropped, invalid) \<and> length records + dropped + invalid = 2"
proof -
  let ?q = "[\<lparr>or_resource = None, or_scope_spans = [\<lparr>oc_scope = None, oc_spans = [w_span, w_span\<lparr>on_span_id := []\<rparr>]\<rparr>]\<rparr>]"
  obtain records dropped invalid where r: "spans_from_request w_lib w_otlp ?q ([], 0, 0) = (records, dropped, invalid)"
    by (metis prod_cases3)
  then show ?thesis using every_span_counted [OF r] by (simp add: count_spans_def)
qed

text \<open>C39: when networks are configured but none of them can be read, the receiver takes requests from everywhere: the source
  of a request makes no difference.\<close>

theorem unreadable_networks_admit_all:
  assumes "cfg = otlp_from_item item collector listen mx token cidrs" "\<forall>c\<in>set cidrs. parse_cidr c = None"
  shows "handle_otlp L cfg (q\<lparr>oq_remote := a\<rparr>) st = handle_otlp L cfg (q\<lparr>oq_remote := b\<rparr>) st"
proof -
  have "parse_cidrs cidrs = []" using assms(2) by (induction cidrs) (auto simp: parse_cidrs_def List.map_filter_def)
  then have "oc_allowed_cidrs cfg = []" by (simp add: assms(1) otlp_from_item_def)
  then show ?thesis by (simp add: handle_otlp_def Let_def cong: sum.case_cong if_cong)
qed

theorem unreadable_networks_admit_all_witness:
  "handle_otlp w_lib w_otlp \<lparr>oq_content_type = [], oq_content_encoding = [], oq_authorization = None, oq_remote = Some (V4 1), oq_body = []\<rparr> otlp_stats_new =
   handle_otlp w_lib w_otlp \<lparr>oq_content_type = [], oq_content_encoding = [], oq_authorization = None, oq_remote = None, oq_body = []\<rparr> otlp_stats_new"
proof -
  have "\<forall>c\<in>set [''10.0.0.1'']. parse_cidr c = None"
    by (simp add: parse_cidr_def split_once_def)
  from unreadable_networks_admit_all [OF w_otlp_def this, where L = w_lib and st = otlp_stats_new and a = "Some (V4 1)" and b = None
      and q = "\<lparr>oq_content_type = [], oq_content_encoding = [], oq_authorization = None, oq_remote = None, oq_body = []\<rparr>"]
  show ?thesis by simp
qed

text \<open>A request is passed on as one batch, whatever the batch limit of its item: one with more records than the buffer
  holds evicts every batch that waits to be sent.\<close>

lemma large_request_evicts_buffer:
  assumes "handle_otlp L cfg q st = (o', Some b, st')" "length (sb_records b) > bu_max (cs_buffer s)"
    and "forward_batch b at sent s = (evicted, s')"
  shows "map av_records (bu_queue (cs_buffer s')) = [sb_records b] \<and>
    (\<forall>n. handle_otlp L (cfg\<lparr>oc_batch_max_records := n\<rparr>) q st = handle_otlp L cfg q st)"
proof
  have ne: "sb_records b \<noteq> []" using assms(2) by auto
  let ?e = "new_envelope ''traces'' (sb_item_id b) (sb_records b) at sent s"
  have "record_count ?e > bu_max (cs_buffer s)" using assms(2) by (simp add: record_count_def new_envelope_def)
  from large_push_empties [OF this] have "bu_queue (snd (buffer_push ?e (cs_buffer s))) = [?e]" .
  then show "map av_records (bu_queue (cs_buffer s')) = [sb_records b]"
    using assms(3) ne by (auto simp: forward_batch_def shared_push_def new_envelope_def split: prod.splits)
  have same: "oc_token (cfg\<lparr>oc_batch_max_records := n\<rparr>) = oc_token cfg"
      "oc_allowed_cidrs (cfg\<lparr>oc_batch_max_records := n\<rparr>) = oc_allowed_cidrs cfg"
      "oc_max_body_bytes (cfg\<lparr>oc_batch_max_records := n\<rparr>) = oc_max_body_bytes cfg"
      "oc_item_id (cfg\<lparr>oc_batch_max_records := n\<rparr>) = oc_item_id cfg" for n
    by simp_all
  show "\<forall>n. handle_otlp L (cfg\<lparr>oc_batch_max_records := n\<rparr>) q st = handle_otlp L cfg q st"
    by (intro allI) (simp only: handle_otlp_def source_allowed_def spans_any_limit same)
qed

definition w_big_request :: otlp_request where
  "w_big_request = \<lparr>oq_content_type = [], oq_content_encoding = [], oq_authorization = None, oq_remote = None, oq_body = []\<rparr>"

definition w_big_lib :: otlp_lib where
  "w_big_lib = w_lib\<lparr>ol_from_protobuf := (\<lambda>_. Inr [\<lparr>or_resource = None, or_scope_spans = [\<lparr>oc_scope = None, oc_spans = [w_span, w_span]\<rparr>]\<rparr>])\<rparr>"

definition w_small_shared :: collect_shared where
  "w_small_shared = (shared_new ''a'')\<lparr>cs_buffer := buffer_new 1\<rparr>"

theorem large_request_evicts_buffer_witness:
  "\<exists>o' b st' evicted s'. handle_otlp w_big_lib w_otlp w_big_request otlp_stats_new = (o', Some b, st') \<and>
     forward_batch b 1 1 w_small_shared = (evicted, s') \<and> map av_records (bu_queue (cs_buffer s')) = [sb_records b]"
proof -
  obtain r where r: "span_to_record w_big_lib w_otlp UNKNOWN_SERVICE [] ([], []) w_span = Some r"
    by (simp add: span_to_record_def hex_lower_def w_span_def)
  have al: "service_allowed UNKNOWN_SERVICE w_otlp" by (simp add: service_allowed_def w_otlp_def otlp_from_item_def json_strings_def)
  have sp: "spans_from_request w_big_lib w_otlp [\<lparr>or_resource = None, or_scope_spans = [\<lparr>oc_scope = None, oc_spans = [w_span, w_span]\<rparr>]\<rparr>] ([], 0, 0) = ([r, r], 0, 0)"
    using al by (simp add: resource_service_def r add_converted_def)
  have c: "oc_token w_otlp = []" "oc_allowed_cidrs w_otlp = []"
    by (simp_all add: w_otlp_def otlp_from_item_def parse_cidrs_def parse_cidr_def split_once_def List.map_filter_def)
  have v: "List.map_filter (ol_to_value w_big_lib) [r, r] = [JStr (sp_record_id r), JStr (sp_record_id r)]"
    by (simp add: List.map_filter_def w_big_lib_def w_lib_def)
  obtain o' b st' where h: "handle_otlp w_big_lib w_otlp w_big_request otlp_stats_new = (o', Some b, st')" "length (sb_records b) = 2"
    using sp c v by (simp add: handle_otlp_def w_big_request_def decompress_def decode_request_def Let_def to_ascii_lowercase_def w_big_lib_def w_lib_def)
  have l: "length (sb_records b) > bu_max (cs_buffer w_small_shared)" using h(2) by (simp add: w_small_shared_def buffer_new_def)
  obtain evicted s' where f: "forward_batch b 1 1 w_small_shared = (evicted, s')" by force
  show ?thesis using conjunct1 [OF large_request_evicts_buffer [OF h(1) l f]] h(1) f by (intro exI conjI) assumption+
qed

end
