(* ===== verification/Cleanup.thy ===== *)
theory Cleanup
  imports Apm_Retention Kv_Store Ingest Agent_Link
begin

text \<open>
  \<^verbatim>\<open>bins/dataserver/src/cleanup.rs\<close>: what a collection item wrote is deleted after its days, and what a
  removed item wrote some days after it left the specs. The data server knows of a removal only by
  comparing the list of the management port with the one it remembers (\<open>spec-live/\<close>); the date of the
  deletion waits below \<open>retain/\<close>. The state of \<open>Apm_Retention\<close> is extended by the key-value store and by
  the counts of idle rounds. The transport, the JSON parser, the two stored formats and the reading
  of key bytes as text are parameters; the calls of the key-value store fail by the schedule of the
  other stores. \<^verbatim>\<open>i64\<close> products wrap as they do in a release build.
\<close>

section \<open>The list of the management port\<close>

definition LIVE_PREFIX :: string where "LIVE_PREFIX = ''spec-live/''"
definition RETAIN_PREFIX :: string where "RETAIN_PREFIX = ''retain/''"

definition live_key :: "string \<Rightarrow> string" where
  "live_key item_id = ''spec-live/'' @ item_id"

definition retain_key :: "string \<Rightarrow> string" where
  "retain_key item_id = ''retain/'' @ item_id"

record live_item =
  li_item_id :: string
  li_retention_days :: nat
  li_kind :: string

definition is_ebpf :: "live_item \<Rightarrow> bool" where
  "is_ebpf i \<longleftrightarrow> starts_with (li_kind i) ''ebpf''"

definition clamp_item_days :: "nat \<Rightarrow> nat" where
  "clamp_item_days days = (if days = 0 then 1 else days)"

definition join_gse_url :: "string \<Rightarrow> string \<Rightarrow> string option \<Rightarrow> string" where
  "join_gse_url base path query =
     (let base = trim_end_slash base; path = (if starts_with path ''/'' then path else ''/'' @ path) in
      case query of Some q \<Rightarrow> (if q \<noteq> [] then base @ path @ ''?'' @ q else base @ path) | None \<Rightarrow> base @ path)"

text \<open>What goes over the wire, and what comes of it: an answer whose text may not be readable, or none.\<close>

record gse_request =
  gq_method :: string
  gq_url :: string
  gq_authorization :: "string option"
  gq_content_type :: "string option"
  gq_body :: "string option"

datatype gse_answer = Answered nat "string option" | NoAnswer string

definition gse_http_sync :: "(gse_request \<Rightarrow> gse_answer) \<Rightarrow> string \<Rightarrow> string \<Rightarrow> string \<Rightarrow> string option \<Rightarrow>
    (dataplane_error, nat \<times> string) result" where
  "gse_http_sync net meth url body password =
     (let auth = map_option (\<lambda>pw. ''Bearer '' @ pw) (filter_opt (\<lambda>p. p \<noteq> []) password);
          bare = (meth = ''GET'' \<or> meth = ''HEAD'' \<or> meth = ''DELETE'' \<and> body = []);
          q = \<lparr>gq_method = meth, gq_url = url, gq_authorization = auth,
             gq_content_type = (if bare then None else Some ''application/json''), gq_body = (if bare then None else Some body)\<rparr> in
      case net q of
        Answered status text \<Rightarrow> Inr (status, unwrap_or text [])
      | NoAnswer e \<Rightarrow> Inl \<lparr>de_code = Unavailable, de_message = e\<rparr>)"

definition retention_days_from_item :: "(string \<Rightarrow> json option) \<Rightarrow> json \<Rightarrow> nat" where
  "retention_days_from_item parse v =
     (case Option.bind (Option.bind (json_get v ''storage'') (\<lambda>x. json_get x ''retention_days'')) as_u64 of
        Some d \<Rightarrow> clamp_item_days (d mod 2 ^ 32)
      | None \<Rightarrow>
          (case Option.bind (Option.bind (Option.bind (Option.bind (json_get v ''storage_json'') as_str) parse)
                  (\<lambda>j. json_get j ''retention_days'')) as_u64 of
             Some d \<Rightarrow> clamp_item_days (d mod 2 ^ 32)
           | None \<Rightarrow> 1))"

definition item_days :: "(string \<Rightarrow> json option) \<Rightarrow> string \<Rightarrow> json \<Rightarrow> nat" where
  "item_days parse kind item = (if starts_with kind ''ebpf'' then retention_days item else retention_days_from_item parse item)"

text \<open>One item of one agent: without an id or disabled it counts for nothing; of several with one id the longest
  days and the first kind that is not empty are kept.\<close>

definition merge_live :: "(string \<Rightarrow> json option) \<Rightarrow> (string, live_item) btmap \<Rightarrow> json \<Rightarrow> (string, live_item) btmap" where
  "merge_live parse m item =
     (case Option.bind (json_get item ''item_id'') as_str of
        None \<Rightarrow> m
      | Some k \<Rightarrow>
          if k = [] \<or> \<not> unwrap_or (Option.bind (json_get item ''enabled'') as_bool) True then m
          else
            let kind = unwrap_or (Option.bind (json_get item ''kind'') as_str) [];
                days = item_days parse kind item;
                e = unwrap_or (bt_get m k) \<lparr>li_item_id = k, li_retention_days = days, li_kind = kind\<rparr>;
                e = e\<lparr>li_retention_days := max (li_retention_days e) days\<rparr>;
                e = (if li_kind e = [] then e\<lparr>li_kind := kind\<rparr> else e)
            in bt_insert k e m)"

definition view_items :: "json \<Rightarrow> json list" where
  "view_items v =
     (case Option.bind (json_get v ''desired'') (\<lambda>d. Option.bind (json_get d ''spec'') (\<lambda>s. json_get s ''items'')) of
        Some (JArr items) \<Rightarrow> items | _ \<Rightarrow> [])"

definition parse_agent_specs :: "(string \<Rightarrow> json option) \<Rightarrow> string \<Rightarrow> live_item list" where
  "parse_agent_specs parse body =
     (case parse body of
        Some (JArr views) \<Rightarrow> map snd (foldl (merge_live parse) [] (concat (map view_items views)))
      | _ \<Rightarrow> [])"

definition fetch_live_items :: "(gse_request \<Rightarrow> gse_answer) \<Rightarrow> (string \<Rightarrow> json option) \<Rightarrow> string \<Rightarrow> string option \<Rightarrow>
    (dataplane_error, live_item list) result" where
  "fetch_live_items net parse url password =
     (case gse_http_sync net ''GET'' (join_gse_url url ''/api/gse/agent-specs'' None) [] password of
        Inl e \<Rightarrow> Inl e
      | Inr (status, body) \<Rightarrow>
          if status \<noteq> 200 then Inl \<lparr>de_code = Unavailable, de_message = ''gse agent-specs HTTP '' @ nat_dec status\<rparr>
          else Inr (parse_agent_specs parse body))"

section \<open>Removed items\<close>

record cleanup_db = retention_db +
  cu_kv :: kv
  cu_zero_hits :: "(string, nat) btmap"

type_synonym ('x, 'a) cu = "('x cleanup_db_ext, 'a) rt"

record 'x cleanup_env =
  ce_rt :: "'x cleanup_db_ext rt_env"
  ce_text :: "string \<Rightarrow> string"
  ce_live_enc :: "nat \<Rightarrow> string"
  ce_live_dec :: "string \<Rightarrow> nat option"
  ce_until_enc :: "int \<Rightarrow> string"
  ce_until_dec :: "string \<Rightarrow> int option"
  ce_series :: "string \<Rightarrow> int \<Rightarrow> 'x cleanup_db_scheme \<Rightarrow> nat \<times> nat"

definition kv_call :: "(kv \<Rightarrow> (dataplane_error, 'a) result \<times> kv) \<Rightarrow> ('x, 'a) cu" where
  "kv_call f = store_call (\<lambda>s. let (r, m) = f (cu_kv s) in (r, s\<lparr>cu_kv := m\<rparr>))"

definition cu_set :: "string \<Rightarrow> string \<Rightarrow> ('x, unit) cu" where
  "cu_set k v = kv_call (\<lambda>m. (Inr (), kv_set k v m))"

definition cu_delete :: "string \<Rightarrow> ('x, unit) cu" where
  "cu_delete k = kv_call (kv_delete k)"

definition cu_scan :: "string \<Rightarrow> ('x, (string \<times> string) list) cu" where
  "cu_scan p = kv_call (\<lambda>m. (Inr (scan_prefix p m), m))"

text \<open>A question that fails counts as no.\<close>

definition cu_exists :: "string \<Rightarrow> ('x, bool) cu" where
  "cu_exists k s = (case kv_call (\<lambda>m. (Inr (kv_exists k m), m)) s of (Inl _, s') \<Rightarrow> (Inr False, s') | (Inr b, s') \<Rightarrow> (Inr b, s'))"

definition after_prefix :: "string \<Rightarrow> string \<Rightarrow> string option" where
  "after_prefix p k = (if starts_with k p then Some (drop (length p) k) else None)"

definition deletion_date :: "int \<Rightarrow> nat \<Rightarrow> int" where
  "deletion_date now days = wrap_i64 (now + wrap_i64 (int days * MICROS_PER_DAY))"

fun mark_gone :: "'x cleanup_env \<Rightarrow> string list \<Rightarrow> int \<Rightarrow> (string \<times> string) list \<Rightarrow> nat \<Rightarrow> ('x, nat) cu" where
  "mark_gone env live_ids now [] marked = ob_return marked"
| "mark_gone env live_ids now ((key, v) # rows) marked =
     (case after_prefix ''spec-live/'' (ce_text env key) of
        None \<Rightarrow> mark_gone env live_ids now rows marked
      | Some item_id \<Rightarrow>
          if item_id = [] \<or> item_id \<in> set live_ids then mark_gone env live_ids now rows marked
          else
            let days = clamp_item_days (unwrap_or (ce_live_dec env v) 1) in
            ob_bind (cu_set (retain_key item_id) (ce_until_enc env (deletion_date now days))) (\<lambda>_.
            ob_bind (cu_delete key) (\<lambda>_.
              mark_gone env live_ids now rows (marked + 1))))"

fun mark_live :: "'x cleanup_env \<Rightarrow> live_item list \<Rightarrow> ('x, unit) cu" where
  "mark_live env [] = ob_return ()"
| "mark_live env (i # live) =
     ob_bind (cu_exists (retain_key (li_item_id i))) (\<lambda>b.
     ob_bind (if b then cu_delete (retain_key (li_item_id i)) else ob_return ()) (\<lambda>_.
     ob_bind (cu_set (live_key (li_item_id i)) (ce_live_enc env (li_retention_days i))) (\<lambda>_.
       mark_live env live)))"

definition mark_removed_items :: "'x cleanup_env \<Rightarrow> live_item list \<Rightarrow> int \<Rightarrow> ('x, nat) cu" where
  "mark_removed_items env live now =
     ob_bind (cu_scan LIVE_PREFIX) (\<lambda>previous.
     ob_bind (mark_gone env (map li_item_id live) now previous 0) (\<lambda>marked.
     ob_bind (mark_live env live) (\<lambda>_. ob_return marked)))"

section \<open>Series, logs and edges\<close>

record ts_clean_report =
  tr_items :: nat
  tr_matched_series :: nat
  tr_tombstones :: nat

record cleanup_report =
  cr_log_deleted :: nat
  cr_ts :: ts_clean_report
  cr_ebpf_edges_deleted :: nat
  cr_ingest_dedup_deleted :: nat

definition ZERO_HIT_WARN_ROUNDS :: nat where "ZERO_HIT_WARN_ROUNDS = 3"

definition observe_hits :: "string \<Rightarrow> nat \<Rightarrow> (string, nat) btmap \<Rightarrow> bool \<times> (string, nat) btmap" where
  "observe_hits item_id matched z =
     (if matched > 0 then (False, bt_remove item_id z)
      else let rounds = (unwrap_or (bt_get z item_id) 0 + 1) mod 2 ^ 32 in
        (rounds = ZERO_HIT_WARN_ROUNDS, bt_insert item_id rounds z))"

text \<open>The points of the series with this item label in the times from 0 to \<open>to\<close>.\<close>

definition item_point :: "string \<Rightarrow> int \<Rightarrow> 'v ts_point \<Rightarrow> bool" where
  "item_point item_id to p \<longleftrightarrow> bt_get (tp_tags p) ''item_id'' = Some item_id \<and> 0 \<le> tp_timestamp p \<and> tp_timestamp p < to"

definition delete_item_series :: "'x cleanup_env \<Rightarrow> string \<Rightarrow> int \<Rightarrow> ('x, nat \<times> nat) cu" where
  "delete_item_series env item_id to = store_call (\<lambda>s.
     if 0 \<ge> to
     then (Inl \<lparr>de_code = InvalidArgument, de_message = ''from_ts (0) must be earlier than to_ts ('' @ int_dec to @ '')''\<rparr>, s)
     else (Inr (ce_series env item_id to s), s\<lparr>mt_points := filter (\<lambda>p. \<not> item_point item_id to p) (mt_points s)\<rparr>))"

definition add_series :: "ts_clean_report \<Rightarrow> nat \<times> nat \<Rightarrow> ts_clean_report" where
  "add_series r n = \<lparr>tr_items = tr_items r + 1, tr_matched_series = tr_matched_series r + fst n, tr_tombstones = tr_tombstones r + snd n\<rparr>"

definition note_hits :: "string \<Rightarrow> nat \<Rightarrow> ('x, unit) cu" where
  "note_hits item_id matched s = (Inr (), s\<lparr>cu_zero_hits := snd (observe_hits item_id matched (cu_zero_hits s))\<rparr>)"

definition item_cutoff :: "int \<Rightarrow> nat \<Rightarrow> int" where
  "item_cutoff now days = sat_sub_i64 now (wrap_i64 (int (clamp_item_days days) * MICROS_PER_DAY))"

fun ts_live :: "'x cleanup_env \<Rightarrow> nat \<Rightarrow> int \<Rightarrow> live_item list \<Rightarrow> ts_clean_report \<Rightarrow> ('x, ts_clean_report) cu" where
  "ts_live env global_days now [] rep = ob_return rep"
| "ts_live env global_days now (i # live) rep =
     (if clamp_item_days (li_retention_days i) \<ge> global_days \<or> item_cutoff now (li_retention_days i) \<le> 0
      then ts_live env global_days now live rep
      else ob_bind (delete_item_series env (li_item_id i) (item_cutoff now (li_retention_days i))) (\<lambda>n.
        ob_bind (note_hits (li_item_id i) (fst n)) (\<lambda>_.
          ts_live env global_days now live (add_series rep n))))"

fun ts_retained :: "'x cleanup_env \<Rightarrow> int \<Rightarrow> (string \<times> string) list \<Rightarrow> ts_clean_report \<Rightarrow> ('x, ts_clean_report) cu" where
  "ts_retained env now [] rep = ob_return rep"
| "ts_retained env now ((key, v) # rows) rep =
     (case after_prefix ''retain/'' (ce_text env key) of
        None \<Rightarrow> ts_retained env now rows rep
      | Some item_id \<Rightarrow>
          if item_id = [] then ts_retained env now rows rep
          else case ce_until_dec env v of
            None \<Rightarrow> ts_retained env now rows rep
          | Some until \<Rightarrow>
              if now < until \<or> until \<le> 0 then ts_retained env now rows rep
              else ob_bind (delete_item_series env item_id until) (\<lambda>n. ts_retained env now rows (add_series rep n)))"

definition apply_ts_retention :: "'x cleanup_env \<Rightarrow> live_item list \<Rightarrow> nat \<Rightarrow> int \<Rightarrow> ('x, ts_clean_report) cu" where
  "apply_ts_retention env live global_days now =
     ob_bind (ts_live env (max global_days 1) now live \<lparr>tr_items = 0, tr_matched_series = 0, tr_tombstones = 0\<rparr>) (\<lambda>rep.
     ob_bind (cu_scan RETAIN_PREFIX) (\<lambda>rows. ts_retained env now rows rep))"

definition data_id_filter :: "string \<Rightarrow> int option \<Rightarrow> log_filter" where
  "data_id_filter item_id to =
     \<lparr>lf_from_ts = None, lf_to_ts = to, lf_level = None, lf_message_query = None, lf_labels = [(''data_id'', item_id)], lf_limit = 0\<rparr>"

text \<open>One more batch than there are rows is enough (\<open>item_edges_end\<close>).\<close>

definition delete_item_edges :: "string \<Rightarrow> int \<Rightarrow> ('x, nat) cu" where
  "delete_item_edges item_id cutoff s =
     (case delete_edges_before item_id cutoff (Suc (length (ob_rows s EbpfEdges))) s of
        (Some (Inl e), s') \<Rightarrow> (Inl e, s') | (Some (Inr rep), s') \<Rightarrow> (Inr (dr_deleted rep), s') | (None, s') \<Rightarrow> (Inr 0, s'))"

fun logs_live :: "'x cleanup_env \<Rightarrow> int \<Rightarrow> live_item list \<Rightarrow> nat \<times> nat \<Rightarrow> ('x, nat \<times> nat) cu" where
  "logs_live env now [] n = ob_return n"
| "logs_live env now (i # live) n =
     ob_bind (delete_logs (ce_rt env) (data_id_filter (li_item_id i) (Some (item_cutoff now (li_retention_days i))))) (\<lambda>d.
     ob_bind (if is_ebpf i then delete_item_edges (li_item_id i) (item_cutoff now (li_retention_days i)) else ob_return 0) (\<lambda>e.
       logs_live env now live (fst n + d, snd n + e)))"

fun logs_retained :: "'x cleanup_env \<Rightarrow> int \<Rightarrow> (string \<times> string) list \<Rightarrow> nat \<times> nat \<Rightarrow> ('x, nat \<times> nat) cu" where
  "logs_retained env now [] n = ob_return n"
| "logs_retained env now ((key, v) # rows) n =
     (case after_prefix ''retain/'' (ce_text env key) of
        None \<Rightarrow> logs_retained env now rows n
      | Some item_id \<Rightarrow>
          if item_id = [] then logs_retained env now rows n
          else case ce_until_dec env v of
            None \<Rightarrow> logs_retained env now rows n
          | Some until \<Rightarrow>
              if now < until then logs_retained env now rows n
              else ob_bind (delete_logs (ce_rt env) (data_id_filter item_id None)) (\<lambda>d.
                ob_bind (delete_item_edges item_id now) (\<lambda>e.
                ob_bind (cu_delete key) (\<lambda>_.
                  logs_retained env now rows (fst n + d, snd n + e)))))"

definition apply_retention :: "'x cleanup_env \<Rightarrow> live_item list \<Rightarrow> int \<Rightarrow> ('x, nat \<times> nat) cu" where
  "apply_retention env live now =
     ob_bind (logs_live env now live (0, 0)) (\<lambda>n.
     ob_bind (cu_scan RETAIN_PREFIX) (\<lambda>rows. logs_retained env now rows n))"

section \<open>A run\<close>

definition swallow :: "('x, 'a) cu \<Rightarrow> ('x, unit) cu" where
  "swallow m s = (Inr (), snd (m s))"

definition live_list :: "(gse_request \<Rightarrow> gse_answer) \<Rightarrow> (string \<Rightarrow> json option) \<Rightarrow> string option \<Rightarrow> string option \<Rightarrow> live_item list option" where
  "live_list net parse gse_url password =
     (case gse_url of
        Some url \<Rightarrow> (case fetch_live_items net parse url password of Inr items \<Rightarrow> Some items | Inl _ \<Rightarrow> None)
      | None \<Rightarrow> None)"

definition prune_ingest :: "nat \<Rightarrow> int \<Rightarrow> ('x, nat) cu" where
  "prune_ingest dedup_days now =
     (if dedup_days > 0
      then kv_call (\<lambda>m. let (n, m') = prune_prefix_before INGEST_PREFIX (sat_sub_i64 now (wrap_i64 (int dedup_days * MICROS_PER_DAY))) m in (Inr n, m'))
      else ob_return 0)"

definition run_cleanup :: "'x cleanup_env \<Rightarrow> (gse_request \<Rightarrow> gse_answer) \<Rightarrow> (string \<Rightarrow> json option) \<Rightarrow> string option \<Rightarrow> string option \<Rightarrow>
    nat \<Rightarrow> nat \<Rightarrow> int \<Rightarrow> ('x, cleanup_report) cu" where
  "run_cleanup env net parse gse_url password global_days dedup_days now =
     (let live = live_list net parse gse_url password in
      ob_bind (case live of Some items \<Rightarrow> swallow (mark_removed_items env items now) | None \<Rightarrow> ob_return ()) (\<lambda>_.
      ob_bind (apply_ts_retention env (unwrap_or live []) global_days now) (\<lambda>ts.
      ob_bind (apply_retention env (unwrap_or live []) now) (\<lambda>n.
      ob_bind (prune_ingest dedup_days now) (\<lambda>k.
        ob_return \<lparr>cr_log_deleted = fst n, cr_ts = ts, cr_ebpf_edges_deleted = snd n, cr_ingest_dedup_deleted = k\<rparr>)))))"

section \<open>Whose data a run touches\<close>

text \<open>The keys below \<open>retain/\<close> whose date has come.\<close>

definition due_items :: "'x cleanup_env \<Rightarrow> int \<Rightarrow> (string \<times> string) set \<Rightarrow> string set" where
  "due_items env now K = {k. k \<noteq> [] \<and> (\<exists>(key, v) \<in> K. after_prefix ''retain/'' (ce_text env key) = Some k \<and>
     (\<exists>until. ce_until_dec env v = Some until \<and> until \<le> now))}"

definition remembered :: "string \<times> string \<Rightarrow> bool" where
  "remembered e \<longleftrightarrow> \<not> starts_with (fst e) RETAIN_PREFIX \<and> \<not> starts_with (fst e) INGEST_PREFIX"

text \<open>Logs, points and edges of items outside \<open>D\<close>, the other tables and the other keys are as they were.\<close>

definition confined :: "string set \<Rightarrow> 'x cleanup_db_scheme \<Rightarrow> 'x cleanup_db_scheme \<Rightarrow> bool" where
  "confined D s s' \<longleftrightarrow>
     filter (\<lambda>r. promoted (lr_labels r) ''data_id'' \<notin> D) (rt_logs s') = filter (\<lambda>r. promoted (lr_labels r) ''data_id'' \<notin> D) (rt_logs s) \<and>
     filter (\<lambda>p. bt_get (tp_tags p) ''item_id'' \<notin> Some ` D) (mt_points s') = filter (\<lambda>p. bt_get (tp_tags p) ''item_id'' \<notin> Some ` D) (mt_points s) \<and>
     filter (\<lambda>r. \<forall>d \<in> D. \<not> text_eq r ''data_id'' d) (ob_rows s' EbpfEdges) = filter (\<lambda>r. \<forall>d \<in> D. \<not> text_eq r ''data_id'' d) (ob_rows s EbpfEdges) \<and>
     (\<forall>t. t \<noteq> EbpfEdges \<longrightarrow> ob_rows s' t = ob_rows s t) \<and>
     filter remembered (cu_kv s') = filter remembered (cu_kv s)"

definition confines :: "(string \<times> string) set \<Rightarrow> string set \<Rightarrow> ('x, 'a) cu \<Rightarrow> bool" where
  "confines K D m \<longleftrightarrow> (\<forall>s. ids_ok (rt_logs s) \<and> set (cu_kv s) \<subseteq> K \<longrightarrow>
     ids_ok (rt_logs (snd (m s))) \<and> set (cu_kv (snd (m s))) \<subseteq> K \<and> confined D s (snd (m s)))"

named_theorems conf \<open>operations that touch only what they may\<close>

lemma confined_refl [simp]: "confined D s s"
  by (simp add: confined_def)

lemma confined_trans: "confined D a b \<Longrightarrow> confined D b c \<Longrightarrow> confined D a c"
  by (simp add: confined_def)

lemma confinesI:
  assumes "\<And>s. ids_ok (rt_logs s) \<Longrightarrow> set (cu_kv s) \<subseteq> K \<Longrightarrow>
     ids_ok (rt_logs (snd (m s))) \<and> set (cu_kv (snd (m s))) \<subseteq> K \<and> confined D s (snd (m s))"
  shows "confines K D m"
  using assms by (simp add: confines_def)

lemma confinesD:
  "confines K D m \<Longrightarrow> ids_ok (rt_logs s) \<Longrightarrow> set (cu_kv s) \<subseteq> K \<Longrightarrow>
     ids_ok (rt_logs (snd (m s))) \<and> set (cu_kv (snd (m s))) \<subseteq> K \<and> confined D s (snd (m s))"
  by (simp add: confines_def)

lemma confines_bind [conf]:
  assumes "confines K D m" "\<And>x. confines K D (f x)"
  shows "confines K D (ob_bind m f)"
proof (rule confinesI)
  fix s :: "'a cleanup_db_scheme" assume i: "ids_ok (rt_logs s)" "set (cu_kv s) \<subseteq> K"
  obtain r t where m: "m s = (r, t)" by fastforce
  have t: "ids_ok (rt_logs t)" "set (cu_kv t) \<subseteq> K" "confined D s t" using confinesD [OF assms(1) i] m by simp_all
  show "ids_ok (rt_logs (snd (ob_bind m f s))) \<and> set (cu_kv (snd (ob_bind m f s))) \<subseteq> K \<and> confined D s (snd (ob_bind m f s))"
    using t confinesD [OF assms(2) t(1,2)] confined_trans [OF t(3)] by (cases r) (simp_all add: ob_bind_def m)
qed

lemma confines_return [conf]: "confines K D (ob_return x)"
  by (simp add: confines_def ob_return_def)

lemma confines_call:
  assumes "\<And>s. ids_ok (rt_logs s) \<Longrightarrow> set (cu_kv s) \<subseteq> K \<Longrightarrow>
     ids_ok (rt_logs (snd (m s))) \<and> set (cu_kv (snd (m s))) \<subseteq> K \<and> confined D s (snd (m s))"
  shows "confines K D (store_call m)"
proof (rule confinesI)
  fix s :: "'a cleanup_db_scheme" assume i: "ids_ok (rt_logs s)" "set (cu_kv s) \<subseteq> K"
  let ?s = "s\<lparr>mt_faults := tl (mt_faults s)\<rparr>"
  have "confined D s ?s" by (simp add: confined_def)
  moreover have "ids_ok (rt_logs (snd (m ?s))) \<and> set (cu_kv (snd (m ?s))) \<subseteq> K \<and> confined D ?s (snd (m ?s))"
    by (rule assms) (use i in simp_all)
  ultimately show "ids_ok (rt_logs (snd (store_call m s))) \<and> set (cu_kv (snd (store_call m s))) \<subseteq> K \<and> confined D s (snd (store_call m s))"
    using i confined_trans by (auto simp: store_call_def Let_def split: list.split option.split)
qed

lemma confines_exec:
  assumes "\<And>s. ids_ok (rt_logs s) \<Longrightarrow> set (cu_kv s) \<subseteq> K \<Longrightarrow>
     ids_ok (rt_logs (snd (m s))) \<and> set (cu_kv (snd (m s))) \<subseteq> K \<and> confined D s (snd (m s))"
  shows "confines K D (ob_exec m)"
proof (rule confinesI)
  fix s :: "'a cleanup_db_scheme" assume i: "ids_ok (rt_logs s)" "set (cu_kv s) \<subseteq> K"
  let ?s = "s\<lparr>ob_faults := tl (ob_faults s)\<rparr>"
  have "confined D s ?s" by (simp add: confined_def)
  moreover have "ids_ok (rt_logs (snd (m ?s))) \<and> set (cu_kv (snd (m ?s))) \<subseteq> K \<and> confined D ?s (snd (m ?s))"
    by (rule assms) (use i in simp_all)
  ultimately show "ids_ok (rt_logs (snd (ob_exec m s))) \<and> set (cu_kv (snd (ob_exec m s))) \<subseteq> K \<and> confined D s (snd (ob_exec m s))"
    using i confined_trans by (auto simp: ob_exec_def Let_def split: list.split option.split)
qed

lemma data_id_indexed:
  "to_indexed_filter (data_id_filter k to) = Some (default_indexed_filter\<lparr>if_to_ts := to, if_data_id := Some k, if_limit := 0\<rparr>)"
  by (simp add: data_id_filter_def to_indexed_filter_def default_indexed_filter_def)

lemma data_id_match:
  "indexed_match tok (default_indexed_filter\<lparr>if_to_ts := to, if_data_id := Some k, if_limit := 0\<rparr>) r \<longleftrightarrow>
     i64_min \<le> lr_timestamp r \<and> lr_timestamp r \<le> unwrap_or to i64_max \<and> promoted (lr_labels r) ''data_id'' = k"
  by (auto simp: indexed_match_def default_indexed_filter_def in_range_def term_match_def message_match_def unwrap_or_def)

lemma confines_logs [conf]:
  assumes "k \<in> D"
  shows "confines K D (delete_logs env (data_id_filter k to))"
  unfolding delete_logs_def
proof (rule confines_call)
  fix s :: "'a cleanup_db_scheme" assume i: "ids_ok (rt_logs s)" "set (cu_kv s) \<subseteq> K"
  let ?g = "default_indexed_filter\<lparr>if_to_ts := to, if_data_id := Some k, if_limit := 0\<rparr>"
  obtain r docs where d: "delete_matching (re_tok env) (re_rank env) (data_id_filter k to) (rt_logs s) = (r, docs)" by fastforce
  have "docs = snd (delete_batches (re_tok env) ?g DELETE_BATCH_MAX_ROUNDS 0 (rt_logs s))"
    using d by (auto simp: delete_matching_def data_id_indexed split: prod.splits option.splits)
  then obtain p where p: "docs = filter p (rt_logs s)" "\<forall>r \<in> set (rt_logs s). \<not> p r \<longrightarrow> indexed_match (re_tok env) ?g r"
    using delete_batches_subset [OF i(1)] by metis
  have "ids_ok docs" using i by (auto simp: p(1) ids_ok_def distinct_map_filter)
  moreover have "filter (\<lambda>r. promoted (lr_labels r) ''data_id'' \<notin> D) docs = filter (\<lambda>r. promoted (lr_labels r) ''data_id'' \<notin> D) (rt_logs s)"
    unfolding p(1) filter_filter by (intro filter_cong) (use p(2) assms in \<open>auto simp: data_id_match\<close>)
  ultimately show "ids_ok (rt_logs (snd (let (r, docs) = delete_matching (re_tok env) (re_rank env) (data_id_filter k to) (rt_logs s)
        in (r, s\<lparr>rt_logs := docs\<rparr>)))) \<and>
      set (cu_kv (snd (let (r, docs) = delete_matching (re_tok env) (re_rank env) (data_id_filter k to) (rt_logs s)
        in (r, s\<lparr>rt_logs := docs\<rparr>)))) \<subseteq> K \<and>
      confined D s (snd (let (r, docs) = delete_matching (re_tok env) (re_rank env) (data_id_filter k to) (rt_logs s)
        in (r, s\<lparr>rt_logs := docs\<rparr>)))"
    using i(2) by (simp add: d confined_def)
qed

lemma confines_series [conf]:
  assumes "k \<in> D"
  shows "confines K D (delete_item_series env k to)"
  unfolding delete_item_series_def
proof (rule confines_call)
  fix s :: "'a cleanup_db_scheme" assume i: "ids_ok (rt_logs s)" "set (cu_kv s) \<subseteq> K"
  have "filter (\<lambda>p. bt_get (tp_tags p) ''item_id'' \<notin> Some ` D) (filter (\<lambda>p. \<not> item_point k to p) (mt_points s)) =
      filter (\<lambda>p. bt_get (tp_tags p) ''item_id'' \<notin> Some ` D) (mt_points s)"
    unfolding filter_filter by (intro filter_cong) (use assms in \<open>auto simp: item_point_def\<close>)
  then show "ids_ok (rt_logs (snd (if 0 \<ge> to
        then (Inl \<lparr>de_code = InvalidArgument, de_message = ''from_ts (0) must be earlier than to_ts ('' @ int_dec to @ '')''\<rparr>, s)
        else (Inr (ce_series env k to s), s\<lparr>mt_points := filter (\<lambda>p. \<not> item_point k to p) (mt_points s)\<rparr>)))) \<and>
      set (cu_kv (snd (if 0 \<ge> to
        then (Inl \<lparr>de_code = InvalidArgument, de_message = ''from_ts (0) must be earlier than to_ts ('' @ int_dec to @ '')''\<rparr>, s)
        else (Inr (ce_series env k to s), s\<lparr>mt_points := filter (\<lambda>p. \<not> item_point k to p) (mt_points s)\<rparr>)))) \<subseteq> K \<and>
      confined D s (snd (if 0 \<ge> to
        then (Inl \<lparr>de_code = InvalidArgument, de_message = ''from_ts (0) must be earlier than to_ts ('' @ int_dec to @ '')''\<rparr>, s)
        else (Inr (ce_series env k to s), s\<lparr>mt_points := filter (\<lambda>p. \<not> item_point k to p) (mt_points s)\<rparr>)))"
    using i by (simp add: confined_def)
qed

lemma confines_hits [conf]: "confines K D (note_hits k n)"
  by (simp add: confines_def note_hits_def confined_def)

lemma confines_affected: "confines K D affected_rows"
  unfolding affected_rows_def by (rule confines_exec) simp

lemma confines_first:
  assumes "k \<in> D" "k \<noteq> []"
  shows "confines K D (ob_change EbpfEdges (delete_first n (old_edge k cutoff)))"
  unfolding ob_change_def
proof (rule confines_exec)
  fix s :: "'a cleanup_db_scheme" assume i: "ids_ok (rt_logs s)" "set (cu_kv s) \<subseteq> K"
  let ?p = "old_edge k cutoff"
  obtain rs j where d: "delete_first n ?p (ob_rows s EbpfEdges) = (rs, j)" by fastforce
  have q: "\<forall>d \<in> D. \<not> text_eq r ''data_id'' d \<Longrightarrow> \<not> ?p r" for r using assms by (auto simp: old_edge_def)
  have f: "filter (\<lambda>r. \<forall>d \<in> D. \<not> text_eq r ''data_id'' d) xs =
      filter (\<lambda>r. \<forall>d \<in> D. \<not> text_eq r ''data_id'' d) (filter (\<lambda>r. \<not> ?p r) xs)" for xs
    unfolding filter_filter by (rule filter_cong) (use q in auto)
  have "filter (\<lambda>r. \<forall>d \<in> D. \<not> text_eq r ''data_id'' d) rs = filter (\<lambda>r. \<forall>d \<in> D. \<not> text_eq r ''data_id'' d) (ob_rows s EbpfEdges)"
    using delete_first_eq [OF d] f [of rs] f [of "ob_rows s EbpfEdges"] by simp
  then show "ids_ok (rt_logs (snd (let (rs, n) = delete_first n ?p (ob_rows s EbpfEdges) in (Inr (), set_rows EbpfEdges rs n s)))) \<and>
      set (cu_kv (snd (let (rs, n) = delete_first n ?p (ob_rows s EbpfEdges) in (Inr (), set_rows EbpfEdges rs n s)))) \<subseteq> K \<and>
      confined D s (snd (let (rs, n) = delete_first n ?p (ob_rows s EbpfEdges) in (Inr (), set_rows EbpfEdges rs n s)))"
    using i by (simp add: d set_rows_def confined_def)
qed

lemma confines_edges [conf]:
  assumes "k \<in> D" "k \<noteq> []"
  shows "confines K D (delete_item_edges k cutoff)"
proof (rule confinesI)
  fix s :: "'a cleanup_db_scheme" assume i: "ids_ok (rt_logs s)" "set (cu_kv s) \<subseteq> K"
  have b: "ids_ok (rt_logs (snd (edge_batches n (old_edge k cutoff) fuel rep t))) \<and>
      set (cu_kv (snd (edge_batches n (old_edge k cutoff) fuel rep t))) \<subseteq> K \<and>
      confined D t (snd (edge_batches n (old_edge k cutoff) fuel rep t))"
    if "ids_ok (rt_logs t)" "set (cu_kv t) \<subseteq> K" for n fuel rep and t :: "'a cleanup_db_scheme"
    using that
  proof (induction fuel arbitrary: rep t)
    case 0
    then show ?case by simp
  next
    case (Suc fuel)
    obtain r u where m: "ob_bind (ob_change EbpfEdges (delete_first n (old_edge k cutoff))) (\<lambda>_. affected_rows) t = (r, u)" by fastforce
    have u: "ids_ok (rt_logs u)" "set (cu_kv u) \<subseteq> K" "confined D t u"
      using confinesD [OF confines_bind [OF confines_first [OF assms] confines_affected] Suc.prems, of n cutoff] m by simp_all
    show ?case
    proof (cases r)
      case (Inl e)
      then show ?thesis using u m by simp
    next
      case (Inr j)
      then show ?thesis
        using u Suc.IH [OF u(1,2), of "\<lparr>dr_deleted = dr_deleted rep + j, dr_batches = dr_batches rep + 1\<rparr>"] confined_trans [OF u(3)] m
        by (simp add: Let_def)
    qed
  qed
  have "snd (delete_item_edges k cutoff s) = snd (delete_edges_before k cutoff (Suc (length (ob_rows s EbpfEdges))) s)"
    by (simp add: delete_item_edges_def split: prod.split option.split sum.split)
  then show "ids_ok (rt_logs (snd (delete_item_edges k cutoff s))) \<and> set (cu_kv (snd (delete_item_edges k cutoff s))) \<subseteq> K \<and>
      confined D s (snd (delete_item_edges k cutoff s))"
    using b [OF i] by (simp add: delete_edges_before_def delete_edges_before_batched_def del: edge_batches.simps)
qed

lemma confines_kv:
  assumes "\<And>m. set (snd (f m)) \<subseteq> set m \<and> filter remembered (snd (f m)) = filter remembered m"
  shows "confines K D (kv_call f)"
  unfolding kv_call_def
proof (rule confines_call)
  fix s :: "'b cleanup_db_scheme" assume i: "ids_ok (rt_logs s)" "set (cu_kv s) \<subseteq> K"
  then show "ids_ok (rt_logs (snd (let (r, m) = f (cu_kv s) in (r, s\<lparr>cu_kv := m\<rparr>)))) \<and>
      set (cu_kv (snd (let (r, m) = f (cu_kv s) in (r, s\<lparr>cu_kv := m\<rparr>)))) \<subseteq> K \<and>
      confined D s (snd (let (r, m) = f (cu_kv s) in (r, s\<lparr>cu_kv := m\<rparr>)))"
    using assms [of "cu_kv s"] by (auto simp: confined_def split_beta Let_def)
qed

lemma remembered_remove: "\<not> remembered (k, v) \<Longrightarrow> filter remembered (bt_remove k m) = filter remembered m"
  unfolding bt_remove_def filter_filter by (rule filter_cong) (auto simp: remembered_def)

lemma confines_drop [conf]:
  assumes "starts_with k RETAIN_PREFIX"
  shows "confines K D (cu_delete k)"
  unfolding cu_delete_def
proof (rule confines_kv)
  fix m :: kv
  have "filter remembered (bt_remove k m) = filter remembered m"
    by (rule remembered_remove [of _ "[]"]) (simp add: remembered_def assms)
  then show "set (snd (kv_delete k m)) \<subseteq> set m \<and> filter remembered (snd (kv_delete k m)) = filter remembered m"
    by (auto simp: kv_delete_def bt_remove_def)
qed

text \<open>What a scan returns is in the store.\<close>

lemma scan_subset: "set (scan_prefix p m) \<subseteq> {e \<in> set m. starts_with (fst e) p}"
  unfolding scan_prefix_def by (auto dest!: set_takeWhileD set_dropWhileD)

lemma confines_scan:
  assumes "\<And>rows. set rows \<subseteq> {e \<in> K. starts_with (fst e) p} \<Longrightarrow> confines K D (f rows)"
  shows "confines K D (ob_bind (cu_scan p) f)"
proof (rule confinesI)
  fix s :: "'a cleanup_db_scheme" assume i: "ids_ok (rt_logs s)" "set (cu_kv s) \<subseteq> K"
  have c: "confines K D (cu_scan p)" unfolding cu_scan_def by (rule confines_kv) simp
  obtain r t where m: "cu_scan p s = (r, t)" by fastforce
  have t: "ids_ok (rt_logs t)" "set (cu_kv t) \<subseteq> K" "confined D s t" using confinesD [OF c i] m by simp_all
  show "ids_ok (rt_logs (snd (ob_bind (cu_scan p) f s))) \<and> set (cu_kv (snd (ob_bind (cu_scan p) f s))) \<subseteq> K \<and>
      confined D s (snd (ob_bind (cu_scan p) f s))"
  proof (cases r)
    case (Inl e)
    then show ?thesis using t by (simp add: ob_bind_def m)
  next
    case (Inr rows)
    then have "rows = scan_prefix p (cu_kv s)"
      using m by (auto simp: cu_scan_def kv_call_def store_call_def Let_def split: list.splits option.splits)
    then have "set rows \<subseteq> {e \<in> K. starts_with (fst e) p}" using scan_subset [of p "cu_kv s"] i(2) by auto
    then show ?thesis
      using t confinesD [OF assms t(1,2)] confined_trans [OF t(3)] Inr by (simp add: ob_bind_def m)
  qed
qed

lemma confines_ts_live:
  assumes "li_item_id ` set live \<subseteq> D"
  shows "confines K D (ts_live env g now live rep)"
  using assms by (induction live arbitrary: rep) (auto intro!: conf)

lemma confines_logs_live:
  assumes "li_item_id ` set live \<subseteq> D" "[] \<notin> D"
  shows "confines K D (logs_live env now live n)"
  using assms by (induction live arbitrary: n) (auto intro!: conf)

lemma due_row:
  assumes "(key, v) \<in> K" "after_prefix ''retain/'' (ce_text env key) = Some k" "k \<noteq> []" "ce_until_dec env v = Some until" "\<not> now < until"
  shows "k \<in> due_items env now K"
  using assms unfolding due_items_def by (auto simp: not_less)

lemma confines_ts_retained:
  assumes "set rows \<subseteq> K" "due_items env now K \<subseteq> D"
  shows "confines K D (ts_retained env now rows rep)"
  using assms(1)
proof (induction rows arbitrary: rep)
  case Nil
  then show ?case by (simp add: conf)
next
  case (Cons row rows)
  obtain key v where row: "row = (key, v)" by fastforce
  have IH: "confines K D (ts_retained env now rows rep)" for rep using Cons by simp
  show ?case
  proof (cases "after_prefix ''retain/'' (ce_text env key)")
    case None
    then show ?thesis using IH by (simp add: row)
  next
    case (Some k)
    show ?thesis
    proof (cases "k = [] \<or> ce_until_dec env v = None")
      case True
      then show ?thesis using IH Some by (auto simp: row)
    next
      case False
      then obtain until where u: "ce_until_dec env v = Some until" "k \<noteq> []" by auto
      show ?thesis
      proof (cases "now < until")
        case True
        then show ?thesis using IH Some u by (simp add: row)
      next
        case late: False
        have "k \<in> D" using due_row [OF _ Some u(2) u(1) late] Cons.prems row assms(2) by auto
        then show ?thesis using IH Some u by (auto simp: row intro!: conf)
      qed
    qed
  qed
qed

lemma confines_logs_retained:
  assumes "set rows \<subseteq> {e \<in> K. starts_with (fst e) RETAIN_PREFIX}" "due_items env now K \<subseteq> D"
  shows "confines K D (logs_retained env now rows n)"
  using assms(1)
proof (induction rows arbitrary: n)
  case Nil
  then show ?case by (simp add: conf)
next
  case (Cons row rows)
  obtain key v where row: "row = (key, v)" by fastforce
  have IH: "confines K D (logs_retained env now rows n)" for n using Cons by simp
  have pre: "starts_with key RETAIN_PREFIX" "(key, v) \<in> K" using Cons.prems row by auto
  show ?case
  proof (cases "after_prefix ''retain/'' (ce_text env key)")
    case None
    then show ?thesis using IH by (simp add: row)
  next
    case (Some k)
    show ?thesis
    proof (cases "k = [] \<or> ce_until_dec env v = None")
      case True
      then show ?thesis using IH [of n] Some by (auto simp: row)
    next
      case False
      then obtain until where u: "ce_until_dec env v = Some until" "k \<noteq> []" by auto
      show ?thesis
      proof (cases "now < until")
        case True
        then show ?thesis using IH Some u by (simp add: row)
      next
        case late: False
        have "k \<in> D" using due_row [OF pre(2) Some u(2) u(1) late] assms(2) by auto
        then show ?thesis using IH Some u late pre by (simp add: row conf)
      qed
    qed
  qed
qed

lemma due_not_empty: "[] \<notin> due_items env now K"
  by (simp add: due_items_def)

lemma confines_prune: "confines K D (prune_ingest days now)"
proof (cases "days > 0")
  case True
  have "set (snd (prune_prefix_before INGEST_PREFIX c m)) \<subseteq> set m \<and>
      filter remembered (snd (prune_prefix_before INGEST_PREFIX c m)) = filter remembered m" for c m
  proof -
    let ?e = "\<lambda>(k, v). INGEST_PREFIX \<le> k \<and> starts_with k INGEST_PREFIX \<and> (case micros_of v of None \<Rightarrow> True | Some t \<Rightarrow> t < c)"
    have "snd (prune_prefix_before INGEST_PREFIX c m) = filter (\<lambda>e. \<not> ?e e) m" by (simp add: prune_prefix_before_def Let_def)
    moreover have "filter remembered (filter (\<lambda>e. \<not> ?e e) m) = filter remembered m"
      unfolding filter_filter by (rule filter_cong) (auto simp: remembered_def)
    ultimately show ?thesis by auto
  qed
  then show ?thesis using True unfolding prune_ingest_def by (simp add: confines_kv split_beta Let_def)
next
  case False
  then show ?thesis by (simp add: prune_ingest_def conf)
qed

text \<open>The two phases, with a list or without one.\<close>

lemma confines_phases:
  assumes "li_item_id ` set live \<subseteq> D" "due_items env now K \<subseteq> D" "[] \<notin> D"
  shows "confines K D (ob_bind (apply_ts_retention env live g now) (\<lambda>ts. ob_bind (apply_retention env live now) (\<lambda>n.
      ob_bind (prune_ingest days now) (\<lambda>k. ob_return (f ts n k)))))"
  unfolding apply_ts_retention_def apply_retention_def
  by (intro confines_bind confines_ts_live confines_logs_live confines_scan confines_prune confines_return
      confines_ts_retained confines_logs_retained assms) (auto intro: assms)

section \<open>Marking without a fault\<close>

lemma kv_call_ok: "mt_faults s = [] \<Longrightarrow> kv_call f s = (fst (f (cu_kv s)), s\<lparr>cu_kv := snd (f (cu_kv s))\<rparr>)"
  by (simp add: kv_call_def store_call_ok split_beta Let_def)

lemma cu_set_ok: "mt_faults s = [] \<Longrightarrow> cu_set k v s = (Inr (), s\<lparr>cu_kv := kv_set k v (cu_kv s)\<rparr>)"
  by (simp add: cu_set_def kv_call_ok)

lemma cu_delete_ok:
  "mt_faults s = [] \<Longrightarrow> kv_exists k (cu_kv s) \<Longrightarrow> cu_delete k s = (Inr (), s\<lparr>cu_kv := snd (kv_delete k (cu_kv s))\<rparr>)"
  by (auto simp: cu_delete_def kv_call_ok kv_delete_def kv_exists_def is_some_def split: option.splits)

lemma cu_exists_ok: "mt_faults s = [] \<Longrightarrow> cu_exists k s = (Inr (kv_exists k (cu_kv s)), s)"
  by (simp add: cu_exists_def kv_call_ok)

lemma cu_scan_ok: "mt_faults s = [] \<Longrightarrow> cu_scan p s = (Inr (scan_prefix p (cu_kv s)), s)"
  by (simp add: cu_scan_def kv_call_ok)

lemma kv_exists_get: "kv_exists k m \<longleftrightarrow> (\<exists>v. kv_get k m = Inr v)"
  by (auto simp: kv_exists_def kv_get_def is_some_def split: option.splits)

lemma keys_apart [simp]: "live_key a \<noteq> retain_key b" "retain_key b \<noteq> live_key a" "live_key a = live_key b \<longleftrightarrow> a = b"
    "retain_key a = retain_key b \<longleftrightarrow> a = b"
  by (simp_all add: live_key_def retain_key_def)

lemma after_live_key: "after_prefix ''spec-live/'' (live_key k) = Some k"
  by (simp add: after_prefix_def live_key_def starts_with_def)

lemma live_keyD:
  assumes "starts_with k LIVE_PREFIX"
  shows "\<exists>x. k = live_key x"
proof -
  have "k = take (length LIVE_PREFIX) k @ drop (length LIVE_PREFIX) k" by simp
  then have "k = LIVE_PREFIX @ drop (length LIVE_PREFIX) k" using assms by (simp only: starts_with_def)
  then show ?thesis unfolding live_key_def LIVE_PREFIX_def by (rule exI)
qed

lemma retain_keyD:
  assumes "starts_with k RETAIN_PREFIX"
  shows "\<exists>x. k = retain_key x"
proof -
  have "k = take (length RETAIN_PREFIX) k @ drop (length RETAIN_PREFIX) k" by simp
  then have "k = RETAIN_PREFIX @ drop (length RETAIN_PREFIX) k" using assms by (simp only: starts_with_def)
  then show ?thesis unfolding retain_key_def RETAIN_PREFIX_def by (rule exI)
qed

definition gone_date :: "'x cleanup_env \<Rightarrow> int \<Rightarrow> string \<Rightarrow> string" where
  "gone_date env now v = ce_until_enc env (deletion_date now (clamp_item_days (unwrap_or (ce_live_dec env v) 1)))"

text \<open>One removed item: its date is set and it is forgotten.\<close>

definition move_out :: "'x cleanup_env \<Rightarrow> int \<Rightarrow> string \<Rightarrow> string \<Rightarrow> kv \<Rightarrow> kv" where
  "move_out env now k v m = snd (kv_delete (live_key k) (kv_set (retain_key k) (gone_date env now v) m))"

lemma move_out_get:
  "kv_get x (move_out env now k v m) = (if x = live_key k then Inl key_not_found else if x = retain_key k then Inr (gone_date env now v) else kv_get x m)"
  by (auto simp: move_out_def kv_delete_exact kv_get_set kv_get_set_other)

lemma mark_gone_step:
  assumes "mt_faults s = []" "ce_text env (live_key k) = live_key k" "k \<noteq> []" "k \<notin> set ids" "kv_exists (live_key k) (cu_kv s)"
  shows "mark_gone env ids now ((live_key k, v) # rows) n s =
    mark_gone env ids now rows (n + 1) (s\<lparr>cu_kv := move_out env now k v (cu_kv s)\<rparr>)"
proof -
  let ?s = "s\<lparr>cu_kv := kv_set (retain_key k) (gone_date env now v) (cu_kv s)\<rparr>"
  have "kv_exists (live_key k) (cu_kv ?s)" using assms(5) by (simp add: kv_exists_set)
  then have d: "cu_delete (live_key k) ?s = (Inr (), s\<lparr>cu_kv := move_out env now k v (cu_kv s)\<rparr>)"
    using assms(1) by (simp add: cu_delete_ok move_out_def)
  show ?thesis
    using assms d by (simp add: after_live_key ob_bind_def cu_set_ok Let_def gone_date_def)
qed

lemma mark_gone_spec:
  assumes "mt_faults s = []" "\<forall>(key, v) \<in> set rows. (\<exists>k. key = live_key k) \<and> ce_text env key = key \<and> kv_get key (cu_kv s) = Inr v"
    and "distinct (map fst rows)"
  shows "\<exists>n' m. mark_gone env ids now rows n s = (Inr n', s\<lparr>cu_kv := m\<rparr>) \<and>
    (\<forall>k. k \<noteq> [] \<and> k \<notin> set ids \<longrightarrow>
      kv_get (live_key k) m = (if map_of rows (live_key k) = None then kv_get (live_key k) (cu_kv s) else Inl key_not_found) \<and>
      kv_get (retain_key k) m = (case map_of rows (live_key k) of Some v \<Rightarrow> Inr (gone_date env now v) | None \<Rightarrow> kv_get (retain_key k) (cu_kv s)))"
  using assms
proof (induction rows arbitrary: n s)
  case Nil
  then show ?case by (intro exI [of _ n] exI [of _ "cu_kv s"]) (simp add: ob_return_def)
next
  case (Cons row rows)
  obtain k v where row: "row = (live_key k, v)" "ce_text env (live_key k) = live_key k" "kv_get (live_key k) (cu_kv s) = Inr v"
    using Cons.prems(2) by (cases row) auto
  show ?case
  proof (cases "k = [] \<or> k \<in> set ids")
    case True
    then have "mark_gone env ids now (row # rows) n s = mark_gone env ids now rows n s" by (auto simp: row after_live_key)
    moreover have "map_of (row # rows) (live_key x) = map_of rows (live_key x)" if "x \<noteq> [] \<and> x \<notin> set ids" for x
      using that True row by auto
    ultimately show ?thesis using Cons.IH [of s n] Cons.prems by simp
  next
    case False
    let ?s = "s\<lparr>cu_kv := move_out env now k v (cu_kv s)\<rparr>"
    have e: "kv_exists (live_key k) (cu_kv s)" using row(3) by (auto simp: kv_exists_get)
    have step: "mark_gone env ids now (row # rows) n s = mark_gone env ids now rows (n + 1) ?s"
      using mark_gone_step [OF Cons.prems(1) row(2) _ _ e] False row(1) by simp
    have fresh: "map_of rows (live_key k) = None" using Cons.prems(3) row(1) by (simp add: map_of_eq_None_iff)
    have "\<forall>(key, v) \<in> set rows. (\<exists>k. key = live_key k) \<and> ce_text env key = key \<and> kv_get key (cu_kv ?s) = Inr v"
    proof (intro ballI, unfold split_beta, intro conjI)
      fix e assume e: "e \<in> set rows"
      then obtain x where x: "fst e = live_key x" "ce_text env (fst e) = fst e" "kv_get (fst e) (cu_kv s) = Inr (snd e)"
        using Cons.prems(2) by fastforce
      then show "\<exists>x. fst e = live_key x" "ce_text env (fst e) = fst e" by blast+
      have "x \<noteq> k" using e Cons.prems(3) row(1) x(1) by force
      then show "kv_get (fst e) (cu_kv ?s) = Inr (snd e)" using x by (simp add: move_out_get)
    qed
    from Cons.IH [OF _ this, of "n + 1"] obtain n' m where m: "mark_gone env ids now rows (n + 1) ?s = (Inr n', ?s\<lparr>cu_kv := m\<rparr>)"
        "\<And>x. x \<noteq> [] \<and> x \<notin> set ids \<Longrightarrow>
          kv_get (live_key x) m = (if map_of rows (live_key x) = None then kv_get (live_key x) (cu_kv ?s) else Inl key_not_found) \<and>
          kv_get (retain_key x) m = (case map_of rows (live_key x) of Some v \<Rightarrow> Inr (gone_date env now v) | None \<Rightarrow> kv_get (retain_key x) (cu_kv ?s))"
      using Cons.prems by auto
    have "kv_get (live_key x) m = (if map_of (row # rows) (live_key x) = None then kv_get (live_key x) (cu_kv s) else Inl key_not_found) \<and>
        kv_get (retain_key x) m = (case map_of (row # rows) (live_key x) of Some v \<Rightarrow> Inr (gone_date env now v) | None \<Rightarrow> kv_get (retain_key x) (cu_kv s))"
      if "x \<noteq> [] \<and> x \<notin> set ids" for x
      using m(2) [OF that] fresh by (cases "x = k") (simp_all add: row(1) move_out_get split: option.split)
    then show ?thesis using step m(1) by (intro exI [of _ n'] exI [of _ m]) simp
  qed
qed

lemma map_of_filter_key: "p k \<Longrightarrow> map_of (filter (\<lambda>e. p (fst e)) m) k = map_of m k"
  by (induction m) auto

lemma mark_live_spec:
  assumes "mt_faults s = []" "distinct (map li_item_id live)"
  shows "\<exists>m. mark_live env live s = (Inr (), s\<lparr>cu_kv := m\<rparr>) \<and>
    (\<forall>i \<in> set live. kv_get (live_key (li_item_id i)) m = Inr (ce_live_enc env (li_retention_days i)) \<and>
       kv_get (retain_key (li_item_id i)) m = Inl key_not_found) \<and>
    (\<forall>k. k \<notin> li_item_id ` set live \<longrightarrow> kv_get (live_key k) m = kv_get (live_key k) (cu_kv s) \<and>
       kv_get (retain_key k) m = kv_get (retain_key k) (cu_kv s))"
  using assms
proof (induction live arbitrary: s)
  case Nil
  then show ?case by (intro exI [of _ "cu_kv s"]) (simp add: ob_return_def)
next
  case (Cons i live)
  let ?k = "li_item_id i"
  let ?m = "if kv_exists (retain_key ?k) (cu_kv s) then snd (kv_delete (retain_key ?k) (cu_kv s)) else cu_kv s"
  let ?m' = "kv_set (live_key ?k) (ce_live_enc env (li_retention_days i)) ?m"
  have d: "(if kv_exists (retain_key ?k) (cu_kv s) then cu_delete (retain_key ?k) else ob_return ()) s = (Inr (), s\<lparr>cu_kv := ?m\<rparr>)"
    using Cons.prems(1) by (simp add: cu_delete_ok ob_return_def)
  have step: "mark_live env (i # live) s = mark_live env live (s\<lparr>cu_kv := ?m'\<rparr>)"
    using Cons.prems(1) d by (simp add: ob_bind_def cu_exists_ok cu_set_ok)
  have r: "kv_get (retain_key ?k) ?m = Inl key_not_found"
  proof (cases "kv_exists (retain_key ?k) (cu_kv s)")
    case True
    then show ?thesis by (simp add: kv_delete_exact)
  next
    case False
    then show ?thesis by (simp add: kv_exists_def is_some_def kv_get_def split: option.splits)
  qed
  have o: "kv_get x ?m = kv_get x (cu_kv s)" if "x \<noteq> retain_key ?k" for x using that by (simp add: kv_delete_exact)
  obtain m where m: "mark_live env live (s\<lparr>cu_kv := ?m'\<rparr>) = (Inr (), s\<lparr>cu_kv := m\<rparr>)"
      "\<forall>i \<in> set live. kv_get (live_key (li_item_id i)) m = Inr (ce_live_enc env (li_retention_days i)) \<and>
         kv_get (retain_key (li_item_id i)) m = Inl key_not_found"
      "\<forall>k. k \<notin> li_item_id ` set live \<longrightarrow> kv_get (live_key k) m = kv_get (live_key k) ?m' \<and> kv_get (retain_key k) m = kv_get (retain_key k) ?m'"
    using Cons.IH [of "s\<lparr>cu_kv := ?m'\<rparr>"] Cons.prems by auto
  have k: "?k \<notin> li_item_id ` set live" using Cons.prems(2) by simp
  show ?case
  proof (intro exI [of _ m] conjI ballI allI impI)
    show "mark_live env (i # live) s = (Inr (), s\<lparr>cu_kv := m\<rparr>)" using step m(1) by simp
  next
    fix j assume j: "j \<in> set (i # live)"
    show "kv_get (live_key (li_item_id j)) m = Inr (ce_live_enc env (li_retention_days j))"
      using j m(2,3) k by (cases "j = i") (auto simp: kv_get_set)
    show "kv_get (retain_key (li_item_id j)) m = Inl key_not_found"
      using j m(2,3) k r by (cases "j = i") (auto simp: kv_get_set_other)
  next
    fix x assume x: "x \<notin> li_item_id ` set (i # live)"
    show "kv_get (live_key x) m = kv_get (live_key x) (cu_kv s)" "kv_get (retain_key x) m = kv_get (retain_key x) (cu_kv s)"
      using x m(3) o by (simp_all add: kv_get_set_other)
  qed
qed

section \<open>Deleting without a fault\<close>

definition expired :: "int \<Rightarrow> live_item list \<Rightarrow> log_record \<Rightarrow> bool" where
  "expired now live r \<longleftrightarrow> list_ex (\<lambda>i. promoted (lr_labels r) ''data_id'' = li_item_id i \<and>
     lr_timestamp r \<le> item_cutoff now (li_retention_days i)) live"

definition in_i64 :: "log_record list \<Rightarrow> bool" where
  "in_i64 docs \<longleftrightarrow> list_all (\<lambda>r. i64_min \<le> lr_timestamp r \<and> lr_timestamp r \<le> i64_max) docs"

lemma delete_item_logs:
  assumes "quiet s" "in_i64 (rt_logs s)"
  shows "\<exists>n docs. delete_logs env (data_id_filter k to) s = (Inr n, s\<lparr>rt_logs := docs\<rparr>) \<and>
    docs = filter (\<lambda>r. \<not> (promoted (lr_labels r) ''data_id'' = k \<and> lr_timestamp r \<le> unwrap_or to i64_max)) (rt_logs s)"
proof -
  let ?g = "default_indexed_filter\<lparr>if_to_ts := to, if_data_id := Some k, if_limit := 0\<rparr>"
  have l: "length (filter (indexed_match (re_tok env) ?g) (rt_logs s)) < DELETE_BATCH_MAX_ROUNDS * DELETE_BATCH_LIMIT"
    using assms(1) length_filter_le [of "indexed_match (re_tok env) ?g" "rt_logs s"] unfolding quiet_def by linarith
  have i: "ids_ok (rt_logs s)" "mt_faults s = []" using assms(1) by (simp_all add: quiet_def)
  have "filter (\<lambda>r. \<not> indexed_match (re_tok env) ?g r) (rt_logs s) =
      filter (\<lambda>r. \<not> (promoted (lr_labels r) ''data_id'' = k \<and> lr_timestamp r \<le> unwrap_or to i64_max)) (rt_logs s)"
    by (rule filter_cong) (use assms(2) in \<open>auto simp: data_id_match in_i64_def list_all_iff\<close>)
  then show ?thesis
    using delete_batches_exact [OF i(1) l, of 0] i(2)
    by (simp add: delete_logs_def store_call_ok delete_matching_def data_id_indexed)
qed

lemma quiet_fewer: "quiet s \<Longrightarrow> quiet (s\<lparr>rt_logs := filter p (rt_logs s)\<rparr>)"
  using le_less_trans [OF length_filter_le [of p "rt_logs s"]] by (auto simp: quiet_def ids_ok_def distinct_map_filter)

lemma in_i64_filter: "in_i64 docs \<Longrightarrow> in_i64 (filter p docs)"
  by (auto simp: in_i64_def list_all_iff)

text \<open>The edges go completely, and the rest of the state stays.\<close>

lemma edge_batches_logs:
  "rt_logs (snd (edge_batches n p fuel rep s)) = rt_logs s \<and> cu_kv (snd (edge_batches n p fuel rep s)) = cu_kv s \<and>
   (mt_faults (snd (edge_batches n p fuel rep s)) = mt_faults s) \<and> (ob_faults s = [] \<longrightarrow> ob_faults (snd (edge_batches n p fuel rep s)) = [])"
proof (induction fuel arbitrary: rep s)
  case 0
  then show ?case by simp
next
  case (Suc fuel)
  have ch: "rt_logs (snd (ob_change EbpfEdges f t)) = rt_logs t \<and> cu_kv (snd (ob_change EbpfEdges f t)) = cu_kv t \<and>
      mt_faults (snd (ob_change EbpfEdges f t)) = mt_faults t \<and> (ob_faults t = [] \<longrightarrow> ob_faults (snd (ob_change EbpfEdges f t)) = [])"
    for f and t :: "'a cleanup_db_scheme"
    by (auto simp: ob_change_def ob_exec_def Let_def set_rows_def split_beta split: list.split option.split)
  have af: "rt_logs (snd (affected_rows t)) = rt_logs t \<and> cu_kv (snd (affected_rows t)) = cu_kv t \<and>
      mt_faults (snd (affected_rows t)) = mt_faults t \<and> (ob_faults t = [] \<longrightarrow> ob_faults (snd (affected_rows t)) = [])"
    for t :: "'a cleanup_db_scheme"
    by (auto simp: affected_rows_def ob_exec_def Let_def split: list.split option.split)
  obtain r u where m: "ob_bind (ob_change EbpfEdges (delete_first n p)) (\<lambda>_. affected_rows) s = (r, u)" by fastforce
  have u: "rt_logs u = rt_logs s \<and> cu_kv u = cu_kv s \<and> mt_faults u = mt_faults s \<and> (ob_faults s = [] \<longrightarrow> ob_faults u = [])"
  proof -
    obtain r1 u1 where c: "ob_change EbpfEdges (delete_first n p) s = (r1, u1)" by fastforce
    show ?thesis
      using m c ch [of "delete_first n p" s] af [of u1] by (cases r1) (auto simp: ob_bind_def)
  qed
  then show ?case using m Suc.IH [of _ u] by (cases r) (auto simp: Let_def)
qed

lemma item_edges_end:
  assumes "quiet s"
  shows "\<exists>n s'. delete_item_edges k c s = (Inr n, s') \<and> rt_logs s' = rt_logs s \<and> cu_kv s' = cu_kv s \<and> quiet s' \<and>
    ob_rows s' EbpfEdges = filter (\<lambda>r. \<not> old_edge k c r) (ob_rows s EbpfEdges)"
proof -
  let ?fuel = "Suc (length (ob_rows s EbpfEdges))" and ?l = "nat (max BATCH_SIZE 1)" and ?rep = "\<lparr>dr_deleted = 0, dr_batches = 0\<rparr>"
  have q: "ob_faults s = []" using assms by (simp add: quiet_def)
  have "length (filter (old_edge k c) (ob_rows s EbpfEdges)) \<le> length (ob_rows s EbpfEdges)" by (rule length_filter_le)
  then have "length (filter (old_edge k c) (ob_rows s EbpfEdges)) < ?fuel * 1000" by (simp only: mult_Suc)
  moreover have "?l = 1000" by (simp add: BATCH_SIZE_def)
  ultimately have "length (filter (old_edge k c) (ob_rows s EbpfEdges)) < ?fuel * ?l" by (simp only:)
  then obtain rep s' where e: "edge_batches ?l (old_edge k c) ?fuel ?rep s = (Some (Inr rep), s')"
      "ob_rows s' EbpfEdges = filter (\<lambda>r. \<not> old_edge k c r) (ob_rows s EbpfEdges)"
    using edge_batches_exact [OF q, of ?l "old_edge k c" ?fuel ?rep] by (auto simp: BATCH_SIZE_def simp del: edge_batches.simps)
  moreover have "delete_item_edges k c s = (Inr (dr_deleted rep), s')"
    using e(1) by (simp add: delete_item_edges_def delete_edges_before_def delete_edges_before_batched_def del: edge_batches.simps)
  moreover have "rt_logs s' = rt_logs s \<and> cu_kv s' = cu_kv s \<and> mt_faults s' = mt_faults s \<and> ob_faults s' = []"
    using edge_batches_logs [of ?l "old_edge k c" ?fuel ?rep s] e(1) q by simp
  ultimately show ?thesis using assms by (simp add: quiet_def)
qed

lemma logs_live_exact:
  assumes "quiet s" "in_i64 (rt_logs s)"
  shows "\<exists>n' s'. logs_live env now live n s = (Inr n', s') \<and> quiet s' \<and> cu_kv s' = cu_kv s \<and>
    rt_logs s' = filter (\<lambda>r. \<not> expired now live r) (rt_logs s)"
  using assms
proof (induction live arbitrary: n s)
  case Nil
  then show ?case by (simp add: ob_return_def expired_def)
next
  case (Cons i live)
  let ?c = "item_cutoff now (li_retention_days i)"
  let ?docs = "filter (\<lambda>r. \<not> (promoted (lr_labels r) ''data_id'' = li_item_id i \<and> lr_timestamp r \<le> ?c)) (rt_logs s)"
  obtain d where d: "delete_logs (ce_rt env) (data_id_filter (li_item_id i) (Some ?c)) s = (Inr d, s\<lparr>rt_logs := ?docs\<rparr>)"
    using delete_item_logs [OF Cons.prems, of "ce_rt env" "li_item_id i" "Some ?c"] by (auto simp: unwrap_or_def)
  have q: "quiet (s\<lparr>rt_logs := ?docs\<rparr>)" by (rule quiet_fewer [OF Cons.prems(1)])
  obtain e s1 where e: "(if is_ebpf i then delete_item_edges (li_item_id i) ?c else ob_return 0) (s\<lparr>rt_logs := ?docs\<rparr>) = (Inr e, s1)"
      "rt_logs s1 = ?docs" "cu_kv s1 = cu_kv s" "quiet s1"
    using item_edges_end [OF q, of "li_item_id i" ?c] q by (cases "is_ebpf i") (auto simp: ob_return_def)
  have i: "in_i64 (rt_logs s1)" unfolding e(2) by (rule in_i64_filter [OF Cons.prems(2)])
  obtain n' s' where r: "logs_live env now live (fst n + d, snd n + e) s1 = (Inr n', s')" "quiet s'" "cu_kv s' = cu_kv s1"
      "rt_logs s' = filter (\<lambda>r. \<not> expired now live r) (rt_logs s1)"
    using Cons.IH [OF e(4) i, of "(fst n + d, snd n + e)"] by (elim exE conjE)
  have "logs_live env now (i # live) n s = (Inr n', s')" 
    unfolding logs_live.simps ob_bind_def [of "delete_logs _ _"] d using e(1) r(1) by (simp only: prod.case sum.case ob_bind_def)
  moreover have "rt_logs s' = filter (\<lambda>r. \<not> expired now (i # live) r) (rt_logs s)"
    unfolding r(4) e(2) filter_filter by (rule filter_cong) (auto simp: expired_def)
  ultimately show ?case using r(2,3) e(3) by (intro exI [of _ n'] exI [of _ s'] conjI) simp_all
qed


text \<open>The items of scanned entries whose date has come.\<close>

definition due_rows :: "'x cleanup_env \<Rightarrow> int \<Rightarrow> (string \<times> string) list \<Rightarrow> string set" where
  "due_rows env now rows = due_items env now (set rows)"

lemma due_rows_Cons:
  assumes "key = retain_key k" "ce_text env key = key"
  shows "due_rows env now ((key, v) # rows) =
    (if k \<noteq> [] \<and> (\<exists>u. ce_until_dec env v = Some u \<and> u \<le> now) then insert k (due_rows env now rows) else due_rows env now rows)"
proof -
  have "after_prefix ''retain/'' (ce_text env key) = Some k" by (simp add: assms(2)) (simp add: after_prefix_def assms(1) retain_key_def starts_with_def)
  then show ?thesis by (auto simp: due_rows_def due_items_def)
qed

lemma logs_retained_exact:
  assumes "quiet s" "in_i64 (rt_logs s)" "distinct (map fst rows)"
    and "\<forall>e \<in> set rows. (\<exists>k. fst e = retain_key k) \<and> ce_text env (fst e) = fst e \<and> kv_exists (fst e) (cu_kv s)"
  shows "\<exists>n' s'. logs_retained env now rows n s = (Inr n', s') \<and>
    rt_logs s' = filter (\<lambda>r. promoted (lr_labels r) ''data_id'' \<notin> due_rows env now rows) (rt_logs s)"
  using assms
proof (induction rows arbitrary: n s)
  case Nil
  then show ?case by (simp add: ob_return_def due_rows_def due_items_def)
next
  case (Cons row rows)
  obtain k v where row: "row = (retain_key k, v)" "ce_text env (retain_key k) = retain_key k" "kv_exists (retain_key k) (cu_kv s)"
    using Cons.prems(4) by (cases row) auto
  note due = due_rows_Cons [OF refl row(2), of now v rows]
  have pre: "after_prefix ''retain/'' (retain_key k) = Some k" by (simp add: after_prefix_def retain_key_def starts_with_def)
  show ?case
  proof (cases "k \<noteq> [] \<and> (\<exists>u. ce_until_dec env v = Some u \<and> u \<le> now)")
    case False
    have "logs_retained env now (row # rows) n s = logs_retained env now rows n s"
      using False by (cases "ce_until_dec env v") (auto simp: row pre not_le)
    moreover have "due_rows env now (row # rows) = due_rows env now rows" using False due row(1) by (simp only: if_False)
    ultimately show ?thesis using Cons.IH [of s n] Cons.prems by simp
  next
    case True
    then obtain u where u: "k \<noteq> []" "ce_until_dec env v = Some u" "\<not> now < u" by auto
    let ?docs = "filter (\<lambda>r. \<not> (promoted (lr_labels r) ''data_id'' = k \<and> lr_timestamp r \<le> i64_max)) (rt_logs s)"
    obtain d where d: "delete_logs (ce_rt env) (data_id_filter k None) s = (Inr d, s\<lparr>rt_logs := ?docs\<rparr>)"
      using delete_item_logs [OF Cons.prems(1,2), of "ce_rt env" k None] by (auto simp: unwrap_or_def)
    have "quiet (s\<lparr>rt_logs := ?docs\<rparr>)" by (rule quiet_fewer [OF Cons.prems(1)])
    from item_edges_end [OF this, of k now] obtain e s1 where
        e: "delete_item_edges k now (s\<lparr>rt_logs := ?docs\<rparr>) = (Inr e, s1)" "rt_logs s1 = ?docs" "cu_kv s1 = cu_kv s" "quiet s1"
      by (elim exE conjE) simp
    let ?s2 = "s1\<lparr>cu_kv := snd (kv_delete (retain_key k) (cu_kv s1))\<rparr>"
    have k: "cu_delete (retain_key k) s1 = (Inr (), ?s2)" by (rule cu_delete_ok) (use e(3,4) row(3) in \<open>simp_all add: quiet_def\<close>)
    have q2: "quiet ?s2" "in_i64 (rt_logs ?s2)" using e(4) in_i64_filter [OF Cons.prems(2)] by (simp_all add: quiet_def e(2))
    have here: "\<forall>x \<in> set rows. (\<exists>k. fst x = retain_key k) \<and> ce_text env (fst x) = fst x \<and> kv_exists (fst x) (cu_kv ?s2)"
    proof (intro ballI conjI)
      fix x assume x: "x \<in> set rows"
      then show "\<exists>k. fst x = retain_key k" "ce_text env (fst x) = fst x" using Cons.prems(4) by auto
      have "fst x \<noteq> retain_key k" using x Cons.prems(3) row(1) by force
      moreover have "kv_exists (fst x) (cu_kv s)" using x Cons.prems(4) by auto
      ultimately show "kv_exists (fst x) (cu_kv ?s2)" by (auto simp: kv_exists_get kv_delete_exact e(3))
    qed
    obtain n' s' where r: "logs_retained env now rows (fst n + d, snd n + e) ?s2 = (Inr n', s')"
        "rt_logs s' = filter (\<lambda>r. promoted (lr_labels r) ''data_id'' \<notin> due_rows env now rows) (rt_logs ?s2)"
      using Cons.IH [OF q2 _ here, of "(fst n + d, snd n + e)"] Cons.prems(3) by auto
    have "logs_retained env now (row # rows) n s = (Inr n', s')"
      using u d e(1) k r(1) by (simp add: row pre ob_bind_def)
    moreover have "rt_logs s' = filter (\<lambda>r. promoted (lr_labels r) ''data_id'' \<notin> due_rows env now (row # rows)) (rt_logs s)"
    proof -
      have "due_rows env now (row # rows) = insert k (due_rows env now rows)" unfolding row(1) due using True by (rule if_P)
      then show ?thesis
        unfolding r(2) using Cons.prems(2) by (auto simp: e(2) in_i64_def list_all_iff intro!: filter_cong)
    qed
    ultimately show ?thesis by blast
  qed
qed

lemma retention_run_exact:
  assumes "quiet s" "in_i64 (rt_logs s)" "bt_ok (cu_kv s)"
    and "\<forall>e \<in> set (cu_kv s). starts_with (fst e) RETAIN_PREFIX \<longrightarrow> ce_text env (fst e) = fst e"
  shows "\<exists>n s'. apply_retention env live now s = (Inr n, s') \<and>
    rt_logs s' = filter (\<lambda>r. \<not> expired now live r \<and>
      promoted (lr_labels r) ''data_id'' \<notin> due_rows env now (scan_prefix RETAIN_PREFIX (cu_kv s))) (rt_logs s)"
proof -
  let ?rows = "scan_prefix RETAIN_PREFIX (cu_kv s)"
  obtain n s1 where l: "logs_live env now live (0, 0) s = (Inr n, s1)" "quiet s1" "cu_kv s1 = cu_kv s"
      "rt_logs s1 = filter (\<lambda>r. \<not> expired now live r) (rt_logs s)"
    using logs_live_exact [OF assms(1,2), of env now live "(0, 0)"] by (elim exE conjE)
  have rows: "?rows = filter (\<lambda>e. starts_with (fst e) RETAIN_PREFIX) (cu_kv s)" by (rule scan_prefix_exact [OF assms(3)])
  have d: "distinct (map fst (cu_kv s))" using assms(3) by (simp add: bt_ok_def strict_sorted_iff)
  then have dr: "distinct (map fst ?rows)" unfolding rows by (rule distinct_map_filter)
  have k: "\<forall>e \<in> set ?rows. (\<exists>k. fst e = retain_key k) \<and> ce_text env (fst e) = fst e \<and> kv_exists (fst e) (cu_kv s1)"
  proof (intro ballI conjI)
    fix e assume "e \<in> set ?rows"
    then have e: "e \<in> set (cu_kv s)" "starts_with (fst e) RETAIN_PREFIX" unfolding rows by auto
    show "\<exists>k. fst e = retain_key k" using retain_keyD [OF e(2)] .
    show "ce_text env (fst e) = fst e" using assms(4) e by blast
    have "bt_get (cu_kv s) (fst e) = Some (snd e)" using e(1) d by (simp add: bt_get_def)
    then show "kv_exists (fst e) (cu_kv s1)" by (simp add: l(3) kv_exists_def is_some_def)
  qed
  have i: "in_i64 (rt_logs s1)" unfolding l(4) by (rule in_i64_filter [OF assms(2)])
  obtain n' s' where r: "logs_retained env now ?rows n s1 = (Inr n', s')"
      "rt_logs s' = filter (\<lambda>r. promoted (lr_labels r) ''data_id'' \<notin> due_rows env now ?rows) (rt_logs s1)"
    using logs_retained_exact [OF l(2) i dr k, of now n] by (elim exE conjE)
  have sc: "cu_scan RETAIN_PREFIX s1 = (Inr ?rows, s1)" using l(2,3) by (simp add: cu_scan_ok quiet_def)
  have "apply_retention env live now s = (Inr n', s')"
    unfolding apply_retention_def ob_bind_def l(1) prod.case sum.case sc r(1) ..
  moreover have "rt_logs s' = filter (\<lambda>r. \<not> expired now live r \<and> promoted (lr_labels r) ''data_id'' \<notin> due_rows env now ?rows) (rt_logs s)"
    unfolding r(2) l(4) filter_filter by (rule filter_cong) auto
  ultimately show ?thesis by blast
qed

text \<open>Days beyond 106751991 overflow: for those whose product is negative as \<^verbatim>\<open>i64\<close>, such as 999999999, the age limit
  lies in the future and everything the item has written up to now is deleted.\<close>

lemma item_cutoff_overflow:
  assumes "wrap_i64 (int (clamp_item_days days) * MICROS_PER_DAY) < 0" "now \<le> i64_max"
  shows "now \<le> item_cutoff now days"
  using assms by (auto simp: item_cutoff_def sat_sub_i64_def sat_i64_def i64_max_def i64_min_def)

lemma long_retention_deletes_all:
  assumes "quiet s" "in_i64 (rt_logs s)" "bt_ok (cu_kv s)"
    and "\<forall>e \<in> set (cu_kv s). starts_with (fst e) RETAIN_PREFIX \<longrightarrow> ce_text env (fst e) = fst e"
    and "i \<in> set live" "wrap_i64 (int (clamp_item_days (li_retention_days i)) * MICROS_PER_DAY) < 0" "now \<le> i64_max"
  shows "\<exists>n s'. apply_retention env live now s = (Inr n, s') \<and>
    (\<forall>r \<in> set (rt_logs s'). promoted (lr_labels r) ''data_id'' = li_item_id i \<longrightarrow> now < lr_timestamp r)"
proof -
  have gone: "expired now live r" if "promoted (lr_labels r) ''data_id'' = li_item_id i" "lr_timestamp r \<le> now" for r
    using that assms(5) item_cutoff_overflow [OF assms(6,7)] by (auto simp: expired_def list_ex_iff)
  have sc: "\<exists>n s'. apply_retention env live now s = (Inr n, s') \<and>
    rt_logs s' = filter (\<lambda>r. \<not> expired now live r \<and>
      promoted (lr_labels r) ''data_id'' \<notin> due_rows env now (scan_prefix RETAIN_PREFIX (cu_kv s))) (rt_logs s)"
    using retention_run_exact [OF assms(1-4)] .
  then show ?thesis using gone by (fastforce simp: not_less)
qed

lemma days_999999999: "wrap_i64 (int (clamp_item_days 999999999) * MICROS_PER_DAY) < 0"
  by (simp add: wrap_i64_def clamp_item_days_def MICROS_PER_DAY_def)

section \<open>A concrete state\<close>

definition w_item_log :: "string \<Rightarrow> int \<Rightarrow> string \<Rightarrow> log_record" where
  "w_item_log k ts item = \<lparr>lr_id = k, lr_timestamp = ts, lr_level = ''info'', lr_message = ''m'', lr_labels = [(''data_id'', item)],
     lr_payload = None\<rparr>"

definition w_clean_now :: int where "w_clean_now = 20000 * MICROS_PER_DAY"

definition w_clean_env :: "unit cleanup_env" where
  "w_clean_env = \<lparr>ce_rt = \<lparr>re_du = (\<lambda>_. 0), re_gc = (\<lambda>_. 0), re_stones = (\<lambda>_ _ _. 0), re_tok = (\<lambda>m. [m]), re_rank = rev\<rparr>,
     ce_text = id, ce_live_enc = (\<lambda>n. le_bytes (int n)), ce_live_dec = (\<lambda>v. map_option nat (micros_of v)),
     ce_until_enc = le_bytes, ce_until_dec = micros_of, ce_series = (\<lambda>_ _ _. (1, 1))\<rparr>"

definition w_clean_kv :: kv where
  "w_clean_kv = [(''retain/c'', le_bytes 5), (''spec-live/a'', le_bytes 7), (''spec-live/b'', le_bytes 2)]"

definition w_clean_db :: cleanup_db where
  "w_clean_db = \<lparr>ob_rows = (\<lambda>_. []), ob_cols = (\<lambda>t. Some (columns t)), ob_changes = 0, ob_faults = [], mt_points = [], mt_faults = [],
     rt_logs = [w_item_log ''1'' 1 ''a'', w_item_log ''2'' w_clean_now ''a'', w_item_log ''3'' 1 ''b'', w_item_log ''4'' w_clean_now ''c''],
     cu_kv = w_clean_kv, cu_zero_hits = []\<rparr>"

definition w_item :: "string \<Rightarrow> nat \<Rightarrow> live_item" where
  "w_item k days = \<lparr>li_item_id = k, li_retention_days = days, li_kind = ''log''\<rparr>"

lemma w_clean_quiet: "quiet w_clean_db"
  by (simp add: quiet_def w_clean_db_def ids_ok_def DELETE_BATCH_MAX_ROUNDS_def DELETE_BATCH_LIMIT_def) (simp add: w_item_log_def)

lemma w_clean_i64: "in_i64 (rt_logs w_clean_db)"
  by (simp add: in_i64_def w_clean_db_def w_item_log_def w_clean_now_def MICROS_PER_DAY_def i64_min_def i64_max_def)

lemma w_clean_ok: "bt_ok (cu_kv w_clean_db)"
  by (simp add: w_clean_db_def w_clean_kv_def bt_ok_def)

lemma le_bytes_micros: "i64_min \<le> t \<Longrightarrow> t \<le> i64_max \<Longrightarrow> ce_until_dec w_clean_env (le_bytes t) = Some t"
  by (simp add: w_clean_env_def micros_le_bytes)

lemma w_clean_due: "due_items w_clean_env w_clean_now (set (cu_kv w_clean_db)) = {''c''}"
proof -
  have "ce_until_dec w_clean_env (le_bytes 5) = Some 5" by (rule le_bytes_micros) (simp_all add: i64_min_def i64_max_def)
  then show ?thesis
    by (auto simp: due_items_def w_clean_db_def w_clean_kv_def after_prefix_def starts_with_def w_clean_env_def w_clean_now_def MICROS_PER_DAY_def)
qed

lemma mark_by_list:
  assumes "mt_faults s = []" "bt_ok (cu_kv s)" "\<forall>e \<in> set (cu_kv s). starts_with (fst e) LIVE_PREFIX \<longrightarrow> ce_text env (fst e) = fst e"
    and "distinct (map li_item_id live)"
  shows "\<exists>n m. mark_removed_items env live now s = (Inr n, s\<lparr>cu_kv := m\<rparr>) \<and>
    (\<forall>i \<in> set live. kv_get (live_key (li_item_id i)) m = Inr (ce_live_enc env (li_retention_days i)) \<and>
       kv_get (retain_key (li_item_id i)) m = Inl key_not_found) \<and>
    (\<forall>k. k \<noteq> [] \<and> k \<notin> li_item_id ` set live \<longrightarrow> kv_get (live_key k) m = Inl key_not_found \<and>
       kv_get (retain_key k) m = (case kv_get (live_key k) (cu_kv s) of
          Inr v \<Rightarrow> Inr (ce_until_enc env (deletion_date now (clamp_item_days (unwrap_or (ce_live_dec env v) 1))))
        | Inl _ \<Rightarrow> kv_get (retain_key k) (cu_kv s)))"
proof -
  let ?rows = "scan_prefix LIVE_PREFIX (cu_kv s)"
  have rows: "?rows = filter (\<lambda>e. starts_with (fst e) LIVE_PREFIX) (cu_kv s)" by (rule scan_prefix_exact [OF assms(2)])
  have d: "distinct (map fst (cu_kv s))" using assms(2) by (simp add: bt_ok_def strict_sorted_iff)
  have dr: "distinct (map fst ?rows)" unfolding rows using d by (rule distinct_map_filter)
  have look: "map_of ?rows (live_key k) = bt_get (cu_kv s) (live_key k)" for k
  proof -
    have "starts_with (live_key k) LIVE_PREFIX" by (simp add: starts_with_def live_key_def LIVE_PREFIX_def)
    then show ?thesis unfolding rows bt_get_def by (rule map_of_filter_key)
  qed
  have in_kv: "\<forall>(key, v) \<in> set ?rows. (\<exists>k. key = live_key k) \<and> ce_text env key = key \<and> kv_get key (cu_kv s) = Inr v"
  proof (intro ballI, unfold split_beta, intro conjI)
    fix e assume "e \<in> set ?rows"
    then have e: "e \<in> set (cu_kv s)" "starts_with (fst e) LIVE_PREFIX" unfolding rows by auto
    show "\<exists>k. fst e = live_key k" using live_keyD [OF e(2)] .
    show "ce_text env (fst e) = fst e" using assms(3) e by blast
    have "map_of (cu_kv s) (fst e) = Some (snd e)" using e(1) by (intro map_of_is_SomeI [OF d]) simp
    then show "kv_get (fst e) (cu_kv s) = Inr (snd e)" by (simp add: kv_get_def bt_get_def)
  qed
  obtain n m1 where g: "mark_gone env (map li_item_id live) now ?rows 0 s = (Inr n, s\<lparr>cu_kv := m1\<rparr>)"
    "\<forall>k. k \<noteq> [] \<and> k \<notin> set (map li_item_id live) \<longrightarrow>
      kv_get (live_key k) m1 = (if map_of ?rows (live_key k) = None then kv_get (live_key k) (cu_kv s) else Inl key_not_found) \<and>
      kv_get (retain_key k) m1 = (case map_of ?rows (live_key k) of Some v \<Rightarrow> Inr (gone_date env now v) | None \<Rightarrow> kv_get (retain_key k) (cu_kv s))"
    using mark_gone_spec [OF assms(1) in_kv dr, of "map li_item_id live" now 0] by (elim exE conjE)
  obtain m where l: "mark_live env live (s\<lparr>cu_kv := m1\<rparr>) = (Inr (), s\<lparr>cu_kv := m\<rparr>)"
    "\<forall>i \<in> set live. kv_get (live_key (li_item_id i)) m = Inr (ce_live_enc env (li_retention_days i)) \<and>
       kv_get (retain_key (li_item_id i)) m = Inl key_not_found"
    "\<forall>k. k \<notin> li_item_id ` set live \<longrightarrow> kv_get (live_key k) m = kv_get (live_key k) m1 \<and> kv_get (retain_key k) m = kv_get (retain_key k) m1"
    using mark_live_spec [of "s\<lparr>cu_kv := m1\<rparr>" live env] assms(1,4) by auto
  have run: "mark_removed_items env live now s = (Inr n, s\<lparr>cu_kv := m\<rparr>)"
    by (simp add: mark_removed_items_def ob_bind_def cu_scan_ok assms(1) g(1) l(1) ob_return_def)
  have "kv_get (live_key k) m = Inl key_not_found \<and>
      kv_get (retain_key k) m = (case kv_get (live_key k) (cu_kv s) of
          Inr v \<Rightarrow> Inr (gone_date env now v) | Inl _ \<Rightarrow> kv_get (retain_key k) (cu_kv s))"
    if "k \<noteq> []" "k \<notin> li_item_id ` set live" for k
    using g(2) l(3) that by (cases "bt_get (cu_kv s) (live_key k)") (simp_all add: look kv_get_def)
  then show ?thesis using run l(2) unfolding gone_date_def by (intro exI [of _ n] exI [of _ m]) simp
qed

text \<open>An answer with status 200 that is not a readable list is taken for an empty one, and then every remembered item
  counts as removed.\<close>

lemma unreadable_answer_is_empty:
  assumes "\<And>q. net q = Answered 200 text" "parse (unwrap_or text []) = None"
  shows "live_list net parse (Some url) password = Some []"
  using assms by (simp add: live_list_def fetch_live_items_def gse_http_sync_def Let_def parse_agent_specs_def)

lemma empty_list_removes_all:
  assumes "mt_faults s = []" "bt_ok (cu_kv s)" "\<forall>e \<in> set (cu_kv s). starts_with (fst e) LIVE_PREFIX \<longrightarrow> ce_text env (fst e) = fst e"
    and "kv_get (live_key k) (cu_kv s) = Inr v" "k \<noteq> []"
  shows "\<exists>n m. mark_removed_items env [] now s = (Inr n, s\<lparr>cu_kv := m\<rparr>) \<and> kv_get (retain_key k) m = Inr (gone_date env now v)"
proof -
  obtain n m where m: "mark_removed_items env [] now s = (Inr n, s\<lparr>cu_kv := m\<rparr>)" "kv_get (retain_key k) m = Inr (gone_date env now v)"
    using mark_by_list [of s env "[]" now, OF assms(1-3)] assms(4,5) unfolding gone_date_def by auto
  then show ?thesis by blast
qed

section \<open>Properties\<close>

text \<open>C9: without a list of the items, because no address is set or the question to the management port fails, a run
  deletes nothing but what removed items left whose date has come, whatever else fails on the way: the
  logs, points and edges of every other item, the other tables and the remembered items are as they were.\<close>

theorem no_list_no_deletion:
  assumes "live_list net parse gse_url password = None" "ids_ok (rt_logs s)"
  shows "confined (due_items env now (set (cu_kv s))) s
    (snd (run_cleanup env net parse gse_url password global_days dedup_days now s))"
proof -
  have "run_cleanup env net parse gse_url password global_days dedup_days now s =
      ob_bind (apply_ts_retention env [] global_days now) (\<lambda>ts. ob_bind (apply_retention env [] now) (\<lambda>n.
        ob_bind (prune_ingest dedup_days now) (\<lambda>k.
          ob_return \<lparr>cr_log_deleted = fst n, cr_ts = ts, cr_ebpf_edges_deleted = snd n, cr_ingest_dedup_deleted = k\<rparr>))) s"
    by (simp add: run_cleanup_def assms(1) ob_bind_def [of "ob_return ()"] ob_return_def [of "()"] unwrap_or_def)
  moreover have "confines (set (cu_kv s)) (due_items env now (set (cu_kv s)))
      (ob_bind (apply_ts_retention env [] global_days now) (\<lambda>ts. ob_bind (apply_retention env [] now) (\<lambda>n.
        ob_bind (prune_ingest dedup_days now) (\<lambda>k.
          ob_return \<lparr>cr_log_deleted = fst n, cr_ts = ts, cr_ebpf_edges_deleted = snd n, cr_ingest_dedup_deleted = k\<rparr>))))"
    by (rule confines_phases) (simp_all add: due_not_empty)
  ultimately show ?thesis using confinesD [OF _ assms(2)] by fastforce
qed

theorem no_list_no_deletion_witness:
  "confined {''c''} w_clean_db
     (snd (run_cleanup w_clean_env (\<lambda>_. NoAnswer ''refused'') (\<lambda>_. None) (Some ''http://gse'') None 30 7 w_clean_now w_clean_db))"
proof -
  have "live_list (\<lambda>_. NoAnswer ''refused'') (\<lambda>_. None) (Some ''http://gse'') None = None"
    by (simp add: live_list_def fetch_live_items_def gse_http_sync_def Let_def)
  from no_list_no_deletion [where s = w_clean_db and now = w_clean_now and env = w_clean_env and global_days = 30 and dedup_days = 7, OF this] show ?thesis
    using w_clean_quiet by (simp add: w_clean_due quiet_def)
qed

text \<open>C23: with a list of the items and working stores, an item of the list is remembered with its days and no deletion
  of it is planned any more, an item that was remembered and is not in the list is forgotten and gets the
  date of its remembered days, and the plans of all other items stay as they were.\<close>

theorem mark_follows_list:
  assumes "mt_faults s = []" "bt_ok (cu_kv s)" "\<forall>e \<in> set (cu_kv s). starts_with (fst e) LIVE_PREFIX \<longrightarrow> ce_text env (fst e) = fst e"
    and "distinct (map li_item_id live)"
  shows "\<exists>n m. mark_removed_items env live now s = (Inr n, s\<lparr>cu_kv := m\<rparr>) \<and>
    (\<forall>i \<in> set live. kv_get (live_key (li_item_id i)) m = Inr (ce_live_enc env (li_retention_days i)) \<and>
       kv_get (retain_key (li_item_id i)) m = Inl key_not_found) \<and>
    (\<forall>k. k \<noteq> [] \<and> k \<notin> li_item_id ` set live \<longrightarrow> kv_get (live_key k) m = Inl key_not_found \<and>
       kv_get (retain_key k) m = (case kv_get (live_key k) (cu_kv s) of
          Inr v \<Rightarrow> Inr (ce_until_enc env (deletion_date now (clamp_item_days (unwrap_or (ce_live_dec env v) 1))))
        | Inl _ \<Rightarrow> kv_get (retain_key k) (cu_kv s)))"
  using mark_by_list [OF assms] .

theorem mark_follows_list_witness:
  "\<exists>n m. mark_removed_items w_clean_env [w_item ''a'' 3] w_clean_now w_clean_db = (Inr n, w_clean_db\<lparr>cu_kv := m\<rparr>) \<and>
     kv_get ''spec-live/a'' m = Inr (le_bytes 3) \<and> kv_get ''spec-live/b'' m = Inl key_not_found \<and>
     kv_get ''retain/b'' m = Inr (le_bytes (20002 * MICROS_PER_DAY)) \<and> kv_get ''retain/c'' m = Inr (le_bytes 5)"
proof -
  have m: "mt_faults w_clean_db = []" using w_clean_quiet by (simp add: quiet_def)
  have t: "\<forall>e \<in> set (cu_kv w_clean_db). starts_with (fst e) LIVE_PREFIX \<longrightarrow> ce_text w_clean_env (fst e) = fst e"
    by (simp add: w_clean_env_def)
  obtain n k where e: "mark_removed_items w_clean_env [w_item ''a'' 3] w_clean_now w_clean_db = (Inr n, w_clean_db\<lparr>cu_kv := k\<rparr>)"
    "\<forall>i \<in> set [w_item ''a'' 3]. kv_get (live_key (li_item_id i)) k = Inr (ce_live_enc w_clean_env (li_retention_days i)) \<and>
       kv_get (retain_key (li_item_id i)) k = Inl key_not_found"
    "\<forall>x. x \<noteq> [] \<and> x \<notin> li_item_id ` set [w_item ''a'' 3] \<longrightarrow> kv_get (live_key x) k = Inl key_not_found \<and>
       kv_get (retain_key x) k = (case kv_get (live_key x) (cu_kv w_clean_db) of
          Inr v \<Rightarrow> Inr (ce_until_enc w_clean_env (deletion_date w_clean_now (clamp_item_days (unwrap_or (ce_live_dec w_clean_env v) 1))))
        | Inl _ \<Rightarrow> kv_get (retain_key x) (cu_kv w_clean_db))"
    using mark_follows_list [OF m w_clean_ok t, of "[w_item ''a'' 3]" w_clean_now] by auto
  have 2: "ce_live_dec w_clean_env (le_bytes 2) = Some 2"
    by (simp add: w_clean_env_def micros_le_bytes i64_min_def i64_max_def)
  have d: "deletion_date w_clean_now (clamp_item_days 2) = 20002 * MICROS_PER_DAY"
    by (simp add: deletion_date_def clamp_item_days_def wrap_i64_def w_clean_now_def MICROS_PER_DAY_def)
  have b: "kv_get (live_key ''b'') (cu_kv w_clean_db) = Inr (le_bytes 2)"
    by (simp add: kv_get_def live_key_def w_clean_db_def w_clean_kv_def bt_get_def)
  have c: "kv_get (live_key ''c'') (cu_kv w_clean_db) = Inl key_not_found" "kv_get (retain_key ''c'') (cu_kv w_clean_db) = Inr (le_bytes 5)"
    by (simp_all add: kv_get_def live_key_def retain_key_def w_clean_db_def w_clean_kv_def bt_get_def)
  have "kv_get (live_key ''a'') k = Inr (le_bytes 3)" using e(2) by (simp add: w_item_def w_clean_env_def)
  moreover have "kv_get (live_key ''b'') k = Inl key_not_found" "kv_get (retain_key ''b'') k = Inr (le_bytes (20002 * MICROS_PER_DAY))"
    using e(3) [rule_format, of "''b''"] by (simp_all add: w_item_def b 2 d unwrap_or_def) (simp add: w_clean_env_def)
  moreover have "kv_get (retain_key ''c'') k = Inr (le_bytes 5)" using e(3) [rule_format, of "''c''"] by (simp add: w_item_def c)
  ultimately show ?thesis using e(1) by (intro exI [of _ n] exI [of _ k]) (simp add: live_key_def retain_key_def)
qed

text \<open>C24: with working stores a run of the deletion removes exactly the documents of listed items that are older than
  the item's days, and all documents of removed items whose date has come.\<close>

theorem retention_exact:
  assumes "quiet s" "in_i64 (rt_logs s)" "bt_ok (cu_kv s)"
    and "\<forall>e \<in> set (cu_kv s). starts_with (fst e) RETAIN_PREFIX \<longrightarrow> ce_text env (fst e) = fst e"
  shows "\<exists>n s'. apply_retention env live now s = (Inr n, s') \<and>
    rt_logs s' = filter (\<lambda>r. \<not> expired now live r \<and>
      promoted (lr_labels r) ''data_id'' \<notin> due_rows env now (scan_prefix RETAIN_PREFIX (cu_kv s))) (rt_logs s)"
  using retention_run_exact [OF assms] .

theorem retention_exact_witness:
  "\<exists>n s'. apply_retention w_clean_env [w_item ''a'' 3] w_clean_now w_clean_db = (Inr n, s') \<and>
     rt_logs s' = [w_item_log ''2'' w_clean_now ''a'', w_item_log ''3'' 1 ''b'']"
proof -
  have t: "\<forall>e \<in> set (cu_kv w_clean_db). starts_with (fst e) RETAIN_PREFIX \<longrightarrow> ce_text w_clean_env (fst e) = fst e"
    by (simp add: w_clean_env_def)
  have f: "filter (\<lambda>e. starts_with (fst e) RETAIN_PREFIX) w_clean_kv = [(''retain/c'', le_bytes 5)]"
    by (simp add: w_clean_kv_def starts_with_def RETAIN_PREFIX_def)
  then have sc: "scan_prefix RETAIN_PREFIX (cu_kv w_clean_db) = [(''retain/c'', le_bytes 5)]"
    using scan_prefix_exact [OF w_clean_ok, of RETAIN_PREFIX] by (simp add: w_clean_db_def)
  have "ce_until_dec w_clean_env (le_bytes 5) = Some 5" by (rule le_bytes_micros) (simp_all add: i64_min_def i64_max_def)
  then have due: "due_rows w_clean_env w_clean_now (scan_prefix RETAIN_PREFIX (cu_kv w_clean_db)) = {''c''}"
    by (auto simp: sc due_rows_def due_items_def after_prefix_def starts_with_def w_clean_env_def w_clean_now_def MICROS_PER_DAY_def)
  have "filter (\<lambda>r. \<not> expired w_clean_now [w_item ''a'' 3] r \<and> promoted (lr_labels r) ''data_id'' \<notin> {''c''}) (rt_logs w_clean_db) =
      [w_item_log ''2'' w_clean_now ''a'', w_item_log ''3'' 1 ''b'']"
    by (simp add: w_clean_db_def w_item_log_def expired_def w_item_def promoted_def bt_get_def unwrap_or_def item_cutoff_def sat_sub_i64_def
        sat_i64_def wrap_i64_def clamp_item_days_def w_clean_now_def MICROS_PER_DAY_def i64_max_def i64_min_def)
  then show ?thesis
    using retention_exact [OF w_clean_quiet w_clean_i64 w_clean_ok t, of "[w_item ''a'' 3]" w_clean_now] unfolding due by auto
qed

end
