(* ===== verification/Spec2Isabelle.thy ===== *)
theory Spec2Isabelle
  imports Admin_Spec Transfer_Correct Ebpf_Correct Trace_Summary Edge_Pairing Ip_Addr Apm_Sink Ebpf_Metrics Apm_Metrics Apm_Retention Ingest Log_Follow Agent_Restart Otlp_Receiver Cleanup
begin

text \<open>
  A model of \<^bold>\<open>vectorman\<close>, an operations platform in Rust: a management server (\<^verbatim>\<open>gse-server\<close>) keeps a ledger of hosts,
  agents, jobs and agent specs; on every host an agent (\<^verbatim>\<open>gse-agent\<close>) keeps a connection to it, runs jobs, moves files and
  collects logs, traces and eBPF statistics; the collected records go to a data server (\<^verbatim>\<open>dataserver\<close>), which stores them,
  aggregates traces and kernel edges, and deletes what is old.

  \<^bold>\<open>How the parts interact.\<close> Administrators use the management port (\<^verbatim>\<open>gse-server-core/src/http.rs\<close>); it changes the
  ledger and, for jobs, file transfers and specs, calls the agent over its session (\<^verbatim>\<open>server.rs\<close>, \<^verbatim>\<open>file_transfer.rs\<close>). An
  agent authenticates, pulls its spec, and starts and stops collectors by it (\<^verbatim>\<open>gse-agent-core/src/lib.rs\<close>,
  \<^verbatim>\<open>spec_apply.rs\<close>, \<^verbatim>\<open>collect/mod.rs\<close>). Collectors put batches into one bounded buffer, whose report loop posts them to
  the data server; ingestion (\<^verbatim>\<open>dataplane-ingest\<close>) drops repetitions by the key-value store, writes logs and points, and
  hands spans and edges to the sink (\<^verbatim>\<open>dataplane-apm\<close>), whose accumulators are flushed into the observation database and
  metric points; retention and eviction delete from all stores.

  \<^bold>\<open>Theories and sources.\<close> Paths are below \<^verbatim>\<open>src/crates/\<close> unless they start with \<^verbatim>\<open>bins/\<close>.

  \<^item> Foundations: \<^verbatim>\<open>Prelude\<close> (strings, decimal numbers, saturating arithmetic, trimming as the standard library does it),
    \<^verbatim>\<open>Btree\<close> (ordered maps and sets; its locale gives the folds of inserts and removals), \<^verbatim>\<open>Json\<close>, \<^verbatim>\<open>Sql_Table\<close> (tables as
    lists of rows), \<^verbatim>\<open>Fsys\<close> (a file tree with a fault at any call), \<^verbatim>\<open>Ip_Addr\<close> (addresses and networks), \<^verbatim>\<open>Proto\<close>
    (\<^verbatim>\<open>gse-proto\<close>, \<^verbatim>\<open>dataplane-core/src/error.rs\<close>).
  \<^item> Ledger: \<^verbatim>\<open>Ledger\<close>, \<^verbatim>\<open>Ledger_Specs\<close>, \<^verbatim>\<open>Ledger_Jobs\<close> (\<^verbatim>\<open>gse-server-core/src/ledger.rs\<close>): one definition per statement;
    an engine fault may strike any of them.
  \<^item> Management server: \<^verbatim>\<open>Template\<close>, \<^verbatim>\<open>Template_Store\<close> (\<^verbatim>\<open>template.rs\<close>, \<^verbatim>\<open>rerun.rs\<close>), \<^verbatim>\<open>Spec_Diff\<close> (\<^verbatim>\<open>spec.rs\<close>),
    \<^verbatim>\<open>Server_Config\<close> (\<^verbatim>\<open>config.rs\<close>), \<^verbatim>\<open>Session\<close> (\<^verbatim>\<open>session.rs\<close>), \<^verbatim>\<open>Job_Server\<close> and \<^verbatim>\<open>Agent_Link\<close> (\<^verbatim>\<open>server.rs\<close>,
    \<^verbatim>\<open>dataplane.rs\<close>), \<^verbatim>\<open>Admin_Http\<close> and \<^verbatim>\<open>Admin_Spec\<close> (\<^verbatim>\<open>http.rs\<close>), \<^verbatim>\<open>Job_File_Store\<close> (\<^verbatim>\<open>job_file_store.rs\<close>),
    \<^verbatim>\<open>File_Transfer\<close> (\<^verbatim>\<open>file_transfer.rs\<close>).
  \<^item> Agent: \<^verbatim>\<open>File_Io\<close> (\<^verbatim>\<open>gse-agent-core/src/file_io.rs\<close>), \<^verbatim>\<open>Agent_Jobs\<close> (\<^verbatim>\<open>config.rs\<close>, \<^verbatim>\<open>job.rs\<close>, \<^verbatim>\<open>upgrade.rs\<close>),
    \<^verbatim>\<open>Agent_Runtime\<close> (\<^verbatim>\<open>spec_apply.rs\<close>, \<^verbatim>\<open>collect/mod.rs\<close>, \<^verbatim>\<open>lib.rs\<close>), \<^verbatim>\<open>Log_Follow\<close> (\<^verbatim>\<open>collect/glob.rs\<close>, \<^verbatim>\<open>clean.rs\<close>,
    \<^verbatim>\<open>config.rs\<close>, \<^verbatim>\<open>logfile.rs\<close>), \<^verbatim>\<open>Otlp_Receiver\<close> (\<^verbatim>\<open>collect/otlp.rs\<close>), \<^verbatim>\<open>Agent_Upload\<close> (\<^verbatim>\<open>collect/buffer.rs\<close>, the report
    loop of \<^verbatim>\<open>collect/mod.rs\<close>).
  \<^item> eBPF: \<^verbatim>\<open>Ebpf_Abi\<close> (\<^verbatim>\<open>ebpf-abi\<close>), \<^verbatim>\<open>Ebpf_Programs\<close> (\<^verbatim>\<open>gse-ebpf-programs\<close>), \<^verbatim>\<open>Ebpf_Agent\<close> (\<^verbatim>\<open>gse-agent-ebpf\<close>).
  \<^item> Data server: \<^verbatim>\<open>Kv_Store\<close> (\<^verbatim>\<open>dataplane-kv\<close>), \<^verbatim>\<open>Log_Store\<close> (\<^verbatim>\<open>dataplane-log\<close>), \<^verbatim>\<open>Observation\<close> and \<^verbatim>\<open>Ingest\<close>
    (\<^verbatim>\<open>dataplane-ingest\<close>); of \<^verbatim>\<open>dataplane-apm\<close>: \<^verbatim>\<open>Obs_Db\<close> (\<^verbatim>\<open>lib.rs\<close>), \<^verbatim>\<open>Red_Samples\<close> (\<^verbatim>\<open>red.rs\<close>), \<^verbatim>\<open>Trace_Summary\<close>
    (\<^verbatim>\<open>accumulator.rs\<close>), \<^verbatim>\<open>Edge_Pairing\<close> (\<^verbatim>\<open>edge.rs\<close>), \<^verbatim>\<open>Service_Names\<close> (\<^verbatim>\<open>alias.rs\<close>, \<^verbatim>\<open>endpoint.rs\<close>,
    \<^verbatim>\<open>ebpf_edge.rs\<close>), \<^verbatim>\<open>Apm_Sink\<close> (\<^verbatim>\<open>sink.rs\<close>), \<^verbatim>\<open>Metric_Points\<close>, \<^verbatim>\<open>Apm_Metrics\<close> (\<^verbatim>\<open>aggregator.rs\<close>), \<^verbatim>\<open>Ebpf_Metrics\<close>
    (\<^verbatim>\<open>ebpf_metrics.rs\<close>), \<^verbatim>\<open>Apm_Retention\<close> (\<^verbatim>\<open>retention.rs\<close>, \<^verbatim>\<open>ebpf_retention.rs\<close>).
  \<^item> Compositions: \<^verbatim>\<open>Transfer_Correct\<close> (transfers over both agents and a faulty network), \<^verbatim>\<open>Ebpf_Correct\<close> (the kernel programs
    and the agent that drains their maps), \<^verbatim>\<open>Agent_Restart\<close> (the agent against the authentication of the server).

  \<^bold>\<open>How state and code correspond.\<close> A struct is a record with a prefix of its own on the fields, an enum a datatype; a \<^verbatim>\<open>u64\<close>
  or \<^verbatim>\<open>usize\<close> is a \<open>nat\<close> whose saturation or wrap-around is written out, an \<^verbatim>\<open>i64\<close> an \<open>int\<close> with the saturating operations of
  the code, and what the kernel shares with the agent is a 64 bit word. A string is its bytes. Fallible code returns
  \<open>Inl\<close> an error or \<open>Inr\<close> a value, with the state after it. The clock is an argument. A task that awaits lets others run: what
  they do meanwhile is the argument \<open>mid\<close> of the step. A system call, a statement or an engine call takes an entry from a
  list of faults, so a theorem over all states covers every pattern of failures. Hashes, encodings, decoders, regular
  expressions and the peers of calls are parameters; the laws that are used stand as hypotheses of the theorems.

  \<^bold>\<open>What the lemmas show.\<close> Of each component: what every operation gives on every branch, an invariant of its state, and its
  contract. The main groups: jobs end once and their results survive races; specs are stored well-formed, and the
  collectors of an agent follow them; authentication and token rotation; a file that is reported as transferred is
  complete, and every transfer ends; bytes counted in the kernel are reported exactly once; trace summaries are what their
  spans add up to; names follow the table of mappings; retention deletes what is old and nothing else; batches arrive in
  order, records are stored once; a followed log file yields each line once. A group of lemmas and properties shows where
  the code does not keep what its comments promise.

  \<^bold>\<open>Bounds and fuel.\<close> No definition runs out of fuel: loops are structural recursions or have a measure. A transfer is given a
  number of rounds, the model of its time limit, and enough rounds are shown to exist; deletions in batches and eviction
  have the bounds of the code (\<^verbatim>\<open>DELETE_BATCH_MAX_ROUNDS\<close>, the rounds of eviction), and what is left when a bound is hit is
  part of the statements.

  \<^bold>\<open>Not modelled.\<close> The command line tools and their screens (\<^verbatim>\<open>bins/vmctl\<close>, \<^verbatim>\<open>bins/dpc\<close>), the console's static server
  (\<^verbatim>\<open>bins/console\<close>) and the entry points (\<^verbatim>\<open>bins/*/src/main.rs\<close>) print, parse arguments and start tasks. The routes of the data server (\<^verbatim>\<open>bins/dataserver/src/http.rs\<close>) decode requests and call what is modelled; its queries (\<^verbatim>\<open>dataplane-apm/src/query.rs\<close>) are read-only SQL. The
  adapters \<^verbatim>\<open>dataplane-adapter-*\<close> are calls of the drivers of other databases. Loading eBPF objects, reading
  \<^verbatim>\<open>/sys\<close> and \<^verbatim>\<open>/proc\<close> (\<^verbatim>\<open>gse-agent-ebpf/src/attach.rs\<close>, \<^verbatim>\<open>btf.rs\<close>, \<^verbatim>\<open>cgroup.rs\<close>, \<^verbatim>\<open>preflight.rs\<close>) depend on the kernel. The
  collectors of host metrics and of container logs (\<^verbatim>\<open>collect/metrics.rs\<close>, \<^verbatim>\<open>k8s.rs\<close>) read the system and an API server. The
  frontend is not Rust. Timing, task scheduling and the memory of maps behind locks are outside the model.
\<close>

end
